(* ===== verification/Prelude.thy ===== *)
theory Prelude
  imports Main "HOL-Library.AList"
begin

text \<open>
  Shared vocabulary of the development: JavaScript values as the hosts see them after
  \<open>JSON.parse\<close>, JavaScript \<open>Map\<close>s as association lists that keep insertion order
  (\<open>Map.set\<close> is \<open>AList.update\<close>, \<open>Map.get\<close> is \<open>map_of\<close>, \<open>Map.delete\<close> is
  \<open>AList.delete\<close>), decimal printing of numbers, and the list lemmas several components
  use. \<open>undefined\<close> is \<open>None\<close>; numbers are integers (the values the modelled code
  computes with are counts, sequence numbers and milliseconds).
\<close>

named_theorems log_simps \<open>how the primitives of the store and the log act on each other\<close>
named_theorems frame \<open>fields an operation leaves unchanged\<close>

section \<open>JSON values\<close>

datatype json =
    JNull
  | JBool bool
  | JNum int
  | JStr string
  | JArr "json list"
  | JObj "(string \<times> json) list"

text \<open>JavaScript truthiness, \<open>Boolean(v)\<close>; \<open>undefined\<close> is falsy.\<close>

fun truthy :: "json option \<Rightarrow> bool" where
  "truthy None = False"
| "truthy (Some JNull) = False"
| "truthy (Some (JBool b)) = b"
| "truthy (Some (JNum n)) = (n \<noteq> 0)"
| "truthy (Some (JStr s)) = (s \<noteq> [])"
| "truthy (Some (JArr _)) = True"
| "truthy (Some (JObj _)) = True"

fun is_str :: "json option \<Rightarrow> bool" where
  "is_str (Some (JStr _)) = True"
| "is_str _ = False"

fun is_num :: "json option \<Rightarrow> bool" where
  "is_num (Some (JNum _)) = True"
| "is_num _ = False"

text \<open>\<open>v !== null && typeof v === 'object'\<close>: arrays count, \<open>undefined\<close> does not.\<close>

fun is_object :: "json option \<Rightarrow> bool" where
  "is_object (Some (JArr _)) = True"
| "is_object (Some (JObj _)) = True"
| "is_object _ = False"

fun str_of :: "json option \<Rightarrow> string option" where
  "str_of (Some (JStr s)) = Some s"
| "str_of _ = None"

fun num_of :: "json option \<Rightarrow> int option" where
  "num_of (Some (JNum n)) = Some n"
| "num_of _ = None"

fun arr_of :: "json option \<Rightarrow> json list option" where
  "arr_of (Some (JArr xs)) = Some xs"
| "arr_of _ = None"

section \<open>Printing numbers\<close>

definition digit_char :: "nat \<Rightarrow> char" where
  "digit_char n = char_of (48 + n)"

fun nat_string :: "nat \<Rightarrow> string" where
  "nat_string n = (if n < 10 then [digit_char n] else nat_string (n div 10) @ [digit_char (n mod 10)])"

declare nat_string.simps [simp del]

definition int_string :: "int \<Rightarrow> string" where
  "int_string i = (if i < 0 then CHR ''-'' # nat_string (nat (- i)) else nat_string (nat i))"

definition is_digit :: "char \<Rightarrow> bool" where
  "is_digit c \<longleftrightarrow> 48 \<le> (of_char c :: nat) \<and> (of_char c :: nat) \<le> 57"

section \<open>Property access\<close>

text \<open>
  \<open>v[k]\<close> on a value the code has already found to be an object. An array answers its
  decimal indices and \<open>length\<close>; properties inherited from \<open>Object.prototype\<close> are not
  modelled.
\<close>

fun index_of_key :: "json list \<Rightarrow> nat \<Rightarrow> string \<Rightarrow> json option" where
  "index_of_key [] i k = None"
| "index_of_key (x # xs) i k = (if nat_string i = k then Some x else index_of_key xs (Suc i) k)"

fun jfield :: "json \<Rightarrow> string \<Rightarrow> json option" where
  "jfield (JObj ps) k = map_of ps k"
| "jfield (JArr xs) k = (if k = ''length'' then Some (JNum (int (length xs))) else index_of_key xs 0 k)"
| "jfield _ k = None"

text \<open>\<open>v?.[k]\<close>: \<open>undefined\<close> stays \<open>undefined\<close>.\<close>

definition jget :: "json option \<Rightarrow> string \<Rightarrow> json option" where
  "jget v k = (case v of None \<Rightarrow> None | Some j \<Rightarrow> jfield j k)"

lemma jget_None [simp]: "jget None k = None"
  by (simp add: jget_def)

lemma jget_obj [simp]: "jget (Some (JObj ps)) k = map_of ps k"
  by (simp add: jget_def)

text \<open>The fields of an object that are not \<open>undefined\<close>, in the order given.\<close>

fun jobj :: "(string \<times> json option) list \<Rightarrow> json" where
  "jobj ps = JObj (List.map_filter (\<lambda>(k, v). map_option (Pair k) v) ps)"

lemma is_str_iff: "is_str v \<longleftrightarrow> (\<exists>s. v = Some (JStr s))"
  by (cases v rule: is_str.cases) auto

lemma is_num_iff: "is_num v \<longleftrightarrow> (\<exists>n. v = Some (JNum n))"
  by (cases v rule: is_num.cases) auto

section \<open>Maps with insertion order\<close>

definition mget_or :: "'v \<Rightarrow> ('k \<times> 'v) list \<Rightarrow> 'k \<Rightarrow> 'v" where
  "mget_or d m k = (case map_of m k of None \<Rightarrow> d | Some v \<Rightarrow> v)"

lemma mget_or_update [simp]: "mget_or d (AList.update k v m) k' = (if k = k' then v else mget_or d m k')"
  by (simp add: mget_or_def update_conv')

lemma mget_or_Nil [simp]: "mget_or d [] k = d"
  by (simp add: mget_or_def)

lemma map_of_update [simp]: "map_of (AList.update k v m) k' = (if k = k' then Some v else map_of m k')"
  by (simp add: update_conv')

lemma map_of_delete [simp]: "map_of (AList.delete k m) k' = (if k = k' then None else map_of m k')"
  by (simp add: delete_conv')

section \<open>Lists\<close>

text \<open>\<open>if (!xs.includes(x)) xs.push(x)\<close>.\<close>

definition push_new :: "'a \<Rightarrow> 'a list \<Rightarrow> 'a list" where
  "push_new x xs = (if x \<in> set xs then xs else xs @ [x])"

lemma set_push_new [simp]: "set (push_new x xs) = insert x (set xs)"
  by (auto simp: push_new_def)

lemma distinct_push_new [simp]: "distinct xs \<Longrightarrow> distinct (push_new x xs)"
  by (simp add: push_new_def)

text \<open>The position of an element, as \<open>new Map(xs.map((x, i) => [x, i]))\<close> answers it.\<close>

fun index_from :: "'a list \<Rightarrow> 'a \<Rightarrow> nat" where
  "index_from [] x = 0"
| "index_from (y # ys) x = (if y = x then 0 else Suc (index_from ys x))"

lemma index_from_less: "x \<in> set xs \<Longrightarrow> index_from xs x < length xs"
  by (induction xs) auto

lemma index_from_append:
  "index_from (xs @ ys) x = (if x \<in> set xs then index_from xs x else length xs + index_from ys x)"
  by (induction xs) auto

lemma index_from_nth: "distinct xs \<Longrightarrow> i < length xs \<Longrightarrow> index_from xs (xs ! i) = i"
  by (induction xs arbitrary: i) (auto simp: nth_Cons split: nat.splits)

lemma index_from_inj:
  "x \<in> set xs \<Longrightarrow> y \<in> set xs \<Longrightarrow> index_from xs x = index_from xs y \<Longrightarrow> x = y"
  by (induction xs) (auto split: if_splits)

text \<open>Counting the elements of a list that satisfy a predicate.\<close>

definition count_if :: "('a \<Rightarrow> bool) \<Rightarrow> 'a list \<Rightarrow> nat" where
  "count_if p xs = length (filter p xs)"

lemma count_if_simps [simp]:
  "count_if p [] = 0"
  "count_if p (x # xs) = (if p x then Suc (count_if p xs) else count_if p xs)"
  "count_if p (xs @ ys) = count_if p xs + count_if p ys"
  by (simp_all add: count_if_def)

lemma count_if_le: "count_if p xs \<le> length xs"
  by (simp add: count_if_def)

lemma find_Some_first:
  assumes "find P xs = Some x"
  shows "\<exists>ys zs. xs = ys @ x # zs \<and> P x \<and> (\<forall>y \<in> set ys. \<not> P y)"
  using assms
proof (induction xs)
  case Nil
  then show ?case by simp
next
  case (Cons a xs)
  show ?case
  proof (cases "P a")
    case True
    with Cons.prems have "a # xs = [] @ x # xs" and "P x" by auto
    then show ?thesis by fastforce
  next
    case False
    with Cons.prems have "find P xs = Some x" by simp
    with Cons.IH obtain ys zs where "xs = ys @ x # zs" "P x" "\<forall>y \<in> set ys. \<not> P y" by blast
    with False have "a # xs = (a # ys) @ x # zs \<and> P x \<and> (\<forall>y \<in> set (a # ys). \<not> P y)" by auto
    then show ?thesis by blast
  qed
qed

lemma find_append: "find P (xs @ ys) = (case find P xs of None \<Rightarrow> find P ys | Some x \<Rightarrow> Some x)"
  by (induction xs) auto

lemma find_not_None: "find P xs \<noteq> None \<longleftrightarrow> (\<exists>x \<in> set xs. P x)"
  by (induction xs) auto

text \<open>\<open>ORDER BY k DESC LIMIT 1\<close>.\<close>

fun greatest_by :: "('a \<Rightarrow> 'b::linorder) \<Rightarrow> 'a list \<Rightarrow> 'a option" where
  "greatest_by k [] = None"
| "greatest_by k (f # fs) = (case greatest_by k fs of None \<Rightarrow> Some f
     | Some g \<Rightarrow> if k f < k g then Some g else Some f)"

lemma greatest_by_None [simp]: "greatest_by k xs = None \<longleftrightarrow> xs = []"
  by (induction xs) (auto split: option.splits)

lemma greatest_by_Some: "greatest_by k xs = Some x \<Longrightarrow> x \<in> set xs \<and> (\<forall>y \<in> set xs. k y \<le> k x)"
  by (induction xs arbitrary: x) (fastforce split: option.splits if_splits)+

text \<open>On a list in strictly ascending order it is the last element.\<close>

lemma greatest_by_last: "sorted_wrt (\<lambda>x y. k x < k y) xs \<Longrightarrow> xs \<noteq> [] \<Longrightarrow> greatest_by k xs = Some (last xs)"
proof (induction xs)
  case (Cons x xs)
  show ?case
  proof (cases xs)
    case Nil
    then show ?thesis by simp
  next
    case (Cons y ys)
    with Cons.prems Cons.IH have "greatest_by k xs = Some (last xs)" "k x < k (last xs)" by auto
    with Cons show ?thesis by simp
  qed
qed simp

section \<open>Splitting strings\<close>

text \<open>\<open>s.split(d)\<close> for a one-character separator, and \<open>xs.join(d)\<close>.\<close>

fun split_on :: "char \<Rightarrow> string \<Rightarrow> string list" where
  "split_on d [] = [[]]"
| "split_on d (c # cs) = (if c = d then [] # split_on d cs
     else case split_on d cs of [] \<Rightarrow> [[c]] | s # ss \<Rightarrow> (c # s) # ss)"

fun join_with :: "char \<Rightarrow> string list \<Rightarrow> string" where
  "join_with d [] = []"
| "join_with d [s] = s"
| "join_with d (s # t # ts) = s @ d # join_with d (t # ts)"

lemma split_on_not_Nil [simp]: "split_on d s \<noteq> []"
  by (induction s) (auto split: list.splits)

lemma split_on_no_sep [simp]: "d \<notin> set s \<Longrightarrow> split_on d s = [s]"
  by (induction s) auto

lemma split_on_append: "d \<notin> set s \<Longrightarrow> split_on d (s @ d # t) = s # split_on d t"
  by (induction s) auto

lemma cut_at:
  "d \<notin> set a \<Longrightarrow> takeWhile (\<lambda>c. c \<noteq> d) (a @ d # x) = a"
  "d \<notin> set a \<Longrightarrow> dropWhile (\<lambda>c. c \<noteq> d) (a @ d # x) = d # x"
  by (induction a) auto

lemma cut_unique: "d \<notin> set a \<Longrightarrow> d \<notin> set b \<Longrightarrow> a @ d # x = b @ d # y \<Longrightarrow> a = b \<and> x = y"
  using cut_at(1) [of d a x] cut_at(1) [of d b y] by (metis append_same_eq list.inject same_append_eq)

lemma split_on_parts: "s \<in> set (split_on d t) \<Longrightarrow> d \<notin> set s"
proof (induction t arbitrary: s)
  case (Cons c cs)
  then show ?case by (cases "split_on d cs") (auto split: if_splits)
qed simp

lemma join_split [simp]: "join_with d (split_on d s) = s"
proof (induction s)
  case (Cons c cs)
  obtain t ts where t: "split_on d cs = t # ts" by (cases "split_on d cs") auto
  with Cons show ?case by (cases ts) auto
qed simp

lemma split_join: "ss \<noteq> [] \<Longrightarrow> \<forall>s \<in> set ss. d \<notin> set s \<Longrightarrow> split_on d (join_with d ss) = ss"
  by (induction ss rule: join_with.induct) (auto simp: split_on_append)

section \<open>Coercions\<close>

text \<open>The two signs beyond ASCII the messages use, as their UTF-8 bytes.\<close>

definition SECTION_SIGN :: string where "SECTION_SIGN = [CHR 0xC2, CHR 0xA7]"
definition EM_DASH :: string where "EM_DASH = [CHR 0xE2, CHR 0x80, CHR 0x94]"

definition or_null :: "json option \<Rightarrow> json" where
  "or_null v = (case v of None \<Rightarrow> JNull | Some j \<Rightarrow> j)"

text \<open>\<open>a ?? b\<close>.\<close>

fun nullish :: "json option \<Rightarrow> json option \<Rightarrow> json option" where
  "nullish None b = b"
| "nullish (Some JNull) b = b"
| "nullish a b = a"

text \<open>\<open>String(v)\<close>: an array joins its elements with commas, \<open>null\<close> as the empty text.\<close>

fun js_string :: "json \<Rightarrow> string"
  and js_elems :: "json list \<Rightarrow> string list" where
  "js_string JNull = ''null''"
| "js_string (JBool b) = (if b then ''true'' else ''false'')"
| "js_string (JNum n) = int_string n"
| "js_string (JStr s) = s"
| "js_string (JArr xs) = join_with (CHR '','') (js_elems xs)"
| "js_string (JObj ps) = ''[object Object]''"
| "js_elems [] = []"
| "js_elems (x # xs) = (if x = JNull then [] else js_string x) # js_elems xs"

definition js_String :: "json option \<Rightarrow> string" where
  "js_String v = (case v of None \<Rightarrow> ''undefined'' | Some j \<Rightarrow> js_string j)"

text \<open>\<open>s.trim()\<close>; the white space beyond ASCII is left in place.\<close>

definition js_space :: "char \<Rightarrow> bool" where
  "js_space c \<longleftrightarrow> (of_char c :: nat) \<in> {9, 10, 11, 12, 13, 32}"

definition js_trim :: "string \<Rightarrow> string" where
  "js_trim s = rev (dropWhile js_space (rev (dropWhile js_space s)))"

text \<open>\<open>s.includes(p)\<close> on strings.\<close>

fun str_includes :: "string \<Rightarrow> string \<Rightarrow> bool" where
  "str_includes p [] \<longleftrightarrow> p = []"
| "str_includes p (c # cs) \<longleftrightarrow> take (length p) (c # cs) = p \<or> str_includes p cs"

lemma str_includes_iff: "str_includes p s \<longleftrightarrow> (\<exists>a b. s = a @ p @ b)"
proof (induction s)
  case (Cons c cs)
  have "take (length p) (c # cs) = p \<longleftrightarrow> (\<exists>b. c # cs = p @ b)"
    by (metis append_eq_conv_conj append_take_drop_id)
  moreover have "(\<exists>a b. c # cs = a @ p @ b) \<longleftrightarrow> (\<exists>b. c # cs = p @ b) \<or> (\<exists>a b. cs = a @ p @ b)"
    by (metis Cons_eq_append_conv append_Cons)
  ultimately show ?case using Cons.IH by simp
qed simp

text \<open>The string a field holds, if it holds one; the entries \<open>Object.entries(v)\<close> of a value.\<close>

definition text_of :: "json option \<Rightarrow> string" where
  "text_of v = (case str_of v of Some s \<Rightarrow> s | None \<Rightarrow> [])"

definition members_of :: "json option \<Rightarrow> (string \<times> json) list" where
  "members_of v = (case v of Some (JObj ps) \<Rightarrow> ps
     | Some (JArr xs) \<Rightarrow> zip (map nat_string [0..<length xs]) xs | _ \<Rightarrow> [])"

text \<open>The characters of an identifier.\<close>

definition name_start :: "char \<Rightarrow> bool" where
  "name_start c \<longleftrightarrow> (let n = (of_char c :: nat) in 97 \<le> n \<and> n \<le> 122 \<or> 65 \<le> n \<and> n \<le> 90 \<or> n = 95)"

definition name_char :: "char \<Rightarrow> bool" where
  "name_char c \<longleftrightarrow> name_start c \<or> is_digit c"

section \<open>Results that may be errors\<close>

text \<open>A list of results in order, the first error first; and the next step of a computation that may have thrown.\<close>

fun results :: "('e + 'a) list \<Rightarrow> 'e + 'a list" where
  "results [] = Inr []"
| "results (Inl e # xs) = Inl e"
| "results (Inr x # xs) = map_sum id ((#) x) (results xs)"

fun and_then :: "'e + 'a \<Rightarrow> ('a \<Rightarrow> 'e + 'b) \<Rightarrow> 'e + 'b" where
  "and_then (Inl e) f = Inl e"
| "and_then (Inr x) f = f x"

lemma and_then_Inr: "and_then r f = Inr y \<longleftrightarrow> (\<exists>x. r = Inr x \<and> f x = Inr y)"
  by (cases r) auto

text \<open>\<open>if (bad) throw e\<close>.\<close>

definition throw_if :: "bool \<Rightarrow> 'e \<Rightarrow> 'e + unit" where
  "throw_if bad e = (if bad then Inl e else Inr ())"

lemma throw_if_Inr [simp]: "throw_if b e = Inr u \<longleftrightarrow> \<not> b"
  by (simp add: throw_if_def)

lemma results_Inr: "results rs = Inr xs \<longleftrightarrow> rs = map Inr xs"
proof (induction rs arbitrary: xs rule: results.induct)
  case (3 x rs)
  show ?case
  proof (cases xs)
    case (Cons y ys)
    then show ?thesis using 3 [of ys] by (cases "results rs") auto
  qed (cases "results rs"; simp)
qed auto

lemma two_steps: "R x y \<Longrightarrow> R y z \<Longrightarrow> R\<^sup>*\<^sup>* x z"
  by (rule rtranclp.rtrancl_into_rtrancl [OF r_into_rtranclp])

end
