(* ===== verification/Store.thy ===== *)
theory Store
  imports Prelude "HOL-Library.List_Lexorder" "HOL-Library.Char_ord" "HOL-Library.Product_Lexorder"
begin

text \<open>
  The durable tables of \<open>examples/hosts/v2-reference/src/store.ts\<close> and the SQL each
  method runs on them. A table is the list of its rows; a method that inserts under a
  primary key answers \<open>None\<close> where SQLite raises the constraint error. Columns that
  hold JSON text hold the parsed value, ISO timestamps are milliseconds, \<open>NULL\<close> is
  \<open>None\<close>. The clock the methods read is an argument.
\<close>

section \<open>Rows\<close>

datatype run_status =
    Pending | Running | Paused | Cancelling
  | WaitingApproval | WaitingInput | WaitingExternal
  | Completed | Failed | Cancelled

text \<open>\<open>TERMINAL\<close> of \<open>host.ts\<close> and the \<open>startsWith('waiting-')\<close> test of the executor.\<close>

fun terminal_status :: "run_status \<Rightarrow> bool" where
  "terminal_status Completed = True"
| "terminal_status Failed = True"
| "terminal_status Cancelled = True"
| "terminal_status _ = False"

fun waiting_status :: "run_status \<Rightarrow> bool" where
  "waiting_status WaitingApproval = True"
| "waiting_status WaitingInput = True"
| "waiting_status WaitingExternal = True"
| "waiting_status _ = False"

text \<open>The statuses as the rows and messages spell them.\<close>

fun status_name :: "run_status \<Rightarrow> string" where
  "status_name Pending = ''pending''"
| "status_name Running = ''running''"
| "status_name Paused = ''paused''"
| "status_name Cancelling = ''cancelling''"
| "status_name WaitingApproval = ''waiting-approval''"
| "status_name WaitingInput = ''waiting-input''"
| "status_name WaitingExternal = ''waiting-external''"
| "status_name Completed = ''completed''"
| "status_name Failed = ''failed''"
| "status_name Cancelled = ''cancelled''"

record comp_step =
  cs_node :: string
  cs_order :: nat
  cs_irreversible :: bool

record comp_attempt =
  ca_node :: string
  ca_attempt :: nat
  ca_outcome :: string
  ca_at :: nat
  ca_reason :: "string option"

record comp_state =
  cm_status :: string
  cm_plan :: "comp_step list"
  cm_attempts :: "comp_attempt list"

record run_row =
  run_id :: string
  r_tenant :: string
  r_workflow :: string
  r_status :: run_status
  r_era :: "nat option"
  r_owner :: "json option"
  r_options :: json
  r_inputs :: json
  r_created :: nat
  r_updated :: nat
  r_started :: "nat option"
  r_completed :: "nat option"
  r_node :: "string option"
  r_error :: "json option"
  r_source :: "string option"
  r_fork_mode :: "string option"
  r_from_seq :: "int option"
  r_comp :: "comp_state option"
  r_pause :: bool
  r_cancel :: bool
  r_pin_checked :: bool
  r_scope :: "string option"

record event_row =
  e_run :: string
  e_seq :: int
  e_id :: string
  e_type :: string
  e_payload :: json
  e_time :: nat
  e_node :: "string option"
  e_causation :: "string option"
  e_schema :: nat
  e_engine :: "json option"

record interrupt_row =
  i_id :: string
  i_run :: string
  i_node :: string
  i_key :: string
  i_kind :: string
  i_payload :: json
  i_expires :: nat
  i_resolved :: "nat option"
  i_resume :: "json option"
  i_created :: nat
  i_votes :: "(string \<times> string) list option"

record effect_row =
  f_id :: string
  f_run :: string
  f_node :: string
  f_attempt :: nat
  f_keying :: string
  f_state :: string
  f_provider :: "string option"
  f_invocation :: "string option"
  f_at :: nat
  f_bkey :: string
  f_outcome :: "json option"
  f_execution :: "nat option"

record idem_row =
  d_tenant :: string
  d_endpoint :: string
  d_key :: string
  d_digest :: string
  d_status :: "nat option"
  d_headers :: "(string \<times> string) list"
  d_body :: "json option"

record store =
  t_runs :: "run_row list"
  t_events :: "event_row list"
  t_interrupts :: "interrupt_row list"
  t_effects :: "effect_row list"
  t_idem :: "idem_row list"

section \<open>Runs\<close>

definition insertRun :: "run_row \<Rightarrow> 'a store_scheme \<Rightarrow> 'a store_scheme option" where
  "insertRun row s =
     (if run_id row \<in> run_id ` set (t_runs s) then None else Some (s\<lparr>t_runs := t_runs s @ [row]\<rparr>))"

definition getRun :: "string \<Rightarrow> 'a store_scheme \<Rightarrow> run_row option" where
  "getRun rid s = find (\<lambda>r. run_id r = rid) (t_runs s)"

text \<open>\<open>WHERE tenant = \<dots> [AND \<dots>] ORDER BY created_at DESC, run_id DESC LIMIT n\<close>.\<close>

definition run_order :: "run_row \<Rightarrow> nat \<times> string" where
  "run_order r = (r_created r, run_id r)"

definition listRuns :: "string \<Rightarrow> nat \<Rightarrow> (nat \<times> string) option \<Rightarrow> string option \<Rightarrow> run_status option
    \<Rightarrow> 'a store_scheme \<Rightarrow> run_row list" where
  "listRuns ten limit after wid st s = take limit (rev (sort_key run_order
     (filter (\<lambda>r. r_tenant r = ten
        \<and> (case wid of None \<Rightarrow> True | Some w \<Rightarrow> r_workflow r = w)
        \<and> (case st of None \<Rightarrow> True | Some x \<Rightarrow> r_status r = x)
        \<and> (case after of None \<Rightarrow> True
            | Some (c, i) \<Rightarrow> r_created r < c \<or> (r_created r = c \<and> run_id r < i))) (t_runs s))))"

definition updateRun :: "nat \<Rightarrow> string \<Rightarrow> (run_row \<Rightarrow> run_row) \<Rightarrow> 'a store_scheme \<Rightarrow> 'a store_scheme" where
  "updateRun now rid patch s =
     s\<lparr>t_runs := map (\<lambda>r. if run_id r = rid then (patch r)\<lparr>r_updated := now\<rparr> else r) (t_runs s)\<rparr>"

definition activeRunForScope :: "string \<Rightarrow> string \<Rightarrow> 'a store_scheme \<Rightarrow> run_row option" where
  "activeRunForScope ten scope s =
     find (\<lambda>r. r_tenant r = ten \<and> r_scope r = Some scope \<and> \<not> terminal_status (r_status r)) (t_runs s)"

definition nonTerminalRuns :: "'a store_scheme \<Rightarrow> run_row list" where
  "nonTerminalRuns s = filter (\<lambda>r. \<not> terminal_status (r_status r)) (t_runs s)"

section \<open>Events\<close>

definition insertEvent :: "event_row \<Rightarrow> 'a store_scheme \<Rightarrow> 'a store_scheme option" where
  "insertEvent row s =
     (if (e_run row, e_seq row) \<in> (\<lambda>e. (e_run e, e_seq e)) ` set (t_events s) then None
      else Some (s\<lparr>t_events := t_events s @ [row]\<rparr>))"

definition listEventRows :: "string \<Rightarrow> int \<Rightarrow> 'a store_scheme \<Rightarrow> event_row list" where
  "listEventRows rid after s =
     sort_key e_seq (filter (\<lambda>e. e_run e = rid \<and> e_seq e > after) (t_events s))"

text \<open>\<open>MAX(sequence)\<close>, and \<open>-1\<close> for a run without events.\<close>

definition lastSequence :: "string \<Rightarrow> 'a store_scheme \<Rightarrow> int" where
  "lastSequence rid s =
     fold (\<lambda>e m. if e_run e = rid then max m (e_seq e) else m) (t_events s) (-1)"

section \<open>Idempotency records (Layer 1)\<close>

definition idem_at :: "string \<Rightarrow> string \<Rightarrow> string \<Rightarrow> idem_row \<Rightarrow> bool" where
  "idem_at ten ep k d \<longleftrightarrow> d_tenant d = ten \<and> d_endpoint d = ep \<and> d_key d = k"

definition getIdempotency :: "string \<Rightarrow> string \<Rightarrow> string \<Rightarrow> 'a store_scheme \<Rightarrow> idem_row option" where
  "getIdempotency ten ep k s = find (idem_at ten ep k) (t_idem s)"

definition claimIdempotency :: "string \<Rightarrow> string \<Rightarrow> string \<Rightarrow> string \<Rightarrow> 'a store_scheme \<Rightarrow> bool \<times> 'a store_scheme" where
  "claimIdempotency ten ep k digest s =
     (if \<exists>d \<in> set (t_idem s). idem_at ten ep k d then (False, s)
      else (True, s\<lparr>t_idem := t_idem s @ [\<lparr>d_tenant = ten, d_endpoint = ep, d_key = k, d_digest = digest,
              d_status = None, d_headers = [], d_body = None\<rparr>]\<rparr>))"

definition completeIdempotency :: "string \<Rightarrow> string \<Rightarrow> string \<Rightarrow> nat \<Rightarrow> (string \<times> string) list \<Rightarrow> json option
    \<Rightarrow> 'a store_scheme \<Rightarrow> 'a store_scheme" where
  "completeIdempotency ten ep k st headers body s =
     s\<lparr>t_idem := map (\<lambda>d. if idem_at ten ep k d
         then d\<lparr>d_status := Some st, d_headers := headers, d_body := body\<rparr> else d) (t_idem s)\<rparr>"

definition releaseIdempotency :: "string \<Rightarrow> string \<Rightarrow> string \<Rightarrow> 'a store_scheme \<Rightarrow> 'a store_scheme" where
  "releaseIdempotency ten ep k s = s\<lparr>t_idem := filter (\<lambda>d. \<not> idem_at ten ep k d) (t_idem s)\<rparr>"

section \<open>Interrupts\<close>

definition insertInterrupt :: "interrupt_row \<Rightarrow> 'a store_scheme \<Rightarrow> 'a store_scheme option" where
  "insertInterrupt row s =
     (if \<exists>i \<in> set (t_interrupts s). i_id i = i_id row \<or> (i_run i = i_run row \<and> i_key i = i_key row)
      then None else Some (s\<lparr>t_interrupts := t_interrupts s @ [row]\<rparr>))"

definition getInterrupt :: "string \<Rightarrow> 'a store_scheme \<Rightarrow> interrupt_row option" where
  "getInterrupt iid s = find (\<lambda>i. i_id i = iid) (t_interrupts s)"

definition interruptByKey :: "string \<Rightarrow> string \<Rightarrow> 'a store_scheme \<Rightarrow> interrupt_row option" where
  "interruptByKey rid k s = find (\<lambda>i. i_run i = rid \<and> i_key i = k) (t_interrupts s)"

text \<open>\<open>ORDER BY created_at DESC LIMIT 1\<close>: the newest unresolved interrupt of the node.\<close>

fun newest :: "interrupt_row option \<Rightarrow> interrupt_row list \<Rightarrow> interrupt_row option" where
  "newest best [] = best"
| "newest None (i # is) = newest (Some i) is"
| "newest (Some b) (i # is) = newest (if i_created b < i_created i then Some i else Some b) is"

definition pendingInterruptForNode :: "string \<Rightarrow> string \<Rightarrow> 'a store_scheme \<Rightarrow> interrupt_row option" where
  "pendingInterruptForNode rid nid s =
     newest None (filter (\<lambda>i. i_run i = rid \<and> i_node i = nid \<and> i_resolved i = None) (t_interrupts s))"

definition unresolved :: "string \<Rightarrow> interrupt_row \<Rightarrow> bool" where
  "unresolved iid i \<longleftrightarrow> i_id i = iid \<and> i_resolved i = None"

text \<open>The conditional \<open>UPDATE \<dots> WHERE resolved_at IS NULL\<close>: did it change a row?\<close>

definition resolveInterrupt :: "nat \<Rightarrow> string \<Rightarrow> json \<Rightarrow> 'a store_scheme \<Rightarrow> bool \<times> 'a store_scheme" where
  "resolveInterrupt now iid resume s =
     (\<exists>i \<in> set (t_interrupts s). unresolved iid i,
      s\<lparr>t_interrupts := map (\<lambda>i. if unresolved iid i
          then i\<lparr>i_resolved := Some now, i_resume := Some resume\<rparr> else i) (t_interrupts s)\<rparr>)"

definition recordInterruptVotes :: "string \<Rightarrow> (string \<times> string) list \<Rightarrow> 'a store_scheme \<Rightarrow> bool \<times> 'a store_scheme" where
  "recordInterruptVotes iid votes s =
     (\<exists>i \<in> set (t_interrupts s). unresolved iid i,
      s\<lparr>t_interrupts := map (\<lambda>i. if unresolved iid i then i\<lparr>i_votes := Some votes\<rparr> else i) (t_interrupts s)\<rparr>)"

definition expiredPendingInterrupts :: "string \<Rightarrow> nat \<Rightarrow> 'a store_scheme \<Rightarrow> interrupt_row list" where
  "expiredPendingInterrupts kind now s =
     filter (\<lambda>i. i_kind i = kind \<and> i_resolved i = None \<and> i_expires i \<le> now) (t_interrupts s)"

text \<open>\<open>COALESCE(resume_json, '{"invalidated":true}')\<close>.\<close>

definition invalidateInterruptsForRun :: "nat \<Rightarrow> string \<Rightarrow> 'a store_scheme \<Rightarrow> 'a store_scheme" where
  "invalidateInterruptsForRun now rid s =
     s\<lparr>t_interrupts := map (\<lambda>i. if i_run i = rid \<and> i_resolved i = None
         then i\<lparr>i_resolved := Some now,
                i_resume := (case i_resume i of None \<Rightarrow> Some (JObj [(''invalidated'', JBool True)]) | Some v \<Rightarrow> Some v)\<rparr>
         else i) (t_interrupts s)\<rparr>"

section \<open>Effects (Layer 2)\<close>

fun least_attempt :: "effect_row list \<Rightarrow> effect_row option" where
  "least_attempt [] = None"
| "least_attempt (f # fs) = (case least_attempt fs of None \<Rightarrow> Some f
     | Some g \<Rightarrow> if f_attempt g < f_attempt f then Some g else Some f)"

definition effectIdentity :: "string \<Rightarrow> 'a store_scheme \<Rightarrow> (string \<times> string option) option" where
  "effectIdentity bkey s =
     map_option (\<lambda>f. (f_id f, f_provider f)) (least_attempt (filter (\<lambda>f. f_bkey f = bkey) (t_effects s)))"

definition effect_key :: "effect_row \<Rightarrow> string \<times> string \<times> nat" where
  "effect_key f = (f_run f, f_id f, f_attempt f)"

text \<open>Insert-if-absent on \<open>(run_id, effect_id, attempt)\<close>; the loser reads the row that is there.\<close>

definition claimEffect :: "effect_row \<Rightarrow> 'a store_scheme \<Rightarrow> (effect_row \<times> bool) \<times> 'a store_scheme" where
  "claimEffect row s = (case find (\<lambda>f. effect_key f = effect_key row) (t_effects s) of
       Some f \<Rightarrow> ((f, False), s)
     | None \<Rightarrow> ((row, True), s\<lparr>t_effects := t_effects s @ [row]\<rparr>))"

definition updateEffect :: "string \<Rightarrow> string \<Rightarrow> nat \<Rightarrow> (effect_row \<Rightarrow> effect_row) \<Rightarrow> 'a store_scheme \<Rightarrow> 'a store_scheme" where
  "updateEffect rid eid att patch s =
     s\<lparr>t_effects := map (\<lambda>f. if effect_key f = (rid, eid, att) then patch f else f) (t_effects s)\<rparr>"

definition starts_with :: "string \<Rightarrow> string \<Rightarrow> bool" where
  "starts_with p s \<longleftrightarrow> take (length p) s = p"

definition completedEffect :: "string \<Rightarrow> 'a store_scheme \<Rightarrow> effect_row option" where
  "completedEffect bkey s = least_attempt (filter (\<lambda>f. f_bkey f = bkey \<and> f_state f = ''completed''
     \<and> f_outcome f \<noteq> None
     \<and> (case f_invocation f of None \<Rightarrow> True | Some v \<Rightarrow> \<not> starts_with ''replay-of:'' v)) (t_effects s))"

definition effectsForRun :: "string \<Rightarrow> 'a store_scheme \<Rightarrow> effect_row list" where
  "effectsForRun rid s =
     sort_key (\<lambda>f. (f_at f, f_attempt f)) (filter (\<lambda>f. f_run f = rid) (t_effects s))"

definition execution_of :: "effect_row \<Rightarrow> nat" where
  "execution_of f = (case f_execution f of None \<Rightarrow> 1 | Some n \<Rightarrow> n)"

definition effectOutcome :: "string \<Rightarrow> string \<Rightarrow> nat \<Rightarrow> 'a store_scheme \<Rightarrow> effect_row option" where
  "effectOutcome rid nid n s = greatest_by (\<lambda>f. (0::nat, f_attempt f))
     (filter (\<lambda>f. f_run f = rid \<and> f_node f = nid \<and> execution_of f = n \<and> f_outcome f \<noteq> None) (t_effects s))"

definition effectOutcomeById :: "string \<Rightarrow> string \<Rightarrow> 'a store_scheme \<Rightarrow> effect_row option" where
  "effectOutcomeById rid eid s = greatest_by (\<lambda>f. (execution_of f, f_attempt f))
     (filter (\<lambda>f. f_run f = rid \<and> f_id f = eid \<and> f_outcome f \<noteq> None) (t_effects s))"

section \<open>Lemmas\<close>

lemma find_map_eq:
  assumes "\<And>x. P (g x) = P x"
  shows "find P (map g xs) = map_option g (find P xs)"
  by (induction xs) (auto simp: assms)

lemma getRun_id: "getRun rid s = Some r \<Longrightarrow> run_id r = rid"
  by (auto simp: getRun_def find_Some_iff)

lemma getRun_updateRun:
  assumes "\<And>r. run_id (patch r) = run_id r"
  shows "getRun rid' (updateRun now rid patch s) =
     (if rid' = rid then map_option (\<lambda>r. (patch r)\<lparr>r_updated := now\<rparr>) (getRun rid s) else getRun rid' s)"
proof -
  let ?g = "\<lambda>r. if run_id r = rid then (patch r)\<lparr>r_updated := now\<rparr> else r"
  have "getRun rid' (updateRun now rid patch s) = map_option ?g (getRun rid' s)"
    unfolding getRun_def updateRun_def by (simp add: find_map_eq assms)
  then show ?thesis
    by (cases "getRun rid' s") (auto dest: getRun_id)
qed

lemma getRun_insertRun:
  assumes "insertRun row s = Some s'"
  shows "getRun (run_id row) s' = Some row"
    and "rid \<noteq> run_id row \<Longrightarrow> getRun rid s' = getRun rid s"
proof -
  from assms have s': "s' = s\<lparr>t_runs := t_runs s @ [row]\<rparr>" and new: "run_id row \<notin> run_id ` set (t_runs s)"
    by (auto simp: insertRun_def split: if_splits)
  from new have "\<not> (\<exists>r \<in> set (t_runs s). run_id r = run_id row)" by (metis image_eqI)
  then have "find (\<lambda>r. run_id r = run_id row) (t_runs s) = None"
    by (simp only: find_None_iff) blast
  then show "getRun (run_id row) s' = Some row"
    by (simp add: getRun_def s' find_append)
  show "rid \<noteq> run_id row \<Longrightarrow> getRun rid s' = getRun rid s"
    by (simp add: getRun_def s' find_append split: option.split)
qed

lemma updateRun_tables [simp]:
  "t_events (updateRun now rid patch s) = t_events s"
  "t_interrupts (updateRun now rid patch s) = t_interrupts s"
  "t_effects (updateRun now rid patch s) = t_effects s"
  "t_idem (updateRun now rid patch s) = t_idem s"
  by (simp_all add: updateRun_def)

lemma updateRun_ids:
  assumes "\<And>r. run_id (patch r) = run_id r"
  shows "map run_id (t_runs (updateRun now rid patch s)) = map run_id (t_runs s)"
  by (simp add: updateRun_def assms)

lemma invalidate_tables [simp]:
  "t_runs (invalidateInterruptsForRun now rid s) = t_runs s"
  "t_events (invalidateInterruptsForRun now rid s) = t_events s"
  "t_effects (invalidateInterruptsForRun now rid s) = t_effects s"
  "t_idem (invalidateInterruptsForRun now rid s) = t_idem s"
  by (simp_all add: invalidateInterruptsForRun_def)

lemma getRun_frame: "t_runs s = t_runs s' \<Longrightarrow> getRun rid s = getRun rid s'"
  by (simp add: getRun_def)

subsection \<open>Insert-if-absent claims\<close>

text \<open>
  Several tables guard an action by inserting a row under a unique key and looking whether
  the insert went through. The contract they share: a claim wins exactly when the key is
  free, a winner occupies the key, a loser changes nothing, and other keys are untouched.
\<close>

locale claim_table =
  fixes held :: "'k \<Rightarrow> 's \<Rightarrow> bool"
    and claim :: "'k \<Rightarrow> 's \<Rightarrow> bool \<times> 's"
  assumes wins_iff_free: "fst (claim k s) \<longleftrightarrow> \<not> held k s"
    and claim_holds: "held k (snd (claim k s))"
    and claim_other: "k' \<noteq> k \<Longrightarrow> held k' (snd (claim k s)) = held k' s"
    and loser_changes_nothing: "held k s \<Longrightarrow> snd (claim k s) = s"
begin

fun claims :: "'k list \<Rightarrow> 's \<Rightarrow> bool list \<times> 's" where
  "claims [] s = ([], s)"
| "claims (k # ks) s = (let (b, s1) = claim k s; (bs, s2) = claims ks s1 in (b # bs, s2))"

lemma claims_held: "held k s \<Longrightarrow> held k (snd (claims ks s))"
proof (induction ks arbitrary: s)
  case (Cons a ks)
  then have "held k (snd (claim a s))"
    by (cases "k = a") (auto simp: claim_holds claim_other)
  with Cons.IH show ?case by (auto simp: split_beta Let_def)
qed simp

lemma claims_length: "length (fst (claims ks s)) = length ks"
  by (induction ks arbitrary: s) (auto simp: split_beta Let_def)

lemma no_win_when_held:
  "held k s \<Longrightarrow> (k, True) \<notin> set (zip ks (fst (claims ks s)))"
proof (induction ks arbitrary: s)
  case (Cons a ks)
  then have "held k (snd (claim a s))"
    by (cases "k = a") (auto simp: claim_holds claim_other)
  moreover have "\<not> (a = k \<and> fst (claim a s))"
    using Cons.prems wins_iff_free by auto
  ultimately show ?case using Cons.IH by (auto simp: split_beta Let_def)
qed simp

text \<open>Of any sequence of claims, at most one wins each key.\<close>

lemma at_most_one_winner:
  "length (filter (\<lambda>p. p = (k, True)) (zip ks (fst (claims ks s)))) \<le> 1"
proof (induction ks arbitrary: s)
  case (Cons a ks)
  obtain b s1 where c: "claim a s = (b, s1)" by (cases "claim a s")
  obtain bs s2 where cs: "claims ks s1 = (bs, s2)" by (cases "claims ks s1")
  show ?case
  proof (cases "a = k \<and> b")
    case True
    with c claim_holds [of k s] have "held k s1" by simp
    from no_win_when_held [OF this, of ks] cs have "filter (\<lambda>p. p = (k, True)) (zip ks bs) = []"
      by (auto simp: filter_empty_conv)
    with True c cs show ?thesis by simp
  next
    case False
    with c cs have "filter (\<lambda>p. p = (k, True)) (zip (a # ks) (fst (claims (a # ks) s)))
        = filter (\<lambda>p. p = (k, True)) (zip ks (fst (claims ks s1)))" by simp
    with Cons.IH [of s1] show ?thesis by simp
  qed
qed simp

end

definition idem_held :: "string \<times> string \<times> string \<Rightarrow> store \<Rightarrow> bool" where
  "idem_held k s \<longleftrightarrow> getIdempotency (fst k) (fst (snd k)) (snd (snd k)) s \<noteq> None"

interpretation idem: claim_table idem_held
  "\<lambda>k s. claimIdempotency (fst k) (fst (snd k)) (snd (snd k)) digest s"
  for digest
proof unfold_locales
  fix k k' :: "string \<times> string \<times> string" and s :: store
  have held: "idem_held k s \<longleftrightarrow> (\<exists>d \<in> set (t_idem s). idem_at (fst k) (fst (snd k)) (snd (snd k)) d)" for k s
    by (simp only: idem_held_def getIdempotency_def find_not_None)
  let ?claim = "\<lambda>k s. claimIdempotency (fst k) (fst (snd k)) (snd (snd k)) digest s"
  show "fst (?claim k s) = (\<not> idem_held k s)"
    by (simp add: held claimIdempotency_def)
  show "idem_held k (snd (?claim k s))"
    unfolding held by (auto simp: claimIdempotency_def idem_at_def)
  show "k' \<noteq> k \<Longrightarrow> idem_held k' (snd (?claim k s)) = idem_held k' s"
    unfolding held by (auto simp: claimIdempotency_def idem_at_def prod_eq_iff)
  show "idem_held k s \<Longrightarrow> snd (?claim k s) = s"
    unfolding held by (simp add: claimIdempotency_def)
qed

definition effect_held :: "string \<times> string \<times> nat \<Rightarrow> store \<Rightarrow> bool" where
  "effect_held k s \<longleftrightarrow> (\<exists>f \<in> set (t_effects s). effect_key f = k)"

definition effect_claim :: "effect_row \<Rightarrow> string \<times> string \<times> nat \<Rightarrow> store \<Rightarrow> bool \<times> store" where
  "effect_claim row k s =
     (let r = claimEffect (row\<lparr>f_run := fst k, f_id := fst (snd k), f_attempt := snd (snd k)\<rparr>) s
      in (snd (fst r), snd r))"

interpretation eff: claim_table effect_held "effect_claim row"
  for row
proof unfold_locales
  fix k :: "string \<times> string \<times> nat" and s :: store
  let ?row = "row\<lparr>f_run := fst k, f_id := fst (snd k), f_attempt := snd (snd k)\<rparr>"
  have key: "effect_key ?row = k" by (simp add: effect_key_def)
  show "fst (effect_claim row k s) = (\<not> effect_held k s)"
    by (auto simp: effect_claim_def effect_held_def claimEffect_def Let_def key find_None_iff find_Some_iff
        split: option.splits)
  show "effect_held k (snd (effect_claim row k s))"
    using key by (auto simp: effect_claim_def effect_held_def claimEffect_def Let_def find_Some_iff
        split: option.splits)
  show "effect_held k s \<Longrightarrow> snd (effect_claim row k s) = s"
    by (auto simp: effect_claim_def effect_held_def claimEffect_def Let_def key find_None_iff
        split: option.splits)
  fix k' assume "k' \<noteq> k"
  then show "effect_held k' (snd (effect_claim row k s)) = effect_held k' s"
    using key by (auto simp: effect_claim_def effect_held_def claimEffect_def Let_def split: option.splits)
qed

end
