(* ===== verification/Host_Types.thy ===== *)
theory Host_Types
  imports Store
begin

text \<open>
  The context every module receives (\<open>host.ts\<close>): the caller's subject, the workflow
  definitions, the loaded contract (\<open>artifacts.ts\<close>), the configuration values the
  modelled code reads, and the process state beside the durable store: the clock, the
  supply of random identifiers, the executor's in-memory maps and the fan-out channel.
  What comes from outside the repository (the contract's documents, the regular
  expression engine, the random source, the digests, and the ISO 8601 printing and parsing
  of a time) is a field of the host: \<open>h_hmac\<close> and \<open>h_sha256\<close> answer raw bytes.
\<close>

section \<open>Errors\<close>

text \<open>
  A \<open>HostError\<close> carries a code of the registry, its message and details; a
  \<open>NodeFailure\<close> is the executor's own failure of a node; any other exception is a
  \<open>JsError\<close>.
\<close>

datatype exn =
    HostError (exn_code: string) (exn_message: string) (exn_details: "json option")
  | NodeFailure (exn_code: string) (exn_message: string) (exn_details: "json option")
  | JsError (exn_message: string)

section \<open>Subjects and workflows\<close>

record subject =
  sub_issuer :: string
  sub_id :: string
  sub_tenant :: string
  sub_lane :: string
  sub_kind :: string

record wf_node =
  nd_id :: string
  nd_type :: string
  nd_config :: "(string \<times> json) list"
  nd_inputs :: "(string \<times> json) list"
  nd_agent :: "string option"

record wf_edge =
  ed_from :: "string option"
  ed_to :: "string option"
  ed_source :: "string option"
  ed_target :: "string option"
  ed_sourceNodeId :: "string option"
  ed_targetNodeId :: "string option"
  ed_trigger :: "json option"
  ed_condition :: "json option"

record wf_var =
  v_name :: string
  v_default :: "json option"
  v_required :: "bool option"

record wf_def =
  wf_id :: string
  wf_nodes :: "wf_node list"
  wf_edges :: "wf_edge list"
  wf_vars :: "wf_var list"

section \<open>The contract and the host\<close>

record artifacts =
  a_rows :: "(string \<times> string) list"
  a_v2_types :: "string list"
  a_vendor :: "string \<Rightarrow> bool"
  a_orgs :: "string list"
  a_error_codes :: "string list"
  a_parts :: bool

record host =
  h_art :: artifacts
  h_workflows :: "(string \<times> wf_def) list"
  h_opaque :: "nat \<Rightarrow> string"
  h_regex :: "string \<Rightarrow> string \<Rightarrow> bool option"
  h_seams :: bool
  h_changes :: "string list"
  h_retention_ms :: nat
  h_forms :: "(json \<Rightarrow> string list \<Rightarrow> string option) option"
  h_kid :: string
  h_secret :: string
  h_legacy_secret :: string
  h_hmac :: "string \<Rightarrow> string \<Rightarrow> string"
  h_sha256 :: "string \<Rightarrow> string"
  h_iso :: "nat \<Rightarrow> string"
  h_date :: "string \<Rightarrow> nat option"

definition workflow_of :: "host \<Rightarrow> string \<Rightarrow> wf_def option" where
  "workflow_of h wid = map_of (h_workflows h) wid"

text \<open>Constants of \<open>config.ts\<close>.\<close>

definition ENGINE_VERSION :: nat where "ENGINE_VERSION = 1"
definition EVENT_LOG_SCHEMA_VERSION :: nat where "EVENT_LOG_SCHEMA_VERSION = 3"
definition EVENT_SCHEMA_VERSION :: nat where "EVENT_SCHEMA_VERSION = 1"
definition EXTENSION_ORG :: string where "EXTENSION_ORG = ''openwop-v2-reference''"
definition LEGACY_ISSUER :: string where "LEGACY_ISSUER = ''urn:openwop:legacy''"

section \<open>Events and the process state\<close>

record event_doc =
  doc_id :: string
  doc_run :: string
  doc_type :: string
  doc_payload :: json
  doc_time :: nat
  doc_seq :: int
  doc_schema :: nat
  doc_node :: "string option"
  doc_engine :: "json option"
  doc_causation :: "string option"

record appended =
  ap_run :: string
  ap_tenant :: string
  ap_fork_mode :: "string option"
  ap_from_seq :: "int option"
  ap_doc :: event_doc

text \<open>
  \<open>w_exc\<close> is an exception on its way to a handler: the primitives below do nothing while
  it is set, as the statements after a \<open>throw\<close> are not reached, and the handler clears it.
\<close>

record credential_row =
  k_subject :: string
  k_provider :: string
  k_ref :: string
  k_expires :: nat
  k_scopes :: "string list"

record world = store +
  w_clock :: nat
  w_rng :: nat
  w_exc :: "exn option"
  w_active :: "string list"
  w_queue :: "string list"
  w_cancel_reasons :: "(string \<times> string) list"
  w_pause_policy :: "(string \<times> string) list"
  w_fanout :: "appended list"
  w_bus :: "appended list"
  w_creds :: "credential_row list"
  w_inflight :: "string list"

definition guarded :: "(world \<Rightarrow> world) \<Rightarrow> world \<Rightarrow> world" where
  "guarded f w = (if w_exc w = None then f w else w)"

definition raise_exn :: "exn \<Rightarrow> world \<Rightarrow> world" where
  "raise_exn e = guarded (\<lambda>w. w\<lparr>w_exc := Some e\<rparr>)"

lemma guarded_ok [simp]: "w_exc w = None \<Longrightarrow> guarded f w = f w"
  by (simp add: guarded_def)

lemma guarded_exc [simp]: "w_exc w = Some e \<Longrightarrow> guarded f w = w"
  by (simp add: guarded_def)

text \<open>An operation keeps a property of the world when its unguarded body does.\<close>

lemma guarded_keeps: "P w \<Longrightarrow> (w_exc w = None \<Longrightarrow> P (f w)) \<Longrightarrow> P (guarded f w)"
  by (simp add: guarded_def)

section \<open>Event types\<close>

text \<open>The registered v2 names the host emits or reads.\<close>

definition RUN_STARTED :: string where "RUN_STARTED = ''run.started''"
definition RUN_COMPLETED :: string where "RUN_COMPLETED = ''run.completed''"
definition RUN_FAILED :: string where "RUN_FAILED = ''run.failed''"
definition RUN_CANCELLED :: string where "RUN_CANCELLED = ''run.cancelled''"
definition RUN_PAUSED :: string where "RUN_PAUSED = ''run.paused''"
definition RUN_RESUMED :: string where "RUN_RESUMED = ''run.resumed''"
definition NODE_STARTED :: string where "NODE_STARTED = ''node.started''"
definition NODE_COMPLETED :: string where "NODE_COMPLETED = ''node.completed''"
definition NODE_FAILED :: string where "NODE_FAILED = ''node.failed''"
definition NODE_SKIPPED :: string where "NODE_SKIPPED = ''node.skipped''"
definition NODE_SUSPENDED :: string where "NODE_SUSPENDED = ''node.suspended''"
definition NODE_RESUMED :: string where "NODE_RESUMED = ''node.resumed''"
definition NODE_CANCELLED :: string where "NODE_CANCELLED = ''node.cancelled''"
definition INTERRUPT_REQUESTED :: string where "INTERRUPT_REQUESTED = ''interrupt.requested''"
definition INTERRUPT_RESOLVED :: string where "INTERRUPT_RESOLVED = ''interrupt.resolved''"
definition APPROVAL_REJECTED :: string where "APPROVAL_REJECTED = ''approval.rejected''"
definition CAP_BREACHED :: string where "CAP_BREACHED = ''cap.breached''"
definition BUDGET_RESERVED :: string where "BUDGET_RESERVED = ''budget.reserved''"
definition BUDGET_CONSUMED :: string where "BUDGET_CONSUMED = ''budget.consumed''"
definition BUDGET_EXHAUSTED :: string where "BUDGET_EXHAUSTED = ''budget.exhausted''"
definition BUDGET_THRESHOLD :: string where "BUDGET_THRESHOLD = ''budget.threshold-crossed''"
definition TOOL_CALLED :: string where "TOOL_CALLED = ''agent.tool-called''"
definition TOOL_RETURNED :: string where "TOOL_RETURNED = ''agent.tool-returned''"
definition AGENT_DECIDED :: string where "AGENT_DECIDED = ''agent.decided''"
definition ARTIFACT_CREATED :: string where "ARTIFACT_CREATED = ''artifact.created''"
definition CONV_OPENED :: string where "CONV_OPENED = ''conversation.opened''"
definition CONV_EXCHANGED :: string where "CONV_EXCHANGED = ''conversation.exchanged''"
definition CONV_CLOSED :: string where "CONV_CLOSED = ''conversation.closed''"
definition COMP_REQUESTED :: string where "COMP_REQUESTED = ''compensation.requested''"
definition COMP_STARTED :: string where "COMP_STARTED = ''compensation.started''"
definition COMP_COMPLETED :: string where "COMP_COMPLETED = ''compensation.completed''"
definition COMP_FAILED :: string where "COMP_FAILED = ''compensation.failed''"
definition VERSION_PINNED :: string where "VERSION_PINNED = ''version.pinned''"
definition WORKFLOW_RESTORED :: string where "WORKFLOW_RESTORED = ''workflow.restored''"

definition event_types :: "string list" where
  "event_types = [RUN_STARTED, RUN_COMPLETED, RUN_FAILED, RUN_CANCELLED, RUN_PAUSED, RUN_RESUMED,
     NODE_STARTED, NODE_COMPLETED, NODE_FAILED, NODE_SKIPPED, NODE_SUSPENDED, NODE_RESUMED,
     NODE_CANCELLED, INTERRUPT_REQUESTED, INTERRUPT_RESOLVED, APPROVAL_REJECTED, CAP_BREACHED,
     BUDGET_RESERVED, BUDGET_CONSUMED, BUDGET_EXHAUSTED, BUDGET_THRESHOLD, TOOL_CALLED,
     TOOL_RETURNED, AGENT_DECIDED, ARTIFACT_CREATED, CONV_OPENED, CONV_EXCHANGED, CONV_CLOSED,
     COMP_REQUESTED, COMP_STARTED, COMP_COMPLETED, COMP_FAILED, VERSION_PINNED, WORKFLOW_RESTORED]"

lemma event_types_distinct: "distinct event_types"
  by code_simp

lemma event_types_distinct_rev: "distinct (rev event_types)"
  by (simp only: distinct_rev event_types_distinct)

lemmas event_types_neq [simp] =
  event_types_distinct [unfolded event_types_def, simplified]
  event_types_distinct_rev [unfolded event_types_def rev.simps append.simps, simplified]

text \<open>The events that end a run, and the node events that end a visit.\<close>

definition ends_run :: "string \<Rightarrow> bool" where
  "ends_run t \<longleftrightarrow> t \<in> {RUN_COMPLETED, RUN_FAILED, RUN_CANCELLED}"

definition ends_visit :: "string \<Rightarrow> bool" where
  "ends_visit t \<longleftrightarrow> t \<in> {NODE_COMPLETED, NODE_FAILED, NODE_SKIPPED}"

end
