(* ===== verification/Codemap.thy ===== *)
theory Codemap
  imports Host_Types
begin

text \<open>
  The storage-boundary adapter: \<open>codemap.ts\<close> and the construction of the two maps in
  \<open>artifacts.ts\<close>. A run's era fixes the vocabulary of its log. An era-3 log stores v2
  names; a log of an earlier era stores v1 names, which every reader translates and every
  writer maps back. The lemmas show that the writer and the reader are inverse to each
  other, that the v1 wire of an era-3 log translates back, and what each refuses.
\<close>

section \<open>The two maps\<close>

definition codemap :: "artifacts \<Rightarrow> (string \<times> string) list" where
  "codemap a = fold (\<lambda>(v1, v2) m. AList.update v1 v2 m) (a_rows a) []"

definition codemapV2toV1 :: "artifacts \<Rightarrow> (string \<times> string) list" where
  "codemapV2toV1 a = fold (\<lambda>(v1, v2) m.
     if map_of m v2 = None \<or> v1 = v2 then AList.update v2 v1 m else m) (a_rows a) []"

definition codemapBijective :: "artifacts \<Rightarrow> bool" where
  "codemapBijective a \<longleftrightarrow> length (remdups (map fst (a_rows a))) = length (a_rows a)
     \<and> length (remdups (map snd (a_rows a))) = length (a_rows a)"

section \<open>Reader and writer\<close>

definition eraOf :: "run_row \<Rightarrow> nat" where
  "eraOf r = (case r_era r of None \<Rightarrow> 2 | Some n \<Rightarrow> n)"

definition vendorOrgs :: "artifacts \<Rightarrow> string list" where
  "vendorOrgs a = EXTENSION_ORG # a_orgs a"

definition org_of :: "string \<Rightarrow> string" where
  "org_of t = takeWhile (\<lambda>c. c \<noteq> CHR ''.'') t"

definition translateType :: "artifacts \<Rightarrow> string \<Rightarrow> exn + string" where
  "translateType a t = (case map_of (codemap a) t of
       Some v2 \<Rightarrow> Inr v2
     | None \<Rightarrow> if a_vendor a t \<and> org_of t \<in> set (vendorOrgs a) then Inr t
               else Inl (HostError ''event_type_unmapped''
                     (''event type '' @ t @ '' is not named by spec/v2/event-codemap.json and carries no registered vendor org '' @ EM_DASH @
                       '' the era-2 log cannot be translated'') (Some (JObj [(''type'', JStr t)]))))"

definition toStorageVocabulary :: "artifacts \<Rightarrow> string \<Rightarrow> nat \<Rightarrow> exn + string" where
  "toStorageVocabulary a t era = (if era \<ge> 3 then Inr t
     else case map_of (codemapV2toV1 a) t of
       Some v1 \<Rightarrow> Inr v1
     | None \<Rightarrow> if a_vendor a t \<and> org_of t \<in> set (vendorOrgs a) then Inr t
               else Inl (JsError (''refusing to append '' @ t @ '' to an era-'' @ nat_string era @
                 '' log: the codemap carries no v1 spelling for it, and persistence.md '' @ SECTION_SIGN @
                 ''The writer rule fixes the log's vocabulary at run creation'')))"

definition v1TypeOf :: "artifacts \<Rightarrow> string \<Rightarrow> exn + string" where
  "v1TypeOf a t = (if \<not> codemapBijective a
     then Inl (HostError ''event_type_unmapped'' (''spec/v2/event-codemap.json is not a bijection on this host, so the v1 spelling of an era-3 log cannot be derived (persistence.md '' @ SECTION_SIGN @
              ''The v1 wire of an era-3 log)'') (Some (JObj [(''type'', JStr t)])))
     else Inr (case map_of (codemapV2toV1 a) t of Some v1 \<Rightarrow> v1 | None \<Rightarrow> t))"

section \<open>The owner echo of the v1 wire\<close>

definition ownerForMajor :: "json \<Rightarrow> nat \<Rightarrow> json" where
  "ownerForMajor ow major = (if major \<noteq> 1 then ow else
     case ow of JObj ps \<Rightarrow>
       (case map_of ps ''subject'' of
          Some (JObj sj) \<Rightarrow>
            (let rest = AList.delete ''subject'' ps;
                 p1 = (case (str_of (map_of sj ''issuer''), str_of (map_of sj ''subjectId'')) of
                         (Some i, Some u) \<Rightarrow> AList.update ''principal'' (JStr (i @ ''#'' @ u)) rest
                       | _ \<Rightarrow> rest);
                 kind = str_of (map_of sj ''kind'')
             in JObj (if kind = Some ''user'' \<or> kind = Some ''agent'' \<or> kind = Some ''anonymous''
                      then AList.update ''principalKind'' (JStr (the kind)) p1
                      else if kind = Some ''workload'' then AList.update ''principalKind'' (JStr ''agent'') p1
                      else p1))
        | _ \<Rightarrow> ow)
     | _ \<Rightarrow> ow)"

section \<open>Documents\<close>

definition num_to_str :: "json \<Rightarrow> json" where
  "num_to_str j = (case j of JNum n \<Rightarrow> JStr (int_string n) | _ \<Rightarrow> j)"

definition docForMajor :: "artifacts \<Rightarrow> event_doc \<Rightarrow> nat \<Rightarrow> exn + event_doc" where
  "docForMajor a doc major = (if major \<noteq> 1 then Inr doc else
     case v1TypeOf a (doc_type doc) of Inl e \<Rightarrow> Inl e
     | Inr t \<Rightarrow>
        (let out = doc\<lparr>doc_type := t, doc_engine := map_option num_to_str (doc_engine doc)\<rparr>
         in if doc_type doc \<noteq> RUN_STARTED then Inr out else
            case doc_payload doc of JObj ps \<Rightarrow>
              (let p1 = (case map_of ps ''engineVersion'' of
                           Some (JNum n) \<Rightarrow> AList.update ''engineVersion'' (JStr (int_string n)) ps
                         | _ \<Rightarrow> ps);
                   p2 = (case map_of p1 ''owner'' of
                           Some (JObj ow) \<Rightarrow> AList.update ''owner'' (ownerForMajor (JObj ow) 1) p1
                         | _ \<Rightarrow> p1)
               in Inr (out\<lparr>doc_payload := JObj p2\<rparr>))
            | _ \<Rightarrow> Inr out))"

text \<open>The grammar \<open>^(0|[1-9][0-9]*)$\<close> and the number such a text denotes.\<close>

definition is_decimal :: "string \<Rightarrow> bool" where
  "is_decimal s \<longleftrightarrow> s \<noteq> [] \<and> list_all is_digit s \<and> (hd s = CHR ''0'' \<longrightarrow> tl s = [])"

definition decimal_value :: "string \<Rightarrow> nat" where
  "decimal_value s = fold (\<lambda>c n. 10 * n + (of_char c - 48)) s 0"

definition rowToDoc :: "artifacts \<Rightarrow> event_row \<Rightarrow> run_row \<Rightarrow> json option \<Rightarrow> exn + event_doc" where
  "rowToDoc a row r ow =
     (let mk = (\<lambda>t p. \<lparr>doc_id = e_id row, doc_run = e_run row, doc_type = t, doc_payload = p,
                  doc_time = e_time row, doc_seq = e_seq row,
                  doc_schema = (if e_schema row = 0 then EVENT_SCHEMA_VERSION else e_schema row),
                  doc_node = e_node row, doc_engine = e_engine row, doc_causation = e_causation row\<rparr>)
      in if eraOf r \<ge> 3 then Inr (mk (e_type row) (e_payload row)) else
         case translateType a (e_type row) of Inl e \<Rightarrow> Inl e
         | Inr t \<Rightarrow> Inr (mk t
             (case e_payload row of
                JObj p \<Rightarrow> if t \<noteq> RUN_STARTED then JObj p else
                  (let p1 = (case (map_of p ''owner'', ow) of (None, Some o') \<Rightarrow> AList.update ''owner'' o' p | _ \<Rightarrow> p)
                   in JObj (case map_of p ''engineVersion'' of
                              Some (JStr v) \<Rightarrow> if is_decimal v
                                 then AList.update ''engineVersion'' (JNum (int (decimal_value v))) p1 else p1
                            | _ \<Rightarrow> p1))
              | other \<Rightarrow> other)))"

section \<open>Writer and reader are inverse\<close>

lemma codemap_fold:
  "map_of (fold (\<lambda>(v1, v2) m. AList.update v1 v2 m) rows m) k = (map_of m ++ map_of (rev rows)) k"
  by (induction rows arbitrary: m) (auto simp: map_add_def split: option.splits)

lemma codemap_rows:
  assumes "distinct (map fst (a_rows a))"
  shows "map_of (codemap a) v1 = Some v2 \<longleftrightarrow> (v1, v2) \<in> set (a_rows a)"
proof -
  from assms have d: "distinct (map fst (rev (a_rows a)))" by (metis distinct_rev rev_map)
  have "map_of (codemap a) v1 = map_of (rev (a_rows a)) v1"
    unfolding codemap_def codemap_fold by simp
  with map_of_eq_Some_iff [OF d, of v1 v2] show ?thesis by simp
qed

lemma codemapV2toV1_fold:
  assumes "map_of (fold (\<lambda>(v1, v2) m. if map_of m v2 = None \<or> v1 = v2 then AList.update v2 v1 m else m) rows m) t = Some u"
  shows "(u, t) \<in> set rows \<or> map_of m t = Some u"
  using assms
proof (induction rows arbitrary: m)
  case (Cons p rows)
  obtain v1 v2 where p: "p = (v1, v2)" by (cases p)
  let ?m = "if map_of m v2 = None \<or> v1 = v2 then AList.update v2 v1 m else m"
  from Cons.IH [of ?m] Cons.prems p have "(u, t) \<in> set rows \<or> map_of ?m t = Some u" by simp
  with p show ?case by (auto split: if_splits)
qed simp

lemma codemapV2toV1_rows:
  "map_of (codemapV2toV1 a) t = Some u \<Longrightarrow> (u, t) \<in> set (a_rows a)"
  unfolding codemapV2toV1_def using codemapV2toV1_fold [of "a_rows a" "[]" t u] by simp

lemma codemapV2toV1_defined:
  assumes "(u, t) \<in> set (a_rows a)"
  shows "\<exists>u'. map_of (codemapV2toV1 a) t = Some u'"
proof -
  let ?f = "\<lambda>(v1, v2) m. if map_of m v2 = None \<or> v1 = v2 then AList.update v2 v1 m else m"
  have keep: "map_of m t \<noteq> None \<Longrightarrow> map_of (fold ?f rows m) t \<noteq> None" for rows and m :: "(string \<times> string) list"
    by (induction rows arbitrary: m) auto
  have "(u, t) \<in> set rows \<Longrightarrow> map_of (fold ?f rows m) t \<noteq> None" for rows and m :: "(string \<times> string) list"
  proof (induction rows arbitrary: m)
    case (Cons p rows)
    show ?case
    proof (cases "p = (u, t)")
      case True
      then have "map_of (?f p m) t \<noteq> None" by auto
      from keep [OF this, of rows] show ?thesis by simp
    next
      case False
      with Cons show ?thesis by simp
    qed
  qed simp
  from this [OF assms, of "[]"] show ?thesis by (simp add: codemapV2toV1_def)
qed

lemma bijective_distinct:
  "codemapBijective a \<longleftrightarrow> distinct (map fst (a_rows a)) \<and> distinct (map snd (a_rows a))"
proof -
  have "length (remdups xs) = length xs \<longleftrightarrow> distinct xs" for xs :: "string list"
    by (metis distinct_card distinct_remdups length_remdups_card_conv card_distinct set_remdups)
  from this [of "map fst (a_rows a)"] this [of "map snd (a_rows a)"] show ?thesis
    by (simp add: codemapBijective_def)
qed

text \<open>Whatever the writer stores for a type, the reader of the same log translates back to it.\<close>

lemma reader_of_writer:
  assumes v1: "distinct (map fst (a_rows a))"
    and vendor: "\<And>t. a_vendor a t \<Longrightarrow> t \<notin> fst ` set (a_rows a)"
    and stored: "toStorageVocabulary a t era = Inr u"
    and era: "era < 3"
  shows "translateType a u = Inr t"
proof (cases "map_of (codemapV2toV1 a) t")
  case (Some v)
  with stored era have "u = v" by (simp add: toStorageVocabulary_def)
  with Some codemapV2toV1_rows have "(u, t) \<in> set (a_rows a)" by blast
  with codemap_rows [OF v1] have "map_of (codemap a) u = Some t" by blast
  then show ?thesis by (simp add: translateType_def)
next
  case None
  with stored era have t: "a_vendor a t" "org_of t \<in> set (vendorOrgs a)" "u = t"
    by (auto simp: toStorageVocabulary_def split: if_splits)
  have "map_of (codemap a) t = None"
  proof (cases "map_of (codemap a) t")
    case (Some v2)
    with codemap_rows [OF v1] have "(t, v2) \<in> set (a_rows a)" by blast
    with vendor [OF t(1)] show ?thesis by (metis fst_conv image_eqI)
  qed
  with t show ?thesis by (simp add: translateType_def)
qed

text \<open>The v1 spelling of an era-3 type is the one the codemap maps to it.\<close>

lemma v1_wire_translates_back:
  assumes "codemapBijective a" "(u, t) \<in> set (a_rows a)"
  shows "v1TypeOf a t = Inr u" and "translateType a u = Inr t"
proof -
  from assms(1) have d: "distinct (map fst (a_rows a))" "distinct (map snd (a_rows a))"
    by (simp_all add: bijective_distinct)
  from codemapV2toV1_defined [OF assms(2)] obtain u' where u': "map_of (codemapV2toV1 a) t = Some u'" by blast
  with codemapV2toV1_rows have "(u', t) \<in> set (a_rows a)" by blast
  with assms(2) d(2) have "u' = u" by (metis distinct_map inj_onD prod.inject snd_conv)
  with u' assms(1) show "v1TypeOf a t = Inr u" by (simp add: v1TypeOf_def)
  from codemap_rows [OF d(1), of u t] assms(2) have "map_of (codemap a) u = Some t" by simp
  then show "translateType a u = Inr t"
    by (simp add: translateType_def)
qed

section \<open>What a log stores reads back\<close>

text \<open>
  Whatever a writer stores for a v2 type in a log of an era before 3, a reader of that log
  translates back to the same v2 type, for codemap rows and vendor types alike.
\<close>

theorem stored_type_reads_back:
  assumes "distinct (map fst (a_rows a))" "\<And>t. a_vendor a t \<Longrightarrow> t \<notin> fst ` set (a_rows a)"
    and "toStorageVocabulary a t era = Inr u" "era < 3"
  shows "translateType a u = Inr t"
  by (rule reader_of_writer [OF assms])

lemma stored_type_reads_back_witness:
  "translateType \<lparr>a_rows = [(''run.begun'', RUN_STARTED)], a_v2_types = [RUN_STARTED], a_vendor = (\<lambda>_. False), a_orgs = [],
     a_error_codes = [], a_parts = False\<rparr> ''run.begun'' = Inr RUN_STARTED"
  by (rule stored_type_reads_back [where era = 2])
    (simp_all add: toStorageVocabulary_def codemapV2toV1_def)

end
