(* ===== verification/Events.thy ===== *)
theory Events
  imports Codemap
begin

text \<open>
  The append-only event log of \<open>events.ts\<close>: \<open>appendEvent\<close>, the owner stamp, the storage
  boundary \<open>readEvents\<close> every reader passes through, and the poll response. The lemmas show
  that a run's sequence numbers are \<open>0, 1, 2, \<dots>\<close> in the order of the appends, that an
  append is refused only for an unregistered type or one an early era cannot express, that
  reading after an append yields the old log and the new document, and that the logs of
  other runs are untouched.
\<close>

section \<open>Operations\<close>

record append_opts =
  ao_node :: "string option"
  ao_causation :: "string option"
  ao_fixed :: bool
  ao_time :: "nat option"

definition no_opts :: append_opts where
  "no_opts = \<lparr>ao_node = None, ao_causation = None, ao_fixed = False, ao_time = None\<rparr>"

definition on_node :: "string \<Rightarrow> append_opts" where
  "on_node n = no_opts\<lparr>ao_node := Some n\<rparr>"

definition registered_type :: "host \<Rightarrow> string \<Rightarrow> bool" where
  "registered_type h t \<longleftrightarrow> t \<in> set (a_v2_types (h_art h)) \<or> a_vendor (h_art h) t"

definition appendEvent :: "host \<Rightarrow> run_row \<Rightarrow> string \<Rightarrow> json \<Rightarrow> append_opts \<Rightarrow> world \<Rightarrow> (exn + event_doc) \<times> world" where
  "appendEvent h r t payload opts w =
    (if \<not> registered_type h t
     then (Inl (JsError (''producer refused: '' @ t @ '' is not a registered v2 event type (events.md '' @ SECTION_SIGN @ ''Types)'')), w)
     else
       let sequence = lastSequence (run_id r) w + 1;
           timestamp = (case ao_time opts of Some n \<Rightarrow> n | None \<Rightarrow> w_clock w);
           eventId = h_opaque h (w_rng w);
           w1 = w\<lparr>w_rng := Suc (w_rng w)\<rparr>
       in case toStorageVocabulary (h_art h) t (eraOf r) of
            Inl e \<Rightarrow> (Inl e, w1)
          | Inr storedType \<Rightarrow>
             (case insertEvent \<lparr>e_run = run_id r, e_seq = sequence, e_id = eventId, e_type = storedType,
                    e_payload = payload, e_time = timestamp, e_node = ao_node opts,
                    e_causation = ao_causation opts, e_schema = EVENT_SCHEMA_VERSION,
                    e_engine = Some (JNum (int ENGINE_VERSION))\<rparr> w1 of
                None \<Rightarrow> (Inl (JsError ''UNIQUE constraint failed: events''), w1)
              | Some w2 \<Rightarrow>
                 let doc = \<lparr>doc_id = eventId, doc_run = run_id r, doc_type = t, doc_payload = payload,
                       doc_time = timestamp, doc_seq = sequence, doc_schema = EVENT_SCHEMA_VERSION,
                       doc_node = ao_node opts, doc_engine = Some (JNum (int ENGINE_VERSION)),
                       doc_causation = ao_causation opts\<rparr>;
                     appended = \<lparr>ap_run = run_id r, ap_tenant = r_tenant r, ap_fork_mode = r_fork_mode r,
                       ap_from_seq = r_from_seq r, ap_doc = doc\<rparr>
                 in (Inr doc, let w3 = w2\<lparr>w_bus := w_bus w2 @ [appended]\<rparr>
                            in if ao_fixed opts then w3 else w3\<lparr>w_fanout := w_fanout w3 @ [appended]\<rparr>)))"

definition legacy_owner :: "run_row \<Rightarrow> json" where
  "legacy_owner r = JObj [(''tenant'', JStr (r_tenant r)),
     (''subject'', JObj [(''issuer'', JStr LEGACY_ISSUER), (''subjectId'', JStr ''legacy''),
        (''tenant'', JStr (r_tenant r)), (''lane'', JStr ''api-key''), (''kind'', JStr ''user'')])]"

text \<open>The owner block; a run that predates subjects is stamped at its first read, never again.\<close>

definition ownerOf :: "run_row \<Rightarrow> world \<Rightarrow> json \<times> world" where
  "ownerOf r w = (case r_owner r of Some ow \<Rightarrow> (ow, w)
     | None \<Rightarrow> (legacy_owner r, updateRun (w_clock w) (run_id r) (\<lambda>x. x\<lparr>r_owner := Some (legacy_owner r)\<rparr>) w))"

fun map_result :: "('a \<Rightarrow> 'e + 'b) \<Rightarrow> 'a list \<Rightarrow> 'e + 'b list" where
  "map_result f [] = Inr []"
| "map_result f (x # xs) = (case f x of Inl e \<Rightarrow> Inl e
     | Inr y \<Rightarrow> (case map_result f xs of Inl e \<Rightarrow> Inl e | Inr ys \<Rightarrow> Inr (y # ys)))"

definition readEvents :: "host \<Rightarrow> run_row \<Rightarrow> int \<Rightarrow> world \<Rightarrow> (exn + event_doc list) \<times> world" where
  "readEvents h r after w =
     (let (ow, w1) = (if eraOf r < 3 then (let (ow', w') = ownerOf r w in (Some ow', w')) else (None, w))
      in (map_result (\<lambda>row. rowToDoc (h_art h) row r ow) (listEventRows (run_id r) after w1), w1))"

record poll_body =
  p_run :: string
  p_events :: "event_doc list"
  p_last :: int
  p_status :: run_status
  p_terminal :: bool

definition pollResponse :: "host \<Rightarrow> run_row \<Rightarrow> int option \<Rightarrow> world \<Rightarrow> (exn + poll_body) \<times> world" where
  "pollResponse h r after w =
     (case readEvents h r (case after of None \<Rightarrow> -1 | Some n \<Rightarrow> n) w of
        (Inl e, w1) \<Rightarrow> (Inl e, w1)
      | (Inr evs, w1) \<Rightarrow>
          (let fresh = (case getRun (run_id r) w1 of None \<Rightarrow> r | Some x \<Rightarrow> x)
           in (Inr \<lparr>p_run = run_id r, p_events = evs, p_last = lastSequence (run_id r) w1,
                 p_status = r_status fresh, p_terminal = terminal_status (r_status fresh)\<rparr>, w1)))"

text \<open>
  The two forms the executor uses: \<open>emit\<close> appends and lets a refusal propagate,
  \<open>readLog\<close> reads the whole log and lets an untranslatable row propagate.
\<close>

definition emit :: "host \<Rightarrow> run_row \<Rightarrow> string \<Rightarrow> json \<Rightarrow> append_opts \<Rightarrow> world \<Rightarrow> world" where
  "emit h r t payload opts = guarded (\<lambda>w. case appendEvent h r t payload opts w of
       (Inl e, w1) \<Rightarrow> w1\<lparr>w_exc := Some e\<rparr>
     | (Inr _, w1) \<Rightarrow> w1)"

definition readLog :: "host \<Rightarrow> run_row \<Rightarrow> world \<Rightarrow> event_doc list \<times> world" where
  "readLog h r w = (if w_exc w \<noteq> None then ([], w) else
     case readEvents h r (-1) w of (Inl e, w1) \<Rightarrow> ([], w1\<lparr>w_exc := Some e\<rparr>) | (Inr evs, w1) \<Rightarrow> (evs, w1))"

section \<open>The log invariant\<close>

definition run_events :: "string \<Rightarrow> 'a store_scheme \<Rightarrow> event_row list" where
  "run_events rid s = filter (\<lambda>e. e_run e = rid) (t_events s)"

definition seqs_from_zero :: "event_row list \<Rightarrow> bool" where
  "seqs_from_zero es \<longleftrightarrow> map e_seq es = map int [0..<length es]"

text \<open>Every run's events carry the sequence numbers \<open>0, 1, 2, \<dots>\<close> in append order.\<close>

definition log_ok :: "'a store_scheme \<Rightarrow> bool" where
  "log_ok s \<longleftrightarrow> (\<forall>rid. seqs_from_zero (run_events rid s))"

lemma seqs_from_zero_nth: "seqs_from_zero es \<Longrightarrow> i < length es \<Longrightarrow> e_seq (es ! i) = int i"
  unfolding seqs_from_zero_def by (metis add_0 length_map length_upt minus_nat.diff_0 nth_map nth_upt)

lemma seqs_from_zero_snoc:
  "seqs_from_zero (es @ [e]) \<longleftrightarrow> seqs_from_zero es \<and> e_seq e = int (length es)"
  by (simp add: seqs_from_zero_def)

lemma seqs_sorted: "seqs_from_zero es \<Longrightarrow> sorted (map e_seq es)"
  unfolding seqs_from_zero_def
  by (simp add: sorted_map sorted_wrt_upt [THEN sorted_wrt_mono_rel [rotated]])

lemma sort_key_seqs: "seqs_from_zero es \<Longrightarrow> sort_key e_seq es = es"
  by (rule sort_key_id_if_sorted [OF seqs_sorted])

lemma listEventRows_ok:
  assumes "log_ok w"
  shows "listEventRows rid after w = filter (\<lambda>e. e_seq e > after) (run_events rid w)"
proof -
  have "filter (\<lambda>e. e_run e = rid \<and> e_seq e > after) (t_events w)
      = filter (\<lambda>e. e_seq e > after) (run_events rid w)"
    by (simp add: run_events_def conj_commute)
  moreover have "sorted (map e_seq (filter (\<lambda>e. e_seq e > after) (run_events rid w)))"
    using assms by (simp add: log_ok_def seqs_sorted sorted_filter)
  ultimately show ?thesis by (simp add: listEventRows_def sort_key_id_if_sorted)
qed

lemma listEventRows_all:
  assumes "log_ok w"
  shows "listEventRows rid (-1) w = run_events rid w"
proof -
  have "e_seq e > -1" if "e \<in> set (run_events rid w)" for e
  proof -
    from that obtain i where "i < length (run_events rid w)" "e = run_events rid w ! i"
      by (metis in_set_conv_nth)
    with assms show ?thesis by (simp add: log_ok_def seqs_from_zero_nth)
  qed
  with listEventRows_ok [OF assms] show ?thesis by simp
qed

lemma lastSequence_ok:
  assumes "log_ok w"
  shows "lastSequence rid w = int (length (run_events rid w)) - 1"
proof -
  have flt: "fold (\<lambda>e m. if e_run e = rid then max m (e_seq e) else m) es a
      = fold (\<lambda>e m. max m (e_seq e)) (filter (\<lambda>e. e_run e = rid) es) a" for es a
    by (induction es arbitrary: a) auto
  have top: "seqs_from_zero es \<Longrightarrow> fold (\<lambda>e m. max m (e_seq e)) es (-1) = int (length es) - 1" for es
    by (induction es rule: rev_induct) (simp_all add: seqs_from_zero_snoc)
  from assms have "seqs_from_zero (run_events rid w)" by (simp add: log_ok_def)
  from top [OF this] show ?thesis
    unfolding lastSequence_def flt run_events_def .
qed

section \<open>An append\<close>

definition new_row :: "host \<Rightarrow> run_row \<Rightarrow> string \<Rightarrow> json \<Rightarrow> append_opts \<Rightarrow> world \<Rightarrow> event_row" where
  "new_row h r st payload opts w =
     \<lparr>e_run = run_id r, e_seq = int (length (run_events (run_id r) w)), e_id = h_opaque h (w_rng w),
       e_type = st, e_payload = payload,
       e_time = (case ao_time opts of Some n \<Rightarrow> n | None \<Rightarrow> w_clock w),
       e_node = ao_node opts, e_causation = ao_causation opts, e_schema = EVENT_SCHEMA_VERSION,
       e_engine = Some (JNum (int ENGINE_VERSION))\<rparr>"

text \<open>The document an era-3 row is served as.\<close>

definition doc_of_row :: "event_row \<Rightarrow> event_doc" where
  "doc_of_row e = \<lparr>doc_id = e_id e, doc_run = e_run e, doc_type = e_type e, doc_payload = e_payload e,
     doc_time = e_time e, doc_seq = e_seq e,
     doc_schema = (if e_schema e = 0 then EVENT_SCHEMA_VERSION else e_schema e),
     doc_node = e_node e, doc_engine = e_engine e, doc_causation = e_causation e\<rparr>"

definition announced :: "run_row \<Rightarrow> event_doc \<Rightarrow> appended" where
  "announced r d =
     \<lparr>ap_run = run_id r, ap_tenant = r_tenant r, ap_fork_mode = r_fork_mode r, ap_from_seq = r_from_seq r, ap_doc = d\<rparr>"

definition added :: "event_row \<Rightarrow> bool \<Rightarrow> appended \<Rightarrow> world \<Rightarrow> world" where
  "added e fixed a w = w\<lparr>w_rng := Suc (w_rng w), t_events := t_events w @ [e], w_bus := w_bus w @ [a],
     w_fanout := (if fixed then w_fanout w else w_fanout w @ [a])\<rparr>"

lemma insertEvent_next:
  assumes "log_ok w" "e_run row = rid" "e_seq row = int (length (run_events rid w))"
  shows "insertEvent row w = Some (w\<lparr>t_events := t_events w @ [row]\<rparr>)"
proof -
  have "(e_run row, e_seq row) \<noteq> (e_run e, e_seq e)" if "e \<in> set (t_events w)" for e
  proof
    assume "(e_run row, e_seq row) = (e_run e, e_seq e)"
    with that assms(2) have "e \<in> set (run_events rid w)" by (simp add: run_events_def)
    then obtain i where "i < length (run_events rid w)" "e = run_events rid w ! i"
      by (metis in_set_conv_nth)
    with assms(1) have "e_seq e < int (length (run_events rid w))"
      by (simp add: log_ok_def seqs_from_zero_nth)
    with \<open>_ = (e_run e, e_seq e)\<close> assms(3) show False by simp
  qed
  then show ?thesis by (auto simp: insertEvent_def)
qed

text \<open>
  The functional behaviour of \<open>appendEvent\<close> on every branch: a refused type changes
  nothing but the identifier supply, an accepted one adds exactly one row.
\<close>

lemma appendEvent_refused:
  "\<not> registered_type h t \<Longrightarrow> \<exists>e. appendEvent h r t p opts w = (Inl e, w)"
  "registered_type h t \<Longrightarrow> toStorageVocabulary (h_art h) t (eraOf r) = Inl e \<Longrightarrow>
     appendEvent h r t p opts w = (Inl e, w\<lparr>w_rng := Suc (w_rng w)\<rparr>)"
  by (simp_all add: appendEvent_def Let_def)

lemma appendEvent_accepted:
  assumes "log_ok w" "registered_type h t" "toStorageVocabulary (h_art h) t (eraOf r) = Inr st"
  shows "appendEvent h r t p opts w =
     (Inr ((doc_of_row (new_row h r st p opts w))\<lparr>doc_type := t\<rparr>),
      added (new_row h r st p opts w) (ao_fixed opts)
        (announced r ((doc_of_row (new_row h r st p opts w))\<lparr>doc_type := t\<rparr>)) w)"
proof -
  let ?w1 = "w\<lparr>w_rng := Suc (w_rng w)\<rparr>"
  have "run_events (run_id r) ?w1 = run_events (run_id r) w" by (simp add: run_events_def)
  moreover have "log_ok ?w1" using assms(1) by (simp add: log_ok_def run_events_def)
  ultimately have ins: "insertEvent (new_row h r st p opts w) ?w1
      = Some (?w1\<lparr>t_events := t_events w @ [new_row h r st p opts w]\<rparr>)"
    using insertEvent_next [of ?w1 "new_row h r st p opts w" "run_id r"] by (simp add: new_row_def)
  have row: "\<lparr>e_run = run_id r, e_seq = lastSequence (run_id r) w + 1, e_id = h_opaque h (w_rng w),
      e_type = st, e_payload = p, e_time = (case ao_time opts of Some n \<Rightarrow> n | None \<Rightarrow> w_clock w),
      e_node = ao_node opts, e_causation = ao_causation opts, e_schema = EVENT_SCHEMA_VERSION,
      e_engine = Some (JNum (int ENGINE_VERSION))\<rparr> = new_row h r st p opts w"
    by (simp add: new_row_def lastSequence_ok [OF assms(1)])
  from assms(2,3) show ?thesis
    by (simp add: appendEvent_def Let_def row ins added_def announced_def)
       (simp add: doc_of_row_def new_row_def lastSequence_ok [OF assms(1)] EVENT_SCHEMA_VERSION_def)
qed

lemma run_events_frame: "t_events s = t_events s' \<Longrightarrow> run_events rid s = run_events rid s'"
  by (simp add: run_events_def)

lemma log_ok_frame: "t_events s = t_events s' \<Longrightarrow> log_ok s = log_ok s'"
  by (simp add: log_ok_def run_events_def)

lemma run_events_added [simp]:
  "run_events rid (added e fixed a w) = run_events rid w @ (if e_run e = rid then [e] else [])"
  by (simp add: run_events_def added_def)

lemma log_ok_added:
  assumes "log_ok w" and "e_seq e = int (length (run_events (e_run e) w))"
  shows "log_ok (added e fixed a w)"
  using assms by (simp add: log_ok_def seqs_from_zero_snoc)

section \<open>Operations that only append\<close>

text \<open>
  The discipline every operation of the host obeys: the numbering of the logs is kept and
  no recorded event is changed, reordered or removed.
\<close>

definition grows :: "'a store_scheme \<Rightarrow> 'b store_scheme \<Rightarrow> bool" where
  "grows w w' \<longleftrightarrow> (log_ok w \<longrightarrow> log_ok w' \<and> (\<forall>rid. \<exists>es. run_events rid w' = run_events rid w @ es))"

named_theorems grows_intro \<open>operations that only append to the logs\<close>

lemma grows_refl [simp]: "grows w w"
  by (simp add: grows_def)

lemma grows_trans [trans]: "grows a b \<Longrightarrow> grows b c \<Longrightarrow> grows a c"
  unfolding grows_def by (metis append.assoc)

lemma grows_frame: "t_events w' = t_events w \<Longrightarrow> grows w w'"
  by (simp add: grows_def log_ok_def run_events_def)

lemma grows_step: "grows b c \<Longrightarrow> grows a b \<Longrightarrow> grows a c"
  by (rule grows_trans)

lemma grows_guarded: "(\<And>w. grows a w \<Longrightarrow> grows a (f w)) \<Longrightarrow> grows a w \<Longrightarrow> grows a (guarded f w)"
  by (simp add: guarded_def)

lemma grows_added:
  "e_seq e = int (length (run_events (e_run e) w)) \<Longrightarrow> grows w (added e fixed a w)"
  unfolding grows_def by (auto simp: log_ok_added)

lemma appendEvent_log:
  assumes "log_ok w"
  shows "grows w (snd (appendEvent h r t p opts w))"
proof (cases "registered_type h t")
  case False
  with appendEvent_refused(1) [of h t r p opts w] show ?thesis by auto
next
  case True
  show ?thesis
  proof (cases "toStorageVocabulary (h_art h) t (eraOf r)")
    case (Inl e)
    with appendEvent_refused(2) [OF True Inl] show ?thesis by (auto intro: grows_frame)
  next
    case (Inr st)
    from appendEvent_accepted [OF assms True Inr] show ?thesis
      by (auto intro!: grows_added simp: new_row_def)
  qed
qed

lemma emit_grows: "grows w (emit h r t p opts w)"
proof (cases "w_exc w = None \<and> log_ok w")
  case True
  then have "log_ok w" by simp
  from appendEvent_log [OF this] have g: "grows w (snd (appendEvent h r t p opts w))" .
  moreover have "grows w w1 \<Longrightarrow> grows w (w1\<lparr>w_exc := x\<rparr>)" for w1 x
    by (rule grows_step [OF grows_frame]) simp_all
  ultimately show ?thesis using True
    by (auto simp: emit_def split: prod.splits sum.splits)
next
  case False
  then show ?thesis by (auto simp: grows_def emit_def guarded_def)
qed

lemma emit_grows_from [grows_intro]: "grows a w \<Longrightarrow> grows a (emit h r t p opts w)"
  by (rule grows_step [OF emit_grows])

lemma ownerOf_grows: "grows w (snd (ownerOf r w))"
  by (rule grows_frame) (simp add: ownerOf_def split: option.split)

lemma readEvents_grows: "grows w (snd (readEvents h r after w))"
  using ownerOf_grows [of w r] by (simp add: readEvents_def split_beta Let_def)

lemma readLog_grows: "grows w (snd (readLog h r w))"
proof -
  have "grows w (snd (readEvents h r (-1) w))" by (rule readEvents_grows)
  moreover have "grows w w1 \<Longrightarrow> grows w (w1\<lparr>w_exc := x\<rparr>)" for w1 x
    by (rule grows_step [OF grows_frame]) simp_all
  ultimately show ?thesis by (auto simp: readLog_def split: prod.splits sum.splits)
qed

lemma readLog_grows_from [grows_intro]: "grows a w \<Longrightarrow> grows a (snd (readLog h r w))"
  by (rule grows_step [OF readLog_grows])

lemma updateRun_grows_from [grows_intro]:
  "grows (a :: 'b store_scheme) w \<Longrightarrow> grows a (updateRun now rid p w)"
  by (rule grows_step [OF grows_frame]) simp_all

lemma grows_field [grows_intro]:
  "grows a w \<Longrightarrow> grows a (w\<lparr>w_exc := x\<rparr>)"
  "grows a w \<Longrightarrow> grows a (w\<lparr>w_active := xs\<rparr>)"
  "grows a w \<Longrightarrow> grows a (w\<lparr>w_queue := xs\<rparr>)"
  "grows a w \<Longrightarrow> grows a (w\<lparr>w_cancel_reasons := cs\<rparr>)"
  "grows a w \<Longrightarrow> grows a (w\<lparr>w_pause_policy := ps\<rparr>)"
  "grows a w \<Longrightarrow> grows a (w\<lparr>w_clock := n\<rparr>)"
  "grows a w \<Longrightarrow> grows a (w\<lparr>w_rng := n\<rparr>)"
  "grows a w \<Longrightarrow> grows a (w\<lparr>w_inflight := fl\<rparr>)"
  "grows a w \<Longrightarrow> grows a (w\<lparr>t_interrupts := is\<rparr>)"
  "grows a w \<Longrightarrow> grows a (w\<lparr>t_effects := fs\<rparr>)"
  "grows a w \<Longrightarrow> grows a (w\<lparr>t_idem := ds\<rparr>)"
  "grows a w \<Longrightarrow> grows a (w\<lparr>t_runs := rs\<rparr>)"
  by (rule grows_step [OF grows_frame]; simp)+

lemma raise_grows_from [grows_intro]: "grows a w \<Longrightarrow> grows a (raise_exn e w)"
  unfolding raise_exn_def by (rule grows_guarded) (auto intro: grows_intro)

section \<open>Reading the log of an era-3 run\<close>

lemma map_result_Inr: "(\<And>x. x \<in> set xs \<Longrightarrow> f x = Inr (g x)) \<Longrightarrow> map_result f xs = Inr (map g xs)"
  by (induction xs) auto

lemma rowToDoc_era3: "eraOf r \<ge> 3 \<Longrightarrow> rowToDoc a e r ow = Inr (doc_of_row e)"
  by (simp add: rowToDoc_def doc_of_row_def Let_def)

lemma readEvents_era3:
  assumes "log_ok w" "eraOf r \<ge> 3"
  shows "readEvents h r after w = (Inr (map doc_of_row (filter (\<lambda>e. e_seq e > after) (run_events (run_id r) w))), w)"
  using assms by (simp add: readEvents_def listEventRows_ok map_result_Inr rowToDoc_era3)

lemma readLog_era3:
  assumes "log_ok w" "eraOf r \<ge> 3" "w_exc w = None"
  shows "readLog h r w = (map doc_of_row (run_events (run_id r) w), w)"
proof -
  have "readEvents h r (-1) w = (Inr (map doc_of_row (run_events (run_id r) w)), w)"
    using assms by (simp add: readEvents_def listEventRows_all map_result_Inr rowToDoc_era3)
  with assms(3) show ?thesis by (simp add: readLog_def)
qed

section \<open>An append-only log\<close>

text \<open>
  The contract between the log and its readers: every operation grows the logs. A reader
  that remembers a position may come back after any number of operations: what it has
  read is still there, and the rest of the log is what was added since.
\<close>

locale append_only =
  fixes log :: "'k \<Rightarrow> 's \<Rightarrow> 'e list"
    and inv :: "'s \<Rightarrow> bool"
    and act :: "'a \<Rightarrow> 's \<Rightarrow> 's"
  assumes act_inv: "inv s \<Longrightarrow> inv (act a s)"
    and act_log: "inv s \<Longrightarrow> \<exists>es. log k (act a s) = log k s @ es"
begin

lemma acts_inv: "inv s \<Longrightarrow> inv (fold act as s)"
  by (induction as arbitrary: s) (simp_all add: act_inv)

lemma acts_log: "inv s \<Longrightarrow> \<exists>es. log k (fold act as s) = log k s @ es"
proof (induction as arbitrary: s)
  case (Cons a as)
  from act_log [OF Cons.prems] obtain es where "log k (act a s) = log k s @ es" by blast
  moreover from Cons.IH [OF act_inv [OF Cons.prems]]
  obtain es' where "log k (fold act as (act a s)) = log k (act a s) @ es'" by blast
  ultimately show ?case by simp
qed simp

lemma recorded_stays:
  assumes "inv s" "i < length (log k s)"
  shows "log k (fold act as s) ! i = log k s ! i"
proof -
  from acts_log [OF assms(1)] obtain es where "log k (fold act as s) = log k s @ es" by blast
  with assms(2) show ?thesis by (simp add: nth_append)
qed

lemma cursor_resumes:
  assumes "inv s"
  shows "log k (fold act as s) = log k s @ drop (length (log k s)) (log k (fold act as s))"
proof -
  from acts_log [OF assms] obtain es where "log k (fold act as s) = log k s @ es" by blast
  then show ?thesis by simp
qed

end

record append_cmd =
  ac_run :: run_row
  ac_type :: string
  ac_payload :: json
  ac_opts :: append_opts

definition append_cmd :: "host \<Rightarrow> append_cmd \<Rightarrow> world \<Rightarrow> world" where
  "append_cmd h c = emit h (ac_run c) (ac_type c) (ac_payload c) (ac_opts c)"

interpretation appends: append_only run_events "log_ok :: world \<Rightarrow> bool" "append_cmd h"
  for h
proof
  fix s :: world and c :: append_cmd and k :: string
  assume ok: "log_ok s"
  have g: "grows s (append_cmd h c s)" unfolding append_cmd_def by (rule emit_grows)
  from g ok show "log_ok (append_cmd h c s)" unfolding grows_def by blast
  from g ok show "\<exists>es. run_events k (append_cmd h c s) = run_events k s @ es" unfolding grows_def by blast
qed

text \<open>
  The poll cursor: a reader that holds the last sequence it saw and asks again after any
  number of appends, to any runs, receives exactly the events appended to its run since, in order.
\<close>

theorem poll_after_appends:
  assumes "log_ok w" "eraOf r \<ge> 3"
    and w': "w' = fold (append_cmd h) cs w"
  shows "fst (readEvents h r (lastSequence (run_id r) w) w')
     = Inr (map doc_of_row (drop (length (run_events (run_id r) w)) (run_events (run_id r) w')))"
proof -
  let ?n = "length (run_events (run_id r) w)"
  have ok: "log_ok w'" unfolding w' by (rule appends.acts_inv [OF assms(1)])
  then have seqs: "seqs_from_zero (run_events (run_id r) w')" by (simp add: log_ok_def)
  have "filter (\<lambda>e. e_seq e > int n - 1) es = drop n es" if "seqs_from_zero es" for es n
    using that
  proof (induction es rule: rev_induct)
    case (snoc e es)
    then show ?case by (cases "n \<le> length es") (auto simp: seqs_from_zero_snoc)
  qed simp
  from this [OF seqs, of ?n] show ?thesis
    by (simp add: lastSequence_ok [OF assms(1)] readEvents_era3 [OF ok assms(2)])
qed

end
