(* ===== verification/Demo.thy ===== *)
theory Demo
  imports Events
begin

text \<open>
  A small host the witnesses evaluate on: the event types of the registry, an empty codemap,
  a counter as the source of identifiers, and three workflows.
\<close>

definition demo_artifacts :: artifacts where
  "demo_artifacts = \<lparr>a_rows = [], a_v2_types = event_types, a_vendor = (\<lambda>_. False), a_orgs = [],
     a_error_codes = [], a_parts = False\<rparr>"

definition plain_node :: "string \<Rightarrow> string \<Rightarrow> wf_node" where
  "plain_node n t = \<lparr>nd_id = n, nd_type = t, nd_config = [], nd_inputs = [], nd_agent = None\<rparr>"

definition plain_edge :: "string \<Rightarrow> string \<Rightarrow> wf_edge" where
  "plain_edge a b = \<lparr>ed_from = Some a, ed_to = Some b, ed_source = None, ed_target = None,
     ed_sourceNodeId = None, ed_targetNodeId = None, ed_trigger = None, ed_condition = None\<rparr>"

definition wf_fail :: wf_def where
  "wf_fail = \<lparr>wf_id = ''f'', wf_nodes = [plain_node ''n'' ''core.fail''], wf_edges = [], wf_vars = []\<rparr>"

definition wf_line :: wf_def where
  "wf_line = \<lparr>wf_id = ''l'', wf_nodes = [plain_node ''a'' ''core.noop'', plain_node ''b'' ''core.noop''],
     wf_edges = [plain_edge ''a'' ''b''], wf_vars = []\<rparr>"

definition wf_gate :: wf_def where
  "wf_gate = \<lparr>wf_id = ''g'', wf_nodes = [plain_node ''g'' ''core.approvalGate''], wf_edges = [], wf_vars = []\<rparr>"

definition demo_host :: host where
  "demo_host = \<lparr>h_art = demo_artifacts,
     h_workflows = [(''f'', wf_fail), (''l'', wf_line), (''g'', wf_gate)],
     h_opaque = (\<lambda>n. ''id'' @ nat_string n), h_regex = (\<lambda>_ _. None), h_seams = False, h_changes = [],
     h_retention_ms = 1000, h_forms = None, h_kid = ''k1'', h_secret = ''s'', h_legacy_secret = ''l'',
     h_hmac = (\<lambda>k m. k @ m), h_sha256 = (\<lambda>m. m), h_iso = nat_string,
     h_date = (\<lambda>s. if s \<noteq> [] \<and> list_all is_digit s then Some (decimal_value s) else None)\<rparr>"

definition demo_run :: "string \<Rightarrow> string \<Rightarrow> run_row" where
  "demo_run rid wid = \<lparr>run_id = rid, r_tenant = ''t'', r_workflow = wid, r_status = Pending, r_era = Some 3,
     r_owner = Some (JObj []), r_options = JObj [], r_inputs = JObj [], r_created = 0, r_updated = 0,
     r_started = None, r_completed = None, r_node = None, r_error = None, r_source = None, r_fork_mode = None,
     r_from_seq = None, r_comp = None, r_pause = False, r_cancel = False, r_pin_checked = False, r_scope = None\<rparr>"

definition demo_world :: "run_row list \<Rightarrow> world" where
  "demo_world rs = \<lparr>t_runs = rs, t_events = [], t_interrupts = [], t_effects = [], t_idem = [],
     w_clock = 0, w_rng = 0, w_exc = None, w_active = [], w_queue = [], w_cancel_reasons = [], w_pause_policy = [],
     w_fanout = [], w_bus = [], w_creds = [], w_inflight = []\<rparr>"

definition types_of_run :: "string \<Rightarrow> 'a store_scheme \<Rightarrow> string list" where
  "types_of_run rid w = map e_type (run_events rid w)"

lemma poll_after_appends_witness:
  "fst (readEvents demo_host (demo_run ''r'' ''l'') (-1)
      (append_cmd demo_host \<lparr>ac_run = demo_run ''r'' ''l'', ac_type = RUN_STARTED, ac_payload = JObj [], ac_opts = no_opts\<rparr>
         (demo_world [demo_run ''r'' ''l''])))
    = Inr (map doc_of_row (run_events ''r'' (append_cmd demo_host
        \<lparr>ac_run = demo_run ''r'' ''l'', ac_type = RUN_STARTED, ac_payload = JObj [], ac_opts = no_opts\<rparr>
         (demo_world [demo_run ''r'' ''l'']))))"
proof -
  have "log_ok (demo_world [demo_run ''r'' ''l''])"
    by (simp add: log_ok_def run_events_def seqs_from_zero_def demo_world_def)
  moreover have "lastSequence ''r'' (demo_world [demo_run ''r'' ''l'']) = -1" "run_events ''r'' (demo_world [demo_run ''r'' ''l'']) = []"
    by (simp_all add: lastSequence_def run_events_def demo_world_def)
  moreover have "run_id (demo_run ''r'' ''l'') = ''r''" "3 \<le> eraOf (demo_run ''r'' ''l'')"
    by (simp_all add: demo_run_def eraOf_def)
  ultimately show ?thesis
    using poll_after_appends [of "demo_world [demo_run ''r'' ''l'']" "demo_run ''r'' ''l''" _ demo_host
      "[\<lparr>ac_run = demo_run ''r'' ''l'', ac_type = RUN_STARTED, ac_payload = JObj [], ac_opts = no_opts\<rparr>]"]
    by simp
qed

end
