(* ===== verification/Fold.thy ===== *)
theory Fold
  imports Demo
begin

text \<open>
  The executor's only state is the log: \<open>fold\<close> of \<open>executor.ts\<close> reads it back before
  every scheduling step. This theory has the \<open>Folded\<close> record, one function per line of the
  loop body, and the lemmas that say what each field of the result counts or remembers.
\<close>

section \<open>The folded state\<close>

record folded =
  fo_started :: bool
  fo_completed :: "string list"
  fo_attempts :: "(string \<times> nat) list"
  fo_terminals :: "(string \<times> nat) list"
  fo_suspended :: "string option"
  fo_requested :: "(string \<times> string) list"
  fo_resolved :: "(string \<times> json) list"
  fo_resumed :: "(string \<times> json option) list"
  fo_rejected :: "string list"
  fo_failed :: "string list"
  fo_skipped :: "string list"
  fo_outcome :: "(string \<times> (int \<times> string)) list"
  fo_lastStart :: "(string \<times> int) list"
  fo_outputs :: "(string \<times> json) list"
  fo_starts :: nat
  fo_resolvedCount :: "(string \<times> nat) list"
  fo_startedAt :: "nat option"

definition folded0 :: folded where
  "folded0 = \<lparr>fo_started = False, fo_completed = [], fo_attempts = [], fo_terminals = [],
     fo_suspended = None, fo_requested = [], fo_resolved = [], fo_resumed = [], fo_rejected = [],
     fo_failed = [], fo_skipped = [], fo_outcome = [], fo_lastStart = [], fo_outputs = [],
     fo_starts = 0, fo_resolvedCount = [], fo_startedAt = None\<rparr>"

section \<open>The loop body, line by line\<close>

definition bump :: "string \<Rightarrow> (string \<times> nat) list \<Rightarrow> (string \<times> nat) list" where
  "bump n m = AList.update n (mget_or 0 m n + 1) m"

text \<open>\<open>(e.payload ?? {})\<close>.\<close>

definition payload_of_doc :: "event_doc \<Rightarrow> json" where
  "payload_of_doc e = (if doc_payload e = JNull then JObj [] else doc_payload e)"

definition f_run_started :: "event_doc \<Rightarrow> folded \<Rightarrow> folded" where
  "f_run_started e s = (if doc_type e = RUN_STARTED
     then s\<lparr>fo_started := True, fo_startedAt := Some (doc_time e)\<rparr> else s)"

definition f_started :: "event_doc \<Rightarrow> string \<Rightarrow> folded \<Rightarrow> folded" where
  "f_started e n s = (if doc_type e = NODE_STARTED then
     s\<lparr>fo_attempts := bump n (fo_attempts s), fo_requested := AList.delete n (fo_requested s),
       fo_resolved := AList.delete n (fo_resolved s), fo_resumed := AList.delete n (fo_resumed s),
       fo_lastStart := AList.update n (doc_seq e) (fo_lastStart s), fo_starts := fo_starts s + 1\<rparr> else s)"

definition f_outcome_of :: "event_doc \<Rightarrow> string \<Rightarrow> folded \<Rightarrow> folded" where
  "f_outcome_of e n s = (if doc_type e \<in> {NODE_COMPLETED, NODE_FAILED, NODE_SKIPPED}
     then s\<lparr>fo_outcome := AList.update n (doc_seq e, doc_type e) (fo_outcome s)\<rparr> else s)"

definition f_resolved_count :: "event_doc \<Rightarrow> string \<Rightarrow> folded \<Rightarrow> folded" where
  "f_resolved_count e n s = (if doc_type e = INTERRUPT_RESOLVED
     then s\<lparr>fo_resolvedCount := bump n (fo_resolvedCount s)\<rparr> else s)"

definition outputs_of :: "json \<Rightarrow> json" where
  "outputs_of p = (case jfield p ''outputs'' of
     Some (JObj ps) \<Rightarrow> JObj ps | Some (JArr xs) \<Rightarrow> JArr xs | _ \<Rightarrow> JObj [])"

definition f_completed :: "event_doc \<Rightarrow> string \<Rightarrow> folded \<Rightarrow> folded" where
  "f_completed e n s = (if doc_type e = NODE_COMPLETED
     then s\<lparr>fo_completed := push_new n (fo_completed s),
            fo_outputs := AList.update n (outputs_of (payload_of_doc e)) (fo_outputs s)\<rparr> else s)"

definition f_terminals :: "event_doc \<Rightarrow> string \<Rightarrow> folded \<Rightarrow> folded" where
  "f_terminals e n s = (if doc_type e \<in> {NODE_COMPLETED, NODE_FAILED}
     then s\<lparr>fo_terminals := bump n (fo_terminals s)\<rparr> else s)"

definition f_suspended :: "event_doc \<Rightarrow> string \<Rightarrow> folded \<Rightarrow> folded" where
  "f_suspended e n s = (if doc_type e = NODE_SUSPENDED then s\<lparr>fo_suspended := Some n\<rparr> else s)"

definition f_requested :: "event_doc \<Rightarrow> string \<Rightarrow> folded \<Rightarrow> folded" where
  "f_requested e n s = (if doc_type e = INTERRUPT_REQUESTED then
     (case jfield (payload_of_doc e) ''key'' of
        Some (JStr k) \<Rightarrow> s\<lparr>fo_requested := AList.update n k (fo_requested s)\<rparr> | _ \<Rightarrow> s) else s)"

definition f_resolved :: "event_doc \<Rightarrow> string \<Rightarrow> folded \<Rightarrow> folded" where
  "f_resolved e n s = (if doc_type e = INTERRUPT_RESOLVED
     then s\<lparr>fo_requested := AList.delete n (fo_requested s),
            fo_resolved := AList.update n (payload_of_doc e) (fo_resolved s)\<rparr> else s)"

definition f_rejected :: "event_doc \<Rightarrow> string \<Rightarrow> folded \<Rightarrow> folded" where
  "f_rejected e n s = (if doc_type e = APPROVAL_REJECTED
     then s\<lparr>fo_rejected := push_new n (fo_rejected s)\<rparr> else s)"

definition f_failed :: "event_doc \<Rightarrow> string \<Rightarrow> folded \<Rightarrow> folded" where
  "f_failed e n s = (if doc_type e = NODE_FAILED then s\<lparr>fo_failed := push_new n (fo_failed s)\<rparr> else s)"

definition f_skipped :: "event_doc \<Rightarrow> string \<Rightarrow> folded \<Rightarrow> folded" where
  "f_skipped e n s = (if doc_type e = NODE_SKIPPED then s\<lparr>fo_skipped := push_new n (fo_skipped s)\<rparr> else s)"

definition f_resumed :: "event_doc \<Rightarrow> string \<Rightarrow> folded \<Rightarrow> folded" where
  "f_resumed e n s = (if doc_type e = NODE_RESUMED
     then s\<lparr>fo_resolved := AList.delete n (fo_resolved s),
            fo_resumed := AList.update n (jfield (payload_of_doc e) ''resumeValue'') (fo_resumed s)\<rparr> else s)"

definition f_visit_end :: "event_doc \<Rightarrow> string \<Rightarrow> folded \<Rightarrow> folded" where
  "f_visit_end e n s = (if doc_type e \<in> {NODE_COMPLETED, NODE_FAILED}
     then s\<lparr>fo_requested := AList.delete n (fo_requested s), fo_resolved := AList.delete n (fo_resolved s),
            fo_resumed := AList.delete n (fo_resumed s),
            fo_rejected := removeAll n (fo_rejected s)\<rparr> else s)"

definition f_unsuspended :: "event_doc \<Rightarrow> folded \<Rightarrow> folded" where
  "f_unsuspended e s = (if doc_type e \<in> {NODE_RESUMED, NODE_COMPLETED, NODE_FAILED}
     then s\<lparr>fo_suspended := None\<rparr> else s)"

definition fold_step :: "event_doc \<Rightarrow> folded \<Rightarrow> folded" where
  "fold_step e s =
     (let s1 = f_run_started e s;
          s2 = (case doc_node e of None \<Rightarrow> s1 | Some n \<Rightarrow> if n = [] then s1 else
            f_visit_end e n (f_resumed e n (f_skipped e n (f_failed e n (f_rejected e n (f_resolved e n
              (f_requested e n (f_suspended e n (f_terminals e n (f_completed e n
                (f_resolved_count e n (f_outcome_of e n (f_started e n s1)))))))))))))
      in f_unsuspended e s2)"

definition fold_log :: "event_doc list \<Rightarrow> folded" where
  "fold_log es = fold fold_step es folded0"

definition fold_run :: "host \<Rightarrow> run_row \<Rightarrow> world \<Rightarrow> folded \<times> world" where
  "fold_run h r w = (case readLog h r w of (es, w1) \<Rightarrow> (fold_log es, w1))"

section \<open>What the fields count\<close>

lemmas fold_parts = f_run_started_def f_started_def f_outcome_of_def f_resolved_count_def
  f_completed_def f_terminals_def f_suspended_def f_requested_def f_resolved_def f_rejected_def
  f_failed_def f_skipped_def f_resumed_def f_visit_end_def f_unsuspended_def

lemma fold_log_Nil [simp]: "fold_log [] = folded0"
  by (simp add: fold_log_def)

lemma fold_log_snoc [simp]: "fold_log (es @ [e]) = fold_step e (fold_log es)"
  by (simp add: fold_log_def)

lemma mget_or_bump [simp]: "mget_or 0 (bump n m) k = mget_or 0 m k + (if k = n then 1 else 0)"
  by (simp add: bump_def)

text \<open>An event of type \<open>t\<close> recorded on node \<open>n\<close>.\<close>

definition on_event :: "string \<Rightarrow> string \<Rightarrow> event_doc \<Rightarrow> bool" where
  "on_event t n e \<longleftrightarrow> doc_type e = t \<and> doc_node e = Some n"

definition node_event :: "string \<Rightarrow> event_doc \<Rightarrow> bool" where
  "node_event t e \<longleftrightarrow> doc_type e = t \<and> (\<exists>n. doc_node e = Some n \<and> n \<noteq> [])"

text \<open>What one event does, by its type: on a named node, and on none.\<close>

lemma fold_step_on:
  assumes "doc_node e = Some n" "n \<noteq> []"
  shows "doc_type e = RUN_STARTED \<Longrightarrow> fold_step e s = s\<lparr>fo_started := True, fo_startedAt := Some (doc_time e)\<rparr>"
    and "doc_type e = NODE_STARTED \<Longrightarrow> fold_step e s =
      s\<lparr>fo_attempts := bump n (fo_attempts s), fo_requested := AList.delete n (fo_requested s),
        fo_resolved := AList.delete n (fo_resolved s), fo_resumed := AList.delete n (fo_resumed s),
        fo_lastStart := AList.update n (doc_seq e) (fo_lastStart s), fo_starts := fo_starts s + 1\<rparr>"
    and "doc_type e = NODE_COMPLETED \<Longrightarrow> fold_step e s =
      s\<lparr>fo_outcome := AList.update n (doc_seq e, NODE_COMPLETED) (fo_outcome s),
        fo_completed := push_new n (fo_completed s),
        fo_outputs := AList.update n (outputs_of (payload_of_doc e)) (fo_outputs s),
        fo_terminals := bump n (fo_terminals s), fo_requested := AList.delete n (fo_requested s),
        fo_resolved := AList.delete n (fo_resolved s), fo_resumed := AList.delete n (fo_resumed s),
        fo_rejected := removeAll n (fo_rejected s), fo_suspended := None\<rparr>"
    and "doc_type e = NODE_FAILED \<Longrightarrow> fold_step e s =
      s\<lparr>fo_outcome := AList.update n (doc_seq e, NODE_FAILED) (fo_outcome s),
        fo_failed := push_new n (fo_failed s),
        fo_terminals := bump n (fo_terminals s), fo_requested := AList.delete n (fo_requested s),
        fo_resolved := AList.delete n (fo_resolved s), fo_resumed := AList.delete n (fo_resumed s),
        fo_rejected := removeAll n (fo_rejected s), fo_suspended := None\<rparr>"
    and "doc_type e = NODE_SKIPPED \<Longrightarrow> fold_step e s =
      s\<lparr>fo_outcome := AList.update n (doc_seq e, NODE_SKIPPED) (fo_outcome s),
        fo_skipped := push_new n (fo_skipped s)\<rparr>"
    and "doc_type e = NODE_SUSPENDED \<Longrightarrow> fold_step e s = s\<lparr>fo_suspended := Some n\<rparr>"
    and "doc_type e = NODE_RESUMED \<Longrightarrow> fold_step e s =
      s\<lparr>fo_resolved := AList.delete n (fo_resolved s),
        fo_resumed := AList.update n (jfield (payload_of_doc e) ''resumeValue'') (fo_resumed s),
        fo_suspended := None\<rparr>"
    and "doc_type e = INTERRUPT_REQUESTED \<Longrightarrow> fold_step e s = f_requested e n s"
    and "doc_type e = INTERRUPT_RESOLVED \<Longrightarrow> fold_step e s =
      s\<lparr>fo_resolvedCount := bump n (fo_resolvedCount s), fo_requested := AList.delete n (fo_requested s),
        fo_resolved := AList.update n (payload_of_doc e) (fo_resolved s)\<rparr>"
    and "doc_type e = APPROVAL_REJECTED \<Longrightarrow> fold_step e s = s\<lparr>fo_rejected := push_new n (fo_rejected s)\<rparr>"
  using assms by (simp_all add: fold_step_def fold_parts)

definition fold_types :: "string list" where
  "fold_types = [RUN_STARTED, NODE_STARTED, NODE_COMPLETED, NODE_FAILED, NODE_SKIPPED, NODE_SUSPENDED,
     NODE_RESUMED, INTERRUPT_REQUESTED, INTERRUPT_RESOLVED, APPROVAL_REJECTED]"

lemma fold_step_other: "doc_type e \<notin> set fold_types \<Longrightarrow> fold_step e s = s"
  by (simp add: fold_step_def fold_parts fold_types_def split: option.split)

lemma fold_step_off:
  assumes "\<And>n. doc_node e = Some n \<Longrightarrow> n = []"
  shows "fold_step e s = f_unsuspended e (f_run_started e s)"
proof (cases "doc_node e")
  case None
  then show ?thesis by (simp add: fold_step_def)
next
  case (Some n)
  with assms have "n = []" by simp
  with Some show ?thesis by (simp add: fold_step_def)
qed

text \<open>The same, field by field.\<close>

lemma on_node_cases:
  obtains (off) "\<And>n. doc_node e = Some n \<Longrightarrow> n = []"
  | (on) n where "doc_node e = Some n" "n \<noteq> []"
  by blast

lemma fold_type_cases:
  obtains "t = RUN_STARTED" | "t = NODE_STARTED" | "t = NODE_COMPLETED" | "t = NODE_FAILED"
  | "t = NODE_SKIPPED" | "t = NODE_SUSPENDED" | "t = NODE_RESUMED" | "t = INTERRUPT_REQUESTED"
  | "t = INTERRUPT_RESOLVED" | "t = APPROVAL_REJECTED" | "t \<notin> set fold_types"
  by (auto simp: fold_types_def)

lemma step_fields_off:
  assumes off: "\<And>n. doc_node e = Some n \<Longrightarrow> n = []"
  shows "fo_attempts (fold_step e s) = fo_attempts s" "fo_terminals (fold_step e s) = fo_terminals s"
    "fo_resolvedCount (fold_step e s) = fo_resolvedCount s" "fo_starts (fold_step e s) = fo_starts s"
    "fo_outcome (fold_step e s) = fo_outcome s" "fo_lastStart (fold_step e s) = fo_lastStart s"
    "fo_completed (fold_step e s) = fo_completed s" "fo_failed (fold_step e s) = fo_failed s"
    "fo_skipped (fold_step e s) = fo_skipped s" "fo_outputs (fold_step e s) = fo_outputs s"
    "fo_resumed (fold_step e s) = fo_resumed s" "fo_resolved (fold_step e s) = fo_resolved s"
    "fo_requested (fold_step e s) = fo_requested s" "fo_rejected (fold_step e s) = fo_rejected s"
  by (simp_all add: fold_step_off [OF off] f_unsuspended_def f_run_started_def)

lemma step_attempts:
  "mget_or 0 (fo_attempts (fold_step e s)) n
     = mget_or 0 (fo_attempts s) n + (if on_event NODE_STARTED n e \<and> n \<noteq> [] then 1 else 0)"
proof (cases e rule: on_node_cases)
  case off
  then show ?thesis by (auto simp: step_fields_off [OF off] on_event_def node_event_def)
next
  case (on m)
  note step = fold_step_on [OF on]
  show ?thesis
    by (cases "doc_type e" rule: fold_type_cases)
       (use on in \<open>auto simp: step fold_step_other fold_types_def on_event_def node_event_def ends_visit_def f_requested_def split: option.splits json.splits\<close>)
qed

lemma step_terminals:
  "mget_or 0 (fo_terminals (fold_step e s)) n
     = mget_or 0 (fo_terminals s) n
       + (if (on_event NODE_COMPLETED n e \<or> on_event NODE_FAILED n e) \<and> n \<noteq> [] then 1 else 0)"
proof (cases e rule: on_node_cases)
  case off
  then show ?thesis by (auto simp: step_fields_off [OF off] on_event_def node_event_def)
next
  case (on m)
  note step = fold_step_on [OF on]
  show ?thesis
    by (cases "doc_type e" rule: fold_type_cases)
       (use on in \<open>auto simp: step fold_step_other fold_types_def on_event_def node_event_def ends_visit_def f_requested_def split: option.splits json.splits\<close>)
qed

lemma step_resolvedCount:
  "mget_or 0 (fo_resolvedCount (fold_step e s)) n
     = mget_or 0 (fo_resolvedCount s) n + (if on_event INTERRUPT_RESOLVED n e \<and> n \<noteq> [] then 1 else 0)"
proof (cases e rule: on_node_cases)
  case off
  then show ?thesis by (auto simp: step_fields_off [OF off] on_event_def node_event_def)
next
  case (on m)
  note step = fold_step_on [OF on]
  show ?thesis
    by (cases "doc_type e" rule: fold_type_cases)
       (use on in \<open>auto simp: step fold_step_other fold_types_def on_event_def node_event_def ends_visit_def f_requested_def split: option.splits json.splits\<close>)
qed

lemma step_starts:
  "fo_starts (fold_step e s) = fo_starts s + (if node_event NODE_STARTED e then 1 else 0)"
proof (cases e rule: on_node_cases)
  case off
  then show ?thesis by (auto simp: step_fields_off [OF off] on_event_def node_event_def)
next
  case (on m)
  note step = fold_step_on [OF on]
  show ?thesis
    by (cases "doc_type e" rule: fold_type_cases)
       (use on in \<open>auto simp: step fold_step_other fold_types_def on_event_def node_event_def ends_visit_def f_requested_def split: option.splits json.splits\<close>)
qed

lemma step_outcome:
  "map_of (fo_outcome (fold_step e s)) n =
     (if doc_node e = Some n \<and> n \<noteq> [] \<and> ends_visit (doc_type e)
      then Some (doc_seq e, doc_type e) else map_of (fo_outcome s) n)"
proof (cases e rule: on_node_cases)
  case off
  then show ?thesis by (auto simp: step_fields_off [OF off] on_event_def node_event_def)
next
  case (on m)
  note step = fold_step_on [OF on]
  show ?thesis
    by (cases "doc_type e" rule: fold_type_cases)
       (use on in \<open>auto simp: step fold_step_other fold_types_def on_event_def node_event_def ends_visit_def f_requested_def split: option.splits json.splits\<close>)
qed

lemma step_lastStart:
  "map_of (fo_lastStart (fold_step e s)) n =
     (if on_event NODE_STARTED n e \<and> n \<noteq> [] then Some (doc_seq e) else map_of (fo_lastStart s) n)"
proof (cases e rule: on_node_cases)
  case off
  then show ?thesis by (auto simp: step_fields_off [OF off] on_event_def node_event_def)
next
  case (on m)
  note step = fold_step_on [OF on]
  show ?thesis
    by (cases "doc_type e" rule: fold_type_cases)
       (use on in \<open>auto simp: step fold_step_other fold_types_def on_event_def node_event_def ends_visit_def f_requested_def split: option.splits json.splits\<close>)
qed

lemma step_completed:
  "fo_completed (fold_step e s) =
     (if node_event NODE_COMPLETED e then push_new (the (doc_node e)) (fo_completed s) else fo_completed s)"
proof (cases e rule: on_node_cases)
  case off
  then show ?thesis by (auto simp: step_fields_off [OF off] on_event_def node_event_def)
next
  case (on m)
  note step = fold_step_on [OF on]
  show ?thesis
    by (cases "doc_type e" rule: fold_type_cases)
       (use on in \<open>auto simp: step fold_step_other fold_types_def on_event_def node_event_def ends_visit_def f_requested_def split: option.splits json.splits\<close>)
qed

lemma step_failed:
  "fo_failed (fold_step e s) =
     (if node_event NODE_FAILED e then push_new (the (doc_node e)) (fo_failed s) else fo_failed s)"
proof (cases e rule: on_node_cases)
  case off
  then show ?thesis by (auto simp: step_fields_off [OF off] on_event_def node_event_def)
next
  case (on m)
  note step = fold_step_on [OF on]
  show ?thesis
    by (cases "doc_type e" rule: fold_type_cases)
       (use on in \<open>auto simp: step fold_step_other fold_types_def on_event_def node_event_def ends_visit_def f_requested_def split: option.splits json.splits\<close>)
qed

lemma step_skipped:
  "fo_skipped (fold_step e s) =
     (if node_event NODE_SKIPPED e then push_new (the (doc_node e)) (fo_skipped s) else fo_skipped s)"
proof (cases e rule: on_node_cases)
  case off
  then show ?thesis by (auto simp: step_fields_off [OF off] on_event_def node_event_def)
next
  case (on m)
  note step = fold_step_on [OF on]
  show ?thesis
    by (cases "doc_type e" rule: fold_type_cases)
       (use on in \<open>auto simp: step fold_step_other fold_types_def on_event_def node_event_def ends_visit_def f_requested_def split: option.splits json.splits\<close>)
qed

lemma step_outputs:
  "map_of (fo_outputs (fold_step e s)) n =
     (if on_event NODE_COMPLETED n e \<and> n \<noteq> [] then Some (outputs_of (payload_of_doc e))
      else map_of (fo_outputs s) n)"
proof (cases e rule: on_node_cases)
  case off
  then show ?thesis by (auto simp: step_fields_off [OF off] on_event_def node_event_def)
next
  case (on m)
  note step = fold_step_on [OF on]
  show ?thesis
    by (cases "doc_type e" rule: fold_type_cases)
       (use on in \<open>auto simp: step fold_step_other fold_types_def on_event_def node_event_def ends_visit_def f_requested_def split: option.splits json.splits\<close>)
qed

lemma step_resumed:
  "map_of (fo_resumed (fold_step e s)) n =
     (if n = [] \<or> doc_node e \<noteq> Some n then map_of (fo_resumed s) n
      else if doc_type e = NODE_RESUMED then Some (jfield (payload_of_doc e) ''resumeValue'')
      else if doc_type e \<in> {NODE_STARTED, NODE_COMPLETED, NODE_FAILED} then None
      else map_of (fo_resumed s) n)"
proof (cases e rule: on_node_cases)
  case off
  then show ?thesis by (auto simp: step_fields_off [OF off] on_event_def node_event_def)
next
  case (on m)
  note step = fold_step_on [OF on]
  show ?thesis
    by (cases "doc_type e" rule: fold_type_cases)
       (use on in \<open>auto simp: step fold_step_other fold_types_def on_event_def node_event_def ends_visit_def f_requested_def split: option.splits json.splits\<close>)
qed

lemma step_resolved:
  "map_of (fo_resolved (fold_step e s)) n =
     (if n = [] \<or> doc_node e \<noteq> Some n then map_of (fo_resolved s) n
      else if doc_type e = INTERRUPT_RESOLVED then Some (payload_of_doc e)
      else if doc_type e \<in> {NODE_STARTED, NODE_RESUMED, NODE_COMPLETED, NODE_FAILED} then None
      else map_of (fo_resolved s) n)"
proof (cases e rule: on_node_cases)
  case off
  then show ?thesis by (auto simp: step_fields_off [OF off] on_event_def node_event_def)
next
  case (on m)
  note step = fold_step_on [OF on]
  show ?thesis
    by (cases "doc_type e" rule: fold_type_cases)
       (use on in \<open>auto simp: step fold_step_other fold_types_def on_event_def node_event_def ends_visit_def f_requested_def split: option.splits json.splits\<close>)
qed

lemma step_requested:
  "map_of (fo_requested (fold_step e s)) n =
     (if n = [] \<or> doc_node e \<noteq> Some n then map_of (fo_requested s) n
      else if doc_type e = INTERRUPT_REQUESTED then
        (case jfield (payload_of_doc e) ''key'' of Some (JStr k) \<Rightarrow> Some k | _ \<Rightarrow> map_of (fo_requested s) n)
      else if doc_type e \<in> {NODE_STARTED, INTERRUPT_RESOLVED, NODE_COMPLETED, NODE_FAILED} then None
      else map_of (fo_requested s) n)"
proof (cases e rule: on_node_cases)
  case off
  then show ?thesis by (auto simp: step_fields_off [OF off] on_event_def node_event_def)
next
  case (on m)
  note step = fold_step_on [OF on]
  show ?thesis
    by (cases "doc_type e" rule: fold_type_cases)
       (use on in \<open>auto simp: step fold_step_other fold_types_def on_event_def node_event_def ends_visit_def f_requested_def split: option.splits json.splits\<close>)
qed

lemma step_started: "fo_started (fold_step e s) \<longleftrightarrow> fo_started s \<or> doc_type e = RUN_STARTED"
proof (cases e rule: on_node_cases)
  case off
  then show ?thesis by (simp add: fold_step_off [OF off] f_unsuspended_def f_run_started_def)
next
  case (on m)
  note step = fold_step_on [OF on]
  show ?thesis
    by (cases "doc_type e" rule: fold_type_cases)
       (auto simp: step fold_step_other fold_types_def f_requested_def split: option.splits json.splits)
qed

text \<open>The same over a whole log.\<close>

lemma attempts_count:
  "n \<noteq> [] \<Longrightarrow> mget_or 0 (fo_attempts (fold_log es)) n = count_if (on_event NODE_STARTED n) es"
  by (induction es rule: rev_induct) (simp_all add: step_attempts folded0_def)

lemma terminals_count:
  "n \<noteq> [] \<Longrightarrow> mget_or 0 (fo_terminals (fold_log es)) n
     = count_if (\<lambda>e. on_event NODE_COMPLETED n e \<or> on_event NODE_FAILED n e) es"
  by (induction es rule: rev_induct) (simp_all add: step_terminals folded0_def)

lemma resolved_count:
  "n \<noteq> [] \<Longrightarrow> mget_or 0 (fo_resolvedCount (fold_log es)) n = count_if (on_event INTERRUPT_RESOLVED n) es"
  by (induction es rule: rev_induct) (simp_all add: step_resolvedCount folded0_def)

lemma starts_count: "fo_starts (fold_log es) = count_if (node_event NODE_STARTED) es"
  by (induction es rule: rev_induct) (simp_all add: step_starts folded0_def)

lemma started_iff: "fo_started (fold_log es) \<longleftrightarrow> (\<exists>e \<in> set es. doc_type e = RUN_STARTED)"
  by (induction es rule: rev_induct) (auto simp: step_started folded0_def)

lemma completed_distinct: "distinct (fo_completed (fold_log es))"
  by (induction es rule: rev_induct) (simp_all add: step_completed folded0_def)

lemma completed_set:
  "set (fo_completed (fold_log es)) = {n. n \<noteq> [] \<and> (\<exists>e \<in> set es. on_event NODE_COMPLETED n e)}"
proof (induction es rule: rev_induct)
  case Nil
  then show ?case by (simp add: folded0_def)
next
  case (snoc a es)
  show ?case
  proof (cases "node_event NODE_COMPLETED a")
    case True
    then obtain m where "doc_node a = Some m" "m \<noteq> []" "doc_type a = NODE_COMPLETED"
      by (auto simp: node_event_def)
    with snoc show ?thesis by (auto simp: step_completed node_event_def on_event_def)
  next
    case False
    then have "n = [] \<or> \<not> on_event NODE_COMPLETED n a" for n
      by (auto simp: node_event_def on_event_def)
    with False snoc show ?thesis by (auto simp: step_completed)
  qed
qed

text \<open>
  The outcome the scheduler keeps of a node is the node's last terminal event in the log, whatever
  precedes and follows it.
\<close>

theorem outcome_is_last_terminal:
  assumes "n \<noteq> []"
  shows "map_of (fo_outcome (fold_log es)) n = Some (q, t) \<longleftrightarrow>
    (\<exists>xs e ys. es = xs @ e # ys \<and> doc_node e = Some n \<and> ends_visit (doc_type e) \<and> doc_seq e = q \<and> doc_type e = t
       \<and> (\<forall>y \<in> set ys. \<not> (doc_node y = Some n \<and> ends_visit (doc_type y))))"
  (is "_ \<longleftrightarrow> ?R es")
proof (induction es rule: rev_induct)
  case Nil
  then show ?case by (simp add: folded0_def)
next
  case (snoc a es)
  let ?fin = "\<lambda>e. doc_node e = Some n \<and> ends_visit (doc_type e)"
  show ?case
  proof (cases "?fin a")
    case True
    have "?R (es @ [a]) \<longleftrightarrow> doc_seq a = q \<and> doc_type a = t"
    proof
      assume "?R (es @ [a])"
      then obtain xs e ys where d: "es @ [a] = xs @ e # ys" "doc_seq e = q" "doc_type e = t"
        and no: "\<forall>y \<in> set ys. \<not> ?fin y" by blast
      from d(1) no True have "ys = []" by (cases ys rule: rev_cases) auto
      with d show "doc_seq a = q \<and> doc_type a = t" by simp
    next
      assume "doc_seq a = q \<and> doc_type a = t"
      with True show "?R (es @ [a])" by (intro exI [of _ es] exI [of _ a] exI [of _ "[]"]) simp
    qed
    then have "?R (es @ [a]) = (doc_seq a = q \<and> doc_type a = t)" .
    moreover have "map_of (fo_outcome (fold_log (es @ [a]))) n = Some (doc_seq a, doc_type a)"
      using True assms by (simp add: step_outcome)
    ultimately show ?thesis by simp
  next
    case False
    have "?R (es @ [a]) \<longleftrightarrow> ?R es"
    proof
      assume "?R (es @ [a])"
      then obtain xs e ys where d: "es @ [a] = xs @ e # ys" "?fin e" "doc_seq e = q" "doc_type e = t"
        and no: "\<forall>y \<in> set ys. \<not> ?fin y" by blast
      from d(1,2) False obtain ys' where "ys = ys' @ [a]" "es = xs @ e # ys'"
        by (cases ys rule: rev_cases) auto
      with d no show "?R es" by auto
    next
      assume "?R es"
      then obtain xs e ys where "es = xs @ e # ys" "?fin e" "doc_seq e = q" "doc_type e = t"
        "\<forall>y \<in> set ys. \<not> ?fin y" by blast
      with False show "?R (es @ [a])"
        by (intro exI [of _ xs] exI [of _ e] exI [of _ "ys @ [a]"]) auto
    qed
    moreover have "map_of (fo_outcome (fold_log (es @ [a]))) n = map_of (fo_outcome (fold_log es)) n"
      using False by (auto simp: step_outcome)
    ultimately show ?thesis using snoc by simp
  qed
qed

lemma outcome_is_last_terminal_witness:
  "\<exists>es q. map_of (fo_outcome (fold_log es)) ''a'' = Some (q, NODE_COMPLETED)"
proof -
  let ?e = "\<lparr>doc_id = ''e'', doc_run = ''r'', doc_type = NODE_COMPLETED, doc_payload = JObj [], doc_time = 0, doc_seq = 3,
     doc_schema = 1, doc_node = Some ''a'', doc_engine = None, doc_causation = None\<rparr>"
  have "map_of (fo_outcome (fold_log [?e])) ''a'' = Some (3, NODE_COMPLETED)"
    by (subst outcome_is_last_terminal) (simp, intro exI [of _ "[]"] exI [of _ ?e], simp add: ends_visit_def)
  then show ?thesis by blast
qed

end
