(* ===== verification/Json.thy ===== *)
theory Json
  imports Prelude
begin

text \<open>
  \<open>JSON.stringify\<close> and the canonical form \<open>canonicalize\<close> of
  \<open>examples/hosts/v2-reference/src/audit.ts\<close> (RFC 8785 for I-JSON values). Strings are
  UTF-8 byte lists. The section shows that printing is injective: two values that print
  the same text are the same value, so comparing \<open>JSON.stringify\<close> texts, as the edge
  conditions of the executor do, compares values, and a canonical text determines its
  value up to the order of object members.
\<close>

section \<open>Printing\<close>

definition hex_char :: "nat \<Rightarrow> char" where
  "hex_char n = (if n < 10 then char_of (48 + n) else char_of (87 + n))"

text \<open>One character inside a JSON string: two-character escapes, \<open>\u00xx\<close> for the other controls.\<close>

definition esc_char :: "char \<Rightarrow> string" where
  "esc_char c = (let n = (of_char c :: nat) in
     if n = 34 then [CHR 0x5C, CHR 0x22]
     else if n = 92 then [CHR 0x5C, CHR 0x5C]
     else if n = 8 then [CHR 0x5C, CHR ''b'']
     else if n = 9 then [CHR 0x5C, CHR ''t'']
     else if n = 10 then [CHR 0x5C, CHR ''n'']
     else if n = 12 then [CHR 0x5C, CHR ''f'']
     else if n = 13 then [CHR 0x5C, CHR ''r'']
     else if n < 32 then [CHR 0x5C, CHR ''u'', CHR ''0'', CHR ''0'', hex_char (n div 16), hex_char (n mod 16)]
     else [c])"

definition quote_string :: "string \<Rightarrow> string" where
  "quote_string s = CHR 0x22 # concat (map esc_char s) @ [CHR 0x22]"

fun json_stringify :: "json \<Rightarrow> string"
and stringify_elems :: "json list \<Rightarrow> string"
and stringify_members :: "(string \<times> json) list \<Rightarrow> string" where
  "json_stringify JNull = ''null''"
| "json_stringify (JBool b) = (if b then ''true'' else ''false'')"
| "json_stringify (JNum n) = int_string n"
| "json_stringify (JStr s) = quote_string s"
| "json_stringify (JArr xs) = CHR ''['' # stringify_elems xs"
| "json_stringify (JObj ps) = CHR ''{'' # stringify_members ps"
| "stringify_elems [] = '']''"
| "stringify_elems [x] = json_stringify x @ '']''"
| "stringify_elems (x # y # xs) = json_stringify x @ CHR '','' # stringify_elems (y # xs)"
| "stringify_members [] = ''}''"
| "stringify_members [(k, x)] = quote_string k @ CHR '':'' # json_stringify x @ ''}''"
| "stringify_members ((k, x) # p # ps) =
     quote_string k @ CHR '':'' # json_stringify x @ CHR '','' # stringify_members (p # ps)"

text \<open>\<open>JSON.stringify(a) === JSON.stringify(b)\<close>; of \<open>undefined\<close> it is \<open>undefined\<close>.\<close>

definition stringify_eq :: "json option \<Rightarrow> json option \<Rightarrow> bool" where
  "stringify_eq a b \<longleftrightarrow> map_option json_stringify a = map_option json_stringify b"

section \<open>Printing is injective\<close>

lemma digit_char_digit: "n < 10 \<Longrightarrow> is_digit (digit_char n)"
  by (simp add: digit_char_def is_digit_def)

lemma digit_char_inj: "m < 10 \<Longrightarrow> n < 10 \<Longrightarrow> digit_char m = digit_char n \<Longrightarrow> m = n"
proof -
  assume "m < 10" "n < 10" "digit_char m = digit_char n"
  then have "(of_char (char_of (48 + m)) :: nat) = of_char (char_of (48 + n) :: char)"
    by (simp only: digit_char_def)
  with \<open>m < 10\<close> \<open>n < 10\<close> show "m = n" by simp
qed

lemma nat_string_digits: "c \<in> set (nat_string n) \<Longrightarrow> is_digit c"
proof (induction n rule: nat_string.induct)
  case (1 n)
  then show ?case
    by (subst (asm) (2) nat_string.simps) (auto simp: digit_char_digit split: if_splits)
qed

lemma nat_string_nonempty [simp]: "nat_string n \<noteq> []" "[] \<noteq> nat_string n"
  by (subst nat_string.simps, simp)+

lemma nat_string_inj: "nat_string m = nat_string n \<Longrightarrow> m = n"
proof (induction m arbitrary: n rule: nat_string.induct)
  case (1 m)
  show ?case
  proof (cases "m < 10")
    case True
    show ?thesis
    proof (cases "n < 10")
      case True
      with \<open>m < 10\<close> "1.prems" show ?thesis
        by (simp add: nat_string.simps digit_char_inj)
    next
      case False
      with \<open>m < 10\<close> "1.prems" show ?thesis
        by (simp add: nat_string.simps [of m] nat_string.simps [of n] append_eq_Cons_conv)
    qed
  next
    case m: False
    show ?thesis
    proof (cases "n < 10")
      case True
      with m "1.prems" show ?thesis
        by (simp add: nat_string.simps [of m] nat_string.simps [of n] append_eq_Cons_conv)
    next
      case False
      with m "1.prems" have "nat_string (m div 10) = nat_string (n div 10)"
        and "digit_char (m mod 10) = digit_char (n mod 10)"
        by (simp_all add: nat_string.simps [of m] nat_string.simps [of n])
      with "1.IH" m have "m div 10 = n div 10" and "m mod 10 = n mod 10"
        by (auto intro: digit_char_inj)
      then show ?thesis by (metis div_mult_mod_eq)
    qed
  qed
qed

text \<open>
  What may follow a printed value is not a digit: numbers are the only values whose text
  does not announce its own end.
\<close>

definition no_digit_start :: "string \<Rightarrow> bool" where
  "no_digit_start r = (case r of [] \<Rightarrow> True | c # _ \<Rightarrow> \<not> is_digit c)"

lemma no_digit_start_simps [simp]:
  "no_digit_start []" "no_digit_start (c # r) \<longleftrightarrow> \<not> is_digit c"
  by (simp_all add: no_digit_start_def)

lemma digits_split:
  assumes "\<forall>c \<in> set xs. is_digit c" "\<forall>c \<in> set ys. is_digit c"
    and "xs @ r = ys @ s" "no_digit_start r" "no_digit_start s"
  shows "xs = ys \<and> r = s"
  using assms
proof (induction xs arbitrary: ys)
  case Nil
  then show ?case by (cases ys) auto
next
  case (Cons x xs)
  then show ?case by (cases ys) (auto simp: Cons_eq_append_conv)
qed

lemma nat_string_split:
  "nat_string a @ r = nat_string b @ s \<Longrightarrow> no_digit_start r \<Longrightarrow> no_digit_start s \<Longrightarrow> a = b \<and> r = s"
  using digits_split [of "nat_string a" "nat_string b" r s] nat_string_digits nat_string_inj
  by blast

lemma nat_string_no_dash: "nat_string k @ r \<noteq> CHR ''-'' # s"
proof
  assume "nat_string k @ r = CHR ''-'' # s"
  then have "CHR ''-'' \<in> set (nat_string k)"
    by (cases "nat_string k") auto
  then have "is_digit (CHR ''-'')" by (rule nat_string_digits)
  then show False by (simp add: is_digit_def)
qed

lemma int_string_split:
  assumes "int_string m @ r = int_string n @ s" "no_digit_start r" "no_digit_start s"
  shows "m = n \<and> r = s"
proof (cases "m < 0"; cases "n < 0")
  assume "m < 0" "n < 0"
  with assms have "nat (- m) = nat (- n) \<and> r = s"
    by (intro nat_string_split) (simp_all add: int_string_def)
  with \<open>m < 0\<close> \<open>n < 0\<close> show ?thesis by linarith
next
  assume "\<not> m < 0" "\<not> n < 0"
  with assms have "nat m = nat n \<and> r = s"
    by (intro nat_string_split) (simp_all add: int_string_def)
  with \<open>\<not> m < 0\<close> \<open>\<not> n < 0\<close> show ?thesis by linarith
next
  assume "m < 0" "\<not> n < 0"
  with assms(1) have "nat_string (nat n) @ s = CHR ''-'' # nat_string (nat (- m)) @ r"
    by (simp add: int_string_def)
  then show ?thesis using nat_string_no_dash by blast
next
  assume "\<not> m < 0" "n < 0"
  with assms(1) have "nat_string (nat m) @ r = CHR ''-'' # nat_string (nat (- n)) @ s"
    by (simp add: int_string_def)
  then show ?thesis using nat_string_no_dash by blast
qed

lemma esc_char_nonempty [simp]: "esc_char c \<noteq> []"
  by (simp add: esc_char_def Let_def)

lemma hex_char_inj: "m < 16 \<Longrightarrow> n < 16 \<Longrightarrow> hex_char m = hex_char n \<Longrightarrow> m = n"
proof -
  assume "m < 16" "n < 16" "hex_char m = hex_char n"
  then have "(of_char (hex_char m) :: nat) = of_char (hex_char n)" by simp
  with \<open>m < 16\<close> \<open>n < 16\<close> show "m = n" by (simp add: hex_char_def split: if_splits)
qed

text \<open>An escape sequence is decoded by reading it: the printed characters determine the string.\<close>

lemma esc_char_form:
  "(esc_char c = [c] \<and> c \<noteq> CHR 0x5C \<and> c \<noteq> CHR 0x22)
   \<or> (\<exists>d. esc_char c = [CHR 0x5C, d] \<and> d \<noteq> CHR ''u'')
   \<or> (\<exists>h l. esc_char c = [CHR 0x5C, CHR ''u'', CHR ''0'', CHR ''0'', h, l])"
proof -
  have "c \<noteq> CHR 0x5C" if "(of_char c :: nat) \<noteq> 92" using that by auto
  moreover have "c \<noteq> CHR 0x22" if "(of_char c :: nat) \<noteq> 34" using that by auto
  ultimately show ?thesis by (simp add: esc_char_def Let_def)
qed

lemma esc_char_cases:
  obtains (plain) "esc_char c = [c]" "c \<noteq> CHR 0x5C" "c \<noteq> CHR 0x22"
    | (short) d where "esc_char c = [CHR 0x5C, d]" "d \<noteq> CHR ''u''"
    | (control) h l where "esc_char c = [CHR 0x5C, CHR ''u'', CHR ''0'', CHR ''0'', h, l]"
  using esc_char_form [of c] by blast

lemma esc_char_split:
  assumes "esc_char c @ xs = esc_char d @ ys"
  shows "esc_char c = esc_char d \<and> xs = ys"
  by (cases c rule: esc_char_cases; cases d rule: esc_char_cases) (use assms in auto)

lemma esc_char_not_quote: "esc_char c @ xs \<noteq> CHR 0x22 # ys"
  by (cases c rule: esc_char_cases) auto

lemma of_char_nat_inj: "(of_char c :: nat) = of_char d \<Longrightarrow> c = d"
  by (metis char_of_char)

lemma esc_char_short:
  "length (esc_char c) = 2 \<Longrightarrow> (of_char c :: nat) =
     (if esc_char c ! 1 = CHR 0x22 then 34 else if esc_char c ! 1 = CHR 0x5C then 92
      else if esc_char c ! 1 = CHR ''b'' then 8 else if esc_char c ! 1 = CHR ''t'' then 9
      else if esc_char c ! 1 = CHR ''n'' then 10 else if esc_char c ! 1 = CHR ''f'' then 12 else 13)"
  by (simp add: esc_char_def Let_def split: if_splits)

lemma esc_char_control:
  "length (esc_char c) = 6 \<Longrightarrow>
     (of_char c :: nat) < 32 \<and> esc_char c ! 4 = hex_char (of_char c div 16)
     \<and> esc_char c ! 5 = hex_char (of_char c mod 16)"
  by (simp add: esc_char_def Let_def split: if_splits)

lemma esc_char_inj: "esc_char c = esc_char d \<Longrightarrow> c = d"
proof -
  assume eq: "esc_char c = esc_char d"
  show "c = d"
  proof (cases c rule: esc_char_cases)
    case plain
    with eq show ?thesis by (cases d rule: esc_char_cases) auto
  next
    case (short x)
    then have "length (esc_char c) = 2" by simp
    with eq show ?thesis
      by (intro of_char_nat_inj) (simp only: esc_char_short)
  next
    case (control h l)
    then have "length (esc_char c) = 6" by simp
    with eq have c: "(of_char c :: nat) < 32" "(of_char d :: nat) < 32"
      and hex: "hex_char (of_char c div 16) = hex_char (of_char d div 16)"
        "hex_char (of_char c mod 16) = hex_char (of_char d mod 16)"
      using esc_char_control [of c] esc_char_control [of d] by auto
    from hex c have "(of_char c :: nat) div 16 = of_char d div 16" "(of_char c :: nat) mod 16 = of_char d mod 16"
      by (auto intro!: hex_char_inj)
    then have "(of_char c :: nat) = of_char d" by (metis div_mult_mod_eq)
    then show ?thesis by (rule of_char_nat_inj)
  qed
qed

lemma quote_body_split:
  "concat (map esc_char s) @ CHR 0x22 # r = concat (map esc_char t) @ CHR 0x22 # r' \<Longrightarrow> s = t \<and> r = r'"
proof (induction s arbitrary: t)
  case Nil
  show ?case
  proof (cases t)
    case Nil
    with Nil.prems show ?thesis by simp
  next
    case (Cons d t')
    with Nil.prems have "esc_char d @ (concat (map esc_char t') @ CHR 0x22 # r') = CHR 0x22 # r"
      by simp
    then show ?thesis using esc_char_not_quote by blast
  qed
next
  case (Cons c s)
  show ?case
  proof (cases t)
    case Nil
    with Cons.prems have "esc_char c @ (concat (map esc_char s) @ CHR 0x22 # r) = CHR 0x22 # r'"
      by simp
    then show ?thesis using esc_char_not_quote by blast
  next
    case (Cons d t')
    with Cons.prems have "esc_char c @ (concat (map esc_char s) @ CHR 0x22 # r)
        = esc_char d @ (concat (map esc_char t') @ CHR 0x22 # r')"
      by simp
    from esc_char_split [OF this] Cons.IH [of t'] have "esc_char c = esc_char d" "s = t' \<and> r = r'"
      by auto
    with Cons esc_char_inj show ?thesis by simp
  qed
qed

lemma quote_string_split: "quote_string s @ r = quote_string t @ r' \<Longrightarrow> s = t \<and> r = r'"
  using quote_body_split [of s r t r'] by (simp add: quote_string_def)

text \<open>The first character of a printed value announces its constructor.\<close>

definition char_tag :: "char \<Rightarrow> nat" where
  "char_tag c = (if c = CHR ''n'' then 0 else if c = CHR ''t'' \<or> c = CHR ''f'' then 1
     else if is_digit c \<or> c = CHR ''-'' then 2 else if c = CHR 0x22 then 3
     else if c = CHR ''['' then 4 else if c = CHR ''{'' then 5 else 6)"

fun json_tag :: "json \<Rightarrow> nat" where
  "json_tag JNull = 0"
| "json_tag (JBool _) = 1"
| "json_tag (JNum _) = 2"
| "json_tag (JStr _) = 3"
| "json_tag (JArr _) = 4"
| "json_tag (JObj _) = 5"

lemma is_digit_tag: "is_digit c \<Longrightarrow> char_tag c = 2"
  by (auto simp: char_tag_def is_digit_def)

lemma json_head: "\<exists>c w. json_stringify x = c # w \<and> char_tag c = json_tag x"
proof (cases x)
  case (JNum n)
  have "\<exists>c w. nat_string k = c # w \<and> is_digit c" for k
    using nat_string_digits [of "hd (nat_string k)" k] by (cases "nat_string k") auto
  moreover have "char_tag (CHR ''-'') = 2" by (simp add: char_tag_def is_digit_def)
  ultimately show ?thesis using JNum is_digit_tag by (simp add: int_string_def) metis
qed (auto simp: char_tag_def is_digit_def quote_string_def)

lemma json_head_eq: "json_stringify x @ r = json_stringify y @ s \<Longrightarrow> json_tag x = json_tag y"
  using json_head [of x] json_head [of y] by auto

lemma json_not_closing [simp]:
  "json_stringify x @ r \<noteq> CHR '']'' # s" "CHR '']'' # s \<noteq> json_stringify x @ r"
proof -
  have "char_tag (CHR '']'') = 6" by (simp add: char_tag_def is_digit_def)
  moreover have "json_tag x < 6" by (cases x) auto
  moreover obtain c w where "json_stringify x = c # w" "char_tag c = json_tag x"
    using json_head by blast
  ultimately show "json_stringify x @ r \<noteq> CHR '']'' # s" "CHR '']'' # s \<noteq> json_stringify x @ r"
    by auto
qed

lemma quote_not_closing [simp]:
  "quote_string k @ r \<noteq> CHR ''}'' # s" "CHR ''}'' # s \<noteq> quote_string k @ r"
  by (simp_all add: quote_string_def)

lemma separator_start [simp]:
  "\<not> is_digit (CHR '','')" "\<not> is_digit (CHR '']'')" "\<not> is_digit (CHR ''}'')"
  by (simp_all add: is_digit_def)

lemma members_cases:
  obtains (none) "qs = []" | (one) l y where "qs = [(l, y)]" | (more) l y q qs' where "qs = (l, y) # q # qs'"
  by (metis list.exhaust surj_pair)

lemma elems_cases:
  obtains (none) "ys = []" | (one) y where "ys = [y]" | (more) y z zs where "ys = y # z # zs"
  by (metis list.exhaust)

lemma stringify_split:
  shows "json_stringify x @ r = json_stringify y @ s \<Longrightarrow> no_digit_start r \<Longrightarrow> no_digit_start s
     \<Longrightarrow> x = y \<and> r = s"
    and "stringify_elems xs @ r' = stringify_elems ys @ s' \<Longrightarrow> xs = ys \<and> r' = s'"
    and "stringify_members ps @ r'' = stringify_members qs @ s'' \<Longrightarrow> ps = qs \<and> r'' = s''"
proof (induction x and xs and ps arbitrary: y r s and ys r' s' and qs r'' s''
    rule: json_stringify_stringify_elems_stringify_members.induct)
  case 1
  then show ?case using json_head_eq [OF "1.prems"(1)] by (cases y) auto
next
  case (2 b)
  then show ?case using json_head_eq [OF "2.prems"(1)] by (cases y) (auto split: if_splits)
next
  case (3 n)
  then show ?case using json_head_eq [OF "3.prems"(1)] by (cases y) (auto dest: int_string_split)
next
  case (4 t)
  then show ?case using json_head_eq [OF "4.prems"(1)] by (cases y) (auto dest: quote_string_split)
next
  case (5 xs)
  show ?case using "5.prems"(1) json_head_eq [OF "5.prems"(1)] by (cases y) (auto dest: "5.IH")
next
  case (6 ps)
  show ?case using "6.prems"(1) json_head_eq [OF "6.prems"(1)] by (cases y) (auto dest: "6.IH")
next
  case 7
  then show ?case by (cases ys rule: stringify_elems.cases) simp_all
next
  case (8 x)
  note prems = "8.prems" and IH = "8.IH"
  show ?case
  proof (cases ys rule: elems_cases)
    case none
    with prems show ?thesis by simp
  next
    case (one y)
    with prems IH [of "CHR '']'' # r'" y "CHR '']'' # s'"] show ?thesis by simp
  next
    case (more y z zs)
    with prems IH [of "CHR '']'' # r'" y "CHR '','' # stringify_elems (z # zs) @ s'"]
    show ?thesis by simp
  qed
next
  case (9 x y xs)
  note prems = "9.prems" and IH = "9.IH"
  show ?case
  proof (cases ys rule: elems_cases)
    case none
    with prems show ?thesis by simp
  next
    case (one u)
    with prems IH(1) [of "CHR '','' # stringify_elems (y # xs) @ r'" u "CHR '']'' # s'"]
    show ?thesis by simp
  next
    case (more u z zs)
    with prems IH(1) [of "CHR '','' # stringify_elems (y # xs) @ r'" u "CHR '','' # stringify_elems (z # zs) @ s'"]
      IH(2) [of r' "z # zs" s']
    show ?thesis by simp
  qed
next
  case 10
  then show ?case by (cases qs rule: stringify_members.cases) simp_all
next
  case (11 k x)
  note prems = "11.prems" and IH = "11.IH"
  show ?case
  proof (cases qs rule: members_cases)
    case none
    with prems show ?thesis by simp
  next
    case (one l y)
    with prems have "quote_string k @ (CHR '':'' # json_stringify x @ CHR ''}'' # r'')
        = quote_string l @ (CHR '':'' # json_stringify y @ CHR ''}'' # s'')" by simp
    from quote_string_split [OF this] have "k = l"
      and "json_stringify x @ CHR ''}'' # r'' = json_stringify y @ CHR ''}'' # s''" by simp_all
    with one IH [of "CHR ''}'' # r''" y "CHR ''}'' # s''"] show ?thesis by simp
  next
    case (more l y q qs')
    with prems have "quote_string k @ (CHR '':'' # json_stringify x @ CHR ''}'' # r'')
        = quote_string l @ (CHR '':'' # json_stringify y @ CHR '','' # stringify_members (q # qs') @ s'')" by simp
    from quote_string_split [OF this] have "k = l"
      and "json_stringify x @ CHR ''}'' # r'' = json_stringify y @ CHR '','' # stringify_members (q # qs') @ s''" by simp_all
    with more IH [of "CHR ''}'' # r''" y "CHR '','' # stringify_members (q # qs') @ s''"] show ?thesis by simp
  qed
next
  case (12 k x p ps)
  note prems = "12.prems" and IH = "12.IH"
  show ?case
  proof (cases qs rule: members_cases)
    case none
    with prems show ?thesis by simp
  next
    case (one l y)
    with prems have "quote_string k @ (CHR '':'' # json_stringify x @ CHR '','' # stringify_members (p # ps) @ r'')
        = quote_string l @ (CHR '':'' # json_stringify y @ CHR ''}'' # s'')" by simp
    from quote_string_split [OF this] have "k = l"
      and "json_stringify x @ CHR '','' # stringify_members (p # ps) @ r'' = json_stringify y @ CHR ''}'' # s''" by simp_all
    with one IH(1) [of "CHR '','' # stringify_members (p # ps) @ r''" y "CHR ''}'' # s''"] show ?thesis by simp
  next
    case (more l y q qs')
    with prems have "quote_string k @ (CHR '':'' # json_stringify x @ CHR '','' # stringify_members (p # ps) @ r'')
        = quote_string l @ (CHR '':'' # json_stringify y @ CHR '','' # stringify_members (q # qs') @ s'')" by simp
    from quote_string_split [OF this] have "k = l"
      and "json_stringify x @ CHR '','' # stringify_members (p # ps) @ r'' = json_stringify y @ CHR '','' # stringify_members (q # qs') @ s''" by simp_all
    with more IH(1) [of "CHR '','' # stringify_members (p # ps) @ r''" y "CHR '','' # stringify_members (q # qs') @ s''"]
      IH(2) [of r'' "q # qs'" s''] show ?thesis by simp
  qed
qed

theorem json_stringify_inj: "json_stringify x = json_stringify y \<longleftrightarrow> x = y"
  using stringify_split(1) [of x "[]" y "[]"] by auto

lemma stringify_eq_iff [simp]: "stringify_eq a b \<longleftrightarrow> a = b"
  by (cases a; cases b) (auto simp: stringify_eq_def json_stringify_inj)

end
