(* ===== verification/Graph.thy ===== *)
theory Graph
  imports Fold Json
begin

text \<open>
  The scheduler's pure part (\<open>executor.ts\<close>): the edges of a definition, when an edge's
  condition holds, when a node fires, the execution order, and the next node owed an
  evaluation. The lemmas show that the order is a permutation of the definition's nodes
  that respects every edge of an acyclic definition, and that \<open>nextNode\<close> answers the first
  owed node, so the search for idle sources never changes the answer.
\<close>

section \<open>Links\<close>

record link =
  l_from :: string
  l_to :: string
  l_rule :: string
  l_cond :: "json option"

definition first_of :: "string option list \<Rightarrow> string option" where
  "first_of xs = (case List.map_filter (\<lambda>x. x) xs of [] \<Rightarrow> None | y # _ \<Rightarrow> Some y)"

definition rule_of :: "json option \<Rightarrow> string" where
  "rule_of t = (case str_of t of Some s \<Rightarrow> s | None \<Rightarrow> ''all_success'')"

definition link_of :: "string list \<Rightarrow> wf_edge \<Rightarrow> link option" where
  "link_of ids e =
     (case (first_of [ed_from e, ed_source e, ed_sourceNodeId e], first_of [ed_to e, ed_target e, ed_targetNodeId e]) of
        (Some a, Some b) \<Rightarrow>
          if a = [] \<or> b = [] \<or> a \<notin> set ids \<or> b \<notin> set ids then None
          else Some \<lparr>l_from = a, l_to = b,
            l_rule = rule_of (ed_trigger e),
            l_cond = (if is_object (ed_condition e) then ed_condition e else None)\<rparr>
      | _ \<Rightarrow> None)"

definition node_ids :: "wf_def \<Rightarrow> string list" where
  "node_ids d = map nd_id (wf_nodes d)"

definition links :: "wf_def \<Rightarrow> link list" where
  "links d = List.map_filter (link_of (node_ids d)) (wf_edges d)"

definition ADMITS_FAILED :: "string list" where
  "ADMITS_FAILED = [''all_complete'', ''any_failed'']"

definition failureRouted :: "wf_def \<Rightarrow> string \<Rightarrow> bool" where
  "failureRouted d n \<longleftrightarrow> (\<exists>l \<in> set (links d). l_from l = n \<and> l_rule l \<in> set ADMITS_FAILED)"

section \<open>Conditions\<close>

fun path_walk :: "json option \<Rightarrow> string list \<Rightarrow> json option" where
  "path_walk cur [] = cur"
| "path_walk cur (seg # segs) = (if is_object cur then path_walk (jget cur seg) segs else None)"

definition atPath :: "json option \<Rightarrow> string \<Rightarrow> json option" where
  "atPath outputs path = path_walk outputs (split_on (CHR ''.'') path)"

definition conditionHolds :: "host \<Rightarrow> json \<Rightarrow> json option \<Rightarrow> bool" where
  "conditionHolds h c outputs =
     (let ty = jfield c ''type''; right = jfield c ''right''
      in if ty = Some (JStr ''expression'') then True else
         case jfield c ''left'' of
           Some (JStr path) \<Rightarrow>
             (let left = atPath outputs path in
              if ty = Some (JStr ''truthy'') then truthy left
              else if ty = Some (JStr ''falsy'') then \<not> truthy left
              else if ty = Some (JStr ''equals'') then stringify_eq left right
              else if ty = Some (JStr ''notEquals'') then \<not> stringify_eq left right
              else if ty = Some (JStr ''contains'') then
                (case left of
                   Some (JStr s) \<Rightarrow> (case right of Some (JStr p) \<Rightarrow> str_includes p s | _ \<Rightarrow> False)
                 | Some (JArr xs) \<Rightarrow> (\<exists>x \<in> set xs. stringify_eq (Some x) right)
                 | _ \<Rightarrow> False)
              else if ty = Some (JStr ''regex'') then
                (case (left, right) of
                   (Some (JStr s), Some (JStr p)) \<Rightarrow> (case h_regex h p s of None \<Rightarrow> False | Some b \<Rightarrow> b)
                 | _ \<Rightarrow> False)
              else True)
         | _ \<Rightarrow> True)"

section \<open>Firing\<close>

record outcomes =
  oc_completed :: "string list"
  oc_failed :: "string list"
  oc_skipped :: "string list"
  oc_outputs :: "(string \<times> json) list"

definition latestOutcomes :: "folded \<Rightarrow> outcomes" where
  "latestOutcomes st =
     \<lparr>oc_completed = map fst (filter (\<lambda>(n, t). snd t = NODE_COMPLETED) (fo_outcome st)),
      oc_failed = map fst (filter (\<lambda>(n, t). snd t = NODE_FAILED) (fo_outcome st)),
      oc_skipped = map fst (filter (\<lambda>(n, t). snd t \<noteq> NODE_COMPLETED \<and> snd t \<noteq> NODE_FAILED) (fo_outcome st)),
      oc_outputs = fo_outputs st\<rparr>"

definition fires :: "host \<Rightarrow> wf_def \<Rightarrow> string \<Rightarrow> outcomes \<Rightarrow> bool \<times> string" where
  "fires h d n st =
     (let incoming = filter (\<lambda>l. l_to l = n) (links d) in
      if incoming = [] then (True, ''none'') else
      let rule = l_rule (hd incoming);
          ok = length (filter (\<lambda>l. l_from l \<in> set (oc_completed st) \<and>
                 (case l_cond l of None \<Rightarrow> True
                  | Some c \<Rightarrow> conditionHolds h c (map_of (oc_outputs st) (l_from l)))) incoming);
          bad = length (filter (\<lambda>l. l_from l \<in> set (oc_failed st)) incoming);
          don = length (filter (\<lambda>l. l_from l \<in> set (oc_completed st) \<or> l_from l \<in> set (oc_failed st)
                 \<or> l_from l \<in> set (oc_skipped st)) incoming);
          verdict =
            (if rule = ''any_success'' then ok > 0
             else if rule = ''all_complete'' then don = length incoming
             else if rule = ''none_failed'' then bad = 0 \<and> don = length incoming
             else if rule = ''any_failed'' then bad > 0
             else ok = length incoming)
      in (verdict, rule))"

section \<open>The execution order\<close>

text \<open>
  The two maps of \<open>orderNodes\<close> and its worklist: \<open>drain_links\<close> is the inner loop over the
  targets of the node just taken, \<open>kahn\<close> the outer one.
\<close>

definition out_map :: "link list \<Rightarrow> (string \<times> string list) list" where
  "out_map ls = fold (\<lambda>l m. AList.update (l_from l) (mget_or [] m (l_from l) @ [l_to l]) m) ls []"

definition indeg_map :: "string list \<Rightarrow> link list \<Rightarrow> (string \<times> int) list" where
  "indeg_map ids ls = fold (\<lambda>l m. AList.update (l_to l) (mget_or 0 m (l_to l) + 1) m) ls
     (fold (\<lambda>n m. AList.update n 0 m) ids [])"

fun drain_links :: "string list \<Rightarrow> (string \<times> int) list \<Rightarrow> string list \<Rightarrow> (string \<times> int) list \<times> string list" where
  "drain_links [] deg ready = (deg, ready)"
| "drain_links (n # ns) deg ready =
     (let deg' = AList.update n (mget_or 1 deg n - 1) deg
      in drain_links ns deg' (if map_of deg' n = Some 0 then ready @ [n] else ready))"

definition targets :: "(string \<times> string list) list \<Rightarrow> string list" where
  "targets out = remdups (concat (map snd out))"

definition deg_sum :: "string list \<Rightarrow> (string \<times> int) list \<Rightarrow> nat" where
  "deg_sum ts deg = sum_list (map (\<lambda>n. nat (mget_or 1 deg n)) ts)"

lemma deg_sum_update:
  assumes "n \<in> set ts" "distinct ts"
  shows "deg_sum ts (AList.update n (mget_or 1 deg n - 1) deg) + (if mget_or 1 deg n > 0 then 1 else 0) = deg_sum ts deg"
proof -
  from assms obtain as bs where ts: "ts = as @ n # bs" and n: "n \<notin> set as" "n \<notin> set bs"
    by (metis distinct.simps(2) distinct_append not_distinct_conv_prefix split_list disjoint_insert(1) list.set(2))
  have same: "map (\<lambda>k. nat (mget_or 1 (AList.update n v deg) k)) xs = map (\<lambda>k. nat (mget_or 1 deg k)) xs"
    if "n \<notin> set xs" for xs v
    using that by (auto intro: map_cong)
  show ?thesis
    unfolding deg_sum_def ts map_append list.map same [OF n(1)] same [OF n(2)] by (simp; linarith)
qed

lemma drain_measure:
  assumes "set ns \<subseteq> set ts" "distinct ts"
  shows "length (snd (drain_links ns deg ready)) + deg_sum ts (fst (drain_links ns deg ready))
     \<le> length ready + deg_sum ts deg"
  using assms
proof (induction ns deg ready rule: drain_links.induct)
  case (2 n ns deg ready)
  let ?deg = "AList.update n (mget_or 1 deg n - 1) deg"
  have "map_of ?deg n = Some 0 \<longleftrightarrow> mget_or 1 deg n = 1" by auto
  with "2.IH" [OF refl] "2.prems" deg_sum_update [of n ts deg] show ?case
    by (auto simp: Let_def split: if_splits)
qed simp

function kahn :: "(string \<times> string list) list \<Rightarrow> (string \<times> int) list \<Rightarrow> string list \<Rightarrow> string list \<Rightarrow> string list" where
  "kahn out deg [] order = order"
| "kahn out deg (n # ready) order =
     (let (deg', ready') = drain_links (mget_or [] out n) deg ready in kahn out deg' ready' (order @ [n]))"
  by pat_completeness auto
termination
proof (relation "measure (\<lambda>(out, deg, ready, order). length ready + deg_sum (targets out) deg)")
  fix out :: "(string \<times> string list) list" and deg n ready and order :: "string list" and x deg' ready'
  assume x: "x = drain_links (mget_or [] out n) deg ready" "(deg', ready') = x"
  have "set (mget_or [] out n) \<subseteq> set (targets out)"
    by (auto simp: mget_or_def targets_def split: option.splits) (metis map_of_SomeD snd_conv)
  moreover have "distinct (targets out)" by (simp add: targets_def)
  moreover from x have "drain_links (mget_or [] out n) deg ready = (deg', ready')" by simp
  ultimately show "((out, deg', ready', order @ [n]), out, deg, n # ready, order)
      \<in> measure (\<lambda>(out, deg, ready, order). length ready + deg_sum (targets out) deg)"
    using drain_measure [of "mget_or [] out n" "targets out" deg ready] by simp
qed simp

definition node_by_id :: "wf_def \<Rightarrow> string \<Rightarrow> wf_node option" where
  "node_by_id d n = map_of (fold (\<lambda>x m. AList.update (nd_id x) x m) (wf_nodes d) []) n"

definition orderNodes :: "wf_def \<Rightarrow> wf_node list" where
  "orderNodes d =
     (let ls = links d;
          deg = indeg_map (node_ids d) ls;
          ready = filter (\<lambda>n. mget_or 0 deg n = 0) (node_ids d);
          order = map (\<lambda>n. the (node_by_id d n)) (kahn (out_map ls) deg ready [])
      in fold push_new (wf_nodes d) order)"

section \<open>The next node\<close>

definition delivers :: "string \<Rightarrow> string \<Rightarrow> bool" where
  "delivers rule t = (if rule = ''any_failed'' then t = NODE_FAILED
     else if rule = ''all_complete'' then t = NODE_COMPLETED \<or> t = NODE_FAILED
     else t = NODE_COMPLETED)"

definition position :: "wf_node list \<Rightarrow> string \<Rightarrow> nat" where
  "position ord n = mget_or 0 (rev (zip (map nd_id ord) [0..<length ord])) n"

definition owed_link :: "wf_node list \<Rightarrow> folded \<Rightarrow> string \<Rightarrow> int \<Rightarrow> link \<Rightarrow> bool" where
  "owed_link ord st n tseq l \<longleftrightarrow> l_to l = n \<and>
     (case map_of (fo_outcome st) (l_from l) of None \<Rightarrow> False
      | Some (sseq, stype) \<Rightarrow> tseq < sseq \<and>
          (position ord (l_from l) < position ord n \<or> delivers (l_rule l) stype))"

definition owed :: "wf_def \<Rightarrow> wf_node list \<Rightarrow> folded \<Rightarrow> string \<Rightarrow> bool" where
  "owed d ord st n =
     (case map_of (fo_outcome st) n of
        None \<Rightarrow> True
      | Some (tseq, _) \<Rightarrow> tseq < mget_or (-1) (fo_lastStart st) n
          \<or> (\<exists>l \<in> set (links d). owed_link ord st n tseq l))"

definition nextNode :: "wf_def \<Rightarrow> wf_node list \<Rightarrow> folded \<Rightarrow> wf_node option" where
  "nextNode d ord st = find (\<lambda>x. owed d ord st (nd_id x) \<and>
     (\<forall>l \<in> set (filter (\<lambda>l. l_to l = nd_id x \<and> position ord (l_from l) < position ord (nd_id x)) (links d)).
        \<not> owed d ord st (l_from l))) ord"

section \<open>Limits and inputs\<close>

definition MAX_NODE_EXECUTIONS :: nat where "MAX_NODE_EXECUTIONS = 1000"

definition recursionLimit :: "run_row \<Rightarrow> nat" where
  "recursionLimit r =
     (case jget (jget (jget (Some (r_options r)) ''configurable'') ''run'') ''recursionLimit'' of
        Some (JNum n) \<Rightarrow> if n > 0 then min (nat n) MAX_NODE_EXECUTIONS else MAX_NODE_EXECUTIONS
      | _ \<Rightarrow> MAX_NODE_EXECUTIONS)"

definition resolveInput :: "wf_node \<Rightarrow> string \<Rightarrow> run_row \<Rightarrow> wf_def \<Rightarrow> json option" where
  "resolveInput node name r d =
     (let binding = map_of (nd_inputs node) name; inputs = r_inputs r;
          vname = jget binding ''variableName''
      in if is_object binding \<and> jget binding ''type'' = Some (JStr ''variable'') \<and> truthy vname then
           (case jfield inputs (js_String vname) of
              Some v \<Rightarrow> Some v
            | None \<Rightarrow> (case find (\<lambda>v. vname = Some (JStr (v_name v))) (wf_vars d) of
                 None \<Rightarrow> None | Some v \<Rightarrow> v_default v))
         else if is_object binding \<and> jget binding ''value'' \<noteq> None then jget binding ''value''
         else nullish (jfield inputs name) (map_of (nd_config node) name))"

section \<open>The order is a permutation that respects the edges\<close>

lemma links_ids: "l \<in> set (links d) \<Longrightarrow> l_from l \<in> set (node_ids d) \<and> l_to l \<in> set (node_ids d)"
proof -
  assume "l \<in> set (links d)"
  then obtain e where e: "link_of (node_ids d) e = Some l" by (auto simp: links_def List.map_filter_def)
  obtain a b where "first_of [ed_from e, ed_source e, ed_sourceNodeId e] = Some a"
      "first_of [ed_to e, ed_target e, ed_targetNodeId e] = Some b"
    using e unfolding link_of_def by (cases "first_of [ed_from e, ed_source e, ed_sourceNodeId e]";
        cases "first_of [ed_to e, ed_target e, ed_targetNodeId e]") simp_all
  with e show ?thesis unfolding link_of_def by (simp split: if_splits) auto
qed

lemma out_map_get: "mget_or [] (out_map ls) n = map l_to (filter (\<lambda>l. l_from l = n) ls)"
proof -
  have "mget_or [] (fold (\<lambda>l m. AList.update (l_from l) (mget_or [] m (l_from l) @ [l_to l]) m) ls m) n
      = mget_or [] m n @ map l_to (filter (\<lambda>l. l_from l = n) ls)" for m
    by (induction ls arbitrary: m) auto
  then show ?thesis by (simp add: out_map_def)
qed

lemma indeg_map_get:
  assumes "n \<in> set ids"
  shows "map_of (indeg_map ids ls) n = Some (int (length (filter (\<lambda>l. l_to l = n) ls)))"
proof -
  let ?z = "fold (\<lambda>n m. AList.update n (0::int) m) ids []"
  have z: "map_of (fold (\<lambda>n m. AList.update n (0::int) m) ids m) k
      = (if k \<in> set ids then Some 0 else map_of m k)" for k m
    by (induction ids arbitrary: m) auto
  have "map_of (fold (\<lambda>l m. AList.update (l_to l) (mget_or 0 m (l_to l) + 1) m) ls m) n
      = (case map_of m n of None \<Rightarrow> if filter (\<lambda>l. l_to l = n) ls = [] then None
             else Some (int (length (filter (\<lambda>l. l_to l = n) ls)))
         | Some k \<Rightarrow> Some (k + int (length (filter (\<lambda>l. l_to l = n) ls))))" for m
    by (induction ls arbitrary: m) (auto simp: mget_or_def split: option.splits)
  with z [of "[]" n] assms show ?thesis by (simp add: indeg_map_def)
qed

text \<open>The links into \<open>n\<close> whose source is still to come.\<close>

definition waiting_for :: "link list \<Rightarrow> string list \<Rightarrow> string \<Rightarrow> nat" where
  "waiting_for ls don n = length (filter (\<lambda>l. l_to l = n \<and> l_from l \<notin> set don) ls)"

text \<open>
  The invariant of the worklist: what is taken or ready has no source to come, everything
  else has one, and each taken node comes after all its sources.
\<close>

definition kahn_inv :: "string list \<Rightarrow> link list \<Rightarrow> (string \<times> int) list \<Rightarrow> string list \<Rightarrow> string list \<Rightarrow> bool" where
  "kahn_inv ids ls deg ready don \<longleftrightarrow>
     distinct (don @ ready) \<and> set (don @ ready) \<subseteq> set ids
     \<and> (\<forall>n \<in> set ids. map_of deg n = Some (int (waiting_for ls don n)))
     \<and> (\<forall>n \<in> set ids. n \<in> set (don @ ready) \<longleftrightarrow> waiting_for ls don n = 0)
     \<and> (\<forall>xs n ys. don = xs @ n # ys \<longrightarrow> (\<forall>l \<in> set ls. l_to l = n \<longrightarrow> l_from l \<in> set xs))"

lemma drain_links_result:
  assumes "\<And>n. n \<in> set ns \<Longrightarrow> map_of deg n = Some (int (c n + count_list ns n))"
  shows "\<exists>zs. snd (drain_links ns deg ready) = ready @ zs \<and> distinct zs
           \<and> set zs = {n \<in> set ns. c n = 0}
           \<and> (\<forall>n. map_of (fst (drain_links ns deg ready)) n =
                 (if n \<in> set ns then Some (int (c n)) else map_of deg n))"
  using assms
proof (induction ns arbitrary: deg ready)
  case (Cons a ns)
  let ?deg = "AList.update a (mget_or 1 deg a - 1) deg"
  have a: "map_of deg a = Some (int (c a + Suc (count_list ns a)))" using Cons.prems [of a] by simp
  then have a': "map_of ?deg a = Some (int (c a + count_list ns a))" by (simp add: mget_or_def)
  have "map_of ?deg n = Some (int (c n + count_list ns n))" if "n \<in> set ns" for n
    using Cons.prems [of n] that a' by (cases "n = a") auto
  note IH = Cons.IH [OF this]
  let ?r = "if map_of ?deg a = Some 0 then ready @ [a] else ready"
  have step: "drain_links (a # ns) deg ready = drain_links ns ?deg ?r" by (simp only: drain_links.simps Let_def)
  obtain zs where z: "snd (drain_links (a # ns) deg ready) = ?r @ zs"
      "distinct zs" "set zs = {n \<in> set ns. c n = 0}"
      "\<forall>n. map_of (fst (drain_links (a # ns) deg ready)) n = (if n \<in> set ns then Some (int (c n)) else map_of ?deg n)"
    unfolding step using IH [of ?r] by blast
  have hit: "map_of ?deg a = Some 0 \<longleftrightarrow> c a = 0 \<and> a \<notin> set ns"
  proof -
    from a' have "map_of ?deg a = Some 0 \<longleftrightarrow> int (c a + count_list ns a) = 0" by simp
    also have "\<dots> \<longleftrightarrow> c a = 0 \<and> count_list ns a = 0" by linarith
    finally show ?thesis by (simp add: count_list_0_iff)
  qed
  show ?case
  proof (cases "c a = 0 \<and> a \<notin> set ns")
    case True
    with hit z(1) have r: "snd (drain_links (a # ns) deg ready) = ready @ (a # zs)" by simp
    have "distinct (a # zs)" "set (a # zs) = {n \<in> set (a # ns). c n = 0}" using True z(2,3) by auto
    moreover have "map_of (fst (drain_links (a # ns) deg ready)) n =
        (if n \<in> set (a # ns) then Some (int (c n)) else map_of deg n)" for n
      using z(4) [rule_format, of n] True a' by (cases "n = a") (simp_all del: drain_links.simps add: count_list_0_iff)
    ultimately show ?thesis using r by blast
  next
    case False
    with hit z(1) have r: "snd (drain_links (a # ns) deg ready) = ready @ zs" by simp
    from False have "n \<in> set (a # ns) \<and> c n = 0 \<longleftrightarrow> n \<in> set ns \<and> c n = 0" for n by (cases "n = a") auto
    then have "set zs = {n \<in> set (a # ns). c n = 0}" unfolding z(3) by blast
    moreover have "map_of (fst (drain_links (a # ns) deg ready)) n =
        (if n \<in> set (a # ns) then Some (int (c n)) else map_of deg n)" for n
      using z(4) [rule_format, of n] a' by (cases "a \<in> set ns"; cases "n = a") (simp_all del: drain_links.simps add: count_list_0_iff)
    ultimately show ?thesis using r z(2) by blast
  qed
qed simp

lemma waiting_for_snoc:
  assumes "n \<notin> set don"
  shows "waiting_for ls don m
    = waiting_for ls (don @ [n]) m + count_list (map l_to (filter (\<lambda>l. l_from l = n) ls)) m"
  using assms by (induction ls) (auto simp: waiting_for_def)

lemma waiting_for_0: "waiting_for ls don n = 0 \<longleftrightarrow> (\<forall>l \<in> set ls. l_to l = n \<longrightarrow> l_from l \<in> set don)"
  by (auto simp: waiting_for_def filter_empty_conv)

lemma kahn_inv_step:
  assumes inv: "kahn_inv ids ls deg (n # ready) don"
    and closed: "\<And>l. l \<in> set ls \<Longrightarrow> l_to l \<in> set ids"
    and d: "drain_links (mget_or [] (out_map ls) n) deg ready = (deg', ready')"
  shows "kahn_inv ids ls deg' ready' (don @ [n])"
proof -
  let ?ns = "map l_to (filter (\<lambda>l. l_from l = n) ls)"
  let ?c = "waiting_for ls (don @ [n])"
  from inv have n: "n \<notin> set don" "n \<in> set ids" by (auto simp: kahn_inv_def)
  note old = waiting_for_snoc [OF n(1), of ls]
  from inv have zero: "m \<in> set ids \<Longrightarrow> m \<in> set (don @ n # ready) \<longleftrightarrow> waiting_for ls don m = 0" for m
    by (simp add: kahn_inv_def)
  have deg: "m \<in> set ids \<Longrightarrow> map_of deg m = Some (int (?c m + count_list ?ns m))" for m
    using inv old [of m] by (simp add: kahn_inv_def)
  have ns: "m \<in> set ids" if "m \<in> set ?ns" for m using that closed by auto
  from drain_links_result [of ?ns deg ?c ready] deg ns d out_map_get [of ls n]
  obtain zs where z: "ready' = ready @ zs" "distinct zs" "set zs = {m \<in> set ?ns. ?c m = 0}"
      "\<forall>m. map_of deg' m = (if m \<in> set ?ns then Some (int (?c m)) else map_of deg m)"
    by auto
  have pos: "waiting_for ls don m > 0" if "m \<in> set ?ns" for m
    using that old [of m] by (metis add_gr_0 count_list_0_iff gr0I)
  have fresh: "m \<notin> set (don @ n # ready)" if "m \<in> set zs" for m
    using that z(3) pos [of m] zero [of m] ns [of m] by auto
  have "distinct ((don @ [n]) @ ready')"
    using inv z(1,2) fresh by (auto simp: kahn_inv_def)
  moreover have "set ((don @ [n]) @ ready') \<subseteq> set ids"
    using inv z(1,3) ns by (auto simp: kahn_inv_def)
  moreover have "\<forall>m \<in> set ids. map_of deg' m = Some (int (?c m))"
    using z(4) deg by (auto simp: count_list_0_iff)
  moreover have "\<forall>m \<in> set ids. m \<in> set ((don @ [n]) @ ready') \<longleftrightarrow> ?c m = 0"
  proof
    fix m assume m: "m \<in> set ids"
    show "m \<in> set ((don @ [n]) @ ready') \<longleftrightarrow> ?c m = 0"
    proof (cases "m \<in> set ?ns")
      case True
      with zero [OF m] pos [OF True] z(1,3) show ?thesis by auto
    next
      case False
      then have "count_list ?ns m = 0" by (simp add: count_list_0_iff)
      with old [of m] zero [OF m] z(1,3) False show ?thesis by auto
    qed
  qed
  moreover have "\<forall>l \<in> set ls. l_to l = k \<longrightarrow> l_from l \<in> set xs" if "don @ [n] = xs @ k # ys" for xs k ys
  proof (cases ys rule: rev_cases)
    case Nil
    with that have "k = n" "xs = don" by auto
    with zero [OF n(2)] show ?thesis by (simp add: waiting_for_0)
  next
    case (snoc ys' y)
    with that have "don = xs @ k # ys'" by simp
    with inv show ?thesis by (simp add: kahn_inv_def)
  qed
  ultimately show ?thesis unfolding kahn_inv_def by blast
qed

lemma kahn_inv_final:
  assumes closed: "\<And>l. l \<in> set ls \<Longrightarrow> l_to l \<in> set ids"
  shows "kahn_inv ids ls deg ready don \<Longrightarrow> \<exists>deg'. kahn_inv ids ls deg' [] (kahn (out_map ls) deg ready don)"
proof (induction "out_map ls" deg ready don rule: kahn.induct)
  case (1 deg order)
  then show ?case by auto
next
  case (2 deg n ready order)
  obtain deg' ready' where d: "drain_links (mget_or [] (out_map ls) n) deg ready = (deg', ready')" by force
  from "2.hyps" [OF d [symmetric] refl kahn_inv_step [OF "2.prems" closed d]] d show ?case by simp
qed

lemma kahn_inv_start:
  assumes "distinct ids"
  shows "kahn_inv ids ls (indeg_map ids ls) (filter (\<lambda>n. mget_or 0 (indeg_map ids ls) n = 0) ids) []"
  using assms by (auto simp: kahn_inv_def indeg_map_get mget_or_def waiting_for_def)

definition kahn_ids :: "wf_def \<Rightarrow> string list" where
  "kahn_ids d = kahn (out_map (links d)) (indeg_map (node_ids d) (links d))
     (filter (\<lambda>n. mget_or 0 (indeg_map (node_ids d) (links d)) n = 0) (node_ids d)) []"

lemma kahn_ids_inv:
  assumes "distinct (node_ids d)"
  shows "\<exists>deg. kahn_inv (node_ids d) (links d) deg [] (kahn_ids d)"
  unfolding kahn_ids_def
  by (rule kahn_inv_final [OF _ kahn_inv_start [OF assms]]) (simp add: links_ids)

lemma node_by_id_nth:
  assumes "distinct (node_ids d)" "x \<in> set (wf_nodes d)"
  shows "node_by_id d (nd_id x) = Some x"
proof -
  have "map_of (fold (\<lambda>x m. AList.update (nd_id x) x m) xs m) (nd_id x) = Some x"
    if "distinct (map nd_id xs)" "x \<in> set xs" for xs m
    using that
  proof (induction xs arbitrary: m)
    case (Cons a xs)
    have keep: "map_of (fold (\<lambda>x m. AList.update (nd_id x) x m) ys m) k = map_of m k"
      if "k \<notin> nd_id ` set ys" for ys k and m :: "(string \<times> wf_node) list"
      using that by (induction ys arbitrary: m) auto
    show ?case
    proof (cases "x \<in> set xs")
      case True
      with Cons show ?thesis by simp
    next
      case False
      with Cons.prems have "x = a" "nd_id x \<notin> nd_id ` set xs" by auto
      then show ?thesis by (simp add: keep)
    qed
  qed simp
  with assms show ?thesis by (simp add: node_by_id_def node_ids_def)
qed

lemma fold_push_new:
  "distinct xs \<Longrightarrow> distinct ys \<Longrightarrow> fold push_new ys xs = xs @ filter (\<lambda>y. y \<notin> set xs) ys"
proof (induction ys arbitrary: xs)
  case (Cons y ys)
  from Cons.prems have neq: "filter (\<lambda>z. z \<notin> set xs \<and> z \<noteq> y) ys = filter (\<lambda>z. z \<notin> set xs) ys"
    by (auto intro!: filter_cong)
  from Cons.IH [of "push_new y xs"] Cons.prems neq show ?case
    by (auto simp: push_new_def conj_commute intro!: filter_cong)
qed simp

text \<open>The order as the taken nodes followed by the rest of the definition.\<close>

definition kahn_nodes :: "wf_def \<Rightarrow> wf_node list" where
  "kahn_nodes d = map (\<lambda>n. the (node_by_id d n)) (kahn_ids d)"

lemma node_of_id:
  assumes "distinct (node_ids d)" "n \<in> set (node_ids d)"
  shows "the (node_by_id d n) \<in> set (wf_nodes d) \<and> nd_id (the (node_by_id d n)) = n"
proof -
  from assms(2) obtain x where "x \<in> set (wf_nodes d)" "n = nd_id x" by (auto simp: node_ids_def)
  with node_by_id_nth [OF assms(1) this(1)] show ?thesis by simp
qed

lemma kahn_nodes_ids:
  assumes "distinct (node_ids d)"
  shows "map nd_id (kahn_nodes d) = kahn_ids d" "distinct (kahn_nodes d)" "set (kahn_nodes d) \<subseteq> set (wf_nodes d)"
proof -
  from kahn_ids_inv [OF assms] have k: "distinct (kahn_ids d)" "set (kahn_ids d) \<subseteq> set (node_ids d)"
    by (auto simp: kahn_inv_def)
  with node_of_id [OF assms] have eq: "map (nd_id \<circ> (\<lambda>n. the (node_by_id d n))) (kahn_ids d) = kahn_ids d"
    by (intro map_idI) auto
  then show "map nd_id (kahn_nodes d) = kahn_ids d" by (simp add: kahn_nodes_def)
  with k(1) show "distinct (kahn_nodes d)" by (metis distinct_map)
  show "set (kahn_nodes d) \<subseteq> set (wf_nodes d)"
    using k(2) node_of_id [OF assms] by (auto simp: kahn_nodes_def)
qed

lemma orderNodes_eq:
  assumes "distinct (node_ids d)"
  shows "orderNodes d = kahn_nodes d @ filter (\<lambda>x. x \<notin> set (kahn_nodes d)) (wf_nodes d)"
proof -
  from assms have "distinct (wf_nodes d)" by (simp add: node_ids_def distinct_map)
  with fold_push_new [OF kahn_nodes_ids(2) [OF assms] this] show ?thesis
    by (simp add: orderNodes_def Let_def kahn_nodes_def kahn_ids_def)
qed

lemma orderNodes_set:
  assumes "distinct (node_ids d)"
  shows "set (orderNodes d) = set (wf_nodes d)" "distinct (orderNodes d)"
proof -
  show "set (orderNodes d) = set (wf_nodes d)"
    using kahn_nodes_ids(3) [OF assms] by (auto simp: orderNodes_eq [OF assms])
  from assms have "distinct (wf_nodes d)" by (simp add: node_ids_def distinct_map)
  with kahn_nodes_ids(2) [OF assms] show "distinct (orderNodes d)"
    by (simp add: orderNodes_eq [OF assms] set_filter disjoint_iff)
qed

lemma orderNodes_ids:
  assumes "distinct (node_ids d)"
  shows "set (map nd_id (orderNodes d)) = set (node_ids d)" "distinct (map nd_id (orderNodes d))"
proof -
  show "set (map nd_id (orderNodes d)) = set (node_ids d)"
    by (simp add: orderNodes_set [OF assms] node_ids_def)
  from assms have "inj_on nd_id (set (wf_nodes d))" by (simp add: node_ids_def distinct_map)
  with orderNodes_set [OF assms] show "distinct (map nd_id (orderNodes d))" by (simp add: distinct_map)
qed

lemma position_index:
  assumes "distinct (map nd_id ord)" "n \<in> set (map nd_id ord)"
  shows "position ord n = index_from (map nd_id ord) n"
proof -
  let ?ids = "map nd_id ord"
  have d: "distinct (map fst (rev (zip ?ids [0..<length ord])))"
    using assms(1) by (simp add: rev_map [symmetric])
  have "index_from ?ids n < length ?ids" by (rule index_from_less [OF assms(2)])
  moreover have nth: "?ids ! index_from ?ids n = n" using assms(2)
    by (induction ord) auto
  ultimately have "(n, index_from ?ids n) \<in> set (zip ?ids [0..<length ord])"
    by (auto simp: in_set_conv_nth intro!: exI [of _ "index_from ?ids n"])
  with map_of_eq_Some_iff [OF d] have "map_of (rev (zip ?ids [0..<length ord])) n = Some (index_from ?ids n)" by simp
  then show ?thesis by (simp add: position_def mget_or_def)
qed

lemma position_less:
  assumes "distinct (map nd_id ord)" "m \<in> set (map nd_id ord)" "n \<in> set (map nd_id ord)"
  shows "position ord m < position ord n \<longleftrightarrow> index_from (map nd_id ord) m < index_from (map nd_id ord) n"
  by (simp only: position_index [OF assms(1,2)] position_index [OF assms(1,3)])

definition edge_rel :: "wf_def \<Rightarrow> (string \<times> string) set" where
  "edge_rel d = (\<lambda>l. (l_from l, l_to l)) ` set (links d)"

lemma kahn_takes_all:
  assumes dist: "distinct (node_ids d)" and acyc: "acyclic (edge_rel d)"
  shows "set (kahn_ids d) = set (node_ids d)"
proof (rule ccontr)
  from kahn_ids_inv [OF dist] obtain deg where inv: "kahn_inv (node_ids d) (links d) deg [] (kahn_ids d)" by blast
  assume "set (kahn_ids d) \<noteq> set (node_ids d)"
  with inv obtain x where x: "x \<in> set (node_ids d) - set (kahn_ids d)" by (auto simp: kahn_inv_def)
  have "finite (edge_rel d)" by (simp add: edge_rel_def)
  from wfE_min [OF finite_acyclic_wf [OF this acyc] x]
  obtain n where n: "n \<in> set (node_ids d)" "n \<notin> set (kahn_ids d)"
    and least: "\<And>m. (m, n) \<in> edge_rel d \<Longrightarrow> m \<notin> set (node_ids d) - set (kahn_ids d)" by blast
  from inv n have "waiting_for (links d) (kahn_ids d) n \<noteq> 0" by (auto simp: kahn_inv_def)
  then obtain l where l: "l \<in> set (links d)" "l_to l = n" "l_from l \<notin> set (kahn_ids d)"
    by (auto simp: waiting_for_0)
  then have "(l_from l, n) \<in> edge_rel d" by (auto simp: edge_rel_def)
  with least l links_ids [OF l(1)] show False by blast
qed

lemma orderNodes_acyclic:
  assumes "distinct (node_ids d)" "acyclic (edge_rel d)"
  shows "map nd_id (orderNodes d) = kahn_ids d"
proof -
  from kahn_takes_all [OF assms] kahn_nodes_ids [OF assms(1)]
  have "nd_id ` set (kahn_nodes d) = nd_id ` set (wf_nodes d)"
    by (metis list.set_map node_ids_def)
  moreover from assms(1) have "inj_on nd_id (set (wf_nodes d))" by (simp add: node_ids_def distinct_map)
  ultimately have "set (kahn_nodes d) = set (wf_nodes d)"
    using kahn_nodes_ids(3) [OF assms(1)] by (metis inj_on_image_eq_iff order_refl)
  then have "filter (\<lambda>x. x \<notin> set (kahn_nodes d)) (wf_nodes d) = []" by (simp add: filter_empty_conv)
  then show ?thesis by (simp add: orderNodes_eq [OF assms(1)] kahn_nodes_ids(1) [OF assms(1)])
qed

lemma kahn_before:
  assumes dist: "distinct (node_ids d)" and l: "l \<in> set (links d)" and taken: "l_to l \<in> set (kahn_ids d)"
  shows "index_from (kahn_ids d) (l_from l) < index_from (kahn_ids d) (l_to l)"
proof -
  from kahn_ids_inv [OF dist] obtain deg where inv: "kahn_inv (node_ids d) (links d) deg [] (kahn_ids d)" by blast
  from taken obtain xs ys where k: "kahn_ids d = xs @ l_to l # ys" by (meson split_list)
  with inv l have "l_from l \<in> set xs" by (auto simp: kahn_inv_def)
  moreover from inv k have "l_to l \<notin> set xs" by (auto simp: kahn_inv_def)
  ultimately show ?thesis by (simp add: k index_from_append index_from_less)
qed

section \<open>The scheduler answers the first owed node\<close>

lemma find_strengthen:
  assumes "\<And>xs x ys. zs = xs @ x # ys \<Longrightarrow> P x \<Longrightarrow> \<forall>y \<in> set xs. \<not> P y \<Longrightarrow> Q x"
  shows "find (\<lambda>x. P x \<and> Q x) zs = find P zs"
proof (cases "find P zs")
  case None
  then have "find (\<lambda>x. P x \<and> Q x) zs = None" by (auto simp: find_None_iff)
  with None show ?thesis by simp
next
  case (Some x)
  from find_Some_first [OF Some] obtain xs ys
    where z: "zs = xs @ x # ys" "P x" "\<forall>y \<in> set xs. \<not> P y" by blast
  have "find (\<lambda>x. P x \<and> Q x) xs = None" using z(3) by (auto simp: find_None_iff)
  moreover have "find P xs = None" using z(3) by (auto simp: find_None_iff)
  ultimately show ?thesis using assms [OF z] z(1,2) by (simp add: find_append)
qed

lemma nextNode_find:
  assumes dist: "distinct (node_ids d)"
  shows "nextNode d (orderNodes d) st = find (\<lambda>x. owed d (orderNodes d) st (nd_id x)) (orderNodes d)"
  unfolding nextNode_def
proof (rule find_strengthen)
  let ?ord = "orderNodes d"
  fix xs x ys
  assume z: "?ord = xs @ x # ys" and idle: "\<forall>y \<in> set xs. \<not> owed d ?ord st (nd_id y)"
  note ids = orderNodes_ids [OF dist]
  show "\<forall>l \<in> set (filter (\<lambda>l. l_to l = nd_id x \<and> position ?ord (l_from l) < position ?ord (nd_id x)) (links d)).
        \<not> owed d ?ord st (l_from l)"
  proof
    fix l assume "l \<in> set (filter (\<lambda>l. l_to l = nd_id x \<and> position ?ord (l_from l) < position ?ord (nd_id x)) (links d))"
    then have l: "l \<in> set (links d)" "position ?ord (l_from l) < position ?ord (nd_id x)" by auto
    from links_ids [OF l(1)] ids(1) have m: "l_from l \<in> set (map nd_id ?ord)" by simp
    have "nd_id x \<in> set (map nd_id ?ord)" by (simp add: z)
    from l(2) position_less [OF ids(2) m this]
    have less: "index_from (map nd_id ?ord) (l_from l) < index_from (map nd_id ?ord) (nd_id x)" by simp
    from ids(2) z have "nd_id x \<notin> set (map nd_id xs)" by auto
    with z have "index_from (map nd_id ?ord) (nd_id x) = length xs" by (simp add: index_from_append)
    with less z have "l_from l \<in> set (map nd_id xs)"
      by (simp add: index_from_append split: if_splits)
    then obtain y where "y \<in> set xs" "l_from l = nd_id y" by auto
    with idle show "\<not> owed d ?ord st (l_from l)" by simp
  qed
qed

text \<open>What \<open>fires\<close> counts, as quantifiers over the incoming links.\<close>

definition contributes :: "host \<Rightarrow> outcomes \<Rightarrow> link \<Rightarrow> bool" where
  "contributes h st l \<longleftrightarrow> l_from l \<in> set (oc_completed st) \<and>
     (case l_cond l of None \<Rightarrow> True | Some c \<Rightarrow> conditionHolds h c (map_of (oc_outputs st) (l_from l)))"

definition settled :: "outcomes \<Rightarrow> link \<Rightarrow> bool" where
  "settled st l \<longleftrightarrow> l_from l \<in> set (oc_completed st) \<or> l_from l \<in> set (oc_failed st) \<or> l_from l \<in> set (oc_skipped st)"

definition fires_spec :: "host \<Rightarrow> wf_def \<Rightarrow> string \<Rightarrow> outcomes \<Rightarrow> bool" where
  "fires_spec h d n st \<longleftrightarrow>
     (case filter (\<lambda>l. l_to l = n) (links d) of [] \<Rightarrow> True
      | l # ls \<Rightarrow>
          (if l_rule l = ''any_success'' then \<exists>k \<in> set (l # ls). contributes h st k
           else if l_rule l = ''all_complete'' then \<forall>k \<in> set (l # ls). settled st k
           else if l_rule l = ''none_failed'' then \<forall>k \<in> set (l # ls). settled st k \<and> l_from k \<notin> set (oc_failed st)
           else if l_rule l = ''any_failed'' then \<exists>k \<in> set (l # ls). l_from k \<in> set (oc_failed st)
           else \<forall>k \<in> set (l # ls). contributes h st k))"

lemma count_all: "length (filter P xs) = length xs \<longleftrightarrow> (\<forall>x \<in> set xs. P x)"
  by (metis filter_id_conv length_filter_less less_irrefl)

lemma count_some: "0 < length (filter P xs) \<longleftrightarrow> (\<exists>x \<in> set xs. P x)"
  by (simp add: filter_empty_conv)

lemma count_none: "length (filter P xs) = 0 \<longleftrightarrow> (\<forall>x \<in> set xs. \<not> P x)"
  by (simp add: filter_empty_conv)

lemma fires_meets_spec: "fst (fires h d n st) \<longleftrightarrow> fires_spec h d n st"
proof (cases "filter (\<lambda>l. l_to l = n) (links d)")
  case Nil
  then show ?thesis by (simp add: fires_def fires_spec_def)
next
  case (Cons l ls)
  then show ?thesis
    unfolding fires_def fires_spec_def Let_def Cons contributes_def [symmetric] settled_def [symmetric]
    by (simp only: list.case list.sel list.distinct if_False fst_conv count_all count_some count_none) auto
qed

section \<open>A skip moves the scheduler forward\<close>

text \<open>The folded state after a terminal of type \<open>t\<close> is recorded on \<open>n\<close>.\<close>

lemma owed_after_skip:
  assumes st': "fo_outcome st' = AList.update n (q, NODE_SKIPPED) (fo_outcome st)" "fo_lastStart st' = fo_lastStart st"
    and newest: "\<And>m s t. map_of (fo_outcome st) m = Some (s, t) \<Longrightarrow> s < q"
      "\<And>m s. map_of (fo_lastStart st) m = Some s \<Longrightarrow> s < q" and q: "0 \<le> q"
    and m: "m = n \<or> position ord m < position ord n" and idle: "m \<noteq> n \<Longrightarrow> \<not> owed d ord st m"
  shows "\<not> owed d ord st' m"
proof (cases "m = n")
  case True
  have start: "\<not> q < mget_or (-1) (fo_lastStart st) n"
    using newest(2) [of n] q by (auto simp: mget_or_def split: option.splits dest: less_asym)
  have "\<not> owed_link ord st' n q l" for l
    using newest(1) [of "l_from l"] by (auto simp: owed_link_def st' split: option.splits if_splits dest: less_asym)
  with start show ?thesis by (simp add: True owed_def st')
next
  case False
  with idle obtain s t where old: "map_of (fo_outcome st) m = Some (s, t)" "\<not> s < mget_or (-1) (fo_lastStart st) m"
    "\<forall>l \<in> set (links d). \<not> owed_link ord st m s l"
    by (auto simp: owed_def split: option.splits)
  have "\<not> owed_link ord st' m s l" if "l \<in> set (links d)" for l
  proof
    assume o: "owed_link ord st' m s l"
    show False
    proof (cases "l_from l = n")
      case True
      with o m False show False by (auto simp: owed_link_def st' delivers_def split: if_splits)
    next
      case False
      then have "owed_link ord st' m s l = owed_link ord st m s l" by (simp add: owed_link_def st')
      with o old(3) that show False by simp
    qed
  qed
  with False old(1,2) show ?thesis by (simp add: owed_def st')
qed

section \<open>Properties\<close>

text \<open>
  In a definition without a cycle every edge goes forward in the order the scheduler visits: a node
  comes after every source of its incoming edges.
\<close>

theorem order_respects_edges:
  assumes "distinct (node_ids d)" "acyclic (edge_rel d)" "l \<in> set (links d)"
  shows "position (orderNodes d) (l_from l) < position (orderNodes d) (l_to l)"
proof -
  have ids: "map nd_id (orderNodes d) = kahn_ids d" by (rule orderNodes_acyclic [OF assms(1,2)])
  have "l_to l \<in> set (kahn_ids d)" "l_from l \<in> set (kahn_ids d)"
    using kahn_takes_all [OF assms(1,2)] links_ids [OF assms(3)] by simp_all
  with position_less [OF orderNodes_ids(2) [OF assms(1)]] kahn_before [OF assms(1,3)] show ?thesis
    by (simp add: ids)
qed

lemma wf_line_links: "links wf_line = [\<lparr>l_from = ''a'', l_to = ''b'', l_rule = ''all_success'', l_cond = None\<rparr>]"
  by code_simp

lemma wf_line_ids: "distinct (node_ids wf_line)"
  by code_simp

lemma order_respects_edges_witness: "position (orderNodes wf_line) ''a'' < position (orderNodes wf_line) ''b''"
proof -
  have "acyclic (edge_rel wf_line)"
    unfolding edge_rel_def wf_line_links by (simp add: wf_acyclic)
  from order_respects_edges [OF wf_line_ids this, of "hd (links wf_line)"] show ?thesis
    by (simp add: wf_line_links)
qed

text \<open>
  C2: The scheduler answers the first node of the order that is owed an evaluation, and answers none
  exactly when nothing is owed: the test that its forward sources owe nothing never holds it back.
\<close>

theorem scheduler_picks_first_owed:
  assumes "distinct (node_ids d)"
  shows "nextNode d (orderNodes d) st = find (\<lambda>x. owed d (orderNodes d) st (nd_id x)) (orderNodes d)"
  by (rule nextNode_find [OF assms])

lemma scheduler_picks_first_owed_witness: "map_option nd_id (nextNode wf_line (orderNodes wf_line) folded0) = Some ''a''"
  unfolding scheduler_picks_first_owed [OF wf_line_ids] by code_simp

text \<open>
  A node fires exactly when its trigger rule holds of its incoming edges read as quantifiers: some
  or every source completed under its condition, every source settled, none or some failed.
\<close>

theorem fires_meets_its_rule: "fst (fires h d n st) \<longleftrightarrow> fires_spec h d n st"
  by (rule fires_meets_spec)

end
