(* ===== verification/Encoding.thy ===== *)
theory Encoding
  imports Codemap Json
begin

text \<open>
  The two encodings of the language's library the tokens, the canonical form and the stored
  columns rest on: \<open>base64url\<close> over bytes and \<open>JSON.parse\<close>. Strings are UTF-8 byte lists, so
  \<open>Buffer.from(s, 'utf8')\<close> is the identity; numbers with a fraction or an exponent are
  outside the value model and refused. Both are inverse to their printers.
\<close>

section \<open>base64url\<close>

definition b64_char :: "nat \<Rightarrow> char" where
  "b64_char n = (if n < 26 then char_of (65 + n) else if n < 52 then char_of (71 + n)
     else if n < 62 then char_of (n - 4) else if n = 62 then CHR ''-'' else CHR ''_'')"

definition b64_value :: "char \<Rightarrow> nat option" where
  "b64_value c = (let n = (of_char c :: nat) in
     if 65 \<le> n \<and> n \<le> 90 then Some (n - 65) else if 97 \<le> n \<and> n \<le> 122 then Some (n - 71)
     else if 48 \<le> n \<and> n \<le> 57 then Some (n + 4) else if n = 45 \<or> n = 43 then Some 62
     else if n = 95 \<or> n = 47 then Some 63 else None)"

fun sextets :: "nat list \<Rightarrow> nat list" where
  "sextets [] = []"
| "sextets [a] = [a div 4, (a mod 4) * 16]"
| "sextets [a, b] = [a div 4, (a mod 4) * 16 + b div 16, (b mod 16) * 4]"
| "sextets (a # b # c # r) =
     [a div 4, (a mod 4) * 16 + b div 16, (b mod 16) * 4 + c div 64, c mod 64] @ sextets r"

fun octets :: "nat list \<Rightarrow> nat list" where
  "octets [] = []"
| "octets [s] = []"
| "octets [s, t] = [s * 4 + t div 16]"
| "octets [s, t, u] = [s * 4 + t div 16, (t mod 16) * 16 + u div 4]"
| "octets (s # t # u # v # r) = [s * 4 + t div 16, (t mod 16) * 16 + u div 4, (u mod 4) * 64 + v] @ octets r"

definition base64url :: "string \<Rightarrow> string" where
  "base64url s = map b64_char (sextets (map of_char s))"

definition from_base64url :: "string \<Rightarrow> string" where
  "from_base64url s = map char_of (octets (List.map_filter b64_value (takeWhile (\<lambda>c. c \<noteq> CHR ''='') s)))"

lemma sextets_less: "\<forall>n \<in> set ns. n < 256 \<Longrightarrow> \<forall>k \<in> set (sextets ns). k < 64"
proof (induction ns rule: sextets.induct)
  case (3 a b)
  then have "a mod 4 \<le> 3" "b div 16 \<le> 15" "b mod 16 \<le> 15" by auto
  with 3 show ?case by (auto simp: less_mult_imp_div_less)
next
  case (4 a b c r)
  have "a mod 4 \<le> 3" "b div 16 \<le> 15" "b mod 16 \<le> 15" "c div 64 \<le> 3" using "4.prems" by auto
  with 4 show ?case by (auto simp: less_mult_imp_div_less)
qed auto

lemma octets_sextets: "\<forall>n \<in> set ns. n < 256 \<Longrightarrow> octets (sextets ns) = ns"
proof (induction ns rule: sextets.induct)
  case (3 a b)
  have "((a mod 4) * 16 + b div 16) div 16 = a mod 4" "((a mod 4) * 16 + b div 16) mod 16 = b div 16"
    using 3 by auto
  then show ?case by simp
next
  case (4 a b c r)
  have "((a mod 4) * 16 + b div 16) div 16 = a mod 4" "((a mod 4) * 16 + b div 16) mod 16 = b div 16"
    "((b mod 16) * 4 + c div 64) div 4 = b mod 16" "((b mod 16) * 4 + c div 64) mod 4 = c div 64"
    using 4 by auto
  with 4 show ?case by simp
qed auto

lemma b64_value_char: "n < 64 \<Longrightarrow> b64_value (b64_char n) = Some n"
  by (auto simp: b64_value_def b64_char_def Let_def)

lemma b64_char_not_pad: "n < 64 \<Longrightarrow> b64_char n \<noteq> CHR ''=''"
proof
  assume "n < 64" "b64_char n = CHR ''=''"
  with b64_value_char [OF this(1)] show False by (simp add: b64_value_def)
qed

lemma b64_char_not_dot: "n < 64 \<Longrightarrow> b64_char n \<noteq> CHR ''.''"
proof
  assume "n < 64" "b64_char n = CHR ''.''"
  with b64_value_char [OF this(1)] show False by (simp add: b64_value_def)
qed

lemma bytes_less: "\<forall>n \<in> set (map of_char s :: nat list). n < 256"
  by simp

lemma base64url_no_dot: "CHR ''.'' \<notin> set (base64url s)"
  using sextets_less [OF bytes_less [of s]] b64_char_not_dot by (fastforce simp: base64url_def)

lemma from_base64url_base64url [simp]: "from_base64url (base64url s) = s"
proof -
  let ?ks = "sextets (map of_char s)"
  note less = sextets_less [OF bytes_less [of s]]
  have pad: "takeWhile (\<lambda>c. c \<noteq> CHR ''='') (map b64_char ?ks) = map b64_char ?ks"
    using less b64_char_not_pad by (auto simp: takeWhile_eq_all_conv)
  have vals: "List.map_filter b64_value (map b64_char ks) = ks" if "\<forall>k \<in> set ks. k < 64" for ks
    using that by (induction ks) (auto simp: List.map_filter_simps b64_value_char)
  show ?thesis
    by (simp add: from_base64url_def base64url_def pad vals [OF less] octets_sextets [OF bytes_less]
        map_idI)
qed

text \<open>\<open>digest('hex')\<close>.\<close>

definition hex_of :: "string \<Rightarrow> string" where
  "hex_of s = concat (map (\<lambda>c. [hex_char (of_char c div 16), hex_char (of_char c mod 16)]) s)"

lemma hex_char_not_dot: "n < 16 \<Longrightarrow> hex_char n \<noteq> CHR ''.''"
proof
  assume "n < 16" "hex_char n = CHR ''.''"
  moreover have "(of_char (hex_char n) :: nat) = (if n < 10 then 48 + n else 87 + n)"
    using \<open>n < 16\<close> by (simp add: hex_char_def)
  ultimately show False by (simp split: if_splits)
qed

lemma hex_of_no_dot: "CHR ''.'' \<notin> set (hex_of s)"
proof -
  have "(of_char c :: nat) div 16 < 16" for c :: char
    using nat_of_char_less_256 [of c] by (simp add: less_mult_imp_div_less)
  then have "hex_char (of_char c div 16) \<noteq> CHR ''.''" "hex_char (of_char c mod 16) \<noteq> CHR ''.''" for c :: char
    by (simp_all add: hex_char_not_dot)
  then show ?thesis by (fastforce simp: hex_of_def)
qed

section \<open>JSON.parse\<close>

definition is_ws :: "char \<Rightarrow> bool" where
  "is_ws c \<longleftrightarrow> (of_char c :: nat) \<in> {32, 9, 10, 13}"

definition skip_ws :: "string \<Rightarrow> string" where
  "skip_ws s = dropWhile is_ws s"

definition hex_value :: "char \<Rightarrow> nat option" where
  "hex_value c = (let n = (of_char c :: nat) in
     if 48 \<le> n \<and> n \<le> 57 then Some (n - 48) else if 97 \<le> n \<and> n \<le> 102 then Some (n - 87)
     else if 65 \<le> n \<and> n \<le> 70 then Some (n - 55) else None)"

definition hex4 :: "char \<Rightarrow> char \<Rightarrow> char \<Rightarrow> char \<Rightarrow> nat option" where
  "hex4 a b c d = (case (hex_value a, hex_value b, hex_value c, hex_value d) of
     (Some w, Some x, Some y, Some z) \<Rightarrow> Some (((w * 16 + x) * 16 + y) * 16 + z) | _ \<Rightarrow> None)"

text \<open>The UTF-8 bytes of a code point below \<open>0x10000\<close>.\<close>

definition utf8 :: "nat \<Rightarrow> string" where
  "utf8 n = (if n < 128 then [char_of n]
     else if n < 2048 then [char_of (192 + n div 64), char_of (128 + n mod 64)]
     else [char_of (224 + n div 4096), char_of (128 + n div 64 mod 64), char_of (128 + n mod 64)])"

definition short_escape :: "char \<Rightarrow> char option" where
  "short_escape c = (let n = (of_char c :: nat) in
     if n = 34 \<or> n = 92 \<or> n = 47 then Some c else if n = 98 then Some (char_of (8::nat))
     else if n = 102 then Some (char_of (12::nat)) else if n = 110 then Some (char_of (10::nat))
     else if n = 114 then Some (char_of (13::nat)) else if n = 116 then Some (char_of (9::nat)) else None)"

text \<open>The body of a string literal after its opening quote: the text and what follows the closing one.\<close>

fun parse_str :: "string \<Rightarrow> (string \<times> string) option" where
  "parse_str [] = None"
| "parse_str (c # cs) =
     (if c = CHR 0x22 then Some ([], cs)
      else if c = CHR 0x5C then
        (case cs of [] \<Rightarrow> None
         | e # es \<Rightarrow>
            (if e = CHR ''u'' then
               (case es of a # b # x # d # r \<Rightarrow>
                  (case hex4 a b x d of None \<Rightarrow> None
                   | Some n \<Rightarrow> map_option (\<lambda>(t, r'). (utf8 n @ t, r')) (parse_str r))
                | _ \<Rightarrow> None)
             else (case short_escape e of None \<Rightarrow> None
                   | Some k \<Rightarrow> map_option (\<lambda>(t, r'). (k # t, r')) (parse_str es))))
      else if (of_char c :: nat) < 32 then None
      else map_option (\<lambda>(t, r'). (c # t, r')) (parse_str cs))"

definition parse_nat :: "string \<Rightarrow> (nat \<times> string) option" where
  "parse_nat s = (let ds = takeWhile is_digit s in
     if is_decimal ds then Some (decimal_value ds, dropWhile is_digit s) else None)"

definition parse_num :: "string \<Rightarrow> (int \<times> string) option" where
  "parse_num s = (case s of c # cs \<Rightarrow>
     if c = CHR ''-'' then map_option (\<lambda>(n, r). (- int n, r)) (parse_nat cs)
     else map_option (\<lambda>(n, r). (int n, r)) (parse_nat s) | [] \<Rightarrow> None)"

text \<open>An object's members as the engine keeps them: a repeated key takes its last value.\<close>

definition obj_of :: "(string \<times> json) list \<Rightarrow> (string \<times> json) list" where
  "obj_of ps = fold (\<lambda>(k, v) m. AList.update k v m) ps []"

fun parse_value :: "nat \<Rightarrow> string \<Rightarrow> (json \<times> string) option"
  and parse_elems :: "nat \<Rightarrow> string \<Rightarrow> (json list \<times> string) option"
  and parse_members :: "nat \<Rightarrow> string \<Rightarrow> ((string \<times> json) list \<times> string) option" where
  "parse_value 0 s = None"
| "parse_value (Suc n) s =
     (case skip_ws s of [] \<Rightarrow> None
      | c # cs \<Rightarrow>
         (if c = CHR 0x22 then map_option (\<lambda>(t, r). (JStr t, r)) (parse_str cs)
          else if c = CHR ''['' then
            (case skip_ws cs of d # r \<Rightarrow> if d = CHR '']'' then Some (JArr [], r)
                 else map_option (\<lambda>(xs, r). (JArr xs, r)) (parse_elems n cs)
             | [] \<Rightarrow> None)
          else if c = CHR ''{'' then
            (case skip_ws cs of d # r \<Rightarrow> if d = CHR ''}'' then Some (JObj [], r)
                 else map_option (\<lambda>(ps, r). (JObj (obj_of ps), r)) (parse_members n cs)
             | [] \<Rightarrow> None)
          else if take 4 (c # cs) = ''null'' then Some (JNull, drop 3 cs)
          else if take 4 (c # cs) = ''true'' then Some (JBool True, drop 3 cs)
          else if take 5 (c # cs) = ''false'' then Some (JBool False, drop 4 cs)
          else map_option (\<lambda>(k, r). (JNum k, r)) (parse_num (c # cs))))"
| "parse_elems 0 s = None"
| "parse_elems (Suc n) s =
     (case parse_value n s of None \<Rightarrow> None
      | Some (x, r) \<Rightarrow>
         (case skip_ws r of [] \<Rightarrow> None
          | c # cs \<Rightarrow> if c = CHR '']'' then Some ([x], cs)
              else if c = CHR '','' then map_option (\<lambda>(xs, r). (x # xs, r)) (parse_elems n cs)
              else None))"
| "parse_members 0 s = None"
| "parse_members (Suc n) s =
     (case skip_ws s of [] \<Rightarrow> None
      | q # s1 \<Rightarrow> if q \<noteq> CHR 0x22 then None else
         (case parse_str s1 of None \<Rightarrow> None
          | Some (k, r1) \<Rightarrow>
             (case skip_ws r1 of [] \<Rightarrow> None
              | c # s2 \<Rightarrow> if c \<noteq> CHR '':'' then None else
                 (case parse_value n s2 of None \<Rightarrow> None
                  | Some (v, r2) \<Rightarrow>
                     (case skip_ws r2 of [] \<Rightarrow> None
                      | e # s3 \<Rightarrow> if e = CHR ''}'' then Some ([(k, v)], s3)
                          else if e = CHR '','' then map_option (\<lambda>(ps, r). ((k, v) # ps, r)) (parse_members n s3)
                          else None)))))"

definition json_parse :: "string \<Rightarrow> json option" where
  "json_parse s = (case parse_value (2 * length s + 1) s of
     Some (j, r) \<Rightarrow> if skip_ws r = [] then Some j else None | None \<Rightarrow> None)"

section \<open>Parsing inverts printing\<close>

fun keys_distinct :: "json \<Rightarrow> bool"
  and keys_distinct_elems :: "json list \<Rightarrow> bool"
  and keys_distinct_members :: "(string \<times> json) list \<Rightarrow> bool" where
  "keys_distinct (JArr xs) = keys_distinct_elems xs"
| "keys_distinct (JObj ps) = (distinct (map fst ps) \<and> keys_distinct_members ps)"
| "keys_distinct _ = True"
| "keys_distinct_elems [] = True"
| "keys_distinct_elems (x # xs) = (keys_distinct x \<and> keys_distinct_elems xs)"
| "keys_distinct_members [] = True"
| "keys_distinct_members ((k, x) # ps) = (keys_distinct x \<and> keys_distinct_members ps)"

lemma hex_value_char: "n < 16 \<Longrightarrow> hex_value (hex_char n) = Some n"
  by (auto simp: hex_value_def hex_char_def Let_def)

lemma char_of_eqI: "(of_char c :: nat) = n \<Longrightarrow> char_of n = c"
  by auto

lemma parse_str_esc: "parse_str (esc_char c @ t) = map_option (\<lambda>(x, r). (c # x, r)) (parse_str t)"
proof -
  let ?n = "of_char c :: nat"
  consider (short) "?n \<in> {34, 92, 8, 9, 10, 12, 13}" | (ctrl) "?n < 32" "?n \<notin> {34, 92, 8, 9, 10, 12, 13}"
    | (plain) "32 \<le> ?n" "?n \<noteq> 34" "?n \<noteq> 92"
    by fastforce
  then show ?thesis
  proof cases
    case short
    have "char_of (34 :: nat) = CHR 0x22" "char_of (92 :: nat) = CHR 0x5C" by code_simp+
    with char_of_eqI [of c 34] char_of_eqI [of c 92] have "?n = 34 \<Longrightarrow> c = CHR 0x22" "?n = 92 \<Longrightarrow> c = CHR 0x5C" by simp_all
    with short show ?thesis
      by (auto simp: esc_char_def short_escape_def dest: char_of_eqI)
  next
    case ctrl
    have h: "hex4 (CHR ''0'') (CHR ''0'') (hex_char (?n div 16)) (hex_char (?n mod 16)) = Some ?n"
      using ctrl(1) by (simp add: hex4_def hex_value_char) (simp add: hex_value_def)
    from ctrl have "esc_char c = [CHR 0x5C, CHR ''u'', CHR ''0'', CHR ''0'', hex_char (?n div 16), hex_char (?n mod 16)]"
      by (simp add: esc_char_def Let_def)
    moreover have "utf8 ?n = [c]" using ctrl(1) by (simp add: utf8_def)
    ultimately show ?thesis by (simp add: h)
  next
    case plain
    then have "c \<noteq> CHR 0x22" "c \<noteq> CHR 0x5C" by auto
    with plain show ?thesis by (simp add: esc_char_def Let_def)
  qed
qed

lemma parse_str_body: "parse_str (concat (map esc_char s) @ CHR 0x22 # r) = Some (s, r)"
  by (induction s) (simp_all add: parse_str_esc)

lemma nat_string_Cons: "n \<ge> 10 \<Longrightarrow> nat_string n = nat_string (n div 10) @ [digit_char (n mod 10)]"
  by (subst nat_string.simps) simp

lemma decimal_value_snoc: "decimal_value (s @ [c]) = 10 * decimal_value s + (of_char c - 48)"
  by (simp add: decimal_value_def)

lemma decimal_value_nat_string [simp]: "decimal_value (nat_string n) = n"
proof (induction n rule: nat_string.induct)
  case (1 n)
  show ?case
  proof (cases "n < 10")
    case True
    then show ?thesis by (simp add: nat_string.simps [of n] decimal_value_def digit_char_def)
  next
    case False
    with 1 show ?thesis by (simp add: nat_string_Cons decimal_value_snoc digit_char_def)
  qed
qed

lemma nat_string_head: "n > 0 \<Longrightarrow> hd (nat_string n) \<noteq> CHR ''0''"
proof (induction n rule: nat_string.induct)
  case (1 n)
  show ?case
  proof (cases "n < 10")
    case True
    with "1.prems" have "(of_char (char_of (48 + n)) :: nat) \<noteq> of_char (CHR ''0'')" by simp
    then have "char_of (48 + n) \<noteq> CHR ''0''" by metis
    with True show ?thesis by (simp add: nat_string.simps [of n] digit_char_def)
  next
    case False
    with 1 show ?thesis by (simp add: nat_string_Cons)
  qed
qed

lemma is_decimal_nat_string [simp]: "is_decimal (nat_string n)"
proof -
  have "nat_string 0 = ''0''" by code_simp
  then have "hd (nat_string n) = CHR ''0'' \<longrightarrow> tl (nat_string n) = []"
    using nat_string_head [of n] by (cases "n = 0") auto
  moreover have "list_all is_digit (nat_string n)" by (auto simp: list_all_iff dest: nat_string_digits)
  ultimately show ?thesis by (simp add: is_decimal_def)
qed

lemma parse_nat_print: "no_digit_start r \<Longrightarrow> parse_nat (nat_string n @ r) = Some (n, r)"
proof -
  assume r: "no_digit_start r"
  have t: "takeWhile is_digit (nat_string n @ r) = nat_string n" "dropWhile is_digit (nat_string n @ r) = r"
    using r by (auto simp: takeWhile_append dropWhile_append no_digit_start_def takeWhile_eq_Nil_iff
        dest: nat_string_digits split: list.splits)
  show ?thesis by (simp add: parse_nat_def t)
qed

lemma parse_num_print: "no_digit_start r \<Longrightarrow> parse_num (int_string k @ r) = Some (k, r)"
proof -
  assume r: "no_digit_start r"
  have pos: "parse_num (nat_string n @ r) = Some (int n, r)" for n
  proof -
    obtain c cs where c: "nat_string n @ r = c # cs" by (cases "nat_string n @ r") auto
    with nat_string_no_dash [of n r cs] have "c \<noteq> CHR ''-''" by auto
    with c parse_nat_print [OF r, of n] show ?thesis by (simp add: parse_num_def)
  qed
  show ?thesis
  proof (cases "k < 0")
    case True
    with parse_nat_print [OF r, of "nat (- k)"] show ?thesis by (simp add: int_string_def parse_num_def)
  next
    case False
    with pos [of "nat k"] show ?thesis by (simp add: int_string_def)
  qed
qed

lemma obj_of_distinct: "distinct (map fst ps) \<Longrightarrow> obj_of ps = ps"
proof -
  have new: "AList.update k v m = m @ [(k, v)]" if "k \<notin> fst ` set m" for k v and m :: "(string \<times> json) list"
    using that by (induction m) auto
  have "distinct (map fst (m @ ps)) \<Longrightarrow> fold (\<lambda>(k, v) m. AList.update k v m) ps m = m @ ps" for m
    by (induction ps arbitrary: m) (auto simp: new)
  from this [of "[]"] show "distinct (map fst ps) \<Longrightarrow> obj_of ps = ps" by (simp add: obj_of_def)
qed

lemma skip_ws_stop: "\<not> is_ws c \<Longrightarrow> skip_ws (c # s) = c # s"
  by (simp add: skip_ws_def)

lemma tag_not_ws: "char_tag c = json_tag x \<Longrightarrow> \<not> is_ws c"
  by (cases x) (auto simp: char_tag_def is_ws_def is_digit_def split: if_splits)

lemma elems_head:
  assumes "xs \<noteq> []"
  shows "\<exists>c w. stringify_elems xs = c # w \<and> \<not> is_ws c \<and> c \<noteq> CHR '']''"
proof -
  from assms obtain x ys where xs: "xs = x # ys" by (cases xs) auto
  obtain c w where c: "json_stringify x = c # w" "char_tag c = json_tag x" using json_head by blast
  have "json_tag x < 6" by (cases x) auto
  moreover have "char_tag (CHR '']'') = 6" by (simp add: char_tag_def is_digit_def)
  ultimately have "c \<noteq> CHR '']''" using c(2) by auto
  with xs c tag_not_ws [OF c(2)] show ?thesis by (cases ys) auto
qed

lemma members_head:
  assumes "ps \<noteq> []"
  shows "\<exists>w. stringify_members ps = CHR 0x22 # w"
  using assms by (cases ps rule: members_cases) (auto simp: quote_string_def)

lemma quote_parse: "parse_str (tl (quote_string s) @ r) = Some (s, r)"
  using parse_str_body [of s r] by (simp add: quote_string_def)

lemma not_ws_punct [simp]:
  "\<not> is_ws (CHR 0x22)" "\<not> is_ws (CHR '','')" "\<not> is_ws (CHR '':'')" "\<not> is_ws (CHR '']'')" "\<not> is_ws (CHR ''}'')"
  "\<not> is_ws (CHR ''['')" "\<not> is_ws (CHR ''{'')" "\<not> is_ws (CHR ''n'')" "\<not> is_ws (CHR ''t'')" "\<not> is_ws (CHR ''f'')"
  by (simp_all add: is_ws_def)

lemma parse_value_num:
  assumes "no_digit_start r"
  shows "parse_value (Suc n) (int_string k @ r) = Some (JNum k, r)"
proof -
  obtain c w where c: "int_string k = c # w" "char_tag c = 2" using json_head [of "JNum k"] by auto
  from c(2) have ne: "c \<noteq> CHR 0x22" "c \<noteq> CHR ''[''" "c \<noteq> CHR ''{''" "c \<noteq> CHR ''n''" "c \<noteq> CHR ''t''" "c \<noteq> CHR ''f''"
    by (auto simp: char_tag_def is_digit_def split: if_splits)
  have ws: "\<not> is_ws c" using tag_not_ws [of c "JNum k"] c(2) by simp
  from parse_num_print [OF assms, of k] c(1) have "parse_num (c # w @ r) = Some (k, r)" by simp
  with ne ws c(1) show ?thesis by (simp add: skip_ws_stop)
qed

lemma parse_print:
  "no_digit_start r \<Longrightarrow> keys_distinct x \<Longrightarrow> 2 * length (json_stringify x) \<le> n \<Longrightarrow>
     parse_value n (json_stringify x @ r) = Some (x, r)"
  "xs \<noteq> [] \<Longrightarrow> keys_distinct_elems xs \<Longrightarrow> 2 * length (stringify_elems xs) + 1 \<le> n \<Longrightarrow>
     parse_elems n (stringify_elems xs @ r) = Some (xs, r)"
  "ps \<noteq> [] \<Longrightarrow> keys_distinct_members ps \<Longrightarrow> 2 * length (stringify_members ps) + 1 \<le> n \<Longrightarrow>
     parse_members n (stringify_members ps @ r) = Some (ps, r)"
proof (induction x and xs and ps arbitrary: n r and n r and n r
    rule: json_stringify_stringify_elems_stringify_members.induct)
  case 1
  then obtain m where "n = Suc m" by (cases n) auto
  then show ?case by (simp add: skip_ws_stop)
next
  case (2 b)
  then obtain m where "n = Suc m" by (cases n) (auto split: if_splits)
  then show ?case by (simp add: skip_ws_stop)
next
  case (3 k)
  have "json_stringify (JNum k) \<noteq> []" using json_head [of "JNum k"] by auto
  with 3 obtain m where "n = Suc m" by (cases n) auto
  with parse_value_num [OF "3.prems"(1)] show ?case by simp
next
  case (4 s)
  then obtain m where "n = Suc m" by (cases n) (auto simp: quote_string_def)
  with parse_str_body [of s r] show ?case by (simp add: quote_string_def skip_ws_stop)
next
  case (5 xs)
  then obtain m where n: "n = Suc m" by (cases n) auto
  show ?case
  proof (cases "xs = []")
    case True
    with n show ?thesis by (simp add: skip_ws_stop)
  next
    case False
    from elems_head [OF False] obtain c w where c: "stringify_elems xs = c # w" "\<not> is_ws c" "c \<noteq> CHR '']''" by blast
    have "parse_elems m (stringify_elems xs @ r) = Some (xs, r)"
      using 5 n by (intro "5.IH" [OF False]) auto
    with n c show ?thesis by (simp add: skip_ws_stop)
  qed
next
  case (6 ps)
  then obtain m where n: "n = Suc m" by (cases n) auto
  show ?case
  proof (cases "ps = []")
    case True
    with n show ?thesis by (simp add: skip_ws_stop)
  next
    case False
    from members_head [OF False] obtain w where w: "stringify_members ps = CHR 0x22 # w" by blast
    have "parse_members m (stringify_members ps @ r) = Some (ps, r)"
      using 6 n by (intro "6.IH" [OF False]) auto
    with n w "6.prems" show ?thesis by (simp add: skip_ws_stop obj_of_distinct)
  qed
next
  case 7
  then show ?case by simp
next
  case (8 x)
  then obtain m where n: "n = Suc m" by (cases n) auto
  from "8.IH" [of "CHR '']'' # r" m] "8.prems" n show ?case by (simp add: skip_ws_stop)
next
  case (9 x y xs)
  then obtain m where n: "n = Suc m" by (cases n) auto
  from "9.IH"(1) [of "CHR '','' # stringify_elems (y # xs) @ r" m] "9.IH"(2) [of m r] "9.prems" n
  show ?case by (simp add: skip_ws_stop)
next
  case 10
  then show ?case by simp
next
  case (11 k x)
  then obtain m where n: "n = Suc m" by (cases n) auto
  from "11.IH" [of "CHR ''}'' # r" m] "11.prems" n
    parse_str_body [of k "CHR '':'' # json_stringify x @ CHR ''}'' # r"]
  show ?case by (simp add: skip_ws_stop quote_string_def)
next
  case (12 k x p ps)
  then obtain m where n: "n = Suc m" by (cases n) auto
  from "12.IH"(1) [of "CHR '','' # stringify_members (p # ps) @ r" m] "12.IH"(2) [of m r] "12.prems" n
    parse_str_body [of k "CHR '':'' # json_stringify x @ CHR '','' # stringify_members (p # ps) @ r"]
  show ?case by (simp add: skip_ws_stop quote_string_def)
qed

lemma json_parse_stringify:
  assumes "keys_distinct x"
  shows "json_parse (json_stringify x) = Some x"
proof -
  have "parse_value (2 * length (json_stringify x) + 1) (json_stringify x @ []) = Some (x, [])"
    by (rule parse_print(1)) (simp_all add: assms)
  then show ?thesis by (simp add: json_parse_def skip_ws_def)
qed

end
