(* ===== verification/Interrupts.thy ===== *)
theory Interrupts
  imports Graph Encoding
begin

text \<open>
  \<open>interrupts.ts\<close>: the interrupt tokens, minting, the resolve contract both surfaces share
  and the approval quorum, with the roster of \<open>council.ts\<close> and the credential re-check of
  \<open>oauth.ts\<close> it consults.
\<close>

section \<open>Tokens\<close>

record token_claims =
  tk_i :: string
  tk_r :: string
  tk_n :: string
  tk_e :: string
  tk_t :: string

definition claims_json :: "token_claims \<Rightarrow> json" where
  "claims_json c = JObj [(''i'', JStr (tk_i c)), (''r'', JStr (tk_r c)), (''n'', JStr (tk_n c)),
     (''e'', JStr (tk_e c)), (''t'', JStr (tk_t c))]"

definition dotted :: "string list \<Rightarrow> string" where
  "dotted = join_with (CHR ''.'')"

definition mac :: "host \<Rightarrow> string \<Rightarrow> string \<Rightarrow> string" where
  "mac h secret material = hex_of (h_hmac h secret material)"

definition mintToken :: "host \<Rightarrow> token_claims \<Rightarrow> string" where
  "mintToken h c =
     (let kid = h_kid h; payload = base64url (json_stringify (claims_json c))
      in dotted [''ow2'', ''hs256'', kid, payload, mac h (h_secret h) (dotted [''hs256'', kid, payload])])"

text \<open>The three refusals before the claims are read, then the kid, payload, MAC and MACed text.\<close>

definition token_parts :: "host \<Rightarrow> string \<Rightarrow> exn + (string \<times> string \<times> string \<times> string)" where
  "token_parts h token =
     (let bad = (\<lambda>m. Inl (HostError ''interrupt_token_invalid'' m None)) in
      case split_on (CHR ''.'') token of
        [v, alg, kid, payload, given] \<Rightarrow>
          if v \<noteq> ''ow2'' then bad ''the token is outside the ow2.<alg>.<kid>.<payload>.<mac> grammar''
          else if alg \<noteq> ''hs256'' then bad (''alg '' @ alg @ '' is not advertised in interrupt.tokenAlgs'')
          else if kid \<noteq> h_kid h \<and> kid \<noteq> ''legacy'' then bad (''kid '' @ kid @ '' is not held by this host'')
          else Inr (kid, payload, given, dotted [''hs256'', kid, payload])
      | [payload, given] \<Rightarrow> Inr (''legacy'', payload, given, payload)
      | _ \<Rightarrow> bad ''the token is outside the ow2.<alg>.<kid>.<payload>.<mac> grammar'')"

definition verifyToken :: "host \<Rightarrow> nat \<Rightarrow> string \<Rightarrow> exn + json" where
  "verifyToken h now token =
     (let bad = (\<lambda>m. Inl (HostError ''interrupt_token_invalid'' m None)) in
      case token_parts h token of Inl e \<Rightarrow> Inl e
      | Inr (kid, payload, given, material) \<Rightarrow>
         (let secret = (if kid = ''legacy'' then h_legacy_secret h else h_secret h)
          in if given \<noteq> mac h secret material then bad ''the token MAC does not verify'' else
             case json_parse (from_base64url payload) of None \<Rightarrow> bad ''the token payload is not readable''
             | Some claims \<Rightarrow>
                if claims = JNull then Inl (JsError ''TypeError'')
                else if \<not> is_str (jfield claims ''i'') \<or> \<not> is_str (jfield claims ''r'')
                then bad ''the token payload names no interrupt''
                else (case jfield claims ''e'' of
                   Some (JStr e) \<Rightarrow>
                     (case h_date h e of
                        Some t \<Rightarrow> if t < now then Inl (HostError ''interrupt_expired'' ''the token is past its expiresAt'' None)
                                  else Inr claims
                      | None \<Rightarrow> Inr claims)
                 | _ \<Rightarrow> Inr claims)))"

section \<open>Payloads\<close>

record interrupt_payload =
  ip_kind :: string
  ip_key :: string
  ip_data :: json
  ip_timeout :: "int option"
  ip_schema :: "json option"

definition payload_json :: "interrupt_payload \<Rightarrow> json" where
  "payload_json p = jobj [(''kind'', Some (JStr (ip_kind p))), (''key'', Some (JStr (ip_key p))),
     (''data'', Some (ip_data p)), (''timeoutMs'', map_option JNum (ip_timeout p)),
     (''resumeSchema'', ip_schema p)]"

definition payloadOf :: "interrupt_row \<Rightarrow> interrupt_payload" where
  "payloadOf i = (let j = i_payload i in
     \<lparr>ip_kind = text_of (jfield j ''kind''), ip_key = text_of (jfield j ''key''),
      ip_data = (case jfield j ''data'' of None \<Rightarrow> JObj [] | Some JNull \<Rightarrow> JObj [] | Some d \<Rightarrow> d),
      ip_timeout = num_of (jfield j ''timeoutMs''), ip_schema = jfield j ''resumeSchema''\<rparr>)"

section \<open>Minting\<close>

definition MAX_TTL :: nat where "MAX_TTL = 30 * 60000"

definition opaque :: "host \<Rightarrow> world \<Rightarrow> string \<times> world" where
  "opaque h w = (h_opaque h (w_rng w), w\<lparr>w_rng := Suc (w_rng w)\<rparr>)"

definition tenantBound :: "host \<Rightarrow> string \<Rightarrow> world \<Rightarrow> string \<times> world" where
  "tenantBound h t w = (let (o1, w1) = opaque h w in (t @ ''/'' @ o1, w1))"

definition mint_claims :: "host \<Rightarrow> run_row \<Rightarrow> string \<Rightarrow> interrupt_row \<Rightarrow> token_claims" where
  "mint_claims h r nid i = \<lparr>tk_i = i_id i, tk_r = run_id r, tk_n = nid, tk_e = h_iso h (i_expires i), tk_t = ''resolve''\<rparr>"

definition ttl_of :: "interrupt_payload \<Rightarrow> int" where
  "ttl_of p = (case ip_timeout p of None \<Rightarrow> int MAX_TTL | Some t \<Rightarrow> min t (int MAX_TTL))"

definition mintInterrupt :: "host \<Rightarrow> run_row \<Rightarrow> string \<Rightarrow> interrupt_payload \<Rightarrow> world
    \<Rightarrow> (exn + interrupt_row \<times> string) \<times> world" where
  "mintInterrupt h r nid p w =
     (case interruptByKey (run_id r) (ip_key p) w of
        Some i \<Rightarrow> (Inr (i, mintToken h (mint_claims h r nid i)), w)
      | None \<Rightarrow>
         (let (iid, w1) = tenantBound h (r_tenant r) w;
              i = \<lparr>i_id = iid, i_run = run_id r, i_node = nid, i_key = ip_key p, i_kind = ip_kind p,
                   i_payload = payload_json p, i_expires = nat (int (w_clock w) + ttl_of p),
                   i_resolved = None, i_resume = None, i_created = w_clock w, i_votes = None\<rparr>
          in case insertInterrupt i w1 of
               None \<Rightarrow> (Inl (JsError ''UNIQUE constraint failed: interrupts''), w1)
             | Some w2 \<Rightarrow> (Inr (i, mintToken h (mint_claims h r nid i)), w2)))"

section \<open>Subjects, rosters and credentials\<close>

definition principalRef :: "subject \<Rightarrow> string" where
  "principalRef s = sub_issuer s @ ''#'' @ sub_id s"

definition listed :: "json list \<Rightarrow> subject \<Rightarrow> bool" where
  "listed xs s = (\<exists>e \<in> set xs. js_string e \<in> {sub_id s, principalRef s, sub_issuer s @ '':'' @ sub_id s})"

definition subjectKey :: "string \<Rightarrow> string \<Rightarrow> string \<Rightarrow> string" where
  "subjectKey tenant issuer sid = tenant @ ''|'' @ issuer @ ''#'' @ sid"

definition credentialOf :: "string \<Rightarrow> string \<Rightarrow> world \<Rightarrow> credential_row option" where
  "credentialOf key p w = find (\<lambda>c. k_subject c = key \<and> k_provider c = p) (w_creds w)"

definition covers :: "credential_row \<Rightarrow> string list \<Rightarrow> bool" where
  "covers c scopes \<longleftrightarrow> (\<forall>s \<in> set scopes. s \<in> set (k_scopes c))"

definition credentialResolves :: "string \<Rightarrow> string \<Rightarrow> string list \<Rightarrow> world \<Rightarrow> bool" where
  "credentialResolves key p scopes w =
     (case credentialOf key p w of None \<Rightarrow> False | Some c \<Rightarrow> covers c scopes \<and> k_expires c > w_clock w)"

definition rosterOf :: "wf_node \<Rightarrow> string list" where
  "rosterOf n = (case map_of (nd_config n) ''participants'' of
     Some (JArr xs) \<Rightarrow> List.map_filter (\<lambda>x.
       (case (if is_object (Some x) then jfield x ''agentId'' else Some x) of
          Some (JStr s) \<Rightarrow> if s = [] then None else Some s | _ \<Rightarrow> None)) xs
   | _ \<Rightarrow> [])"

definition isCouncilGate :: "wf_node \<Rightarrow> bool" where
  "isCouncilGate n \<longleftrightarrow> nd_type n = ''core.conversationGate''
     \<and> map_of (nd_config n) ''mockAutoResume'' = Some (JBool False) \<and> rosterOf n \<noteq> []"

definition councilSupported :: "host \<Rightarrow> bool" where
  "councilSupported h \<longleftrightarrow> ''conversation_speaker_not_participant'' \<in> set (a_error_codes (h_art h))
     \<and> ''conversation_roster_exceeded'' \<in> set (a_error_codes (h_art h))
     \<and> (\<exists>p \<in> set (h_workflows h). \<exists>n \<in> set (wf_nodes (snd p)). isCouncilGate n)"

definition MAX_PARTICIPANTS :: nat where "MAX_PARTICIPANTS = 8"

definition oversizedRoster :: "wf_def \<Rightarrow> (string \<times> nat) option" where
  "oversizedRoster d = map_option (\<lambda>n. (nd_id n, length (rosterOf n)))
     (find (\<lambda>n. nd_type n = ''core.conversationGate'' \<and> length (rosterOf n) > MAX_PARTICIPANTS) (wf_nodes d))"

text \<open>\<open>runId.split('/')[1] ?? runId\<close>.\<close>

definition after_slash :: "string \<Rightarrow> string option" where
  "after_slash s = (case split_on (CHR ''/'') s of _ # x # _ \<Rightarrow> Some x | _ \<Rightarrow> None)"

definition conversationIdFor :: "run_row \<Rightarrow> string \<Rightarrow> string" where
  "conversationIdFor r nid = (case after_slash (run_id r) of Some x \<Rightarrow> x | None \<Rightarrow> run_id r) @ '':'' @ nid"

section \<open>The resolve contract\<close>

text \<open>The payload's decision (\<open>None\<close>: the kind has none) and whether the interrupt is left.\<close>

definition invalid :: "string \<Rightarrow> (string \<times> json) list \<Rightarrow> exn + 'a" where
  "invalid m ds = Inl (HostError ''validation_error'' m (if ds = [] then None else Some (JObj ds)))"

text \<open>\<open>xs.join(' | ')\<close>.\<close>

definition bar_join :: "string list \<Rightarrow> string" where
  "bar_join xs = concat (case xs of [] \<Rightarrow> [] | x # r \<Rightarrow> x # map (\<lambda>y. '' | '' @ y) r)"

definition validate_approval :: "json \<Rightarrow> json option \<Rightarrow> subject option \<Rightarrow> exn + (string option \<times> bool)" where
  "validate_approval data rv sb =
     (let action = (if is_object rv then (case nullish (jget rv ''action'') (Some (JStr [])) of
                      Some j \<Rightarrow> js_string j | None \<Rightarrow> []) else []);
          actions = (case jfield data ''actions'' of Some (JArr xs) \<Rightarrow> map js_string xs | _ \<Rightarrow> [''accept'', ''reject'']);
          approvers = (case jfield data ''approversList'' of Some (JArr xs) \<Rightarrow> xs | _ \<Rightarrow> [])
      in if action = ''timeout'' then invalid (''resumeValue.action timeout is record-only: only the host's timer resolves a gate with it (interrupt.md '' @ SECTION_SIGN @ ''Rejection)'')
             [(''field'', JStr ''resumeValue.action'')]
         else if action \<notin> set actions then invalid (''resumeValue.action MUST be one of '' @ bar_join actions) [(''actions'', JArr (map JStr actions))]
         else if approvers \<noteq> [] \<and> (case sb of None \<Rightarrow> False | Some s \<Rightarrow> \<not> listed approvers s)
         then Inl (HostError ''forbidden'' (''the resolver is not in approversList (interrupt.md '' @ SECTION_SIGN @ ''Approver enforcement)'') None)
         else if action = ''refine'' \<and> jget rv ''refineFeedback'' = None then invalid ''refine requires refineFeedback'' []
         else if action = ''edit-accept'' \<and> jget rv ''editedArtifactData'' = None
         then invalid ''edit-accept requires editedArtifactData'' []
         else Inr (Some (if action = ''reject'' then ''rejected'' else ''granted''), action \<noteq> ''ask''))"

text \<open>The subject of an owner block, as \<open>subjectKey(ownerOf(host, run).subject)\<close> reads it.\<close>

definition owner_key :: "json \<Rightarrow> string" where
  "owner_key ow = (let s = jfield ow ''subject'' in
     subjectKey (text_of (jget s ''tenant'')) (text_of (jget s ''issuer'')) (text_of (jget s ''subjectId'')))"

definition credential_shape :: "exn + 'a" where
  "credential_shape = invalid ''resumeValue fails resumeSchema: a credential interrupt resolves with exactly { outcome: authorized | declined }''
     [(''field'', JStr ''resumeValue'')]"

definition validate_credential :: "run_row \<Rightarrow> json \<Rightarrow> json option \<Rightarrow> world \<Rightarrow> (exn + (string option \<times> bool)) \<times> world" where
  "validate_credential r data rv w =
     (case rv of
        Some (JObj ps) \<Rightarrow>
          (let outcome = map_of ps ''outcome'' in
           if (\<exists>k \<in> set (map fst ps). k \<noteq> ''outcome'') \<or>
              (outcome \<noteq> Some (JStr ''authorized'') \<and> outcome \<noteq> Some (JStr ''declined''))
           then (credential_shape, w)
           else if outcome = Some (JStr ''authorized'') then
             (let scopes = (case jfield data ''scopes'' of Some (JArr xs) \<Rightarrow> map js_string xs | _ \<Rightarrow> []);
                  prov = js_String (nullish (jfield data ''provider'') (Some (JStr [])));
                  (ow, w1) = ownerOf r w
              in if credentialResolves (owner_key ow) prov scopes w1 then (Inr (None, True), w1)
                 else (invalid ''outcome authorized is refused: no credential for the run's Subject, provider and scopes resolves (the host re-checks; it does not trust the caller)''
                   [(''field'', JStr ''resumeValue'')], w1))
           else (Inr (None, True), w))
      | _ \<Rightarrow> (credential_shape, w))"

definition validate_schema :: "json \<Rightarrow> json option \<Rightarrow> exn + unit" where
  "validate_schema sch rv =
     (let type = jfield sch ''type'';
          required = (case jfield sch ''required'' of Some (JArr xs) \<Rightarrow> map js_string xs | _ \<Rightarrow> [])
      in if type = Some (JStr ''object'') \<and> (case rv of Some (JObj _) \<Rightarrow> False | _ \<Rightarrow> True)
         then invalid ''resumeValue fails resumeSchema (object expected)'' []
         else if required \<noteq> [] \<and> (rv = None \<or> rv = Some JNull) then Inl (JsError ''TypeError'')
         else case find (\<lambda>k. jget rv k = None) required of
           Some k \<Rightarrow> invalid (''resumeValue fails resumeSchema (missing '' @ k @ '')'') [(''missing'', JStr k)]
         | None \<Rightarrow>
         if type = Some (JStr ''string'') \<and> \<not> is_str rv then invalid ''resumeValue fails resumeSchema (string expected)'' []
         else Inr ())"

definition validate_turn :: "host \<Rightarrow> run_row \<Rightarrow> string \<Rightarrow> json option \<Rightarrow> exn + unit" where
  "validate_turn h r nid rv =
     (if rv = None \<or> rv = Some JNull then Inl (JsError ''TypeError'') else
      case (jget rv ''speakerId'', jget rv ''content'') of
        (Some (JStr sp), Some (JStr _)) \<Rightarrow>
          (let roster = (case workflow_of h (r_workflow r) of None \<Rightarrow> []
                 | Some d \<Rightarrow> (case find (\<lambda>n. nd_id n = nid) (wf_nodes d) of None \<Rightarrow> [] | Some n \<Rightarrow> rosterOf n))
           in if roster \<noteq> [] \<and> sp \<notin> set roster
              then Inl (HostError ''conversation_speaker_not_participant'' (sp @ '' is not on this conversation's roster'')
                     (Some (JObj [(''speakerId'', JStr sp)])))
              else Inr ())
      | _ \<Rightarrow> invalid ''a conversation turn resolves with { role, speakerId, content } strings'' [(''field'', JStr ''resumeValue'')])"

fun answer_ids :: "json list \<Rightarrow> exn + string list" where
  "answer_ids [] = Inr []"
| "answer_ids (a # as) =
     (case jfield a ''id'' of
        Some (JStr k) \<Rightarrow> if jfield a ''answer'' = None then invalid ''each answers[] entry is { id, answer }'' [(''field'', JStr ''resumeValue.answers'')]
            else (case answer_ids as of Inl e \<Rightarrow> Inl e | Inr ks \<Rightarrow> Inr (k # ks))
      | _ \<Rightarrow> invalid ''each answers[] entry is { id, answer }'' [(''field'', JStr ''resumeValue.answers'')])"

definition validate_clarification :: "json \<Rightarrow> json option \<Rightarrow> exn + unit" where
  "validate_clarification data rv =
     (let questions = (case jfield data ''questions'' of Some (JArr xs) \<Rightarrow> xs | _ \<Rightarrow> [])
      in if \<not> is_object rv then invalid ''a clarification resumeValue is { answers: [{ id, answer }] } or an object keyed by question id'' []
         else case (case jget rv ''answers'' of
                 Some (JArr xs) \<Rightarrow> answer_ids xs
               | _ \<Rightarrow> (case rv of Some (JObj ps) \<Rightarrow> Inr (map fst ps)
                        | Some (JArr xs) \<Rightarrow> Inr (map nat_string [0..<length xs]) | _ \<Rightarrow> Inr [])) of
              Inl e \<Rightarrow> Inl e
            | Inr answered \<Rightarrow>
               (case find (\<lambda>q. q = JNull \<or> (case jfield q ''id'' of None \<Rightarrow> False
                       | Some (JStr k) \<Rightarrow> k \<notin> set answered | Some _ \<Rightarrow> True)) questions of
                  Some q \<Rightarrow> if q = JNull then Inl (JsError ''TypeError'')
                    else invalid (''answer '' @ js_String (jfield q ''id'') @ '' is missing'') [(''questionId'', or_null (jfield q ''id''))]
                | None \<Rightarrow> Inr ()))"

definition validateResolve :: "host \<Rightarrow> run_row \<Rightarrow> interrupt_row \<Rightarrow> json option \<Rightarrow> subject option \<Rightarrow> world
    \<Rightarrow> (exn + (string option \<times> bool)) \<times> world" where
  "validateResolve h r i rv sb w =
     (if terminal_status (r_status r)
      then (Inl (HostError ''interrupt_already_resolved'' (''the run is '' @ status_name (r_status r) @ ''; its interrupts are invalidated'') None), w)
      else if i_resolved i \<noteq> None
      then (Inl (HostError ''interrupt_already_resolved'' ''the interrupt was already resolved'' None), w)
      else let p = payloadOf i; data = ip_data p in
        if ip_kind p = ''approval'' then (validate_approval data rv sb, w)
        else if ip_kind p = ''credential'' then validate_credential r data rv w
        else
          (case (case ip_schema p of None \<Rightarrow> Inr () | Some sch \<Rightarrow> validate_schema sch rv) of
             Inl e \<Rightarrow> (Inl e, w)
           | Inr _ \<Rightarrow>
              (case (if ip_kind p = ''conversation.exchange'' then validate_turn h r (i_node i) rv
                     else if ip_kind p = ''clarification'' then validate_clarification data rv else Inr ()) of
                 Inl e \<Rightarrow> (Inl e, w) | Inr _ \<Rightarrow> (Inr (None, True), w))))"

section \<open>The quorum\<close>

definition required_of :: "json \<Rightarrow> nat" where
  "required_of data = (case jfield data ''requiredApprovals'' of Some (JNum n) \<Rightarrow> if n > 1 then nat n else 1 | _ \<Rightarrow> 1)"

definition voter_of :: "host \<Rightarrow> json option \<Rightarrow> subject option \<Rightarrow> string" where
  "voter_of h rv sb =
     (case jget rv ''voter'' of
        Some (JStr v) \<Rightarrow> if h_seams h \<and> v \<noteq> [] then v
          else (case sb of Some s \<Rightarrow> principalRef s | None \<Rightarrow> ''token-holder'')
      | _ \<Rightarrow> (case sb of Some s \<Rightarrow> principalRef s | None \<Rightarrow> ''token-holder''))"

definition votes_for :: "string \<Rightarrow> (string \<times> string) list \<Rightarrow> nat" where
  "votes_for d votes = length (filter (\<lambda>v. snd v = d) votes)"

definition vetoes :: "json \<Rightarrow> (string \<times> string) list \<Rightarrow> bool" where
  "vetoes data votes = (if jfield data ''rejectionPolicy'' = Some (JStr ''majority'')
     then 2 * votes_for ''rejected'' votes > required_of data else votes_for ''rejected'' votes \<ge> 1)"

text \<open>\<open>Inr None\<close>: the vote decides nothing and is recorded on the interrupt.\<close>

definition tallyVote :: "host \<Rightarrow> interrupt_row \<Rightarrow> json option \<Rightarrow> subject option \<Rightarrow> string \<Rightarrow> world
    \<Rightarrow> (exn + (string \<times> string option) option) \<times> world" where
  "tallyVote h i rv sb decision w =
     (let data = ip_data (payloadOf i); required = required_of data;
          resolved = HostError ''interrupt_already_resolved'' ''the interrupt was already resolved'' None
      in if required = 1 then (Inr (Some (decision, None)), w) else
         case getInterrupt (i_id i) w of
           None \<Rightarrow> (Inl resolved, w)
         | Some fresh \<Rightarrow>
            if i_resolved fresh \<noteq> None then (Inl resolved, w) else
            let votes = AList.update (voter_of h rv sb) decision (case i_votes fresh of None \<Rightarrow> [] | Some v \<Rightarrow> v)
            in if vetoes data votes then (Inr (Some (''rejected'', Some ''quorum-reject'')), w)
               else if votes_for ''granted'' votes \<ge> required then (Inr (Some (''granted'', None)), w)
               else let (changed, w1) = recordInterruptVotes (i_id i) votes w
                    in if changed then (Inr None, w1) else (Inl resolved, w))"

section \<open>Tokens round-trip, and only tokens under the host's secret verify\<close>

lemma split_dotted: "ss \<noteq> [] \<Longrightarrow> \<forall>s \<in> set ss. CHR ''.'' \<notin> set s \<Longrightarrow> split_on (CHR ''.'') (dotted ss) = ss"
  unfolding dotted_def by (rule split_join)

lemma mac_no_dot: "CHR ''.'' \<notin> set (mac h s m)"
  by (simp add: mac_def hex_of_no_dot)

lemma verify_of_mint:
  assumes kid: "CHR ''.'' \<notin> set (h_kid h)" "h_kid h \<noteq> ''legacy''"
    and date: "h_date h (tk_e c) = Some t" and live: "now \<le> t"
  shows "verifyToken h now (mintToken h c) = Inr (claims_json c)"
proof -
  let ?p = "base64url (json_stringify (claims_json c))"
  let ?m = "mac h (h_secret h) (dotted [''hs256'', h_kid h, ?p])"
  have "\<forall>s \<in> set [''ow2'', ''hs256'', h_kid h, ?p, ?m]. CHR ''.'' \<notin> set s"
    using kid(1) base64url_no_dot mac_no_dot by simp
  then have parts: "token_parts h (mintToken h c) = Inr (h_kid h, ?p, ?m, dotted [''hs256'', h_kid h, ?p])"
    by (simp add: token_parts_def mintToken_def Let_def split_dotted)
  have "json_parse (json_stringify (claims_json c)) = Some (claims_json c)"
    by (rule json_parse_stringify) (simp add: claims_json_def)
  moreover have "jfield (claims_json c) ''i'' = Some (JStr (tk_i c))" "jfield (claims_json c) ''r'' = Some (JStr (tk_r c))"
    "jfield (claims_json c) ''e'' = Some (JStr (tk_e c))" "claims_json c \<noteq> JNull"
    by (simp_all add: claims_json_def)
  ultimately show ?thesis using kid(2) date live
    by (simp add: verifyToken_def parts)
qed

text \<open>
  A token the host accepts carries, in one of the two grammars, the MAC of its own payload under the
  secret of its key id, and the answered claims are what that payload encodes.
\<close>

theorem verified_is_maced:
  assumes "verifyToken h now token = Inr claims"
  shows "(\<exists>kid payload. kid \<in> {h_kid h, ''legacy''} \<and>
            token = dotted [''ow2'', ''hs256'', kid, payload,
              mac h (if kid = ''legacy'' then h_legacy_secret h else h_secret h) (dotted [''hs256'', kid, payload])]
            \<and> json_parse (from_base64url payload) = Some claims)
       \<or> (\<exists>payload. token = dotted [payload, mac h (h_legacy_secret h) payload]
            \<and> json_parse (from_base64url payload) = Some claims)"
proof -
  obtain kid payload given material where p: "token_parts h token = Inr (kid, payload, given, material)"
    using assms by (cases "token_parts h token") (auto simp: verifyToken_def)
  let ?secret = "if kid = ''legacy'' then h_legacy_secret h else h_secret h"
  have given: "given = mac h ?secret material"
    using assms p by (simp add: verifyToken_def Let_def split: if_splits)
  have claims: "json_parse (from_base64url payload) = Some claims"
    using assms p given
    by (simp add: verifyToken_def Let_def split: if_splits option.splits json.splits)
  have t: "token = dotted (split_on (CHR ''.'') token)" by (simp add: dotted_def)
  from p consider (five) "split_on (CHR ''.'') token = [''ow2'', ''hs256'', kid, payload, given]"
      "kid \<in> {h_kid h, ''legacy''}" "material = dotted [''hs256'', kid, payload]"
    | (two) "split_on (CHR ''.'') token = [payload, given]" "kid = ''legacy''" "material = payload"
    unfolding token_parts_def Let_def
    by (auto split: list.splits if_splits)
  then show ?thesis
  proof cases
    case five
    then show ?thesis using t given claims by (intro disjI1 exI [of _ kid] exI [of _ payload]) simp
  next
    case two
    then show ?thesis using t given claims by (intro disjI2 exI [of _ payload]) simp
  qed
qed

section \<open>One interrupt per key\<close>

lemma insertInterrupt_some:
  assumes "insertInterrupt i w = Some w'"
  shows "w' = w\<lparr>t_interrupts := t_interrupts w @ [i]\<rparr>"
    and "\<And>j. j \<in> set (t_interrupts w) \<Longrightarrow> i_id j \<noteq> i_id i"
    and "interruptByKey (i_run i) (i_key i) w = None"
  using assms by (auto simp: insertInterrupt_def interruptByKey_def find_None_iff split: if_splits)

lemma mint_then_found:
  assumes "mintInterrupt h r nid p w = (Inr (i, tok), w')"
  shows "interruptByKey (run_id r) (ip_key p) w' = Some i"
proof (cases "interruptByKey (run_id r) (ip_key p) w")
  case (Some j)
  with assms show ?thesis by (simp add: mintInterrupt_def)
next
  case None
  then have none: "find (\<lambda>i. i_run i = run_id r \<and> i_key i = ip_key p) (t_interrupts w) = None"
    by (simp add: interruptByKey_def)
  from assms None have i: "i_run i = run_id r" "i_key i = ip_key p"
    and w': "w' = (snd (opaque h w))\<lparr>t_interrupts := t_interrupts (snd (opaque h w)) @ [i]\<rparr>"
    by (auto simp: mintInterrupt_def tenantBound_def Let_def split_beta split: option.splits
        dest: insertInterrupt_some(1))
  then show ?thesis using none by (simp add: interruptByKey_def find_append opaque_def)
qed

lemma mint_twice:
  assumes "mintInterrupt h r nid p w = (Inr (i, tok), w')" and "ip_key q = ip_key p"
  shows "mintInterrupt h r nid q w' = (Inr (i, mintToken h (mint_claims h r nid i)), w')"
  using mint_then_found [OF assms(1)] assms(2) by (simp add: mintInterrupt_def)

section \<open>One resolution per interrupt\<close>

definition settled_id :: "string \<Rightarrow> world \<Rightarrow> bool" where
  "settled_id iid w \<longleftrightarrow> \<not> (\<exists>i \<in> set (t_interrupts w). unresolved iid i)"

interpretation resolution: claim_table settled_id "\<lambda>iid w. resolveInterrupt now iid resume w"
  for now resume
proof unfold_locales
  fix k k' :: string and w :: world
  show "fst (resolveInterrupt now k resume w) = (\<not> settled_id k w)"
    by (simp add: resolveInterrupt_def settled_id_def)
  let ?g = "\<lambda>i. if unresolved k i then i\<lparr>i_resolved := Some now, i_resume := Some resume\<rparr> else i"
  have t: "t_interrupts (snd (resolveInterrupt now k resume w)) = map ?g (t_interrupts w)"
    by (simp add: resolveInterrupt_def)
  have "\<not> unresolved k (?g i)" for i by (simp add: unresolved_def)
  then show "settled_id k (snd (resolveInterrupt now k resume w))"
    unfolding settled_id_def t set_map by blast
  have "k' \<noteq> k \<Longrightarrow> unresolved k' (?g i) = unresolved k' i" for i by (simp add: unresolved_def)
  then show "k' \<noteq> k \<Longrightarrow> settled_id k' (snd (resolveInterrupt now k resume w)) = settled_id k' w"
    unfolding settled_id_def t set_map by blast
  assume "settled_id k w"
  then have "map (\<lambda>i. if unresolved k i then i\<lparr>i_resolved := Some now, i_resume := Some resume\<rparr> else i) (t_interrupts w)
      = t_interrupts w"
    by (auto simp: settled_id_def intro: map_idI)
  then show "snd (resolveInterrupt now k resume w) = w"
    by (simp add: resolveInterrupt_def)
qed

section \<open>The quorum counts distinct voters\<close>

record ballot =
  bl_value :: "json option"
  bl_subject :: "subject option"
  bl_decision :: string

text \<open>The votes cast on one interrupt, one after the other, until one decides.\<close>

fun poll :: "host \<Rightarrow> interrupt_row \<Rightarrow> ballot list \<Rightarrow> world \<Rightarrow> (string \<times> string option) option \<times> world" where
  "poll h i [] w = (None, w)"
| "poll h i (b # bs) w =
     (case tallyVote h i (bl_value b) (bl_subject b) (bl_decision b) w of
        (Inl e, w1) \<Rightarrow> (None, w1)
      | (Inr (Some d), w1) \<Rightarrow> (Some d, w1)
      | (Inr None, w1) \<Rightarrow> poll h i bs w1)"

definition ballot_voter :: "host \<Rightarrow> ballot \<Rightarrow> string" where
  "ballot_voter h b = voter_of h (bl_value b) (bl_subject b)"

definition recorded_votes :: "interrupt_row \<Rightarrow> (string \<times> string) list" where
  "recorded_votes i = (case i_votes i of None \<Rightarrow> [] | Some v \<Rightarrow> v)"

lemma votes_for_card:
  assumes "distinct (map fst votes)"
  shows "votes_for d votes = card {v. map_of votes v = Some d}"
proof -
  have "{v. map_of votes v = Some d} = fst ` set (filter (\<lambda>v. snd v = d) votes)"
    using assms by (auto simp: map_of_eq_Some_iff image_iff)
  moreover have "distinct (map fst (filter (\<lambda>v. snd v = d) votes))"
    using assms by (rule distinct_map_filter)
  ultimately show ?thesis
    by (metis card_image distinct_card distinct_map length_map list.set_map votes_for_def)
qed

lemma recordInterruptVotes_get:
  assumes "getInterrupt iid w = Some j" "i_resolved j = None"
  shows "fst (recordInterruptVotes iid votes w)"
    and "getInterrupt iid (snd (recordInterruptVotes iid votes w)) = Some (j\<lparr>i_votes := Some votes\<rparr>)"
proof -
  from assms(1) have j: "j \<in> set (t_interrupts w)" "i_id j = iid"
    by (auto simp: getInterrupt_def find_Some_iff)
  with assms(2) show "fst (recordInterruptVotes iid votes w)"
    by (auto simp: recordInterruptVotes_def unresolved_def)
  let ?g = "\<lambda>i. if unresolved iid i then i\<lparr>i_votes := Some votes\<rparr> else i"
  have "getInterrupt iid (snd (recordInterruptVotes iid votes w)) = map_option ?g (getInterrupt iid w)"
    unfolding getInterrupt_def recordInterruptVotes_def by (simp add: find_map_eq)
  with assms j(2) show "getInterrupt iid (snd (recordInterruptVotes iid votes w)) = Some (j\<lparr>i_votes := Some votes\<rparr>)"
    by (simp add: unresolved_def)
qed

lemma tallyVote_open:
  assumes "getInterrupt (i_id i) w = Some j" "i_resolved j = None"
    and req: "required_of (ip_data (payloadOf i)) \<noteq> 1"
    and votes: "votes = AList.update (voter_of h rv sb) d (recorded_votes j)"
  shows "tallyVote h i rv sb d w =
    (if vetoes (ip_data (payloadOf i)) votes then (Inr (Some (''rejected'', Some ''quorum-reject'')), w)
     else if votes_for ''granted'' votes \<ge> required_of (ip_data (payloadOf i)) then (Inr (Some (''granted'', None)), w)
     else (Inr None, snd (recordInterruptVotes (i_id i) votes w)))"
  using recordInterruptVotes_get(1) [OF assms(1,2), of votes] assms(1,2) req
  by (simp add: tallyVote_def Let_def votes recorded_votes_def split_beta)

lemma poll_votes:
  assumes "getInterrupt (i_id i) w = Some j" "i_resolved j = None"
    and req: "required_of (ip_data (payloadOf i)) \<noteq> 1"
    and dist: "distinct (map fst (recorded_votes j))"
    and old: "\<And>v x. map_of (recorded_votes j) v = Some x \<Longrightarrow> \<exists>b \<in> set cast. ballot_voter h b = v \<and> bl_decision b = x"
    and out: "poll h i bs w = (Some (d, why), w')"
  shows "\<exists>votes. distinct (map fst votes)
     \<and> (\<forall>v x. map_of votes v = Some x \<longrightarrow> (\<exists>b \<in> set (cast @ bs). ballot_voter h b = v \<and> bl_decision b = x))
     \<and> (if d = ''granted'' then votes_for ''granted'' votes \<ge> required_of (ip_data (payloadOf i))
          \<and> \<not> vetoes (ip_data (payloadOf i)) votes
        else d = ''rejected'' \<and> vetoes (ip_data (payloadOf i)) votes)"
  using assms(1,2) dist old out
proof (induction bs arbitrary: w j cast)
  case Nil
  then show ?case by simp
next
  case (Cons b bs)
  let ?data = "ip_data (payloadOf i)"
  let ?v = "AList.update (ballot_voter h b) (bl_decision b) (recorded_votes j)"
  have dv: "distinct (map fst ?v)" using Cons.prems(3) by (rule distinct_update)
  have src: "\<exists>c \<in> set (cast @ b # bs). ballot_voter h c = v \<and> bl_decision c = x" if "map_of ?v v = Some x" for v x
    using that Cons.prems(4) [of v x] by (auto split: if_splits)
  note tally = tallyVote_open [OF Cons.prems(1,2) req refl, of h "bl_value b" "bl_subject b" "bl_decision b", folded ballot_voter_def]
  show ?case
  proof (cases "vetoes ?data ?v")
    case True
    with Cons.prems(5) tally have "d = ''rejected''" by simp
    with True dv src show ?thesis by (intro exI [of _ ?v]) auto
  next
    case no: False
    show ?thesis
    proof (cases "votes_for ''granted'' ?v \<ge> required_of ?data")
      case True
      with no Cons.prems(5) tally have "d = ''granted''" by simp
      with True no dv src show ?thesis by (intro exI [of _ ?v]) auto
    next
      case False
      let ?w = "snd (recordInterruptVotes (i_id i) ?v w)"
      let ?j = "j\<lparr>i_votes := Some ?v\<rparr>"
      have rest: "poll h i bs ?w = (Some (d, why), w')" using Cons.prems(5) tally no False by simp
      have j: "getInterrupt (i_id i) ?w = Some ?j" "i_resolved ?j = None" "recorded_votes ?j = ?v"
        using recordInterruptVotes_get(2) [OF Cons.prems(1,2)] Cons.prems(2) by (simp_all add: recorded_votes_def)
      have "\<exists>c \<in> set (cast @ [b]). ballot_voter h c = v \<and> bl_decision c = x" if "map_of (recorded_votes ?j) v = Some x" for v x
        using that Cons.prems(4) [of v x] unfolding j(3) by (auto split: if_splits)
      from Cons.IH [OF j(1,2) _ this rest] dv j(3) show ?thesis by simp
    qed
  qed
qed

text \<open>
  C3: An approval gate that needs more than one vote is granted only if at least that many distinct voters
  cast a granting vote: a voter who votes twice counts once, and a changed vote replaces the earlier one.
\<close>

theorem quorum_granted:
  assumes "getInterrupt (i_id i) w = Some j" "i_resolved j = None" "i_votes j = None"
    and req: "required_of (ip_data (payloadOf i)) \<noteq> 1"
    and out: "poll h i bs w = (Some (''granted'', why), w')"
  shows "required_of (ip_data (payloadOf i))
     \<le> card (ballot_voter h ` {b \<in> set bs. bl_decision b = ''granted''})"
proof -
  have none: "recorded_votes j = []" using assms(3) by (simp add: recorded_votes_def)
  from poll_votes [OF assms(1,2) req _ _ out, of "[]"] none obtain votes
    where v: "distinct (map fst votes)"
      "\<forall>v x. map_of votes v = Some x \<longrightarrow> (\<exists>b \<in> set bs. ballot_voter h b = v \<and> bl_decision b = x)"
      "votes_for ''granted'' votes \<ge> required_of (ip_data (payloadOf i))"
    by auto
  have "{v. map_of votes v = Some ''granted''} \<subseteq> ballot_voter h ` {b \<in> set bs. bl_decision b = ''granted''}"
    using v(2) by blast
  then have "card {v. map_of votes v = Some ''granted''} \<le> card (ballot_voter h ` {b \<in> set bs. bl_decision b = ''granted''})"
    by (intro card_mono) auto
  with v(3) votes_for_card [OF v(1)] show ?thesis by simp
qed

text \<open>Under \<open>single-veto\<close> one rejection is enough, and the only way to be rejected.\<close>

lemma quorum_single_veto:
  assumes "getInterrupt (i_id i) w = Some j" "i_resolved j = None"
    and "required_of (ip_data (payloadOf i)) \<noteq> 1"
    and "jfield (ip_data (payloadOf i)) ''rejectionPolicy'' \<noteq> Some (JStr ''majority'')"
  shows "tallyVote h i rv sb ''rejected'' w = (Inr (Some (''rejected'', Some ''quorum-reject'')), w)"
proof -
  have "0 < votes_for d (AList.update v d votes)" for d v :: string and votes
  proof -
    have "(v, d) \<in> set (AList.update v d votes)" by (rule map_of_SomeD) simp
    then show ?thesis unfolding votes_for_def by (simp add: filter_empty_conv) (metis snd_conv)
  qed
  then show ?thesis
    by (simp add: tallyVote_open [OF assms(1-3) refl] vetoes_def assms(4) Suc_le_eq)
qed

section \<open>Witnesses\<close>

definition demo_gate :: "nat \<Rightarrow> interrupt_row" where
  "demo_gate n = \<lparr>i_id = ''i'', i_run = ''r'', i_node = ''g'', i_key = ''k'', i_kind = ''approval'',
     i_payload = JObj [(''kind'', JStr ''approval''), (''key'', JStr ''k''),
       (''data'', JObj [(''requiredApprovals'', JNum (int n))])], i_expires = 10,
     i_resolved = None, i_resume = None, i_created = 0, i_votes = None\<rparr>"

definition demo_ballot :: "string \<Rightarrow> string \<Rightarrow> ballot" where
  "demo_ballot v d = \<lparr>bl_value = Some JNull,
     bl_subject = Some \<lparr>sub_issuer = ''i'', sub_id = v, sub_tenant = ''t'', sub_lane = ''api-key'', sub_kind = ''user''\<rparr>,
     bl_decision = d\<rparr>"

lemma quorum_granted_witness:
  "2 \<le> card (ballot_voter demo_host ` {b \<in> set [demo_ballot ''u'' ''granted'', demo_ballot ''u'' ''granted'',
     demo_ballot ''v'' ''granted'']. bl_decision b = ''granted''})"
proof -
  let ?w = "(demo_world [])\<lparr>t_interrupts := [demo_gate 2]\<rparr>"
  let ?bs = "[demo_ballot ''u'' ''granted'', demo_ballot ''u'' ''granted'', demo_ballot ''v'' ''granted'']"
  have "fst (poll demo_host (demo_gate 2) ?bs ?w) = Some (''granted'', None)" by code_simp
  then obtain w' where "poll demo_host (demo_gate 2) ?bs ?w = (Some (''granted'', None), w')" by (metis prod.collapse)
  moreover have "required_of (ip_data (payloadOf (demo_gate 2))) = 2" by code_simp
  moreover have "getInterrupt (i_id (demo_gate 2)) ?w = Some (demo_gate 2)" "i_resolved (demo_gate 2) = None"
    "i_votes (demo_gate 2) = None"
    by (simp_all add: getInterrupt_def demo_gate_def)
  ultimately show ?thesis using quorum_granted [of "demo_gate 2" ?w "demo_gate 2" demo_host ?bs None w'] by simp
qed

lemma verified_is_maced_witness:
  "\<exists>kid payload. kid \<in> {h_kid demo_host, ''legacy''} \<and> mintToken demo_host \<lparr>tk_i = ''i'', tk_r = ''r'', tk_n = ''n'', tk_e = ''7'', tk_t = ''resolve''\<rparr>
     = dotted [''ow2'', ''hs256'', kid, payload, mac demo_host
         (if kid = ''legacy'' then h_legacy_secret demo_host else h_secret demo_host) (dotted [''hs256'', kid, payload])]
   \<or> (\<exists>payload. mintToken demo_host \<lparr>tk_i = ''i'', tk_r = ''r'', tk_n = ''n'', tk_e = ''7'', tk_t = ''resolve''\<rparr>
     = dotted [payload, mac demo_host (h_legacy_secret demo_host) payload])"
proof -
  let ?c = "\<lparr>tk_i = ''i'', tk_r = ''r'', tk_n = ''n'', tk_e = ''7'', tk_t = ''resolve''\<rparr>"
  have "verifyToken demo_host 3 (mintToken demo_host ?c) = Inr (claims_json ?c)"
    by (rule verify_of_mint [where t = 7]) (simp_all add: demo_host_def decimal_value_def is_digit_def)
  from verified_is_maced [OF this] show ?thesis by blast
qed

text \<open>
  A token the host mints verifies until its expiry and answers the claims it was minted with.
\<close>

theorem minted_token_verifies:
  assumes "CHR ''.'' \<notin> set (h_kid h)" "h_kid h \<noteq> ''legacy''" "h_date h (tk_e c) = Some t" "now \<le> t"
  shows "verifyToken h now (mintToken h c) = Inr (claims_json c)"
  by (rule verify_of_mint [OF assms])

lemma minted_token_verifies_witness:
  "verifyToken demo_host 3 (mintToken demo_host \<lparr>tk_i = ''i'', tk_r = ''r'', tk_n = ''n'', tk_e = ''7'', tk_t = ''resolve''\<rparr>)
     = Inr (claims_json \<lparr>tk_i = ''i'', tk_r = ''r'', tk_n = ''n'', tk_e = ''7'', tk_t = ''resolve''\<rparr>)"
  by (rule minted_token_verifies [where t = 7]) (simp_all add: demo_host_def decimal_value_def is_digit_def)

end
