(* ===== verification/Effects.thy ===== *)
theory Effects
  imports Interrupts
begin

text \<open>
  \<open>effects.ts\<close> and \<open>budget.ts\<close>: the effect ledger behind every outbound call, the replay
  suppression, the compensation plan, and the tool-call budget. What the network answers
  is an argument of the definitions that call out.
\<close>

section \<open>Coercions of the request\<close>

text \<open>\<open>Number(v)\<close> on the integers; \<open>None\<close> is \<open>NaN\<close>.\<close>

fun js_Number :: "json option \<Rightarrow> int option" where
  "js_Number None = None"
| "js_Number (Some JNull) = Some 0"
| "js_Number (Some (JBool b)) = Some (if b then 1 else 0)"
| "js_Number (Some (JNum n)) = Some n"
| "js_Number (Some (JStr s)) = (case js_trim s of [] \<Rightarrow> Some 0
     | c # cs \<Rightarrow> if c = CHR ''-'' then (if cs \<noteq> [] \<and> list_all is_digit cs then Some (- int (decimal_value cs)) else None)
         else if list_all is_digit (c # cs) then Some (int (decimal_value (c # cs))) else None)"
| "js_Number (Some (JArr xs)) = (if xs = [] then Some 0 else None)"
| "js_Number (Some (JObj ps)) = None"

definition upper_char :: "char \<Rightarrow> char" where
  "upper_char c = (let n = (of_char c :: nat) in if 97 \<le> n \<and> n \<le> 122 then char_of (n - 32) else c)"

definition clamp :: "int \<Rightarrow> int \<Rightarrow> int \<Rightarrow> int" where
  "clamp lo hi n = max lo (min hi n)"

section \<open>Compensation\<close>

definition compensationState :: "run_row \<Rightarrow> comp_state" where
  "compensationState r = (case r_comp r of
     None \<Rightarrow> \<lparr>cm_status = ''none'', cm_plan = [], cm_attempts = []\<rparr> | Some s \<Rightarrow> s)"

definition declared_compensation :: "wf_node list \<Rightarrow> string \<Rightarrow> json option" where
  "declared_compensation ns nid =
     (case map_of (fold (\<lambda>n m. AList.update (nd_id n) n m)
        (filter (\<lambda>n. map_of (nd_config n) ''compensation'' \<noteq> None) ns) []) nid of
        None \<Rightarrow> None | Some n \<Rightarrow> map_of (nd_config n) ''compensation'')"

fun plan_from :: "wf_node list \<Rightarrow> nat \<Rightarrow> string list \<Rightarrow> comp_step list" where
  "plan_from ns k [] = []"
| "plan_from ns k (nid # ids) =
     (case declared_compensation ns nid of
        None \<Rightarrow> plan_from ns k ids
      | Some c \<Rightarrow> \<lparr>cs_node = nid, cs_order = k,
            cs_irreversible = (jfield c ''irreversibleEffect'' = Some (JBool True))\<rparr> # plan_from ns (Suc k) ids)"

definition buildCompensationPlan :: "wf_node list \<Rightarrow> string list \<Rightarrow> comp_step list" where
  "buildCompensationPlan ns completed = plan_from ns 0 (rev completed)"

definition recordAttempt :: "run_row \<Rightarrow> comp_state \<Rightarrow> world \<Rightarrow> run_row \<times> world" where
  "recordAttempt r st w = (r\<lparr>r_comp := Some st\<rparr>,
     updateRun (w_clock w) (run_id r) (\<lambda>x. x\<lparr>r_comp := Some st\<rparr>) w)"

section \<open>The request and its business identity\<close>

record request =
  rq_method :: string
  rq_url :: string
  rq_body :: "string option"
  rq_retries :: nat
  rq_timeout :: nat

definition DEFAULT_EFFECT_TIMEOUT_MS :: int where "DEFAULT_EFFECT_TIMEOUT_MS = 5000"

definition requestOf :: "run_row \<Rightarrow> wf_node \<Rightarrow> request" where
  "requestOf r n =
     (let inputs = r_inputs r; cfg = (\<lambda>k. map_of (nd_config n) k);
          retries = js_Number (nullish (nullish (jfield inputs ''transportRetries'') (cfg ''transportRetries'')) (Some (JNum 0)));
          declared = js_Number (nullish (nullish (jfield inputs ''timeoutMs'') (cfg ''timeoutMs'')) (Some (JNum DEFAULT_EFFECT_TIMEOUT_MS)))
      in \<lparr>rq_method = map upper_char (js_String (nullish (cfg ''method'') (Some (JStr ''POST'')))),
          rq_url = js_String (nullish (nullish (jfield inputs ''url'') (cfg ''url'')) (Some (JStr []))),
          rq_body = map_option json_stringify (cfg ''body''),
          rq_retries = (case retries of None \<Rightarrow> 0 | Some k \<Rightarrow> nat (clamp 0 4 k)),
          rq_timeout = nat (case declared of None \<Rightarrow> DEFAULT_EFFECT_TIMEOUT_MS | Some k \<Rightarrow> clamp 1000 30000 k)\<rparr>)"

definition business_material :: "run_row \<Rightarrow> wf_node \<Rightarrow> request \<Rightarrow> json" where
  "business_material r n q =
     (let supplied = (case jfield (r_inputs r) ''businessKey'' of
            Some (JStr k) \<Rightarrow> Some (JStr k) | _ \<Rightarrow> map_of (nd_config n) ''businessKey'')
      in JObj [(''tenant'', JStr (r_tenant r)), (''workflow'', JStr (r_workflow r)), (''node'', JStr (nd_id n)),
           (''method'', JStr (rq_method q)), (''url'', JStr (rq_url q)),
           (''body'', or_null (map_option JStr (rq_body q))), (''key'', or_null supplied)])"

definition businessKey :: "host \<Rightarrow> run_row \<Rightarrow> wf_node \<Rightarrow> request \<Rightarrow> string" where
  "businessKey h r n q = hex_of (h_sha256 h (json_stringify (business_material r n q)))"

section \<open>Outcomes\<close>

record fetch_outcome =
  fx_status :: int
  fx_error :: "string option"
  fx_denied :: bool

definition outcome_json :: "fetch_outcome \<Rightarrow> json" where
  "outcome_json oc = jobj [(''status'', Some (JNum (fx_status oc))), (''error'', map_option JStr (fx_error oc)),
     (''denied'', if fx_denied oc then Some (JBool True) else None)]"

definition fetchFailureCode :: "bool \<Rightarrow> string" where
  "fetchFailureCode denied = (if denied then ''egress_denied'' else ''upstream_unavailable'')"

text \<open>What one request came back with: an answer of the guarded client, or an exception.\<close>

datatype net_reply =
    NetAnswer int "string option"
  | NetThrown string bool

fun outcome_of_reply :: "net_reply \<Rightarrow> fetch_outcome" where
  "outcome_of_reply (NetAnswer st None) = \<lparr>fx_status = st, fx_error = None, fx_denied = False\<rparr>"
| "outcome_of_reply (NetAnswer st (Some e)) = \<lparr>fx_status = st, fx_error = Some e, fx_denied = starts_with ''egress denied'' e\<rparr>"
| "outcome_of_reply (NetThrown m refused) = \<lparr>fx_status = 0, fx_error = Some m, fx_denied = refused\<rparr>"

definition GATEWAY_STATUSES :: "int list" where "GATEWAY_STATUSES = [502, 503, 504]"

text \<open>\<open>{ ...outcome, deduplicated: true }\<close>.\<close>

fun spread :: "json \<Rightarrow> (string \<times> json) list \<Rightarrow> json" where
  "spread (JObj ps) qs = JObj (fold (\<lambda>(k, v) m. AList.update k v m) qs ps)"
| "spread _ qs = JObj (fold (\<lambda>(k, v) m. AList.update k v m) qs [])"

definition deduplicated :: "json \<Rightarrow> json" where
  "deduplicated oc = spread oc [(''deduplicated'', JBool True)]"

section \<open>One transport attempt\<close>

text \<open>
  The part before the request leaves: the claim decides whether this delivery resolves to
  a recorded outcome, waits for the holder in this process, or fires.
\<close>

datatype attempt_claim = Recorded json | Waits string | Fires

definition flight_key :: "string \<Rightarrow> nat \<Rightarrow> string" where
  "flight_key eid att = eid @ ''#'' @ nat_string att"

definition claim_row :: "run_row \<Rightarrow> wf_node \<Rightarrow> string \<Rightarrow> string option \<Rightarrow> string \<Rightarrow> nat \<Rightarrow> nat \<Rightarrow> nat \<Rightarrow> effect_row" where
  "claim_row r n eid pkey bkey ex att now =
     \<lparr>f_id = eid, f_run = run_id r, f_node = nd_id n, f_attempt = att, f_keying = ''business-identity'',
      f_state = ''claimed'', f_provider = pkey, f_invocation = None, f_at = now, f_bkey = bkey,
      f_outcome = None, f_execution = Some ex\<rparr>"

definition claim_attempt :: "effect_row \<Rightarrow> world \<Rightarrow> attempt_claim \<times> world" where
  "claim_attempt row w =
     (let ((held, won), w1) = claimEffect row w; key = flight_key (f_id row) (f_attempt row)
      in case (won, f_outcome held) of
           (False, Some oc) \<Rightarrow> (Recorded oc, w1)
         | _ \<Rightarrow>
            (if \<not> won \<and> key \<in> set (w_inflight w1) then (Waits key, w1)
             else (Fires, w1\<lparr>w_inflight := push_new key (w_inflight w1)\<rparr>)))"

text \<open>The part after the answer: the outcome is recorded and the flight ends.\<close>

definition gateway_retry :: "fetch_outcome \<Rightarrow> bool \<Rightarrow> bool" where
  "gateway_retry oc again \<longleftrightarrow> fx_error oc = None \<and> fx_status oc \<in> set GATEWAY_STATUSES \<and> again"

definition record_attempt :: "string \<Rightarrow> string \<Rightarrow> nat \<Rightarrow> fetch_outcome \<Rightarrow> bool \<Rightarrow> world \<Rightarrow> world" where
  "record_attempt rid eid att oc again w =
     (let w1 = updateEffect rid eid att (\<lambda>f. f\<lparr>
          f_state := (if fx_error oc = None \<and> \<not> gateway_retry oc again then ''completed'' else ''released''),
          f_outcome := Some (outcome_json oc)\<rparr>) w
      in w1\<lparr>w_inflight := removeAll (flight_key eid att) (w_inflight w1)\<rparr>)"

section \<open>http.fetch\<close>

datatype fetch_result =
    FetchDone json string
  | FetchFails exn

text \<open>
  The loop over the transport attempts. \<open>net i\<close> is what the i-th request comes back with,
  \<open>hold\<close> the outcome a holder in this process settles with.
\<close>

fun attempts_from :: "run_row \<Rightarrow> wf_node \<Rightarrow> string \<Rightarrow> string option \<Rightarrow> string \<Rightarrow> nat \<Rightarrow> nat \<Rightarrow> nat
    \<Rightarrow> (nat \<Rightarrow> net_reply) \<Rightarrow> fetch_outcome \<Rightarrow> nat \<Rightarrow> world \<Rightarrow> fetch_result \<times> world" where
  "attempts_from r n eid pkey bkey ex base i net hold left w =
     (let att = base + i + 1;
          (c, w1) = claim_attempt (claim_row r n eid pkey bkey ex att (w_clock w)) w
      in case c of
           Recorded oc \<Rightarrow> (FetchDone (deduplicated oc) eid, w1)
         | Waits k \<Rightarrow> (FetchDone (deduplicated (outcome_json hold)) eid, w1)
         | Fires \<Rightarrow>
            (let out = outcome_of_reply (net i);
                 w2 = record_attempt (run_id r) eid att out (0 < left) w1
             in if fx_error out = None \<and> \<not> gateway_retry out (0 < left)
                then (FetchDone (JObj [(''status'', JNum (fx_status out)), (''attempts'', JNum (int (att - base)))]) eid, w2)
                else (case left of
                   Suc k \<Rightarrow> attempts_from r n eid pkey bkey ex base (Suc i) net hold k w2
                 | 0 \<Rightarrow> (FetchFails (HostError (fetchFailureCode (fx_denied out))
                       (''http.fetch failed after '' @ nat_string (att - base) @ '' transport attempt(s): '' @ (case fx_error out of Some m \<Rightarrow> m | None \<Rightarrow> [])) None), w2))))"

declare attempts_from.simps [simp del]

fun nth_terminal :: "nat \<Rightarrow> string \<Rightarrow> event_doc list \<Rightarrow> event_doc option" where
  "nth_terminal k nid [] = None"
| "nth_terminal k nid (e # es) =
     (if doc_node e = Some nid \<and> (doc_type e = NODE_COMPLETED \<or> doc_type e = NODE_FAILED)
      then (if k \<le> 1 then Some e else nth_terminal (k - 1) nid es)
      else nth_terminal k nid es)"

definition executionEffectId :: "host \<Rightarrow> string \<Rightarrow> string \<Rightarrow> nat \<Rightarrow> world \<Rightarrow> (exn + string option) \<times> world" where
  "executionEffectId h src nid ex w =
     (case getRun src w of None \<Rightarrow> (Inr None, w)
      | Some s \<Rightarrow>
         (case readEvents h s (-1) w of
            (Inl e, w1) \<Rightarrow> (Inl e, w1)
          | (Inr evs, w1) \<Rightarrow>
             (Inr (case nth_terminal ex nid evs of None \<Rightarrow> None
                | Some e \<Rightarrow> if doc_type e \<noteq> NODE_COMPLETED then None
                    else str_of (jget (jget (Some (doc_payload e)) ''outputs'') ''effectId'')), w1)))"

text \<open>The source's attempts of this execution, copied as the fork's inherited history.\<close>

definition inherit_attempts :: "run_row \<Rightarrow> string \<Rightarrow> wf_node \<Rightarrow> nat \<Rightarrow> world \<Rightarrow> world" where
  "inherit_attempts r src n ex w =
     fold (\<lambda>f w. snd (claimEffect (f\<lparr>f_run := run_id r, f_invocation := Some (''replay-of:'' @ f_run f)\<rparr>) w))
       (filter (\<lambda>f. f_node f = nd_id n \<and> execution_of f = ex) (effectsForRun src w)) w"

text \<open>The source's recorded outcome of the execution, or of the effect its completion names.\<close>

definition recorded_source :: "host \<Rightarrow> string \<Rightarrow> string \<Rightarrow> nat \<Rightarrow> world \<Rightarrow> (exn + effect_row option) \<times> world" where
  "recorded_source h src nid ex w =
     (case effectOutcome src nid ex w of
        Some f \<Rightarrow> (Inr (Some f), w)
      | None \<Rightarrow>
         (case executionEffectId h src nid ex w of
            (Inl e, w1) \<Rightarrow> (Inl e, w1)
          | (Inr None, w1) \<Rightarrow> (Inr None, w1)
          | (Inr (Some eid), w1) \<Rightarrow> (Inr (effectOutcomeById src eid w1), w1)))"

definition replayRecordedEffect :: "host \<Rightarrow> run_row \<Rightarrow> wf_node \<Rightarrow> nat \<Rightarrow> string \<Rightarrow> world \<Rightarrow> fetch_result \<times> world" where
  "replayRecordedEffect h r n ex label w =
     (let src = (case r_source r of Some s \<Rightarrow> s | None \<Rightarrow> []);
          missing = FetchFails (HostError ''replay_source_missing'' (''no recorded outcome for ('' @ src @ '', '' @ nd_id n @ '', '' @ nat_string ex @ '') '' @ EM_DASH @ '' the effect is not performed'') None);
          (found, w1) = recorded_source h src (nd_id n) ex w
      in case found of
           Inl e \<Rightarrow> (FetchFails e, w1)
         | Inr None \<Rightarrow> (missing, w1)
         | Inr (Some f) \<Rightarrow>
            (case f_outcome f of None \<Rightarrow> (missing, w1)
             | Some oc \<Rightarrow>
                (let w2 = inherit_attempts r src n ex w1
                 in case jfield oc ''error'' of
                      Some e \<Rightarrow> (FetchFails (HostError (fetchFailureCode (jfield oc ''denied'' = Some (JBool True)))
                          (label @ '' failed in the source run (recorded, not performed): '' @ js_string e) None), w2)
                    | None \<Rightarrow> (FetchDone (jobj [(''status'', jfield oc ''status''), (''suppressed'', Some (JBool True)),
                          (''sourceEffectId'', Some (JStr (f_id f)))]) (f_id f), w2))))"

definition performed :: "effect_row \<Rightarrow> bool" where
  "performed f \<longleftrightarrow> f_state f = ''completed''
     \<and> (case f_outcome f of None \<Rightarrow> False | Some oc \<Rightarrow> jfield oc ''error'' = None)"

definition least_of :: "nat list \<Rightarrow> nat" where
  "least_of ns = (case ns of [] \<Rightarrow> 0 | n # r \<Rightarrow> fold min r n)"

definition fetch_in_run :: "run_row \<Rightarrow> wf_node \<Rightarrow> nat \<Rightarrow> (nat \<Rightarrow> net_reply) \<Rightarrow> fetch_outcome \<Rightarrow> request \<Rightarrow> string \<Rightarrow> string
    \<Rightarrow> string \<Rightarrow> world \<Rightarrow> fetch_result \<times> world" where
  "fetch_in_run r n ex net hold q key eid pkey w =
     (let prior = filter (\<lambda>f. f_id f = eid) (effectsForRun (run_id r) w);
          mine = filter (\<lambda>f. execution_of f = ex) prior;
          go = (\<lambda>base. attempts_from r n eid (Some pkey) key ex base 0 net hold (rq_retries q) w)
      in if mine \<noteq> [] then go (least_of (map f_attempt mine) - 1)
         else case find performed prior of
                Some f \<Rightarrow> (FetchDone (deduplicated (or_null (f_outcome f))) eid, w)
              | None \<Rightarrow> go (fold max (map f_attempt prior) 0))"

definition performHttpFetch :: "host \<Rightarrow> run_row \<Rightarrow> wf_node \<Rightarrow> nat \<Rightarrow> (nat \<Rightarrow> net_reply) \<Rightarrow> fetch_outcome \<Rightarrow> world \<Rightarrow> fetch_result \<times> world" where
  "performHttpFetch h r n ex net hold w =
     (let q = requestOf r n; key = businessKey h r n q
      in if r_fork_mode r = Some ''replay'' \<and> r_source r \<noteq> None then replayRecordedEffect h r n ex ''http.fetch'' w else
      let identity = effectIdentity key w;
          (eid, w1) = (case identity of Some (i, _) \<Rightarrow> (i, w) | None \<Rightarrow> tenantBound h (r_tenant r) w);
          pkey = (case identity of Some (_, Some p) \<Rightarrow> p | _ \<Rightarrow> ''idem-'' @ take 24 key)
      in case completedEffect key w1 of
           Some don \<Rightarrow>
             if f_run don \<noteq> run_id r then
               (let ((m, won), w2) = claimEffect \<lparr>f_id = eid, f_run = run_id r, f_node = nd_id n, f_attempt = 1,
                      f_keying = ''business-identity'', f_state = ''completed'', f_provider = Some pkey,
                      f_invocation = Some (''deduplicated-of:'' @ f_run don), f_at = w_clock w1, f_bkey = key,
                      f_outcome = f_outcome don, f_execution = Some ex\<rparr> w1
                in (FetchDone (deduplicated (or_null (f_outcome don))) (f_id m), w2))
             else fetch_in_run r n ex net hold q key eid pkey w1
         | None \<Rightarrow> fetch_in_run r n ex net hold q key eid pkey w1)"

section \<open>The reserved side effect\<close>

definition performConformanceSideEffect :: "host \<Rightarrow> run_row \<Rightarrow> wf_node \<Rightarrow> nat \<Rightarrow> world \<Rightarrow> fetch_result \<times> world" where
  "performConformanceSideEffect h r n ex w =
     (if r_fork_mode r = Some ''replay'' \<and> r_source r \<noteq> None
      then replayRecordedEffect h r n ex ''core.conformance.side-effect'' w
      else
        let recipe = r_tenant r @ ''|'' @ run_id r @ ''|'' @ nd_id n @ ''|'' @ nat_string ex;
            eid = r_tenant r @ ''/se-'' @ take 22 (base64url (h_sha256 h recipe));
            out = outcome_json \<lparr>fx_status = 200, fx_error = None, fx_denied = False\<rparr>;
            ((held, won), w1) = claimEffect \<lparr>f_id = eid, f_run = run_id r, f_node = nd_id n, f_attempt = 1,
               f_keying = ''activity-recipe'', f_state = ''completed'', f_provider = None, f_invocation = None,
               f_at = w_clock w, f_bkey = recipe, f_outcome = Some out, f_execution = Some ex\<rparr> w
        in (FetchDone (jobj [(''status'', Some (JNum 200)), (''effectId'', Some (JStr eid)),
              (''deduplicated'', if won then None else Some (JBool True))]) eid, w1))"

section \<open>The tool-call budget\<close>

record budget_policy =
  bp_max :: "int option"
  bp_percent :: int

definition DEFAULT_THRESHOLD_PERCENT :: int where "DEFAULT_THRESHOLD_PERCENT = 80"

definition POLICY_KEYS :: "string list" where
  "POLICY_KEYS = [''maxTokens'', ''maxCostUsd'', ''maxToolCalls'', ''maxRetries'', ''modelAllow'', ''modelDeny'',
     ''thresholdPercent'', ''onExhaustion'']"

definition budgetRefusal :: "json \<Rightarrow> (string \<times> string \<times> string) option" where
  "budgetRefusal b =
     (case b of
        JObj ps \<Rightarrow>
          (case find (\<lambda>k. k \<notin> set POLICY_KEYS) (map fst ps) of
             Some k \<Rightarrow> Some (''validation_error'', ''unknown key '' @ k @ '' in configurable.budget (closed schema)'', ''configurable.budget.'' @ k)
           | None \<Rightarrow>
              if (case map_of ps ''maxToolCalls'' of None \<Rightarrow> False | Some (JNum n) \<Rightarrow> n < 1 | Some _ \<Rightarrow> True)
              then Some (''validation_error'', ''budget.maxToolCalls MUST be an integer of at least 1'', ''configurable.budget.maxToolCalls'')
              else if (case map_of ps ''thresholdPercent'' of None \<Rightarrow> False | Some (JNum n) \<Rightarrow> n < 0 \<or> n > 100 | Some _ \<Rightarrow> True)
              then Some (''validation_error'', ''budget.thresholdPercent MUST be between 0 and 100'', ''configurable.budget.thresholdPercent'')
              else if map_of ps ''onExhaustion'' \<notin> {None, Some (JStr ''fail''), Some (JStr ''interrupt'')}
              then Some (''validation_error'', ''budget.onExhaustion MUST be fail or interrupt'', ''configurable.budget.onExhaustion'')
              else if map_of ps ''onExhaustion'' = Some (JStr ''interrupt'')
              then Some (''capability_not_provided'', ''this host does not raise a budget-extending approval; onExhaustion: interrupt is not served'', ''configurable.budget.onExhaustion'')
              else None)
      | _ \<Rightarrow> Some (''validation_error'', ''configurable.budget MUST be an object'', ''configurable.budget''))"

definition policyOf :: "run_row \<Rightarrow> budget_policy option" where
  "policyOf r =
     (let b = jget (jget (Some (r_options r)) ''configurable'') ''budget''
      in if \<not> is_object b then None
         else Some \<lparr>bp_max = num_of (jget b ''maxToolCalls''),
                bp_percent = (case num_of (jget b ''thresholdPercent'') of Some p \<Rightarrow> p | None \<Rightarrow> DEFAULT_THRESHOLD_PERCENT)\<rparr>)"

definition reserveBudget :: "host \<Rightarrow> run_row \<Rightarrow> world \<Rightarrow> world" where
  "reserveBudget h r w =
     (case policyOf r of None \<Rightarrow> w
      | Some p \<Rightarrow> emit h r BUDGET_RESERVED
          (jobj [(''effectiveBudget'', Some (jobj [(''thresholdPercent'', Some (JNum (bp_percent p))),
              (''onExhaustion'', Some (JStr ''fail'')), (''maxToolCalls'', map_option JNum (bp_max p))])),
             (''scope'', Some (JStr ''run''))]) no_opts w)"

definition tool_calls :: "event_doc list \<Rightarrow> int" where
  "tool_calls es = int (length (filter (\<lambda>e. doc_type e = TOOL_CALLED) es))"

text \<open>Answers the exhausted limit, which the caller fails the node with, or \<open>None\<close>.\<close>

definition beforeToolCall :: "host \<Rightarrow> run_row \<Rightarrow> string \<Rightarrow> world \<Rightarrow> int option \<times> world" where
  "beforeToolCall h r nid w =
     (case policyOf r of None \<Rightarrow> (None, w)
      | Some p \<Rightarrow>
         (case bp_max p of None \<Rightarrow> (None, w)
          | Some lim \<Rightarrow>
             (let (evs, w1) = readLog h r w; consumed = tool_calls evs
              in if consumed < lim then (None, w1)
                 else (Some lim,
                   emit h r CAP_BREACHED (JObj [(''kind'', JStr ''budget-tool-calls''), (''limit'', JNum lim),
                       (''observed'', JNum (consumed + 1)), (''nodeId'', JStr nid)]) (on_node nid)
                    (emit h r BUDGET_EXHAUSTED (JObj [(''dimension'', JStr ''toolCalls''), (''consumed'', JNum consumed),
                       (''limit'', JNum lim)]) (on_node nid) w1)))))"

definition threshold_crossed :: "event_doc list \<Rightarrow> bool" where
  "threshold_crossed es = (\<exists>e \<in> set es. doc_type e = BUDGET_THRESHOLD
     \<and> jget (Some (doc_payload e)) ''dimension'' = Some (JStr ''toolCalls''))"

definition afterToolCall :: "host \<Rightarrow> run_row \<Rightarrow> string \<Rightarrow> world \<Rightarrow> world" where
  "afterToolCall h r nid w =
     (case policyOf r of None \<Rightarrow> w
      | Some p \<Rightarrow>
         (case bp_max p of None \<Rightarrow> w
          | Some lim \<Rightarrow>
             (let (evs, w1) = readLog h r w; consumed = tool_calls evs;
                  w2 = emit h r BUDGET_CONSUMED (JObj [(''dimension'', JStr ''toolCalls''), (''consumed'', JNum consumed),
                         (''limit'', JNum lim), (''remaining'', JNum (max 0 (lim - consumed)))]) (on_node nid) w1
              in if \<not> threshold_crossed evs \<and> consumed * 100 \<ge> bp_percent p * lim
                 then emit h r BUDGET_THRESHOLD (JObj [(''dimension'', JStr ''toolCalls''), (''consumed'', JNum consumed),
                         (''limit'', JNum lim), (''percent'', JNum (bp_percent p))]) (on_node nid) w2
                 else w2)))"

section \<open>The plan is the declared nodes in reverse completion order\<close>

lemma plan_from_nodes: "map cs_node (plan_from ns k ids) = filter (\<lambda>n. declared_compensation ns n \<noteq> None) ids"
  by (induction ids arbitrary: k) (auto split: option.split)

lemma plan_from_orders: "map cs_order (plan_from ns k ids) = [k..<k + length (plan_from ns k ids)]"
proof (induction ids arbitrary: k)
  case (Cons a ids)
  show ?case
  proof (cases "declared_compensation ns a")
    case None
    with Cons show ?thesis by simp
  next
    case (Some c)
    then have "map cs_order (plan_from ns k (a # ids)) = k # [Suc k..<Suc k + length (plan_from ns (Suc k) ids)]"
      by (simp add: Cons.IH del: upt_Suc)
    also have "\<dots> = [k..<k + length (plan_from ns k (a # ids))]"
      using Some by (simp add: upt_conv_Cons del: upt_Suc)
    finally show ?thesis .
  qed
qed simp

section \<open>Within one run, one attempt fires once\<close>

lemma hash_digits_split:
  assumes "e @ ''#'' @ xs = e' @ ''#'' @ ys" "CHR ''#'' \<notin> set xs" "CHR ''#'' \<notin> set ys"
  shows "e = e' \<and> xs = ys"
proof -
  from assms(1) have "rev xs @ CHR ''#'' # rev e = rev ys @ CHR ''#'' # rev e'"
    by (metis append.assoc append_Cons append_Nil rev.simps(2) rev_append rev_rev_ident)
  moreover have "takeWhile (\<lambda>c. c \<noteq> CHR ''#'') (rev zs @ CHR ''#'' # t) = rev zs" if "CHR ''#'' \<notin> set zs" for zs t
    using that by (subst takeWhile_append2) auto
  ultimately have "rev xs = rev ys" using assms(2,3) by metis
  with assms(1) show ?thesis by simp
qed

lemma flight_key_inj: "flight_key e a = flight_key e' a' \<longleftrightarrow> e = e' \<and> a = a'"
proof -
  have "CHR ''#'' \<notin> set (nat_string n)" for n
    using nat_string_digits [of "CHR ''#''" n] by (auto simp: is_digit_def)
  then show ?thesis
    unfolding flight_key_def using hash_digits_split [of e "nat_string a" e' "nat_string a'"]
    by (auto dest: nat_string_inj)
qed

datatype ledger_step =
    Claim effect_row
  | Answer string string nat fetch_outcome bool

fun ledger_run :: "ledger_step list \<Rightarrow> world \<Rightarrow> (string \<times> string \<times> nat) list \<times> world" where
  "ledger_run [] w = ([], w)"
| "ledger_run (Claim row # ss) w =
     (let (c, w1) = claim_attempt row w; (ks, w2) = ledger_run ss w1
      in (case c of Fires \<Rightarrow> (effect_key row # ks, w2) | _ \<Rightarrow> (ks, w2)))"
| "ledger_run (Answer rid eid att out again # ss) w = ledger_run ss (record_attempt rid eid att out again w)"

text \<open>Every open attempt of the run is in flight in this process.\<close>

definition flights_ok :: "string \<Rightarrow> world \<Rightarrow> bool" where
  "flights_ok rid w \<longleftrightarrow> (\<forall>f \<in> set (t_effects w). f_run f = rid \<and> f_outcome f = None \<longrightarrow>
     flight_key (f_id f) (f_attempt f) \<in> set (w_inflight w))"

definition of_run :: "string \<Rightarrow> ledger_step \<Rightarrow> bool" where
  "of_run rid s \<longleftrightarrow> (case s of Claim row \<Rightarrow> f_run row = rid \<and> f_outcome row = None | Answer r _ _ _ _ \<Rightarrow> r = rid)"

definition effect_present :: "string \<times> string \<times> nat \<Rightarrow> world \<Rightarrow> bool" where
  "effect_present k w \<longleftrightarrow> (\<exists>f \<in> set (t_effects w). effect_key f = k)"

lemma claim_attempt_cases:
  obtains (fresh) "\<not> effect_present (effect_key row) w"
      "claim_attempt row w = (Fires, w\<lparr>t_effects := t_effects w @ [row],
         w_inflight := push_new (flight_key (f_id row) (f_attempt row)) (w_inflight w)\<rparr>)"
  | (held) f where "f \<in> set (t_effects w)" "effect_key f = effect_key row"
      "claimEffect row w = ((f, False), w)"
proof (cases "find (\<lambda>f. effect_key f = effect_key row) (t_effects w)")
  case None
  then have "\<not> effect_present (effect_key row) w" by (auto simp: effect_present_def find_None_iff)
  with None show ?thesis
    by (intro fresh) (simp_all add: claim_attempt_def claimEffect_def Let_def split: option.splits)
next
  case (Some f)
  then have "claimEffect row w = ((f, False), w)" by (simp add: claimEffect_def)
  moreover from Some have "f \<in> set (t_effects w)" "effect_key f = effect_key row"
    by (auto simp: find_Some_iff)
  ultimately show ?thesis by (intro held [of f])
qed

lemma claim_held_does_not_fire:
  assumes "flights_ok rid w" "f \<in> set (t_effects w)" "effect_key f = effect_key row"
    "claimEffect row w = ((f, False), w)" "f_run row = rid"
  shows "fst (claim_attempt row w) \<noteq> Fires \<and> snd (claim_attempt row w) = w"
proof (cases "f_outcome f")
  case (Some oc)
  with assms(4) show ?thesis by (simp add: claim_attempt_def)
next
  case None
  from assms have "flight_key (f_id row) (f_attempt row) \<in> set (w_inflight w)"
    using None by (auto simp: flights_ok_def effect_key_def)
  with None assms(4) show ?thesis by (simp add: claim_attempt_def)
qed

lemma flights_ok_claim:
  assumes ok: "flights_ok rid w" and row: "f_run row = rid"
  shows "flights_ok rid (snd (claim_attempt row w))"
proof (cases rule: claim_attempt_cases [of row w])
  case fresh
  with ok show ?thesis by (auto simp: flights_ok_def)
next
  case (held f)
  with claim_held_does_not_fire [OF ok held row] ok show ?thesis by simp
qed

lemma record_attempt_effects:
  "t_effects (record_attempt rid eid att out again w) = map (\<lambda>f. if effect_key f = (rid, eid, att)
     then f\<lparr>f_state := (if fx_error out = None \<and> \<not> gateway_retry out again then ''completed'' else ''released''),
            f_outcome := Some (outcome_json out)\<rparr> else f) (t_effects w)"
  by (simp add: record_attempt_def updateEffect_def Let_def)

lemma record_attempt_key: "effect_present k (record_attempt rid eid att out again w) = effect_present k w"
proof -
  let ?g = "\<lambda>f. if effect_key f = (rid, eid, att)
     then f\<lparr>f_state := (if fx_error out = None \<and> \<not> gateway_retry out again then ''completed'' else ''released''),
            f_outcome := Some (outcome_json out)\<rparr> else f"
  have key: "effect_key (?g f) = effect_key f" for f by (simp add: effect_key_def)
  show ?thesis unfolding effect_present_def record_attempt_effects set_map bex_simps key ..
qed

lemma flights_ok_record:
  assumes "flights_ok rid w"
  shows "flights_ok rid (record_attempt rid eid att out again w)"
  unfolding flights_ok_def
proof (intro ballI impI)
  fix g
  assume g: "g \<in> set (t_effects (record_attempt rid eid att out again w))" and own: "f_run g = rid \<and> f_outcome g = None"
  from g obtain f where f: "f \<in> set (t_effects w)" and gf: "g = (if effect_key f = (rid, eid, att)
      then f\<lparr>f_state := (if fx_error out = None \<and> \<not> gateway_retry out again then ''completed'' else ''released''),
            f_outcome := Some (outcome_json out)\<rparr> else f)"
    unfolding record_attempt_effects set_map by (elim imageE)
  have other: "effect_key f \<noteq> (rid, eid, att)"
  proof
    assume "effect_key f = (rid, eid, att)"
    with gf have "f_outcome g = Some (outcome_json out)" by simp
    with own show False by simp
  qed
  with gf have eq: "g = f" by simp
  with assms f own have "flight_key (f_id g) (f_attempt g) \<in> set (w_inflight w)"
    by (simp add: flights_ok_def)
  moreover have "flight_key (f_id g) (f_attempt g) \<noteq> flight_key eid att"
    using other eq own by (auto simp: flight_key_inj effect_key_def)
  ultimately show "flight_key (f_id g) (f_attempt g) \<in> set (w_inflight (record_attempt rid eid att out again w))"
    by (simp add: record_attempt_def Let_def updateEffect_def)
qed

lemma claim_attempt_present:
  "effect_present (effect_key row) (snd (claim_attempt row w))"
  "effect_present k w \<Longrightarrow> effect_present k (snd (claim_attempt row w))"
proof -
  have p: "t_effects (snd (claim_attempt row w)) = t_effects (snd (claimEffect row w))"
    by (simp add: claim_attempt_def split_beta Let_def split: bool.split option.split)
  show "effect_present (effect_key row) (snd (claim_attempt row w))"
    unfolding effect_present_def p by (auto simp: claimEffect_def find_Some_iff split: option.split)
  show "effect_present k w \<Longrightarrow> effect_present k (snd (claim_attempt row w))"
    unfolding effect_present_def p by (auto simp: claimEffect_def split: option.split)
qed

lemma ledger_run_fires:
  assumes "flights_ok rid w" "\<forall>s \<in> set ss. of_run rid s"
  shows "distinct (fst (ledger_run ss w)) \<and> (\<forall>k \<in> set (fst (ledger_run ss w)). \<not> effect_present k w)"
  using assms
proof (induction ss arbitrary: w)
  case (Cons s ss)
  show ?case
  proof (cases s)
    case (Claim row)
    with Cons.prems have row: "f_run row = rid" by (simp add: of_run_def)
    obtain c w1 where c: "claim_attempt row w = (c, w1)" by force
    have ok: "flights_ok rid w1" using flights_ok_claim [OF Cons.prems(1) row] c by simp
    from Cons.IH [OF ok] Cons.prems have IH: "distinct (fst (ledger_run ss w1))"
      "\<forall>k \<in> set (fst (ledger_run ss w1)). \<not> effect_present k w1" by auto
    have keep: "effect_present k w \<Longrightarrow> effect_present k w1" for k
      using claim_attempt_present(2) [of k w row] c by simp
    have own: "effect_present (effect_key row) w1" using claim_attempt_present(1) [of row w] c by simp
    have new: "\<not> effect_present (effect_key row) w" if "c = Fires"
      using that c claim_held_does_not_fire [OF Cons.prems(1) _ _ _ row]
      by (cases rule: claim_attempt_cases [of row w]) auto
    show ?thesis using IH keep own new
      by (cases c) (auto simp: Claim c split_beta Let_def)
  next
    case (Answer r eid att out again)
    with Cons.prems have "r = rid" by (simp add: of_run_def)
    with Answer Cons.IH [OF flights_ok_record [OF Cons.prems(1)]] Cons.prems show ?thesis
      by (simp add: record_attempt_key)
  qed
qed simp

section \<open>The budget bounds the tool calls\<close>

lemma beforeToolCall_refuses:
  assumes "policyOf r = Some p" "bp_max p = Some lim" "readLog h r w = (evs, w1)" "lim \<le> tool_calls evs"
  shows "fst (beforeToolCall h r nid w) = Some lim"
  using assms by (simp add: beforeToolCall_def Let_def)

lemma beforeToolCall_admits:
  assumes "policyOf r = Some p" "bp_max p = Some lim" "readLog h r w = (evs, w1)" "fst (beforeToolCall h r nid w) = None"
  shows "tool_calls evs < lim \<and> snd (beforeToolCall h r nid w) = w1"
  using assms by (auto simp: beforeToolCall_def Let_def split: if_splits)

end
