(* ===== verification/Nodes.thy ===== *)
theory Nodes
  imports Effects
begin

text \<open>
  Executing one node: \<open>executeNode\<close> of \<open>executor.ts\<close> with every node type it dispatches on,
  the deterministic re-entry key, the interrupts the gates raise, the conversation mock and
  the declared nondeterminism of \<open>nondeterminism.ts\<close>. What reaches outside the process (a
  request, a poll of the clock while sleeping, the credential store's refresh, the nested
  protocol clients) arrives in an environment record.
\<close>

section \<open>Results and the environment of a visit\<close>

datatype node_result =
    Outputs json
  | Suspend interrupt_payload
  | NodeCancelled
  | NodePaused
  | Threw exn

datatype sleep_result = SleptDone | SleptCancelled | SleptPaused

datatype acquire_result =
    AcqUnsupported
  | AcqOk string
  | AcqFail string "string option"

record node_env =
  en_polls :: "(run_row option \<times> bool) list"
  en_net :: "nat \<Rightarrow> net_reply"
  en_holder :: fetch_outcome
  en_call :: "exn + json"
  en_acquire :: acquire_result
  en_interrupt_advertised :: bool
  en_connect_url :: string
  en_draws :: "string \<times> string \<times> string"

text \<open>
  \<open>sleepUnlessCancelled\<close>: the rows the loop reads until its deadline, each with whether the
  requested pause policy was \<open>immediate\<close> at that moment.
\<close>

fun sleepUnlessCancelled :: "(run_row option \<times> bool) list \<Rightarrow> sleep_result" where
  "sleepUnlessCancelled [] = SleptDone"
| "sleepUnlessCancelled ((fresh, immediate) # polls) =
     (case fresh of None \<Rightarrow> SleptCancelled
      | Some r \<Rightarrow> if r_cancel r \<or> terminal_status (r_status r) then SleptCancelled
          else if r_pause r \<and> immediate then SleptPaused
          else sleepUnlessCancelled polls)"

section \<open>The chain of replay sources\<close>

text \<open>
  \<open>keyRunId\<close>, \<open>recordedResolution\<close> and \<open>recorded\<close> follow \<open>source_run_id\<close> while the run is a
  replay. The fuel is the number of runs; \<open>chain_enough\<close> below shows that it suffices.
\<close>

definition replay_source :: "run_row \<Rightarrow> 'a store_scheme \<Rightarrow> run_row option" where
  "replay_source r s = (if r_fork_mode r = Some ''replay''
     then (case r_source r of None \<Rightarrow> None | Some src \<Rightarrow> getRun src s) else None)"

fun chain_from :: "nat \<Rightarrow> run_row \<Rightarrow> 'a store_scheme \<Rightarrow> run_row list" where
  "chain_from 0 r s = [r]"
| "chain_from (Suc k) r s = r # (case replay_source r s of None \<Rightarrow> [] | Some q \<Rightarrow> chain_from k q s)"

definition replay_chain :: "run_row \<Rightarrow> 'a store_scheme \<Rightarrow> run_row list" where
  "replay_chain r s = chain_from (length (t_runs s)) r s"

definition keyRunId :: "run_row \<Rightarrow> 'a store_scheme \<Rightarrow> string" where
  "keyRunId r s = run_id (last (replay_chain r s))"

definition visit_key :: "run_row \<Rightarrow> string \<Rightarrow> nat \<Rightarrow> 'a store_scheme \<Rightarrow> string" where
  "visit_key r nid visit s = keyRunId r s @ '':'' @ nid @ '':'' @ nat_string visit"

definition suspended_with :: "string \<Rightarrow> event_doc \<Rightarrow> bool" where
  "suspended_with k e \<longleftrightarrow> doc_type e = NODE_SUSPENDED \<and> jfield (doc_payload e) ''key'' = Some (JStr k)"

definition resolved_as :: "json option \<Rightarrow> event_doc \<Rightarrow> bool" where
  "resolved_as iid e \<longleftrightarrow> doc_type e = INTERRUPT_RESOLVED \<and> jfield (doc_payload e) ''interruptId'' = iid"

fun recorded_in :: "host \<Rightarrow> string \<Rightarrow> run_row list \<Rightarrow> world \<Rightarrow> (json \<times> json) option \<times> world" where
  "recorded_in h key [] w = (None, w)"
| "recorded_in h key (r # rs) w =
     (let (evs, w1) = readLog h r w
      in case find (suspended_with key) evs of
           None \<Rightarrow> recorded_in h key rs w1
         | Some sus \<Rightarrow>
            (case find (resolved_as (jfield (doc_payload sus) ''interruptId'')) evs of
               None \<Rightarrow> recorded_in h key rs w1
             | Some res \<Rightarrow> (Some (doc_payload sus, doc_payload res), w1)))"

definition recordedResolution :: "host \<Rightarrow> run_row \<Rightarrow> string \<Rightarrow> world \<Rightarrow> (json \<times> json) option \<times> world" where
  "recordedResolution h r key w = recorded_in h key (replay_chain r w) w"

section \<open>What a gate raises\<close>

definition node_failure :: "string \<Rightarrow> string \<Rightarrow> json option \<Rightarrow> exn + 'a" where
  "node_failure c m d = Inl (NodeFailure c m d)"

definition jstr_or :: "json option \<Rightarrow> string \<Rightarrow> string" where
  "jstr_or v d = js_String (nullish v (Some (JStr d)))"

definition type_details :: "wf_node \<Rightarrow> json option" where
  "type_details n = Some (JObj [(''typeId'', JStr (nd_type n))])"

definition only_if :: "bool \<Rightarrow> json option \<Rightarrow> json option" where
  "only_if b v = (if b then v else None)"

fun is_arr :: "json option \<Rightarrow> bool" where
  "is_arr (Some (JArr _)) = True"
| "is_arr _ = False"

definition approval_data :: "wf_node \<Rightarrow> json" where
  "approval_data n = (let c = (\<lambda>k. map_of (nd_config n) k) in
     jobj [(''artifactId'', Some (JStr (nd_id n))), (''artifactType'', Some (JStr ''conformance-artifact'')),
       (''title'', Some (JStr (jstr_or (c ''title'') (''Approve '' @ nd_id n)))),
       (''actions'', if is_arr (c ''actions'') then c ''actions'' else Some (JArr [JStr ''accept'', JStr ''reject''])),
       (''description'', only_if (is_str (c ''description'')) (c ''description'')),
       (''approversList'', only_if (is_arr (c ''approversList'')) (c ''approversList'')),
       (''requiredApprovals'', only_if (is_num (c ''requiredApprovals'')) (c ''requiredApprovals'')),
       (''rejectionPolicy'', only_if (c ''rejectionPolicy'' = Some (JStr ''single-veto'')
            \<or> c ''rejectionPolicy'' = Some (JStr ''majority'')) (c ''rejectionPolicy'')),
       (''onTimeout'', only_if (is_str (c ''onTimeout'')) (c ''onTimeout''))])"

definition clarification_for :: "host \<Rightarrow> wf_node \<Rightarrow> string \<Rightarrow> exn + interrupt_payload" where
  "clarification_for h n key =
     (let c = (\<lambda>k. map_of (nd_config n) k);
          questions = (case c ''questions'' of Some (JArr xs) \<Rightarrow> xs
             | _ \<Rightarrow> [JObj [(''id'', JStr ''q1''), (''question'', JStr (jstr_or (c ''question'') ''Please clarify''))]])
      in case c ''form'' of
           None \<Rightarrow> Inr \<lparr>ip_kind = ''clarification'', ip_key = key, ip_data = JObj [(''questions'', JArr questions)],
                     ip_timeout = None, ip_schema = None\<rparr>
         | Some form \<Rightarrow>
            (case h_forms h of
               None \<Rightarrow> node_failure ''capability_not_provided'' ''this host cannot check a clarification form, so it raises none'' (type_details n)
             | Some check \<Rightarrow>
                (case check form (map (\<lambda>q. js_String (jfield q ''id'')) questions) of
                   Some reason \<Rightarrow> node_failure ''node_config_invalid'' reason (Some (JObj [(''field'', JStr ''config.form'')]))
                 | None \<Rightarrow> Inr \<lparr>ip_kind = ''clarification'', ip_key = key,
                      ip_data = JObj [(''questions'', JArr questions), (''form'', form)],
                      ip_timeout = None, ip_schema = None\<rparr>)))"

definition interruptFor :: "host \<Rightarrow> wf_node \<Rightarrow> run_row \<Rightarrow> nat \<Rightarrow> world \<Rightarrow> exn + interrupt_payload" where
  "interruptFor h n r visit w =
     (let key = visit_key r (nd_id n) visit w; c = (\<lambda>k. map_of (nd_config n) k)
      in if nd_type n = ''core.approvalGate'' then
           Inr \<lparr>ip_kind = ''approval'', ip_key = key, ip_data = approval_data n,
             ip_timeout = (case c ''timeoutMs'' of Some (JNum t) \<Rightarrow> if t > 0 then Some t else None | _ \<Rightarrow> None),
             ip_schema = None\<rparr>
         else if nd_type n = ''core.clarificationGate'' then clarification_for h n key
         else Inr \<lparr>ip_kind = jstr_or (c ''kind'') ''custom'', ip_key = key,
             ip_data = (case nullish (c ''data'') (Some (JObj [(''customKind'', JStr (nd_id n))])) of Some j \<Rightarrow> j | None \<Rightarrow> JNull),
             ip_timeout = num_of (c ''timeoutMs''),
             ip_schema = only_if (is_object (c ''resumeSchema'')) (c ''resumeSchema'')\<rparr>)"

section \<open>Conversations\<close>

definition turn_json :: "host \<Rightarrow> string \<Rightarrow> string \<Rightarrow> string \<Rightarrow> nat \<Rightarrow> string \<Rightarrow> nat \<Rightarrow> json" where
  "turn_json h mid speaker content ts role ix =
     jobj [(''messageId'', Some (JStr mid)), (''from'', Some (JStr speaker)), (''content'', Some (JStr content)),
       (''ts'', Some (JNum (int ts))), (''role'', Some (JStr role)), (''turnIndex'', Some (JNum (int ix))),
       (''speakerId'', Some (JStr speaker)),
       (''parts'', only_if (a_parts (h_art h)) (Some (JArr [JObj [(''text'', JStr content)]])))]"

definition runConversation :: "host \<Rightarrow> run_row \<Rightarrow> wf_node \<Rightarrow> world \<Rightarrow> node_result \<times> world" where
  "runConversation h r n w =
     (if map_of (nd_config n) ''lifecycle'' \<noteq> Some (JStr ''open-exchange-close'')
         \<or> map_of (nd_config n) ''mockAutoResume'' \<noteq> Some (JBool True)
      then (Threw (NodeFailure ''node_config_invalid'' ''core.conversationGate is executed only as open-exchange-close with mockAutoResume (the conformance mock)'' (type_details n)), w)
      else
        let cid = conversationIdFor r (nd_id n); ok = on_node (nd_id n);
            turn = turn_json h (cid @ '':1:agent'') ''host:conformance-mock'' ''Conformance mock reply.'' (w_clock w) ''agent'' 1
        in (Outputs (JObj [(''conversationId'', JStr cid), (''turnCount'', JNum 1)]),
            emit h r CONV_CLOSED (JObj [(''conversationId'', JStr cid), (''reason'', JStr ''goal-reached''), (''turnCount'', JNum 1)]) ok
             (emit h r CONV_EXCHANGED (JObj [(''conversationId'', JStr cid), (''turnIndex'', JNum 1), (''turn'', turn)]) ok
               (emit h r CONV_OPENED (JObj [(''conversationId'', JStr cid)]) ok w))))"

definition council_schema :: json where
  "council_schema = JObj [(''type'', JStr ''object''), (''required'', JArr [JStr ''speakerId'', JStr ''content'']),
     (''properties'', JObj [(''role'', JObj [(''type'', JStr ''string'')]), (''speakerId'', JObj [(''type'', JStr ''string'')]),
        (''content'', JObj [(''type'', JStr ''string'')])])]"

definition openCouncil :: "host \<Rightarrow> run_row \<Rightarrow> wf_node \<Rightarrow> nat \<Rightarrow> world \<Rightarrow> node_result \<times> world" where
  "openCouncil h r n visit w =
     (let cid = conversationIdFor r (nd_id n);
          w1 = emit h r CONV_OPENED (JObj [(''conversationId'', JStr cid),
                 (''participants'', JArr (map (\<lambda>a. JObj [(''agentId'', JStr a)]) (rosterOf n)))]) (on_node (nd_id n)) w
      in (Suspend \<lparr>ip_kind = ''conversation.exchange'', ip_key = visit_key r (nd_id n) visit w1,
            ip_data = JObj [(''conversationId'', JStr cid),
              (''prompt'', JStr (jstr_or (map_of (nd_config n) ''prompt'') ''The council takes its turn.'')), (''turnIndex'', JNum 0)],
            ip_timeout = None, ip_schema = Some council_schema\<rparr>, w1))"

section \<open>Credentials and declared nondeterminism\<close>

definition credential_schema :: json where
  "credential_schema = JObj [(''type'', JStr ''object''), (''additionalProperties'', JBool False),
     (''required'', JArr [JStr ''outcome'']),
     (''properties'', JObj [(''outcome'', JObj [(''enum'', JArr [JStr ''authorized'', JStr ''declined''])])])]"

text \<open>\<open>xs.join(', ')\<close>.\<close>

definition comma_join :: "string list \<Rightarrow> string" where
  "comma_join xs = concat (case xs of [] \<Rightarrow> [] | x # r \<Rightarrow> x # map (\<lambda>y. '', '' @ y) r)"

definition useCredential :: "run_row \<Rightarrow> wf_node \<Rightarrow> nat \<Rightarrow> node_env \<Rightarrow> world \<Rightarrow> node_result" where
  "useCredential r n visit en w =
     (let auth = nullish (map_of (nd_config n) ''auth'') (Some (JObj []));
          prov = (case str_of (jget auth ''provider'') of Some p \<Rightarrow> p | None \<Rightarrow> []);
          scopes = (case jget auth ''scopes'' of Some (JArr xs) \<Rightarrow> map js_string xs | _ \<Rightarrow> []);
          named = Some (JObj [(''provider'', JStr prov)])
      in if en_acquire en = AcqUnsupported \<or> jget auth ''type'' \<noteq> Some (JStr ''oauth2'')
         then Threw (NodeFailure ''oauth_provider_unsupported'' (''provider '' @ prov @ '' is not in oauth.providers'') named)
         else case en_acquire en of
           AcqOk ref \<Rightarrow> Outputs (JObj [(''provider'', JStr prov), (''credentialRef'', JStr ref)])
         | AcqFail reason ref \<Rightarrow>
            (if \<not> en_interrupt_advertised en then
               (if reason = ''expired''
                then Threw (NodeFailure ''connector_auth_expired'' (''the '' @ prov @ '' credential's refresh failed terminally'') named)
                else Threw (NodeFailure ''credential_required'' (''no '' @ prov @ '' credential with scopes ['' @ comma_join scopes @ ''] resolves for the run's Subject'') named))
             else Suspend \<lparr>ip_kind = ''credential'', ip_key = visit_key r (nd_id n) visit w,
                ip_data = jobj [(''provider'', Some (JStr prov)), (''scopes'', Some (JArr (map JStr scopes))),
                  (''reason'', Some (JStr reason)), (''connectUrl'', Some (JStr (en_connect_url en))),
                  (''credentialRef'', map_option (\<lambda>x. JObj [(''ref'', JStr x), (''scope'', JStr ''user'')]) ref)],
                ip_timeout = None, ip_schema = Some credential_schema\<rparr>)
         | AcqUnsupported \<Rightarrow> Threw (JsError ''unreachable''))"

definition DECLARED_SOURCES :: "string list" where
  "DECLARED_SOURCES = [''clock'', ''random'', ''id'']"

definition completion_of :: "string \<Rightarrow> event_doc \<Rightarrow> bool" where
  "completion_of nid e \<longleftrightarrow> doc_type e = NODE_COMPLETED \<and> jfield (doc_payload e) ''nodeId'' = Some (JStr nid)"

fun draws_in :: "host \<Rightarrow> string \<Rightarrow> nat \<Rightarrow> run_row list \<Rightarrow> world \<Rightarrow> json option \<times> world" where
  "draws_in h nid ex [] w = (None, w)"
| "draws_in h nid ex (r # rs) w =
     (let (evs, w1) = readLog h r w; don = filter (completion_of nid) evs
      in if 0 < ex \<and> ex - 1 < length don
         then (nullish (jfield (doc_payload (don ! (ex - 1))) ''outputs'') (Some (JObj [])), w1)
         else draws_in h nid ex rs w1)"

definition recorded_draws :: "host \<Rightarrow> run_row \<Rightarrow> string \<Rightarrow> nat \<Rightarrow> world \<Rightarrow> json option \<times> world" where
  "recorded_draws h r nid ex w =
     (case r_source r of None \<Rightarrow> (None, w)
      | Some src \<Rightarrow> (case getRun src w of None \<Rightarrow> (None, w) | Some q \<Rightarrow> draws_in h nid ex (replay_chain q w) w))"

text \<open>\<open>None\<close> is \<open>{ missing: true }\<close>.\<close>

definition runNondeterminism :: "host \<Rightarrow> run_row \<Rightarrow> wf_node \<Rightarrow> nat \<Rightarrow> string \<times> string \<times> string \<Rightarrow> world \<Rightarrow> json option \<times> world" where
  "runNondeterminism h r n ex draws w =
     (if r_fork_mode r = Some ''replay'' then
        (case recorded_draws h r (nd_id n) ex w of
           (None, w1) \<Rightarrow> (None, w1)
         | (Some p, w1) \<Rightarrow> (Some (jobj (map (\<lambda>k. (k, jfield p k)) DECLARED_SOURCES)), w1))
      else (case draws of (c, rnd, i) \<Rightarrow>
        (Some (JObj [(''clock'', JStr c), (''random'', JStr rnd), (''id'', JStr i)]), w)))"

section \<open>The scripted tool calls\<close>

fun run_tool_calls :: "host \<Rightarrow> run_row \<Rightarrow> wf_node \<Rightarrow> string \<Rightarrow> nat \<Rightarrow> nat \<Rightarrow> json list \<Rightarrow> world \<Rightarrow> exn option \<times> world" where
  "run_tool_calls h r n agent ex i [] w = (None, w)"
| "run_tool_calls h r n agent ex i (call # calls) w =
     (case beforeToolCall h r (nd_id n) w of
        (Some lim, w1) \<Rightarrow> (Some (NodeFailure ''budget_exhausted'' (''the run's budget allows '' @ int_string lim @ '' tool call(s); call '' @
              int_string (tool_calls (fst (readLog h r w)) + 1) @ '' does not fit'')
            (Some (JObj [(''dimension'', JStr ''toolCalls''), (''limit'', JNum lim)]))), w1)
      | (None, w1) \<Rightarrow>
         (let w2 = (if call = JNull then raise_exn (JsError ''TypeError'') w1 else w1);
              tool = jstr_or (jfield call ''toolId'') ''unnamed'';
              cid = nd_id n @ ''.'' @ nat_string ex @ ''.'' @ nat_string (i + 1);
              w3 = emit h r TOOL_CALLED (jobj [(''agentId'', Some (JStr agent)), (''toolName'', Some (JStr tool)),
                     (''callId'', Some (JStr cid)), (''inputs'', nullish (jfield call ''arguments'') (Some (JObj [])))]) (on_node (nd_id n)) w2;
              w4 = afterToolCall h r (nd_id n) w3;
              w5 = emit h r TOOL_RETURNED (jobj [(''agentId'', Some (JStr agent)), (''toolName'', Some (JStr tool)),
                     (''callId'', Some (JStr cid)), (''outcome'', nullish (jfield call ''result'') (Some JNull)),
                     (''durationMs'', Some (JNum (case jfield call ''durationMs'' of Some (JNum k) \<Rightarrow> k | _ \<Rightarrow> 0)))]) (on_node (nd_id n)) w4
          in run_tool_calls h r n agent ex (Suc i) calls w5))"

definition mockAgent :: "host \<Rightarrow> run_row \<Rightarrow> wf_node \<Rightarrow> nat \<Rightarrow> world \<Rightarrow> node_result \<times> world" where
  "mockAgent h r n ex w =
     (let agent = (case nd_agent n of Some a \<Rightarrow> a | None \<Rightarrow> ''core.conformance.'' @ nd_id n);
          calls = (case map_of (nd_config n) ''mockToolCalls'' of Some (JArr xs) \<Rightarrow> xs | _ \<Rightarrow> []);
          (failure, w1) = run_tool_calls h r n agent ex 0 calls w;
          decision = map_of (nd_config n) ''mockDecision''
      in case failure of
           Some e \<Rightarrow> (Threw e, w1)
         | None \<Rightarrow> (Outputs (JObj [(''toolCalls'', JNum (int (length calls)))]),
              if is_object decision
              then emit h r AGENT_DECIDED (jobj [(''agentId'', Some (JStr agent)),
                     (''decision'', nullish (jget decision ''decision'') (Some JNull)),
                     (''confidence'', only_if (is_num (jget decision ''confidence'')) (jget decision ''confidence''))]) (on_node (nd_id n)) w1
              else w1))"

section \<open>Dispatch\<close>

definition echo_inputs :: "wf_node \<Rightarrow> run_row \<Rightarrow> wf_def \<Rightarrow> json" where
  "echo_inputs n r d = jobj (map (\<lambda>k. (k, resolveInput n k r d)) (map fst (nd_inputs n)))"

definition delay_of :: "json option \<Rightarrow> int \<Rightarrow> json" where
  "delay_of v dflt = (case js_Number (nullish v (Some (JNum dflt))) of None \<Rightarrow> JNull | Some k \<Rightarrow> JNum (clamp 0 60000 k))"

definition slept :: "node_env \<Rightarrow> json \<Rightarrow> node_result" where
  "slept en out = (case sleepUnlessCancelled (en_polls en) of
     SleptDone \<Rightarrow> Outputs out | SleptCancelled \<Rightarrow> NodeCancelled | SleptPaused \<Rightarrow> NodePaused)"

text \<open>\<open>{ ...r.outputs, effectId: r.effectId }\<close>, or the node's failure code.\<close>

definition fetch_node :: "fetch_result \<Rightarrow> string list \<Rightarrow> string \<Rightarrow> node_result" where
  "fetch_node fr codes dflt = (case fr of
     FetchDone out eid \<Rightarrow> Outputs (spread out [(''effectId'', JStr eid)])
   | FetchFails e \<Rightarrow> Threw (NodeFailure
       (case e of HostError c m d \<Rightarrow> if c \<in> set codes then c else dflt | _ \<Rightarrow> dflt) (exn_message e) None))"

definition as_node_failure :: "exn \<Rightarrow> node_result" where
  "as_node_failure e = Threw (case e of HostError c m d \<Rightarrow> NodeFailure c m d | x \<Rightarrow> x)"

definition MCP_METHODS :: "string list" where
  "MCP_METHODS = [''callTool'', ''listTools'', ''readResource'', ''serverHealth'']"

definition dispatch_node :: "host \<Rightarrow> run_row \<Rightarrow> wf_def \<Rightarrow> wf_node \<Rightarrow> nat \<Rightarrow> nat \<Rightarrow> node_env \<Rightarrow> world \<Rightarrow> node_result \<times> world" where
  "dispatch_node h r d n ex visit en w =
     (let t = nd_type n in
      if t = ''core.noop'' then (Outputs (JObj []), w)
      else if t = ''core.identity'' then (Outputs (echo_inputs n r d), w)
      else if t = ''core.delay'' then
        (slept en (JObj [(''sleptMs'', delay_of (resolveInput n ''delayMs'' r d) 1000)]), w)
      else if t = ''core.conformance.nondeterminism'' then
        (case runNondeterminism h r n ex (en_draws en) w of
           (None, w1) \<Rightarrow> (Threw (NodeFailure ''replay_source_missing'' (''the replay source recorded no draw for '' @ nd_id n @ '' execution '' @ nat_string ex) None), w1)
         | (Some out, w1) \<Rightarrow> (Outputs out, w1))
      else if t = ''core.conformance.a2a-invoke'' then
        (if map_of (nd_config n) ''forward'' \<noteq> Some (JStr ''inbound-message'')
         then (Threw (NodeFailure ''node_config_invalid'' (''this host runs core.conformance.a2a-invoke only with config.forward: '' @ quote_string ''inbound-message'') None), w)
         else if r_fork_mode r = Some ''replay''
         then (Outputs (JObj [(''relayed'', JNum 0), (''suppressed'', JBool True)]), w)
         else (case en_call en of Inr out \<Rightarrow> (Outputs out, w) | Inl e \<Rightarrow> (as_node_failure e, w)))
      else if t = ''core.conformance.side-effect'' then
        (let (fr, w1) = performConformanceSideEffect h r n ex w
         in (fetch_node fr [''replay_source_missing''] ''internal_error'', w1))
      else if t = ''core.conformance.hold'' then (slept en (echo_inputs n r d), w)
      else if t = ''core.conformance.mock-agent'' then mockAgent h r n ex w
      else if t = ''core.conformance.safefetch-probe'' then
        (case en_call en of
           Inr st \<Rightarrow> (Outputs (JObj [(''result'', JObj [(''status'', st)])]), w) | Inl e \<Rightarrow> (as_node_failure e, w))
      else if t = ''core.fail'' then
        (Threw (NodeFailure ''example.conformance_failure''
           (jstr_or (map_of (nd_config n) ''message'') ''Intentional conformance failure'') None), w)
      else if t = ''core.approvalGate'' \<or> t = ''core.clarificationGate'' \<or> t = ''core.interrupt'' then
        (case interruptFor h n r visit w of Inl e \<Rightarrow> (Threw e, w) | Inr p \<Rightarrow> (Suspend p, w))
      else if t = ''core.httpFetch'' then
        (let (fr, w1) = performHttpFetch h r n ex (en_net en) (en_holder en) w
         in (fetch_node fr [''replay_source_missing'', ''egress_denied'', ''upstream_unavailable''] ''upstream_unavailable'', w1))
      else if t = ''core.conformance.mcp-client'' then
        (if js_String (nullish (resolveInput n ''method'' r d) (Some (JStr []))) \<in> set MCP_METHODS
         then (case en_call en of Inr out \<Rightarrow> (Outputs (JObj [(''result'', out)]), w) | Inl e \<Rightarrow> (as_node_failure e, w))
         else (Threw (NodeFailure ''node_config_invalid'' (''unknown ctx.mcp method '' @ quote_string (js_String (nullish (resolveInput n ''method'' r d) (Some (JStr []))))) None), w))
      else if t = ''conformance.artifact.emit'' then
        (Outputs (JObj [(''artifactId'', JStr (''art-'' @ nd_id n))]),
         emit h r ARTIFACT_CREATED (jobj [(''artifactId'', Some (JStr (''art-'' @ nd_id n))),
           (''artifactType'', Some (JStr (jstr_or (map_of (nd_config n) ''artifactType'') ''conformance.artifact.brief''))),
           (''nodeId'', Some (JStr (nd_id n))), (''registered'', Some (JBool False)),
           (''summary'', only_if (is_str (map_of (nd_config n) ''summary'')) (map_of (nd_config n) ''summary''))]) (on_node (nd_id n)) w)
      else if t = ''core.conversationGate'' then
        (if isCouncilGate n \<and> councilSupported h then openCouncil h r n visit w else runConversation h r n w)
      else if t = ''conformance.oauth.use'' then (useCredential r n visit en w, w)
      else (Threw (NodeFailure ''capability_not_provided'' (nd_type n @ '' is not executed by this host (capability not provided)'') (type_details n)), w))"

text \<open>The \<open>try\<close> around the visit: an exception of the log is the node's outcome.\<close>

definition executeNode :: "host \<Rightarrow> run_row \<Rightarrow> wf_def \<Rightarrow> wf_node \<Rightarrow> nat \<Rightarrow> nat \<Rightarrow> node_env \<Rightarrow> world \<Rightarrow> node_result \<times> world" where
  "executeNode h r d n ex visit en w =
     (let (res, w1) = dispatch_node h r d n ex visit en w
      in case w_exc w1 of Some e \<Rightarrow> (Threw e, w1\<lparr>w_exc := None\<rparr>) | None \<Rightarrow> (res, w1))"

end
