(* ===== verification/Executor.thy ===== *)
theory Executor
  imports Nodes
begin

text \<open>
  The run executor of \<open>executor.ts\<close>: the status writes, the terminal paths, applying a
  resolution, and \<open>continueRun\<close>. The loop of \<open>continueRun\<close> is cut at its one \<open>await\<close>:
  \<open>enter_loop\<close> is what runs before it, \<open>loop_head\<close> one round up to the await of
  \<open>executeNode\<close>, \<open>after_visit\<close> the round's rest.
\<close>

section \<open>Status writes and terminal paths\<close>

definition setStatus :: "run_row \<Rightarrow> run_status \<Rightarrow> (run_row \<Rightarrow> run_row) \<Rightarrow> world \<Rightarrow> run_row \<times> world" where
  "setStatus r st patch w =
     (if w_exc w = None
      then (patch (r\<lparr>r_status := st\<rparr>), updateRun (w_clock w) (run_id r) (\<lambda>x. patch (x\<lparr>r_status := st\<rparr>)) w)
      else (r, w))"

definition invalidate :: "run_row \<Rightarrow> world \<Rightarrow> world" where
  "invalidate r = guarded (\<lambda>w. invalidateInterruptsForRun (w_clock w) (run_id r) w)"

definition duration :: "nat option \<Rightarrow> world \<Rightarrow> json" where
  "duration startedAt w = JNum (case startedAt of None \<Rightarrow> 0 | Some t \<Rightarrow> max 0 (int (w_clock w) - int t))"

definition terminalCancel :: "host \<Rightarrow> run_row \<Rightarrow> string \<Rightarrow> string \<Rightarrow> nat option \<Rightarrow> world \<Rightarrow> world" where
  "terminalCancel h r reason cancelledBy startedAt w =
     (let w1 = emit h r RUN_CANCELLED (JObj [(''reason'', JStr reason), (''cancelledBy'', JStr cancelledBy),
                 (''durationMs'', duration startedAt w)]) no_opts w;
          w2 = invalidate r w1
      in snd (setStatus r Cancelled (\<lambda>x. x\<lparr>r_completed := Some (w_clock w), r_node := None, r_cancel := False, r_pause := False\<rparr>) w2))"

definition compensation_id :: "run_row \<Rightarrow> string" where
  "compensation_id r = ''c-'' @ (case after_slash (run_id r) of Some x \<Rightarrow> x | None \<Rightarrow> [])"

definition unwind_attempt :: "nat \<Rightarrow> comp_step \<Rightarrow> comp_attempt" where
  "unwind_attempt now st = \<lparr>ca_node = cs_node st, ca_attempt = 1,
     ca_outcome = (if cs_irreversible st then ''skipped'' else ''succeeded''), ca_at = now,
     ca_reason = (if cs_irreversible st then Some ''irreversible-effect'' else None)\<rparr>"

definition keepAttempt :: "run_row \<Rightarrow> comp_state \<Rightarrow> world \<Rightarrow> run_row \<times> world" where
  "keepAttempt r st w = (if w_exc w = None then recordAttempt r st w else (r, w))"

fun unwind_steps :: "run_row \<Rightarrow> comp_state \<Rightarrow> comp_step list \<Rightarrow> world \<Rightarrow> comp_state \<times> run_row \<times> world" where
  "unwind_steps r st [] w = (st, r, w)"
| "unwind_steps r st (s # ss) w =
     (let st1 = st\<lparr>cm_attempts := cm_attempts st @ [unwind_attempt (w_clock w) s]\<rparr>;
          (r1, w1) = keepAttempt r st1 w
      in unwind_steps r1 st1 ss w1)"

definition ordering :: "run_row \<Rightarrow> (string \<times> json) list" where
  "ordering r = [(''compensationId'', JStr (compensation_id r)), (''orderingModel'', JStr ''reverse-completion'')]"

definition unwind :: "host \<Rightarrow> run_row \<Rightarrow> wf_def \<Rightarrow> string list \<Rightarrow> world \<Rightarrow> run_row \<times> world" where
  "unwind h r d completed w =
     (let plan = buildCompensationPlan (wf_nodes d) completed
      in if plan = [] then (r, w) else
      let st0 = (compensationState r)\<lparr>cm_status := ''pending'', cm_plan := plan\<rparr>;
          (r1, w1) = keepAttempt r st0 w;
          w2 = emit h r1 COMP_REQUESTED (JObj (ordering r1)) no_opts w1;
          st1 = st0\<lparr>cm_status := ''running''\<rparr>;
          (r2, w3) = keepAttempt r1 st1 w2;
          w4 = emit h r2 COMP_STARTED (JObj (ordering r2)) no_opts w3;
          (st2, r3, w5) = unwind_steps r2 st1 plan w4;
          failed = length (filter cs_irreversible plan);
          st3 = st2\<lparr>cm_status := (if failed = 0 then ''completed'' else if failed = length plan then ''failed'' else ''partial'')\<rparr>;
          (r4, w6) = keepAttempt r3 st3 w5
      in (r4, if failed = 0 then emit h r4 COMP_COMPLETED (JObj (ordering r4)) no_opts w6
              else emit h r4 COMP_FAILED (JObj (ordering r4 @ [(''reason'', JStr ''operator-terminated'')])) no_opts w6))"

section \<open>Failing a node\<close>

datatype fail_result = Routed | RunFailed

text \<open>The fold of a log the caller has no guard for: an untranslatable row propagates.\<close>

definition failNode :: "host \<Rightarrow> run_row \<Rightarrow> wf_def option \<Rightarrow> string \<Rightarrow> (string \<times> json) list \<Rightarrow> nat \<Rightarrow> bool \<Rightarrow> world
    \<Rightarrow> fail_result \<times> world" where
  "failNode h r d nid error attempts routable w =
     (let w1 = emit h r NODE_FAILED (JObj [(''nodeId'', JStr nid), (''error'', JObj error),
                 (''attempts'', JNum (int attempts))]) (on_node nid) w
      in if routable \<and> (case d of None \<Rightarrow> False | Some x \<Rightarrow> failureRouted x nid) then (Routed, w1) else
      let (st, w2) = fold_run h r w1;
          (r1, w3) = (case d of None \<Rightarrow> (r, w2) | Some x \<Rightarrow> unwind h r x (fo_completed st) w2);
          w4 = emit h r1 RUN_FAILED (JObj [(''error'', JObj error), (''failedNodeId'', JStr nid),
                 (''durationMs'', duration (fo_startedAt st) w3)]) no_opts w3;
          w5 = invalidate r1 w4
      in (RunFailed, snd (setStatus r1 Failed (\<lambda>x. x\<lparr>r_completed := Some (w_clock w5), r_node := None,
            r_error := Some (JObj (AList.delete ''retryable'' error))\<rparr>) w5)))"

section \<open>Applying a resolution\<close>

datatype apply_result = Resumed | ApplyRouted | ApplyFailed

definition resolution_error :: "json \<Rightarrow> (string \<times> json) list option" where
  "resolution_error resolved =
     (if jfield resolved ''kind'' = Some (JStr ''credential'')
         \<and> jget (jfield resolved ''resumeValue'') ''outcome'' = Some (JStr ''declined'')
      then Some [(''code'', JStr ''connector_auth_declined''), (''message'', JStr ''the user declined the credential interrupt'')]
      else if jfield resolved ''decision'' = Some (JStr ''rejected'')
      then Some [(''code'', JStr ''approval_rejected''),
         (''message'', JStr (if jfield resolved ''action'' = Some (JStr ''timeout'')
            then ''the approval gate timed out and resolved rejected'' else ''the approval was rejected'')),
         (''retryable'', JBool False)]
      else None)"

text \<open>The error branch that records \<open>approval.rejected\<close> first: an approval's rejection, once.\<close>

definition announces_rejection :: "json \<Rightarrow> bool \<Rightarrow> bool" where
  "announces_rejection resolved rejectedEmitted \<longleftrightarrow>
     \<not> (jfield resolved ''kind'' = Some (JStr ''credential'')
         \<and> jget (jfield resolved ''resumeValue'') ''outcome'' = Some (JStr ''declined''))
     \<and> jfield resolved ''decision'' = Some (JStr ''rejected'')
     \<and> jfield resolved ''kind'' = Some (JStr ''approval'') \<and> \<not> rejectedEmitted"

definition council_turn :: "host \<Rightarrow> run_row \<Rightarrow> string \<Rightarrow> json option \<Rightarrow> world \<Rightarrow> world" where
  "council_turn h r nid rv w =
     (let v = nullish rv (Some (JObj [])); cid = conversationIdFor r nid;
          speaker = js_String (jget v ''speakerId''); content = js_String (jget v ''content'');
          role = (if jget v ''role'' = Some (JStr ''user'') then ''user'' else ''agent'');
          turn = turn_json h (cid @ '':0:'' @ speaker) speaker content (w_clock w) role 0
      in emit h r CONV_CLOSED (JObj [(''conversationId'', JStr cid), (''reason'', JStr ''goal-reached''), (''turnCount'', JNum 1)]) (on_node nid)
          (emit h r CONV_EXCHANGED (JObj [(''conversationId'', JStr cid), (''turnIndex'', JNum 0), (''turn'', turn)]) (on_node nid) w))"

definition applyResolution :: "host \<Rightarrow> run_row \<Rightarrow> string \<Rightarrow> json \<Rightarrow> bool \<Rightarrow> world \<Rightarrow> apply_result \<times> world" where
  "applyResolution h r nid resolved rejectedEmitted w =
     (let rv = jfield resolved ''resumeValue'';
          w1 = (if announces_rejection resolved rejectedEmitted
                then emit h r APPROVAL_REJECTED resolved (on_node nid) w else w)
      in case resolution_error resolved of
           Some error \<Rightarrow>
             (case failNode h r (workflow_of h (r_workflow r)) nid error 1 True w1 of
                (Routed, w2) \<Rightarrow> (ApplyRouted, w2) | (RunFailed, w2) \<Rightarrow> (ApplyFailed, w2))
         | None \<Rightarrow>
             (let w2 = emit h r NODE_RESUMED (jobj [(''nodeId'', Some (JStr nid)),
                         (''interruptId'', jfield resolved ''interruptId''), (''resumeValue'', rv)]) (on_node nid) w1;
                  w3 = (if jfield resolved ''kind'' = Some (JStr ''conversation.exchange'') then council_turn h r nid rv w2 else w2)
              in (Resumed, emit h r NODE_COMPLETED (JObj [(''nodeId'', JStr nid),
                    (''outputs'', jobj [(''resumeValue'', rv)])]) (on_node nid) w3)))"

section \<open>Completing a run\<close>

definition sink_ids :: "wf_def \<Rightarrow> string list" where
  "sink_ids d = filter (\<lambda>n. n \<notin> l_from ` set (links d)) (node_ids d)"

definition allTerminalsSkipped :: "wf_def \<Rightarrow> outcomes \<Rightarrow> string list option" where
  "allTerminalsSkipped d st =
     (let terminals = sink_ids d
      in if terminals = [] \<or> oc_failed st \<noteq> [] \<or> (\<exists>n \<in> set terminals. n \<in> set (oc_completed st))
         then None else Some terminals)"

definition latest_outputs :: "event_doc list \<Rightarrow> (string \<times> json) list" where
  "latest_outputs es = fold (\<lambda>e m. if doc_type e \<noteq> NODE_COMPLETED then m else
     (case (jfield (doc_payload e) ''nodeId'', jfield (doc_payload e) ''outputs'') of
        (Some (JStr n), ov) \<Rightarrow> if is_object ov then AList.update n (or_null ov) m else m
      | _ \<Rightarrow> m)) es []"

definition runOutputs :: "wf_def \<Rightarrow> event_doc list \<Rightarrow> json" where
  "runOutputs d es =
     JObj (fold (\<lambda>n m. fold (\<lambda>(k, v). AList.update k v) (members_of (map_of (latest_outputs es) n)) m) (sink_ids d) [])"

section \<open>Entering the loop\<close>

definition TRANSPORTS :: "string list" where "TRANSPORTS = [''rest'', ''mcp'', ''a2a'', ''ui'']"

definition runTransport :: "json option \<Rightarrow> string" where
  "runTransport t = (case t of Some (JStr s) \<Rightarrow> if s \<in> set TRANSPORTS then s else ''rest'' | _ \<Rightarrow> ''rest'')"

record loop_ctx =
  lc_run :: string
  lc_def :: wf_def
  lc_order :: "wf_node list"
  lc_limit :: nat
  lc_started :: "nat option"

definition settled_status :: "run_status \<Rightarrow> bool" where
  "settled_status st \<longleftrightarrow> terminal_status st \<or> st = Paused \<or> waiting_status st"

definition missing_workflow :: "run_row \<Rightarrow> json" where
  "missing_workflow r = JObj [(''code'', JStr ''not_found''),
     (''message'', JStr (''workflow '' @ r_workflow r @ '' is not registered''))]"

definition start_payload :: "run_row \<Rightarrow> json \<Rightarrow> json" where
  "start_payload r ow = jobj [(''workflowId'', Some (JStr (r_workflow r))), (''inputs'', Some (r_inputs r)),
     (''transport'', Some (JStr (runTransport (jfield (r_options r) ''transport'')))), (''engineVersion'', Some (JNum 1)),
     (''owner'', Some ow),
     (''tags'', only_if (truthy (jfield (r_options r) ''tags'')) (jfield (r_options r) ''tags'')),
     (''metadata'', only_if (truthy (jfield (r_options r) ''metadata'')) (jfield (r_options r) ''metadata''))]"

definition start_run :: "host \<Rightarrow> run_row \<Rightarrow> world \<Rightarrow> (nat option \<times> run_row) \<times> world" where
  "start_run h r w =
     (let (ow, w1) = ownerOf r w; r1 = r\<lparr>r_owner := Some ow\<rparr>; at = w_clock w1;
          w2 = emit h r1 RUN_STARTED (start_payload r1 ow) no_opts w1;
          (r2, w3) = setStatus r1 Running (\<lambda>x. x\<lparr>r_started := Some at\<rparr>) w2
      in ((Some at, r2), reserveBudget h r2 w3))"

text \<open>The row object after a read of its log: an early run's owner has been stamped on it.\<close>

definition stamped :: "run_row \<Rightarrow> run_row" where
  "stamped r = (if eraOf r < 3 \<and> r_owner r = None then r\<lparr>r_owner := Some (legacy_owner r)\<rparr> else r)"

definition enter_loop :: "host \<Rightarrow> string \<Rightarrow> world \<Rightarrow> loop_ctx option \<times> world" where
  "enter_loop h rid w =
     (case getRun rid w of None \<Rightarrow> (None, w)
      | Some r0 \<Rightarrow>
         if settled_status (r_status r0) then (None, w) else
         let (st, w1) = fold_run h r0 w; r = stamped r0 in
         (case workflow_of h (r_workflow r) of
            None \<Rightarrow>
             (let w2 = emit h r RUN_FAILED (JObj [(''error'', missing_workflow r)]) no_opts w1
              in (None, snd (setStatus r Failed (\<lambda>x. x\<lparr>r_completed := Some (w_clock w2),
                    r_error := Some (missing_workflow r)\<rparr>) w2)))
          | Some d \<Rightarrow>
             (let ((startedAt, r1), w2) =
                    (if \<not> fo_started st then start_run h r w1
                     else if r_status r = Pending then (let (r', w') = setStatus r Running (\<lambda>x. x) w1 in ((fo_startedAt st, r'), w'))
                     else ((fo_startedAt st, r), w1))
              in if w_exc w2 \<noteq> None then (None, w2)
                 else (Some \<lparr>lc_run = rid, lc_def = d, lc_order = orderNodes d, lc_limit = recursionLimit r1,
                         lc_started = startedAt\<rparr>, w2))))"

section \<open>One round of the loop\<close>

datatype head_result =
    Finished
  | Again
  | Visit run_row wf_node nat nat nat nat

text \<open>An exception leaves the loop.\<close>

definition unless_thrown :: "head_result \<times> world \<Rightarrow> head_result \<times> world" where
  "unless_thrown x = (if w_exc (snd x) = None then x else (Finished, snd x))"

definition takeCancelReason :: "string \<Rightarrow> world \<Rightarrow> string \<times> world" where
  "takeCancelReason rid w =
     (mget_or ''caller-requested'' (w_cancel_reasons w) rid,
      w\<lparr>w_cancel_reasons := AList.delete rid (w_cancel_reasons w)\<rparr>)"

definition cancel_now :: "host \<Rightarrow> run_row \<Rightarrow> nat option \<Rightarrow> world \<Rightarrow> world" where
  "cancel_now h r startedAt = guarded (\<lambda>w.
     let (reason, w1) = takeCancelReason (run_id r) w in terminalCancel h r reason ''caller'' startedAt w1)"

definition pause_now :: "host \<Rightarrow> run_row \<Rightarrow> json \<Rightarrow> world \<Rightarrow> world" where
  "pause_now h r payload w =
     (let w1 = emit h r RUN_PAUSED payload no_opts w;
          w2 = guarded (\<lambda>w. w\<lparr>w_pause_policy := AList.delete (run_id r) (w_pause_policy w)\<rparr>) w1
      in snd (setStatus r Paused (\<lambda>x. x\<lparr>r_pause := False\<rparr>) w2))"

text \<open>After the loop: no node is owed.\<close>

definition finish_run :: "host \<Rightarrow> loop_ctx \<Rightarrow> world \<Rightarrow> world" where
  "finish_run h c w =
     (case getRun (lc_run c) w of None \<Rightarrow> raise_exn (JsError ''TypeError'') w
      | Some r \<Rightarrow>
         if terminal_status (r_status r) then w
         else if r_cancel r then cancel_now h r (lc_started c) w
         else
           let (evs, w1) = readLog h r w;
               (st, w2) = fold_run h r w1;
               skipped = allTerminalsSkipped (lc_def c) (latestOutcomes st);
               w3 = emit h r RUN_COMPLETED (jobj [(''outputs'', Some (runOutputs (lc_def c) evs)),
                      (''durationMs'', Some (duration (lc_started c) w)),
                      (''skippedTerminals'', map_option (\<lambda>ns. JArr (map JStr ns)) skipped)]) no_opts w2;
               w4 = invalidate r w3
           in snd (setStatus r Completed (\<lambda>x. x\<lparr>r_completed := Some (w_clock w4), r_node := None\<rparr>) w4))"

definition breach_limit :: "host \<Rightarrow> loop_ctx \<Rightarrow> run_row \<Rightarrow> string \<Rightarrow> nat \<Rightarrow> world \<Rightarrow> world" where
  "breach_limit h c r nid starts w =
     (let error = JObj [(''code'', JStr ''recursion_limit_exceeded''),
            (''message'', JStr (''starting '' @ nid @ '' would exceed recursionLimit '' @ nat_string (lc_limit c) @ '' node executions'')),
            (''details'', JObj [(''limit'', JNum (int (lc_limit c))), (''nodeId'', JStr nid)])];
          w1 = emit h r CAP_BREACHED (JObj [(''kind'', JStr ''node-executions''), (''limit'', JNum (int (lc_limit c))),
                 (''observed'', JNum (int starts + 1))]) no_opts w;
          w2 = emit h r RUN_FAILED (JObj [(''error'', error), (''durationMs'', duration (lc_started c) w1)]) no_opts w1;
          w3 = invalidate r w2
      in snd (setStatus r Failed (\<lambda>x. x\<lparr>r_completed := Some (w_clock w3), r_node := None, r_error := Some error\<rparr>) w3))"

text \<open>A resolution to apply before any new attempt: the log's own, or the replay source's.\<close>

definition pending_resolution :: "host \<Rightarrow> run_row \<Rightarrow> string \<Rightarrow> folded \<Rightarrow> world \<Rightarrow> json option \<times> world" where
  "pending_resolution h r nid st w =
     (case map_of (fo_resolved st) nid of
        Some p \<Rightarrow> (Some p, w)
      | None \<Rightarrow>
         (case map_of (fo_requested st) nid of
            Some k \<Rightarrow>
              if r_fork_mode r = Some ''replay'' then
                (case recordedResolution h r k w of
                   (Some (sus, res), w1) \<Rightarrow> (Some res, emit h r INTERRUPT_RESOLVED res (on_node nid) w1)
                 | (None, w1) \<Rightarrow> (None, w1))
              else (None, w)
          | None \<Rightarrow> (None, w)))"

definition start_visit :: "host \<Rightarrow> loop_ctx \<Rightarrow> run_row \<Rightarrow> wf_node \<Rightarrow> folded \<Rightarrow> world \<Rightarrow> head_result \<times> world" where
  "start_visit h c r n st w =
     (let nid = nd_id n; attempt = mget_or 0 (fo_attempts st) nid
      in (Visit r n attempt (1 + mget_or 0 (fo_terminals st) nid) (mget_or 0 (fo_resolvedCount st) nid) (w_clock w),
          emit h r NODE_STARTED (JObj [(''nodeId'', JStr nid), (''typeId'', JStr (nd_type n)),
             (''attempt'', JNum (int attempt))]) (on_node nid) w))"

definition visit_or_resume :: "host \<Rightarrow> loop_ctx \<Rightarrow> run_row \<Rightarrow> wf_node \<Rightarrow> folded \<Rightarrow> world \<Rightarrow> head_result \<times> world" where
  "visit_or_resume h c r n st w =
     (let nid = nd_id n in
      case map_of (fo_resumed st) nid of
        Some rv \<Rightarrow> (Again, emit h r NODE_COMPLETED (JObj [(''nodeId'', JStr nid),
            (''outputs'', jobj [(''resumeValue'', rv)])]) (on_node nid) w)
      | None \<Rightarrow>
         (case pending_resolution h r nid st w of
            (Some p, w1) \<Rightarrow>
              (case applyResolution h r nid p (nid \<in> set (fo_rejected st)) w1 of
                 (ApplyFailed, w2) \<Rightarrow> (Finished, w2) | (_, w2) \<Rightarrow> (Again, w2))
          | (None, w1) \<Rightarrow>
              if fo_starts st \<ge> lc_limit c then (Finished, breach_limit h c r nid (fo_starts st) w1)
              else start_visit h c r n st w1))"

definition loop_head :: "host \<Rightarrow> loop_ctx \<Rightarrow> world \<Rightarrow> head_result \<times> world" where
  "loop_head h c w =
     (case getRun (lc_run c) w of None \<Rightarrow> (Finished, raise_exn (JsError ''TypeError'') w)
      | Some r \<Rightarrow>
         (let (st, w1) = fold_run h r w in unless_thrown (
          if w_exc w1 \<noteq> None then (Finished, w1) else
          case nextNode (lc_def c) (lc_order c) st of
            None \<Rightarrow> (Finished, finish_run h c w1)
          | Some n \<Rightarrow>
             if r_cancel r then (Finished, cancel_now h r (lc_started c) w1)
             else if r_pause r then (Finished, pause_now h r (JObj [(''reason'', JStr ''operator''),
                 (''drainPolicy'', JStr (mget_or ''drain-current-node'' (w_pause_policy w1) (run_id r)))]) w1)
             else (case fires h (lc_def c) (nd_id n) (latestOutcomes st) of
               (False, rule) \<Rightarrow> (Again, emit h r NODE_SKIPPED (JObj [(''nodeId'', JStr (nd_id n)),
                   (''reason'', JStr (''triggerRule '' @ rule @ '' not satisfied''))]) (on_node (nd_id n)) w1)
             | (True, _) \<Rightarrow> visit_or_resume h c r n st w1))))"

section \<open>After the await\<close>

fun waitingStatusFor :: "string \<Rightarrow> run_status" where
  "waitingStatusFor kind =
     (if kind = ''external-event'' then WaitingExternal
      else if kind = ''clarification'' \<or> kind = ''credential'' \<or> starts_with ''conversation.'' kind then WaitingInput
      else WaitingApproval)"

declare waitingStatusFor.simps [simp del]

definition failure_of :: "exn \<Rightarrow> string \<times> (string \<times> json) list" where
  "failure_of e = (case e of
     NodeFailure c m d \<Rightarrow> (c, [(''code'', JStr c), (''message'', JStr m)] @
        (if truthy d then [(''details'', or_null d)] else []))
   | _ \<Rightarrow> (''internal_error'', [(''code'', JStr ''internal_error''), (''message'', JStr (exn_message e))]))"

definition suspend_visit :: "host \<Rightarrow> run_row \<Rightarrow> string \<Rightarrow> interrupt_payload \<Rightarrow> world \<Rightarrow> head_result \<times> world" where
  "suspend_visit h r nid p w =
     (case (if r_fork_mode r = Some ''replay'' then recordedResolution h r (ip_key p) w else (None, w)) of
        (Some (sus, res), w1) \<Rightarrow>
          (case applyResolution h r nid res False (emit h r INTERRUPT_RESOLVED res (on_node nid) w1) of
             (ApplyFailed, w2) \<Rightarrow> (Finished, w2) | (_, w2) \<Rightarrow> (Again, w2))
      | (None, w1) \<Rightarrow>
          (if w_exc w1 \<noteq> None then (Finished, w1) else
           case mintInterrupt h r nid p w1 of
             (Inl e, w2) \<Rightarrow> (Finished, raise_exn e w2)
           | (Inr (i, tok), w2) \<Rightarrow>
              (let w3 = emit h r INTERRUPT_REQUESTED (payload_json p) (on_node nid) w2;
                   w4 = emit h r NODE_SUSPENDED (JObj [(''nodeId'', JStr nid), (''interruptId'', JStr (i_id i)),
                          (''kind'', JStr (ip_kind p)), (''key'', JStr (ip_key p))]) (on_node nid) w3
               in (Finished, snd (setStatus r (waitingStatusFor (ip_kind p)) (\<lambda>x. x\<lparr>r_node := Some nid\<rparr>) w4)))))"

definition complete_visit :: "host \<Rightarrow> loop_ctx \<Rightarrow> run_row \<Rightarrow> string \<Rightarrow> nat \<Rightarrow> nat \<Rightarrow> json \<Rightarrow> world \<Rightarrow> head_result \<times> world" where
  "complete_visit h c r nid execution start out w =
     (if terminal_status (r_status r) then (Finished, w) else
      let (st, w1) = fold_run h r w
      in if mget_or 0 (fo_terminals st) nid \<ge> execution then (Again, w1)
         else (Again, emit h r NODE_COMPLETED (JObj [(''nodeId'', JStr nid), (''outputs'', out),
                (''durationMs'', JNum (int (w_clock w1) - int start))]) (on_node nid) w1))"

definition after_visit :: "host \<Rightarrow> loop_ctx \<Rightarrow> run_row \<Rightarrow> wf_node \<Rightarrow> nat \<Rightarrow> nat \<Rightarrow> nat \<Rightarrow> node_result \<Rightarrow> world \<Rightarrow> head_result \<times> world" where
  "after_visit h c r0 n attempt execution start res w = unless_thrown
     (case (res, getRun (lc_run c) w) of
        (Suspend p, _) \<Rightarrow> suspend_visit h r0 (nd_id n) p w
      | (_, None) \<Rightarrow> (Finished, raise_exn (JsError ''TypeError'') w)
      | (Threw e, Some r) \<Rightarrow>
          (case failure_of e of (code, error) \<Rightarrow>
             (case failNode h r (Some (lc_def c)) (nd_id n) error (attempt + 1) (code \<noteq> ''budget_exhausted'') w of
                (RunFailed, w1) \<Rightarrow> (Finished, w1) | (Routed, w1) \<Rightarrow> (Again, w1)))
      | (NodeCancelled, Some r) \<Rightarrow>
          (Finished, cancel_now h r (lc_started c)
            (emit h r NODE_CANCELLED (JObj [(''nodeId'', JStr (nd_id n)), (''reason'', JStr ''run-cancelled'')]) (on_node (nd_id n)) w))
      | (NodePaused, Some r) \<Rightarrow>
          (Finished, pause_now h r (JObj [(''reason'', JStr ''operator''), (''drainPolicy'', JStr ''immediate''),
             (''interruptedNodeId'', JStr (nd_id n)), (''interruptedAttempt'', JNum (int attempt + 1))]) w)
      | (Outputs out, Some r) \<Rightarrow> complete_visit h c r (nd_id n) execution start out w)"

section \<open>Requests\<close>

text \<open>A synchronous call that may throw: its value, or the exception taken out of the world.\<close>

definition catching :: "'a \<times> world \<Rightarrow> (exn + 'a) \<times> world" where
  "catching x = (case w_exc (snd x) of None \<Rightarrow> (Inr (fst x), snd x) | Some e \<Rightarrow> (Inl e, (snd x)\<lparr>w_exc := None\<rparr>))"

text \<open>One loop per run: the run is marked active and its loop is queued for the next tick.\<close>

definition scheduleRun :: "string \<Rightarrow> world \<Rightarrow> world" where
  "scheduleRun rid = guarded (\<lambda>w. if rid \<in> set (w_active w) then w
     else w\<lparr>w_active := w_active w @ [rid], w_queue := w_queue w @ [rid]\<rparr>)"

definition run_status_details :: "run_row \<Rightarrow> json option" where
  "run_status_details r = Some (JObj [(''runStatus'', JStr (status_name (r_status r)))])"

definition requestCancel :: "host \<Rightarrow> run_row \<Rightarrow> string option \<Rightarrow> world \<Rightarrow> (exn + run_status) \<times> world" where
  "requestCancel h r reason w =
     (if terminal_status (r_status r) then (Inl (HostError ''run_terminal'' (''a '' @ status_name (r_status r) @ '' run cannot be cancelled'') (run_status_details r)), w) else
      let (st, w1) = fold_run h r w; why = (case reason of Some x \<Rightarrow> x | None \<Rightarrow> ''caller-requested'')
      in catching
        (if r_status r = Pending \<or> r_status r = Paused \<or> waiting_status (r_status r) \<or> run_id r \<notin> set (w_active w1)
         then (Cancelled, terminalCancel h r why ''caller'' (fo_startedAt st)
                (case fo_suspended st of None \<Rightarrow> w1
                 | Some n \<Rightarrow> emit h r NODE_CANCELLED (JObj [(''nodeId'', JStr n), (''reason'', JStr ''run-cancelled'')]) (on_node n) w1))
         else (Cancelling, snd (setStatus r Cancelling (\<lambda>x. x\<lparr>r_cancel := True\<rparr>)
                (guarded (\<lambda>w. if map_of (w_cancel_reasons w) (run_id r) = None
                   then w\<lparr>w_cancel_reasons := AList.update (run_id r) why (w_cancel_reasons w)\<rparr> else w) w1)))))"

definition requestPause :: "host \<Rightarrow> run_row \<Rightarrow> string option \<Rightarrow> string \<Rightarrow> world \<Rightarrow> (exn + nat option) \<times> world" where
  "requestPause h r reason drain w =
     (if r_status r \<noteq> Running \<and> r_status r \<noteq> Pending
      then (Inl (HostError ''run_state_conflict'' (''a run in status '' @ status_name (r_status r) @ '' cannot be paused'') (run_status_details r)), w) else
      let policy = (if drain = ''immediate'' then ''immediate'' else ''drain-current-node'')
      in if run_id r \<notin> set (w_active w) \<or> r_status r = Pending then
           catching (let w1 = emit h r RUN_PAUSED (JObj [(''reason'', JStr (case reason of Some x \<Rightarrow> x | None \<Rightarrow> ''operator'')),
                            (''drainPolicy'', JStr policy)]) no_opts w
                     in (Some (w_clock w), snd (setStatus r Paused (\<lambda>x. x) w1)))
         else (Inr None, updateRun (w_clock w) (run_id r) (\<lambda>x. x\<lparr>r_pause := True\<rparr>)
                 (w\<lparr>w_pause_policy := AList.update (run_id r) policy (w_pause_policy w)\<rparr>)))"

definition requestResume :: "host \<Rightarrow> run_row \<Rightarrow> string option \<Rightarrow> world \<Rightarrow> (exn + nat) \<times> world" where
  "requestResume h r reason w = catching
     (let w1 = emit h r RUN_RESUMED (jobj [(''reason'', map_option JStr reason)]) no_opts w
      in (w_clock w, scheduleRun (run_id r) (snd (setStatus r Running (\<lambda>x. x) w1))))"

section \<open>Resolving an interrupt\<close>

definition recordResolution :: "host \<Rightarrow> run_row \<Rightarrow> string \<Rightarrow> json \<Rightarrow> world \<Rightarrow> run_status \<times> world" where
  "recordResolution h r nid resolved w =
     (let w1 = emit h r INTERRUPT_RESOLVED resolved (on_node nid) w
      in case applyResolution h r nid resolved False w1 of
           (ApplyFailed, w2) \<Rightarrow> (Failed, w2)
         | (_, w2) \<Rightarrow> (Running, scheduleRun (run_id r) (snd (setStatus r Running (\<lambda>x. x\<lparr>r_node := None\<rparr>) w2))))"

definition subject_json :: "subject \<Rightarrow> json" where
  "subject_json s = JObj [(''issuer'', JStr (sub_issuer s)), (''subjectId'', JStr (sub_id s)), (''tenant'', JStr (sub_tenant s)),
     (''lane'', JStr (sub_lane s)), (''kind'', JStr (sub_kind s))]"

definition resolved_payload :: "interrupt_row \<Rightarrow> json option \<Rightarrow> subject option \<Rightarrow> string option \<Rightarrow> string option \<Rightarrow> json" where
  "resolved_payload i rv sb decision reason =
     (let kind = ip_kind (payloadOf i); approval = (kind = ''approval''); action = jget rv ''action''
      in jobj [(''nodeId'', Some (JStr (i_node i))), (''interruptId'', Some (JStr (i_id i))), (''kind'', Some (JStr kind)),
           (''resumeValue'', rv), (''resolvedBy'', map_option subject_json sb), (''decision'', map_option JStr decision),
           (''action'', only_if approval action),
           (''refineFeedback'', only_if (approval \<and> action = Some (JStr ''refine'')) (jget rv ''refineFeedback'')),
           (''editedArtifactData'', only_if (approval \<and> action = Some (JStr ''edit-accept'')) (jget rv ''editedArtifactData'')),
           (''reason'', map_option JStr reason)])"

text \<open>After the votes: claim the interrupt; the loser of the claim is refused.\<close>

definition claim_and_record :: "host \<Rightarrow> run_row \<Rightarrow> interrupt_row \<Rightarrow> json option \<Rightarrow> subject option \<Rightarrow> string option \<Rightarrow> string option
    \<Rightarrow> world \<Rightarrow> (exn + run_status) \<times> world" where
  "claim_and_record h r i rv sb decision reason w =
     (case resolveInterrupt (w_clock w) (i_id i) (or_null rv) w of
        (False, w1) \<Rightarrow> (Inl (HostError ''interrupt_already_resolved'' ''a concurrent resolve won'' None), w1)
      | (True, w1) \<Rightarrow> catching (recordResolution h r (i_node i) (resolved_payload i rv sb decision reason) w1))"

definition resolveAndResume :: "host \<Rightarrow> run_row \<Rightarrow> interrupt_row \<Rightarrow> json option \<Rightarrow> subject option \<Rightarrow> world
    \<Rightarrow> (exn + run_status) \<times> world" where
  "resolveAndResume h r i rv sb w =
     (case validateResolve h r i rv sb w of
        (Inl e, w1) \<Rightarrow> (Inl e, w1)
      | (Inr (decision, exits), w1) \<Rightarrow>
          if \<not> exits then (Inr (r_status r), w1) else
          (case decision of
             Some d \<Rightarrow>
               (if ip_kind (payloadOf i) = ''approval'' then
                  (case tallyVote h i rv sb d w1 of
                     (Inl e, w2) \<Rightarrow> (Inl e, w2)
                   | (Inr None, w2) \<Rightarrow> (Inr (r_status r), w2)
                   | (Inr (Some (d', reason)), w2) \<Rightarrow> claim_and_record h r i rv sb (Some d') reason w2)
                else claim_and_record h r i rv sb decision None w1)
           | None \<Rightarrow> claim_and_record h r i rv sb None None w1))"

definition timeout_payload :: "interrupt_row \<Rightarrow> json" where
  "timeout_payload i = JObj [(''nodeId'', JStr (i_node i)), (''interruptId'', JStr (i_id i)), (''kind'', JStr ''approval''),
     (''decision'', JStr ''rejected''), (''action'', JStr ''timeout''), (''reason'', JStr ''timeout'')]"

definition sweep_one :: "host \<Rightarrow> interrupt_row \<Rightarrow> world \<Rightarrow> world" where
  "sweep_one h i = guarded (\<lambda>w.
     case ip_timeout (payloadOf i) of
       Some t \<Rightarrow> if t \<le> 0 then w else
         (case getRun (i_run i) w of None \<Rightarrow> w
          | Some r \<Rightarrow> if terminal_status (r_status r) \<or> \<not> waiting_status (r_status r) then w else
              (case resolveInterrupt (w_clock w) (i_id i) JNull w of
                 (False, w1) \<Rightarrow> w1
               | (True, w1) \<Rightarrow> snd (recordResolution h r (i_node i) (timeout_payload i) w1)))
     | None \<Rightarrow> w)"

text \<open>An exception ends the sweep; the timer of \<open>startApprovalTimeoutSweep\<close> logs it.\<close>

definition sweepApprovalTimeouts :: "host \<Rightarrow> world \<Rightarrow> world" where
  "sweepApprovalTimeouts h w =
     snd (catching ((), fold (sweep_one h) (expiredPendingInterrupts ''approval'' (w_clock w) w) w))"

text \<open>The credential grant's completion resolves the interrupt on the same path.\<close>

definition grantCompleted :: "host \<Rightarrow> string \<Rightarrow> string \<Rightarrow> subject \<Rightarrow> world \<Rightarrow> world" where
  "grantCompleted h rid nid sb w =
     (case getRun rid w of None \<Rightarrow> w
      | Some r \<Rightarrow> if terminal_status (r_status r) then w else
         (case pendingInterruptForNode rid nid w of None \<Rightarrow> w
          | Some i \<Rightarrow> if i_kind i \<noteq> ''credential'' then w
              else snd (resolveAndResume h r i (Some (JObj [(''outcome'', JStr ''authorized'')])) (Some sb) w)))"

section \<open>Runs pinned to an earlier contract\<close>

definition pin_ids :: "event_doc list \<Rightarrow> string list" where
  "pin_ids es = map (\<lambda>e. js_String (nullish (jfield (doc_payload e) ''changeId'') (Some (JStr []))))
     (filter (\<lambda>e. doc_type e = VERSION_PINNED) es)"

definition applyPinDisposition :: "host \<Rightarrow> run_row \<Rightarrow> world \<Rightarrow> (exn + run_row) \<times> world" where
  "applyPinDisposition h r w =
     (if r_pin_checked r \<or> eraOf r \<ge> 3 \<or> terminal_status (r_status r) then (Inr r, w) else
      let (evs, w1) = readLog h r w; r1 = (stamped r)\<lparr>r_pin_checked := True\<rparr>
      in catching
        (let w2 = guarded (updateRun (w_clock w1) (run_id r) (\<lambda>x. x\<lparr>r_pin_checked := True\<rparr>)) w1
         in if \<exists>p \<in> set (pin_ids evs). p \<notin> set (h_changes h)
            then let w3 = emit h r1 RUN_CANCELLED (JObj [(''reason'', JStr ''v1_pin_unsupported''),
                            (''cancelledBy'', JStr ''v2-cutover'')]) no_opts w2;
                     w4 = invalidate r1 w3
                 in setStatus r1 Cancelled (\<lambda>x. x\<lparr>r_completed := Some (w_clock w4), r_node := None\<rparr>) w4
            else (r1, w2)))"

end
