(* ===== verification/Executor_Inv.thy ===== *)
theory Executor_Inv
  imports Executor
begin

text \<open>
  Invariants of the executor. A property of the world that survives an append of certain
  event types, a status write to certain statuses and any change beside the log and the
  run statuses survives every operation built from them: the locale states those laws, and
  inside it there is one lemma per definition of \<open>executor.ts\<close>. It is interpreted on the
  append-only order of the logs here, and on the run invariants later.
\<close>

named_theorems ok \<open>operations that keep the invariant\<close>

section \<open>What the primitives leave alone\<close>

definition run_core :: "run_row \<Rightarrow> string \<times> run_status \<times> nat option \<times> json" where
  "run_core r = (run_id r, r_status r, r_era r, r_options r)"

text \<open>The same logs, the same runs in the same statuses, of the same eras and options.\<close>

definition same_core :: "world \<Rightarrow> world \<Rightarrow> bool" where
  "same_core w w' \<longleftrightarrow> t_events w' = t_events w \<and> map run_core (t_runs w') = map run_core (t_runs w)"

lemma same_core_refl [simp]: "same_core w w"
  by (simp add: same_core_def)

lemma same_core_trans: "same_core a b \<Longrightarrow> same_core b c \<Longrightarrow> same_core a c"
  by (simp add: same_core_def)

lemma same_core_tables: "t_events w' = t_events w \<Longrightarrow> t_runs w' = t_runs w \<Longrightarrow> same_core w w'"
  by (simp add: same_core_def)

lemma updateRun_core: "(\<And>x. run_core (p x) = run_core x) \<Longrightarrow> same_core w (updateRun now rid p w)"
proof -
  assume p: "\<And>x. run_core (p x) = run_core x"
  have "run_core (x\<lparr>r_updated := n\<rparr>) = run_core x" for x n by (simp add: run_core_def)
  with p show ?thesis by (simp add: same_core_def updateRun_def)
qed

lemma ownerOf_core: "same_core w (snd (ownerOf r w))"
  by (auto simp: ownerOf_def run_core_def intro!: updateRun_core split: option.split)

lemma readEvents_core: "same_core w (snd (readEvents h r after w))"
  using ownerOf_core [of w r] by (simp add: readEvents_def split_beta Let_def)

lemma readLog_core: "same_core w (snd (readLog h r w))"
proof -
  have "same_core a b \<Longrightarrow> same_core a (b\<lparr>w_exc := x\<rparr>)" for a b x by (simp add: same_core_def)
  with readEvents_core [of w h r "-1"] show ?thesis
    by (auto simp: readLog_def split: prod.splits sum.splits)
qed

definition keeps_core :: "(run_row \<Rightarrow> run_row) \<Rightarrow> bool" where
  "keeps_core p \<longleftrightarrow> (\<forall>x. run_core (p x) = run_core x)"

text \<open>The event types each part of the executor appends, the statuses a suspension writes.\<close>

definition UNWIND_T :: "string set" where
  "UNWIND_T = {COMP_REQUESTED, COMP_STARTED, COMP_COMPLETED, COMP_FAILED}"

definition FAIL_T :: "string set" where
  "FAIL_T = {NODE_FAILED, RUN_FAILED} \<union> UNWIND_T"

definition TURN_T :: "string set" where "TURN_T = {CONV_CLOSED, CONV_EXCHANGED, CONV_OPENED}"

definition APPLY_T :: "string set" where
  "APPLY_T = {APPROVAL_REJECTED, NODE_RESUMED, NODE_COMPLETED, INTERRUPT_RESOLVED} \<union> TURN_T \<union> FAIL_T"

definition WAITING_S :: "run_status set" where "WAITING_S = {WaitingApproval, WaitingInput, WaitingExternal}"

definition START_T :: "string set" where "START_T = {RUN_STARTED, RUN_FAILED, BUDGET_RESERVED}"

definition HEAD_T :: "string set" where
  "HEAD_T = APPLY_T \<union> {CAP_BREACHED, RUN_CANCELLED, RUN_COMPLETED, RUN_PAUSED, NODE_SKIPPED}"

definition AFTER_T :: "string set" where
  "AFTER_T = APPLY_T \<union> {INTERRUPT_REQUESTED, NODE_SUSPENDED, NODE_CANCELLED, RUN_CANCELLED, RUN_PAUSED}"

definition TOOL_T :: "string set" where
  "TOOL_T = {TOOL_CALLED, TOOL_RETURNED, BUDGET_EXHAUSTED, CAP_BREACHED, BUDGET_CONSUMED, BUDGET_THRESHOLD, AGENT_DECIDED}"

definition NODE_T :: "string set" where "NODE_T = TOOL_T \<union> TURN_T \<union> {ARTIFACT_CREATED}"

locale executor_invariant =
  fixes h :: host
    and P :: "world \<Rightarrow> bool"
    and E :: "run_row \<Rightarrow> bool"
    and T :: "string set"
    and S :: "run_status set"
  assumes emit_ok: "E r \<Longrightarrow> t \<in> T \<Longrightarrow> P w \<Longrightarrow> P (emit h r t p opts w)"
    and core_ok: "P w \<Longrightarrow> same_core w w' \<Longrightarrow> P w'"
    and status_ok: "E r \<Longrightarrow> st \<in> S \<Longrightarrow> keeps_core f \<Longrightarrow> P w \<Longrightarrow> P (snd (setStatus r st f w))"
    and row_ok: "P w \<Longrightarrow> getRun rid w = Some r \<Longrightarrow> E r"
    and row_same: "E r \<Longrightarrow> run_id r' = run_id r \<Longrightarrow> r_era r' = r_era r \<Longrightarrow> r_options r' = r_options r \<Longrightarrow> E r'"
begin

lemma tables_ok: "P w \<Longrightarrow> t_events w' = t_events w \<Longrightarrow> t_runs w' = t_runs w \<Longrightarrow> P w'"
  by (rule core_ok [OF _ same_core_tables])

lemma fields_ok [ok]:
  "P w \<Longrightarrow> P (w\<lparr>w_exc := x\<rparr>)"
  "P w \<Longrightarrow> P (w\<lparr>w_active := xs\<rparr>)"
  "P w \<Longrightarrow> P (w\<lparr>w_queue := xs\<rparr>)"
  "P w \<Longrightarrow> P (w\<lparr>w_cancel_reasons := cs\<rparr>)"
  "P w \<Longrightarrow> P (w\<lparr>w_pause_policy := ps\<rparr>)"
  "P w \<Longrightarrow> P (w\<lparr>w_clock := n\<rparr>)"
  by (erule tables_ok; simp)+

lemma if_ok [ok]: "(b \<Longrightarrow> P x) \<Longrightarrow> (\<not> b \<Longrightarrow> P y) \<Longrightarrow> P (if b then x else y)"
  by simp

lemma if_pair_ok [ok]: "(b \<Longrightarrow> P (snd x)) \<Longrightarrow> (\<not> b \<Longrightarrow> P (snd y)) \<Longrightarrow> P (snd (if b then x else y))"
  by simp

lemma raise_ok [ok]: "P w \<Longrightarrow> P (raise_exn e w)"
  by (erule tables_ok) (simp_all add: raise_exn_def guarded_def)

lemma readLog_ok [ok]: "P w \<Longrightarrow> P (snd (readLog h' r w))"
  by (rule core_ok [OF _ readLog_core])

lemma readEvents_ok [ok]: "P w \<Longrightarrow> P (snd (readEvents h' r k w))"
  by (rule core_ok [OF _ readEvents_core])

lemma fold_run_ok [ok]: "P w \<Longrightarrow> P (snd (fold_run h' r w))"
  unfolding fold_run_def split_beta snd_conv by (rule readLog_ok)

lemma ownerOf_ok [ok]: "P w \<Longrightarrow> P (snd (ownerOf r w))"
  by (rule core_ok [OF _ ownerOf_core])

lemma invalidate_ok [ok]: "P w \<Longrightarrow> P (invalidate r w)"
  by (erule tables_ok) (simp_all add: invalidate_def guarded_def)

lemma keepAttempt_ok [ok]: "P w \<Longrightarrow> P (snd (keepAttempt r st w))"
  by (erule core_ok) (auto simp: keepAttempt_def recordAttempt_def run_core_def intro!: updateRun_core)

lemma scheduleRun_ok [ok]: "P w \<Longrightarrow> P (scheduleRun rid w)"
  by (erule tables_ok) (simp_all add: scheduleRun_def guarded_def)

lemma catching_ok [ok]: "P (snd x) \<Longrightarrow> P (snd (catching x))"
  by (erule tables_ok) (simp_all add: catching_def split: option.split)

lemma unless_thrown_ok [ok]: "P (snd x) \<Longrightarrow> P (snd (unless_thrown x))"
  by (simp add: unless_thrown_def)

lemma status_row: "E r \<Longrightarrow> keeps_core f \<Longrightarrow> E (fst (setStatus r st f w))"
proof (erule row_same)
  assume "keeps_core f"
  then have "run_core (f (r\<lparr>r_status := st\<rparr>)) = run_core (r\<lparr>r_status := st\<rparr>)" by (simp add: keeps_core_def)
  then show "run_id (fst (setStatus r st f w)) = run_id r" "r_era (fst (setStatus r st f w)) = r_era r"
    "r_options (fst (setStatus r st f w)) = r_options r"
    by (simp_all add: setStatus_def run_core_def)
qed

lemma keepAttempt_row: "E r \<Longrightarrow> E (fst (keepAttempt r st w))"
  by (erule row_same) (simp_all add: keepAttempt_def recordAttempt_def)

lemma stamped_row: "E r \<Longrightarrow> E (stamped r)"
  by (erule row_same) (simp_all add: stamped_def)

section \<open>Terminal paths\<close>

lemma terminalCancel_ok:
  assumes "RUN_CANCELLED \<in> T" "Cancelled \<in> S" "E r" "P w"
  shows "P (terminalCancel h r why who st w)"
  unfolding terminalCancel_def Let_def
  by (intro status_ok invalidate_ok emit_ok assms) (simp add: keeps_core_def run_core_def)

lemma cancel_now_ok:
  assumes "RUN_CANCELLED \<in> T" "Cancelled \<in> S" "E r" "P w"
  shows "P (cancel_now h r st w)"
  using assms(4) terminalCancel_ok [OF assms(1-3)]
  by (simp add: cancel_now_def guarded_def takeCancelReason_def Let_def ok)

lemma pause_now_ok:
  assumes "RUN_PAUSED \<in> T" "Paused \<in> S" "E r" "P w"
  shows "P (pause_now h r p w)"
proof -
  have "P v \<Longrightarrow> P (guarded (\<lambda>w. w\<lparr>w_pause_policy := x w\<rparr>) v)" for v x
    by (simp add: guarded_def ok)
  then show ?thesis unfolding pause_now_def Let_def
    by (intro status_ok emit_ok assms) (simp_all add: keeps_core_def run_core_def emit_ok assms)
qed

lemma unwind_steps_ok:
  "E r \<Longrightarrow> P w \<Longrightarrow> E (fst (snd (unwind_steps r st ss w))) \<and> P (snd (snd (unwind_steps r st ss w)))"
proof (induction ss arbitrary: r st w)
  case (Cons s ss)
  let ?st = "st\<lparr>cm_attempts := cm_attempts st @ [unwind_attempt (w_clock w) s]\<rparr>"
  from Cons.IH [OF keepAttempt_row [OF Cons.prems(1)] keepAttempt_ok [OF Cons.prems(2)]]
  show ?case by (simp add: Let_def split_beta)
qed simp

lemma unwind_ok:
  assumes T: "UNWIND_T \<subseteq> T" and r: "E r" and w: "P w"
  shows "E (fst (unwind h r d c w)) \<and> P (snd (unwind h r d c w))"
proof -
  have em: "E q \<Longrightarrow> t \<in> UNWIND_T \<Longrightarrow> P v \<Longrightarrow> P (emit h q t p opts v)" for q t v p opts
    using T by (auto intro: emit_ok)
  have t: "COMP_REQUESTED \<in> UNWIND_T" "COMP_STARTED \<in> UNWIND_T" "COMP_COMPLETED \<in> UNWIND_T" "COMP_FAILED \<in> UNWIND_T"
    by (simp_all add: UNWIND_T_def)
  show ?thesis
    using r w by (simp add: unwind_def Let_def split_beta keepAttempt_row keepAttempt_ok em t unwind_steps_ok)
qed

lemma failNode_ok:
  assumes T: "FAIL_T \<subseteq> T" and S: "Failed \<in> S" and r: "E r" and w: "P w"
  shows "P (snd (failNode h r d n e k b w))"
proof -
  have em: "E q \<Longrightarrow> t \<in> FAIL_T \<Longrightarrow> P v \<Longrightarrow> P (emit h q t p opts v)" for q t v p opts
    using T by (auto intro: emit_ok)
  have t: "NODE_FAILED \<in> FAIL_T" "RUN_FAILED \<in> FAIL_T" by (simp_all add: FAIL_T_def)
  have st: "E q \<Longrightarrow> P v \<Longrightarrow> keeps_core f \<Longrightarrow> P (snd (setStatus q Failed f v))" for q v f
    using S by (intro status_ok)
  have uw: "E q \<Longrightarrow> P v \<Longrightarrow> E (fst (unwind h q x c v)) \<and> P (snd (unwind h q x c v))" for q v x c
    using T by (intro unwind_ok) (auto simp: FAIL_T_def)
  show ?thesis
    using r w by (cases d) (simp_all add: failNode_def Let_def split_beta em t uw st fold_run_ok invalidate_ok
        keeps_core_def run_core_def)
qed

lemma breach_limit_ok:
  assumes "{CAP_BREACHED, RUN_FAILED} \<subseteq> T" "Failed \<in> S" "E r" "P w"
  shows "P (breach_limit h c r n k w)"
  unfolding breach_limit_def Let_def
  by (intro status_ok invalidate_ok emit_ok assms(2-4)) (use assms(1) in \<open>auto simp: keeps_core_def run_core_def\<close>)

lemma finish_run_ok:
  assumes T: "{RUN_CANCELLED, RUN_COMPLETED} \<subseteq> T" and S: "{Cancelled, Completed} \<subseteq> S" and w: "P w"
  shows "P (finish_run h c w)"
proof (cases "getRun (lc_run c) w")
  case None
  with w show ?thesis by (simp add: finish_run_def raise_ok)
next
  case (Some r)
  with w have r: "E r" by (rule row_ok)
  have st: "P v \<Longrightarrow> keeps_core f \<Longrightarrow> P (snd (setStatus r Completed f v))" for v f
    using S r by (intro status_ok) auto
  have em: "P v \<Longrightarrow> P (emit h r RUN_COMPLETED p opts v)" for v p opts
    using T r by (intro emit_ok) auto
  have cn: "P v \<Longrightarrow> P (cancel_now h r x v)" for v x
    using T S r by (intro cancel_now_ok) auto
  show ?thesis
    using Some w by (simp add: finish_run_def Let_def split_beta st em cn invalidate_ok fold_run_ok readLog_ok
        keeps_core_def run_core_def)
qed

section \<open>Resolutions and interrupts\<close>

lemma council_turn_ok: "TURN_T \<subseteq> T \<Longrightarrow> E r \<Longrightarrow> P w \<Longrightarrow> P (council_turn h r n v w)"
  unfolding council_turn_def Let_def by (intro emit_ok) (auto simp: TURN_T_def)

lemma applyResolution_ok:
  assumes T: "APPLY_T \<subseteq> T" and S: "Failed \<in> S" and r: "E r" and w: "P w"
  shows "P (snd (applyResolution h r n p b w))"
proof -
  have em: "t \<in> APPLY_T \<Longrightarrow> P v \<Longrightarrow> P (emit h r t q opts v)" for t v q opts
    using T r by (auto intro: emit_ok)
  have t: "APPROVAL_REJECTED \<in> APPLY_T" "NODE_RESUMED \<in> APPLY_T" "NODE_COMPLETED \<in> APPLY_T"
    by (simp_all add: APPLY_T_def)
  have ct: "P v \<Longrightarrow> P (council_turn h r n x v)" for v x
    using T r by (intro council_turn_ok) (auto simp: APPLY_T_def)
  have g: "P (if announces_rejection p b then emit h r APPROVAL_REJECTED p (on_node n) w else w)"
    using w by (simp add: em t)
  show ?thesis
  proof (cases "resolution_error p")
    case None
    with g show ?thesis by (simp add: applyResolution_def Let_def em t ct)
  next
    case (Some e)
    have "FAIL_T \<subseteq> T" using T by (auto simp: APPLY_T_def)
    note fail = failNode_ok [OF this S r g, of "workflow_of h (r_workflow r)" n e 1 True]
    obtain fr v where fr: "failNode h r (workflow_of h (r_workflow r)) n e 1 True
        (if announces_rejection p b then emit h r APPROVAL_REJECTED p (on_node n) w else w) = (fr, v)" by force
    with fail have "P v" by simp
    with Some fr show ?thesis by (cases fr) (simp_all add: applyResolution_def Let_def)
  qed
qed

lemma recorded_in_ok [ok]: "P w \<Longrightarrow> P (snd (recorded_in h' k rs w))"
proof (induction rs arbitrary: w)
  case (Cons r rs)
  from Cons.IH [OF readLog_ok [OF Cons.prems]] readLog_ok [OF Cons.prems]
  show ?case by (simp add: Let_def split_beta split: option.split)
qed simp

lemma recordedResolution_ok [ok]: "P w \<Longrightarrow> P (snd (recordedResolution h' r k w))"
  by (simp add: recordedResolution_def ok)

lemma pending_resolution_ok:
  assumes T: "INTERRUPT_RESOLVED \<in> T" and r: "E r" and w: "P w"
  shows "P (snd (pending_resolution h r n st w))"
proof (cases "map_of (fo_resolved st) n")
  case None
  show ?thesis
  proof (cases "map_of (fo_requested st) n")
    case (Some k)
    obtain x v where x: "recordedResolution h r k w = (x, v)" by force
    with recordedResolution_ok [OF w, of h r k] have "P v" by simp
    with None Some w x r T show ?thesis
      by (cases x) (auto simp: pending_resolution_def intro: emit_ok)
  qed (use None w in \<open>simp add: pending_resolution_def\<close>)
qed (use w in \<open>simp add: pending_resolution_def\<close>)

lemma mintInterrupt_ok [ok]: "P w \<Longrightarrow> P (snd (mintInterrupt h' r n p w))"
proof -
  have "t_events (snd (mintInterrupt h' r n p w)) = t_events w" "t_runs (snd (mintInterrupt h' r n p w)) = t_runs w"
    by (auto simp: mintInterrupt_def tenantBound_def opaque_def Let_def split_beta split: option.split
        dest: insertInterrupt_some(1))
  then show "P w \<Longrightarrow> ?thesis" by (rule tables_ok [rotated])
qed

lemma waitingStatus_in: "waitingStatusFor k \<in> WAITING_S"
  by (simp add: waitingStatusFor.simps WAITING_S_def)

lemma suspend_visit_ok:
  assumes T: "APPLY_T \<union> {INTERRUPT_REQUESTED, NODE_SUSPENDED} \<subseteq> T" and S: "{Failed} \<union> WAITING_S \<subseteq> S"
    and r: "E r" and w: "P w"
  shows "P (snd (suspend_visit h r n p w))"
proof -
  have rr: "P (snd (if r_fork_mode r = Some ''replay'' then recordedResolution h r (ip_key p) w else (None, w)))"
    using w by (simp add: ok)
  obtain x w1 where x: "(if r_fork_mode r = Some ''replay'' then recordedResolution h r (ip_key p) w else (None, w)) = (x, w1)"
    by (metis surj_pair)
  with rr have g1: "P w1" by simp
  have em: "t \<in> APPLY_T \<union> {INTERRUPT_REQUESTED, NODE_SUSPENDED} \<Longrightarrow> P v \<Longrightarrow> P (emit h r t q opts v)" for t v q opts
    using T r by (auto intro: emit_ok)
  show ?thesis
  proof (cases x)
    case (Some y)
    obtain sus res where y: "y = (sus, res)" by (cases y)
    have "P (emit h r INTERRUPT_RESOLVED res (on_node n) w1)" using g1 by (simp add: em APPLY_T_def)
    then have "P (snd (applyResolution h r n res False (emit h r INTERRUPT_RESOLVED res (on_node n) w1)))"
      using T S r by (intro applyResolution_ok) auto
    then show ?thesis
      by (auto simp: suspend_visit_def x Some y split: prod.splits apply_result.splits)
  next
    case None
    have m: "P (snd (mintInterrupt h r n p w1))" using g1 by (rule mintInterrupt_ok)
    have st: "P v \<Longrightarrow> keeps_core f \<Longrightarrow> P (snd (setStatus r (waitingStatusFor k) f v))" for v f k
      using S r waitingStatus_in [of k] by (intro status_ok) auto
    show ?thesis using g1 m
      by (auto simp: suspend_visit_def x None Let_def keeps_core_def run_core_def em raise_ok
          split: prod.splits sum.splits intro!: st)
  qed
qed

section \<open>The loop\<close>

lemma reserveBudget_ok: "BUDGET_RESERVED \<in> T \<Longrightarrow> E r \<Longrightarrow> P w \<Longrightarrow> P (reserveBudget h r w)"
  by (simp add: reserveBudget_def emit_ok split: option.split)

lemma start_run_ok:
  assumes T: "START_T \<subseteq> T" and S: "Running \<in> S" and r: "E r" and w: "P w"
  shows "E (snd (fst (start_run h r w))) \<and> P (snd (start_run h r w))"
proof -
  let ?r1 = "r\<lparr>r_owner := Some (fst (ownerOf r w))\<rparr>"
  have r1: "E ?r1" using r by (rule row_same) simp_all
  have T': "RUN_STARTED \<in> T" "BUDGET_RESERVED \<in> T" using T by (auto simp: START_T_def)
  let ?w1 = "snd (ownerOf r w)"
  have w1: "P ?w1" using w by (rule ownerOf_ok)
  let ?w2 = "emit h ?r1 RUN_STARTED (start_payload ?r1 (fst (ownerOf r w))) no_opts ?w1"
  have w2: "P ?w2" using r1 T'(1) w1 by (rule emit_ok)
  have k: "keeps_core (\<lambda>x. x\<lparr>r_started := Some n\<rparr>)" for n by (simp add: keeps_core_def run_core_def)
  from status_row [OF r1 k] status_ok [OF r1 S k w2] reserveBudget_ok [OF T'(2)] show ?thesis
    by (simp add: start_run_def Let_def split_beta)
qed

lemma enter_loop_ok:
  assumes T: "START_T \<subseteq> T" and S: "{Running, Failed} \<subseteq> S" and w: "P w"
  shows "P (snd (enter_loop h rid w))"
proof (cases "getRun rid w")
  case None
  with w show ?thesis by (simp add: enter_loop_def)
next
  case (Some r0)
  with w have r0: "E r0" by (rule row_ok)
  then have r: "E (stamped r0)" by (rule stamped_row)
  have f: "P (snd (fold_run h r0 w))" using w by (rule fold_run_ok)
  have "Running \<in> S" using S by simp
  note sr = start_run_ok [OF T this r f]
  have st: "P v \<Longrightarrow> keeps_core g \<Longrightarrow> P (snd (setStatus (stamped r0) Running g v))"
    "P v \<Longrightarrow> keeps_core g \<Longrightarrow> P (snd (setStatus (stamped r0) Failed g v))" for v g
    using S r by (auto intro!: status_ok)
  have em: "P v \<Longrightarrow> P (emit h (stamped r0) RUN_FAILED p opts v)" for v p opts
    using T r by (intro emit_ok) (auto simp: START_T_def)
  have k: "keeps_core (\<lambda>x. x)" "keeps_core (\<lambda>x. x\<lparr>r_completed := a, r_error := b\<rparr>)" for a b
    by (simp_all add: keeps_core_def run_core_def)
  show ?thesis using Some w f sr st em k
    by (simp add: enter_loop_def Let_def split_beta split: option.split)
qed

lemma visit_or_resume_ok:
  assumes T: "APPLY_T \<union> {CAP_BREACHED} \<subseteq> T" and S: "Failed \<in> S" and r: "E r" and w: "P w"
    and start: "\<And>v. P v \<Longrightarrow> t_events v = t_events w \<Longrightarrow> fo_starts st < lc_limit c \<Longrightarrow> P (snd (start_visit h c r n st v))"
  shows "P (snd (visit_or_resume h c r n st w))"
proof (cases "map_of (fo_resumed st) (nd_id n)")
  case (Some rv)
  have "NODE_COMPLETED \<in> T" using T by (auto simp: APPLY_T_def)
  with Some r w show ?thesis by (simp add: visit_or_resume_def Let_def emit_ok)
next
  case None
  obtain p w1 where p: "pending_resolution h r (nd_id n) st w = (p, w1)" by force
  have "INTERRUPT_RESOLVED \<in> T" using T by (auto simp: APPLY_T_def)
  from pending_resolution_ok [OF this r w, of "nd_id n" st] p have g1: "P w1" by simp
  show ?thesis
  proof (cases p)
    case none: None
    have ev: "t_events w1 = t_events w"
    proof -
      have rec: "t_events (snd (recorded_in h k rs v)) = t_events v" for k rs and v :: world
      proof (induction rs arbitrary: v)
        case (Cons q rs)
        have "t_events (snd (readLog h q v)) = t_events v"
          using readLog_core [of v h q] by (simp add: same_core_def)
        with Cons show ?case by (simp add: Let_def split_beta split: option.split)
      qed simp
      have "t_events (snd (recordedResolution h r k w)) = t_events w" for k
        by (simp add: recordedResolution_def rec)
      with p none show ?thesis
        by (auto simp: pending_resolution_def split: option.splits if_splits prod.splits) (metis snd_conv)+
    qed
    have "P (breach_limit h c r (nd_id n) (fo_starts st) w1)"
      using T S r g1 by (intro breach_limit_ok) (auto simp: APPLY_T_def FAIL_T_def)
    with none p None start [OF g1 ev] show ?thesis
      by (simp add: visit_or_resume_def Let_def)
  next
    case (Some q)
    have ap: "P (snd (applyResolution h r (nd_id n) q (nd_id n \<in> set (fo_rejected st)) w1))"
      using T S r g1 by (intro applyResolution_ok) auto
    obtain ar v where ar: "applyResolution h r (nd_id n) q (nd_id n \<in> set (fo_rejected st)) w1 = (ar, v)" by force
    with ap have "P v" by simp
    with p Some None ar show ?thesis
      by (cases ar) (simp_all add: visit_or_resume_def Let_def)
  qed
qed

lemma loop_head_ok:
  assumes T: "HEAD_T \<subseteq> T" and S: "{Failed, Cancelled, Completed, Paused} \<subseteq> S" and w: "P w"
    and start: "\<And>r n st v. E r \<Longrightarrow> getRun (lc_run c) w = Some r \<Longrightarrow> fold_run h r w = (st, v) \<Longrightarrow> w_exc v = None \<Longrightarrow>
      P v \<Longrightarrow> (\<And>u. P u \<Longrightarrow> t_events u = t_events v \<Longrightarrow> fo_starts st < lc_limit c \<Longrightarrow> P (snd (start_visit h c r n st u)))"
  shows "P (snd (loop_head h c w))"
proof (cases "getRun (lc_run c) w")
  case None
  with w show ?thesis by (simp add: loop_head_def raise_ok)
next
  case (Some r)
  with w have r: "E r" by (rule row_ok)
  obtain st v where st: "fold_run h r w = (st, v)" by force
  with fold_run_ok [OF w, of h r] have g: "P v" by simp
  show ?thesis
  proof (cases "w_exc v = None")
    case False
    with Some st g show ?thesis by (simp add: loop_head_def Let_def unless_thrown_ok)
  next
    case exc: True
    show ?thesis
    proof (cases "nextNode (lc_def c) (lc_order c) st")
      case None
      have "P (finish_run h c v)"
        using T S g by (intro finish_run_ok) (auto simp: HEAD_T_def)
      with Some st None exc show ?thesis by (simp add: loop_head_def Let_def unless_thrown_ok)
    next
      case n: (Some n)
      have 1: "P (cancel_now h r x v)" for x
        using T S r g by (intro cancel_now_ok) (auto simp: HEAD_T_def)
      have 2: "P (pause_now h r x v)" for x
        using T S r g by (intro pause_now_ok) (auto simp: HEAD_T_def)
      have 3: "P (emit h r NODE_SKIPPED x opts v)" for x opts
        using T r g by (intro emit_ok) (auto simp: HEAD_T_def)
      have 4: "P (snd (visit_or_resume h c r n st v))"
        using T S r g start [OF r Some st exc g]
        by (intro visit_or_resume_ok) (auto simp: HEAD_T_def)
      obtain b rule where f: "fires h (lc_def c) (nd_id n) (latestOutcomes st) = (b, rule)" by force
      from 1 2 3 4 Some st exc n f show ?thesis
        by (cases b) (simp_all add: loop_head_def Let_def unless_thrown_ok if_pair_ok)
    qed
  qed
qed

lemma complete_visit_ok: "NODE_COMPLETED \<in> T \<Longrightarrow> E r \<Longrightarrow> P w \<Longrightarrow> P (snd (complete_visit h c r n k s out w))"
  by (simp add: complete_visit_def Let_def split_beta emit_ok fold_run_ok)

lemma after_visit_ok:
  assumes T: "AFTER_T \<subseteq> T" and S: "{Failed, Cancelled, Paused} \<union> WAITING_S \<subseteq> S" and r0: "E r0" and w: "P w"
  shows "P (snd (after_visit h c r0 n k x s res w))"
proof -
  have T1: "FAIL_T \<subseteq> T" "NODE_COMPLETED \<in> T" "RUN_CANCELLED \<in> T" "NODE_CANCELLED \<in> T" "RUN_PAUSED \<in> T"
    using T by (auto simp: AFTER_T_def APPLY_T_def)
  have S1: "Failed \<in> S" "Cancelled \<in> S" "Paused \<in> S" using S by auto
  have sv: "P (snd (suspend_visit h r0 (nd_id n) p w))" for p
    using T S r0 w by (intro suspend_visit_ok) (auto simp: AFTER_T_def)
  have fn: "E r \<Longrightarrow> P (snd (failNode h r d m e a b w))" for r d m e a b
    using failNode_ok [OF T1(1) S1(1) _ w] by blast
  show ?thesis
  proof (cases "getRun (lc_run c) w")
    case None
    with sv w show ?thesis
      by (cases res) (simp_all add: after_visit_def unless_thrown_ok raise_ok)
  next
    case (Some r)
    with w have r: "E r" by (rule row_ok)
    show ?thesis
    proof (cases res)
      case (Threw e)
      obtain code err where e: "failure_of e = (code, err)" by force
      obtain fr v where fr: "failNode h r (Some (lc_def c)) (nd_id n) err (k + 1) (code \<noteq> ''budget_exhausted'') w = (fr, v)" by force
      with fn [OF r, of "Some (lc_def c)" "nd_id n" err "k + 1" "code \<noteq> ''budget_exhausted''"] have "P v" by simp
      with Some Threw e fr show ?thesis by (cases fr) (simp_all add: after_visit_def unless_thrown_ok)
    qed (use Some r w sv T1 S1 in \<open>simp_all add: after_visit_def unless_thrown_ok complete_visit_ok
          pause_now_ok cancel_now_ok emit_ok\<close>)
  qed
qed

section \<open>Executing a node\<close>

lemma beforeToolCall_ok:
  assumes T: "TOOL_T \<subseteq> T" and r: "E r" and w: "P w"
  shows "P (snd (beforeToolCall h r n w))"
proof -
  have em: "t \<in> TOOL_T \<Longrightarrow> P v \<Longrightarrow> P (emit h r t p opts v)" for t p opts v
    using T r by (auto intro: emit_ok)
  have t: "BUDGET_EXHAUSTED \<in> TOOL_T" "CAP_BREACHED \<in> TOOL_T" by (simp_all add: TOOL_T_def)
  show ?thesis using w
    by (simp add: beforeToolCall_def Let_def split_beta em t readLog_ok split: option.split)
qed

lemma afterToolCall_ok:
  assumes T: "TOOL_T \<subseteq> T" and r: "E r" and w: "P w"
  shows "P (afterToolCall h r n w)"
proof -
  have em: "t \<in> TOOL_T \<Longrightarrow> P v \<Longrightarrow> P (emit h r t p opts v)" for t p opts v
    using T r by (auto intro: emit_ok)
  have t: "BUDGET_CONSUMED \<in> TOOL_T" "BUDGET_THRESHOLD \<in> TOOL_T" by (simp_all add: TOOL_T_def)
  show ?thesis using w
    by (simp add: afterToolCall_def Let_def split_beta em t readLog_ok split: option.split)
qed

lemma run_tool_calls_ok:
  assumes T: "TOOL_T \<subseteq> T" and r: "E r"
  shows "P w \<Longrightarrow> P (snd (run_tool_calls h r n ag ex i cs w))"
proof (induction cs arbitrary: i w)
  case (Cons c cs)
  have em: "t \<in> TOOL_T \<Longrightarrow> P v \<Longrightarrow> P (emit h r t p opts v)" for t p opts v
    using T r by (auto intro: emit_ok)
  have t: "TOOL_CALLED \<in> TOOL_T" "TOOL_RETURNED \<in> TOOL_T" by (simp_all add: TOOL_T_def)
  obtain lim w1 where b: "beforeToolCall h r (nd_id n) w = (lim, w1)" by force
  with beforeToolCall_ok [OF T r Cons.prems, of "nd_id n"] have g: "P w1" by simp
  show ?case
  proof (cases lim)
    case None
    show ?thesis unfolding run_tool_calls.simps b None
      by (simp only: prod.case option.case Let_def)
         (intro Cons.IH em t afterToolCall_ok [OF T r] if_ok raise_ok g)
  qed (simp add: b g)
qed simp

lemma mockAgent_ok:
  assumes T: "TOOL_T \<subseteq> T" and r: "E r" and w: "P w"
  shows "P (snd (mockAgent h r n ex w))"
proof -
  have em: "P v \<Longrightarrow> P (emit h r AGENT_DECIDED p opts v)" for p opts v
    using T r by (intro emit_ok) (auto simp: TOOL_T_def)
  note rt = run_tool_calls_ok [OF T r w]
  show ?thesis
    by (simp add: mockAgent_def Let_def split_beta rt em split: option.split)
qed

lemma claimEffect_tables:
  "t_events (snd (claimEffect f w)) = t_events w" "t_runs (snd (claimEffect f w)) = t_runs w"
  by (simp_all add: claimEffect_def split: option.split)

lemma attempts_tables:
  "t_events (snd (attempts_from r n eid pk bk ex base i net hold left w)) = t_events w \<and>
   t_runs (snd (attempts_from r n eid pk bk ex base i net hold left w)) = t_runs w"
proof (induction left arbitrary: i w)
  case 0
  have ca: "t_events (snd (claim_attempt f w)) = t_events w" "t_runs (snd (claim_attempt f w)) = t_runs w" for f w
    by (simp_all add: claim_attempt_def Let_def split_beta claimEffect_tables split: bool.split option.split)
  have ra: "t_events (record_attempt a b c d e w) = t_events w" "t_runs (record_attempt a b c d e w) = t_runs w" for a b c d e w
    by (simp_all add: record_attempt_def updateEffect_def Let_def)
  show ?case
    by (subst (1 2) attempts_from.simps) (simp add: Let_def split_beta ca ra split: attempt_claim.split)
next
  case (Suc k)
  have ca: "t_events (snd (claim_attempt f w)) = t_events w" "t_runs (snd (claim_attempt f w)) = t_runs w" for f w
    by (simp_all add: claim_attempt_def Let_def split_beta claimEffect_tables split: bool.split option.split)
  have ra: "t_events (record_attempt a b c d e w) = t_events w" "t_runs (record_attempt a b c d e w) = t_runs w" for a b c d e w
    by (simp_all add: record_attempt_def updateEffect_def Let_def)
  show ?case
    by (subst (1 2) attempts_from.simps) (simp add: Let_def split_beta ca ra Suc.IH split: attempt_claim.split)
qed

lemma executionEffectId_ok [ok]: "P w \<Longrightarrow> P (snd (executionEffectId h' src n ex w))"
  using readEvents_ok [of w] by (auto simp: executionEffectId_def split_beta split: option.split sum.split)

lemma recorded_source_ok [ok]: "P w \<Longrightarrow> P (snd (recorded_source h' src n ex w))"
proof -
  assume w: "P w"
  obtain y v where y: "executionEffectId h' src n ex w = (y, v)" by force
  with executionEffectId_ok [OF w, of h' src n ex] have "P v" by simp
  with w y show ?thesis
    by (cases y) (simp_all add: recorded_source_def split: option.split)
qed

lemma inherit_ok: "P w \<Longrightarrow> P (inherit_attempts r src n ex w)"
proof -
  have keep: "t_events (fold (\<lambda>f w. snd (claimEffect (g f) w)) fs w) = t_events w \<and>
      t_runs (fold (\<lambda>f w. snd (claimEffect (g f) w)) fs w) = t_runs w" for g fs and w :: world
    by (induction fs arbitrary: w) (simp_all add: claimEffect_tables)
  show "P w \<Longrightarrow> ?thesis" by (erule tables_ok) (simp_all only: inherit_attempts_def keep)
qed

lemma replayRecordedEffect_ok [ok]:
  assumes w: "P w"
  shows "P (snd (replayRecordedEffect h' r n ex l w))"
proof -
  let ?src = "case r_source r of Some s \<Rightarrow> s | None \<Rightarrow> []"
  obtain found w1 where f: "recorded_source h' ?src (nd_id n) ex w = (found, w1)" by force
  with recorded_source_ok [OF w, of h' ?src "nd_id n" ex] have "P w1" by simp
  with inherit_ok [OF this] show ?thesis
    by (auto simp: replayRecordedEffect_def Let_def f split: sum.split option.split)
qed

lemma performHttpFetch_ok [ok]:
  assumes w: "P w"
  shows "P (snd (performHttpFetch h' r n ex net hold w))"
proof (cases "r_fork_mode r = Some ''replay'' \<and> r_source r \<noteq> None")
  case True
  with w show ?thesis by (simp add: performHttpFetch_def Let_def ok)
next
  case False
  have fir: "t_events (snd (fetch_in_run r n ex net hold q key eid pk v)) = t_events v"
    "t_runs (snd (fetch_in_run r n ex net hold q key eid pk v)) = t_runs v" for q key eid pk v
    by (simp_all add: fetch_in_run_def Let_def attempts_tables split: option.split)
  have "t_events (snd (performHttpFetch h' r n ex net hold w)) = t_events w"
    "t_runs (snd (performHttpFetch h' r n ex net hold w)) = t_runs w"
    using False by (auto simp: performHttpFetch_def Let_def split_beta fir tenantBound_def opaque_def claimEffect_tables
        split: option.split)
  with w show ?thesis by (rule tables_ok)
qed

lemma sideEffect_ok [ok]:
  assumes w: "P w"
  shows "P (snd (performConformanceSideEffect h' r n ex w))"
proof (cases "r_fork_mode r = Some ''replay'' \<and> r_source r \<noteq> None")
  case True
  with w show ?thesis by (simp add: performConformanceSideEffect_def ok)
next
  case False
  have "t_events (snd (performConformanceSideEffect h' r n ex w)) = t_events w"
    "t_runs (snd (performConformanceSideEffect h' r n ex w)) = t_runs w"
    using False by (auto simp: performConformanceSideEffect_def Let_def split_beta claimEffect_tables)
  with w show ?thesis by (rule tables_ok)
qed

lemma draws_in_ok [ok]: "P w \<Longrightarrow> P (snd (draws_in h' n ex rs w))"
proof (induction rs arbitrary: w)
  case (Cons r rs)
  from Cons.IH [OF readLog_ok [OF Cons.prems]] readLog_ok [OF Cons.prems]
  show ?case by (simp add: Let_def split_beta)
qed simp

lemma runNondeterminism_ok [ok]:
  assumes w: "P w"
  shows "P (snd (runNondeterminism h' r n ex d w))"
proof -
  have "P (snd (recorded_draws h' r m ex w))" for m
    using w by (auto simp: recorded_draws_def intro: ok split: option.split)
  then show ?thesis using w
    by (auto simp: runNondeterminism_def split_beta split: option.split)
qed

lemma dispatch_node_ok:
  assumes T: "NODE_T \<subseteq> T" and r: "E r" and w: "P w"
  shows "P (snd (dispatch_node h r d n ex v en w))"
proof -
  have em: "t \<in> NODE_T \<Longrightarrow> P v \<Longrightarrow> P (emit h r t p opts v)" for t p opts v
    using T r by (auto intro: emit_ok)
  have t: "ARTIFACT_CREATED \<in> NODE_T" "CONV_OPENED \<in> NODE_T" "CONV_EXCHANGED \<in> NODE_T" "CONV_CLOSED \<in> NODE_T"
    by (simp_all add: NODE_T_def TURN_T_def)
  have nd: "P (snd (case runNondeterminism h r n ex x w of
           (None, w1) \<Rightarrow> (Threw y, w1) | (Some out, w1) \<Rightarrow> (Outputs out, w1)))" for x y
    using runNondeterminism_ok [OF w, of h r n ex x] by (auto split: prod.split option.split)
  have call: "snd (case en_call en of Inr out \<Rightarrow> (F out, w) | Inl e \<Rightarrow> (G e, w)) = w" for F G
    by (simp split: sum.split)
  have gate: "snd (case interruptFor h n r v w of Inl e \<Rightarrow> (Threw e, w) | Inr p \<Rightarrow> (Suspend p, w)) = w"
    by (simp split: sum.split)
  have pair: "snd (let (fr, w1) = x in (K fr, w1)) = snd x" for x :: "fetch_result \<times> world" and K
    by (simp add: split_beta)
  have ma: "P (snd (mockAgent h r n ex w))"
    using T r w by (intro mockAgent_ok) (auto simp: NODE_T_def)
  show ?thesis
    unfolding dispatch_node_def Let_def [of "nd_type n"]
    by (intro if_pair_ok) (simp_all only: nd call gate pair snd_conv,
        simp_all add: w ma ok em t openCouncil_def runConversation_def Let_def)
qed

lemma executeNode_ok: "NODE_T \<subseteq> T \<Longrightarrow> E r \<Longrightarrow> P w \<Longrightarrow> P (snd (executeNode h r d n ex v en w))"
  using dispatch_node_ok [of r w d n ex v en]
  by (auto simp: executeNode_def split_beta intro: ok split: option.split)

section \<open>Requests\<close>

lemma requestCancel_ok:
  assumes T: "{RUN_CANCELLED, NODE_CANCELLED} \<subseteq> T" and S: "{Cancelled, Cancelling} \<subseteq> S" and r: "E r" and w: "P w"
  shows "P (snd (requestCancel h r why w))"
proof -
  have f: "P (snd (fold_run h r w))" using w by (rule fold_run_ok)
  have em: "P v \<Longrightarrow> P (emit h r NODE_CANCELLED p opts v)" for v p opts using T r by (intro emit_ok) auto
  have tc: "P v \<Longrightarrow> P (terminalCancel h r a b c v)" for v a b c using T S r by (intro terminalCancel_ok) auto
  have st: "P v \<Longrightarrow> keeps_core g \<Longrightarrow> P (snd (setStatus r Cancelling g v))" for v g using S r by (intro status_ok) auto
  have k: "keeps_core (\<lambda>x. x\<lparr>r_cancel := True\<rparr>)" by (simp add: keeps_core_def run_core_def)
  show ?thesis using w f em tc k
    by (auto simp: requestCancel_def Let_def split_beta guarded_def intro!: ok st split: option.split)
qed

lemma requestPause_ok:
  assumes T: "RUN_PAUSED \<in> T" and S: "Paused \<in> S" and r: "E r" and w: "P w"
  shows "P (snd (requestPause h r why drain w))"
proof -
  have em: "P v \<Longrightarrow> P (emit h r RUN_PAUSED p opts v)" for v p opts using T r by (intro emit_ok)
  have st: "P v \<Longrightarrow> P (snd (setStatus r Paused (\<lambda>x. x) v))" for v
    using S r by (intro status_ok) (auto simp: keeps_core_def)
  have up: "P v \<Longrightarrow> P (updateRun now (run_id r) (\<lambda>x. x\<lparr>r_pause := True\<rparr>) v)" for v now
    by (erule core_ok) (auto simp: run_core_def intro!: updateRun_core)
  show ?thesis using w by (auto simp: requestPause_def Let_def intro!: ok em st up)
qed

lemma requestResume_ok:
  assumes T: "RUN_RESUMED \<in> T" and S: "Running \<in> S" and r: "E r" and w: "P w"
  shows "P (snd (requestResume h r why w))"
proof -
  have em: "P v \<Longrightarrow> P (emit h r RUN_RESUMED p opts v)" for v p opts using T r by (intro emit_ok)
  have st: "P v \<Longrightarrow> P (snd (setStatus r Running (\<lambda>x. x) v))" for v
    using S r by (intro status_ok) (auto simp: keeps_core_def)
  show ?thesis using w by (auto simp: requestResume_def Let_def intro!: ok em st)
qed

lemma recordResolution_ok:
  assumes T: "APPLY_T \<subseteq> T" and S: "{Failed, Running} \<subseteq> S" and r: "E r" and w: "P w"
  shows "P (snd (recordResolution h r n p w))"
proof -
  have em: "P (emit h r INTERRUPT_RESOLVED p (on_node n) w)"
    using T r w by (intro emit_ok) (auto simp: APPLY_T_def)
  have ap: "P (snd (applyResolution h r n p False (emit h r INTERRUPT_RESOLVED p (on_node n) w)))"
    using T S r em by (intro applyResolution_ok) auto
  obtain x w2 where x: "applyResolution h r n p False (emit h r INTERRUPT_RESOLVED p (on_node n) w) = (x, w2)" by force
  with ap have w2: "P w2" by simp
  have "P (snd (setStatus r Running (\<lambda>x. x\<lparr>r_node := None\<rparr>) w2))"
    using S r w2 by (intro status_ok) (auto simp: keeps_core_def run_core_def)
  with w2 show ?thesis by (cases x) (simp_all add: recordResolution_def x ok)
qed

lemma resolveInterrupt_ok [ok]: "P w \<Longrightarrow> P (snd (resolveInterrupt now i v w))"
  by (erule tables_ok) (simp_all add: resolveInterrupt_def)

lemma claim_and_record_ok:
  assumes T: "APPLY_T \<subseteq> T" and S: "{Failed, Running} \<subseteq> S" and r: "E r" and w: "P w"
  shows "P (snd (claim_and_record h r i rv sb d why w))"
proof -
  obtain b w1 where b: "resolveInterrupt (w_clock w) (i_id i) (or_null rv) w = (b, w1)" by force
  with resolveInterrupt_ok [OF w, of "w_clock w" "i_id i" "or_null rv"] have "P w1" by simp
  with recordResolution_ok [OF T S r this] show ?thesis
    by (cases b) (simp_all add: claim_and_record_def b ok)
qed

lemma validateResolve_ok [ok]:
  assumes "P w"
  shows "P (snd (validateResolve h' r i rv sb w))"
proof -
  have "P (snd (validate_credential r d rv w))" for d
    using assms by (auto simp: validate_credential_def Let_def split_beta intro: ok split: option.split json.split)
  with assms show ?thesis
    by (auto simp: validateResolve_def Let_def split: sum.split)
qed

lemma tallyVote_ok [ok]: "P w \<Longrightarrow> P (snd (tallyVote h' i rv sb d w))"
proof -
  have "t_events (snd (tallyVote h' i rv sb d w)) = t_events w" "t_runs (snd (tallyVote h' i rv sb d w)) = t_runs w"
    by (simp_all add: tallyVote_def Let_def split_beta recordInterruptVotes_def split: option.split)
  then show "P w \<Longrightarrow> ?thesis" by (rule tables_ok [rotated])
qed

lemma resolveAndResume_ok:
  assumes T: "APPLY_T \<subseteq> T" and S: "{Failed, Running} \<subseteq> S" and r: "E r" and w: "P w"
  shows "P (snd (resolveAndResume h r i rv sb w))"
proof -
  obtain v w1 where v: "validateResolve h r i rv sb w = (v, w1)" by force
  with validateResolve_ok [OF w, of h r i rv sb] have g1: "P w1" by simp
  have cr: "P u \<Longrightarrow> P (snd (claim_and_record h r i rv sb d why u))" for d why u
    using T S r by (intro claim_and_record_ok)
  show ?thesis
  proof (cases v)
    case (Inl e)
    with v g1 show ?thesis by (simp add: resolveAndResume_def)
  next
    case (Inr x)
    obtain dec ex where x: "x = (dec, ex)" by (cases x)
    show ?thesis
    proof (cases "ex \<and> dec \<noteq> None \<and> ip_kind (payloadOf i) = ''approval''")
      case True
      then obtain d where d: "dec = Some d" by auto
      obtain y w2 where y: "tallyVote h i rv sb d w1 = (y, w2)" by force
      with tallyVote_ok [OF g1, of h i rv sb d] have "P w2" by simp
      with True v Inr x d y show ?thesis
        by (auto simp: resolveAndResume_def split: sum.split option.split intro: cr)
    next
      case False
      with v Inr x g1 show ?thesis
        by (auto simp: resolveAndResume_def intro: cr split: option.split)
    qed
  qed
qed

lemma sweep_one_ok:
  assumes T: "APPLY_T \<subseteq> T" and S: "{Failed, Running} \<subseteq> S" and w: "P w"
  shows "P (sweep_one h i w)"
proof (cases "getRun (i_run i) w")
  case None
  with w show ?thesis by (simp add: sweep_one_def guarded_def split: option.split)
next
  case (Some r)
  with w have r: "E r" by (rule row_ok)
  obtain b w1 where b: "resolveInterrupt (w_clock w) (i_id i) JNull w = (b, w1)" by force
  with resolveInterrupt_ok [OF w, of "w_clock w" "i_id i" JNull] have "P w1" by simp
  with recordResolution_ok [OF T S r this] w Some show ?thesis
    by (cases b) (simp_all add: sweep_one_def guarded_def b split: option.split)
qed

lemma sweep_ok:
  assumes T: "APPLY_T \<subseteq> T" and S: "{Failed, Running} \<subseteq> S" and w: "P w"
  shows "P (sweepApprovalTimeouts h w)"
proof -
  have "P v \<Longrightarrow> P (fold (sweep_one h) is v)" for "is" v
    by (induction "is" arbitrary: v) (simp_all add: sweep_one_ok [OF T S])
  with w show ?thesis by (simp add: sweepApprovalTimeouts_def ok)
qed

lemma grantCompleted_ok:
  assumes T: "APPLY_T \<subseteq> T" and S: "{Failed, Running} \<subseteq> S" and w: "P w"
  shows "P (grantCompleted h rid n sb w)"
proof (cases "getRun rid w")
  case (Some r)
  with w have "E r" by (rule row_ok)
  from resolveAndResume_ok [OF T S this w] w Some show ?thesis
    by (simp add: grantCompleted_def split: option.split)
qed (use w in \<open>simp add: grantCompleted_def\<close>)

lemma applyPin_ok:
  assumes T: "RUN_CANCELLED \<in> T" and S: "Cancelled \<in> S" and r: "E r" and w: "P w"
  shows "P (snd (applyPinDisposition h r w))"
proof -
  let ?r = "(stamped r)\<lparr>r_pin_checked := True\<rparr>"
  have r': "E ?r" using stamped_row [OF r] by (rule row_same) simp_all
  have em: "P v \<Longrightarrow> P (emit h ?r RUN_CANCELLED p opts v)" for v p opts using T r' by (intro emit_ok)
  have st: "P v \<Longrightarrow> keeps_core g \<Longrightarrow> P (snd (setStatus ?r Cancelled g v))" for v g using S r' by (intro status_ok)
  have up: "P v \<Longrightarrow> P (guarded (updateRun now (run_id r) (\<lambda>x. x\<lparr>r_pin_checked := True\<rparr>)) v)" for v now
    by (erule core_ok) (auto simp: run_core_def guarded_def intro!: updateRun_core)
  have k: "keeps_core (\<lambda>x. x\<lparr>r_completed := a, r_node := b\<rparr>)" for a b by (simp add: keeps_core_def run_core_def)
  show ?thesis using w k
    by (auto simp: applyPinDisposition_def Let_def split_beta intro!: ok em st up)
qed

end

end
