(* ===== verification/System.thy ===== *)
theory System
  imports Executor_Inv
begin

text \<open>
  The host as the event loop of the runtime interleaves it: run loops that were delivered,
  cut at their awaits, and the requests and timers that run between them. One step is what
  runs to completion without yielding; a schedule is any list of steps, so a statement over
  all schedules is a statement over all interleavings.
\<close>

datatype proc =
    Looping loop_ctx
  | Visiting loop_ctx run_row wf_node nat nat nat node_result

record system =
  sy_world :: world
  sy_procs :: "proc list"

datatype op =
    Deliver string
  | Head nat node_env
  | Settle nat
  | Cancel string "string option"
  | Pause string "string option" string
  | Resume string "string option"
  | Resolve string "json option" "subject option"
  | Grant string string subject
  | ReadPin string
  | Sweep
  | Tick nat

fun proc_run :: "proc \<Rightarrow> string" where
  "proc_run (Looping c) = lc_run c"
| "proc_run (Visiting c r n a x s res) = lc_run c"

text \<open>\<open>.catch(\<dots>).finally(() => active.delete(runId))\<close>: the loop of a run ends.\<close>

definition loop_ended :: "string \<Rightarrow> world \<Rightarrow> world" where
  "loop_ended rid w = w\<lparr>w_exc := None, w_active := removeAll rid (w_active w)\<rparr>"

definition drop_proc :: "nat \<Rightarrow> proc list \<Rightarrow> proc list" where
  "drop_proc i ps = take i ps @ drop (Suc i) ps"

definition deliver :: "host \<Rightarrow> string \<Rightarrow> system \<Rightarrow> system" where
  "deliver h rid s =
     (case enter_loop h rid ((sy_world s)\<lparr>w_queue := remove1 rid (w_queue (sy_world s))\<rparr>) of
        (None, w) \<Rightarrow> s\<lparr>sy_world := loop_ended rid w\<rparr>
      | (Some c, w) \<Rightarrow> \<lparr>sy_world = w, sy_procs = sy_procs s @ [Looping c]\<rparr>)"

text \<open>A round: to its end, or to the await, the synchronous part of the node included.\<close>

definition head_step :: "host \<Rightarrow> nat \<Rightarrow> node_env \<Rightarrow> system \<Rightarrow> system" where
  "head_step h i en s =
     (if i < length (sy_procs s) then
        (case sy_procs s ! i of
           Looping c \<Rightarrow>
             (case loop_head h c (sy_world s) of
                (Finished, w) \<Rightarrow> \<lparr>sy_world = loop_ended (lc_run c) w, sy_procs = drop_proc i (sy_procs s)\<rparr>
              | (Again, w) \<Rightarrow> s\<lparr>sy_world := w\<rparr>
              | (Visit r n att ex visit start, w) \<Rightarrow>
                  (case executeNode h r (lc_def c) n ex visit en w of
                     (res, w1) \<Rightarrow> \<lparr>sy_world = w1, sy_procs = (sy_procs s)[i := Visiting c r n att ex start res]\<rparr>))
         | Visiting c r n a x st res \<Rightarrow> s)
      else s)"

definition settle_step :: "host \<Rightarrow> nat \<Rightarrow> system \<Rightarrow> system" where
  "settle_step h i s =
     (if i < length (sy_procs s) then
        (case sy_procs s ! i of
           Looping c \<Rightarrow> s
         | Visiting c r n att ex start res \<Rightarrow>
             (case after_visit h c r n att ex start res (sy_world s) of
                (Finished, w) \<Rightarrow> \<lparr>sy_world = loop_ended (lc_run c) w, sy_procs = drop_proc i (sy_procs s)\<rparr>
              | (_, w) \<Rightarrow> \<lparr>sy_world = w, sy_procs = (sy_procs s)[i := Looping c]\<rparr>))
      else s)"

definition on_world :: "(world \<Rightarrow> world) \<Rightarrow> system \<Rightarrow> system" where
  "on_world f s = s\<lparr>sy_world := f (sy_world s)\<rparr>"

definition with_run :: "string \<Rightarrow> (run_row \<Rightarrow> world \<Rightarrow> world) \<Rightarrow> world \<Rightarrow> world" where
  "with_run rid f w = (case getRun rid w of None \<Rightarrow> w | Some r \<Rightarrow> f r w)"

fun do_op :: "host \<Rightarrow> op \<Rightarrow> system \<Rightarrow> system" where
  "do_op h (Deliver rid) s = deliver h rid s"
| "do_op h (Head i en) s = head_step h i en s"
| "do_op h (Settle i) s = settle_step h i s"
| "do_op h (Cancel rid why) s = on_world (with_run rid (\<lambda>r w. snd (requestCancel h r why w))) s"
| "do_op h (Pause rid why drain) s = on_world (with_run rid (\<lambda>r w. snd (requestPause h r why drain w))) s"
| "do_op h (Resume rid why) s = on_world (with_run rid (\<lambda>r w.
     if r_status r = Paused then snd (requestResume h r why w) else w)) s"
| "do_op h (Resolve iid rv sb) s = on_world (\<lambda>w. case getInterrupt iid w of None \<Rightarrow> w
     | Some i \<Rightarrow> with_run (i_run i) (\<lambda>r w. snd (resolveAndResume h r i rv sb w)) w) s"
| "do_op h (Grant rid nid sb) s = on_world (grantCompleted h rid nid sb) s"
| "do_op h (ReadPin rid) s = on_world (with_run rid (\<lambda>r w. snd (applyPinDisposition h r w))) s"
| "do_op h Sweep s = on_world (sweepApprovalTimeouts h) s"
| "do_op h (Tick n) s = on_world (\<lambda>w. w\<lparr>w_clock := w_clock w + n\<rparr>) s"

section \<open>Invariants of the system\<close>

definition ALL_T :: "string set" where
  "ALL_T = HEAD_T \<union> AFTER_T \<union> NODE_T \<union> START_T \<union> {RUN_RESUMED}"

lemma visit_or_resume_row:
  "visit_or_resume h c r n st w = (Visit r' n' a x v s, w') \<Longrightarrow> r' = r \<and> n' = n"
  by (auto simp: visit_or_resume_def start_visit_def Let_def split: option.splits prod.splits apply_result.splits if_splits)

lemma loop_head_row:
  assumes "loop_head h c w = (Visit r n a x v s, w')"
  shows "getRun (lc_run c) w = Some r"
proof (cases "getRun (lc_run c) w")
  case None
  with assms show ?thesis by (simp add: loop_head_def)
next
  case (Some q)
  obtain st w1 where st: "fold_run h q w = (st, w1)" by force
  obtain b rule where f: "fires h (lc_def c) (nd_id (the (nextNode (lc_def c) (lc_order c) st))) (latestOutcomes st) = (b, rule)" by force
  show ?thesis
  proof (cases "nextNode (lc_def c) (lc_order c) st")
    case None
    with Some st assms show ?thesis by (simp add: loop_head_def unless_thrown_def Let_def split: if_splits)
  next
    case n: (Some m)
    with f have fm: "fires h (lc_def c) (nd_id m) (latestOutcomes st) = (b, rule)" by simp
    show ?thesis
    proof (cases b)
      case True
      with Some st n fm assms have "visit_or_resume h c q m st w1 = (Visit r n a x v s, w')"
        by (simp add: loop_head_def unless_thrown_def Let_def split: if_splits)
      with visit_or_resume_row Some show ?thesis by blast
    next
      case False
      with Some st n fm assms show ?thesis
        by (simp add: loop_head_def unless_thrown_def Let_def split: if_splits)
    qed
  qed
qed

text \<open>The context of a loop, and the row object a suspended round holds.\<close>

fun proc_ok :: "(run_row \<Rightarrow> bool) \<Rightarrow> (loop_ctx \<Rightarrow> bool) \<Rightarrow> proc \<Rightarrow> bool" where
  "proc_ok E C (Looping c) = C c"
| "proc_ok E C (Visiting c r n a x s res) = (C c \<and> E r)"

definition sys_ok :: "(world \<Rightarrow> bool) \<Rightarrow> (run_row \<Rightarrow> bool) \<Rightarrow> (loop_ctx \<Rightarrow> bool) \<Rightarrow> system \<Rightarrow> bool" where
  "sys_ok P E C s \<longleftrightarrow> P (sy_world s) \<and> (\<forall>p \<in> set (sy_procs s). proc_ok E C p)"

lemma set_drop_proc: "set (drop_proc i ps) \<subseteq> set ps"
  by (auto simp: drop_proc_def dest: in_set_takeD in_set_dropD)

context executor_invariant
begin

lemma loop_ended_ok: "P w \<Longrightarrow> P (loop_ended rid w)"
  by (erule tables_ok) (simp_all add: loop_ended_def)

lemma with_run_ok: "(\<And>r. E r \<Longrightarrow> P (f r w)) \<Longrightarrow> P w \<Longrightarrow> P (with_run rid f w)"
  by (auto simp: with_run_def dest: row_ok split: option.split)

definition start_keeps :: "(loop_ctx \<Rightarrow> bool) \<Rightarrow> bool" where
  "start_keeps C \<longleftrightarrow> (\<forall>c w r st v n u. C c \<and> E r \<and> getRun (lc_run c) w = Some r \<and> fold_run h r w = (st, v) \<and> w_exc v = None \<and>
     P w \<and> P v \<and> P u \<and> t_events u = t_events v \<and> fo_starts st < lc_limit c \<longrightarrow> P (snd (start_visit h c r n st u)))"

lemma start_keeps_emit: "NODE_STARTED \<in> T \<Longrightarrow> start_keeps C"
  by (auto simp: start_keeps_def start_visit_def Let_def intro: emit_ok)

text \<open>What a delivery may assume of the context it enters with.\<close>

definition enters_with :: "(loop_ctx \<Rightarrow> bool) \<Rightarrow> bool" where
  "enters_with C \<longleftrightarrow> (\<forall>rid w c v. P w \<and> enter_loop h rid w = (Some c, v) \<longrightarrow> C c)"

lemma do_op_ok:
  assumes T: "ALL_T \<subseteq> T" and S: "S = UNIV" and start: "start_keeps C"
    and enter: "enters_with C" and s: "sys_ok P E C s"
  shows "sys_ok P E C (do_op h opn s)"
proof -
  have ts: "HEAD_T \<subseteq> T" "AFTER_T \<subseteq> T" "NODE_T \<subseteq> T" "START_T \<subseteq> T" "APPLY_T \<subseteq> T" "RUN_RESUMED \<in> T"
    "RUN_CANCELLED \<in> T" "NODE_CANCELLED \<in> T" "RUN_PAUSED \<in> T"
    using T by (auto simp: ALL_T_def HEAD_T_def AFTER_T_def)
  from s have w: "P (sy_world s)" by (simp add: sys_ok_def)
  have rows: "i < length (sy_procs s) \<Longrightarrow> proc_ok E C (sy_procs s ! i)" for i using s by (auto simp: sys_ok_def)
  have world: "P w' \<Longrightarrow> sys_ok P E C (s\<lparr>sy_world := w'\<rparr>)" for w' using s by (simp add: sys_ok_def)
  have upd: "P w' \<Longrightarrow> proc_ok E C p \<Longrightarrow> sys_ok P E C \<lparr>sy_world = w', sy_procs = (sy_procs s)[i := p]\<rparr>" for w' p i
    using s set_update_subset_insert [of "sy_procs s" i p] by (auto simp: sys_ok_def)
  have drp: "P w' \<Longrightarrow> sys_ok P E C \<lparr>sy_world = w', sy_procs = drop_proc i (sy_procs s)\<rparr>" for w' i
    using s set_drop_proc [of i "sy_procs s"] by (auto simp: sys_ok_def)
  have req: "(\<And>r. E r \<Longrightarrow> P (f r (sy_world s))) \<Longrightarrow> sys_ok P E C (on_world (with_run rid f) s)" for f rid
    using world [OF with_run_ok [OF _ w]] by (simp add: on_world_def)
  show ?thesis
  proof (cases opn)
    case (Deliver rid)
    let ?w = "(sy_world s)\<lparr>w_queue := remove1 rid (w_queue (sy_world s))\<rparr>"
    have q: "P ?w" using w by (simp add: ok)
    obtain x v where x: "enter_loop h rid ?w = (x, v)" by force
    with enter_loop_ok [OF ts(4) _ q, of rid] S have "P v" by simp
    moreover have "C c" if "x = Some c" for c using enter q x that by (auto simp: enters_with_def)
    ultimately show ?thesis using x s Deliver world [OF loop_ended_ok]
      by (cases x) (auto simp: deliver_def sys_ok_def)
  next
    case (Head i en)
    show ?thesis
    proof (cases "i < length (sy_procs s) \<and> (\<exists>c. sy_procs s ! i = Looping c)")
      case True
      then obtain c where c: "i < length (sy_procs s)" "sy_procs s ! i = Looping c" by blast
      with rows [of i] have ctx: "C c" by simp
      obtain hr v where hr: "loop_head h c (sy_world s) = (hr, v)" by force
      from start have "P (snd (loop_head h c (sy_world s)))"
        by (intro loop_head_ok [OF ts(1) _ w]) (use S ctx w in \<open>auto simp: start_keeps_def\<close>)
      with hr have v: "P v" by simp
      show ?thesis
      proof (cases hr)
        case (Visit r n a x vi st)
        with hr have "E r" using loop_head_row row_ok [OF w] by blast
        moreover obtain res u where res: "executeNode h r (lc_def c) n x vi en v = (res, u)" by force
        ultimately have "P u" using executeNode_ok [OF ts(3) \<open>E r\<close> v, of "lc_def c" n x vi en] by simp
        with Head c hr Visit res upd \<open>E r\<close> ctx show ?thesis by (simp add: head_step_def)
      qed (use Head c hr v world drp loop_ended_ok in \<open>simp_all add: head_step_def\<close>)
    next
      case False
      with Head s show ?thesis by (auto simp: head_step_def split: proc.split)
    qed
  next
    case (Settle i)
    show ?thesis
    proof (cases "i < length (sy_procs s) \<and> (\<exists>c r n a x st res. sy_procs s ! i = Visiting c r n a x st res)")
      case True
      then obtain c r n a x st res where c: "i < length (sy_procs s)" "sy_procs s ! i = Visiting c r n a x st res" by blast
      with rows [of i] have r: "E r" and ctx: "C c" by simp_all
      obtain hr v where hr: "after_visit h c r n a x st res (sy_world s) = (hr, v)" by force
      with after_visit_ok [OF ts(2) _ r w, of c n a x st res] S have "P v" by simp
      with Settle c hr ctx upd [of v "Looping c" i] drp loop_ended_ok show ?thesis
        by (cases hr) (simp_all add: settle_step_def)
    next
      case False
      with Settle s show ?thesis by (auto simp: settle_step_def split: proc.split)
    qed
  next
    case (Cancel rid why)
    show ?thesis unfolding Cancel do_op.simps
      by (rule req, rule requestCancel_ok) (use ts S w in auto)
  next
    case (Pause rid why drain)
    show ?thesis unfolding Pause do_op.simps
      by (rule req, rule requestPause_ok) (use ts S w in auto)
  next
    case (Resume rid why)
    show ?thesis unfolding Resume do_op.simps
      by (rule req) (use requestResume_ok ts S w in auto)
  next
    case (Resolve iid rv sb)
    have "P (case getInterrupt iid (sy_world s) of None \<Rightarrow> sy_world s
        | Some i \<Rightarrow> with_run (i_run i) (\<lambda>r w. snd (resolveAndResume h r i rv sb w)) (sy_world s))"
      using w ts S by (auto split: option.split intro!: with_run_ok resolveAndResume_ok)
    from world [OF this] show ?thesis by (simp add: Resolve on_world_def)
  next
    case (Grant rid nid sb)
    have "P (grantCompleted h rid nid sb (sy_world s))" using ts S w by (intro grantCompleted_ok) auto
    from world [OF this] show ?thesis by (simp add: Grant on_world_def)
  next
    case (ReadPin rid)
    show ?thesis unfolding ReadPin do_op.simps
      by (rule req, rule applyPin_ok) (use ts S w in auto)
  next
    case Sweep
    have "P (sweepApprovalTimeouts h (sy_world s))" using ts S w by (intro sweep_ok) auto
    from world [OF this] show ?thesis by (simp add: Sweep on_world_def)
  next
    case (Tick n)
    have "P ((sy_world s)\<lparr>w_clock := w_clock (sy_world s) + n\<rparr>)" using w by (simp add: ok)
    from world [OF this] show ?thesis by (simp add: Tick on_world_def)
  qed
qed

end

section \<open>The log is append-only under every interleaving\<close>

lemma same_core_grows: "grows a w \<Longrightarrow> same_core w w' \<Longrightarrow> grows a w'"
  by (rule grows_step [OF grows_frame]) (simp add: same_core_def)

interpretation log_order: executor_invariant h "grows a" "\<lambda>_. True" UNIV UNIV
  for h and a :: world
proof
  fix r :: run_row and st f and w :: world
  assume "grows a w"
  then show "grows a (snd (setStatus r st f w))"
    by (auto simp: setStatus_def intro: grows_intro)
qed (auto intro: emit_grows_from same_core_grows)

lemma do_op_grows: "grows (sy_world s) (sy_world (do_op h opn s))"
proof -
  have rows: "proc_ok (\<lambda>_. True) (\<lambda>_. True) p" for p by (cases p) simp_all
  have "sys_ok (grows (sy_world s)) (\<lambda>_. True) (\<lambda>_. True) s" by (simp add: sys_ok_def rows)
  from log_order.do_op_ok [OF _ refl log_order.start_keeps_emit _ this] show ?thesis
    by (simp add: sys_ok_def log_order.enters_with_def)
qed

interpretation host_log: append_only "\<lambda>rid s. run_events rid (sy_world s)" "\<lambda>s. log_ok (sy_world s)" "do_op h"
  for h
proof
  fix s :: system and opn :: op and rid :: string
  assume ok: "log_ok (sy_world s)"
  have g: "grows (sy_world s) (sy_world (do_op h opn s))" by (rule do_op_grows)
  from g ok show "log_ok (sy_world (do_op h opn s))" unfolding grows_def by blast
  from g ok show "\<exists>es. run_events rid (sy_world (do_op h opn s)) = run_events rid (sy_world s) @ es"
    unfolding grows_def by blast
qed

definition run_ops :: "host \<Rightarrow> op list \<Rightarrow> system \<Rightarrow> system" where
  "run_ops h ops s = fold (do_op h) ops s"

section \<open>A small system\<close>

definition demo_env :: node_env where
  "demo_env = \<lparr>en_polls = [], en_net = (\<lambda>_. NetAnswer 200 None),
     en_holder = \<lparr>fx_status = 200, fx_error = None, fx_denied = False\<rparr>, en_call = Inr JNull,
     en_acquire = AcqUnsupported, en_interrupt_advertised = False, en_connect_url = [],
     en_draws = (''c'', ''r'', ''i'')\<rparr>"

definition demo_system :: "string \<Rightarrow> string \<Rightarrow> system" where
  "demo_system rid wid = \<lparr>sy_world = demo_world [demo_run rid wid], sy_procs = []\<rparr>"

text \<open>
  C1: Under every schedule of deliveries, loop rounds, requests, resolutions and timers, the log of
  every run only grows: the recorded events stay as they are, in their order, and the sequence
  numbers stay \<open>0, 1, 2, \<dots>\<close> without a gap or a repetition.
\<close>

theorem log_only_grows:
  assumes "log_ok (sy_world s)"
  shows "log_ok (sy_world (run_ops h ops s))
    \<and> run_events rid (sy_world (run_ops h ops s)) = run_events rid (sy_world s) @
        drop (length (run_events rid (sy_world s))) (run_events rid (sy_world (run_ops h ops s)))"
  using host_log.acts_inv [OF assms] host_log.cursor_resumes [OF assms] by (simp add: run_ops_def)

lemma demo_log_ok: "log_ok (sy_world (demo_system rid wid))"
  by (simp add: log_ok_def run_events_def seqs_from_zero_def demo_system_def demo_world_def)

lemma log_only_grows_witness:
  "log_ok (sy_world (run_ops demo_host [Deliver ''r'', Head 0 demo_env, Settle 0] (demo_system ''r'' ''l'')))"
  using log_only_grows [OF demo_log_ok, of demo_host "[Deliver ''r'', Head 0 demo_env, Settle 0]" "''r''" "''l''"]
  by (rule conjunct1)

end
