(* ===== verification/Schedules.thy ===== *)
theory Schedules
  imports System
begin

text \<open>
  What every schedule of the host keeps, beyond the order of the logs: the vocabulary of a log is
  the one fixed when its run was created, and no run starts more nodes than its recursion limit.
  Both are predicates on the rows of the runs and of the logs, so they share one discipline: a
  predicate that holds of the appended row survives everything the host does.
\<close>

section \<open>What an append leaves\<close>

definition run_ident :: "run_row \<Rightarrow> string \<times> nat option \<times> json" where
  "run_ident r = (run_id r, r_era r, r_options r)"

definition same_rows :: "world \<Rightarrow> world \<Rightarrow> bool" where
  "same_rows w w' \<longleftrightarrow> t_events w' = t_events w \<and> map run_ident (t_runs w') = map run_ident (t_runs w)"

lemma core_rows: "same_core w w' \<Longrightarrow> same_rows w w'"
proof -
  have "run_ident = (\<lambda>(i, st, e, opts). (i, e, opts)) \<circ> run_core" by (auto simp: run_ident_def run_core_def)
  then have "map run_ident rs = map (\<lambda>(i, st, e, opts). (i, e, opts)) (map run_core rs)" for rs by simp
  then show "same_core w w' \<Longrightarrow> same_rows w w'" by (simp only: same_core_def same_rows_def)
qed

lemma status_rows:
  assumes "keeps_core f"
  shows "same_rows w (snd (setStatus r st f w))"
proof -
  have "run_ident (f (x\<lparr>r_status := st\<rparr>)) = run_ident x" for x
    using assms by (simp add: keeps_core_def run_core_def run_ident_def)
  moreover have "run_ident (x\<lparr>r_updated := n\<rparr>) = run_ident x" for x n by (simp add: run_ident_def)
  ultimately show ?thesis by (simp add: setStatus_def same_rows_def updateRun_def)
qed

lemma same_rows_log_ok: "same_rows w w' \<Longrightarrow> log_ok w' = log_ok w"
  using log_ok_frame [of w' w] by (simp add: same_rows_def)

lemma emit_rows:
  assumes "log_ok w"
  shows "t_runs (emit h r t p opts w) = t_runs w \<and>
    (t_events (emit h r t p opts w) = t_events w \<or>
     (\<exists>st. registered_type h t \<and> toStorageVocabulary (h_art h) t (eraOf r) = Inr st \<and>
       t_events (emit h r t p opts w) = t_events w @ [new_row h r st p opts w]))"
proof (cases "w_exc w = None \<and> registered_type h t")
  case True
  show ?thesis
  proof (cases "toStorageVocabulary (h_art h) t (eraOf r)")
    case (Inl e)
    from appendEvent_refused(2) [OF conjunct2 [OF True] Inl] show ?thesis by (simp add: emit_def guarded_def)
  next
    case (Inr st)
    from appendEvent_accepted [OF assms conjunct2 [OF True] Inr, of p opts] True Inr show ?thesis
      by (simp add: emit_def guarded_def added_def)
  qed
next
  case False
  with appendEvent_refused(1) [of h t r p opts w] show ?thesis by (auto simp: emit_def guarded_def)
qed

lemma new_row_fields [simp]:
  "e_run (new_row h r st p opts w) = run_id r"
  "e_type (new_row h r st p opts w) = st"
  "e_node (new_row h r st p opts w) = ao_node opts"
  by (simp_all add: new_row_def)

lemma emit_one:
  assumes "log_ok w"
  shows "log_ok (emit h r t p opts w) \<and> t_runs (emit h r t p opts w) = t_runs w
    \<and> (t_events (emit h r t p opts w) = t_events w
       \<or> (\<exists>x. t_events (emit h r t p opts w) = t_events w @ [x] \<and> e_run x = run_id r))"
proof -
  have "log_ok (emit h r t p opts w)" using emit_grows [of w h r t p opts] assms by (simp add: grows_def)
  with emit_rows [OF assms, of h r t p opts] show ?thesis using new_row_fields(1) by metis
qed

section \<open>Predicates on the rows\<close>

locale row_predicate =
  fixes h :: host
    and E :: "run_row \<Rightarrow> bool"
    and Q :: "event_row list \<Rightarrow> bool"
    and T :: "string set"
  assumes same_ident: "E r \<Longrightarrow> run_ident r' = run_ident r \<Longrightarrow> E r'"
    and appended: "E r \<Longrightarrow> t \<in> T \<Longrightarrow> registered_type h t \<Longrightarrow> toStorageVocabulary (h_art h) t (eraOf r) = Inr st \<Longrightarrow>
      e_run e = run_id r \<Longrightarrow> e_type e = st \<Longrightarrow> Q es \<Longrightarrow> Q (es @ [e])"
begin

definition kept :: "world \<Rightarrow> bool" where
  "kept w \<longleftrightarrow> log_ok w \<and> (\<forall>r \<in> set (t_runs w). E r) \<and> Q (t_events w)"

lemma kept_rows:
  assumes "kept w" "same_rows w w'"
  shows "kept w'"
proof -
  have "E r" if "r \<in> set (t_runs w')" for r
  proof -
    from that have "run_ident r \<in> set (map run_ident (t_runs w'))" by simp
    then have "run_ident r \<in> set (map run_ident (t_runs w))" using assms(2) by (simp only: same_rows_def)
    then obtain q where "q \<in> set (t_runs w)" "run_ident r = run_ident q" by auto
    with assms(1) same_ident [of q r] show ?thesis by (simp add: kept_def)
  qed
  with assms show ?thesis by (simp add: kept_def same_rows_log_ok) (simp add: same_rows_def)
qed

lemma kept_emit:
  assumes "kept w" "E r" "t \<in> T"
  shows "kept (emit h r t p opts w)"
proof -
  from assms(1) have ok: "log_ok w" by (simp add: kept_def)
  have "log_ok (emit h r t p opts w)" using emit_grows [of w h r t p opts] ok by (simp add: grows_def)
  with emit_rows [OF ok, of h r t p opts] assms appended [OF assms(2,3)] show ?thesis
    by (auto simp: kept_def)
qed

end

sublocale row_predicate \<subseteq> executor_invariant h kept E T UNIV
proof
  fix r r' :: run_row and rid :: string and w :: world
  show "E r \<Longrightarrow> run_id r' = run_id r \<Longrightarrow> r_era r' = r_era r \<Longrightarrow> r_options r' = r_options r \<Longrightarrow> E r'"
    by (erule same_ident) (simp add: run_ident_def)
  show "kept w \<Longrightarrow> getRun rid w = Some r \<Longrightarrow> E r"
    by (auto simp: kept_def getRun_def find_Some_iff)
qed (auto intro: kept_emit kept_rows core_rows status_rows)

section \<open>The vocabulary of a log\<close>

text \<open>A type as the log of an era spells it (persistence.md, the writer rule).\<close>

definition log_type :: "host \<Rightarrow> nat \<Rightarrow> string \<Rightarrow> bool" where
  "log_type h era t \<longleftrightarrow>
     (if era \<ge> 3 then registered_type h t
      else (\<exists>(v2, v1) \<in> set (codemapV2toV1 (h_art h)). v1 = t \<and> registered_type h v2)
        \<or> a_vendor (h_art h) t \<and> org_of t \<in> set (vendorOrgs (h_art h)))"

lemma stored_is_log_type:
  assumes "registered_type h t" "toStorageVocabulary (h_art h) t era = Inr st"
  shows "log_type h era st"
proof (cases "era \<ge> 3")
  case False
  show ?thesis
  proof (cases "map_of (codemapV2toV1 (h_art h)) t")
    case (Some v)
    with assms False show ?thesis
      by (auto simp: log_type_def toStorageVocabulary_def dest!: map_of_SomeD intro!: bexI [where x = "(t, st)"])
  qed (use assms False in \<open>auto simp: log_type_def toStorageVocabulary_def split: if_splits\<close>)
qed (use assms in \<open>simp add: log_type_def toStorageVocabulary_def\<close>)

interpretation vocabulary: row_predicate h "\<lambda>r. eraOf r = era (run_id r)"
    "\<lambda>es. \<forall>e \<in> set es. log_type h (era (e_run e)) (e_type e)" UNIV
  for h :: host and era :: "string \<Rightarrow> nat"
proof
  fix r r' :: run_row
  assume "eraOf r = era (run_id r)" "run_ident r' = run_ident r"
  then show "eraOf r' = era (run_id r')" by (simp add: run_ident_def eraOf_def)
qed (auto dest: stored_is_log_type)

section \<open>Folding one step over a schedule\<close>

lemma run_ops_keep:
  assumes "\<And>opn s. J s \<Longrightarrow> J (do_op h opn s)" "J s"
  shows "J (run_ops h ops s)"
  using assms(2) by (induction ops arbitrary: s) (simp_all add: run_ops_def assms(1))

section \<open>Node starts\<close>

definition is_start :: "string \<Rightarrow> event_row \<Rightarrow> bool" where
  "is_start rid e \<longleftrightarrow> e_run e = rid \<and> e_type e = NODE_STARTED
     \<and> (case e_node e of None \<Rightarrow> False | Some n \<Rightarrow> n \<noteq> [])"

definition starts_of :: "string \<Rightarrow> event_row list \<Rightarrow> nat" where
  "starts_of rid es = count_if (is_start rid) es"

lemma starts_of_snoc: "starts_of rid (es @ [e]) = starts_of rid es + (if is_start rid e then 1 else 0)"
  by (simp add: starts_of_def)

text \<open>The fold of the log counts them, in a log of era 3.\<close>

lemma fold_counts_starts:
  assumes "log_ok w" "eraOf r \<ge> 3" "fold_run h r w = (st, v)" "w_exc v = None"
  shows "v = w \<and> fo_starts st = starts_of (run_id r) (t_events w)"
proof -
  have "w_exc w = None"
    using assms(3,4) by (auto simp: fold_run_def readLog_def split: prod.splits if_splits)
  from readLog_era3 [OF assms(1,2) this] assms(3)
  have v: "v = w" "st = fold_log (map doc_of_row (run_events (run_id r) w))"
    by (auto simp: fold_run_def)
  have "count_if (node_event NODE_STARTED) (map doc_of_row (filter (\<lambda>e. e_run e = rid) es)) = starts_of rid es" for rid es
    by (induction es) (auto simp: starts_of_def is_start_def node_event_def doc_of_row_def split: option.split)
  with v show ?thesis by (simp add: starts_count run_events_def)
qed

text \<open>
  A run of era 3 whose row says the limit \<open>L\<close>, and a log with at most \<open>B\<close> starts, where \<open>L \<le> B\<close>: the
  contexts of its loops carry a limit of at most \<open>B\<close>, and a visit starts only below it.
\<close>

definition limited_to :: "string \<Rightarrow> nat \<Rightarrow> run_row \<Rightarrow> bool" where
  "limited_to rid B r \<longleftrightarrow> (run_id r = rid \<longrightarrow> eraOf r \<ge> 3 \<and> recursionLimit r \<le> B)"

definition ctx_within :: "string \<Rightarrow> nat \<Rightarrow> loop_ctx \<Rightarrow> bool" where
  "ctx_within rid B c \<longleftrightarrow> (lc_run c = rid \<longrightarrow> lc_limit c \<le> B)"

interpretation starts: row_predicate h "limited_to rid B" "\<lambda>es. starts_of rid es \<le> B" "UNIV - {NODE_STARTED}"
  for h :: host and rid :: string and B :: nat
proof
  fix r r' :: run_row
  assume "limited_to rid B r" "run_ident r' = run_ident r"
  then show "limited_to rid B r'" by (simp add: limited_to_def run_ident_def eraOf_def recursionLimit_def)
qed (auto simp: limited_to_def starts_of_snoc is_start_def toStorageVocabulary_def)

lemma setStatus_options: "keeps_core f \<Longrightarrow> r_options (fst (setStatus r st f w)) = r_options r"
  by (simp add: setStatus_def keeps_core_def run_core_def)

lemma entered_limit:
  assumes "enter_loop h rid w = (Some c, v)" "getRun rid w = Some r"
  shows "lc_limit c = recursionLimit r \<and> lc_run c = rid"
proof -
  have same: "r_options q = r_options r \<Longrightarrow> recursionLimit q = recursionLimit r" for q by (simp add: recursionLimit_def)
  have "r_options (snd (fst (start_run h q u))) = r_options q" for q u
    by (simp add: start_run_def Let_def split_beta setStatus_options keeps_core_def run_core_def)
  moreover have "r_options (fst (setStatus q Running (\<lambda>x. x) u)) = r_options q" for q u
    by (rule setStatus_options) (simp add: keeps_core_def)
  moreover have "r_options (stamped r) = r_options r" by (simp add: stamped_def)
  ultimately show ?thesis using assms
    by (auto simp: enter_loop_def Let_def split_beta intro!: same split: option.splits if_splits)
qed

lemma starts_enter: "starts.enters_with h rid B (ctx_within rid B)"
proof (unfold starts.enters_with_def, intro allI impI)
  fix rid' w c v
  assume a: "starts.kept rid B w \<and> enter_loop h rid' w = (Some c, v)"
  then obtain r where r: "getRun rid' w = Some r" by (cases "getRun rid' w") (auto simp: enter_loop_def)
  with a have "limited_to rid B r" using starts.row_ok by blast
  moreover have "run_id r = rid'" using r by (rule getRun_id)
  ultimately show "ctx_within rid B c" using entered_limit [of h rid' w c v r] a r
    by (auto simp: ctx_within_def limited_to_def)
qed

lemma starts_start: "starts.start_keeps h rid B (ctx_within rid B)"
proof (unfold starts.start_keeps_def, intro allI impI, elim conjE)
  fix c w r st v u and n :: wf_node
  assume c: "ctx_within rid B c" and r: "limited_to rid B r" "getRun (lc_run c) w = Some r"
    and st: "fold_run h r w = (st, v)" "w_exc v = None" "fo_starts st < lc_limit c"
    and kept: "starts.kept rid B w" "starts.kept rid B v" "starts.kept rid B u" and ev: "t_events u = t_events v"
  have id: "run_id r = lc_run c" using r(2) by (rule getRun_id)
  have ok: "log_ok w" "log_ok u" using kept by (simp_all add: starts.kept_def)
  let ?e = "emit h r NODE_STARTED (JObj [(''nodeId'', JStr (nd_id n)), (''typeId'', JStr (nd_type n)),
             (''attempt'', JNum (int (mget_or 0 (fo_attempts st) (nd_id n))))]) (on_node (nd_id n)) u"
  have new: "snd (start_visit h c r n st u) = ?e" by (simp add: start_visit_def Let_def)
  note rows = emit_one [OF ok(2), of h r NODE_STARTED "JObj [(''nodeId'', JStr (nd_id n)), (''typeId'', JStr (nd_type n)),
             (''attempt'', JNum (int (mget_or 0 (fo_attempts st) (nd_id n))))]" "on_node (nd_id n)"]
  have "starts_of rid (t_events ?e) \<le> B"
  proof (cases "run_id r = rid")
    case True
    with r have "eraOf r \<ge> 3" by (simp add: limited_to_def)
    from fold_counts_starts [OF ok(1) this st(1,2)] st(3) c True id ev
    have "starts_of rid (t_events u) < B" by (simp add: ctx_within_def)
    with rows show ?thesis by (auto simp: starts_of_snoc)
  next
    case False
    with rows kept(3) show ?thesis by (auto simp: starts.kept_def starts_of_snoc is_start_def)
  qed
  with rows kept(3) new show "starts.kept rid B (snd (start_visit h c r n st u))" by (simp add: starts.kept_def)
qed

section \<open>Over every schedule\<close>

text \<open>
  C15: The vocabulary of a log is fixed when its run is created: under every schedule from a host
  that just started, every event of a log has the spelling of its run's era, a registered or vendor
  type from era 3 on, the codemap's v1 spelling or an admitted vendor type before it.
\<close>

theorem log_vocabulary_is_fixed:
  assumes "log_ok (sy_world s)" "sy_procs s = []"
    and "\<forall>r \<in> set (t_runs (sy_world s)). eraOf r = era (run_id r)"
    and "\<forall>e \<in> set (t_events (sy_world s)). log_type h (era (e_run e)) (e_type e)"
  shows "\<forall>e \<in> set (t_events (sy_world (run_ops h ops s))). log_type h (era (e_run e)) (e_type e)"
proof -
  let ?J = "sys_ok (vocabulary.kept era h) (\<lambda>r. eraOf r = era (run_id r)) (\<lambda>_. True)"
  have "?J s" using assms by (simp add: sys_ok_def vocabulary.kept_def)
  then have "?J (run_ops h ops s)"
    by (rule run_ops_keep [rotated]) (auto intro!: vocabulary.do_op_ok vocabulary.start_keeps_emit simp: vocabulary.enters_with_def)
  then show ?thesis by (simp add: sys_ok_def vocabulary.kept_def)
qed


lemma log_vocabulary_is_fixed_witness:
  "list_all (\<lambda>e. log_type demo_host 3 (e_type e))
     (t_events (sy_world (run_ops demo_host [Deliver ''r'', Head 0 demo_env, Settle 0] (demo_system ''r'' ''l''))))"
  unfolding list_all_iff
  by (rule log_vocabulary_is_fixed [OF demo_log_ok]) (simp_all add: demo_system_def demo_world_def demo_run_def eraOf_def)


end
