(* ===== verification/Ids.thy ===== *)
theory Ids
  imports Encoding
begin

text \<open>
  \<open>ids.ts\<close>: the identifier grammars, the projection of a tenant-bound id into one path
  segment and back, and the tenant check. Strings are UTF-8 bytes; the source indexes UTF-16
  code units, so a character beyond the basic plane is two units there (\<open>unit_count\<close>).
\<close>

section \<open>Grammars\<close>

definition ascii_alnum :: "char \<Rightarrow> bool" where
  "ascii_alnum c = (let n = (of_char c :: nat) in
     (48 \<le> n \<and> n \<le> 57) \<or> (65 \<le> n \<and> n \<le> 90) \<or> (97 \<le> n \<and> n \<le> 122))"

definition id_char :: "char \<Rightarrow> bool" where
  "id_char c \<longleftrightarrow> ascii_alnum c \<or> c \<in> {CHR ''.'', CHR ''_'', CHR ''~'', CHR ''-''}"

definition of_grammar :: "(char \<Rightarrow> bool) \<Rightarrow> nat \<Rightarrow> nat \<Rightarrow> string \<Rightarrow> bool" where
  "of_grammar p lo hi s \<longleftrightarrow> lo \<le> length s \<and> length s \<le> hi \<and> list_all p s"

definition OPAQUE :: "string \<Rightarrow> bool" where "OPAQUE = of_grammar id_char 16 128"
definition TENANT_ID :: "string \<Rightarrow> bool" where "TENANT_ID = of_grammar id_char 1 128"
definition NODE_ID :: "string \<Rightarrow> bool" where "NODE_ID = of_grammar (\<lambda>c. id_char c \<or> c = CHR '':'') 1 128"
definition KEY_ID :: "string \<Rightarrow> bool" where "KEY_ID = of_grammar id_char 1 128"
definition IDEMPOTENCY_KEY :: "string \<Rightarrow> bool" where "IDEMPOTENCY_KEY = of_grammar id_char 22 128"

text \<open>\<open>^(0|[1-9][0-9]*)\.(0|[1-9][0-9]*)$\<close>.\<close>

definition VERSION :: "string \<Rightarrow> bool" where
  "VERSION s = (case split_on (CHR ''.'') s of [a, b] \<Rightarrow> is_decimal a \<and> is_decimal b | _ \<Rightarrow> False)"

definition TENANT_BOUND :: "string \<Rightarrow> bool" where
  "TENANT_BOUND s = (case split_on (CHR ''/'') s of [t, x] \<Rightarrow> TENANT_ID t \<and> OPAQUE x | _ \<Rightarrow> False)"

section \<open>The projection\<close>

definition passes_through :: "char \<Rightarrow> bool" where
  "passes_through c \<longleftrightarrow> ascii_alnum c \<or> c \<in> {CHR ''.'', CHR ''_'', CHR ''-''}"

definition upper_hex :: "nat \<Rightarrow> char" where
  "upper_hex n = char_of (if n < 10 then 48 + n else 55 + n)"

definition project_byte :: "char \<Rightarrow> string" where
  "project_byte c = (if passes_through c then [c]
     else [CHR ''~'', upper_hex (of_char c div 16), upper_hex (of_char c mod 16)])"

definition projectBoundId :: "string \<Rightarrow> string" where
  "projectBoundId s = concat (map project_byte s)"

text \<open>The UTF-16 units a byte accounts for, counted at the leading byte of its character.\<close>

definition unit_count :: "char \<Rightarrow> nat" where
  "unit_count c = (let n = (of_char c :: nat) in if 128 \<le> n \<and> n < 192 then 0 else if 240 \<le> n then 2 else 1)"

text \<open>\<open>s.length\<close>: the length in UTF-16 units.\<close>

definition utf16_length :: "string \<Rightarrow> nat" where
  "utf16_length s = sum_list (map unit_count s)"

fun bad_escape :: "nat \<Rightarrow> string \<Rightarrow> nat option" where
  "bad_escape i [] = None"
| "bad_escape i (c # s) =
     (if c \<noteq> CHR ''~'' then bad_escape (i + unit_count c) s
      else case s of
        a # b # r \<Rightarrow> if hex_value a \<noteq> None \<and> hex_value b \<noteq> None then bad_escape (i + 3) r else Some i
      | _ \<Rightarrow> Some i)"

text \<open>A unit that is half of a surrogate pair encodes to U+FFFD.\<close>

definition REPLACEMENT :: string where "REPLACEMENT = [CHR 0xEF, CHR 0xBF, CHR 0xBD]"

fun unescape :: "string \<Rightarrow> string" where
  "unescape [] = []"
| "unescape (c # s) =
     (if c = CHR ''~'' then
        (case s of a # b # r \<Rightarrow> char_of (16 * the (hex_value a) + the (hex_value b)) # unescape r | _ \<Rightarrow> [])
      else if 240 \<le> (of_char c :: nat) then
        (case s of x # y # z # r \<Rightarrow> REPLACEMENT @ REPLACEMENT @ unescape r | _ \<Rightarrow> c # unescape s)
      else c # unescape s)"

definition continues :: "char \<Rightarrow> bool" where
  "continues c = (let n = (of_char c :: nat) in 128 \<le> n \<and> n < 192)"

fun utf8_ok :: "string \<Rightarrow> bool" where
  "utf8_ok [] = True"
| "utf8_ok (c # s) =
     (let n = (of_char c :: nat) in
      if n < 128 then utf8_ok s
      else if 194 \<le> n \<and> n < 224 then (case s of x # r \<Rightarrow> continues x \<and> utf8_ok r | _ \<Rightarrow> False)
      else if 224 \<le> n \<and> n < 240 then
        (case s of x # y # r \<Rightarrow> continues x \<and> continues y
            \<and> (n = 224 \<longrightarrow> 160 \<le> (of_char x :: nat)) \<and> (n = 237 \<longrightarrow> (of_char x :: nat) < 160) \<and> utf8_ok r
         | _ \<Rightarrow> False)
      else if 240 \<le> n \<and> n < 245 then
        (case s of x # y # z # r \<Rightarrow> continues x \<and> continues y \<and> continues z
            \<and> (n = 240 \<longrightarrow> 144 \<le> (of_char x :: nat)) \<and> (n = 244 \<longrightarrow> (of_char x :: nat) < 144) \<and> utf8_ok r
         | _ \<Rightarrow> False)
      else False)"

text \<open>\<open>TextDecoder\<close> drops a leading byte order mark.\<close>

definition BOM :: string where "BOM = [CHR 0xEF, CHR 0xBB, CHR 0xBF]"

definition decode_utf8 :: "string \<Rightarrow> string option" where
  "decode_utf8 s = (if \<not> utf8_ok s then None else if take 3 s = BOM then Some (drop 3 s) else Some s)"

definition segment_details :: "string \<Rightarrow> json option" where
  "segment_details s = Some (JObj [(''segment'', JStr s)])"

definition unprojectBoundId :: "string \<Rightarrow> exn + string" where
  "unprojectBoundId s =
     (if CHR ''~'' \<notin> set s then Inr s else
      case bad_escape 0 s of
        Some i \<Rightarrow> Inl (HostError ''validation_error'' (''bound-id projection: '~' at index '' @ nat_string i @
            '' is not followed by two hex digits (identity.md '' @ SECTION_SIGN @ ''5)'') (segment_details s))
      | None \<Rightarrow>
         (case decode_utf8 (unescape s) of
            None \<Rightarrow> Inl (HostError ''validation_error'' (''bound-id projection: the escaped bytes are not valid UTF-8 (identity.md ''
               @ SECTION_SIGN @ ''5)'') (segment_details s))
          | Some x \<Rightarrow> Inr x))"

section \<open>The tenant check\<close>

definition checkTenantBound :: "string \<Rightarrow> string \<Rightarrow> string \<Rightarrow> exn + string \<times> string" where
  "checkTenantBound i tenant kind =
     (let t = takeWhile (\<lambda>c. c \<noteq> CHR ''/'') i; r = dropWhile (\<lambda>c. c \<noteq> CHR ''/'') i
      in if r = [] \<or> t = [] then Inl (HostError ''not_found'' (kind @ '' '' @ i @ '' is not a tenant-bound id'') None)
         else if \<not> TENANT_ID t \<or> \<not> OPAQUE (tl r) then Inl (HostError ''not_found'' (kind @ '' not found'') None)
         else if t \<noteq> tenant then Inl (HostError ''id_tenant_mismatch'' (''the '' @ kind @ '''s tenant segment is not the caller's'') None)
         else Inr (t, tl r))"

section \<open>Projecting and back\<close>

lemma hex_value_upper: "n < 16 \<Longrightarrow> hex_value (upper_hex n) = Some n"
  by (auto simp: hex_value_def upper_hex_def Let_def)

lemma passes_through_plain: "passes_through c \<Longrightarrow> c \<noteq> CHR ''~'' \<and> (of_char c :: nat) < 128"
  by (auto simp: passes_through_def ascii_alnum_def Let_def)

lemma byte_halves: "(of_char c :: nat) div 16 < 16" "(of_char c :: nat) mod 16 < 16"
  using nat_of_char_less_256 [of c] by (simp_all add: less_mult_imp_div_less)

lemma byte_of_halves: "char_of (16 * (of_char c div 16) + of_char c mod 16 :: nat) = c"
  by (rule char_of_eqI) simp

lemma unescape_projected: "unescape (projectBoundId s) = s"
proof (induction s)
  case (Cons c s)
  show ?case
  proof (cases "passes_through c")
    case True
    with Cons passes_through_plain [OF this] show ?thesis by (simp add: projectBoundId_def project_byte_def)
  next
    case False
    with Cons show ?thesis
      by (simp add: projectBoundId_def project_byte_def hex_value_upper [OF byte_halves(1)]
          hex_value_upper [OF byte_halves(2)] byte_of_halves)
  qed
qed (simp add: projectBoundId_def)

lemma bad_escape_projected: "bad_escape i (projectBoundId s) = None"
proof (induction s arbitrary: i)
  case (Cons c s)
  have "\<exists>j. bad_escape i (projectBoundId (c # s)) = bad_escape j (projectBoundId s)"
    using passes_through_plain [of c]
    by (auto simp: projectBoundId_def project_byte_def hex_value_upper [OF byte_halves(1)] hex_value_upper [OF byte_halves(2)])
  with Cons.IH show ?case by auto
qed (simp add: projectBoundId_def)

lemma upper_hex_alnum: "n < 16 \<Longrightarrow> ascii_alnum (upper_hex n)"
  by (simp add: ascii_alnum_def upper_hex_def Let_def)

lemma project_byte_id_char: "list_all id_char (project_byte c)"
  using upper_hex_alnum [OF byte_halves(1), of c] upper_hex_alnum [OF byte_halves(2), of c]
  by (auto simp: project_byte_def id_char_def passes_through_def)

lemma projected_id_char: "list_all id_char (projectBoundId s)"
  by (induction s) (simp_all add: projectBoundId_def project_byte_id_char)

lemma projected_plain: "CHR ''~'' \<notin> set (projectBoundId s) \<Longrightarrow> projectBoundId s = s"
  by (induction s) (auto simp: projectBoundId_def project_byte_def split: if_splits)

text \<open>
  The wire projection of an id is one path segment over the unreserved characters, and the accept
  side decodes it to the id it was made from, whatever UTF-8 text the id is (one that opens with a byte
  order mark excepted, which the decoder drops).
\<close>

theorem projection_roundtrip:
  assumes "utf8_ok s" "take 3 s \<noteq> BOM"
  shows "unprojectBoundId (projectBoundId s) = Inr s \<and> list_all id_char (projectBoundId s)"
  using assms projected_plain [of s]
  by (simp add: unprojectBoundId_def bad_escape_projected unescape_projected decode_utf8_def projected_id_char)

lemma projection_roundtrip_witness:
  "unprojectBoundId (projectBoundId ''acme/run~1'') = Inr ''acme/run~1'' \<and> projectBoundId ''acme/run~1'' = ''acme~2Frun~7E1''"
proof -
  have "utf8_ok ''acme/run~1''" "take 3 ''acme/run~1'' \<noteq> BOM" "projectBoundId ''acme/run~1'' = ''acme~2Frun~7E1''"
    by code_simp+
  with projection_roundtrip show ?thesis by blast
qed

text \<open>The codec is not idempotent: a segment projected twice decodes to the once-projected one.\<close>

section \<open>The tenant check\<close>

lemma id_char_no_slash: "list_all id_char s \<Longrightarrow> CHR ''/'' \<notin> set s"
proof -
  have "\<not> id_char (CHR ''/'')" by code_simp
  then show "list_all id_char s \<Longrightarrow> ?thesis" by (auto simp: list_all_iff)
qed

text \<open>
  The tenant check accepts exactly the ids of the tenant-bound grammar whose tenant segment is the
  caller's, and answers their two parts.
\<close>

theorem tenant_check_accepts:
  "checkTenantBound i tenant kind = Inr (t, x) \<longleftrightarrow> TENANT_BOUND i \<and> t = tenant \<and> i = tenant @ CHR ''/'' # x"
proof
  assume a: "checkTenantBound i tenant kind = Inr (t, x)"
  let ?r = "dropWhile (\<lambda>c. c \<noteq> CHR ''/'') i"
  from a have p: "?r \<noteq> []" "t = takeWhile (\<lambda>c. c \<noteq> CHR ''/'') i" "TENANT_ID t" "x = tl ?r" "OPAQUE x" "t = tenant"
    by (auto simp: checkTenantBound_def Let_def split: if_splits)
  from p(1) have "hd ?r = CHR ''/''" using hd_dropWhile by blast
  with p(1,4) have "?r = CHR ''/'' # x" by (metis list.collapse)
  with p(2) have i: "i = t @ CHR ''/'' # x" by (metis takeWhile_dropWhile_id)
  from p(3,5) have "CHR ''/'' \<notin> set t" "CHR ''/'' \<notin> set x"
    by (simp_all add: id_char_no_slash TENANT_ID_def OPAQUE_def of_grammar_def)
  then have "split_on (CHR ''/'') i = [t, x]" unfolding i by (simp only: split_on_append split_on_no_sep not_False_eq_True)
  with p(3,5,6) i show "TENANT_BOUND i \<and> t = tenant \<and> i = tenant @ CHR ''/'' # x" by (simp add: TENANT_BOUND_def)
next
  assume a: "TENANT_BOUND i \<and> t = tenant \<and> i = tenant @ CHR ''/'' # x"
  then obtain u y where u: "split_on (CHR ''/'') i = [u, y]" "TENANT_ID u" "OPAQUE y"
    by (auto simp: TENANT_BOUND_def split: list.splits)
  then have i: "i = u @ CHR ''/'' # y" using join_split [of "CHR ''/''" i] by simp
  have s: "CHR ''/'' \<notin> set u" "CHR ''/'' \<notin> set y"
    using u by (simp_all add: id_char_no_slash TENANT_ID_def OPAQUE_def of_grammar_def)
  then have cut: "takeWhile (\<lambda>c. c \<noteq> CHR ''/'') i = u" "dropWhile (\<lambda>c. c \<noteq> CHR ''/'') i = CHR ''/'' # y"
    unfolding i by (simp_all only: cut_at not_False_eq_True)
  have "tenant = u \<and> x = y"
  proof -
    from a i have e: "tenant @ CHR ''/'' # x = u @ CHR ''/'' # y" by simp
    let ?n = "count_if (\<lambda>c. c = CHR ''/'')"
    have zero: "?n z = 0 \<longleftrightarrow> CHR ''/'' \<notin> set z" for z by (auto simp: count_if_def filter_empty_conv)
    have "?n (tenant @ CHR ''/'' # x) = ?n (u @ CHR ''/'' # y)" by (simp only: e)
    with s have "?n tenant = 0" by (simp add: zero [symmetric])
    then have "CHR ''/'' \<notin> set tenant" by (simp only: zero not_False_eq_True)
    from cut_unique [OF this s(1) e] show ?thesis .
  qed
  with a u(2,3) cut show "checkTenantBound i tenant kind = Inr (t, x)"
    by (auto simp: checkTenantBound_def Let_def TENANT_ID_def of_grammar_def)
qed

end
