(* ===== verification/Replay.thy ===== *)
theory Replay
  imports Executor
begin

text \<open>
  \<open>replay.ts\<close>: the fork of a run, and the boot-time recovery of \<open>durability.ts\<close>. A fork is a
  new run whose log starts with a copy of the source's events below \<open>fromSeq\<close>, read through
  the storage boundary and never fanned out. The lemmas show that the executor folds the copy
  to the same state as the source's prefix.
\<close>

section \<open>Forking\<close>

record fork_reply =
  fr_run :: string
  fr_source :: string
  fr_from :: int
  fr_mode :: string
  fr_status :: run_status

definition FORK_KEYS :: "string list" where
  "FORK_KEYS = [''mode'', ''fromSeq'', ''runOptionsOverlay'']"

definition empty_overlay :: "json option \<Rightarrow> bool" where
  "empty_overlay v \<longleftrightarrow> is_object v \<and> members_of v = []"

text \<open>The refusals that read the body only, then the mode and the fork point.\<close>

definition fork_request :: "(string \<times> json) list \<Rightarrow> exn + string \<times> int" where
  "fork_request body =
     (case find (\<lambda>k. k \<notin> set FORK_KEYS) (map fst body) of
        Some k \<Rightarrow> Inl (HostError ''validation_error'' (''unknown key '' @ k @ '' in the fork body'') (Some (JObj [(''key'', JStr k)])))
      | None \<Rightarrow>
        (let mode = map_of body ''mode''; overlay = map_of body ''runOptionsOverlay''; from = map_of body ''fromSeq'' in
         if mode \<noteq> Some (JStr ''replay'') \<and> mode \<noteq> Some (JStr ''branch'')
         then Inl (HostError ''validation_error'' ''mode MUST be replay | branch'' (Some (jobj [(''mode'', mode)])))
         else if mode = Some (JStr ''replay'') \<and> overlay \<noteq> None \<and> \<not> empty_overlay overlay
         then Inl (HostError ''validation_error'' ''runOptionsOverlay MUST be omitted or empty for replay'' None)
         else if mode = Some (JStr ''branch'') \<and> from = None
         then Inl (HostError ''validation_error'' ''fromSeq is REQUIRED for branch'' None)
         else case from of
           None \<Rightarrow> Inr (text_of mode, 0)
         | Some (JNum n) \<Rightarrow> if n < 0 then Inl (HostError ''validation_error'' ''fromSeq MUST be an integer >= 0'' None)
             else Inr (text_of mode, n)
         | Some _ \<Rightarrow> Inl (HostError ''validation_error'' ''fromSeq MUST be an integer >= 0'' None)))"

definition fork_options :: "string \<Rightarrow> json option \<Rightarrow> json \<Rightarrow> json" where
  "fork_options mode overlay options =
     (if mode = ''branch'' \<and> is_object overlay
      then JObj (fold (\<lambda>(k, v) m. AList.update k v m) (members_of overlay) (members_of (Some options)))
      else options)"

definition fork_row :: "run_row \<Rightarrow> string \<Rightarrow> string \<Rightarrow> int \<Rightarrow> json \<Rightarrow> json \<Rightarrow> nat \<Rightarrow> run_row" where
  "fork_row src cid mode from owner options now =
     \<lparr>run_id = cid, r_tenant = r_tenant src, r_workflow = r_workflow src, r_status = Pending,
      r_era = Some EVENT_LOG_SCHEMA_VERSION, r_owner = Some owner, r_options = options, r_inputs = r_inputs src,
      r_created = now, r_updated = now, r_started = None, r_completed = None, r_node = None, r_error = None,
      r_source = Some (run_id src), r_fork_mode = Some mode, r_from_seq = Some from, r_comp = None,
      r_pause = False, r_cancel = False, r_pin_checked = True, r_scope = None\<rparr>"

text \<open>One event of the prefix: its own time, node and cause; fixed history is not fanned out.\<close>

definition fixed_history :: "event_doc \<Rightarrow> append_opts" where
  "fixed_history e = \<lparr>ao_node = doc_node e, ao_causation = doc_causation e, ao_fixed = True, ao_time = Some (doc_time e)\<rparr>"

definition copy_event :: "host \<Rightarrow> run_row \<Rightarrow> event_doc \<Rightarrow> world \<Rightarrow> world" where
  "copy_event h child e w =
     (let w1 = emit h child (doc_type e) (doc_payload e) (fixed_history e) w
      in if doc_type e = RUN_STARTED
         then guarded (\<lambda>w. updateRun (w_clock w) (run_id child) (\<lambda>x. x\<lparr>r_started := Some (doc_time e)\<rparr>) w) w1
         else w1)"

definition before_fork :: "int \<Rightarrow> event_doc list \<Rightarrow> event_doc list" where
  "before_fork from es = takeWhile (\<lambda>e. doc_seq e < from) es"

definition copy_prefix :: "host \<Rightarrow> run_row \<Rightarrow> event_doc list \<Rightarrow> world \<Rightarrow> world" where
  "copy_prefix h child es w = fold (copy_event h child) es w"

definition fork_started :: "int \<Rightarrow> event_doc list \<Rightarrow> bool" where
  "fork_started from es \<longleftrightarrow> (\<exists>e \<in> set es. doc_seq e < from \<and> doc_type e = RUN_STARTED)"

text \<open>After the refusals: the row, the copied prefix, the status, and the queued loop.\<close>

definition make_fork :: "host \<Rightarrow> run_row \<Rightarrow> string \<Rightarrow> int \<Rightarrow> json option \<Rightarrow> event_doc list \<Rightarrow> world \<Rightarrow> (exn + fork_reply) \<times> world" where
  "make_fork h src mode from overlay prefix w =
     (let (owner, w1) = ownerOf src w; (cid, w2) = tenantBound h (r_tenant src) w1;
          child = fork_row src cid mode from owner (fork_options mode overlay (r_options src)) (w_clock w2);
          st = (if fork_started from prefix then Running else Pending)
      in case insertRun child w2 of
           None \<Rightarrow> (Inl (JsError ''UNIQUE constraint failed: runs''), w2)
         | Some w3 \<Rightarrow> catching
             (let w4 = copy_prefix h child (before_fork from prefix) w3;
                  w5 = guarded (\<lambda>w. updateRun (w_clock w) cid (\<lambda>x. x\<lparr>r_status := st\<rparr>) w) w4
              in (\<lparr>fr_run = cid, fr_source = run_id src, fr_from = from, fr_mode = mode, fr_status = st\<rparr>, scheduleRun cid w5)))"

definition forkRun :: "host \<Rightarrow> run_row \<Rightarrow> (string \<times> json) list \<Rightarrow> world \<Rightarrow> (exn + fork_reply) \<times> world" where
  "forkRun h src body w =
     (case fork_request body of Inl e \<Rightarrow> (Inl e, w)
      | Inr (mode, from) \<Rightarrow>
         (case readEvents h src (-1) w of (Inl e, w1) \<Rightarrow> (Inl e, w1)
          | (Inr prefix, w1) \<Rightarrow>
             if from > 0 \<and> \<not> (\<exists>e \<in> set prefix. doc_seq e = from) \<and> from \<noteq> lastSequence (run_id src) w1 + 1
             then (Inl (HostError ''fork_point_invalid'' (''fromSeq '' @ int_string from @ '' is not a sequence in the source log'')
                    (Some (JObj [(''fromSeq'', JNum from), (''lastSequence'', JNum (lastSequence (run_id src) w1))]))), w1)
             else if int (r_created src) < int (w_clock w1) - int (h_retention_ms h)
             then (Inl (HostError ''fork_point_invalid'' ''the source log is past the advertised replay retention''
                    (Some (JObj [(''sourceRunId'', JStr (run_id src)), (''fromSeq'', JNum from),
                       (''retentionDays'', JNum (int (h_retention_ms h div 86400000)))]))), w1)
             else make_fork h (stamped src) mode from (map_of body ''runOptionsOverlay'') prefix w1))"

section \<open>Recovery at boot\<close>

text \<open>An exception leaves the boot loop: the runs after it are not re-entered.\<close>

definition restored_payload :: "event_doc list \<Rightarrow> json" where
  "restored_payload es = JObj [(''fromSnapshotSeq'', JNum (case es of [] \<Rightarrow> 0 | e # r \<Rightarrow> fold max (map doc_seq r) (doc_seq e))),
     (''engineVersion'', JNum (int ENGINE_VERSION))]"

definition recoverable :: "run_row \<Rightarrow> bool" where
  "recoverable r \<longleftrightarrow> \<not> eraOf r < 3 \<and> r_status r \<in> {Running, Pending, Cancelling}"

definition recover_one :: "host \<Rightarrow> run_row \<Rightarrow> world \<Rightarrow> world" where
  "recover_one h r w =
     (if \<not> recoverable r then w else
      let (log, w1) = readLog h r w;
          w2 = (if \<exists>e \<in> set log. doc_type e = RUN_STARTED
                then emit h r WORKFLOW_RESTORED (restored_payload log) no_opts w1 else w1)
      in scheduleRun (run_id r) w2)"

definition recoverInFlightRuns :: "host \<Rightarrow> world \<Rightarrow> (exn + nat) \<times> world" where
  "recoverInFlightRuns h w =
     catching (length (filter recoverable (nonTerminalRuns w)), fold (recover_one h) (nonTerminalRuns w) w)"

record bound_term =
  bt_name :: string
  bt_ms :: nat

definition recovery_terms :: "nat \<Rightarrow> nat \<Rightarrow> bound_term list" where
  "recovery_terms restart reentry = [\<lparr>bt_name = ''supervisor.restartDelay'', bt_ms = restart\<rparr>,
     \<lparr>bt_name = ''boot.reentryBudget'', bt_ms = reentry\<rparr>]"

definition recoveryBound :: "nat \<Rightarrow> nat \<Rightarrow> nat option \<Rightarrow> nat \<times> bool option" where
  "recoveryBound restart reentry lastBoot =
     (fold (\<lambda>t a. a + bt_ms t) (recovery_terms restart reentry) 0, map_option (\<lambda>ms. ms \<le> reentry) lastBoot)"

section \<open>The copy folds to the state of the prefix\<close>

definition doc_key :: "event_doc \<Rightarrow> string \<times> json \<times> nat \<times> string option \<times> string option" where
  "doc_key e = (doc_type e, doc_payload e, doc_time e, doc_node e, doc_causation e)"

lemma fold_step_key:
  assumes "doc_key e = doc_key e'" "doc_seq e = doc_seq e'"
  shows "fold_step e s = fold_step e' s"
proof -
  have "doc_type e = doc_type e'" "doc_payload e = doc_payload e'" "doc_time e = doc_time e'"
    "doc_node e = doc_node e'" "doc_causation e = doc_causation e'"
    using assms(1) unfolding doc_key_def prod.inject by blast+
  note eqs = this assms(2)
  have "f_run_started e = f_run_started e'" "f_unsuspended e = f_unsuspended e'"
    by (rule ext, simp only: f_run_started_def f_unsuspended_def eqs)+
  moreover have "f_started e = f_started e'" "f_outcome_of e = f_outcome_of e'" "f_resolved_count e = f_resolved_count e'" "f_completed e = f_completed e'"
    "f_terminals e = f_terminals e'" "f_suspended e = f_suspended e'" "f_requested e = f_requested e'" "f_resolved e = f_resolved e'"
    "f_rejected e = f_rejected e'" "f_failed e = f_failed e'" "f_skipped e = f_skipped e'" "f_resumed e = f_resumed e'"
    "f_visit_end e = f_visit_end e'"
    by (intro ext, simp only: f_started_def f_outcome_of_def f_resolved_count_def f_completed_def f_terminals_def f_suspended_def f_requested_def f_resolved_def f_rejected_def f_failed_def f_skipped_def f_resumed_def f_visit_end_def payload_of_doc_def eqs)+
  ultimately show ?thesis by (simp only: fold_step_def eqs)
qed

lemma fold_log_key:
  "map doc_key es = map doc_key es' \<Longrightarrow> map doc_seq es = map doc_seq es' \<Longrightarrow> fold_log es = fold_log es'"
proof (induction es arbitrary: es' rule: rev_induct)
  case (snoc e es)
  from snoc.prems(1) obtain f fs where f: "es' = fs @ [f]" by (cases es' rule: rev_cases) simp_all
  from snoc.prems have k: "map doc_key es = map doc_key fs" "map doc_seq es = map doc_seq fs"
    "doc_key e = doc_key f" "doc_seq e = doc_seq f" unfolding f map_append append1_eq_conv list.map by simp_all
  from snoc.IH [OF k(1,2)] show ?case
    unfolding f fold_log_def foldl_append fold_append foldl.simps List.fold_simps comp_apply
    using fold_step_key [OF k(3,4)] by simp
qed simp

lemma emit_result:
  assumes "log_ok w" "w_exc (emit h r t p opts w) = None" "eraOf r \<ge> 3"
  shows "emit h r t p opts w = added (new_row h r t p opts w) (ao_fixed opts)
    (announced r (doc_of_row (new_row h r t p opts w))) w \<and> w_exc w = None"
proof -
  have exc: "w_exc w = None" using assms(2) by (auto simp: emit_def guarded_def split: if_splits)
  have reg: "registered_type h t"
  proof (rule ccontr)
    assume "\<not> registered_type h t"
    from appendEvent_refused(1) [OF this, of r p opts w] exc assms(2) show False by (auto simp: emit_def)
  qed
  have "toStorageVocabulary (h_art h) t (eraOf r) = Inr t" using assms(3) by (simp add: toStorageVocabulary_def)
  from appendEvent_accepted [OF assms(1) reg this, of p opts] exc show ?thesis
    by (simp add: emit_def doc_of_row_def new_row_def)
qed

lemma copy_event_result:
  assumes "log_ok w" "w_exc (copy_event h c e w) = None" "eraOf c \<ge> 3"
  shows "log_ok (copy_event h c e w)"
    and "run_events (run_id c) (copy_event h c e w) = run_events (run_id c) w @ [new_row h c (doc_type e) (doc_payload e) (fixed_history e) w]"
    and "rid \<noteq> run_id c \<Longrightarrow> run_events rid (copy_event h c e w) = run_events rid w"
    and "w_fanout (copy_event h c e w) = w_fanout w" and "w_exc w = None"
proof -
  let ?w1 = "emit h c (doc_type e) (doc_payload e) (fixed_history e) w"
  have exc: "w_exc ?w1 = None" using assms(2)
    by (simp add: copy_event_def Let_def guarded_def split: if_splits)
  note res = emit_result [OF assms(1) exc assms(3)]
  have t: "t_events (copy_event h c e w) = t_events ?w1" "w_fanout (copy_event h c e w) = w_fanout ?w1"
    by (simp_all add: copy_event_def Let_def guarded_def updateRun_def)
  show "w_exc w = None" using res by simp
  show "w_fanout (copy_event h c e w) = w_fanout w"
    using res unfolding t(2) by (simp add: added_def fixed_history_def)
  have r: "run_events k (copy_event h c e w) = run_events k ?w1" for k
    by (rule run_events_frame [OF t(1)])
  have one: "run_events k ?w1 = run_events k w @ (if run_id c = k then [new_row h c (doc_type e) (doc_payload e) (fixed_history e) w] else [])" for k
    by (simp only: conjunct1 [OF res] run_events_added) (simp add: new_row_def)
  show "run_events (run_id c) (copy_event h c e w) = run_events (run_id c) w @ [new_row h c (doc_type e) (doc_payload e) (fixed_history e) w]"
    by (simp add: r one)
  show "rid \<noteq> run_id c \<Longrightarrow> run_events rid (copy_event h c e w) = run_events rid w" by (simp add: r one)
  have "log_ok ?w1" by (simp only: conjunct1 [OF res]) (rule log_ok_added [OF assms(1)], simp add: new_row_def)
  with log_ok_frame [OF t(1)] show "log_ok (copy_event h c e w)" by simp
qed

lemma copy_event_exc: "w_exc w \<noteq> None \<Longrightarrow> copy_event h c e w = w"
  by (auto simp: copy_event_def emit_def)

lemma copy_prefix_exc: "w_exc w \<noteq> None \<Longrightarrow> copy_prefix h c es w = w"
  by (induction es) (simp_all add: copy_prefix_def copy_event_exc)

lemma copy_prefix_result:
  assumes "log_ok w" "w_exc (copy_prefix h c es w) = None" "eraOf c \<ge> 3"
  shows "log_ok (copy_prefix h c es w)
    \<and> map (doc_key \<circ> doc_of_row) (run_events (run_id c) (copy_prefix h c es w))
        = map (doc_key \<circ> doc_of_row) (run_events (run_id c) w) @ map doc_key es
    \<and> (\<forall>rid. rid \<noteq> run_id c \<longrightarrow> run_events rid (copy_prefix h c es w) = run_events rid w)
    \<and> w_fanout (copy_prefix h c es w) = w_fanout w"
  using assms(1,2)
proof (induction es arbitrary: w)
  case (Cons e es)
  let ?w = "copy_event h c e w"
  have split: "copy_prefix h c (e # es) w = copy_prefix h c es ?w" by (simp add: copy_prefix_def)
  have "w_exc ?w = None"
  proof (rule ccontr)
    assume "w_exc ?w \<noteq> None"
    from copy_prefix_exc [OF this] Cons.prems(2) \<open>w_exc ?w \<noteq> None\<close> show False by (simp add: split)
  qed
  note step = copy_event_result [OF Cons.prems(1) this assms(3)]
  have key: "doc_key (doc_of_row (new_row h c (doc_type e) (doc_payload e) (fixed_history e) w)) = doc_key e"
    by (simp add: doc_key_def doc_of_row_def new_row_def fixed_history_def)
  from Cons.IH [OF step(1)] Cons.prems(2) step key show ?case by (simp add: split)
qed (simp add: copy_prefix_def)

lemma map_result_all2: "map_result f xs = Inr ys \<Longrightarrow> list_all2 (\<lambda>x y. f x = Inr y) xs ys"
  by (induction xs arbitrary: ys) (auto split: sum.splits)

lemma rowToDoc_seq: "rowToDoc a row r ow = Inr d \<Longrightarrow> doc_seq d = e_seq row"
  by (auto simp: rowToDoc_def Let_def split: if_splits sum.splits)

lemma read_seqs:
  assumes "log_ok w" "readEvents h r (-1) w = (Inr es, w')"
  shows "map doc_seq es = map int [0..<length (run_events (run_id r) w)] \<and> t_events w' = t_events w"
proof -
  obtain ow w1 where ow: "(if eraOf r < 3 then (let (ow', w') = ownerOf r w in (Some ow', w')) else (None, w)) = (ow, w1)"
    by (metis surj_pair)
  have t: "t_events w1 = t_events w"
    using ow by (auto simp: ownerOf_def split: if_splits option.splits prod.splits)
  then have ok: "log_ok w1" using log_ok_frame [OF t] assms(1) by simp
  from assms(2) [unfolded readEvents_def, unfolded ow, unfolded Let_def prod.case] have "(map_result (\<lambda>row. rowToDoc (h_art h) row r ow) (listEventRows (run_id r) (-1) w1), w1) = (Inr es, w')"
    .
  then have m: "map_result (\<lambda>row. rowToDoc (h_art h) row r ow) (listEventRows (run_id r) (-1) w1) = Inr es" "w1 = w'"
    by (fast dest: prod.inject [THEN iffD1])+
  have "list_all2 (\<lambda>row d. doc_seq d = e_seq row) (run_events (run_id r) w1) es"
    using map_result_all2 [OF m(1)] unfolding listEventRows_all [OF ok]
    by (rule list_all2_mono) (rule rowToDoc_seq)
  then have "map doc_seq es = map e_seq (run_events (run_id r) w1)"
    by (simp add: list_all2_conv_all_nth list_eq_iff_nth_eq)
  moreover have "seqs_from_zero (run_events (run_id r) w1)" using ok by (simp add: log_ok_def)
  ultimately show ?thesis using t m(2) run_events_frame [OF t] by (simp add: seqs_from_zero_def)
qed

lemma before_fork_take:
  assumes "map doc_seq es = map int [0..<n]"
  shows "before_fork from es = take (nat from) es"
proof -
  have len: "length es = n" using arg_cong [OF assms, of length] by simp
  have seq: "i < length es \<Longrightarrow> doc_seq (es ! i) = int i" for i
    using arg_cong [OF assms, of "\<lambda>xs. xs ! i"] len by simp
  have "takeWhile (\<lambda>e. doc_seq e < from) es = take (nat from) es"
    by (rule takeWhile_eq_take_P_nth) (auto simp: seq)
  then show ?thesis by (simp add: before_fork_def)
qed

text \<open>
  A fork's log opens with the source's events below the fork point: same types, payloads, times,
  nodes, causes and sequence numbers, so the executor folds it to the very state of that prefix. The
  source's log is unchanged and nothing of the copy is fanned out.
\<close>

theorem fork_copies_prefix:
  assumes "log_ok w" "w_exc w = None" "forkRun h src body w = (Inr rep, w')"
    and "run_events (fr_run rep) w = []" "fr_run rep \<noteq> run_id src"
    and "fst (readEvents h src (-1) w) = Inr prefix"
  shows "map doc_key (map doc_of_row (run_events (fr_run rep) w')) = map doc_key (take (nat (fr_from rep)) prefix)
    \<and> fold_log (map doc_of_row (run_events (fr_run rep) w')) = fold_log (take (nat (fr_from rep)) prefix)
    \<and> run_events (run_id src) w' = run_events (run_id src) w \<and> w_fanout w' = w_fanout w"
proof -
  obtain mode frm where rq: "fork_request body = Inr (mode, frm)"
    using assms(3) by (cases "fork_request body") (auto simp: forkRun_def)
  obtain w1 where rd: "readEvents h src (-1) w = (Inr prefix, w1)" using assms(6) by (metis prod.collapse)
  note seqs = read_seqs [OF assms(1) rd]
  have w1: "w_fanout w1 = w_fanout w" "w_exc w1 = None"
    using rd assms(2) by (auto simp: readEvents_def ownerOf_def updateRun_def Let_def split: if_splits option.splits)
  from assms(3) rq rd have mk: "make_fork h (stamped src) mode frm (map_of body ''runOptionsOverlay'') prefix w1 = (Inr rep, w')"
    by (simp add: forkRun_def split: if_splits)
  obtain owner w2 where ow: "ownerOf (stamped src) w1 = (owner, w2)" by force
  have t2: "t_events w2 = t_events w" "w_fanout w2 = w_fanout w" "w_exc w2 = None"
    using ow seqs w1 by (auto simp: ownerOf_def updateRun_def split: option.splits)
  define w3 where "w3 = w2\<lparr>w_rng := Suc (w_rng w2)\<rparr>"
  define cid where "cid = r_tenant src @ ''/'' @ h_opaque h (w_rng w2)"
  have st: "r_tenant (stamped src) = r_tenant src" "run_id (stamped src) = run_id src" by (simp_all add: stamped_def)
  define child where "child = fork_row (stamped src) cid mode frm owner
      (fork_options mode (map_of body ''runOptionsOverlay'') (r_options (stamped src))) (w_clock w3)"
  have child: "run_id child = cid" "eraOf child \<ge> 3"
    by (simp_all add: child_def fork_row_def eraOf_def EVENT_LOG_SCHEMA_VERSION_def)
  have tb: "tenantBound h (r_tenant (stamped src)) w2 = (cid, w3)"
    by (simp add: tenantBound_def opaque_def cid_def w3_def st)
  obtain w4 where ins: "insertRun child w3 = Some w4"
    using mk by (cases "insertRun child w3") (simp_all add: make_fork_def ow tb child_def Let_def)
  have t4: "t_events w4 = t_events w" "w_fanout w4 = w_fanout w"
    using ins t2 by (auto simp: insertRun_def w3_def split: if_splits)
  define w5 where "w5 = copy_prefix h child (before_fork frm prefix) w4"
  define stt where "stt = (if fork_started frm prefix then Running else Pending)"
  define w6 where "w6 = guarded (\<lambda>w. updateRun (w_clock w) cid (\<lambda>x. x\<lparr>r_status := stt\<rparr>) w) w5"
  have fin: "catching (\<lparr>fr_run = cid, fr_source = run_id (stamped src), fr_from = frm, fr_mode = mode, fr_status = stt\<rparr>,
      scheduleRun cid w6) = (Inr rep, w')"
    using mk by (simp only: make_fork_def ow tb child_def [symmetric] Let_def prod.case ins option.case
        w5_def [symmetric] stt_def [symmetric] w6_def [symmetric])
  have exc6: "w_exc (scheduleRun cid w6) = None" and rep: "fr_run rep = cid" "fr_from rep = frm" and w': "w' = scheduleRun cid w6"
    using fin by (auto simp: catching_def split: option.splits)
  have exc5: "w_exc w5 = None" using exc6 by (auto simp: w6_def scheduleRun_def guarded_def updateRun_def split: if_splits)
  have t6: "t_events w' = t_events w5" "w_fanout w' = w_fanout w5"
    by (simp_all add: w' w6_def scheduleRun_def guarded_def updateRun_def)
  have ok4: "log_ok w4" using log_ok_frame [OF t4(1)] assms(1) by simp
  note copy = copy_prefix_result [OF ok4 exc5 [unfolded w5_def] child(2), folded w5_def, unfolded child(1)]
  have none: "run_events cid w4 = []" using assms(4) rep(1) run_events_frame [OF t4(1)] by simp
  have keys: "map doc_key (map doc_of_row (run_events cid w5)) = map doc_key (before_fork frm prefix)"
    using copy none by simp
  have take: "before_fork frm prefix = take (nat frm) prefix"
    using before_fork_take seqs by blast
  have sq5: "map doc_seq (map doc_of_row (run_events cid w5)) = map int [0..<length (run_events cid w5)]"
    using copy by (simp add: log_ok_def seqs_from_zero_def doc_of_row_def comp_def)
  have len: "length (run_events cid w5) = length (take (nat frm) prefix)"
    using arg_cong [OF keys, of length] take by simp
  have sqp: "map doc_seq (take (nat frm) prefix) = map int [0..<length (take (nat frm) prefix)]"
  proof -
    have "length prefix = length (run_events (run_id src) w)" using arg_cong [OF conjunct1 [OF seqs], of length] by simp
    moreover have "map doc_seq (take (nat frm) prefix) = take (nat frm) (map int [0..<length (run_events (run_id src) w)])"
      using seqs by (simp add: take_map [symmetric])
    ultimately show ?thesis
      by (cases "nat frm \<le> length prefix") (simp_all add: take_map take_upt)
  qed
  have "fold_log (map doc_of_row (run_events cid w5)) = fold_log (take (nat frm) prefix)"
    by (rule fold_log_key) (use keys take sq5 sqp len in simp_all)
  moreover have "run_events (run_id src) w5 = run_events (run_id src) w"
    using copy assms(5) rep(1) run_events_frame [OF t4(1)] by auto
  moreover have "run_events k w' = run_events k w5" for k by (rule run_events_frame [OF t6(1)])
  ultimately show ?thesis using keys take copy t4 t6 rep by simp
qed

definition forked_source :: world where
  "forked_source = append_cmd demo_host
     \<lparr>ac_run = demo_run ''r'' ''l'', ac_type = RUN_STARTED, ac_payload = JObj [], ac_opts = no_opts\<rparr>
     (demo_world [demo_run ''r'' ''l''])"

definition replay_body :: "(string \<times> json) list" where
  "replay_body = [(''mode'', JStr ''replay''), (''fromSeq'', JNum 1)]"

definition replay_reply :: fork_reply where
  "replay_reply = \<lparr>fr_run = ''t/id1'', fr_source = ''r'', fr_from = 1, fr_mode = ''replay'', fr_status = Running\<rparr>"

lemma fork_copies_prefix_witness:
  "let w' = snd (forkRun demo_host (demo_run ''r'' ''l'') replay_body forked_source);
       prefix = map doc_of_row (run_events ''r'' forked_source)
   in map doc_key (map doc_of_row (run_events (fr_run replay_reply) w')) = map doc_key (take (nat (fr_from replay_reply)) prefix)
     \<and> fold_log (map doc_of_row (run_events (fr_run replay_reply) w')) = fold_log (take (nat (fr_from replay_reply)) prefix)
     \<and> run_events (run_id (demo_run ''r'' ''l'')) w' = run_events (run_id (demo_run ''r'' ''l'')) forked_source
     \<and> w_fanout w' = w_fanout forked_source"
proof -
  have "fst (forkRun demo_host (demo_run ''r'' ''l'') replay_body forked_source) = Inr replay_reply"
    "w_exc forked_source = None" "run_events (fr_run replay_reply) forked_source = []"
    "fst (readEvents demo_host (demo_run ''r'' ''l'') (-1) forked_source) = Inr (map doc_of_row (run_events ''r'' forked_source))"
    "fr_run replay_reply \<noteq> run_id (demo_run ''r'' ''l'')"
    by code_simp+
  moreover have "log_ok forked_source"
    unfolding forked_source_def by (rule appends.act_inv) (simp add: log_ok_def run_events_def seqs_from_zero_def demo_world_def)
  ultimately show ?thesis
    unfolding Let_def by (intro fork_copies_prefix) (auto simp: prod_eq_iff)
qed

end
