(* ===== verification/Canonical.thy ===== *)
theory Canonical
  imports Encoding "HOL-Library.List_Lexorder" "HOL-Library.Multiset"
begin

text \<open>
  The canonical JSON text (RFC 8785) that the audit log hashes and the chain expansion
  compares policies by: object members sorted by the UTF-16 code units of their keys.
  Strings are UTF-8 bytes, so \<open>utf16_key\<close> moves the two lead bytes of U+E000 to U+FFFF
  above those of the supplementary planes, which is where UTF-16 orders them. The lemmas
  show that the text is \<open>JSON.stringify\<close> of the value with its members sorted, so two
  values have one canonical text exactly when they are the same up to member order.
\<close>

section \<open>The order of keys\<close>

definition utf16_byte :: "char \<Rightarrow> nat" where
  "utf16_byte c = (let b = of_char c in if b = 0xEE \<or> b = 0xEF then b + 16 else b + (if b > 0xF4 then 32 else 0))"

definition utf16_key :: "string \<Rightarrow> nat list" where
  "utf16_key s = map utf16_byte s"

section \<open>The text\<close>

fun canonical :: "json \<Rightarrow> string"
and canonical_elems :: "json list \<Rightarrow> string list"
and canonical_members :: "(string \<times> json) list \<Rightarrow> (string \<times> string) list" where
  "canonical (JArr xs) = CHR ''['' # join_with (CHR '','') (canonical_elems xs) @ '']''"
| "canonical (JObj ps) = CHR ''{'' # join_with (CHR '','')
     (map (\<lambda>(k, s). quote_string k @ CHR '':'' # s) (sort_key (utf16_key \<circ> fst) (canonical_members ps))) @ ''}''"
| "canonical JNull = ''null''"
| "canonical (JBool b) = (if b then ''true'' else ''false'')"
| "canonical (JNum n) = int_string n"
| "canonical (JStr s) = quote_string s"
| "canonical_elems [] = []"
| "canonical_elems (x # xs) = canonical x # canonical_elems xs"
| "canonical_members [] = []"
| "canonical_members ((k, x) # ps) = (k, canonical x) # canonical_members ps"

section \<open>The value with its members sorted\<close>

fun normal :: "json \<Rightarrow> json"
and normal_elems :: "json list \<Rightarrow> json list"
and normal_members :: "(string \<times> json) list \<Rightarrow> (string \<times> json) list" where
  "normal (JArr xs) = JArr (normal_elems xs)"
| "normal (JObj ps) = JObj (sort_key (utf16_key \<circ> fst) (normal_members ps))"
| "normal JNull = JNull"
| "normal (JBool b) = JBool b"
| "normal (JNum n) = JNum n"
| "normal (JStr s) = JStr s"
| "normal_elems [] = []"
| "normal_elems (x # xs) = normal x # normal_elems xs"
| "normal_members [] = []"
| "normal_members ((k, x) # ps) = (k, normal x) # normal_members ps"

lemma elems_map: "canonical_elems xs = map canonical xs" "normal_elems xs = map normal xs"
  by (induction xs) simp_all

lemma members_map:
  "canonical_members ps = map (map_prod id canonical) ps" "normal_members ps = map (map_prod id normal) ps"
  by (induction ps) auto

lemma stringify_elems_join: "stringify_elems xs = join_with (CHR '','') (map json_stringify xs) @ '']''"
  by (induction xs rule: induct_list012) simp_all

lemma stringify_members_join:
  "stringify_members ps = join_with (CHR '','') (map (\<lambda>(k, x). quote_string k @ CHR '':'' # json_stringify x) ps) @ ''}''"
  by (induction ps rule: induct_list012) (auto split: prod.splits)

lemma sort_key_map_prod:
  "sort_key (f \<circ> fst) (map (map_prod id g) ps) = map (map_prod id g) (sort_key (f \<circ> fst) ps)"
proof -
  have ins: "insort_key (f \<circ> fst) (map_prod id g p) (map (map_prod id g) ps)
      = map (map_prod id g) (insort_key (f \<circ> fst) p ps)" for p ps
    by (induction ps) simp_all
  show ?thesis by (induction ps) (simp_all only: list.map sort_key_simps ins)
qed

lemma canonical_normal: "canonical v = json_stringify (normal v)"
  and "canonical_elems xs = map json_stringify (normal_elems xs)"
  and canonical_members_normal: "canonical_members ps = map (map_prod id json_stringify) (normal_members ps)"
proof (induction v and xs and ps rule: canonical_canonical_elems_canonical_members.induct)
  case (2 ps)
  have "map (\<lambda>(k, s). quote_string k @ CHR '':'' # s) (map (map_prod id json_stringify) qs)
      = map (\<lambda>(k, x). quote_string k @ CHR '':'' # json_stringify x) qs" for qs by auto
  then show ?case by (simp only: canonical.simps normal.simps json_stringify.simps 2 sort_key_map_prod stringify_members_join)
qed (simp_all add: stringify_elems_join)

lemma canonical_eq_iff: "canonical a = canonical b \<longleftrightarrow> normal a = normal b"
  by (simp add: canonical_normal json_stringify_inj)

lemma normal_idem: "normal (normal v) = normal v"
  and "normal_elems (normal_elems xs) = normal_elems xs"
  and "normal_members (normal_members ps) = normal_members ps"
proof (induction v and xs and ps rule: normal_normal_elems_normal_members.induct)
  case (2 ps)
  have "normal_members (sort_key (utf16_key \<circ> fst) (normal_members ps))
      = sort_key (utf16_key \<circ> fst) (normal_members (normal_members ps))"
    by (simp only: members_map sort_key_map_prod)
  then show ?case by (simp add: 2 sort_key_id_if_sorted)
qed simp_all

lemma canonical_of_normal [simp]: "canonical (normal v) = canonical v"
  by (simp add: canonical_normal normal_idem)

text \<open>The order of the members of an object does not matter to its canonical text.\<close>

lemma utf16_byte_inj: "utf16_byte c = utf16_byte d \<Longrightarrow> c = d"
  using nat_of_char_less_256 [of c] nat_of_char_less_256 [of d]
  by (auto simp: utf16_byte_def Let_def split: if_splits intro: of_char_nat_inj)

lemma utf16_key_inj: "utf16_key s = utf16_key t \<longleftrightarrow> s = t"
  by (auto simp: utf16_key_def inj_map_eq_map [OF injI, OF utf16_byte_inj])

lemma sort_key_perm:
  assumes "mset xs = mset ys" "distinct (map f xs)"
  shows "sort_key f xs = sort_key f ys"
proof -
  have set: "set xs = set ys" using assms(1) by (rule mset_eq_setD)
  have d: "distinct (map f ys)" using assms by (metis mset_map mset_eq_imp_distinct_iff)
  have "map f (sort_key f xs) = map f (sort_key f ys)"
    by (rule sorted_distinct_set_unique) (use assms(2) d set in \<open>simp_all add: distinct_map\<close>)
  moreover have "inj_on f (set (sort_key f xs) \<union> set (sort_key f ys))"
    using assms(2) set by (simp add: distinct_map)
  ultimately show ?thesis by (simp add: inj_on_map_eq_map)
qed

lemma canonical_reorder:
  assumes "mset ps = mset qs" "distinct (map fst ps)"
  shows "canonical (JObj ps) = canonical (JObj qs)"
proof -
  have "map (utf16_key \<circ> fst) (normal_members ps) = map utf16_key (map fst ps)"
    by (simp add: members_map)
  moreover have "distinct (map utf16_key (map fst ps))"
    using assms(2) by (simp only: distinct_map) (simp add: inj_on_def utf16_key_inj)
  ultimately have "sort_key (utf16_key \<circ> fst) (normal_members ps) = sort_key (utf16_key \<circ> fst) (normal_members qs)"
    by (intro sort_key_perm) (simp_all only: members_map mset_map assms(1))
  then show ?thesis by (simp only: canonical_eq_iff normal.simps)
qed

lemma keys_distinct_maps:
  "keys_distinct_elems xs = list_all keys_distinct xs" "keys_distinct_members ps = list_all (keys_distinct \<circ> snd) ps"
proof -
  show "keys_distinct_elems xs = list_all keys_distinct xs" by (induction xs) simp_all
  show "keys_distinct_members ps = list_all (keys_distinct \<circ> snd) ps" by (induction ps) auto
qed

lemma keys_distinct_normal:
  "keys_distinct v \<Longrightarrow> keys_distinct (normal v)"
  "keys_distinct_elems xs \<Longrightarrow> keys_distinct_elems (normal_elems xs)"
  "keys_distinct_members ps \<Longrightarrow> keys_distinct_members (normal_members ps)"
proof (induction v and xs and ps rule: normal_normal_elems_normal_members.induct)
  case (2 ps)
  let ?qs = "sort_key (utf16_key \<circ> fst) (normal_members ps)"
  have "mset (map fst ?qs) = mset (map fst (normal_members ps))" by (simp only: mset_map mset_sort)
  from mset_eq_imp_distinct_iff [OF this] have "distinct (map fst ?qs)"
    using 2 by (simp add: members_map comp_def)
  moreover have "keys_distinct_members ?qs" using 2 by (simp add: keys_distinct_maps list_all_iff)
  ultimately show ?case by simp
qed simp_all

lemma parse_canonical: "keys_distinct v \<Longrightarrow> json_parse (canonical v) = Some (normal v)"
  unfolding canonical_normal by (rule json_parse_stringify [OF keys_distinct_normal(1)])

end
