(* ===== verification/Chain_Expansion.thy ===== *)
theory Chain_Expansion
  imports Canonical
begin

text \<open>
  \<open>examples/hosts/in-memory/src/workflow-chain-expansion.ts\<close>: a chain of a pack becomes a
  fragment of a workflow. Parameters are substituted, node ids take a prefix, edges are
  rewritten with them, compensation declarations are carried, and the pack is located,
  checked and verified first. The registry directory, the parser of a manifest and the
  signature check are arguments; a manifest has the types its interface declares.
\<close>

section \<open>Chains and fragments\<close>

record fragment_node =
  fn_id :: string
  fn_typeId :: string
  fn_name :: "string option"
  fn_position :: "json option"
  fn_config :: "json option"
  fn_inputs :: "json option"

record fragment_edge =
  fe_from :: string
  fe_to :: string
  fe_condition :: "string option"
  fe_trigger :: "string option"

record node_compensation =
  nc_nodeTypeId :: string
  nc_inputMapping :: "json option"
  nc_retry :: "json option"
  nc_requiresApproval :: "bool option"

record comp_node = fragment_node +
  cn_compensation :: "node_compensation option"
  cn_irreversible :: "bool option"

text \<open>A chain; the base algorithm reads its nodes without their compensation.\<close>

record workflow_chain =
  wc_id :: string
  wc_version :: string
  wc_nodes :: "comp_node list"
  wc_edges :: "fragment_edge list option"
  wc_capabilities :: "string list option"
  wc_compensation :: "json option"

record expansion_context =
  ec_id :: string
  ec_params :: "(string \<times> json) list"
  ec_resolvable :: "string \<Rightarrow> bool"

record expanded_node = fragment_node +
  en_capabilities :: "string list option"

record expanded_fragment =
  ef_nodes :: "expanded_node list"
  ef_edges :: "fragment_edge list"
  ef_idMap :: "(string \<times> string) list"

datatype chain_error =
    ChainUnresolvableTypeId (ce_type: string) (ce_chain: string)
  | ChainIrreversibleWithCompensation (ce_node: string) (ce_chain: string)
  | ChainCompensationPolicyConflict (ce_chain: string)
  | ExpansionError (ce_code: string) (ce_message: string) (ce_details: "json option")

section \<open>Parameter tokens\<close>

definition TOKEN_OPEN :: string where "TOKEN_OPEN = ''{{params.''"

text \<open>\<open>PARAM_PATTERN\<close> at the head of a text: the name and what follows the token.\<close>

definition token_at :: "string \<Rightarrow> (string \<times> string) option" where
  "token_at s =
     (if take (length TOKEN_OPEN) s \<noteq> TOKEN_OPEN then None else
      let t = drop (length TOKEN_OPEN) s; name = takeWhile name_char t; rest = dropWhile name_char t
      in if name \<noteq> [] \<and> name_start (hd name) \<and> take 2 rest = ''}}'' then Some (name, drop 2 rest) else None)"

lemma token_at_shorter: "token_at s = Some (name, rest) \<Longrightarrow> length rest < length s"
proof -
  assume a: "token_at s = Some (name, rest)"
  let ?t = "drop (length TOKEN_OPEN) s"
  from a have "take (length TOKEN_OPEN) s = TOKEN_OPEN" and r: "rest = drop 2 (dropWhile name_char ?t)"
    by (auto simp: token_at_def Let_def split: if_splits)
  then have "length TOKEN_OPEN \<le> length s" "0 < length TOKEN_OPEN"
    by (metis length_take min.cobounded1) (simp add: TOKEN_OPEN_def)
  moreover have "length rest \<le> length ?t" using length_dropWhile_le [of name_char ?t] by (simp add: r)
  ultimately show ?thesis unfolding length_drop by linarith
qed

definition param_text :: "(string \<times> json) list \<Rightarrow> string \<Rightarrow> string" where
  "param_text params name = (case map_of params name of None \<Rightarrow> [] | Some v \<Rightarrow> js_string v)"

text \<open>\<open>value.replace(PARAM_PATTERN, ...)\<close>: every match, from the left, without overlap.\<close>

function replace_tokens :: "(string \<times> json) list \<Rightarrow> string \<Rightarrow> string" where
  "replace_tokens params [] = []"
| "replace_tokens params (c # s) = (case token_at (c # s) of
     Some (name, rest) \<Rightarrow> param_text params name @ replace_tokens params rest
   | None \<Rightarrow> c # replace_tokens params s)"
  by pat_completeness auto

termination by (relation "measure (length \<circ> snd)") (auto dest: token_at_shorter)

definition substitute_text :: "(string \<times> json) list \<Rightarrow> string \<Rightarrow> json" where
  "substitute_text params s = (case token_at s of
     Some (name, []) \<Rightarrow> (case map_of params name of None \<Rightarrow> JStr [] | Some v \<Rightarrow> v)
   | _ \<Rightarrow> JStr (replace_tokens params s))"

fun substitute :: "(string \<times> json) list \<Rightarrow> json \<Rightarrow> json"
and substitute_elems :: "(string \<times> json) list \<Rightarrow> json list \<Rightarrow> json list"
and substitute_members :: "(string \<times> json) list \<Rightarrow> (string \<times> json) list \<Rightarrow> (string \<times> json) list" where
  "substitute params (JStr s) = substitute_text params s"
| "substitute params (JArr xs) = JArr (substitute_elems params xs)"
| "substitute params (JObj ps) = JObj (substitute_members params ps)"
| "substitute params JNull = JNull"
| "substitute params (JBool b) = JBool b"
| "substitute params (JNum n) = JNum n"
| "substitute_elems params [] = []"
| "substitute_elems params (x # xs) = substitute params x # substitute_elems params xs"
| "substitute_members params [] = []"
| "substitute_members params ((k, x) # ps) = (k, substitute params x) # substitute_members params ps"

section \<open>Expansion\<close>

definition rewriteEdgeRef :: "string \<Rightarrow> string list \<Rightarrow> string \<Rightarrow> string" where
  "rewriteEdgeRef ref ids pfx =
     (let nodeId = takeWhile (\<lambda>c. c \<noteq> CHR ''.'') ref; port = dropWhile (\<lambda>c. c \<noteq> CHR ''.'') ref
      in if nodeId \<in> set ids then pfx @ nodeId @ port else ref)"

definition computePrefix :: "string \<Rightarrow> string \<Rightarrow> string" where
  "computePrefix chainId expansionId =
     map (\<lambda>c. if c = CHR ''.'' then CHR ''_'' else c) chainId @ ''_'' @ expansionId @ ''_''"

definition expand_node :: "string \<Rightarrow> workflow_chain \<Rightarrow> expansion_context \<Rightarrow> comp_node \<Rightarrow> expanded_node" where
  "expand_node pfx chain ctx n =
     \<lparr>fn_id = pfx @ fn_id n, fn_typeId = fn_typeId n, fn_name = fn_name n, fn_position = fn_position n,
      fn_config = map_option (substitute (ec_params ctx)) (fn_config n),
      fn_inputs = map_option (substitute (ec_params ctx)) (fn_inputs n),
      en_capabilities = (case wc_capabilities chain of None \<Rightarrow> None | Some cs \<Rightarrow> if cs \<noteq> [] then Some cs else None)\<rparr>"

definition expand_edge :: "string list \<Rightarrow> string \<Rightarrow> fragment_edge \<Rightarrow> fragment_edge" where
  "expand_edge ids pfx e =
     \<lparr>fe_from = rewriteEdgeRef (fe_from e) ids pfx, fe_to = rewriteEdgeRef (fe_to e) ids pfx,
      fe_condition = fe_condition e, fe_trigger = fe_trigger e\<rparr>"

definition node_ids :: "workflow_chain \<Rightarrow> string list" where
  "node_ids chain = map fn_id (wc_nodes chain)"

definition expandChain :: "workflow_chain \<Rightarrow> expansion_context \<Rightarrow> chain_error + expanded_fragment" where
  "expandChain chain ctx =
     (case find (\<lambda>n. \<not> ec_resolvable ctx (fn_typeId n)) (wc_nodes chain) of
        Some n \<Rightarrow> Inl (ChainUnresolvableTypeId (fn_typeId n) (wc_id chain))
      | None \<Rightarrow>
        (let pfx = computePrefix (wc_id chain) (ec_id ctx)
         in Inr \<lparr>ef_nodes = map (expand_node pfx chain ctx) (wc_nodes chain),
                 ef_edges = map (expand_edge (node_ids chain) pfx) (case wc_edges chain of None \<Rightarrow> [] | Some es \<Rightarrow> es),
                 ef_idMap = map (\<lambda>i. (i, pfx @ i)) (fold push_new (node_ids chain) [])\<rparr>))"

section \<open>Compensation\<close>

text \<open>
  The references of an input mapping: \<open>${ nodes.\<close> or \<open>nodes.\<close> at a word boundary, the
  shortest run of id characters before a dot, that dot. \<open>prev\<close> is the character before.
\<close>

definition word_char :: "char \<Rightarrow> bool" where
  "word_char c \<longleftrightarrow> name_char c"

definition ref_char :: "char \<Rightarrow> bool" where
  "ref_char c \<longleftrightarrow> name_char c \<or> c = CHR ''.'' \<or> c = CHR ''-''"

definition NODES_DOT :: string where "NODES_DOT = ''nodes.''"

definition lead_at :: "char option \<Rightarrow> string \<Rightarrow> (string \<times> string) option" where
  "lead_at prev s =
     (if take 2 s = ''${'' then
        (let sp = takeWhile js_space (drop 2 s); t = dropWhile js_space (drop 2 s)
         in if take (length NODES_DOT) t = NODES_DOT
            then Some (''${'' @ sp @ NODES_DOT, drop (length NODES_DOT) t) else None)
      else if take (length NODES_DOT) s = NODES_DOT \<and> \<not> (case prev of None \<Rightarrow> False | Some c \<Rightarrow> word_char c)
      then Some (NODES_DOT, drop (length NODES_DOT) s) else None)"

definition ref_at :: "char option \<Rightarrow> string \<Rightarrow> (string \<times> string \<times> string) option" where
  "ref_at prev s = (case lead_at prev s of None \<Rightarrow> None
     | Some (lead, []) \<Rightarrow> None
     | Some (lead, c # t) \<Rightarrow>
         (let ident = c # takeWhile (\<lambda>d. d \<noteq> CHR ''.'') t; rest = dropWhile (\<lambda>d. d \<noteq> CHR ''.'') t
          in if rest \<noteq> [] \<and> list_all ref_char ident then Some (lead, ident, tl rest) else None))"

lemma lead_at_shorter: "lead_at prev s = Some (lead, rest) \<Longrightarrow> length rest < length s \<and> lead \<noteq> []"
proof -
  assume a: "lead_at prev s = Some (lead, rest)"
  have nd: "0 < length NODES_DOT" "NODES_DOT \<noteq> []" by (simp_all add: NODES_DOT_def)
  have cut: "take (length NODES_DOT) t = NODES_DOT \<Longrightarrow> length (drop (length NODES_DOT) t) < length t" for t
    using nd by (cases t) auto
  have "length (dropWhile js_space (drop 2 s)) \<le> length s"
    using length_dropWhile_le [of js_space "drop 2 s"] by simp
  with a cut [of "dropWhile js_space (drop 2 s)"] cut [of s] nd show ?thesis
    by (auto simp: lead_at_def Let_def split: if_splits)
qed

lemma ref_at_shorter: "ref_at prev s = Some (lead, ident, rest) \<Longrightarrow> length rest < length s"
proof -
  assume a: "ref_at prev s = Some (lead, ident, rest)"
  then obtain c t where l: "lead_at prev s = Some (lead, c # t)" and r: "rest = tl (dropWhile (\<lambda>d. d \<noteq> CHR ''.'') t)"
    by (auto simp: ref_at_def Let_def split: option.splits list.splits if_splits)
  from lead_at_shorter [OF l] have "Suc (length t) < length s" by simp
  with length_dropWhile_le [of "\<lambda>d. d \<noteq> CHR ''.''" t] show ?thesis by (simp add: r)
qed

function rewrite_refs :: "string list \<Rightarrow> string \<Rightarrow> char option \<Rightarrow> string \<Rightarrow> string" where
  "rewrite_refs ids pfx prev [] = []"
| "rewrite_refs ids pfx prev (c # s) = (case ref_at prev (c # s) of
     Some (lead, ident, rest) \<Rightarrow>
       lead @ (if ident \<in> set ids then pfx else []) @ ident @ ''.'' @ rewrite_refs ids pfx (Some (CHR ''.'')) rest
   | None \<Rightarrow> c # rewrite_refs ids pfx (Some c) s)"
  by pat_completeness auto

termination by (relation "measure (\<lambda>(_, _, _, s). length s)") (auto dest: ref_at_shorter)

fun rewriteInputMappingRefs :: "string list \<Rightarrow> string \<Rightarrow> json \<Rightarrow> json"
and rewrite_elems :: "string list \<Rightarrow> string \<Rightarrow> json list \<Rightarrow> json list"
and rewrite_members :: "string list \<Rightarrow> string \<Rightarrow> (string \<times> json) list \<Rightarrow> (string \<times> json) list" where
  "rewriteInputMappingRefs ids pfx (JStr s) = JStr (rewrite_refs ids pfx None s)"
| "rewriteInputMappingRefs ids pfx (JArr xs) = JArr (rewrite_elems ids pfx xs)"
| "rewriteInputMappingRefs ids pfx (JObj ps) = JObj (rewrite_members ids pfx ps)"
| "rewriteInputMappingRefs ids pfx JNull = JNull"
| "rewriteInputMappingRefs ids pfx (JBool b) = JBool b"
| "rewriteInputMappingRefs ids pfx (JNum n) = JNum n"
| "rewrite_elems ids pfx [] = []"
| "rewrite_elems ids pfx (x # xs) = rewriteInputMappingRefs ids pfx x # rewrite_elems ids pfx xs"
| "rewrite_members ids pfx [] = []"
| "rewrite_members ids pfx ((k, x) # ps) = (k, rewriteInputMappingRefs ids pfx x) # rewrite_members ids pfx ps"

record carried_node = expanded_node +
  cr_compensation :: "node_compensation option"
  cr_irreversible :: bool

record carried =
  ca_nodes :: "carried_node list"
  ca_settings :: "json option"

definition carry_declaration :: "string list \<Rightarrow> string \<Rightarrow> expansion_context \<Rightarrow> node_compensation \<Rightarrow> node_compensation" where
  "carry_declaration ids pfx ctx c =
     c\<lparr>nc_inputMapping := map_option (rewriteInputMappingRefs ids pfx \<circ> substitute (ec_params ctx)) (nc_inputMapping c)\<rparr>"

text \<open>\<open>new Map(srcNodes.map(n => [n.id, n]))\<close>: the last node of an id is kept.\<close>

definition by_original_id :: "workflow_chain \<Rightarrow> string \<Rightarrow> comp_node option" where
  "by_original_id chain i = map_of (rev (map (\<lambda>n. (fn_id n, n)) (wc_nodes chain))) i"

definition carry_node :: "workflow_chain \<Rightarrow> string \<Rightarrow> expansion_context \<Rightarrow> expanded_node \<Rightarrow> carried_node" where
  "carry_node chain pfx ctx en =
     (let original = (if take (length pfx) (fn_id en) = pfx then drop (length pfx) (fn_id en) else fn_id en);
          src = by_original_id chain original;
          irreversible = (case src of None \<Rightarrow> False | Some n \<Rightarrow> cn_irreversible n = Some True);
          comp = (if irreversible then None else case src of None \<Rightarrow> None
            | Some n \<Rightarrow> map_option (carry_declaration (node_ids chain) pfx ctx) (cn_compensation n))
      in expanded_node.extend en \<lparr>cr_compensation = comp, cr_irreversible = irreversible\<rparr>)"

definition carry_refusal :: "workflow_chain \<Rightarrow> expansion_context \<Rightarrow> comp_node \<Rightarrow> chain_error option" where
  "carry_refusal chain ctx n =
     (if cn_irreversible n = Some True \<and> cn_compensation n \<noteq> None
      then Some (ChainIrreversibleWithCompensation (fn_id n) (wc_id chain))
      else case cn_compensation n of None \<Rightarrow> None
        | Some c \<Rightarrow> if ec_resolvable ctx (nc_nodeTypeId c) then None
            else Some (ChainUnresolvableTypeId (nc_nodeTypeId c) (wc_id chain)))"

definition settle_policy :: "workflow_chain \<Rightarrow> json option \<Rightarrow> chain_error + json option" where
  "settle_policy chain parent = (case wc_compensation chain of None \<Rightarrow> Inr parent
     | Some p \<Rightarrow> (case parent of None \<Rightarrow> Inr (Some p)
         | Some q \<Rightarrow> if canonical q = canonical p then Inr parent
             else Inl (ChainCompensationPolicyConflict (wc_id chain))))"

definition carryCompensation :: "workflow_chain \<Rightarrow> expanded_fragment \<Rightarrow> expansion_context \<Rightarrow> json option \<Rightarrow> chain_error + carried" where
  "carryCompensation chain expanded ctx parent =
     (let pfx = computePrefix (wc_id chain) (ec_id ctx)
      in case List.map_filter (carry_refusal chain ctx) (wc_nodes chain) of
           e # _ \<Rightarrow> Inl e
         | [] \<Rightarrow> (case settle_policy chain parent of Inl e \<Rightarrow> Inl e
             | Inr settings \<Rightarrow> Inr \<lparr>ca_nodes = map (carry_node chain pfx ctx) (ef_nodes expanded), ca_settings = settings\<rparr>))"

definition expandChainWithCompensation :: "workflow_chain \<Rightarrow> expansion_context \<Rightarrow> json option \<Rightarrow> chain_error + expanded_fragment \<times> carried" where
  "expandChainWithCompensation chain ctx parent =
     (case expandChain chain ctx of Inl e \<Rightarrow> Inl e
      | Inr expanded \<Rightarrow> (case carryCompensation chain expanded ctx parent of Inl e \<Rightarrow> Inl e
          | Inr c \<Rightarrow> Inr (expanded, c)))"

section \<open>From the registry\<close>

record pack_manifest =
  pm_name :: string
  pm_version :: string
  pm_kind :: "string option"
  pm_chains :: "workflow_chain list option"

text \<open>
  One name of the registry directory: whether it is a directory, and the files in it that
  could be read. \<open>rg_parse\<close> answers a manifest or the parser's message, \<open>rg_verify\<close> the
  verdict on a signature unless it throws.
\<close>

record registry_entry =
  re_is_dir :: bool
  re_manifest :: "string option"
  re_signature :: "string option"
  re_publicKey :: "string option"

record registry =
  rg_dir :: string
  rg_entries :: "registry_entry list option"
  rg_parse :: "string \<Rightarrow> string + pack_manifest"
  rg_verify :: "string \<Rightarrow> string \<Rightarrow> string \<Rightarrow> bool option"

definition names_pack :: "registry \<Rightarrow> string \<Rightarrow> registry_entry \<Rightarrow> bool" where
  "names_pack rg packName e = (re_is_dir e \<and> (case re_manifest e of None \<Rightarrow> False
     | Some text \<Rightarrow> (case rg_parse rg text of Inl _ \<Rightarrow> False | Inr m \<Rightarrow> pm_name m = packName)))"

definition findPackDir :: "registry \<Rightarrow> string \<Rightarrow> registry_entry option" where
  "findPackDir rg packName = (case rg_entries rg of None \<Rightarrow> None | Some es \<Rightarrow> find (names_pack rg packName) es)"

record pack_sources =
  ps_bytes :: string
  ps_manifest :: pack_manifest
  ps_signature :: "string option"
  ps_publicKey :: "string option"

definition loadPackSources :: "registry \<Rightarrow> string \<Rightarrow> chain_error + pack_sources" where
  "loadPackSources rg packName =
     (case findPackDir rg packName of
        None \<Rightarrow> Inl (ExpansionError ''pack_not_found'' (''Pack '' @ [CHR 0x27] @ packName @ [CHR 0x27] @ '' not found under registry dir.'')
          (Some (JObj [(''registryDir'', JStr (rg_dir rg)), (''packName'', JStr packName)])))
      | Some e \<Rightarrow>
        (let bytes = (case re_manifest e of None \<Rightarrow> [] | Some t \<Rightarrow> t)
         in case rg_parse rg bytes of
              Inl m \<Rightarrow> Inl (ExpansionError ''pack_manifest_invalid'' (''pack.json is not valid JSON: '' @ m)
                (Some (JObj [(''packName'', JStr packName)])))
            | Inr manifest \<Rightarrow> Inr \<lparr>ps_bytes = bytes, ps_manifest = manifest, ps_signature = re_signature e,
                ps_publicKey = (if re_signature e = None then None else re_publicKey e)\<rparr>))"

definition quoted :: "string \<Rightarrow> string" where
  "quoted s = [CHR 0x27] @ s @ [CHR 0x27]"

definition verifyPackSignature :: "registry \<Rightarrow> pack_sources \<Rightarrow> chain_error option" where
  "verifyPackSignature rg src =
     (case (ps_signature src, ps_publicKey src) of
        (Some sig, Some pub) \<Rightarrow> (case rg_verify rg pub (ps_bytes src) sig of
            Some True \<Rightarrow> None
          | Some False \<Rightarrow> Some (ExpansionError ''pack_signature_invalid''
              (''Ed25519 signature verification failed for pack '' @ quoted (pm_name (ps_manifest src))) None)
          | None \<Rightarrow> Some (ExpansionError ''pack_signature_unverifiable''
              (''Failed to verify signature for pack '' @ quoted (pm_name (ps_manifest src)) @ ''.'') None))
      | _ \<Rightarrow> None)"

record expand_input =
  ei_packName :: string
  ei_version :: "string option"
  ei_chainId :: string
  ei_parameters :: "(string \<times> json) list"
  ei_resolvable :: "(string \<Rightarrow> bool) option"
  ei_expansionId :: "string option"

record expand_output =
  eo_expansionId :: string
  eo_chainId :: string
  eo_packName :: string
  eo_packVersion :: string
  eo_nodes :: "expanded_node list"
  eo_edges :: "fragment_edge list"

definition manifest_refusal :: "expand_input \<Rightarrow> pack_manifest \<Rightarrow> chain_error option" where
  "manifest_refusal inp m =
     (let kind = (case pm_kind m of None \<Rightarrow> ''node'' | Some k \<Rightarrow> k) in
      if pm_kind m \<noteq> Some ''workflow-chain''
      then Some (ExpansionError ''pack_kind_invalid''
        (''Pack '' @ quoted (ei_packName inp) @ '' has kind '' @ quoted kind @ '', not '' @ quoted ''workflow-chain'' @ ''.'')
        (Some (JObj [(''packName'', JStr (ei_packName inp)), (''kind'', JStr kind)])))
      else if pm_chains m = None \<or> pm_chains m = Some []
      then Some (ExpansionError ''pack_manifest_invalid'' (''Pack '' @ quoted (ei_packName inp) @ '' has no chains[].'') None)
      else if ei_version inp \<noteq> None \<and> ei_version inp \<noteq> Some (pm_version m)
      then Some (ExpansionError ''pack_manifest_invalid''
        (''Pack version mismatch: requested '' @ quoted (the (ei_version inp)) @ '', got '' @ quoted (pm_version m) @ ''.'')
        (Some (JObj [(''requested'', JStr (the (ei_version inp))), (''actual'', JStr (pm_version m))])))
      else None)"

text \<open>\<open>rand\<close> is the text of the two random bytes.\<close>

definition expandChainFromRegistry :: "registry \<Rightarrow> string \<Rightarrow> expand_input \<Rightarrow> chain_error + expand_output" where
  "expandChainFromRegistry rg rand inp =
     (case loadPackSources rg (ei_packName inp) of Inl e \<Rightarrow> Inl e
      | Inr src \<Rightarrow>
        (let m = ps_manifest src in
         case manifest_refusal inp m of Some e \<Rightarrow> Inl e
         | None \<Rightarrow> (case verifyPackSignature rg src of Some e \<Rightarrow> Inl e
         | None \<Rightarrow>
           (let chains = (case pm_chains m of None \<Rightarrow> [] | Some cs \<Rightarrow> cs)
            in case find (\<lambda>c. wc_id c = ei_chainId inp) chains of
                 None \<Rightarrow> Inl (ExpansionError ''chain_not_found''
                   (''Chain '' @ quoted (ei_chainId inp) @ '' not found in pack '' @ quoted (ei_packName inp @ ''@'' @ pm_version m) @ ''.'')
                   (Some (JObj [(''availableChainIds'', JArr (map (JStr \<circ> wc_id) chains))])))
               | Some chain \<Rightarrow>
                 (let eid = (case ei_expansionId inp of None \<Rightarrow> rand | Some i \<Rightarrow> i);
                      ctx = \<lparr>ec_id = eid, ec_params = ei_parameters inp,
                             ec_resolvable = (case ei_resolvable inp of None \<Rightarrow> (\<lambda>_. True) | Some f \<Rightarrow> f)\<rparr>
                  in case expandChain chain ctx of Inl e \<Rightarrow> Inl e
                     | Inr f \<Rightarrow> Inr \<lparr>eo_expansionId = eid, eo_chainId = ei_chainId inp, eo_packName = pm_name m,
                         eo_packVersion = pm_version m, eo_nodes = ef_nodes f, eo_edges = ef_edges f\<rparr>)))))"

section \<open>The fragment is the chain's graph\<close>

text \<open>The position of the node an edge end names, and the port it names there.\<close>

definition ref_node :: "string list \<Rightarrow> string \<Rightarrow> nat option" where
  "ref_node ids ref = (let n = takeWhile (\<lambda>c. c \<noteq> CHR ''.'') ref in if n \<in> set ids then Some (index_from ids n) else None)"

definition ref_port :: "string \<Rightarrow> string" where
  "ref_port ref = dropWhile (\<lambda>c. c \<noteq> CHR ''.'') ref"

lemma no_dot_cut:
  assumes "CHR ''.'' \<notin> set a"
  shows "takeWhile (\<lambda>c. c \<noteq> CHR ''.'') (a @ dropWhile (\<lambda>c. c \<noteq> CHR ''.'') r) = a"
    and "dropWhile (\<lambda>c. c \<noteq> CHR ''.'') (a @ dropWhile (\<lambda>c. c \<noteq> CHR ''.'') r) = dropWhile (\<lambda>c. c \<noteq> CHR ''.'') r"
proof -
  have all: "\<And>c. c \<in> set a \<Longrightarrow> c \<noteq> CHR ''.''" using assms by blast
  have "takeWhile (\<lambda>c. c \<noteq> CHR ''.'') (dropWhile (\<lambda>c. c \<noteq> CHR ''.'') r) = []" by (induction r) simp_all
  then show "takeWhile (\<lambda>c. c \<noteq> CHR ''.'') (a @ dropWhile (\<lambda>c. c \<noteq> CHR ''.'') r) = a"
    by (simp add: takeWhile_append2 [OF all])
  show "dropWhile (\<lambda>c. c \<noteq> CHR ''.'') (a @ dropWhile (\<lambda>c. c \<noteq> CHR ''.'') r) = dropWhile (\<lambda>c. c \<noteq> CHR ''.'') r"
    by (simp add: dropWhile_append2 [OF all])
qed

lemma computePrefix_no_dot: "CHR ''.'' \<notin> set e \<Longrightarrow> CHR ''.'' \<notin> set (computePrefix c e)"
  by (auto simp: computePrefix_def)

lemma index_from_map_inj: "inj f \<Longrightarrow> index_from (map f xs) (f x) = index_from xs x"
  by (induction xs) (simp_all add: inj_eq)

lemma rewrite_names_same_node:
  assumes "\<forall>i \<in> set ids. CHR ''.'' \<notin> set i" "CHR ''.'' \<notin> set pfx"
    and fresh: "ref_node (map ((@) pfx) ids) ref = None"
  shows "ref_node (map ((@) pfx) ids) (rewriteEdgeRef ref ids pfx) = ref_node ids ref"
    and "ref_port (rewriteEdgeRef ref ids pfx) = ref_port ref"
proof -
  let ?n = "takeWhile (\<lambda>c. c \<noteq> CHR ''.'') ref"
  have "CHR ''.'' \<notin> set (pfx @ ?n)" using assms(2) by (auto dest: set_takeWhileD)
  from no_dot_cut [OF this, of ref] fresh
  show "ref_node (map ((@) pfx) ids) (rewriteEdgeRef ref ids pfx) = ref_node ids ref"
    and "ref_port (rewriteEdgeRef ref ids pfx) = ref_port ref"
    by (auto simp: ref_node_def ref_port_def rewriteEdgeRef_def Let_def index_from_map_inj [OF inj_onI]
        intro: index_from_map_inj [OF injI] split: if_splits)
qed

text \<open>
  C4: The expanded fragment is the chain's own graph: its nodes are the chain's, each id under the
  prefix of the expansion, and each end of an edge names the node it named before, at the same
  port, with the edge's condition and trigger rule. An end that names no node of the chain is
  left for the parent workflow.
\<close>

theorem expanded_graph_is_the_chains:
  assumes "expandChain chain ctx = Inr f"
    and "\<forall>i \<in> set (node_ids chain). CHR ''.'' \<notin> set i" "CHR ''.'' \<notin> set (ec_id ctx)"
    and new: "new = map ((@) (computePrefix (wc_id chain) (ec_id ctx))) (node_ids chain)"
    and "wc_edges chain = Some es"
    and "\<forall>e \<in> set es. ref_node new (fe_from e) = None \<and> ref_node new (fe_to e) = None"
  shows "map fn_id (ef_nodes f) = new \<and> map fn_typeId (ef_nodes f) = map fn_typeId (wc_nodes chain)
    \<and> list_all2 (\<lambda>e e'. ref_node new (fe_from e') = ref_node (node_ids chain) (fe_from e)
        \<and> ref_node new (fe_to e') = ref_node (node_ids chain) (fe_to e)
        \<and> ref_port (fe_from e') = ref_port (fe_from e) \<and> ref_port (fe_to e') = ref_port (fe_to e)
        \<and> fe_condition e' = fe_condition e \<and> fe_trigger e' = fe_trigger e) es (ef_edges f)"
proof -
  let ?pfx = "computePrefix (wc_id chain) (ec_id ctx)"
  have f: "ef_nodes f = map (expand_node ?pfx chain ctx) (wc_nodes chain)"
    "ef_edges f = map (expand_edge (node_ids chain) ?pfx) es"
    using assms(1,5) by (auto simp: expandChain_def Let_def split: option.splits)
  have ends: "ref_node new (rewriteEdgeRef r (node_ids chain) ?pfx) = ref_node (node_ids chain) r
      \<and> ref_port (rewriteEdgeRef r (node_ids chain) ?pfx) = ref_port r" if "ref_node new r = None" for r
    using rewrite_names_same_node [OF assms(2) computePrefix_no_dot [OF assms(3)], of "wc_id chain" r] that
    by (simp add: new)
  have "list_all2 (\<lambda>e e'. e' = expand_edge (node_ids chain) ?pfx e) es (ef_edges f)"
    by (simp add: f list_all2_map2 list.rel_refl_strong)
  moreover have "map fn_id (ef_nodes f) = new" "map fn_typeId (ef_nodes f) = map fn_typeId (wc_nodes chain)"
    by (simp_all add: f new node_ids_def expand_node_def comp_def)
  ultimately show ?thesis
    using assms(6) ends by (auto simp: expand_edge_def intro: list.rel_mono_strong)
qed

definition demo_comp :: node_compensation where
  "demo_comp = \<lparr>nc_nodeTypeId = ''u'', nc_inputMapping = Some (JObj [(''x'', JStr ''${nodes.a.out}''), (''y'', JStr ''{{params.n}}'')]),
     nc_retry = None, nc_requiresApproval = None\<rparr>"

definition demo_fragment_node :: "string \<Rightarrow> node_compensation option \<Rightarrow> comp_node" where
  "demo_fragment_node i c = \<lparr>fn_id = i, fn_typeId = ''t'', fn_name = None, fn_position = None,
     fn_config = Some (JObj [(''k'', JStr ''<{{params.n}}>'')]), fn_inputs = None, cn_compensation = c, cn_irreversible = None\<rparr>"

definition demo_edge :: fragment_edge where
  "demo_edge = \<lparr>fe_from = ''a.out'', fe_to = ''b'', fe_condition = None, fe_trigger = Some ''all_success''\<rparr>"

definition demo_chain :: workflow_chain where
  "demo_chain = \<lparr>wc_id = ''c.d'', wc_version = ''1.0.0'', wc_nodes = [demo_fragment_node ''a'' (Some demo_comp), demo_fragment_node ''b'' None],
     wc_edges = Some [demo_edge], wc_capabilities = None,
     wc_compensation = Some (JObj [(''triggers'', JArr [JStr ''node-failure'']), (''timeoutMs'', JNum 5)])\<rparr>"

definition demo_ctx :: expansion_context where
  "demo_ctx = \<lparr>ec_id = ''e1'', ec_params = [(''n'', JNum 7)], ec_resolvable = (\<lambda>t. t \<in> {''t'', ''u''})\<rparr>"

definition demo_fragment :: expanded_fragment where
  "demo_fragment = (case expandChain demo_chain demo_ctx of Inr f \<Rightarrow> f)"

lemma demo_expands: "expandChain demo_chain demo_ctx = Inr demo_fragment"
  by code_simp

definition demo_new :: "string list" where
  "demo_new = map ((@) (computePrefix (wc_id demo_chain) (ec_id demo_ctx))) (node_ids demo_chain)"

lemma expanded_graph_is_the_chains_witness:
  "demo_new = [''c_d_e1_a'', ''c_d_e1_b''] \<and> map fn_id (ef_nodes demo_fragment) = demo_new
    \<and> list_all2 (\<lambda>e e'. ref_node demo_new (fe_from e') = ref_node (node_ids demo_chain) (fe_from e))
         [demo_edge] (ef_edges demo_fragment)"
proof -
  have "\<forall>i \<in> set (node_ids demo_chain). CHR ''.'' \<notin> set i" "wc_edges demo_chain = Some [demo_edge]" "CHR ''.'' \<notin> set (ec_id demo_ctx)"
    "demo_new = [''c_d_e1_a'', ''c_d_e1_b'']"
    "\<forall>e \<in> set [demo_edge]. ref_node demo_new (fe_from e) = None \<and> ref_node demo_new (fe_to e) = None"
    by code_simp+
  note all = expanded_graph_is_the_chains [OF demo_expands this(1,3) demo_new_def this(2,5)]
  from all \<open>demo_new = _\<close> show ?thesis by (auto elim!: list.rel_mono_strong)
qed

section \<open>Compensation is carried node by node\<close>

lemma last_of_its_id: "distinct (node_ids chain) \<Longrightarrow> n \<in> set (wc_nodes chain) \<Longrightarrow> by_original_id chain (fn_id n) = Some n"
  unfolding by_original_id_def node_ids_def
  by (rule map_of_is_SomeI) (auto simp: rev_map comp_def distinct_map)

lemma map_filter_Nil: "List.map_filter f xs = [] \<longleftrightarrow> (\<forall>x \<in> set xs. f x = None)"
  by (induction xs) (auto simp: List.map_filter_simps split: option.splits)

text \<open>
  When a chain with compensation is expanded, every node of the fragment carries the declaration
  of the node it came from, with its input mapping substituted and its references rewritten, and
  the irreversible mark of that node; no node has both, and every compensating type resolves.
\<close>

theorem carried_declarations:
  assumes "expandChainWithCompensation chain ctx parent = Inr (f, c)" "distinct (node_ids chain)"
  shows "map cr_compensation (ca_nodes c) = map (map_option (carry_declaration (node_ids chain) (computePrefix (wc_id chain) (ec_id ctx)) ctx)
            \<circ> cn_compensation) (wc_nodes chain)
    \<and> map cr_irreversible (ca_nodes c) = map (\<lambda>n. cn_irreversible n = Some True) (wc_nodes chain)
    \<and> map fn_id (ca_nodes c) = map fn_id (ef_nodes f)
    \<and> (\<forall>n \<in> set (wc_nodes chain). \<forall>d. cn_compensation n = Some d \<longrightarrow>
          cn_irreversible n \<noteq> Some True \<and> ec_resolvable ctx (nc_nodeTypeId d))"
proof -
  let ?pfx = "computePrefix (wc_id chain) (ec_id ctx)"
  have e: "expandChain chain ctx = Inr f" and ca: "carryCompensation chain f ctx parent = Inr c"
    using assms(1) by (auto simp: expandChainWithCompensation_def split: sum.splits)
  have fn: "ef_nodes f = map (expand_node ?pfx chain ctx) (wc_nodes chain)"
    using e by (auto simp: expandChain_def Let_def split: option.splits)
  have none: "\<forall>n \<in> set (wc_nodes chain). carry_refusal chain ctx n = None"
    and cn: "ca_nodes c = map (carry_node chain ?pfx ctx) (ef_nodes f)"
    using ca by (auto simp: carryCompensation_def Let_def map_filter_Nil split: list.splits sum.splits)
  have one: "cr_compensation (carry_node chain ?pfx ctx (expand_node ?pfx chain ctx n))
        = map_option (carry_declaration (node_ids chain) ?pfx ctx) (cn_compensation n)
      \<and> cr_irreversible (carry_node chain ?pfx ctx (expand_node ?pfx chain ctx n)) = (cn_irreversible n = Some True)"
    if "n \<in> set (wc_nodes chain)" for n
  proof -
    have "carry_refusal chain ctx n = None" using none that by blast
    with last_of_its_id [OF assms(2) that] show ?thesis
      by (auto simp: carry_node_def expand_node_def expanded_node.defs carry_refusal_def Let_def split: if_splits option.splits)
  qed
  have "fn_id (carry_node chain ?pfx ctx en) = fn_id en" for en
    by (simp add: carry_node_def expanded_node.defs Let_def)
  moreover have "cn_compensation n = Some d \<Longrightarrow> cn_irreversible n \<noteq> Some True \<and> ec_resolvable ctx (nc_nodeTypeId d)"
    if "n \<in> set (wc_nodes chain)" for n d
    using none that by (auto simp: carry_refusal_def split: if_splits option.splits)
  ultimately show ?thesis using one by (simp add: cn fn)
qed

lemma carried_declarations_witness:
  "\<exists>f c. expandChainWithCompensation demo_chain demo_ctx None = Inr (f, c)
    \<and> map cr_compensation (ca_nodes c) = [Some (carry_declaration [''a'', ''b''] ''c_d_e1_'' demo_ctx demo_comp), None]
    \<and> nc_inputMapping (carry_declaration [''a'', ''b''] ''c_d_e1_'' demo_ctx demo_comp)
        = Some (JObj [(''x'', JStr ''${nodes.c_d_e1_a.out}''), (''y'', JNum 7)])"
proof -
  obtain f c where e: "expandChainWithCompensation demo_chain demo_ctx None = Inr (f, c)"
  proof -
    have "\<not> Option.is_none (case expandChainWithCompensation demo_chain demo_ctx None of Inl _ \<Rightarrow> None | Inr r \<Rightarrow> Some ())" by code_simp
    then show ?thesis using that by (cases "expandChainWithCompensation demo_chain demo_ctx None") auto
  qed
  have "distinct (node_ids demo_chain)" "node_ids demo_chain = [''a'', ''b'']" "map cn_compensation (wc_nodes demo_chain) = [Some demo_comp, None]"
    "computePrefix (wc_id demo_chain) (ec_id demo_ctx) = ''c_d_e1_''"
    "nc_inputMapping (carry_declaration [''a'', ''b''] ''c_d_e1_'' demo_ctx demo_comp)
        = Some (JObj [(''x'', JStr ''${nodes.c_d_e1_a.out}''), (''y'', JNum 7)])"
    by code_simp+
  with carried_declarations [OF e] e show ?thesis by (auto simp: list.map_comp [symmetric])
qed

text \<open>
  Expansion never merges compensation policies: the settings it answers are the parent's or the
  chain's own, and when both sides declare one the expansion succeeds only if the two are the
  same value up to the order of their members.
\<close>

theorem policy_never_merged:
  assumes "expandChainWithCompensation chain ctx parent = Inr (f, c)"
  shows "ca_settings c = (if parent = None then wc_compensation chain else parent)
    \<and> (\<forall>p q. parent = Some p \<longrightarrow> wc_compensation chain = Some q \<longrightarrow> normal p = normal q)"
  using assms by (auto simp: expandChainWithCompensation_def carryCompensation_def settle_policy_def Let_def canonical_eq_iff
      split: sum.splits list.splits option.splits if_splits)

lemma policy_never_merged_witness:
  "\<exists>f c. expandChainWithCompensation demo_chain demo_ctx
      (Some (JObj [(''timeoutMs'', JNum 5), (''triggers'', JArr [JStr ''node-failure''])])) = Inr (f, c)
    \<and> ca_settings c = Some (JObj [(''timeoutMs'', JNum 5), (''triggers'', JArr [JStr ''node-failure''])])"
proof -
  let ?p = "Some (JObj [(''timeoutMs'', JNum 5), (''triggers'', JArr [JStr ''node-failure''])])"
  obtain f c where e: "expandChainWithCompensation demo_chain demo_ctx ?p = Inr (f, c)"
  proof -
    have "\<not> Option.is_none (case expandChainWithCompensation demo_chain demo_ctx ?p of Inl _ \<Rightarrow> None | Inr r \<Rightarrow> Some ())" by code_simp
    then show ?thesis using that by (cases "expandChainWithCompensation demo_chain demo_ctx ?p") auto
  qed
  from policy_never_merged [OF e] e show ?thesis by auto
qed

text \<open>
  What the registry wrapper expands is a chain of the pack that was asked for, of the kind and version
  that were asked for, and when the pack has a signature and a key, the check of the manifest's
  own bytes has succeeded.
\<close>

theorem registry_chain_is_verified:
  assumes "expandChainFromRegistry rg rand inp = Inr r"
  shows "\<exists>src m chain f. loadPackSources rg (ei_packName inp) = Inr src \<and> ps_manifest src = m \<and> rg_parse rg (ps_bytes src) = Inr m
    \<and> pm_name m = ei_packName inp \<and> pm_kind m = Some ''workflow-chain''
    \<and> (\<forall>v. ei_version inp = Some v \<longrightarrow> pm_version m = v)
    \<and> (\<forall>sig pub. ps_signature src = Some sig \<longrightarrow> ps_publicKey src = Some pub \<longrightarrow> rg_verify rg pub (ps_bytes src) sig = Some True)
    \<and> chain \<in> set (the (pm_chains m)) \<and> wc_id chain = ei_chainId inp
    \<and> expandChain chain \<lparr>ec_id = eo_expansionId r, ec_params = ei_parameters inp,
          ec_resolvable = (case ei_resolvable inp of None \<Rightarrow> (\<lambda>_. True) | Some g \<Rightarrow> g)\<rparr> = Inr f
    \<and> eo_nodes r = ef_nodes f \<and> eo_edges r = ef_edges f"
proof -
  obtain src where l: "loadPackSources rg (ei_packName inp) = Inr src"
    using assms by (auto simp: expandChainFromRegistry_def split: sum.splits)
  then obtain e where d: "findPackDir rg (ei_packName inp) = Some e"
    and b: "ps_bytes src = (case re_manifest e of None \<Rightarrow> [] | Some t \<Rightarrow> t)" "rg_parse rg (ps_bytes src) = Inr (ps_manifest src)"
    by (auto simp: loadPackSources_def Let_def split: option.splits sum.splits)
  have "names_pack rg (ei_packName inp) e"
    using d by (auto simp: findPackDir_def find_Some_iff split: option.splits)
  with b have name: "pm_name (ps_manifest src) = ei_packName inp"
    by (auto simp: names_pack_def split: option.splits sum.splits)
  have m: "manifest_refusal inp (ps_manifest src) = None" and v: "verifyPackSignature rg src = None"
    using assms l by (auto simp: expandChainFromRegistry_def Let_def split: option.splits)
  from m have kind: "pm_kind (ps_manifest src) = Some ''workflow-chain''" "pm_chains (ps_manifest src) \<noteq> None"
    "ei_version inp = None \<or> ei_version inp = Some (pm_version (ps_manifest src))"
    by (auto simp: manifest_refusal_def Let_def split: if_splits)
  from v have sig: "\<forall>sig pub. ps_signature src = Some sig \<longrightarrow> ps_publicKey src = Some pub \<longrightarrow> rg_verify rg pub (ps_bytes src) sig = Some True"
    by (auto simp: verifyPackSignature_def split: option.splits bool.splits)
  obtain chain where ch: "find (\<lambda>c. wc_id c = ei_chainId inp) (the (pm_chains (ps_manifest src))) = Some chain"
    and x: "\<exists>f. expandChain chain \<lparr>ec_id = eo_expansionId r, ec_params = ei_parameters inp,
          ec_resolvable = (case ei_resolvable inp of None \<Rightarrow> (\<lambda>_. True) | Some g \<Rightarrow> g)\<rparr> = Inr f
      \<and> eo_nodes r = ef_nodes f \<and> eo_edges r = ef_edges f"
    using assms l m v kind(2) by (auto simp: expandChainFromRegistry_def Let_def split: option.splits sum.splits)
  from ch have "chain \<in> set (the (pm_chains (ps_manifest src)))" "wc_id chain = ei_chainId inp"
    by (auto simp: find_Some_iff)
  with l b name kind sig x show ?thesis by auto
qed

definition demo_registry :: registry where
  "demo_registry = \<lparr>rg_dir = ''d'', rg_entries = Some [\<lparr>re_is_dir = True, re_manifest = Some ''m'', re_signature = Some ''s'', re_publicKey = Some ''k''\<rparr>],
     rg_parse = (\<lambda>_. Inr \<lparr>pm_name = ''p'', pm_version = ''1.0.0'', pm_kind = Some ''workflow-chain'', pm_chains = Some [demo_chain]\<rparr>),
     rg_verify = (\<lambda>k b s. Some (k = ''k'' \<and> s = ''s''))\<rparr>"

definition demo_input :: expand_input where
  "demo_input = \<lparr>ei_packName = ''p'', ei_version = None, ei_chainId = ''c.d'', ei_parameters = [], ei_resolvable = None, ei_expansionId = None\<rparr>"

lemma registry_chain_is_verified_witness:
  "\<exists>r src. expandChainFromRegistry demo_registry ''ab12'' demo_input = Inr r
    \<and> loadPackSources demo_registry ''p'' = Inr src \<and> ps_signature src = Some ''s'' \<and> rg_verify demo_registry ''k'' (ps_bytes src) ''s'' = Some True"
proof -
  obtain r where e: "expandChainFromRegistry demo_registry ''ab12'' demo_input = Inr r"
  proof -
    have "\<not> Option.is_none (case expandChainFromRegistry demo_registry ''ab12'' demo_input of Inl _ \<Rightarrow> None | Inr r \<Rightarrow> Some ())" by code_simp
    then show ?thesis using that by (cases "expandChainFromRegistry demo_registry ''ab12'' demo_input") auto
  qed
  obtain src where l: "loadPackSources demo_registry ''p'' = Inr src" "ps_signature src = Some ''s''" "ps_publicKey src = Some ''k''"
    by (simp add: loadPackSources_def findPackDir_def demo_registry_def names_pack_def)
  have "ei_packName demo_input = ''p''" by (simp add: demo_input_def)
  with registry_chain_is_verified [OF e] l e show ?thesis by auto
qed

end
