(* ===== verification/Chains.thy ===== *)
theory Chains
  imports Host_Types Encoding
begin

text \<open>
  \<open>chains.ts\<close>: registering the chains of a pack. Every reference pins an exact version,
  sub-chains are expanded under a bound that is also the cycle guard, each child is
  registered under an identifier both its parents compute, and a child leaves the registry
  with its last parent. The manifest has passed its schema, so the entries of its lists are
  objects. A thrown error leaves what was already registered, as in the code.
\<close>

section \<open>The registry\<close>

record chain_store =
  cs_workflows :: "(string \<times> string) list"
  cs_owners :: "((string \<times> string) \<times> string) list"

definition upsertChainChild :: "string \<Rightarrow> string \<Rightarrow> chain_store \<Rightarrow> chain_store" where
  "upsertChainChild wid def s = s\<lparr>cs_workflows := AList.update wid def (cs_workflows s)\<rparr>"

definition deleteChainChild :: "string \<Rightarrow> chain_store \<Rightarrow> chain_store" where
  "deleteChainChild wid s = s\<lparr>cs_workflows := AList.delete wid (cs_workflows s)\<rparr>"

definition getChainWorkflow :: "string \<Rightarrow> chain_store \<Rightarrow> string option" where
  "getChainWorkflow wid s = map_of (cs_workflows s) wid"

definition recordChainOwnership :: "string \<Rightarrow> string \<Rightarrow> string \<Rightarrow> chain_store \<Rightarrow> chain_store" where
  "recordChainOwnership parent child ref s = s\<lparr>cs_owners := AList.update (parent, child) ref (cs_owners s)\<rparr>"

definition dropChainOwnership :: "string \<Rightarrow> string \<Rightarrow> chain_store \<Rightarrow> chain_store" where
  "dropChainOwnership parent child s = s\<lparr>cs_owners := AList.delete (parent, child) (cs_owners s)\<rparr>"

definition chainChildrenOf :: "string \<Rightarrow> chain_store \<Rightarrow> string list" where
  "chainChildrenOf parent s = map (snd \<circ> fst) (filter (\<lambda>r. fst (fst r) = parent) (cs_owners s))"

definition chainParentCount :: "string \<Rightarrow> chain_store \<Rightarrow> nat" where
  "chainParentCount child s = length (filter (\<lambda>r. snd (fst r) = child) (cs_owners s))"

section \<open>Exact pins\<close>

definition lower_char :: "char \<Rightarrow> bool" where
  "lower_char c \<longleftrightarrow> (let n = (of_char c :: nat) in 97 \<le> n \<and> n \<le> 122)"

definition exact_version :: "string \<Rightarrow> bool" where
  "exact_version s \<longleftrightarrow> (let ps = split_on (CHR ''.'') s in length ps = 3 \<and> list_all (\<lambda>p. p \<noteq> [] \<and> list_all is_digit p) ps)"

fun id_segment :: "(char \<Rightarrow> bool) \<Rightarrow> string \<Rightarrow> bool" where
  "id_segment ok [] = False"
| "id_segment ok (c # s) = (lower_char c \<and> list_all ok s)"

definition first_char :: "char \<Rightarrow> bool" where
  "first_char c \<longleftrightarrow> lower_char c \<or> is_digit c \<or> c \<in> {CHR ''_'', CHR ''-''}"

definition later_char :: "char \<Rightarrow> bool" where
  "later_char c \<longleftrightarrow> name_char c \<or> c = CHR ''-''"

definition pinned_ref :: "string \<Rightarrow> bool" where
  "pinned_ref s = (case split_on (CHR ''@'') s of
     [name, version] \<Rightarrow> (case split_on (CHR ''.'') name of
         first # later \<Rightarrow> later \<noteq> [] \<and> id_segment first_char first \<and> list_all (id_segment later_char) later \<and> exact_version version
       | [] \<Rightarrow> False)
   | _ \<Rightarrow> False)"

definition json_list :: "json option \<Rightarrow> json list" where
  "json_list v = (case arr_of v of None \<Rightarrow> [] | Some xs \<Rightarrow> xs)"

definition chains_of :: "(string \<times> json) list \<Rightarrow> json list" where
  "chains_of manifest = json_list (map_of manifest ''chains'')"

text \<open>\<open>String(v ?? '')\<close> and \<open>JSON.stringify(v)\<close> inside a message.\<close>

definition text_or_empty :: "json option \<Rightarrow> string" where
  "text_or_empty v = js_String (nullish v (Some (JStr [])))"

definition shown_json :: "json option \<Rightarrow> string" where
  "shown_json v = (case v of None \<Rightarrow> ''undefined'' | Some j \<Rightarrow> json_stringify j)"

definition pack_refusal :: "string \<Rightarrow> (string \<times> json) list \<Rightarrow> exn" where
  "pack_refusal m ds = HostError ''pack_validation_failed'' m (Some (JObj ds))"

definition node_pin_error :: "json \<Rightarrow> json \<Rightarrow> exn option" where
  "node_pin_error chain n =
     (let ref = text_of (jfield n ''typeId'') in
      if pinned_ref ref then None else Some (pack_refusal
        (''chain '' @ js_String (jfield chain ''chainId'') @ '' node '' @ js_String (jfield n ''id'') @ '' references '' @ quote_string ref
           @ '' '' @ EM_DASH @ '' every reference MUST pin an exact version (core.ai.callPrompt@1.0.0); a range or a bare typeId is not a v2.0 spelling (workflow-chain-packs.md '' @ SECTION_SIGN @ ''Exact pins)'')
        [(''reason'', JStr ''chain_reference_unpinned''), (''chainId'', JStr (text_or_empty (jfield chain ''chainId''))), (''reference'', JStr ref)]))"

definition sub_pin_error :: "json \<Rightarrow> json \<Rightarrow> exn option" where
  "sub_pin_error chain s =
     (let ref = jfield s ''ref''; v = jget ref ''version'' in
      if is_str ref then None
      else if \<not> is_object ref then Some (pack_refusal
        (''chain '' @ js_String (jfield chain ''chainId'') @ '' has a subChain whose ref is neither a sibling chainId nor an external reference'')
        [(''reason'', JStr ''sub_chain_unresolved''), (''chainId'', JStr (text_or_empty (jfield chain ''chainId'')))])
      else if \<not> is_str v \<or> \<not> exact_version (text_of v) then Some (pack_refusal
        (''chain '' @ js_String (jfield chain ''chainId'') @ '' composes an external chain at version '' @ shown_json v
           @ '' '' @ EM_DASH @ '' a reference MUST pin an exact version, not a range (workflow-chain-packs.md '' @ SECTION_SIGN @ ''Exact pins)'')
        [(''reason'', JStr ''chain_reference_unpinned''), (''chainId'', JStr (text_or_empty (jfield chain ''chainId''))), (''reference'', JStr (text_or_empty v))])
      else None)"

definition dag_list :: "json \<Rightarrow> string \<Rightarrow> json" where
  "dag_list chain k = (case nullish (jget (nullish (jfield chain ''dag'') (Some (JObj []))) k) (Some (JArr [])) of None \<Rightarrow> JArr [] | Some v \<Rightarrow> v)"

definition chain_nodes :: "json \<Rightarrow> json list" where
  "chain_nodes chain = json_list (jget (nullish (jfield chain ''dag'') (Some (JObj []))) ''nodes'')"

definition sub_chains :: "json \<Rightarrow> json list" where
  "sub_chains chain = json_list (jfield chain ''subChains'')"

definition chain_pin_errors :: "json \<Rightarrow> exn list" where
  "chain_pin_errors chain = List.map_filter (node_pin_error chain) (chain_nodes chain) @ List.map_filter (sub_pin_error chain) (sub_chains chain)"

text \<open>The first error thrown, if any.\<close>

definition assertExactPins :: "(string \<times> json) list \<Rightarrow> exn option" where
  "assertExactPins manifest = (case concat (map chain_pin_errors (chains_of manifest)) of [] \<Rightarrow> None | e # _ \<Rightarrow> Some e)"

section \<open>Parameters\<close>

definition PARAMS_DOT :: string where "PARAMS_DOT = ''params.''"

text \<open>A token at the head of a text: the token, the name in it, and the rest.\<close>

definition param_token_at :: "string \<Rightarrow> (string \<times> string \<times> string) option" where
  "param_token_at s =
     (if take 2 s \<noteq> ''{{'' then None else
      let t = dropWhile js_space (drop 2 s) in
      if take (length PARAMS_DOT) t \<noteq> PARAMS_DOT then None else
      let u = drop (length PARAMS_DOT) t; name = takeWhile name_char u; rest = dropWhile js_space (dropWhile name_char u)
      in if name \<noteq> [] \<and> name_start (hd name) \<and> take 2 rest = ''}}''
         then Some (take (length s - length (drop 2 rest)) s, name, drop 2 rest) else None)"

lemma param_token_shorter: "param_token_at s = Some (whole, name, rest) \<Longrightarrow> length rest < length s"
proof -
  assume a: "param_token_at s = Some (whole, name, rest)"
  let ?u = "drop (length PARAMS_DOT) (dropWhile js_space (drop 2 s))"
  from a have open2: "take 2 s = ''{{''" and r: "rest = drop 2 (dropWhile js_space (dropWhile name_char ?u))"
    by (auto simp: param_token_at_def Let_def split: if_splits)
  from open2 have "2 \<le> length s" by (metis (no_types) length_take min.cobounded1 length_Cons list.size(3) numeral_2_eq_2)
  have "length rest \<le> length (dropWhile js_space (dropWhile name_char ?u))" by (simp add: r)
  also have "\<dots> \<le> length (dropWhile name_char ?u)" by (rule length_dropWhile_le)
  also have "\<dots> \<le> length ?u" by (rule length_dropWhile_le)
  also have "\<dots> \<le> length (dropWhile js_space (drop 2 s))" by simp
  also have "\<dots> \<le> length (drop 2 s)" by (rule length_dropWhile_le)
  also have "\<dots> < length s" using \<open>2 \<le> length s\<close> by simp
  finally show ?thesis .
qed

function substitute_string :: "(string \<times> json) list \<Rightarrow> string \<Rightarrow> exn + string" where
  "substitute_string params [] = Inr []"
| "substitute_string params (c # s) = (case param_token_at (c # s) of
     None \<Rightarrow> (case substitute_string params s of Inl e \<Rightarrow> Inl e | Inr t \<Rightarrow> Inr (c # t))
   | Some (whole, name, rest) \<Rightarrow> (case map_of params name of
       None \<Rightarrow> Inl (pack_refusal (''chain parameter '' @ name @ '' has no value at expansion time, and a persisted definition MUST NOT carry ''
           @ whole @ '' (workflow-chain-packs.md '' @ SECTION_SIGN @ ''Parameter substitution)'')
         [(''reason'', JStr ''chain_parameter_unbound''), (''parameter'', JStr name)])
     | Some v \<Rightarrow> (case substitute_string params rest of Inl e \<Rightarrow> Inl e
         | Inr t \<Rightarrow> Inr ((case v of JStr x \<Rightarrow> x | _ \<Rightarrow> json_stringify v) @ t))))"
  by pat_completeness auto

termination by (relation "measure (length \<circ> snd)") (auto dest: param_token_shorter)

fun substitute_value :: "(string \<times> json) list \<Rightarrow> json \<Rightarrow> exn + json"
and substitute_values :: "(string \<times> json) list \<Rightarrow> json list \<Rightarrow> exn + json list"
and substitute_fields :: "(string \<times> json) list \<Rightarrow> (string \<times> json) list \<Rightarrow> exn + (string \<times> json) list" where
  "substitute_value params (JStr s) = map_sum id JStr (substitute_string params s)"
| "substitute_value params (JArr xs) = map_sum id JArr (substitute_values params xs)"
| "substitute_value params (JObj ps) = map_sum id JObj (substitute_fields params ps)"
| "substitute_value params JNull = Inr JNull"
| "substitute_value params (JBool b) = Inr (JBool b)"
| "substitute_value params (JNum n) = Inr (JNum n)"
| "substitute_values params [] = Inr []"
| "substitute_values params (x # xs) = (case substitute_value params x of Inl e \<Rightarrow> Inl e
     | Inr y \<Rightarrow> map_sum id ((#) y) (substitute_values params xs))"
| "substitute_fields params [] = Inr []"
| "substitute_fields params ((k, x) # ps) = (case substitute_value params x of Inl e \<Rightarrow> Inl e
     | Inr y \<Rightarrow> map_sum id ((#) (k, y)) (substitute_fields params ps))"

text \<open>\<open>PARAM_TOKEN.test(persisted)\<close>.\<close>

fun has_param_token :: "string \<Rightarrow> bool" where
  "has_param_token [] = False"
| "has_param_token (c # s) = (param_token_at (c # s) \<noteq> None \<or> has_param_token s)"

section \<open>Expansion\<close>

definition childWorkflowId :: "host \<Rightarrow> string \<Rightarrow> string" where
  "childWorkflowId h ref = ''chain-child-'' @ take 24 (hex_of (h_sha256 h ref))"

text \<open>The chain a sub-chain reference names, and the resolved reference its owner records.\<close>

definition sub_chain_id :: "json \<Rightarrow> string" where
  "sub_chain_id s = (let ref = jfield s ''ref'' in
     if is_object ref then js_String (jget ref ''chainId'') else js_String ref)"

definition resolved_ref :: "json \<Rightarrow> string" where
  "resolved_ref s = (let ref = jfield s ''ref'' in
     if is_object ref then js_String (jget ref ''packName'') @ ''#'' @ sub_chain_id s @ ''@'' @ js_String (jget ref ''version'')
     else sub_chain_id s)"

definition find_chain :: "(string \<times> json) list \<Rightarrow> string \<Rightarrow> json option" where
  "find_chain manifest cid = find (\<lambda>c. js_String (jfield c ''chainId'') = cid) (chains_of manifest)"

definition chain_id :: "json \<Rightarrow> string" where
  "chain_id chain = text_or_empty (jfield chain ''chainId'')"

definition ARROW :: string where "ARROW = '' '' @ [CHR 0xE2, CHR 0x86, CHR 0x92] @ '' ''"

definition arrow_join :: "string list \<Rightarrow> string" where
  "arrow_join xs = concat (case xs of [] \<Rightarrow> [] | x # r \<Rightarrow> x # map (\<lambda>y. ARROW @ y) r)"

definition path_json :: "string list \<Rightarrow> json" where
  "path_json xs = JArr (map JStr xs)"

definition expanded_definition :: "json \<Rightarrow> (string \<times> json) list \<Rightarrow> exn + json" where
  "expanded_definition chain params =
     (case substitute_value params (dag_list chain ''nodes'') of Inl e \<Rightarrow> Inl e
      | Inr nodes \<Rightarrow> (case substitute_value params (dag_list chain ''edges'') of Inl e \<Rightarrow> Inl e
      | Inr edges \<Rightarrow>
        (let def = JObj [(''id'', JStr (chain_id chain)),
               (''version'', JStr (case str_of (jfield chain ''version'') of Some v \<Rightarrow> v | None \<Rightarrow> ''1.0.0'')),
               (''nodes'', nodes), (''edges'', edges), (''variables'', JArr [])]
         in if has_param_token (json_stringify def)
            then Inl (pack_refusal (''the expanded definition for '' @ chain_id chain @ '' still carries a {{params.*}} token ''
                @ EM_DASH @ '' substitution happens at expansion, never at dispatch (workflow-chain-packs.md '' @ SECTION_SIGN @ ''Parameter substitution)'')
              [(''reason'', JStr ''chain_parameter_deferred''), (''chainId'', JStr (chain_id chain))])
            else Inr def)))"

text \<open>
  \<open>seen\<close> is the path from the registered chain. A child is expanded, then registered and
  owned by its parent, before the parent's own definition is built.
\<close>

function expand_chain :: "host \<Rightarrow> nat \<Rightarrow> (string \<times> json) list \<Rightarrow> (string \<times> json) list \<Rightarrow> string list \<Rightarrow> json \<Rightarrow> chain_store
    \<Rightarrow> (exn + json \<times> string list) \<times> chain_store"
and expand_subs :: "host \<Rightarrow> nat \<Rightarrow> (string \<times> json) list \<Rightarrow> (string \<times> json) list \<Rightarrow> string list \<Rightarrow> string \<Rightarrow> json list \<Rightarrow> chain_store
    \<Rightarrow> (exn + string list) \<times> chain_store" where
  "expand_chain h maxDepth manifest params seen chain s =
     (let cid = chain_id chain in
      if cid \<in> set seen then (Inl (HostError ''sub_chain_cycle'' (''chain '' @ cid @ '' composes itself through '' @ arrow_join (seen @ [cid]))
        (Some (JObj [(''chainId'', JStr cid), (''path'', path_json (seen @ [cid]))]))), s)
      else if length seen \<ge> maxDepth then (Inl (HostError ''sub_chain_depth_exceeded''
        (''sub-chain nesting exceeds workflowChainPacks.subChains.maxDepth '' @ nat_string maxDepth)
        (Some (JObj [(''maxDepth'', JNum (int maxDepth)), (''path'', path_json (seen @ [cid]))]))), s)
      else case expand_subs h maxDepth manifest params (seen @ [cid]) cid (sub_chains chain) s of
          (Inl e, s1) \<Rightarrow> (Inl e, s1)
        | (Inr children, s1) \<Rightarrow> (case expanded_definition chain params of Inl e \<Rightarrow> (Inl e, s1)
            | Inr def \<Rightarrow> (Inr (def, children), s1)))"
| "expand_subs h maxDepth manifest params seen cid [] s = (Inr [], s)"
| "expand_subs h maxDepth manifest params seen cid (x # xs) s =
     (case find_chain manifest (sub_chain_id x) of
        None \<Rightarrow> (Inl (HostError ''sub_chain_unresolved'' (''subChain '' @ resolved_ref x @ '' names no chain this manifest declares''
            @ (if is_object (jfield x ''ref'') then '' and this host resolves no external chain registry'' else []))
            (Some (JObj [(''reference'', JStr (resolved_ref x)), (''chainId'', JStr cid)]))), s)
      | Some child \<Rightarrow>
          (case expand_chain h maxDepth manifest params seen child s of
             (Inl e, s1) \<Rightarrow> (Inl e, s1)
           | (Inr (def, below), s1) \<Rightarrow>
               (let wid = childWorkflowId h (resolved_ref x);
                    s2 = recordChainOwnership cid wid (resolved_ref x) (upsertChainChild wid (json_stringify def) s1)
                in case expand_subs h maxDepth manifest params seen cid xs s2 of
                     (Inl e, s3) \<Rightarrow> (Inl e, s3)
                   | (Inr children, s3) \<Rightarrow> (Inr (wid # below @ children), s3))))"
  by pat_completeness auto

termination
  by (relation "inv_image (less_than <*lex*> less_than) (\<lambda>a. case a of
      Inl (h, maxDepth, m, p, seen, c, s) \<Rightarrow> (Suc maxDepth - length seen, 0)
    | Inr (h, maxDepth, m, p, seen, cid, xs, s) \<Rightarrow> (Suc maxDepth - length seen, Suc (length xs)))") auto

declare expand_chain.simps [simp del]

section \<open>Registering and unregistering a pack\<close>

definition default_params :: "json \<Rightarrow> (string \<times> json) list" where
  "default_params chain =
     (let declared = nullish (jfield chain ''parameters'') (Some (JObj []))
      in fold (\<lambda>(k, v) ps. if is_object (Some v) then (case jfield v ''default'' of None \<Rightarrow> ps | Some d \<Rightarrow> AList.update k d ps) else ps)
           (members_of (nullish (jget declared ''properties'') (Some (JObj [])))) [])"

fun register_chains :: "host \<Rightarrow> nat \<Rightarrow> (string \<times> json) list \<Rightarrow> json list \<Rightarrow> chain_store \<Rightarrow> (exn + string list \<times> string list) \<times> chain_store" where
  "register_chains h maxDepth manifest [] s = (Inr ([], []), s)"
| "register_chains h maxDepth manifest (c # cs) s =
     (case expand_chain h maxDepth manifest (default_params c) [] c s of
        (Inl e, s1) \<Rightarrow> (Inl e, s1)
      | (Inr (def, below), s1) \<Rightarrow>
          (case register_chains h maxDepth manifest cs (upsertChainChild (js_String (jfield c ''chainId'')) (json_stringify def) s1) of
             (Inl e, s2) \<Rightarrow> (Inl e, s2)
           | (Inr (ids, children), s2) \<Rightarrow> (Inr (js_String (jfield c ''chainId'') # ids, below @ children), s2)))"

definition registerChainPack :: "host \<Rightarrow> nat \<Rightarrow> (string \<times> json) list \<Rightarrow> chain_store \<Rightarrow> (exn + string list \<times> string list) \<times> chain_store" where
  "registerChainPack h maxDepth manifest s =
     (case assertExactPins manifest of Some e \<Rightarrow> (Inl e, s)
      | None \<Rightarrow> register_chains h maxDepth manifest (chains_of manifest) s)"

definition release_child :: "string \<Rightarrow> string \<Rightarrow> chain_store \<Rightarrow> chain_store" where
  "release_child cid child s =
     (let s1 = dropChainOwnership cid child s in if chainParentCount child s1 = 0 then deleteChainChild child s1 else s1)"

definition unregister_chain :: "json \<Rightarrow> chain_store \<Rightarrow> chain_store" where
  "unregister_chain chain s =
     (let cid = chain_id chain in deleteChainChild cid (fold (release_child cid) (chainChildrenOf cid s) s))"

definition unregisterChainPack :: "(string \<times> json) list \<Rightarrow> chain_store \<Rightarrow> chain_store" where
  "unregisterChainPack manifest s = fold unregister_chain (chains_of manifest) s"

section \<open>A registered chain composes a finite tree\<close>

text \<open>A path of the composition: each chain names the next in one of its sub-chains.\<close>

definition composes :: "(string \<times> json) list \<Rightarrow> json \<Rightarrow> json \<Rightarrow> bool" where
  "composes manifest c d \<longleftrightarrow> (\<exists>x \<in> set (sub_chains c). find_chain manifest (sub_chain_id x) = Some d)"

fun composition_path :: "(string \<times> json) list \<Rightarrow> json list \<Rightarrow> bool" where
  "composition_path manifest [] = True"
| "composition_path manifest [c] = True"
| "composition_path manifest (c # d # cs) = (composes manifest c d \<and> composition_path manifest (d # cs))"

lemma expand_paths:
  "fst (expand_chain h maxDepth manifest params seen chain s) = Inr r \<Longrightarrow>
     \<forall>cs. composition_path manifest (chain # cs) \<longrightarrow> distinct seen \<longrightarrow>
       distinct (seen @ map chain_id (chain # cs)) \<and> length (seen @ chain_id chain # map chain_id cs) \<le> maxDepth"
  "fst (expand_subs h maxDepth manifest params seen cid xs s) = Inr ids \<Longrightarrow>
     \<forall>x d cs. x \<in> set xs \<longrightarrow> find_chain manifest (sub_chain_id x) = Some d \<longrightarrow> composition_path manifest (d # cs) \<longrightarrow> distinct seen \<longrightarrow>
       distinct (seen @ map chain_id (d # cs)) \<and> length (seen @ chain_id d # map chain_id cs) \<le> maxDepth"
proof (induction h maxDepth manifest params seen chain s and h maxDepth manifest params seen cid xs s
    arbitrary: r and ids rule: expand_chain_expand_subs.induct)
  case (1 h maxDepth manifest params seen chain s)
  have fresh: "chain_id chain \<notin> set seen" and short: "length seen < maxDepth"
    using "1.prems" by (auto simp: expand_chain.simps [of h maxDepth manifest params seen] Let_def split: if_splits)
  obtain ids where subs: "fst (expand_subs h maxDepth manifest params (seen @ [chain_id chain]) (chain_id chain) (sub_chains chain) s) = Inr ids"
    using "1.prems" fresh short
    by (auto simp: expand_chain.simps [of h maxDepth manifest params seen] Let_def split: prod.splits sum.splits)
  note below = "1.IH" [OF refl _ _ subs]
  show ?case
  proof (intro allI impI)
    fix cs
    assume path: "composition_path manifest (chain # cs)" and d: "distinct seen"
    show "distinct (seen @ map chain_id (chain # cs)) \<and> length (seen @ chain_id chain # map chain_id cs) \<le> maxDepth"
    proof (cases cs)
      case Nil
      with fresh short d show ?thesis by simp
    next
      case (Cons e es)
      with path obtain x where "x \<in> set (sub_chains chain)" "find_chain manifest (sub_chain_id x) = Some e" "composition_path manifest (e # es)"
        by (auto simp: composes_def)
      with below fresh short d have "distinct ((seen @ [chain_id chain]) @ map chain_id (e # es))
          \<and> length ((seen @ [chain_id chain]) @ chain_id e # map chain_id es) \<le> maxDepth" by auto
      with Cons show ?thesis by auto
    qed
  qed
next
  case (3 h maxDepth manifest params seen cid x xs s)
  obtain child where child: "find_chain manifest (sub_chain_id x) = Some child"
    using "3.prems" by (auto split: option.splits)
  obtain r s1 where ex: "expand_chain h maxDepth manifest params seen child s = (Inr r, s1)"
    using "3.prems" child by (auto split: prod.splits sum.splits)
  obtain def below where r: "r = (def, below)" by force
  obtain ids' where rest: "fst (expand_subs h maxDepth manifest params seen cid xs
      (recordChainOwnership cid (childWorkflowId h (resolved_ref x)) (resolved_ref x)
        (upsertChainChild (childWorkflowId h (resolved_ref x)) (json_stringify def) s1))) = Inr ids'"
    using "3.prems" child ex r by (auto simp: Let_def split: prod.splits sum.splits)
  have one: "fst (expand_chain h maxDepth manifest params seen child s) = Inr r" by (simp add: ex)
  from "3.IH"(1) [OF child one] "3.IH"(2) [OF child ex [symmetric] refl r [symmetric] refl refl rest] r child
  show ?case by (auto simp del: map_append)
qed simp

text \<open>
  C5: When a chain of a pack is registered, no path of sub-chains from it visits a chain twice or is
  longer than the advertised depth: the one guard refuses every cycle and every nesting beyond it.
\<close>

theorem registered_chain_is_finite_tree:
  assumes "fst (expand_chain h maxDepth manifest params [] chain s) = Inr r"
    and "composition_path manifest (chain # cs)"
  shows "distinct (map chain_id (chain # cs)) \<and> length (chain # cs) \<le> maxDepth"
  using expand_paths(1) [OF assms(1)] assms(2) by fastforce

definition demo_pack :: "(string \<times> json) list" where
  "demo_pack = [(''chains'', JArr [
     JObj [(''chainId'', JStr ''p''), (''subChains'', JArr [JObj [(''ref'', JStr ''q'')]]),
           (''parameters'', JObj [(''properties'', JObj [(''n'', JObj [(''default'', JNum 7)])])]),
           (''dag'', JObj [(''nodes'', JArr [JObj [(''typeId'', JStr ''core.x@1.0.0''), (''k'', JStr ''{{ params.n }}'')]])])],
     JObj [(''chainId'', JStr ''q'')]])]"

definition demo_parent :: json where
  "demo_parent = JObj [(''chainId'', JStr ''p''), (''subChains'', JArr [JObj [(''ref'', JStr ''q'')]])]"

definition chains_host :: host where
  "chains_host = \<lparr>h_art = \<lparr>a_rows = [], a_v2_types = [], a_vendor = (\<lambda>_. False), a_orgs = [], a_error_codes = [], a_parts = False\<rparr>,
     h_workflows = [], h_opaque = (\<lambda>_. []), h_regex = (\<lambda>_ _. None), h_seams = False, h_changes = [],
     h_retention_ms = 0, h_forms = None, h_kid = [], h_secret = [], h_legacy_secret = [],
     h_hmac = (\<lambda>_ m. m), h_sha256 = (\<lambda>m. m), h_iso = (\<lambda>_. []), h_date = (\<lambda>_. None)\<rparr>"

lemma registered_chain_is_finite_tree_witness:
  "distinct (map chain_id [demo_parent, JObj [(''chainId'', JStr ''q'')]]) \<and> length [demo_parent, JObj [(''chainId'', JStr ''q'')]] \<le> 8"
proof -
  have "case fst (expand_chain chains_host 8 demo_pack [] [] demo_parent \<lparr>cs_workflows = [], cs_owners = []\<rparr>) of Inl _ \<Rightarrow> False | Inr _ \<Rightarrow> True"
    by code_simp
  then obtain r where r: "fst (expand_chain chains_host 8 demo_pack [] [] demo_parent \<lparr>cs_workflows = [], cs_owners = []\<rparr>) = Inr r"
    by (auto split: sum.splits)
  have "find_chain demo_pack (sub_chain_id (JObj [(''ref'', JStr ''q'')])) = Some (JObj [(''chainId'', JStr ''q'')])" by code_simp
  then have "composition_path demo_pack [demo_parent, JObj [(''chainId'', JStr ''q'')]]"
    by (auto simp: composes_def demo_parent_def sub_chains_def json_list_def)
  from registered_chain_is_finite_tree [OF r this] show ?thesis .
qed

section \<open>A child goes with its last parent\<close>

definition owns :: "string \<Rightarrow> string \<Rightarrow> chain_store \<Rightarrow> bool" where
  "owns p c s \<longleftrightarrow> (p, c) \<in> fst ` set (cs_owners s)"

definition child_named :: "string \<Rightarrow> bool" where
  "child_named c \<longleftrightarrow> take 12 c = ''chain-child-''"

text \<open>What the registry keeps: owned children are registered, under the derived identifiers.\<close>

definition ownership_ok :: "chain_store \<Rightarrow> bool" where
  "ownership_ok s \<longleftrightarrow> (\<forall>p c. owns p c s \<longrightarrow> child_named c \<and> getChainWorkflow c s \<noteq> None)"

lemma keys_update: "fst ` set (AList.update k v m) = insert k (fst ` set m)"
  using dom_update [of k v m] by (simp add: dom_map_of_conv_image_fst update_conv')

lemma keys_delete: "fst ` set (AList.delete k m) = fst ` set m - {k}"
  by (simp only: set_map [symmetric] delete_keys set_removeAll)

lemma owns_ops [simp]:
  "owns p c (upsertChainChild w d s) = owns p c s"
  "owns p c (deleteChainChild w s) = owns p c s"
  "owns p c (recordChainOwnership q d r s) \<longleftrightarrow> p = q \<and> c = d \<or> owns p c s"
  "owns p c (dropChainOwnership q d s) \<longleftrightarrow> owns p c s \<and> \<not> (p = q \<and> c = d)"
  by (auto simp: owns_def upsertChainChild_def deleteChainChild_def recordChainOwnership_def dropChainOwnership_def keys_update keys_delete)

lemma get_ops [simp]:
  "getChainWorkflow c (upsertChainChild w d s) = (if w = c then Some d else getChainWorkflow c s)"
  "getChainWorkflow c (deleteChainChild w s) = (if w = c then None else getChainWorkflow c s)"
  "getChainWorkflow c (recordChainOwnership q d r s) = getChainWorkflow c s"
  "getChainWorkflow c (dropChainOwnership q d s) = getChainWorkflow c s"
  by (simp_all add: getChainWorkflow_def upsertChainChild_def deleteChainChild_def recordChainOwnership_def dropChainOwnership_def)

lemma no_parents: "chainParentCount c s = 0 \<longleftrightarrow> (\<forall>p. \<not> owns p c s)"
  by (force simp: chainParentCount_def owns_def filter_empty_conv)

lemma children_owned: "c \<in> set (chainChildrenOf p s) \<longleftrightarrow> owns p c s"
  by (force simp: chainChildrenOf_def owns_def)

lemma release_child_effect:
  "owns p c (release_child q d s) \<longleftrightarrow> owns p c s \<and> \<not> (p = q \<and> c = d)"
  "getChainWorkflow c (release_child q d s) = (if c = d \<and> (\<forall>p. owns p d s \<longrightarrow> p = q) then None else getChainWorkflow c s)"
  by (auto simp: release_child_def Let_def no_parents)

lemma release_all_effect:
  "owns p c (fold (release_child q) ds s) \<longleftrightarrow> owns p c s \<and> \<not> (p = q \<and> c \<in> set ds)"
  "getChainWorkflow c (fold (release_child q) ds s)
     = (if c \<in> set ds \<and> (\<forall>p. owns p c s \<longrightarrow> p = q) then None else getChainWorkflow c s)"
  by (induction ds arbitrary: s) (auto simp: release_child_effect)

lemma unregister_chain_effect:
  "owns p c (unregister_chain chain s) \<longleftrightarrow> owns p c s \<and> p \<noteq> chain_id chain"
  "c \<noteq> chain_id chain \<Longrightarrow> getChainWorkflow c (unregister_chain chain s)
     = (if owns (chain_id chain) c s \<and> (\<forall>p. owns p c s \<longrightarrow> p = chain_id chain) then None else getChainWorkflow c s)"
  by (auto simp: unregister_chain_def Let_def release_all_effect children_owned)

lemma unregister_chains_owns:
  "owns p c (fold unregister_chain cs s) \<longleftrightarrow> owns p c s \<and> p \<notin> chain_id ` set cs"
  by (induction cs arbitrary: s) (simp_all add: unregister_chain_effect(1))

lemma unregister_chains_get:
  "c \<notin> chain_id ` set cs \<Longrightarrow> getChainWorkflow c (fold unregister_chain cs s)
     = (if (\<exists>p. owns p c s) \<and> (\<forall>p. owns p c s \<longrightarrow> p \<in> chain_id ` set cs) then None else getChainWorkflow c s)"
proof (induction cs arbitrary: s)
  case (Cons x xs)
  let ?s = "unregister_chain x s"
  let ?O = "\<lambda>p. owns p c s" and ?x = "chain_id x" and ?X = "chain_id ` set xs"
  from Cons.prems have x: "c \<noteq> ?x" and xs: "c \<notin> ?X" by simp_all
  have two: "(if A then None else if B then None else g) = (if A \<or> B then None else g)" for A B and g :: "string option"
    by simp
  have gone: "(\<exists>p. ?O p \<and> p \<noteq> ?x) \<and> (\<forall>p. ?O p \<and> p \<noteq> ?x \<longrightarrow> p \<in> ?X) \<or> ?O ?x \<and> (\<forall>p. ?O p \<longrightarrow> p = ?x)
      \<longleftrightarrow> (\<exists>p. ?O p) \<and> (\<forall>p. ?O p \<longrightarrow> p \<in> insert ?x ?X)" by blast
  have "getChainWorkflow c (fold unregister_chain (x # xs) s)
      = (if (\<exists>p. owns p c ?s) \<and> (\<forall>p. owns p c ?s \<longrightarrow> p \<in> ?X) then None else getChainWorkflow c ?s)"
    using Cons.IH [OF xs, of ?s] by simp
  also have "\<dots> = (if (\<exists>p. ?O p \<and> p \<noteq> ?x) \<and> (\<forall>p. ?O p \<and> p \<noteq> ?x \<longrightarrow> p \<in> ?X) \<or> ?O ?x \<and> (\<forall>p. ?O p \<longrightarrow> p = ?x)
      then None else getChainWorkflow c s)"
    unfolding unregister_chain_effect(2) [OF x] unregister_chain_effect(1) by (rule two)
  finally show ?case unfolding gone by simp
qed auto

lemma childWorkflowId_named [simp]: "child_named (childWorkflowId h ref)"
  by (simp add: child_named_def childWorkflowId_def)

lemma ownership_ok_upsert: "ownership_ok s \<Longrightarrow> ownership_ok (upsertChainChild w d s)"
  by (simp add: ownership_ok_def)

lemma expand_keeps_ownership:
  "ownership_ok s \<Longrightarrow> ownership_ok (snd (expand_chain h maxDepth manifest params seen chain s))"
  "ownership_ok s \<Longrightarrow> ownership_ok (snd (expand_subs h maxDepth manifest params seen cid xs s))"
proof (induction h maxDepth manifest params seen chain s and h maxDepth manifest params seen cid xs s rule: expand_chain_expand_subs.induct)
  case (1 h maxDepth manifest params seen chain s)
  then show ?case
    by (auto simp: expand_chain.simps [of h maxDepth manifest params seen] Let_def split: prod.splits sum.splits)
next
  case (3 h maxDepth manifest params seen cid x xs s)
  show ?case
  proof (cases "find_chain manifest (sub_chain_id x)")
    case (Some child)
    obtain r s1 where ex: "expand_chain h maxDepth manifest params seen child s = (r, s1)" by force
    with "3.IH"(1) [OF Some "3.prems"] have ok: "ownership_ok s1" by simp
    show ?thesis
    proof (cases r)
      case (Inr q)
      obtain def below where q: "q = (def, below)" by force
      let ?s2 = "recordChainOwnership cid (childWorkflowId h (resolved_ref x)) (resolved_ref x)
        (upsertChainChild (childWorkflowId h (resolved_ref x)) (json_stringify def) s1)"
      have "ownership_ok ?s2" using ok by (auto simp: ownership_ok_def)
      from "3.IH"(2) [OF Some ex [symmetric] Inr q [symmetric] refl refl this] Some ex Inr q
      show ?thesis by (auto simp: Let_def split: prod.splits sum.splits)
    qed (simp add: Some ex ok)
  qed (simp add: "3.prems")
qed simp

lemma register_keeps_ownership: "ownership_ok s \<Longrightarrow> ownership_ok (snd (register_chains h maxDepth manifest cs s))"
proof (induction cs arbitrary: s)
  case (Cons c cs)
  obtain r s1 where ex: "expand_chain h maxDepth manifest (default_params c) [] c s = (r, s1)" by force
  with expand_keeps_ownership(1) [OF Cons.prems] have ok: "ownership_ok s1" by (metis snd_conv)
  have "snd (register_chains h maxDepth manifest (c # cs) s) = (case r of Inl _ \<Rightarrow> s1
      | Inr (def, below) \<Rightarrow> snd (register_chains h maxDepth manifest cs (upsertChainChild (js_String (jfield c ''chainId'')) (json_stringify def) s1)))"
    by (simp add: ex split: sum.splits prod.splits)
  then show ?case using Cons.IH [OF ownership_ok_upsert [OF ok]] ok by (simp split: sum.splits prod.splits)
qed simp

datatype chain_cmd = Register "(string \<times> json) list" | Unregister "(string \<times> json) list"

fun run_chain_cmd :: "host \<Rightarrow> nat \<Rightarrow> chain_cmd \<Rightarrow> chain_store \<Rightarrow> chain_store" where
  "run_chain_cmd h maxDepth (Register m) s = snd (registerChainPack h maxDepth m s)"
| "run_chain_cmd h maxDepth (Unregister m) s = unregisterChainPack m s"

fun plainly_named :: "chain_cmd \<Rightarrow> bool" where
  "plainly_named (Register m) = True"
| "plainly_named (Unregister m) = list_all (\<lambda>c. \<not> child_named (chain_id c)) (chains_of m)"

lemma unregister_keeps_ownership:
  assumes "ownership_ok s" "\<forall>x \<in> set (chains_of m). \<not> child_named (chain_id x)"
  shows "ownership_ok (unregisterChainPack m s)"
  unfolding ownership_ok_def
proof (intro allI impI)
  fix p c
  assume "owns p c (unregisterChainPack m s)"
  then have o: "owns p c s" "p \<notin> chain_id ` set (chains_of m)"
    by (simp_all add: unregisterChainPack_def unregister_chains_owns)
  from o(1) assms(1) have ok: "child_named c" "getChainWorkflow c s \<noteq> None" by (auto simp: ownership_ok_def)
  with assms(2) have "c \<notin> chain_id ` set (chains_of m)" by auto
  from unregister_chains_get [OF this, of s] o have "getChainWorkflow c (unregisterChainPack m s) = getChainWorkflow c s"
    by (auto simp: unregisterChainPack_def)
  with ok show "child_named c \<and> getChainWorkflow c (unregisterChainPack m s) \<noteq> None" by simp
qed

lemma chain_cmd_keeps: "plainly_named c \<Longrightarrow> ownership_ok s \<Longrightarrow> ownership_ok (run_chain_cmd h maxDepth c s)"
  by (cases c) (auto simp: registerChainPack_def register_keeps_ownership list_all_iff intro: unregister_keeps_ownership split: option.splits)

text \<open>
  Every child a parent owns stays registered: this holds from the empty registry on, under any
  sequence of registrations, failed ones included, and removals of packs whose chains are not
  named like derived children.
\<close>

theorem owned_children_stay_registered:
  assumes "list_all plainly_named cmds"
  shows "ownership_ok (fold (run_chain_cmd h maxDepth) cmds \<lparr>cs_workflows = [], cs_owners = []\<rparr>)"
proof -
  have keeps: "ownership_ok s \<Longrightarrow> ownership_ok (fold (run_chain_cmd h maxDepth) cmds s)" for s
    using assms by (induction cmds arbitrary: s) (simp_all add: chain_cmd_keeps)
  show ?thesis by (rule keeps) (simp add: ownership_ok_def owns_def)
qed

lemma owned_children_stay_registered_witness:
  "ownership_ok (fold (run_chain_cmd chains_host 8) [Register demo_pack, Unregister demo_pack] \<lparr>cs_workflows = [], cs_owners = []\<rparr>)
    \<and> owns ''p'' (childWorkflowId chains_host ''q'') (fold (run_chain_cmd chains_host 8) [Register demo_pack] \<lparr>cs_workflows = [], cs_owners = []\<rparr>)"
proof -
  have "list_all plainly_named [Register demo_pack, Unregister demo_pack]" by code_simp
  moreover have "owns ''p'' (childWorkflowId chains_host ''q'') (fold (run_chain_cmd chains_host 8) [Register demo_pack] \<lparr>cs_workflows = [], cs_owners = []\<rparr>)"
    by code_simp
  ultimately show ?thesis using owned_children_stay_registered by blast
qed

text \<open>
  Removing a pack takes away exactly the ownership rows of its own chains, and a derived child is
  deleted exactly when every parent it had is among them; any other child keeps its definition.
\<close>

theorem child_goes_with_last_parent:
  assumes "child_named c" "\<forall>x \<in> set (chains_of m). \<not> child_named (chain_id x)"
  shows "(owns p c (unregisterChainPack m s) \<longleftrightarrow> owns p c s \<and> p \<notin> chain_id ` set (chains_of m))
    \<and> getChainWorkflow c (unregisterChainPack m s)
      = (if (\<exists>p. owns p c s) \<and> (\<forall>p. owns p c s \<longrightarrow> p \<in> chain_id ` set (chains_of m)) then None else getChainWorkflow c s)"
proof -
  have "c \<notin> chain_id ` set (chains_of m)" using assms by auto
  then show ?thesis by (simp add: unregisterChainPack_def unregister_chains_owns unregister_chains_get)
qed

definition shared_child :: chain_store where
  "shared_child = \<lparr>cs_workflows = [(''chain-child-x'', ''d'')], cs_owners = [((''p'', ''chain-child-x''), ''x''), ((''z'', ''chain-child-x''), ''x'')]\<rparr>"

lemma child_goes_with_last_parent_witness:
  "getChainWorkflow ''chain-child-x'' (unregisterChainPack demo_pack shared_child) = Some ''d''
    \<and> \<not> owns ''p'' ''chain-child-x'' (unregisterChainPack demo_pack shared_child)"
proof -
  have "child_named ''chain-child-x''" "\<forall>x \<in> set (chains_of demo_pack). \<not> child_named (chain_id x)"
    "chain_id ` set (chains_of demo_pack) = {''p'', ''q''}" "owns ''z'' ''chain-child-x'' shared_child"
    "getChainWorkflow ''chain-child-x'' shared_child = Some ''d''"
    by code_simp+
  with child_goes_with_last_parent [OF this(1,2)] show ?thesis by auto
qed

end
