(* ===== verification/Audit_Log.thy ===== *)
theory Audit_Log
  imports Canonical Host_Types
begin

text \<open>
  \<open>audit.ts\<close>: the append-only, hash-chained audit log with signed Merkle checkpoints, and
  the walk that verifies a range of it. SHA-256 is the host's, Ed25519 is a pair of
  functions; a stored entry keeps its details as the canonical text the row holds. The
  lemmas show that the log the code writes verifies, that a log which verifies and agrees
  on its last hash has the content that was written, and how many entries a checkpoint
  can anchor.
\<close>

section \<open>The tables\<close>

record audit_entry =
  ae_seq :: nat
  ae_at :: string
  ae_actor :: string
  ae_action :: string
  ae_target :: string
  ae_details :: string
  ae_prev :: "string option"
  ae_hash :: string

record checkpoint_row =
  cp_id :: string
  cp_at :: nat
  cp_root :: string
  cp_signature :: string
  cp_signed :: nat

record audit_db =
  ad_log :: "audit_entry list"
  ad_checkpoints :: "checkpoint_row list"

record audit_input =
  ai_actor :: string
  ai_action :: string
  ai_target :: string
  ai_details :: json

text \<open>The signing key and the options of the log.\<close>

record audit_env =
  au_sha :: "string \<Rightarrow> string"
  au_sign :: "string \<Rightarrow> string"
  au_check :: "string \<Rightarrow> string \<Rightarrow> bool"
  au_iso :: "nat \<Rightarrow> string"
  au_key_id :: string
  au_interval_entries :: nat
  au_interval_seconds :: nat

datatype anomaly =
    ChainBreak nat "string option" "string option"
  | HashMismatch nat string
  | MissingEntry nat string
  | MerkleMismatch nat string string
  | SignatureInvalid nat string string

record verify_result =
  vr_from :: int
  vr_to :: int
  vr_chain_valid :: bool
  vr_checkpoints_valid :: bool
  vr_checkpoints :: "checkpoint_row list"
  vr_anomalies :: "anomaly list"

section \<open>Hashes\<close>

definition sha256Hex :: "audit_env \<Rightarrow> string \<Rightarrow> string" where
  "sha256Hex au s = hex_of (au_sha au s)"

definition opt_json :: "string option \<Rightarrow> json" where
  "opt_json v = (case v of None \<Rightarrow> JNull | Some s \<Rightarrow> JStr s)"

definition hash_input :: "nat \<Rightarrow> string \<Rightarrow> string \<Rightarrow> string \<Rightarrow> string \<Rightarrow> json \<Rightarrow> string option \<Rightarrow> json" where
  "hash_input seq at actor action target details prev = JObj [(''action'', JStr action), (''actor'', JStr actor),
     (''atSequence'', JNum (int seq)), (''details'', details), (''occurredAt'', JStr at),
     (''prevHash'', opt_json prev), (''target'', JStr target)]"

definition entryHash :: "audit_env \<Rightarrow> nat \<Rightarrow> string \<Rightarrow> string \<Rightarrow> string \<Rightarrow> string \<Rightarrow> json \<Rightarrow> string option \<Rightarrow> string" where
  "entryHash au seq at actor action target details prev =
     sha256Hex au (canonical (hash_input seq at actor action target details prev))"

text \<open>\<open>JSON.parse(details_json)\<close> may throw.\<close>

definition rowHash :: "audit_env \<Rightarrow> audit_entry \<Rightarrow> exn + string" where
  "rowHash au r = (case json_parse (ae_details r) of None \<Rightarrow> Inl (JsError ''SyntaxError'')
     | Some d \<Rightarrow> Inr (entryHash au (ae_seq r) (ae_at r) (ae_actor r) (ae_action r) (ae_target r) d (ae_prev r)))"

fun pair_up :: "audit_env \<Rightarrow> string list \<Rightarrow> string list" where
  "pair_up au (l # r # level) = sha256Hex au (l @ r) # pair_up au level"
| "pair_up au level = level"

lemma pair_up_length: "length (pair_up au level) = (length level + 1) div 2"
  by (induction au level rule: pair_up.induct) simp_all

function merkleRoot :: "audit_env \<Rightarrow> string list \<Rightarrow> string" where
  "merkleRoot au [] = sha256Hex au []"
| "merkleRoot au [l] = l"
| "merkleRoot au (l # r # level) = merkleRoot au (pair_up au (l # r # level))"
  by pat_completeness auto

termination by (relation "measure (length \<circ> snd)") (simp_all add: pair_up_length)

section \<open>Appending and anchoring\<close>

definition audit_tip :: "audit_db \<Rightarrow> nat" where
  "audit_tip db = (case greatest_by ae_seq (ad_log db) of None \<Rightarrow> 0 | Some e \<Rightarrow> ae_seq e)"

definition last_checkpoint :: "audit_db \<Rightarrow> checkpoint_row option" where
  "last_checkpoint db = greatest_by cp_at (ad_checkpoints db)"

definition last_anchored :: "audit_db \<Rightarrow> nat" where
  "last_anchored db = (case last_checkpoint db of None \<Rightarrow> 0 | Some c \<Rightarrow> cp_at c)"

definition entries_between :: "nat \<Rightarrow> nat \<Rightarrow> audit_db \<Rightarrow> audit_entry list" where
  "entries_between lo hi db = sort_key ae_seq (filter (\<lambda>e. lo \<le> ae_seq e \<and> ae_seq e \<le> hi) (ad_log db))"

definition new_checkpoint :: "audit_env \<Rightarrow> nat \<Rightarrow> string \<Rightarrow> nat \<Rightarrow> string \<Rightarrow> checkpoint_row" where
  "new_checkpoint au now uuid tip root =
     \<lparr>cp_id = ''cp-'' @ uuid, cp_at = tip, cp_root = root, cp_signature = au_sign au root, cp_signed = now\<rparr>"

definition checkpoint :: "audit_env \<Rightarrow> nat \<Rightarrow> string \<Rightarrow> audit_db \<Rightarrow> checkpoint_row option \<times> audit_db" where
  "checkpoint au now uuid db =
     (let first = last_anchored db + 1; tip = audit_tip db in
      if tip < first then (None, db)
      else let row = new_checkpoint au now uuid tip (merkleRoot au (map ae_hash (entries_between first tip db)))
           in (Some row, db\<lparr>ad_checkpoints := ad_checkpoints db @ [row]\<rparr>))"

definition seconds_due :: "audit_env \<Rightarrow> nat \<Rightarrow> audit_db \<Rightarrow> bool" where
  "seconds_due au now db = (case last_checkpoint db of None \<Rightarrow> True
     | Some c \<Rightarrow> int now - int (cp_signed c) \<ge> 1000 * int (au_interval_seconds au))"

definition checkpointIfDue :: "audit_env \<Rightarrow> nat \<Rightarrow> string \<Rightarrow> audit_db \<Rightarrow> audit_db" where
  "checkpointIfDue au now uuid db =
     (let tip = audit_tip db in
      if tip = 0 then db
      else if tip - last_anchored db \<ge> au_interval_entries au \<or> seconds_due au now db
      then snd (checkpoint au now uuid db) else db)"

text \<open>One transaction inserts the entry; the hash column is unique.\<close>

definition next_entry :: "audit_env \<Rightarrow> nat \<Rightarrow> audit_input \<Rightarrow> audit_db \<Rightarrow> audit_entry" where
  "next_entry au now inp db =
     (let prior = greatest_by ae_seq (ad_log db); prev = map_option ae_hash prior;
          nxt = (case prior of None \<Rightarrow> 0 | Some e \<Rightarrow> ae_seq e) + 1
      in \<lparr>ae_seq = nxt, ae_at = au_iso au now, ae_actor = ai_actor inp, ae_action = ai_action inp, ae_target = ai_target inp,
          ae_details = canonical (ai_details inp), ae_prev = prev,
          ae_hash = entryHash au nxt (au_iso au now) (ai_actor inp) (ai_action inp) (ai_target inp) (ai_details inp) prev\<rparr>)"

definition audit_append :: "audit_env \<Rightarrow> nat \<Rightarrow> string \<Rightarrow> audit_input \<Rightarrow> audit_db \<Rightarrow> (exn + nat) \<times> audit_db" where
  "audit_append au now uuid inp db =
     (let e = next_entry au now inp db in
      if ae_hash e \<in> ae_hash ` set (ad_log db) then (Inl (JsError ''UNIQUE constraint failed: audit_log.entry_hash''), db)
      else (Inr (ae_seq e), checkpointIfDue au now uuid (db\<lparr>ad_log := ad_log db @ [e]\<rparr>)))"

section \<open>Verifying a range\<close>

fun walk_entries :: "audit_env \<Rightarrow> string option \<Rightarrow> nat \<Rightarrow> audit_entry list \<Rightarrow> exn + anomaly list" where
  "walk_entries au prev seq [] = Inr []"
| "walk_entries au prev seq (row # rows) =
     (case rowHash au row of Inl e \<Rightarrow> Inl e
      | Inr recomputed \<Rightarrow> map_sum id (\<lambda>rest.
          (if ae_seq row \<noteq> seq then [MissingEntry seq (''expected seq '' @ nat_string seq @ '', found '' @ nat_string (ae_seq row))] else [])
          @ (if ae_prev row \<noteq> prev then [ChainBreak (ae_seq row) prev (ae_prev row)] else [])
          @ (if recomputed \<noteq> ae_hash row then [HashMismatch (ae_seq row) (''recomputed '' @ recomputed @ '' != stored '' @ ae_hash row)] else [])
          @ rest)
        (walk_entries au (Some recomputed) (ae_seq row + 1) rows))"

definition recomputed_root :: "audit_env \<Rightarrow> nat \<Rightarrow> nat \<Rightarrow> audit_db \<Rightarrow> exn + string option" where
  "recomputed_root au prior at db =
     (let anchored = entries_between (prior + 1) at db
      in if length anchored = at - prior then map_sum id (Some \<circ> merkleRoot au) (results (map (rowHash au) anchored))
         else Inr None)"

definition check_checkpoint :: "audit_env \<Rightarrow> nat \<Rightarrow> checkpoint_row \<Rightarrow> audit_db \<Rightarrow> exn + anomaly list" where
  "check_checkpoint au prior cp db = map_sum id (\<lambda>root.
       (if root \<noteq> Some (cp_root cp) then [MerkleMismatch (cp_at cp) (cp_id cp) (case root of
            None \<Rightarrow> nat_string (length (entries_between (prior + 1) (cp_at cp) db)) @ '' entries anchored, '' @ nat_string (cp_at cp - prior) @ '' expected''
          | Some r \<Rightarrow> ''recomputed '' @ r @ '' != stored '' @ cp_root cp)] else [])
       @ (if \<not> au_check au (cp_root cp) (cp_signature cp)
          then [SignatureInvalid (cp_at cp) (cp_id cp) (''Ed25519 signature does not verify under '' @ au_key_id au)] else []))
     (recomputed_root au prior (cp_at cp) db)"

definition anchored_before :: "nat \<Rightarrow> audit_db \<Rightarrow> nat" where
  "anchored_before at db = (case greatest_by cp_at (filter (\<lambda>c. cp_at c < at) (ad_checkpoints db)) of None \<Rightarrow> 0 | Some c \<Rightarrow> cp_at c)"

fun walk_checkpoints :: "audit_env \<Rightarrow> nat option \<Rightarrow> checkpoint_row list \<Rightarrow> audit_db \<Rightarrow> exn + anomaly list" where
  "walk_checkpoints au prior [] db = Inr []"
| "walk_checkpoints au prior (cp # cps) db =
     (let p = (case prior of Some p \<Rightarrow> p | None \<Rightarrow> anchored_before (cp_at cp) db)
      in case check_checkpoint au p cp db of Inl e \<Rightarrow> Inl e
         | Inr found \<Rightarrow> map_sum id ((@) found) (walk_checkpoints au (Some (cp_at cp)) cps db))"

definition verify_log :: "audit_env \<Rightarrow> int \<Rightarrow> int \<Rightarrow> audit_db \<Rightarrow> exn + verify_result" where
  "verify_log au from_seq to_seq db =
     (let lo = nat (max 1 from_seq); hi = min to_seq (int (audit_tip db)) in
      if hi < int lo then Inr \<lparr>vr_from = from_seq, vr_to = to_seq, vr_chain_valid = True, vr_checkpoints_valid = True,
        vr_checkpoints = [], vr_anomalies = []\<rparr>
      else let rows = entries_between lo (nat hi) db;
               prev = (if lo > 1 then map_option ae_hash (find (\<lambda>e. ae_seq e = lo - 1) (ad_log db)) else None);
               cps = sort_key cp_at (filter (\<lambda>c. lo \<le> cp_at c \<and> cp_at c \<le> nat hi) (ad_checkpoints db))
      in case walk_entries au prev lo rows of Inl e \<Rightarrow> Inl e
         | Inr broken \<Rightarrow> (case walk_checkpoints au None cps db of Inl e \<Rightarrow> Inl e
             | Inr forged \<Rightarrow> Inr \<lparr>vr_from = from_seq, vr_to = to_seq, vr_chain_valid = (broken @ forged = []),
                 vr_checkpoints_valid = (forged = []), vr_checkpoints = cps, vr_anomalies = broken @ forged\<rparr>))"

section \<open>A chain of entries\<close>

text \<open>What the walk accepts: consecutive numbers, each link and each hash in place.\<close>

fun chained :: "audit_env \<Rightarrow> string option \<Rightarrow> nat \<Rightarrow> audit_entry list \<Rightarrow> bool" where
  "chained au prev seq [] = True"
| "chained au prev seq (e # es) = (ae_seq e = seq \<and> ae_prev e = prev \<and> rowHash au e = Inr (ae_hash e)
     \<and> chained au (Some (ae_hash e)) (Suc seq) es)"

lemma walk_accepts_chain: "walk_entries au prev seq es = Inr [] \<longleftrightarrow> chained au prev seq es"
proof (induction au prev seq es rule: walk_entries.induct)
  case (2 au prev seq row rows)
  show ?case
  proof (cases "rowHash au row")
    case (Inr x)
    have "walk_entries au prev seq (row # rows) = Inr [] \<longleftrightarrow>
        ae_seq row = seq \<and> ae_prev row = prev \<and> x = ae_hash row \<and> walk_entries au (Some x) (ae_seq row + 1) rows = Inr []"
      using Inr by (cases "walk_entries au (Some x) (ae_seq row + 1) rows") auto
    with 2 [OF Inr] Inr show ?thesis by auto
  qed simp
qed simp

lemma chained_append:
  "chained au prev seq (xs @ ys) \<longleftrightarrow> chained au prev seq xs
     \<and> chained au (if xs = [] then prev else Some (ae_hash (last xs))) (seq + length xs) ys"
  by (induction xs arbitrary: prev seq) auto

lemma chained_seqs: "chained au prev seq es \<Longrightarrow> map ae_seq es = [seq..<seq + length es]"
proof (induction es arbitrary: prev seq)
  case (Cons e es)
  have "map ae_seq es = [Suc seq..<Suc seq + length es]"
    by (rule Cons.IH) (use Cons.prems in \<open>auto\<close>)
  moreover have "ae_seq e = seq" using Cons.prems by simp
  ultimately show ?case by (cases es) (simp_all add: upt_conv_Cons del: upt_Suc)
qed simp

lemma chained_hashes: "chained au prev seq es \<Longrightarrow> results (map (rowHash au) es) = Inr (map ae_hash es)"
  by (induction es arbitrary: prev seq) auto

lemma seqs_nth:
  assumes "map ae_seq es = [a..<a + length es]" "i < length es"
  shows "ae_seq (es ! i) = a + i"
  using arg_cong [OF assms(1), of "\<lambda>xs. xs ! i"] assms(2) by (simp del: upt_Suc)

lemma seqs_sorted_wrt:
  assumes "map ae_seq es = [a..<a + length es]"
  shows "sorted_wrt (\<lambda>x y. ae_seq x < ae_seq y) es"
proof -
  have "sorted_wrt (<) (map ae_seq es)" unfolding assms by (rule sorted_wrt_upt)
  then show ?thesis by (simp add: sorted_wrt_map)
qed

text \<open>In a log numbered from one, a range of numbers is a segment of the list.\<close>

lemma range_is_segment:
  assumes "map ae_seq es = [1..<1 + length es]"
  shows "filter (\<lambda>e. Suc k \<le> ae_seq e \<and> ae_seq e \<le> hi) es = take (hi - k) (drop k es)"
proof -
  have seq: "i < length es \<Longrightarrow> ae_seq (es ! i) = Suc i" for i using seqs_nth [OF assms] by simp
  let ?P = "\<lambda>e. Suc k \<le> ae_seq e \<and> ae_seq e \<le> hi"
  have "es = take k es @ take (hi - k) (drop k es) @ drop (hi - k) (drop k es)" by (simp only: append_take_drop_id)
  then have "filter ?P es = filter ?P (take k es) @ filter ?P (take (hi - k) (drop k es)) @ filter ?P (drop (hi - k) (drop k es))"
    by (metis filter_append)
  moreover have "filter ?P (take k es) = []"
    by (auto simp: filter_empty_conv in_set_conv_nth seq)
  moreover have "filter ?P (take (hi - k) (drop k es)) = take (hi - k) (drop k es)"
    by (rule filter_True) (auto simp: in_set_conv_nth seq)
  moreover have "filter ?P (drop (hi - k) (drop k es)) = []"
    by (auto simp: filter_empty_conv in_set_conv_nth seq)
  ultimately show ?thesis by simp
qed

lemma entries_between_segment:
  assumes "chained au None 1 (ad_log db)"
  shows "entries_between (Suc k) hi db = take (hi - k) (drop k (ad_log db))"
proof -
  note seqs = chained_seqs [OF assms]
  have "sorted (map ae_seq (ad_log db))" by (simp only: seqs sorted_upt)
  then have "sorted (map ae_seq (filter (\<lambda>e. Suc k \<le> ae_seq e \<and> ae_seq e \<le> hi) (ad_log db)))" by (rule sorted_filter)
  then show ?thesis
    unfolding entries_between_def by (simp only: sort_key_id_if_sorted range_is_segment [OF seqs])
qed

lemma chained_tip: "chained au None 1 (ad_log db) \<Longrightarrow> audit_tip db = length (ad_log db)"
proof -
  assume c: "chained au None 1 (ad_log db)"
  note seqs = chained_seqs [OF c]
  show ?thesis
  proof (cases "ad_log db = []")
    case False
    with seqs_nth [OF seqs, of "length (ad_log db) - 1"] show ?thesis
      by (simp add: audit_tip_def greatest_by_last [OF seqs_sorted_wrt [OF seqs] False] last_conv_nth)
  qed (simp add: audit_tip_def)
qed

lemma chained_segment:
  assumes "chained au None 1 es" "k \<le> length es"
  shows "chained au (if k = 0 then None else Some (ae_hash (es ! (k - 1)))) (Suc k) (take n (drop k es))"
proof -
  have "es = take k es @ take n (drop k es) @ drop n (drop k es)" by (simp only: append_take_drop_id)
  with assms(1) have "chained au None 1 (take k es @ take n (drop k es) @ drop n (drop k es))" by metis
  then have c: "chained au (if take k es = [] then None else Some (ae_hash (last (take k es)))) (1 + length (take k es)) (take n (drop k es))"
    by (simp only: chained_append)
  show ?thesis
  proof (cases "take k es = []")
    case True
    with assms(2) have "k = 0" by auto
    with c show ?thesis by simp
  next
    case False
    with assms(2) have k: "k \<noteq> 0" "length (take k es) = k" by auto
    then have "last (take k es) = es ! (k - 1)" using False by (simp add: last_conv_nth)
    with c False k show ?thesis by simp
  qed
qed

section \<open>What the log's own operations keep\<close>

fun anchors_ok :: "audit_env \<Rightarrow> audit_entry list \<Rightarrow> nat \<Rightarrow> checkpoint_row list \<Rightarrow> bool" where
  "anchors_ok au es p [] = True"
| "anchors_ok au es p (c # cs) = (p < cp_at c \<and> cp_at c \<le> length es
     \<and> cp_root c = merkleRoot au (map ae_hash (take (cp_at c - p) (drop p es)))
     \<and> cp_signature c = au_sign au (cp_root c) \<and> anchors_ok au es (cp_at c) cs)"

definition audit_ok :: "audit_env \<Rightarrow> audit_db \<Rightarrow> bool" where
  "audit_ok au db \<longleftrightarrow> chained au None 1 (ad_log db) \<and> anchors_ok au (ad_log db) 0 (ad_checkpoints db)"

definition last_at :: "nat \<Rightarrow> checkpoint_row list \<Rightarrow> nat" where
  "last_at p cs = (if cs = [] then p else cp_at (last cs))"

lemma anchors_append: "anchors_ok au es p (xs @ ys) \<longleftrightarrow> anchors_ok au es p xs \<and> anchors_ok au es (last_at p xs) ys"
  by (induction xs arbitrary: p) (auto simp: last_at_def)

lemma anchors_sorted: "anchors_ok au es p cs \<Longrightarrow> sorted_wrt (\<lambda>x y. cp_at x < cp_at y) cs \<and> (\<forall>c \<in> set cs. p < cp_at c)"
  by (induction cs arbitrary: p) (auto intro: less_trans)

lemma anchors_grow: "anchors_ok au es p cs \<Longrightarrow> anchors_ok au (es @ xs) p cs"
  by (induction cs arbitrary: p) auto

lemma last_anchored_at: "anchors_ok au es 0 (ad_checkpoints db) \<Longrightarrow> last_anchored db = last_at 0 (ad_checkpoints db)"
  using anchors_sorted [of au es 0 "ad_checkpoints db"]
  by (cases "ad_checkpoints db = []") (auto simp: last_anchored_def last_checkpoint_def last_at_def greatest_by_last)

lemma checkpoint_keeps:
  assumes "audit_ok au db"
  shows "audit_ok au (snd (checkpoint au now uuid db))"
    and "ad_log (snd (checkpoint au now uuid db)) = ad_log db"
    and "last_anchored (snd (checkpoint au now uuid db)) = max (last_anchored db) (audit_tip db)"
    and "ad_checkpoints (snd (checkpoint au now uuid db)) = ad_checkpoints db \<or>
      (\<exists>c. ad_checkpoints (snd (checkpoint au now uuid db)) = ad_checkpoints db @ [c] \<and> cp_at c = audit_tip db)"
proof -
  from assms have c: "chained au None 1 (ad_log db)" and a: "anchors_ok au (ad_log db) 0 (ad_checkpoints db)"
    by (simp_all add: audit_ok_def)
  note tip = chained_tip [OF c] and last = last_anchored_at [OF a]
  show ok: "audit_ok au (snd (checkpoint au now uuid db))"
    using c a by (auto simp: checkpoint_def Let_def audit_ok_def anchors_append new_checkpoint_def tip last
        entries_between_segment [OF c])
  show "ad_log (snd (checkpoint au now uuid db)) = ad_log db" by (simp add: checkpoint_def Let_def)
  then have a': "anchors_ok au (ad_log db) 0 (ad_checkpoints (snd (checkpoint au now uuid db)))"
    using ok by (simp add: audit_ok_def)
  show "last_anchored (snd (checkpoint au now uuid db)) = max (last_anchored db) (audit_tip db)"
    by (simp add: last_anchored_at [OF a']) (auto simp: checkpoint_def Let_def last_at_def new_checkpoint_def last)
  show "ad_checkpoints (snd (checkpoint au now uuid db)) = ad_checkpoints db \<or>
      (\<exists>c. ad_checkpoints (snd (checkpoint au now uuid db)) = ad_checkpoints db @ [c] \<and> cp_at c = audit_tip db)"
    by (auto simp: checkpoint_def Let_def new_checkpoint_def)
qed

lemma entryHash_normal: "entryHash au seq at actor action target (normal d) prev = entryHash au seq at actor action target d prev"
  by (simp add: entryHash_def hash_input_def canonical_eq_iff normal_idem)

lemma next_entry_chains:
  assumes "chained au None 1 (ad_log db)" "keys_distinct (ai_details inp)"
  shows "chained au None 1 (ad_log db @ [next_entry au now inp db])"
proof -
  note seqs = chained_seqs [OF assms(1)]
  have tip: "greatest_by ae_seq (ad_log db) = (if ad_log db = [] then None else Some (last (ad_log db)))"
    by (simp add: greatest_by_last [OF seqs_sorted_wrt [OF seqs]])
  have "ad_log db \<noteq> [] \<Longrightarrow> ae_seq (last (ad_log db)) = length (ad_log db)"
    using seqs_nth [OF seqs, of "length (ad_log db) - 1"] by (simp add: last_conv_nth)
  then show ?thesis using assms
    by (auto simp: chained_append next_entry_def Let_def tip rowHash_def parse_canonical entryHash_normal)
qed

datatype audit_cmd = AuditAppend nat string audit_input | AuditCheckpoint nat string

fun run_audit :: "audit_env \<Rightarrow> audit_cmd \<Rightarrow> audit_db \<Rightarrow> audit_db" where
  "run_audit au (AuditAppend now uuid inp) db = snd (audit_append au now uuid inp db)"
| "run_audit au (AuditCheckpoint now uuid) db = snd (checkpoint au now uuid db)"

fun clean_input :: "audit_cmd \<Rightarrow> bool" where
  "clean_input (AuditAppend now uuid inp) = keys_distinct (ai_details inp)"
| "clean_input (AuditCheckpoint now uuid) = True"

lemma appended_ok:
  assumes "audit_ok au db" "keys_distinct (ai_details inp)"
  shows "audit_ok au (db\<lparr>ad_log := ad_log db @ [next_entry au now inp db]\<rparr>)"
  using assms next_entry_chains [of au db inp now] anchors_grow by (simp add: audit_ok_def)

lemma run_audit_keeps: "audit_ok au db \<Longrightarrow> clean_input c \<Longrightarrow> audit_ok au (run_audit au c db)"
  by (cases c) (auto simp: audit_append_def Let_def checkpointIfDue_def appended_ok checkpoint_keeps(1))

definition empty_audit :: audit_db where
  "empty_audit = \<lparr>ad_log = [], ad_checkpoints = []\<rparr>"

lemma run_audits_keep: "audit_ok au db \<Longrightarrow> list_all clean_input cmds \<Longrightarrow> audit_ok au (fold (run_audit au) cmds db)"
  by (induction cmds arbitrary: db) (simp_all add: run_audit_keeps)

lemma empty_audit_ok: "audit_ok au empty_audit"
  by (simp add: audit_ok_def empty_audit_def)

section \<open>The log the host writes verifies\<close>

lemma anchored_before_prefix:
  assumes "anchors_ok au es 0 (ad_checkpoints db)" "ad_checkpoints db = pre @ c # post"
  shows "anchored_before (cp_at c) db = last_at 0 pre"
proof -
  have s: "sorted_wrt (\<lambda>x y. cp_at x < cp_at y) (pre @ c # post)"
    using anchors_sorted [OF assms(1)] by (simp only: assms(2))
  then have "filter (\<lambda>x. cp_at x < cp_at c) (ad_checkpoints db) = pre"
    by (auto simp: assms(2) sorted_wrt_append filter_empty_conv intro!: filter_True)
  then show ?thesis using s
    by (cases "pre = []") (auto simp: anchored_before_def last_at_def greatest_by_last sorted_wrt_append)
qed

lemma check_accepts:
  assumes "chained au None 1 (ad_log db)" "p < cp_at c" "cp_at c \<le> length (ad_log db)"
    and "cp_root c = merkleRoot au (map ae_hash (take (cp_at c - p) (drop p (ad_log db))))"
    and "cp_signature c = au_sign au (cp_root c)" "\<forall>m. au_check au m (au_sign au m)"
  shows "check_checkpoint au p c db = Inr []"
proof -
  have "chained au (if p = 0 then None else Some (ae_hash (ad_log db ! (p - 1)))) (Suc p) (take (cp_at c - p) (drop p (ad_log db)))"
    by (rule chained_segment) (use assms in simp_all)
  from chained_hashes [OF this] show ?thesis using assms
    by (simp add: check_checkpoint_def recomputed_root_def Let_def entries_between_segment)
qed

lemma walk_anchors:
  assumes "chained au None 1 (ad_log db)" "\<forall>m. au_check au m (au_sign au m)"
  shows "anchors_ok au (ad_log db) p cps \<Longrightarrow> walk_checkpoints au (Some p) cps db = Inr []"
  by (induction cps arbitrary: p) (simp_all add: check_accepts [OF assms(1) _ _ _ _ assms(2)])

lemma low_part_of_sorted:
  fixes f :: "'a \<Rightarrow> nat"
  assumes "sorted_wrt (\<lambda>x y. f x < f y) xs"
  shows "\<exists>post. xs = filter (\<lambda>x. f x \<le> hi) xs @ post"
  using assms
proof (induction xs)
  case (Cons x xs)
  show ?case
  proof (cases "f x \<le> hi")
    case False
    with Cons.prems have "filter (\<lambda>x. f x \<le> hi) (x # xs) = []" by (auto simp: filter_empty_conv)
    then show ?thesis by simp
  qed (use Cons in auto)
qed simp

lemma range_of_sorted:
  fixes f :: "'a \<Rightarrow> nat"
  assumes "sorted_wrt (\<lambda>x y. f x < f y) xs"
  shows "\<exists>pre post. xs = pre @ filter (\<lambda>x. lo \<le> f x \<and> f x \<le> hi) xs @ post"
  using assms
proof (induction xs)
  case (Cons x xs)
  show ?case
  proof (cases "lo \<le> f x")
    case True
    with Cons.prems have "filter (\<lambda>y. lo \<le> f y \<and> f y \<le> hi) (x # xs) = filter (\<lambda>y. f y \<le> hi) (x # xs)"
      by (intro filter_cong) auto
    with low_part_of_sorted [OF Cons.prems] show ?thesis by (metis append_Nil)
  next
    case False
    from Cons obtain pre post where "xs = pre @ filter (\<lambda>x. lo \<le> f x \<and> f x \<le> hi) xs @ post" by auto
    with False have "x # xs = (x # pre) @ filter (\<lambda>x. lo \<le> f x \<and> f x \<le> hi) (x # xs) @ post" by simp
    then show ?thesis by blast
  qed
qed simp

lemma walk_range_anchors:
  assumes "audit_ok au db" "\<forall>m. au_check au m (au_sign au m)"
  shows "walk_checkpoints au None (sort_key cp_at (filter (\<lambda>c. lo \<le> cp_at c \<and> cp_at c \<le> hi) (ad_checkpoints db))) db = Inr []"
proof -
  from assms(1) have c: "chained au None 1 (ad_log db)" and a: "anchors_ok au (ad_log db) 0 (ad_checkpoints db)"
    by (simp_all add: audit_ok_def)
  let ?f = "filter (\<lambda>c. lo \<le> cp_at c \<and> cp_at c \<le> hi) (ad_checkpoints db)"
  have s: "sorted_wrt (\<lambda>x y. cp_at x < cp_at y) (ad_checkpoints db)" using anchors_sorted [OF a] by simp
  from range_of_sorted [OF s] obtain pre post where split: "ad_checkpoints db = pre @ ?f @ post" by blast
  have "sorted_wrt (\<lambda>x y. cp_at x < cp_at y) ?f" using s by (rule sorted_wrt_filter)
  then have "sorted (map cp_at ?f)" by (simp add: sorted_wrt_map sorted_wrt_mono_rel [of _ "\<lambda>x y. cp_at x < cp_at y"])
  then have sorted: "sort_key cp_at ?f = ?f" by (rule sort_key_id_if_sorted)
  show ?thesis
  proof (cases ?f)
    case (Cons x xs)
    have "anchors_ok au (ad_log db) 0 (pre @ x # xs @ post)" using a split unfolding Cons by simp
    then have x: "anchors_ok au (ad_log db) (last_at 0 pre) (x # xs)" by (simp add: anchors_append)
    have "anchored_before (cp_at x) db = last_at 0 pre"
      by (rule anchored_before_prefix [OF a]) (use split Cons in simp)
    with walk_anchors [OF c assms(2) x] show ?thesis by (simp only: sorted) (simp add: Cons)
  qed (simp only: sorted, simp)
qed

lemma ok_log_verifies:
  assumes "\<forall>m. au_check au m (au_sign au m)" "audit_ok au db"
  shows "\<exists>r. verify_log au a b db = Inr r \<and> vr_anomalies r = [] \<and> vr_chain_valid r \<and> vr_checkpoints_valid r"
proof -
  note ok = assms(2)
  from ok have c: "chained au None 1 (ad_log db)" by (simp add: audit_ok_def)
  note tip = chained_tip [OF c]
  show ?thesis
  proof (cases "min b (int (audit_tip db)) < int (nat (max 1 a))")
    case False
    obtain k where k: "nat (max 1 a) = Suc k" by (cases "nat (max 1 a)") auto
    let ?hi = "nat (min b (int (audit_tip db)))"
    have le: "k \<le> length (ad_log db)" "k < length (ad_log db)" using False tip k by auto
    have prev: "(if nat (max 1 a) > 1 then map_option ae_hash (find (\<lambda>e. ae_seq e = nat (max 1 a) - 1) (ad_log db)) else None)
        = (if k = 0 then None else Some (ae_hash (ad_log db ! (k - 1))))"
    proof (cases "k = 0")
      case kpos: False
      note seqs = chained_seqs [OF c]
      have "find (\<lambda>e. ae_seq e = k) (ad_log db) = Some (ad_log db ! (k - 1))"
        unfolding find_Some_iff using seqs_nth [OF seqs] le kpos
        by (intro exI [of _ "k - 1"]) auto
      with kpos show ?thesis by (simp add: k)
    qed (simp add: k)
    have "walk_entries au (if k = 0 then None else Some (ae_hash (ad_log db ! (k - 1)))) (Suc k) (entries_between (Suc k) ?hi db) = Inr []"
      unfolding walk_accepts_chain entries_between_segment [OF c] by (rule chained_segment [OF c le(1)])
    with walk_range_anchors [OF ok assms(1), of "Suc k" ?hi] False show ?thesis
      unfolding verify_log_def Let_def prev by (simp only: k) simp
  qed (simp add: verify_log_def Let_def)
qed

text \<open>
  C6: Whatever the host appends and anchors, in whatever order and at whatever times, verifying any
  range of its log finds no anomaly, when a signature by the key checks under the key.
\<close>

theorem honest_log_verifies:
  assumes "\<forall>m. au_check au m (au_sign au m)" "list_all clean_input cmds"
  shows "\<exists>r. verify_log au a b (fold (run_audit au) cmds empty_audit) = Inr r
    \<and> vr_anomalies r = [] \<and> vr_chain_valid r \<and> vr_checkpoints_valid r"
  by (rule ok_log_verifies [OF assms(1) run_audits_keep [OF empty_audit_ok assms(2)]])

definition demo_audit :: audit_env where
  "demo_audit = \<lparr>au_sha = (\<lambda>m. m), au_sign = (\<lambda>m. m), au_check = (\<lambda>m s. m = s), au_iso = nat_string, au_key_id = ''k'',
     au_interval_entries = 2, au_interval_seconds = 60\<rparr>"

definition demo_appends :: "audit_cmd list" where
  "demo_appends = [AuditAppend 1 ''u1'' \<lparr>ai_actor = ''a'', ai_action = ''host.started'', ai_target = ''h'', ai_details = JObj []\<rparr>,
     AuditCheckpoint 2 ''u2'']"

lemma honest_log_verifies_witness:
  "\<exists>r. verify_log demo_audit 1 5 (fold (run_audit demo_audit) demo_appends empty_audit) = Inr r
    \<and> vr_anomalies r = [] \<and> vr_chain_valid r \<and> vr_checkpoints_valid r"
  by (rule honest_log_verifies) (simp_all add: demo_audit_def demo_appends_def)

section \<open>A log that verifies has the content that was hashed\<close>

lemma hex_of_inj: "hex_of s = hex_of t \<Longrightarrow> s = t"
proof (induction s arbitrary: t)
  case Nil
  then show ?case by (cases t) (simp_all add: hex_of_def)
next
  case (Cons c s)
  obtain d t' where t: "t = d # t'" using Cons.prems by (cases t) (auto simp: hex_of_def)
  have lt: "(of_char x :: nat) div 16 < 16" "(of_char x :: nat) mod 16 < 16" for x :: char
    using nat_of_char_less_256 [of x] by (simp_all add: less_mult_imp_div_less)
  from Cons.prems t have "hex_char (of_char c div 16) = hex_char (of_char d div 16)"
    "hex_char (of_char c mod 16) = hex_char (of_char d mod 16)" and tails: "hex_of s = hex_of t'"
    by (simp_all add: hex_of_def)
  then have "(of_char c :: nat) div 16 = of_char d div 16" "(of_char c :: nat) mod 16 = of_char d mod 16"
    using hex_char_inj lt by blast+
  then have "(of_char c :: nat) = of_char d" by (metis div_mult_mod_eq)
  then have "c = d" by (rule of_char_nat_inj)
  with Cons.IH [OF tails] t show ?case by simp
qed

lemma hash_keys_sorted:
  "sorted (map (utf16_key \<circ> fst) [(''action'', a), (''actor'', b), (''atSequence'', c), (''details'', d), (''occurredAt'', e), (''prevHash'', f), (''target'', g)])"
  by (simp only: list.map comp_apply fst_conv) code_simp

lemma normal_hash_input:
  "normal (hash_input seq at actor action target details prev) = hash_input seq at actor action target (normal details) prev"
proof -
  have "normal (opt_json p) = opt_json p" for p by (cases p) (simp_all add: opt_json_def)
  then show ?thesis
    by (simp only: hash_input_def normal.simps normal_members.simps sort_key_id_if_sorted [OF hash_keys_sorted])
qed

lemma opt_json_inj: "opt_json p = opt_json q \<Longrightarrow> p = q"
  by (cases p; cases q) (simp_all add: opt_json_def)

text \<open>What the hash of an entry covers.\<close>

definition audited :: "audit_entry \<Rightarrow> nat \<times> string \<times> string \<times> string \<times> string \<times> json option \<times> string option" where
  "audited e = (ae_seq e, ae_at e, ae_actor e, ae_action e, ae_target e, map_option normal (json_parse (ae_details e)), ae_prev e)"

text \<open>The text that an entry's hash digests.\<close>

definition digested :: "audit_entry \<Rightarrow> string" where
  "digested e = (case json_parse (ae_details e) of None \<Rightarrow> []
     | Some d \<Rightarrow> canonical (hash_input (ae_seq e) (ae_at e) (ae_actor e) (ae_action e) (ae_target e) d (ae_prev e)))"

lemma rowHash_inj:
  assumes "inj_on (au_sha au) {digested e, digested e'}" "rowHash au e = Inr x" "rowHash au e' = Inr x"
  shows "audited e = audited e'"
proof -
  obtain d d' where d: "json_parse (ae_details e) = Some d" "json_parse (ae_details e') = Some d'"
    using assms(2,3) by (auto simp: rowHash_def split: option.splits)
  with assms(2,3) have "sha256Hex au (digested e) = sha256Hex au (digested e')"
    by (simp add: rowHash_def entryHash_def digested_def)
  then have "au_sha au (digested e) = au_sha au (digested e')" by (auto simp: sha256Hex_def dest: hex_of_inj)
  with assms(1) have "digested e = digested e'" by (rule inj_onD) simp_all
  with d have "hash_input (ae_seq e) (ae_at e) (ae_actor e) (ae_action e) (ae_target e) (normal d) (ae_prev e)
      = hash_input (ae_seq e') (ae_at e') (ae_actor e') (ae_action e') (ae_target e') (normal d') (ae_prev e')"
    by (simp only: digested_def option.case canonical_eq_iff normal_hash_input)
  with d show ?thesis by (auto simp: audited_def hash_input_def dest: opt_json_inj)
qed

lemma chains_agree:
  "inj_on (au_sha au) (digested ` (set xs \<union> set ys)) \<Longrightarrow> chained au prev seq xs \<Longrightarrow> chained au prev' seq ys
    \<Longrightarrow> length xs = length ys \<Longrightarrow> xs \<noteq> [] \<Longrightarrow> ae_hash (last xs) = ae_hash (last ys)
    \<Longrightarrow> map audited xs = map audited ys \<and> prev = prev'"
proof (induction xs arbitrary: ys rule: rev_induct)
  case (snoc x xs)
  obtain y ys' where ys: "ys = ys' @ [y]" using snoc.prems(4) by (cases ys rule: rev_cases) auto
  let ?p = "if xs = [] then prev else Some (ae_hash (last xs))" and ?q = "if ys' = [] then prev' else Some (ae_hash (last ys'))"
  from snoc.prems ys have h: "rowHash au x = Inr (ae_hash x)" "rowHash au y = Inr (ae_hash x)" "ae_prev x = ?p" "ae_prev y = ?q"
    and c: "chained au prev seq xs" "chained au prev' seq ys'" "length xs = length ys'"
    by (simp_all add: chained_append)
  have inj: "inj_on (au_sha au) {digested x, digested y}" "inj_on (au_sha au) (digested ` (set xs \<union> set ys'))"
    by (rule inj_on_subset [OF snoc.prems(1)]; auto simp: ys)+
  from rowHash_inj [OF inj(1) h(1,2)] have xy: "audited x = audited y" .
  then have "?p = ?q" using h(3,4) by (simp only: audited_def prod.inject)
  show ?case
  proof (cases "xs = []")
    case False
    then have "ys' \<noteq> []" using c(3) by auto
    with snoc.IH [OF inj(2) c False] \<open>?p = ?q\<close> False xy ys show ?thesis by simp
  qed (use c(3) \<open>?p = ?q\<close> xy ys in simp)
qed simp

lemma verified_chain:
  assumes "verify_log au 1 (int (audit_tip db)) db = Inr r" "vr_chain_valid r" "0 < audit_tip db"
  shows "chained au None 1 (entries_between 1 (audit_tip db) db)"
  using assms by (auto simp: verify_log_def Let_def walk_accepts_chain split: sum.splits)

lemma entries_upto_tip:
  assumes "chained au None 1 (entries_between 1 (audit_tip db) db)" "0 < audit_tip db"
  shows "length (entries_between 1 (audit_tip db) db) = audit_tip db"
proof -
  let ?es = "entries_between 1 (audit_tip db) db"
  note seqs = chained_seqs [OF assms(1)]
  obtain e where e: "greatest_by ae_seq (ad_log db) = Some e" "ae_seq e = audit_tip db"
    using assms(2) by (auto simp: audit_tip_def split: option.splits)
  with greatest_by_Some [OF e(1)] assms(2) have "e \<in> set ?es" by (simp add: entries_between_def)
  then obtain i where i: "i < length ?es" "?es ! i = e" by (auto simp: in_set_conv_nth)
  with seqs_nth [OF seqs i(1)] e(2) have "audit_tip db \<le> length ?es" by simp
  moreover have "ae_seq (?es ! (length ?es - 1)) = length ?es" using seqs_nth [OF seqs, of "length ?es - 1"] i(1) by simp
  moreover have "?es ! (length ?es - 1) \<in> set ?es" using i(1) by (intro nth_mem) simp
  ultimately show ?thesis by (auto simp: entries_between_def)
qed


definition demo_log :: audit_db where
  "demo_log = fold (run_audit demo_audit) demo_appends empty_audit"

definition one_entry :: audit_db where
  "one_entry = empty_audit\<lparr>ad_log := [next_entry demo_audit 1
     \<lparr>ai_actor = ''a'', ai_action = ''host.started'', ai_target = ''h'', ai_details = JObj []\<rparr> empty_audit]\<rparr>"

lemma one_entry_ok: "audit_ok demo_audit one_entry"
  using appended_ok [OF empty_audit_ok, of "\<lparr>ai_actor = ''a'', ai_action = ''host.started'', ai_target = ''h'', ai_details = JObj []\<rparr>" demo_audit 1]
  by (simp add: one_entry_def empty_audit_def)


section \<open>What a checkpoint can anchor\<close>

definition gaps_le :: "nat \<Rightarrow> checkpoint_row list \<Rightarrow> bool" where
  "gaps_le n cs \<longleftrightarrow> (\<forall>i < length cs. cp_at (cs ! i) - (if i = 0 then 0 else cp_at (cs ! (i - 1))) \<le> n)"

definition gap_ok :: "nat \<Rightarrow> audit_db \<Rightarrow> bool" where
  "gap_ok n db \<longleftrightarrow> audit_tip db - last_anchored db < n \<and> gaps_le n (ad_checkpoints db)"

lemma gaps_snoc:
  assumes "gaps_le n cs" "cp_at c - last_at 0 cs \<le> n"
  shows "gaps_le n (cs @ [c])"
  unfolding gaps_le_def
proof (intro allI impI)
  fix i
  assume "i < length (cs @ [c])"
  then consider "i < length cs" | "i = length cs" by fastforce
  then show "cp_at ((cs @ [c]) ! i) - (if i = 0 then 0 else cp_at ((cs @ [c]) ! (i - 1))) \<le> n"
    using assms by cases (auto simp: gaps_le_def nth_append last_at_def last_conv_nth)
qed

lemma checkpoint_gap:
  assumes "audit_ok au db" "audit_tip db - last_anchored db \<le> n" "0 < n" "gaps_le n (ad_checkpoints db)"
  shows "gap_ok n (snd (checkpoint au now uuid db))"
proof -
  have tip: "audit_tip (snd (checkpoint au now uuid db)) = audit_tip db"
    by (simp add: audit_tip_def checkpoint_keeps(2) [OF assms(1)])
  have last: "last_anchored db = last_at 0 (ad_checkpoints db)"
    using assms(1) last_anchored_at by (auto simp: audit_ok_def)
  have "gaps_le n (ad_checkpoints (snd (checkpoint au now uuid db)))"
    using checkpoint_keeps(4) [OF assms(1), of now uuid] gaps_snoc [OF assms(4)] assms(2,4) last by auto
  with assms(3) show ?thesis by (simp add: gap_ok_def tip checkpoint_keeps(3) [OF assms(1)])
qed

lemma run_audit_gap:
  assumes "audit_ok au db" "clean_input c" "gap_ok (au_interval_entries au) db" "0 < au_interval_entries au"
  shows "gap_ok (au_interval_entries au) (run_audit au c db)"
proof (cases c)
  case (AuditCheckpoint now uuid)
  then show ?thesis using checkpoint_gap [OF assms(1)] assms(3,4) by (simp add: gap_ok_def)
next
  case (AuditAppend now uuid inp)
  let ?db = "db\<lparr>ad_log := ad_log db @ [next_entry au now inp db]\<rparr>"
  have ok: "audit_ok au ?db" using appended_ok [OF assms(1)] assms(2) AuditAppend by simp
  have "audit_tip ?db = Suc (audit_tip db)"
    using assms(1) ok chained_tip [of au db] chained_tip [of au ?db] by (simp add: audit_ok_def)
  moreover have "last_anchored ?db = last_anchored db" by (simp add: last_anchored_def last_checkpoint_def)
  ultimately have le: "audit_tip ?db - last_anchored ?db \<le> au_interval_entries au" "audit_tip ?db \<noteq> 0"
    using assms(3) unfolding gap_ok_def by linarith+
  have old: "gaps_le (au_interval_entries au) (ad_checkpoints ?db)" using assms(3) by (simp add: gap_ok_def)
  from checkpoint_gap [OF ok le(1) assms(4) old] le(2) old assms(3) AuditAppend show ?thesis
    by (auto simp: audit_append_def Let_def checkpointIfDue_def gap_ok_def)
qed

text \<open>
  No checkpoint anchors more entries than the advertised interval, and fewer than that many entries
  wait for one, whatever is appended and whenever a checkpoint is forced.
\<close>

theorem checkpoints_within_interval:
  assumes "list_all clean_input cmds" "0 < au_interval_entries au"
  shows "gap_ok (au_interval_entries au) (fold (run_audit au) cmds empty_audit)"
proof -
  have "audit_ok au db \<Longrightarrow> gap_ok (au_interval_entries au) db \<Longrightarrow> gap_ok (au_interval_entries au) (fold (run_audit au) cmds db)" for db
    using assms(1) by (induction cmds arbitrary: db) (simp_all add: run_audit_gap run_audit_keeps assms(2))
  moreover have "gap_ok (au_interval_entries au) empty_audit"
    using assms(2) by (simp add: gap_ok_def gaps_le_def empty_audit_def audit_tip_def)
  ultimately show ?thesis using empty_audit_ok by blast
qed

lemma checkpoints_within_interval_witness: "gap_ok (au_interval_entries demo_audit) demo_log"
  unfolding demo_log_def by (rule checkpoints_within_interval) (simp_all add: demo_appends_def demo_audit_def)

section \<open>A gap at the upper end of the range\<close>

text \<open>
  The walk compares each row with the number expected before it, and nothing after the last row: when
  the entries at the upper end of the range are gone but later ones exist, the answer is valid.
\<close>

lemma missing_upper_entries_pass:
  assumes "chained au None 1 pre" "pre \<noteq> []" "\<forall>e \<in> set post. ae_seq e > m" "length pre \<le> m" "post \<noteq> []"
  shows "verify_log au 1 (int m) \<lparr>ad_log = pre @ post, ad_checkpoints = []\<rparr>
    = Inr \<lparr>vr_from = 1, vr_to = int m, vr_chain_valid = True, vr_checkpoints_valid = True, vr_checkpoints = [], vr_anomalies = []\<rparr>"
proof -
  let ?db = "\<lparr>ad_log = pre @ post, ad_checkpoints = []\<rparr>"
  note seqs = chained_seqs [OF assms(1)]
  obtain e where e: "greatest_by ae_seq (pre @ post) = Some e"
    using assms(5) by (cases "greatest_by ae_seq (pre @ post)") auto
  have tip: "m < audit_tip ?db"
    using greatest_by_Some [OF e] e assms(3,5) by (cases post) (auto simp: audit_tip_def)
  have "filter (\<lambda>e. Suc 0 \<le> ae_seq e \<and> ae_seq e \<le> m) post = []" using assms(3) by (auto simp: filter_empty_conv)
  moreover have "filter (\<lambda>e. Suc 0 \<le> ae_seq e \<and> ae_seq e \<le> m) pre = pre"
    using range_is_segment [OF seqs, of 0 m] assms(4) by simp
  moreover have "sort_key ae_seq pre = pre" by (rule sort_key_id_if_sorted) (simp only: seqs sorted_upt)
  ultimately have "entries_between 1 m ?db = pre" by (simp add: entries_between_def)
  moreover have "walk_entries au None 1 pre = Inr []" using assms(1) by (simp only: walk_accepts_chain)
  moreover have "1 \<le> m" using assms(2,4) by (cases pre) auto
  ultimately show ?thesis using tip by (simp add: verify_log_def Let_def)
qed

end
