(* ===== verification/Routing.thy ===== *)
theory Routing
  imports Ids
begin

text \<open>
  The parts of \<open>router.ts\<close> that decide on text and numbers alone: path patterns as the
  regular expressions \<open>route()\<close> builds, the version headers, and the token bucket. The
  bucket counts in units of 1/60000 token, in which the refill of one millisecond is
  \<open>perMinute\<close> units, so the arithmetic is exact where the code's is in floating point.
\<close>

section \<open>Path patterns\<close>

datatype segment = Literal char | AnyChar | Param string | BoundParam string

definition TENANT_BOUND_PARAMS :: "string list" where
  "TENANT_BOUND_PARAMS = [''runId'', ''webhookId'']"

text \<open>The pattern's own dots are not escaped: in the expression they match any character.\<close>

function parse_pattern :: "string \<Rightarrow> segment list" where
  "parse_pattern [] = []"
| "parse_pattern (c # s) =
     (if c = CHR ''{'' then
        (let name = takeWhile name_char s; rest = dropWhile name_char s
         in if name \<noteq> [] \<and> rest \<noteq> [] \<and> hd rest = CHR ''}''
            then (if name \<in> set TENANT_BOUND_PARAMS then BoundParam name else Param name) # parse_pattern (tl rest)
            else Literal c # parse_pattern s)
      else (if c = CHR ''.'' then AnyChar else Literal c) # parse_pattern s)"
  by pat_completeness auto

termination
proof (relation "measure length")
  fix c :: char and s name rest :: string
  assume "rest = dropWhile name_char s"
  then have "length rest \<le> length s" by (simp add: length_dropWhile_le)
  then show "(tl rest, c # s) \<in> measure length" by simp
qed simp_all

definition not_slash :: "char \<Rightarrow> bool" where
  "not_slash c \<longleftrightarrow> c \<noteq> CHR ''/''"

text \<open>The ways \<open>[^/]+\<close> can match, longest first, each with what is left.\<close>

definition param_splits :: "string \<Rightarrow> (string \<times> string) list" where
  "param_splits s = map (\<lambda>n. (take n s, drop n s)) (rev [1..<Suc (length (takeWhile not_slash s))])"

text \<open>\<open>(?:/[A-Za-z0-9._~-]{16,128})?\<close> after it, greedy.\<close>

definition opaque_splits :: "string \<Rightarrow> (string \<times> string) list" where
  "opaque_splits s = (case s of c # t \<Rightarrow> if c = CHR ''/''
       then map (\<lambda>n. (CHR ''/'' # take n t, drop n t)) (rev [16..<Suc (min 128 (length (takeWhile id_char t)))]) else []
     | [] \<Rightarrow> []) @ [([], s)]"

definition bound_splits :: "string \<Rightarrow> (string \<times> string) list" where
  "bound_splits s = concat (map (\<lambda>(v, r). map (\<lambda>(x, r'). (v @ x, r')) (opaque_splits r)) (param_splits s))"

fun first_some :: "('a \<Rightarrow> 'b option) \<Rightarrow> 'a list \<Rightarrow> 'b option" where
  "first_some f [] = None"
| "first_some f (x # xs) = (case f x of None \<Rightarrow> first_some f xs | Some y \<Rightarrow> Some y)"

lemma first_some_cong [fundef_cong]:
  "xs = ys \<Longrightarrow> (\<And>x. x \<in> set ys \<Longrightarrow> f x = g x) \<Longrightarrow> first_some f xs = first_some g ys"
  by (induction xs arbitrary: ys) (auto split: option.splits)

lemma first_some_Some: "first_some f xs = Some y \<Longrightarrow> \<exists>x \<in> set xs. f x = Some y"
  by (induction xs) (auto split: option.splits)

fun match_path :: "segment list \<Rightarrow> string \<Rightarrow> (string \<times> string) list option" where
  "match_path [] s = (if s = [] then Some [] else None)"
| "match_path (Literal c # es) s = (case s of d # t \<Rightarrow> if c = d then match_path es t else None | [] \<Rightarrow> None)"
| "match_path (AnyChar # es) s = (case s of d # t \<Rightarrow> if d \<noteq> CHR 0x0A then match_path es t else None | [] \<Rightarrow> None)"
| "match_path (Param n # es) s = first_some (\<lambda>(v, r). map_option ((#) (n, v)) (match_path es r)) (param_splits s)"
| "match_path (BoundParam n # es) s = first_some (\<lambda>(v, r). map_option ((#) (n, v)) (match_path es r)) (bound_splits s)"

text \<open>\<open>decodeURIComponent\<close>: the escapes become bytes, which must be UTF-8.\<close>

definition hex_digit :: "char \<Rightarrow> nat option" where
  "hex_digit c = (let n = (of_char c :: nat) in if 48 \<le> n \<and> n \<le> 57 then Some (n - 48)
     else if 65 \<le> n \<and> n \<le> 70 then Some (n - 55) else if 97 \<le> n \<and> n \<le> 102 then Some (n - 87) else None)"

fun percent_decode :: "string \<Rightarrow> string option" where
  "percent_decode [] = Some []"
| "percent_decode (c # s) = (if c = CHR ''%'' then
     (case s of a # b # t \<Rightarrow> (case (hex_digit a, hex_digit b) of
         (Some x, Some y) \<Rightarrow> map_option ((#) (char_of (16 * x + y))) (percent_decode t) | _ \<Rightarrow> None)
       | _ \<Rightarrow> None)
     else map_option ((#) c) (percent_decode s))"

definition decodeURIComponent :: "string \<Rightarrow> string option" where
  "decodeURIComponent s = (case percent_decode s of None \<Rightarrow> None | Some t \<Rightarrow> if utf8_ok t then Some t else None)"

section \<open>Version headers\<close>

text \<open>The major the header names, and whether the header is malformed.\<close>

definition versionMajor :: "string option \<Rightarrow> nat option \<times> bool" where
  "versionMajor raw = (case raw of None \<Rightarrow> (None, False) | Some s \<Rightarrow>
     (let v = js_trim s in if v = [] then (None, False)
      else case split_on (CHR ''.'') v of
          [a] \<Rightarrow> if is_decimal a then (Some (decimal_value a), False) else (None, True)
        | [a, b] \<Rightarrow> if is_decimal a \<and> is_decimal b then (Some (decimal_value a), False) else (None, True)
        | _ \<Rightarrow> (None, True)))"

text \<open>\<open><major>.<minor>[.<patch>]\<close>, read as the pair compared; \<open>None\<close> is treated as no header.\<close>

definition client_version :: "string \<Rightarrow> (nat \<times> nat) option" where
  "client_version s = (case split_on (CHR ''.'') (js_trim s) of
       [a, b] \<Rightarrow> if is_decimal a \<and> is_decimal b then Some (decimal_value a, decimal_value b) else None
     | [a, b, c] \<Rightarrow> if is_decimal a \<and> is_decimal b \<and> is_decimal c then Some (decimal_value a, decimal_value b) else None
     | _ \<Rightarrow> None)"

definition versionLt :: "nat \<times> nat \<Rightarrow> nat \<times> nat \<Rightarrow> bool" where
  "versionLt a b \<longleftrightarrow> fst a < fst b \<or> (fst a = fst b \<and> snd a < snd b)"

section \<open>The token bucket\<close>

record bucket =
  tb_units :: int
  tb_last :: nat

definition new_bucket :: "nat \<Rightarrow> nat \<Rightarrow> bucket" where
  "new_bucket perMinute now = \<lparr>tb_units = 60000 * int perMinute, tb_last = now\<rparr>"

definition refilled :: "nat \<Rightarrow> nat \<Rightarrow> bucket \<Rightarrow> int" where
  "refilled perMinute now b = min (60000 * int perMinute) (tb_units b + (int now - int (tb_last b)) * int perMinute)"

text \<open>
  \<open>Some s\<close> is a refusal with \<open>Retry-After: s\<close>. With \<open>perMinute = 0\<close> the code divides by zero; the
  model answers 1 there.
\<close>

definition retry_after :: "nat \<Rightarrow> int \<Rightarrow> nat" where
  "retry_after perMinute units = max 1 (nat (- ((units - 60000) div (1000 * int perMinute))))"

definition take_token :: "nat \<Rightarrow> nat \<Rightarrow> bucket \<Rightarrow> nat option \<times> bucket" where
  "take_token perMinute now b =
     (let u = refilled perMinute now b in
      if u \<ge> 60000 then (None, \<lparr>tb_units = u - 60000, tb_last = now\<rparr>)
      else (Some (retry_after perMinute u), \<lparr>tb_units = u, tb_last = now\<rparr>))"

text \<open>A caller's requests at their times, and how many of them were admitted.\<close>

fun take_tokens :: "nat \<Rightarrow> nat list \<Rightarrow> bucket \<Rightarrow> nat \<times> bucket" where
  "take_tokens perMinute [] b = (0, b)"
| "take_tokens perMinute (t # ts) b =
     (case take_token perMinute t b of (r, b1) \<Rightarrow> (case take_tokens perMinute ts b1 of (n, b2) \<Rightarrow> (if r = None then Suc n else n, b2)))"

lemma take_token_units:
  assumes "take_token p t b = (r, b')"
  shows "tb_units b' + (if r = None then 60000 else 0) = refilled p t b" "tb_last b' = t"
  using assms by (auto simp: take_token_def Let_def split: if_splits)

lemma take_tokens_bound:
  assumes "take_tokens p ts b = (n, b')" "sorted (tb_last b # ts)"
  shows "60000 * int n + tb_units b' \<le> tb_units b + (int (last (tb_last b # ts)) - int (tb_last b)) * int p"
  using assms
proof (induction ts arbitrary: b n)
  case (Cons t ts)
  obtain r b1 where one: "take_token p t b = (r, b1)" by force
  obtain m where rest: "take_tokens p ts b1 = (m, b')" and n: "n = (if r = None then Suc m else m)"
    using Cons.prems(1) one by (auto split: prod.splits)
  have last: "last (tb_last b # t # ts) = last (tb_last b1 # ts)" by (simp add: take_token_units [OF one])
  have "sorted (tb_last b1 # ts)" using Cons.prems(2) by (simp add: take_token_units [OF one])
  from Cons.IH [OF rest this] have "60000 * int m + tb_units b' \<le> tb_units b1 + (int (last (tb_last b1 # ts)) - int (tb_last b1)) * int p" .
  moreover have "tb_units b1 + (if r = None then 60000 else 0) \<le> tb_units b + (int t - int (tb_last b)) * int p"
    by (simp only: take_token_units(1) [OF one]) (simp add: refilled_def)
  ultimately show ?case
    unfolding last n by (cases r) (simp_all add: take_token_units(2) [OF one] algebra_simps)
qed simp

lemma refilled_le: "refilled p t b \<le> 60000 * int p"
  by (simp add: refilled_def)

lemma take_tokens_nonneg:
  assumes "take_tokens p ts b = (n, b')" "0 \<le> tb_units b" "sorted (tb_last b # ts)"
  shows "0 \<le> tb_units b'"
  using assms
proof (induction ts arbitrary: b n)
  case (Cons t ts)
  obtain r b1 where one: "take_token p t b = (r, b1)" by force
  obtain m where rest: "take_tokens p ts b1 = (m, b')" using Cons.prems(1) one by (auto split: prod.splits)
  have "0 \<le> refilled p t b" using Cons.prems(2,3) by (simp add: refilled_def)
  with one have "0 \<le> tb_units b1" by (auto simp: take_token_def Let_def split: if_splits)
  with Cons.IH [OF rest] Cons.prems one rest show ?case by (simp add: take_token_units(2) [OF one])
qed simp

text \<open>
  The rate limit: of the requests one caller makes from the creation of its bucket on, at
  non-decreasing times, no more are admitted than a full bucket and the refill of the
  elapsed time allow.
\<close>

theorem rate_is_bounded:
  assumes "take_tokens p ts (new_bucket p t0) = (n, b)" "sorted (t0 # ts)"
  shows "60000 * n \<le> 60000 * p + (last (t0 # ts) - t0) * p"
proof -
  have srt: "sorted (tb_last (new_bucket p t0) # ts)" using assms(2) by (simp add: new_bucket_def)
  have "0 \<le> tb_units b" by (rule take_tokens_nonneg [OF assms(1) _ srt]) (simp add: new_bucket_def)
  with take_tokens_bound [OF assms(1) srt]
  have "60000 * int n \<le> 60000 * int p + (int (last (t0 # ts)) - int t0) * int p" by (simp add: new_bucket_def)
  moreover have "t0 \<le> last (t0 # ts)" using assms(2) by (cases ts) auto
  ultimately have "int (60000 * n) \<le> int (60000 * p + (last (t0 # ts) - t0) * p)"
    by (simp add: of_nat_diff del: last.simps)
  then show ?thesis by (simp only: of_nat_le_iff)
qed

lemma rate_is_bounded_witness: "60000 * fst (take_tokens 2 [0, 1, 2, 40000] (new_bucket 2 0)) \<le> 60000 * 2 + (40000 - 0) * (2 :: nat)"
proof -
  obtain n b where nb: "take_tokens 2 [0, 1, 2, 40000] (new_bucket 2 0) = (n, b)" by force
  have "sorted [0, 0, 1, 2, 40000 :: nat]" by simp
  from rate_is_bounded [OF nb this] show ?thesis unfolding nb fst_conv by (simp del: take_tokens.simps)
qed

text \<open>
  A refused caller that waits the seconds of \<open>Retry-After\<close> and is the next to ask is admitted.
\<close>

theorem retry_after_suffices:
  assumes "take_token p t b = (Some s, b')" "0 < p" "t + 1000 * s \<le> t'"
  shows "fst (take_token p t' b') = None"
proof -
  let ?u = "refilled p t b"
  from assms(1) have u: "?u < 60000" "b' = \<lparr>tb_units = ?u, tb_last = t\<rparr>" "s = retry_after p ?u"
    by (auto simp: take_token_def Let_def split: if_splits)
  let ?k = "1000 * int p"
  have k: "0 < ?k" using assms(2) by simp
  have "- ((?u - 60000) div ?k) \<le> int s" unfolding u(3) retry_after_def by linarith
  then have a: "0 \<le> (?u - 60000) div ?k + int s" by linarith
  have b: "(?u - 60000) div ?k * ?k \<le> ?u - 60000"
    using div_mult_mod_eq [of "?u - 60000" ?k] pos_mod_sign [OF k, of "?u - 60000"] by linarith
  have "0 \<le> ((?u - 60000) div ?k + int s) * ?k"
    by (rule mult_nonneg_nonneg [OF a]) simp
  then have "- ((?u - 60000) div ?k * ?k) \<le> int s * ?k" unfolding distrib_right by linarith
  with b have "60000 - ?u \<le> int s * ?k" by linarith
  moreover have "int s * ?k \<le> (int t' - int t) * int p"
  proof -
    have "1000 * int s \<le> int t' - int t" using assms(3) by linarith
    then have "1000 * int s * int p \<le> (int t' - int t) * int p" by (rule mult_right_mono) simp
    then show ?thesis by (simp only: mult_ac)
  qed
  ultimately have "60000 \<le> ?u + (int t' - int t) * int p" by linarith
  moreover have "60000 \<le> 60000 * int p" using assms(2) by simp
  ultimately have "60000 \<le> refilled p t' b'" by (simp add: refilled_def u(2))
  then show ?thesis by (simp add: take_token_def Let_def)
qed

lemma retry_after_suffices_witness:
  "take_token 1 0 \<lparr>tb_units = 0, tb_last = 0\<rparr> = (Some 60, \<lparr>tb_units = 0, tb_last = 0\<rparr>)
    \<and> fst (take_token 1 60000 \<lparr>tb_units = 0, tb_last = 0\<rparr>) = None"
proof -
  have "take_token 1 0 \<lparr>tb_units = 0, tb_last = 0\<rparr> = (Some 60, \<lparr>tb_units = 0, tb_last = 0\<rparr>)"
    by (simp add: take_token_def refilled_def retry_after_def)
  with retry_after_suffices [OF this, of 60000] show ?thesis by simp
qed

end
