(* ===== verification/Identity.thy ===== *)
theory Identity
  imports Ids Canonical
begin

text \<open>
  Who is calling: the scope table of \<open>scopes.ts\<close>, the lanes of \<open>identity.ts\<close> (stored
  credentials with next-request revocation, the workload lane with its delegation chain),
  the \<open>oidc\<close> lane of \<open>oidc-lane.ts\<close>, and the challenge of \<open>protected-resource.ts\<close>. The keys
  the issuer serves and their verification are arguments, as are the random bytes of a
  minted credential; SHA-256 is the host's.
\<close>

section \<open>Scopes\<close>

definition SCOPE_BY_ROUTE :: "(string \<times> string) list" where
  "SCOPE_BY_ROUTE = [
     (''GET /workflows/{workflowId}'', ''manifest:read''),
     (''POST /runs'', ''runs:create''), (''POST /v1/runs'', ''runs:create''),
     (''GET /runs'', ''runs:read''), (''GET /runs/{runId}'', ''runs:read''), (''GET /v1/runs/{runId}'', ''runs:read''),
     (''GET /runs/{runId}/events'', ''runs:read''), (''GET /v1/runs/{runId}/events'', ''runs:read''),
     (''GET /runs/{runId}/events/poll'', ''runs:read''), (''GET /v1/runs/{runId}/events/poll'', ''runs:read''),
     (''GET /runs/{runId}/events/debug'', ''runs:read''), (''GET /runs/{runId}/ancestry'', ''runs:read''),
     (''GET /runs/{runId}/annotations'', ''runs:read''), (''POST /runs/{runId}/annotations'', ''runs:annotate''),
     (''GET /runs/{runId}/artifacts/{artifactId}'', ''artifacts:read''), (''GET /v1/runs/{runId}/artifacts/{artifactId}'', ''artifacts:read''),
     (''GET /runs/{runId}/compensation'', ''runs:read''), (''GET /runs/{runId}/effects'', ''runs:read''),
     (''GET /runs/{runId}/interrupts/{nodeId}'', ''runs:read''), (''POST /runs/{runId}/interrupts/{nodeId}'', ''approvals:respond''),
     (''POST /runs/{runId}/cancel'', ''runs:cancel''), (''POST /v1/runs/{runId}/cancel'', ''runs:cancel''),
     (''POST /runs:bulk-cancel'', ''runs:cancel''), (''POST /runs/{runId}:pause'', ''runs:cancel''),
     (''POST /runs/{runId}:resume'', ''runs:cancel''), (''POST /runs/{runId}:fork'', ''runs:create''),
     (''GET /agents'', ''runs:read''), (''GET /agents/{agentId}'', ''runs:read''),
     (''GET /tools'', ''runs:read''), (''GET /tools/{toolId}'', ''runs:read''), (''GET /packs'', ''runs:read''),
     (''POST /webhooks'', ''webhooks:manage''), (''POST /v1/webhooks'', ''webhooks:manage''),
     (''DELETE /webhooks/{webhookId}'', ''webhooks:manage''), (''DELETE /v1/webhooks/{webhookId}'', ''webhooks:manage''),
     (''POST /webhooks/{webhookId}/rotate-secret'', ''webhooks:manage''), (''POST /v1/webhooks/{webhookId}/rotate-secret'', ''webhooks:manage''),
     (''GET /webhooks/{webhookId}/dead-letters'', ''webhooks:manage''),
     (''GET /host/effect-seams'', ''runs:read''), (''GET /host/events'', ''runs:read''),
     (''POST /host/events/test'', ''webhooks:manage''), (''GET /audit/verify'', ''audit:read'')]"

definition scopesEnforced :: "string list" where
  "scopesEnforced = sort_key utf16_key (remdups (map snd SCOPE_BY_ROUTE))"

text \<open>A prefix followed by a slash or the end of the path.\<close>

definition path_under :: "string \<Rightarrow> string \<Rightarrow> bool" where
  "path_under p s \<longleftrightarrow> starts_with p s \<and> (length s = length p \<or> s ! length p = CHR ''/'')"

definition scope_exempt :: "string \<Rightarrow> bool" where
  "scope_exempt p \<longleftrightarrow> starts_with ''/conformance/seams/'' p \<or> path_under ''/a2a'' p \<or> path_under ''/mcp'' p
     \<or> starts_with ''/interrupt-pages/'' p \<or> starts_with ''/oauth/'' p \<or> starts_with ''/host/durability/'' p"

text \<open>\<open>None\<close> is the error that keeps the host from booting.\<close>

definition scopeForRoute :: "string \<Rightarrow> string \<Rightarrow> string option option" where
  "scopeForRoute meth pattern = (case map_of SCOPE_BY_ROUTE (meth @ '' '' @ pattern) of
     Some s \<Rightarrow> Some (Some s) | None \<Rightarrow> if scope_exempt pattern then Some None else None)"

definition scopesOfCredential :: "string list \<Rightarrow> string list \<Rightarrow> bool \<Rightarrow> string set" where
  "scopesOfCredential all low isLow = set (if isLow then low else all)"

section \<open>Stored credentials\<close>

record api_credential =
  ac_id :: string
  ac_hash :: string
  ac_tenant :: string
  ac_lane :: string
  ac_subject :: string
  ac_created :: nat
  ac_revoked :: "nat option"

text \<open>The table's hash column is unique; a second insertion throws.\<close>

definition insertCredential :: "api_credential \<Rightarrow> api_credential list \<Rightarrow> api_credential list option" where
  "insertCredential c cs = (if ac_hash c \<in> ac_hash ` set cs \<or> ac_id c \<in> ac_id ` set cs then None else Some (cs @ [c]))"

definition credentialByHash :: "string \<Rightarrow> api_credential list \<Rightarrow> api_credential option" where
  "credentialByHash hsh cs = find (\<lambda>c. ac_hash c = hsh) cs"

definition revoke_row :: "nat \<Rightarrow> string \<Rightarrow> api_credential \<Rightarrow> api_credential" where
  "revoke_row now hsh c = (if ac_hash c = hsh \<and> ac_revoked c = None then c\<lparr>ac_revoked := Some now\<rparr> else c)"

definition revokeCredentialRow :: "nat \<Rightarrow> string \<Rightarrow> api_credential list \<Rightarrow> bool \<times> api_credential list" where
  "revokeCredentialRow now hsh cs =
     (\<exists>c \<in> set cs. ac_hash c = hsh \<and> ac_revoked c = None, map (revoke_row now hsh) cs)"

section \<open>The identity context\<close>

text \<open>A key of the issuer's set: its key id, and what its verification answers.\<close>

record jwk =
  jk_kid :: "string option"
  jk_verify :: "string \<Rightarrow> string \<Rightarrow> string \<Rightarrow> bool"

record identity_env =
  ie_sha :: "string \<Rightarrow> string"
  ie_api_key :: string
  ie_tenant :: string
  ie_low_key :: "string option"
  ie_low_scopes :: "string list"
  ie_tenantB_key :: "string option"
  ie_tenantB :: string
  ie_oidc_issuer :: "string option"
  ie_oidc_audience :: string
  ie_jwks :: "exn + jwk list"
  ie_trust_roots :: "string list"
  ie_date :: "string \<Rightarrow> nat option"

definition HOST_NAME :: string where "HOST_NAME = ''openwop-host-v2-reference''"
definition API_KEY_ISSUER :: string where "API_KEY_ISSUER = ''urn:'' @ HOST_NAME @ '':api-key''"
definition SESSION_ISSUER :: string where "SESSION_ISSUER = ''urn:'' @ HOST_NAME @ '':session''"

definition cred_hash :: "identity_env \<Rightarrow> string \<Rightarrow> string" where
  "cred_hash ie s = hex_of (ie_sha ie s)"

definition refuse :: "string \<Rightarrow> string \<Rightarrow> exn" where
  "refuse code m = HostError code m None"

definition lower_ascii :: "char \<Rightarrow> char" where
  "lower_ascii c = (let n = (of_char c :: nat) in if 65 \<le> n \<and> n \<le> 90 then char_of (n + 32) else c)"

text \<open>The \<open>Authorization\<close> header: the scheme, white space, a non-empty token.\<close>

definition bearerOf :: "string option \<Rightarrow> string option" where
  "bearerOf h = (case h of None \<Rightarrow> None | Some raw \<Rightarrow>
     (let v = js_trim raw in
      if length v \<le> 6 \<or> map lower_ascii (take 6 v) \<noteq> ''bearer'' then None
      else if \<not> js_space (v ! 6) then None
      else let token = js_trim (drop 6 v) in if token \<noteq> [] then Some token else None))"

definition new_credential :: "identity_env \<Rightarrow> nat \<Rightarrow> string \<Rightarrow> string \<Rightarrow> string \<Rightarrow> api_credential" where
  "new_credential ie now name secret tenant = \<lparr>ac_id = name, ac_hash = cred_hash ie secret, ac_tenant = tenant,
     ac_lane = ''api-key'', ac_subject = name, ac_created = now, ac_revoked = None\<rparr>"

definition ensure_one :: "identity_env \<Rightarrow> nat \<Rightarrow> string \<Rightarrow> string \<Rightarrow> string \<Rightarrow> api_credential list \<Rightarrow> exn + api_credential list" where
  "ensure_one ie now name secret tenant cs =
     (if credentialByHash (cred_hash ie secret) cs \<noteq> None then Inr cs
      else case insertCredential (new_credential ie now name secret tenant) cs of
        None \<Rightarrow> Inl (JsError ''UNIQUE constraint failed: credentials'') | Some cs' \<Rightarrow> Inr cs')"

definition ensureDefaultCredential :: "identity_env \<Rightarrow> nat \<Rightarrow> api_credential list \<Rightarrow> exn + api_credential list" where
  "ensureDefaultCredential ie now cs =
     (case ensure_one ie now ''default'' (ie_api_key ie) (ie_tenant ie) cs of Inl e \<Rightarrow> Inl e
      | Inr cs1 \<Rightarrow>
        (case (case ie_low_key ie of None \<Rightarrow> Inr cs1
             | Some low \<Rightarrow> if low = ie_api_key ie then Inr cs1 else ensure_one ie now ''low-scope'' low (ie_tenant ie) cs1) of
           Inl e \<Rightarrow> Inl e
         | Inr cs2 \<Rightarrow>
           (case ie_tenantB_key ie of None \<Rightarrow> Inr cs2
            | Some b \<Rightarrow> if b = ie_api_key ie then Inr cs2
                else if ie_tenantB ie = ie_tenant ie
                then Inl (JsError ''OPENWOP_TENANT_B MUST differ from OPENWOP_TENANT: the second credential exists to be another tenant'')
                else ensure_one ie now ''tenant-b'' b (ie_tenantB ie) cs2)))"

section \<open>The oidc lane\<close>

definition b64url_char :: "char \<Rightarrow> bool" where
  "b64url_char c \<longleftrightarrow> name_char c \<or> c = CHR ''-''"

definition JWT_SHAPE :: "string \<Rightarrow> bool" where
  "JWT_SHAPE t \<longleftrightarrow> (let ps = split_on (CHR ''.'') t in length ps = 3 \<and> list_all (\<lambda>p. p \<noteq> [] \<and> list_all b64url_char p) ps)"

definition decodeSegment :: "string \<Rightarrow> json option" where
  "decodeSegment s = json_parse (from_base64url s)"

definition VERIFY_ALG :: "string list" where "VERIFY_ALG = [''RS256'', ''ES256'']"

definition strip_slash :: "string \<Rightarrow> string" where
  "strip_slash s = (if s \<noteq> [] \<and> last s = CHR ''/'' then butlast s else s)"

definition text_or_blank :: "json option \<Rightarrow> string" where
  "text_or_blank v = js_String (nullish v (Some (JStr [])))"

definition audiences :: "json option \<Rightarrow> string list" where
  "audiences v = (case v of Some (JArr xs) \<Rightarrow> map js_string xs | Some (JStr s) \<Rightarrow> [s] | _ \<Rightarrow> [])"

text \<open>\<open>header['kid'] === undefined || k.kid === undefined || k.kid === header['kid']\<close>.\<close>

definition kid_matches :: "json \<Rightarrow> jwk \<Rightarrow> bool" where
  "kid_matches header k \<longleftrightarrow> jfield header ''kid'' = None \<or> jk_kid k = None \<or> map_option JStr (jk_kid k) = jfield header ''kid''"

definition claims_verdict :: "identity_env \<Rightarrow> nat \<Rightarrow> string \<Rightarrow> json \<Rightarrow> exn + subject" where
  "claims_verdict ie now issuer claims =
     (if strip_slash (text_or_blank (jfield claims ''iss'')) \<noteq> issuer
      then Inl (refuse ''identity_unverified'' ''the token `iss` is not this lane trust root'')
      else if (case num_of (jfield claims ''exp'') of None \<Rightarrow> 0 | Some n \<Rightarrow> n) * 1000 \<le> int now
      then Inl (refuse ''identity_unverified'' ''the token is expired'')
      else if ie_oidc_audience ie \<notin> set (audiences (jfield claims ''aud''))
      then Inl (refuse ''audience_mismatch'' (''the credential audience is not this host (aud='' @
          (let a = join_with (CHR '','') (audiences (jfield claims ''aud'')) in if a = [] then ''absent'' else a)
          @ '', expected '' @ ie_oidc_audience ie @ '')''))
      else if text_or_blank (jfield claims ''sub'') = []
      then Inl (refuse ''identity_unresolvable'' ''the verified token carries no `sub` to resolve'')
      else Inr \<lparr>sub_issuer = issuer, sub_id = text_or_blank (jfield claims ''sub''), sub_tenant = ie_tenant ie,
                sub_lane = ''oidc'', sub_kind = ''user''\<rparr>)"

definition verifyOidcBearer :: "identity_env \<Rightarrow> nat \<Rightarrow> string \<Rightarrow> exn + subject" where
  "verifyOidcBearer ie now token =
     (case ie_oidc_issuer ie of None \<Rightarrow> Inl (refuse ''unauthenticated'' ''the credential does not verify against any lane trust root'')
      | Some issuer \<Rightarrow>
        (case split_on (CHR ''.'') token of
           [h, c, s] \<Rightarrow>
             (case (decodeSegment h, decodeSegment c) of
                (Some header, Some claims) \<Rightarrow>
                  (let alg = text_or_blank (jfield header ''alg'') in
                   if alg \<notin> set VERIFY_ALG
                   then Inl (refuse ''identity_unverified'' (''the oidc lane accepts RS256, ES256; the token declares '' @ (if alg = [] then ''no alg'' else alg)))
                   else case ie_jwks ie of Inl e \<Rightarrow> Inl e
                     | Inr keys \<Rightarrow>
                       (let candidates = filter (kid_matches header) keys in
                        if candidates = [] then Inl (refuse ''identity_unverified'' ''no key in the issuer JWKS matches the token kid'')
                        else if \<not> (\<exists>k \<in> set candidates. jk_verify k alg (h @ ''.'' @ c) (from_base64url s))
                        then Inl (refuse ''identity_unverified'' ''the token signature does not verify against the lane trust root'')
                        else claims_verdict ie now issuer claims))
              | _ \<Rightarrow> Inl (refuse ''identity_unverified'' ''the bearer is not a decodable JWS''))
         | _ \<Rightarrow> Inl (refuse ''identity_unverified'' ''the bearer is not a compact JWS'')))"

section \<open>Authentication\<close>

record authed =
  au_subject :: subject
  au_scopes :: "string set"

definition stored_subject :: "api_credential \<Rightarrow> subject" where
  "stored_subject c = (let lane = (if ac_lane c = ''session'' then ''session'' else ''api-key'') in
     \<lparr>sub_issuer = (if lane = ''session'' then SESSION_ISSUER else API_KEY_ISSUER), sub_id = ac_subject c,
      sub_tenant = ac_tenant c, sub_lane = lane, sub_kind = ''user''\<rparr>)"

definition is_low :: "identity_env \<Rightarrow> string \<Rightarrow> bool" where
  "is_low ie hsh = (case ie_low_key ie of None \<Rightarrow> False | Some low \<Rightarrow> low \<noteq> ie_api_key ie \<and> cred_hash ie low = hsh)"

definition authenticate :: "identity_env \<Rightarrow> nat \<Rightarrow> string option \<Rightarrow> api_credential list \<Rightarrow> exn + authed" where
  "authenticate ie now hdr cs =
     (case bearerOf hdr of None \<Rightarrow> Inl (refuse ''unauthenticated'' ''Authorization: Bearer <credential> is required'')
      | Some token \<Rightarrow>
        if ie_oidc_issuer ie \<noteq> None \<and> JWT_SHAPE token
        then map_sum id (\<lambda>s. \<lparr>au_subject = s, au_scopes = scopesOfCredential scopesEnforced (ie_low_scopes ie) False\<rparr>) (verifyOidcBearer ie now token)
        else case credentialByHash (cred_hash ie token) cs of
            None \<Rightarrow> Inl (refuse ''unauthenticated'' ''the credential does not verify against any lane trust root'')
          | Some row \<Rightarrow>
            if ac_hash row \<noteq> cred_hash ie token then Inl (refuse ''unauthenticated'' ''credential mismatch'')
            else case ac_revoked row of
                Some t \<Rightarrow> Inl (refuse ''credential_revoked'' (''the '' @ ac_lane row @ '' credential was revoked at '' @ nat_string t))
              | None \<Rightarrow> Inr \<lparr>au_subject = stored_subject row,
                  au_scopes = scopesOfCredential scopesEnforced (ie_low_scopes ie) (is_low ie (cred_hash ie token))\<rparr>)"

definition principalRef :: "subject \<Rightarrow> string" where
  "principalRef s = sub_issuer s @ ''#'' @ sub_id s"

text \<open>\<open>r24\<close> and \<open>rid\<close> are the base64url text of the random bytes and the opaque id.\<close>

definition mintCredential :: "identity_env \<Rightarrow> nat \<Rightarrow> string \<Rightarrow> string \<Rightarrow> string \<Rightarrow> string \<Rightarrow> api_credential list
    \<Rightarrow> exn + (string \<times> string) \<times> api_credential list" where
  "mintCredential ie now r24 rid lane tenant cs =
     (if lane \<noteq> ''api-key'' \<and> lane \<noteq> ''session''
      then Inl (HostError ''validation_error'' (''lane '' @ lane @ '' is not a next-request lane this host mints'') (Some (JObj [(''lane'', JStr lane)])))
      else let credential = (if lane = ''session'' then ''ow2s_'' else ''ow2k_'') @ r24; sid = lane @ ''-'' @ rid
      in case insertCredential \<lparr>ac_id = sid, ac_hash = cred_hash ie credential, ac_tenant = tenant, ac_lane = lane,
             ac_subject = sid, ac_created = now, ac_revoked = None\<rparr> cs of
           None \<Rightarrow> Inl (JsError ''UNIQUE constraint failed: credentials'')
         | Some cs' \<Rightarrow> Inr ((credential, sid), cs'))"

definition revokeCredential :: "identity_env \<Rightarrow> nat \<Rightarrow> string \<Rightarrow> api_credential list \<Rightarrow> bool \<times> api_credential list" where
  "revokeCredential ie now credential cs = revokeCredentialRow now (cred_hash ie credential) cs"

section \<open>The workload lane\<close>

definition hop_subject :: "json \<Rightarrow> string" where
  "hop_subject hop = text_or_blank (jfield hop ''subject'')"

definition hop_scopes :: "json \<Rightarrow> string list" where
  "hop_scopes hop = (case arr_of (jfield hop ''scopes'') of None \<Rightarrow> [] | Some xs \<Rightarrow> map js_string xs)"

text \<open>One hop of the actor chain against the hops before it.\<close>

fun walk_chain :: "string list \<Rightarrow> string list option \<Rightarrow> json list \<Rightarrow> exn option" where
  "walk_chain seen prev [] = None"
| "walk_chain seen prev (hop # hops) =
     (let s = hop_subject hop; scopes = hop_scopes hop
      in if s \<in> set seen then Some (refuse ''delegation_chain_cyclic'' ''the actor chain repeats a subject'')
         else if (case prev of None \<Rightarrow> False | Some p \<Rightarrow> \<exists>sc \<in> set scopes. sc \<notin> set p)
         then Some (refuse ''delegation_scope_amplified'' ''a delegated link claims more scope than its delegator'')
         else walk_chain (s # seen) (Some scopes) hops)"

definition delegation_refusal :: "identity_env \<Rightarrow> nat \<Rightarrow> json option \<Rightarrow> exn option" where
  "delegation_refusal ie now d =
     (if \<not> is_object d then None
      else if (case str_of (jget d ''expiresAt'') of None \<Rightarrow> False
          | Some t \<Rightarrow> (case ie_date ie t of None \<Rightarrow> False | Some ms \<Rightarrow> ms < now))
      then Some (refuse ''delegation_expired'' ''the delegation is past its lifetime'')
      else let chain = (case arr_of (jget d ''chain'') of None \<Rightarrow> [] | Some xs \<Rightarrow> xs) in
        if length chain > 4 then Some (refuse ''delegation_chain_too_long'' ''the actor chain exceeds depth 4'')
        else walk_chain [] None chain)"

definition trusted :: "identity_env \<Rightarrow> string \<Rightarrow> string \<Rightarrow> bool" where
  "trusted ie issuer subj \<longleftrightarrow> (\<exists>root \<in> set (ie_trust_roots ie). issuer = root \<or> starts_with (strip_slash root @ ''/'') subj)"

definition workload_principal :: "identity_env \<Rightarrow> string \<Rightarrow> string \<Rightarrow> string" where
  "workload_principal ie issuer subj = ''workload:'' @ take 32 (cred_hash ie (issuer @ ''|'' @ subj))"

definition binding_refusal :: "json option \<Rightarrow> exn option" where
  "binding_refusal b =
     (if \<not> is_object b
      then Some (refuse ''sender_constraint_missing'' ''the workload lane floor is key-bound; the identity was presented without a key binding'')
      else if jget b ''method'' \<noteq> Some (JStr ''mtls'')
      then Some (refuse ''sender_constraint_missing'' (''the workload lane floor is key-bound; '' @ js_String (jget b ''method'') @ '' binding is sender-constrained''))
      else None)"

definition resolveWorkloadIdentity :: "identity_env \<Rightarrow> nat \<Rightarrow> json \<Rightarrow> string option \<Rightarrow> exn + string \<times> string" where
  "resolveWorkloadIdentity ie now ident expected =
     (let issuer = text_of (jfield ident ''issuer''); subj = text_of (jfield ident ''subject'') in
      if \<not> is_object (Some ident) then Inl (refuse ''validation_error'' ''identity MUST be a WorkloadIdentity object'')
      else if jfield ident ''scheme'' \<notin> Some ` JStr ` {''spiffe'', ''x509-svid'', ''jwt-svid''}
      then Inl (refuse ''identity_unverified'' (''scheme '' @ js_String (jfield ident ''scheme'') @ '' has no trust root on this host''))
      else if \<not> trusted ie issuer subj then Inl (refuse ''identity_unverified'' ''the workload issuer is not a configured trust root'')
      else if (case (str_of (jfield ident ''audience''), expected) of (Some a, Some x) \<Rightarrow> a \<noteq> x | _ \<Rightarrow> False)
      then Inl (refuse ''audience_mismatch'' ''the credential audience is not this host'')
      else case delegation_refusal ie now (jfield ident ''delegation'') of Some e \<Rightarrow> Inl e
      | None \<Rightarrow> (case binding_refusal (jfield ident ''keyBinding'') of Some e \<Rightarrow> Inl e
        | None \<Rightarrow> Inr (workload_principal ie issuer subj, ''key-bound'')))"

section \<open>The challenge\<close>

definition PRM_PATH :: string where "PRM_PATH = ''/.well-known/oauth-protected-resource''"

definition dquoted :: "string \<Rightarrow> string" where
  "dquoted s = [CHR 0x22] @ s @ [CHR 0x22]"

text \<open>\<open>bound\<close> says whether the discovery document advertises an oauth2 or oidc lane.\<close>

definition challengeFor :: "bool \<Rightarrow> string \<Rightarrow> nat \<Rightarrow> string \<Rightarrow> string option \<Rightarrow> bool \<Rightarrow> string option" where
  "challengeFor bound baseUrl status code scopeRequired presented =
     (let rm = ''resource_metadata='' @ dquoted (baseUrl @ PRM_PATH) in
      if status \<noteq> 401 \<and> status \<noteq> 403 then None
      else if \<not> bound then (if status = 401 then Some ''Bearer'' else None)
      else if status = 401 then
        (if presented \<or> code \<in> {''key_expired'', ''key_revoked'', ''credential_revoked''}
         then Some (''Bearer error='' @ dquoted ''invalid_token'' @ '', '' @ rm) else Some (''Bearer '' @ rm))
      else case scopeRequired of None \<Rightarrow> Some (''Bearer '' @ rm)
        | Some s \<Rightarrow> Some (''Bearer error='' @ dquoted ''insufficient_scope'' @ '', scope='' @ dquoted s @ '', '' @ rm))"

section \<open>Lemmas\<close>

lemma authenticate_stored:
  assumes "authenticate ie now hdr cs = Inr a" "ie_oidc_issuer ie = None \<or> (\<forall>t. bearerOf hdr = Some t \<longrightarrow> \<not> JWT_SHAPE t)"
  shows "\<exists>token row. bearerOf hdr = Some token \<and> row \<in> set cs \<and> ac_hash row = cred_hash ie token \<and> ac_revoked row = None
    \<and> au_subject a = stored_subject row"
proof -
  obtain token where t: "bearerOf hdr = Some token"
    using assms(1) by (cases "bearerOf hdr") (auto simp: authenticate_def)
  with assms(2) have n: "\<not> (ie_oidc_issuer ie \<noteq> None \<and> JWT_SHAPE token)" by auto
  obtain row where r: "credentialByHash (cred_hash ie token) cs = Some row"
    using assms(1) t n by (auto simp: authenticate_def split: option.splits if_splits)
  then have "row \<in> set cs" by (auto simp: credentialByHash_def find_Some_iff)
  with assms(1) t n r show ?thesis by (auto simp: authenticate_def split: if_splits option.splits)
qed

lemma hash_kept: "ac_hash (revoke_row now x c) = ac_hash c"
  by (simp add: revoke_row_def)

lemma revoked_lookup:
  "credentialByHash hsh (map (revoke_row now x) cs) = map_option (revoke_row now x) (credentialByHash hsh cs)"
  by (induction cs) (simp_all add: credentialByHash_def hash_kept)

text \<open>
  C8: Revocation takes effect on the very next request: after \<open>revokeCredential\<close> answers true, the same
  bearer is refused as revoked, and every other stored credential authenticates as it did.
\<close>

theorem revoked_on_next_request:
  assumes "revokeCredential ie t token cs = (True, cs')" "bearerOf hdr = Some token" "bearerOf other = Some token'"
    and "\<not> (ie_oidc_issuer ie \<noteq> None \<and> JWT_SHAPE token)" "cred_hash ie token' \<noteq> cred_hash ie token"
  shows "(\<exists>m. authenticate ie now hdr cs' = Inl (refuse ''credential_revoked'' m))
    \<and> authenticate ie now other cs' = authenticate ie now other cs"
proof
  have cs': "cs' = map (revoke_row t (cred_hash ie token)) cs" and ex: "\<exists>c \<in> set cs. ac_hash c = cred_hash ie token"
    using assms(1) by (auto simp: revokeCredential_def revokeCredentialRow_def)
  from ex obtain row where r: "credentialByHash (cred_hash ie token) cs = Some row"
    using find_not_None [of "\<lambda>c. ac_hash c = cred_hash ie token" cs] by (auto simp: credentialByHash_def)
  then have h: "ac_hash row = cred_hash ie token" by (auto simp: credentialByHash_def find_Some_iff)
  then obtain ms where "ac_revoked (revoke_row t (cred_hash ie token) row) = Some ms"
    by (cases "ac_revoked row") (auto simp: revoke_row_def)
  with r h assms(2,4) show "\<exists>m. authenticate ie now hdr cs' = Inl (refuse ''credential_revoked'' m)"
    by (auto simp: authenticate_def cs' revoked_lookup hash_kept)
  have "map_option (revoke_row t (cred_hash ie token)) (credentialByHash (cred_hash ie token') cs) = credentialByHash (cred_hash ie token') cs"
  proof (cases "credentialByHash (cred_hash ie token') cs")
    case (Some row')
    then have "ac_hash row' = cred_hash ie token'" by (auto simp: credentialByHash_def find_Some_iff)
    with assms(5) Some show ?thesis by (simp add: revoke_row_def)
  qed simp
  then show "authenticate ie now other cs' = authenticate ie now other cs"
    using assms(3) by (simp add: authenticate_def cs' revoked_lookup)
qed

lemma chain_accepted:
  assumes "walk_chain seen prev hops = None"
  shows "distinct (map hop_subject hops) \<and> (\<forall>h \<in> set hops. hop_subject h \<notin> set seen)
    \<and> sorted_wrt (\<lambda>a b. set b \<subseteq> set a) ((case prev of None \<Rightarrow> [] | Some p \<Rightarrow> [p]) @ map hop_scopes hops)"
  using assms
proof (induction seen prev hops rule: walk_chain.induct)
  case (2 seen prev hop hops)
  from "2.prems" have fresh: "hop_subject hop \<notin> set seen" and sub: "\<forall>p. prev = Some p \<longrightarrow> set (hop_scopes hop) \<subseteq> set p"
    and rest: "walk_chain (hop_subject hop # seen) (Some (hop_scopes hop)) hops = None"
    by (auto simp: Let_def split: if_splits option.splits)
  have "\<not> (case prev of None \<Rightarrow> False | Some p \<Rightarrow> \<exists>sc \<in> set (hop_scopes hop). sc \<notin> set p)"
    using sub by (auto split: option.splits)
  from "2.IH" [OF refl refl fresh this rest] have ih: "distinct (map hop_subject hops)"
    "\<forall>h \<in> set hops. hop_subject h \<notin> set (hop_subject hop # seen)"
    "sorted_wrt (\<lambda>a b. set b \<subseteq> set a) (hop_scopes hop # map hop_scopes hops)" by simp_all
  have "sorted_wrt (\<lambda>a b. set b \<subseteq> set a) ((case prev of None \<Rightarrow> [] | Some p \<Rightarrow> [p]) @ hop_scopes hop # map hop_scopes hops)"
  proof (cases prev)
    case (Some p)
    with sub ih(3) have "\<forall>x \<in> set (hop_scopes hop # map hop_scopes hops). set x \<subseteq> set p" by fastforce
    with ih(3) Some show ?thesis by simp
  qed (use ih(3) in simp)
  with ih fresh show ?case by auto
qed (auto split: option.splits)

text \<open>
  C9: A workload identity that resolves is bound to its key and its actor chain is sound: at most four
  hops, no subject twice, and no hop claims a scope that any hop before it lacks.
\<close>

theorem delegation_only_shrinks:
  assumes "resolveWorkloadIdentity ie now ident expected = Inr r"
    and "chain = (case arr_of (jget (jfield ident ''delegation'') ''chain'') of None \<Rightarrow> [] | Some xs \<Rightarrow> xs)"
    and "is_object (jfield ident ''delegation'')"
  shows "length chain \<le> 4 \<and> distinct (map hop_subject chain) \<and> sorted_wrt (\<lambda>a b. set b \<subseteq> set a) (map hop_scopes chain)
    \<and> jget (jfield ident ''keyBinding'') ''method'' = Some (JStr ''mtls'') \<and> snd r = ''key-bound''"
proof -
  have d: "delegation_refusal ie now (jfield ident ''delegation'') = None"
    and b: "binding_refusal (jfield ident ''keyBinding'') = None" and "snd r = ''key-bound''"
    using assms(1) by (auto simp: resolveWorkloadIdentity_def Let_def split: if_splits option.splits)
  from d assms(2,3) have "length chain \<le> 4" "walk_chain [] None chain = None"
    by (auto simp: delegation_refusal_def Let_def split: if_splits)
  with chain_accepted [of "[]" None chain] b \<open>snd r = ''key-bound''\<close> show ?thesis
    by (auto simp: binding_refusal_def split: if_splits)
qed

text \<open>
  C10: A bearer the oidc lane accepts carries a signature that a key of the issuer verifies over exactly
  its own first two segments, under a listed algorithm, and its claims name the configured
  issuer and audience, an expiry in the future, and a subject.
\<close>

theorem oidc_bearer_is_verified:
  assumes "verifyOidcBearer ie now token = Inr s"
  shows "\<exists>h c sig header claims keys k issuer n. token = h @ ''.'' @ c @ ''.'' @ sig \<and> decodeSegment h = Some header \<and> decodeSegment c = Some claims
    \<and> ie_oidc_issuer ie = Some issuer \<and> ie_jwks ie = Inr keys \<and> k \<in> set keys
    \<and> text_or_blank (jfield header ''alg'') \<in> set VERIFY_ALG
    \<and> jk_verify k (text_or_blank (jfield header ''alg'')) (h @ ''.'' @ c) (from_base64url sig)
    \<and> strip_slash (text_or_blank (jfield claims ''iss'')) = issuer \<and> jfield claims ''exp'' = Some (JNum n) \<and> int now < n * 1000
    \<and> ie_oidc_audience ie \<in> set (audiences (jfield claims ''aud''))
    \<and> sub_id s = text_or_blank (jfield claims ''sub'') \<and> sub_id s \<noteq> [] \<and> sub_tenant s = ie_tenant ie"
proof -
  obtain issuer where i: "ie_oidc_issuer ie = Some issuer"
    using assms by (auto simp: verifyOidcBearer_def split: option.splits)
  obtain h c sig where parts: "split_on (CHR ''.'') token = [h, c, sig]"
    using assms i by (auto simp: verifyOidcBearer_def split: list.splits)
  have token: "token = h @ ''.'' @ c @ ''.'' @ sig"
    using join_split [of "CHR ''.''" token] by (simp add: parts)
  obtain header claims where dec: "decodeSegment h = Some header" "decodeSegment c = Some claims"
    using assms i parts by (auto simp: verifyOidcBearer_def split: option.splits)
  have alg: "text_or_blank (jfield header ''alg'') \<in> set VERIFY_ALG"
    using assms i parts dec by (auto simp: verifyOidcBearer_def Let_def split: if_splits)
  obtain keys where keys: "ie_jwks ie = Inr keys"
    using assms i parts dec alg by (auto simp: verifyOidcBearer_def Let_def split: sum.splits)
  obtain k where k: "k \<in> set keys" "jk_verify k (text_or_blank (jfield header ''alg'')) (h @ ''.'' @ c) (from_base64url sig)"
    and cl: "claims_verdict ie now issuer claims = Inr s"
    using assms i parts dec alg keys by (auto simp: verifyOidcBearer_def Let_def split: if_splits)
  from cl have iss: "strip_slash (text_or_blank (jfield claims ''iss'')) = issuer"
    and ex: "int now < (case num_of (jfield claims ''exp'') of None \<Rightarrow> 0 | Some n \<Rightarrow> n) * 1000"
    and aud: "ie_oidc_audience ie \<in> set (audiences (jfield claims ''aud''))"
    and sb: "sub_id s = text_or_blank (jfield claims ''sub'')" "sub_id s \<noteq> []" "sub_tenant s = ie_tenant ie"
    unfolding claims_verdict_def by (auto simp: Let_def split: if_splits)
  from ex obtain n where "jfield claims ''exp'' = Some (JNum n)" "int now < n * 1000"
    by (cases "jfield claims ''exp''" rule: num_of.cases) auto
  with token i dec alg keys k iss aud sb show ?thesis by blast
qed

section \<open>Witnesses\<close>

definition demo_identity :: identity_env where
  "demo_identity = \<lparr>ie_sha = (\<lambda>m. m), ie_api_key = ''key'', ie_tenant = ''t'', ie_low_key = None, ie_low_scopes = [],
     ie_tenantB_key = None, ie_tenantB = ''u'', ie_oidc_issuer = Some ''i'', ie_oidc_audience = ''a'',
     ie_jwks = Inr [\<lparr>jk_kid = None, jk_verify = (\<lambda>alg m s. True)\<rparr>], ie_trust_roots = [''spiffe://td''], ie_date = (\<lambda>_. None)\<rparr>"

definition demo_credentials :: "api_credential list" where
  "demo_credentials = [new_credential demo_identity 0 ''default'' ''key'' ''t'', new_credential demo_identity 0 ''b'' ''other'' ''u'']"

lemma revoked_on_next_request_witness:
  "(\<exists>m. authenticate demo_identity 7 (Some ''Bearer key'') (map (revoke_row 5 (cred_hash demo_identity ''key'')) demo_credentials)
      = Inl (refuse ''credential_revoked'' m))
    \<and> authenticate demo_identity 7 (Some ''Bearer other'') (map (revoke_row 5 (cred_hash demo_identity ''key'')) demo_credentials)
      = authenticate demo_identity 7 (Some ''Bearer other'') demo_credentials"
proof -
  have "fst (revokeCredential demo_identity 5 ''key'' demo_credentials)" by code_simp
  then have "revokeCredential demo_identity 5 ''key'' demo_credentials = (True, map (revoke_row 5 (cred_hash demo_identity ''key'')) demo_credentials)"
    by (simp add: revokeCredential_def revokeCredentialRow_def)
  moreover have "bearerOf (Some ''Bearer key'') = Some ''key''" "bearerOf (Some ''Bearer other'') = Some ''other''"
    "\<not> JWT_SHAPE ''key''" "cred_hash demo_identity ''other'' \<noteq> cred_hash demo_identity ''key''"
    by code_simp+
  ultimately show ?thesis using revoked_on_next_request [of demo_identity 5 "''key''"] by blast
qed

definition demo_workload :: json where
  "demo_workload = JObj [(''scheme'', JStr ''spiffe''), (''issuer'', JStr ''spiffe://td''), (''subject'', JStr ''w''),
     (''keyBinding'', JObj [(''method'', JStr ''mtls'')]),
     (''delegation'', JObj [(''chain'', JArr [JObj [(''subject'', JStr ''x''), (''scopes'', JArr [JStr ''p'', JStr ''q''])],
        JObj [(''subject'', JStr ''y''), (''scopes'', JArr [JStr ''q''])]])])]"

lemma delegation_only_shrinks_witness:
  "\<exists>r. resolveWorkloadIdentity demo_identity 0 demo_workload None = Inr r \<and> snd r = ''key-bound''"
proof -
  have "\<not> Option.is_none (case resolveWorkloadIdentity demo_identity 0 demo_workload None of Inl _ \<Rightarrow> None | Inr r \<Rightarrow> Some ())" by code_simp
  then obtain r where r: "resolveWorkloadIdentity demo_identity 0 demo_workload None = Inr r"
    by (cases "resolveWorkloadIdentity demo_identity 0 demo_workload None") auto
  have "is_object (jfield demo_workload ''delegation'')" by code_simp
  from delegation_only_shrinks [OF r refl this] r show ?thesis by auto
qed

definition demo_claims :: json where
  "demo_claims = JObj [(''iss'', JStr ''i''), (''exp'', JNum 9), (''aud'', JStr ''a''), (''sub'', JStr ''s'')]"

definition demo_token :: string where
  "demo_token = base64url (json_stringify (JObj [(''alg'', JStr ''ES256'')])) @ ''.'' @ base64url (json_stringify demo_claims) @ ''.'' @ base64url ''z''"

lemma oidc_bearer_is_verified_witness:
  "\<exists>s k keys. verifyOidcBearer demo_identity 0 demo_token = Inr s \<and> sub_id s \<noteq> [] \<and> sub_tenant s = ''t''
    \<and> ie_jwks demo_identity = Inr keys \<and> k \<in> set keys"
proof -
  have "\<not> Option.is_none (case verifyOidcBearer demo_identity 0 demo_token of Inl _ \<Rightarrow> None | Inr r \<Rightarrow> Some ())" by code_simp
  then obtain s where s: "verifyOidcBearer demo_identity 0 demo_token = Inr s"
    by (cases "verifyOidcBearer demo_identity 0 demo_token") auto
  have "ie_tenant demo_identity = ''t''" by (simp add: demo_identity_def)
  with oidc_bearer_is_verified [OF s] s show ?thesis by auto
qed

section \<open>Two workloads, one principal\<close>

text \<open>
  The principal hashes \<open>issuer|subject\<close>, and an identity is trusted when either field names a root, so
  the boundary between the two can move: two different identities resolve to one principal.
\<close>

lemma workload_principals_collide:
  assumes "root \<in> set (ie_trust_roots ie)" "strip_slash root = root"
  shows "trusted ie root (x @ ''|'' @ root @ ''/'' @ y) \<and> trusted ie (root @ ''|'' @ x) (root @ ''/'' @ y)
    \<and> workload_principal ie root (x @ ''|'' @ root @ ''/'' @ y) = workload_principal ie (root @ ''|'' @ x) (root @ ''/'' @ y)"
proof -
  have "starts_with (strip_slash root @ ''/'') (root @ ''/'' @ y)" by (simp add: starts_with_def assms(2))
  with assms(1) show ?thesis unfolding trusted_def workload_principal_def by auto
qed

end
