(* ===== verification/Router.thy ===== *)
theory Router
  imports Routing Identity Audit_Log Demo
begin

text \<open>
  The front door (\<open>router.ts\<close>): the CORS answers, the contract a request is served under,
  the order of the refusals, the capacity cap, authentication and the scope check, the
  shape of a reply, and Layer-1 idempotency split at the handler's \<open>await\<close>. A handler is
  an argument; the registry's status of an error code and whether the host advertises an
  OAuth lane are fields of the configuration.
\<close>

section \<open>Requests, replies and errors\<close>

record web_request =
  rq_method :: string
  rq_path :: string
  rq_headers :: "(string \<times> string) list"
  rq_remote :: "string option"

record reply =
  rp_status :: nat
  rp_body :: "json option"
  rp_raw :: "string option"
  rp_type :: "string option"
  rp_headers :: "(string \<times> string) list"

text \<open>An exception with the headers its \<open>HostError\<close> carries.\<close>

datatype web_error = WebError (we_exn: exn) (we_headers: "(string \<times> string) list")

definition web_err :: "string \<Rightarrow> string \<Rightarrow> json option \<Rightarrow> web_error" where
  "web_err code m ds = WebError (HostError code m ds) []"

datatype contract = Contract nat | Both

record route =
  rt_method :: string
  rt_path :: string
  rt_auth :: bool
  rt_contract :: contract
  rt_scope :: "string option"

datatype cors_policy = Reflect | CorsOff | Origins "string list"

record router_cfg =
  rc_v1_retired :: bool
  rc_preferred :: string
  rc_cors :: cors_policy
  rc_rate :: nat
  rc_cap :: "nat option"
  rc_retry_seconds :: nat
  rc_status :: "string \<Rightarrow> nat"
  rc_oauth_bound :: bool
  rc_jsonrpc :: "string list"
  rc_audit :: bool

definition V1_VERSION :: string where "V1_VERSION = ''1.11''"
definition V2_VERSION :: string where "V2_VERSION = ''2.0''"
definition MIN_CLIENT_VERSION :: string where "MIN_CLIENT_VERSION = ''1.0''"

definition SERVED_VERSIONS :: "router_cfg \<Rightarrow> string list" where
  "SERVED_VERSIONS cfg = (if rc_v1_retired cfg then [V2_VERSION] else [V1_VERSION, V2_VERSION])"

definition major_of :: "string \<Rightarrow> nat" where
  "major_of v = decimal_value (takeWhile (\<lambda>c. c \<noteq> CHR ''.'') v)"

definition rq_header :: "web_request \<Rightarrow> string \<Rightarrow> string option" where
  "rq_header rq name = map_of (rq_headers rq) name"

text \<open>\<open>None\<close> is the error that keeps the host from booting.\<close>

definition route :: "string \<Rightarrow> string \<Rightarrow> bool \<Rightarrow> contract option \<Rightarrow> route option" where
  "route meth pattern auth con =
     (let mk = (\<lambda>scope. Some \<lparr>rt_method = meth, rt_path = pattern, rt_auth = auth,
            rt_contract = (case con of None \<Rightarrow> Contract 2 | Some c \<Rightarrow> c), rt_scope = scope\<rparr>)
      in if auth then (case scopeForRoute meth pattern of None \<Rightarrow> None | Some sc \<Rightarrow> mk sc) else mk None)"

section \<open>CORS\<close>

definition grantedOrigin :: "router_cfg \<Rightarrow> web_request \<Rightarrow> string option" where
  "grantedOrigin cfg rq = (case rq_header rq ''origin'' of None \<Rightarrow> None
     | Some origin \<Rightarrow> if origin = [] \<or> origin = ''null'' then None
         else (case rc_cors cfg of CorsOff \<Rightarrow> None | Reflect \<Rightarrow> Some origin
           | Origins os \<Rightarrow> if origin \<in> set os then Some origin else None))"

definition upper_ascii :: "char \<Rightarrow> char" where
  "upper_ascii c = (let n = (of_char c :: nat) in if 97 \<le> n \<and> n \<le> 122 then char_of (n - 32) else c)"

definition method_of :: "string \<Rightarrow> string" where
  "method_of s = map upper_ascii s"

definition preflight :: "router_cfg \<Rightarrow> route list \<Rightarrow> web_request \<Rightarrow> reply option" where
  "preflight cfg rs rq =
     (case rq_header rq ''access-control-request-method'' of None \<Rightarrow> None
      | Some requested \<Rightarrow>
        if method_of (rq_method rq) \<noteq> ''OPTIONS'' \<or> requested = [] then None
        else let meth = method_of requested;
                 served = (\<exists>r \<in> set rs. rt_method r = meth \<and> match_path (parse_pattern (rt_path r)) (rq_path rq) \<noteq> None);
                 vary = [(''Vary'', ''Origin, Access-Control-Request-Method, Access-Control-Request-Headers'')];
                 granted = (case grantedOrigin cfg rq of None \<Rightarrow> [] | Some origin \<Rightarrow> if \<not> served then [] else
                   [(''Access-Control-Allow-Origin'', origin), (''Access-Control-Allow-Methods'', meth)]
                   @ (case rq_header rq ''access-control-request-headers'' of None \<Rightarrow> []
                      | Some asked \<Rightarrow> if js_trim asked \<noteq> [] then [(''Access-Control-Allow-Headers'', asked)] else [])
                   @ [(''Access-Control-Max-Age'', ''600'')])
        in Some \<lparr>rp_status = (if served then 204 else 404), rp_body = None, rp_raw = None, rp_type = None, rp_headers = vary @ granted\<rparr>)"

section \<open>The contract of a request\<close>

definition is_v1_path :: "string \<Rightarrow> bool" where
  "is_v1_path path \<longleftrightarrow> path = ''/v1'' \<or> starts_with ''/v1/'' path"

definition WELL_KNOWN :: string where "WELL_KNOWN = ''/.well-known/openwop''"

definition served_major :: "router_cfg \<Rightarrow> web_request \<Rightarrow> nat" where
  "served_major cfg rq =
     (case versionMajor (rq_header rq ''openwop-version'') of (requested, malformed) \<Rightarrow>
        if rc_v1_retired cfg then 2
        else if is_v1_path (rq_path rq) then 1
        else if requested = Some 2 then 2
        else if requested = Some 1 then 1
        else if requested = None \<and> \<not> malformed
        then (if rq_path rq = WELL_KNOWN then (if major_of (rc_preferred cfg) = 2 then 2 else 1) else 2)
        else 2)"

definition version_refusal :: "router_cfg \<Rightarrow> web_request \<Rightarrow> web_error option" where
  "version_refusal cfg rq =
     (case versionMajor (rq_header rq ''openwop-version'') of (requested, malformed) \<Rightarrow>
        let v1 = is_v1_path (rq_path rq); req = (case requested of None \<Rightarrow> 0 | Some m \<Rightarrow> m) in
        if malformed then Some (web_err ''validation_error'' ''OpenWOP-Version MUST be <major> or <major>.<minor>''
          (Some (JObj [(''header'', JStr ''OpenWOP-Version'')])))
        else if \<not> rc_v1_retired cfg \<and> v1 \<and> requested \<noteq> None \<and> requested \<noteq> Some 1
        then Some (web_err ''protocol_version_mismatch'' ''a /v1/ path key MUST NOT carry OpenWOP-Version with a value other than 1''
          (Some (JObj [(''requested'', JNum (int req)), (''path'', JStr ''/v1/'')])))
        else if (\<not> v1 \<or> rc_v1_retired cfg) \<and> requested \<noteq> None \<and> req \<notin> set (map major_of (SERVED_VERSIONS cfg))
        then Some (web_err ''protocol_version_unsupported'' (''major '' @ nat_string req @ '' is not served by this host'')
          (Some (JObj [(''protocolVersions'', JArr (map JStr (SERVED_VERSIONS cfg)))])))
        else None)"

definition client_refusal :: "web_request \<Rightarrow> web_error option" where
  "client_refusal rq = (case rq_header rq ''openwop-client-version'' of None \<Rightarrow> None
     | Some client \<Rightarrow> (case client_version client of None \<Rightarrow> None
         | Some v \<Rightarrow> if versionLt v (the (client_version MIN_CLIENT_VERSION))
             then Some (web_err ''client_version_unsupported''
               (''the client announced '' @ js_trim client @ '', below minClientVersion '' @ MIN_CLIENT_VERSION)
               (Some (JObj [(''minClientVersion'', JStr MIN_CLIENT_VERSION)])))
             else None))"

section \<open>Admission\<close>

record router_state =
  rs_buckets :: "(string \<times> bucket) list"
  rs_inflight :: nat

record admitted =
  ad_route :: route
  ad_params :: "(string \<times> string) list"
  ad_major :: nat
  ad_authed :: "authed option"

definition bucket_key :: "web_request \<Rightarrow> string" where
  "bucket_key rq = (case rq_header rq ''authorization'' of Some a \<Rightarrow> a
     | None \<Rightarrow> (case rq_remote rq of Some a \<Rightarrow> a | None \<Rightarrow> ''anon''))"

definition bucketFor :: "router_cfg \<Rightarrow> nat \<Rightarrow> string \<Rightarrow> router_state \<Rightarrow> bucket" where
  "bucketFor cfg now key st = (case map_of (rs_buckets st) key of Some b \<Rightarrow> b | None \<Rightarrow> new_bucket (rc_rate cfg) now)"

definition take_for :: "router_cfg \<Rightarrow> nat \<Rightarrow> web_request \<Rightarrow> router_state \<Rightarrow> web_error option \<times> router_state" where
  "take_for cfg now rq st =
     (case take_token (rc_rate cfg) now (bucketFor cfg now (bucket_key rq) st) of (r, b) \<Rightarrow>
        (map_option (\<lambda>s. WebError (HostError ''rate_limited'' ''too many requests'' None) [(''Retry-After'', nat_string s)]) r,
         st\<lparr>rs_buckets := AList.update (bucket_key rq) b (rs_buckets st)\<rparr>))"

definition serves :: "nat \<Rightarrow> string \<Rightarrow> route \<Rightarrow> bool" where
  "serves major meth r \<longleftrightarrow> rt_method r = meth \<and> (rt_contract r = Both \<or> rt_contract r = Contract major)"

definition route_matches :: "web_request \<Rightarrow> route \<Rightarrow> bool" where
  "route_matches rq r \<longleftrightarrow> match_path (parse_pattern (rt_path r)) (rq_path rq) \<noteq> None"

text \<open>\<open>decodeURIComponent\<close> throws a \<open>URIError\<close>; the projection throws its own refusal.\<close>

definition decode_param :: "string \<times> string \<Rightarrow> web_error + string \<times> string" where
  "decode_param p = (case decodeURIComponent (snd p) of
       None \<Rightarrow> Inl (WebError (JsError ''URI malformed'') [])
     | Some v \<Rightarrow> if fst p \<in> set TENANT_BOUND_PARAMS
         then (case unprojectBoundId v of Inl e \<Rightarrow> Inl (WebError e []) | Inr x \<Rightarrow> Inr (fst p, x))
         else Inr (fst p, v))"

definition find_route :: "route list \<Rightarrow> nat \<Rightarrow> web_request \<Rightarrow> web_error + route \<times> (string \<times> string) list" where
  "find_route rs major rq =
     (let meth = method_of (rq_method rq); path = rq_path rq in
      case find (\<lambda>r. route_matches rq r \<and> serves major meth r) rs of
        Some r \<Rightarrow> map_sum id (Pair r) (results (map decode_param (the (match_path (parse_pattern (rt_path r)) path))))
      | None \<Rightarrow>
        if \<not> is_v1_path path \<and> major = 1 \<and> path \<noteq> WELL_KNOWN
        then Inl (web_err ''not_found'' ''v1 operations keep their /v1/ path keys through the overlap; unversioned keys are the v2 surface'' None)
        else Inl (web_err ''not_found'' (if \<exists>r \<in> set rs. route_matches rq r then meth @ '' is not served at '' @ path
               else ''no operation at '' @ path) None))"

text \<open>A slot is taken by every authenticated operation, and given back when its response closes.\<close>

definition take_slot :: "router_cfg \<Rightarrow> route \<Rightarrow> router_state \<Rightarrow> web_error option \<times> router_state" where
  "take_slot cfg r st = (case rc_cap cfg of None \<Rightarrow> (None, st)
     | Some cap \<Rightarrow> if \<not> rt_auth r then (None, st)
         else if rs_inflight st \<ge> cap
         then (Some (WebError (HostError ''service_unavailable'' ''the host is at capacity'' None) [(''Retry-After'', nat_string (rc_retry_seconds cfg))]), st)
         else (None, st\<lparr>rs_inflight := rs_inflight st + 1\<rparr>))"

definition close_response :: "router_cfg \<Rightarrow> route \<Rightarrow> router_state \<Rightarrow> router_state" where
  "close_response cfg r st = (if rc_cap cfg \<noteq> None \<and> rt_auth r then st\<lparr>rs_inflight := rs_inflight st - 1\<rparr> else st)"

definition check_caller :: "identity_env \<Rightarrow> nat \<Rightarrow> api_credential list \<Rightarrow> web_request \<Rightarrow> route \<Rightarrow> web_error + authed option" where
  "check_caller ie now creds rq r =
     (if \<not> rt_auth r then Inr None
      else case authenticate ie now (rq_header rq ''authorization'') creds of
          Inl e \<Rightarrow> Inl (WebError e [])
        | Inr a \<Rightarrow> (case rt_scope r of None \<Rightarrow> Inr (Some a)
            | Some sc \<Rightarrow> if sc \<in> au_scopes a then Inr (Some a)
                else Inl (web_err ''forbidden'' (''the credential does not hold '' @ sc) (Some (JObj [(''scopeRequired'', JStr sc)])))))"

text \<open>Everything before the handler, in the code's order.\<close>

definition admit :: "router_cfg \<Rightarrow> identity_env \<Rightarrow> route list \<Rightarrow> nat \<Rightarrow> api_credential list \<Rightarrow> web_request \<Rightarrow> router_state
    \<Rightarrow> (web_error + admitted) \<times> router_state" where
  "admit cfg ie rs now creds rq st =
     (case version_refusal cfg rq of Some e \<Rightarrow> (Inl e, st)
      | None \<Rightarrow> (case client_refusal rq of Some e \<Rightarrow> (Inl e, st)
      | None \<Rightarrow> (case take_for cfg now rq st of (Some e, st1) \<Rightarrow> (Inl e, st1)
      | (None, st1) \<Rightarrow> (case find_route rs (served_major cfg rq) rq of Inl e \<Rightarrow> (Inl e, st1)
      | Inr (r, params) \<Rightarrow> (case take_slot cfg r st1 of (Some e, st2) \<Rightarrow> (Inl e, st2)
      | (None, st2) \<Rightarrow> (case check_caller ie now creds rq r of Inl e \<Rightarrow> (Inl e, st2)
      | Inr a \<Rightarrow> (Inr \<lparr>ad_route = r, ad_params = params, ad_major = served_major cfg rq, ad_authed = a\<rparr>, st2)))))))"

section \<open>Replies\<close>

definition envelopeAsJsonRpc :: "nat \<Rightarrow> string \<Rightarrow> string \<Rightarrow> json" where
  "envelopeAsJsonRpc status code m =
     JObj [(''jsonrpc'', JStr ''2.0''), (''id'', JNull), (''error'', JObj [
       (''code'', JNum (if status \<ge> 500 then -32603 else if status = 404 then -32601 else -32600)), (''message'', JStr m),
       (''data'', JArr [JObj [(''@type'', JStr ''type.googleapis.com/google.rpc.ErrorInfo''), (''reason'', JStr (method_of code)),
          (''domain'', JStr ''openwop.dev'')]])])]"

definition error_body :: "exn \<Rightarrow> json" where
  "error_body e = (case e of
     HostError c m ds \<Rightarrow> jobj [(''error'', Some (JStr c)), (''message'', Some (JStr m)), (''details'', ds)]
   | _ \<Rightarrow> JObj [(''error'', JStr ''internal_error''), (''message'', JStr ''the host failed to serve the request'')])"

definition error_reply :: "router_cfg \<Rightarrow> web_error \<Rightarrow> reply" where
  "error_reply cfg we = (case we_exn we of
     HostError c m ds \<Rightarrow> \<lparr>rp_status = rc_status cfg c, rp_body = Some (error_body (we_exn we)), rp_raw = None, rp_type = None, rp_headers = we_headers we\<rparr>
   | _ \<Rightarrow> \<lparr>rp_status = 500, rp_body = Some (error_body (we_exn we)), rp_raw = None, rp_type = None, rp_headers = []\<rparr>)"

definition base_headers :: "router_cfg \<Rightarrow> web_request \<Rightarrow> (string \<times> string) list" where
  "base_headers cfg rq = (''OpenWOP-Version'', if served_major cfg rq = 1 then V1_VERSION else V2_VERSION)
     # (case grantedOrigin cfg rq of None \<Rightarrow> [] | Some origin \<Rightarrow> [(''Access-Control-Allow-Origin'', origin), (''Vary'', ''Origin'')])"

definition merged_headers :: "(string \<times> string) list \<Rightarrow> (string \<times> string) list \<Rightarrow> (string \<times> string) list" where
  "merged_headers base own =
     (let hs = fold (\<lambda>(k, v) m. AList.update k v m) own base
      in case (map_of base ''Vary'', map_of own ''Vary'') of
           (Some b, Some o') \<Rightarrow> AList.update ''Vary'' (o' @ '', '' @ b) hs | _ \<Rightarrow> hs)"

definition body_code :: "json option \<Rightarrow> string" where
  "body_code v = text_of (jget v ''error'')"

text \<open>What \<open>send\<close> writes: the status is the reply's own, whatever is added to it.\<close>

definition send_reply :: "router_cfg \<Rightarrow> web_request \<Rightarrow> string \<Rightarrow> string option \<Rightarrow> reply \<Rightarrow> reply" where
  "send_reply cfg rq baseUrl scopeRequired rp =
     (let hs = merged_headers (base_headers cfg rq) (rp_headers rp);
          hs1 = (if (rp_status rp = 401 \<or> rp_status rp = 403) \<and> map_of hs ''WWW-Authenticate'' = None
            then (case challengeFor (rc_oauth_bound cfg) baseUrl (rp_status rp) (body_code (rp_body rp)) scopeRequired
                     (bearerOf (rq_header rq ''authorization'') \<noteq> None) of
                    None \<Rightarrow> hs | Some c \<Rightarrow> AList.update ''WWW-Authenticate'' c hs)
            else hs)
      in if rp_raw rp \<noteq> None
         then rp\<lparr>rp_headers := AList.update ''Content-Type'' (case rp_type rp of None \<Rightarrow> ''application/octet-stream'' | Some t \<Rightarrow> t) hs1\<rparr>
         else case rp_body rp of None \<Rightarrow> rp\<lparr>rp_headers := hs1\<rparr>
           | Some b \<Rightarrow> rp\<lparr>rp_headers := AList.update ''Content-Type'' ''application/json; charset=utf-8'' hs1,
               rp_body := Some (if rq_path rq \<in> set (rc_jsonrpc cfg) \<and> is_str (jfield b ''error'') \<and> is_str (jfield b ''message'')
                 then envelopeAsJsonRpc (rp_status rp) (text_of (jfield b ''error'')) (text_of (jfield b ''message'')) else b)\<rparr>)"

text \<open>Every successful authenticated write that is not a seam is an audit entry.\<close>

definition audit_entry_for :: "router_cfg \<Rightarrow> web_request \<Rightarrow> admitted \<Rightarrow> reply \<Rightarrow> audit_input option" where
  "audit_entry_for cfg rq a rp =
     (case ad_authed a of None \<Rightarrow> None
      | Some au \<Rightarrow>
        if rc_audit cfg \<and> method_of (rq_method rq) \<noteq> ''GET'' \<and> rp_status rp < 300 \<and> \<not> starts_with ''/conformance/'' (rt_path (ad_route a))
        then Some \<lparr>ai_actor = principalRef (au_subject au), ai_action = method_of (rq_method rq) @ '' '' @ rt_path (ad_route a),
               ai_target = rq_path rq,
               ai_details = JObj [(''tenant'', JStr (sub_tenant (au_subject au))), (''status'', JNum (int (rp_status rp)))]\<rparr>
        else None)"

section \<open>Layer-1 idempotency\<close>

record idem_call =
  ic_tenant :: string
  ic_endpoint :: string
  ic_key :: string
  ic_digest :: string

datatype idem_start = Unkeyed | Refused web_error | Replayed reply | Claimed idem_call

definition idem_digest :: "host \<Rightarrow> string \<Rightarrow> string" where
  "idem_digest h s = hex_of (h_sha256 h s)"

definition idem_begin :: "host \<Rightarrow> subject option \<Rightarrow> string option \<Rightarrow> string \<Rightarrow> string \<Rightarrow> 'a store_scheme \<Rightarrow> idem_start \<times> 'a store_scheme" where
  "idem_begin h sb key endpoint digestInput s =
     (case key of None \<Rightarrow> (Unkeyed, s)
      | Some k \<Rightarrow>
        if \<not> IDEMPOTENCY_KEY k
        then (Refused (web_err ''idempotency_key_invalid'' ''Idempotency-Key MUST match ^[A-Za-z0-9._~-]{22,128}$'' None), s)
        else case sb of None \<Rightarrow> (Unkeyed, s)
        | Some subj \<Rightarrow>
          (let ten = sub_tenant subj; digest = idem_digest h digestInput in
           case getIdempotency ten endpoint k s of
             Some row \<Rightarrow>
               if d_digest row \<noteq> digest
               then (Refused (web_err ''idempotency_key_mismatch'' ''a different request digest was presented under the same Idempotency-Key'' None), s)
               else (case d_status row of
                 None \<Rightarrow> (Refused (WebError (HostError ''idempotency_in_flight'' ''a request under this Idempotency-Key is still in flight'' None)
                   [(''Retry-After'', ''1'')]), s)
               | Some st \<Rightarrow> (Replayed \<lparr>rp_status = st, rp_body = d_body row, rp_raw = None, rp_type = None,
                   rp_headers = AList.update ''OpenWOP-Idempotent-Replay'' ''true'' (d_headers row)\<rparr>, s))
           | None \<Rightarrow>
               (case claimIdempotency ten endpoint k digest s of
                  (False, s1) \<Rightarrow> (Refused (WebError (HostError ''idempotency_in_flight'' ''a concurrent request under this Idempotency-Key is in flight'' None)
                    [(''Retry-After'', ''1'')]), s1)
                | (True, s1) \<Rightarrow> (Claimed \<lparr>ic_tenant = ten, ic_endpoint = endpoint, ic_key = k, ic_digest = digest\<rparr>, s1))))"

definition final_error :: "router_cfg \<Rightarrow> exn \<Rightarrow> bool" where
  "final_error cfg e = (case e of
     HostError c m ds \<Rightarrow> (rc_status cfg c < 500 \<and> rc_status cfg c \<notin> {429, 400, 401, 403}) \<or> c = ''webhook_endpoint_unverified''
   | _ \<Rightarrow> False)"

definition final_reply :: "reply \<Rightarrow> bool" where
  "final_reply rp \<longleftrightarrow> rp_status rp < 500 \<and> rp_status rp \<noteq> 429 \<and> rp_raw rp = None"

text \<open>After the handler: the outcome is cached or the claim released. The cached body of no body is \<open>null\<close>.\<close>

definition idem_settle :: "router_cfg \<Rightarrow> idem_call \<Rightarrow> web_error + reply \<Rightarrow> 'a store_scheme \<Rightarrow> 'a store_scheme" where
  "idem_settle cfg c res s =
     (case res of
        Inl we \<Rightarrow> if final_error cfg (we_exn we)
          then completeIdempotency (ic_tenant c) (ic_endpoint c) (ic_key c) (rp_status (error_reply cfg we)) (we_headers we)
                 (Some (error_body (we_exn we))) s
          else releaseIdempotency (ic_tenant c) (ic_endpoint c) (ic_key c) s
      | Inr rp \<Rightarrow> if final_reply rp
          then completeIdempotency (ic_tenant c) (ic_endpoint c) (ic_key c) (rp_status rp) (rp_headers rp) (Some (or_null (rp_body rp))) s
          else releaseIdempotency (ic_tenant c) (ic_endpoint c) (ic_key c) s)"

text \<open>The armed holds of the witness seam (\<open>idempotency-hold.ts\<close>).\<close>

definition ARM_TTL_MS :: nat where "ARM_TTL_MS = 60000"

definition armHold :: "nat \<Rightarrow> string \<Rightarrow> string \<Rightarrow> nat \<Rightarrow> ((string \<times> string) \<times> nat \<times> nat) list \<Rightarrow> ((string \<times> string) \<times> nat \<times> nat) list" where
  "armHold now ten key ms holds = AList.update (ten, key) (ms, now + ARM_TTL_MS) holds"

definition consumeHold :: "nat \<Rightarrow> string \<Rightarrow> string \<Rightarrow> ((string \<times> string) \<times> nat \<times> nat) list \<Rightarrow> nat \<times> ((string \<times> string) \<times> nat \<times> nat) list" where
  "consumeHold now ten key holds = (case map_of holds (ten, key) of None \<Rightarrow> (0, holds)
     | Some (ms, expires) \<Rightarrow> ((if expires \<ge> now then ms else 0), AList.delete (ten, key) holds))"

end
