(* ===== verification/Admission.thy ===== *)
theory Admission
  imports Router
begin

text \<open>
  What the front door guarantees: a handler runs only for an admitted request, whose caller
  holds the scope the route needs, and the cap on requests in flight holds under every
  interleaving of arriving requests and closing responses.
\<close>

section \<open>What admission has checked\<close>

lemma find_route_Inr:
  assumes "find_route rs major rq = Inr (r, ps)"
  shows "r \<in> set rs" "route_matches rq r" "serves major (method_of (rq_method rq)) r"
    "results (map decode_param (the (match_path (parse_pattern (rt_path r)) (rq_path rq)))) = Inr ps"
proof -
  let ?P = "\<lambda>r. route_matches rq r \<and> serves major (method_of (rq_method rq)) r"
  obtain r' where f: "find ?P rs = Some r'"
    using assms by (auto simp: find_route_def Let_def split: option.splits if_splits)
  then have "map_sum id (Pair r') (results (map decode_param (the (match_path (parse_pattern (rt_path r')) (rq_path rq))))) = Inr (r, ps)"
    using assms by (simp add: find_route_def Let_def)
  then have "r' = r" "results (map decode_param (the (match_path (parse_pattern (rt_path r)) (rq_path rq)))) = Inr ps"
    by (auto simp: map_sum_def split: sum.splits)
  moreover have "r' \<in> set rs" "?P r'" using f by (auto simp: find_Some_iff)
  ultimately show "r \<in> set rs" "route_matches rq r" "serves major (method_of (rq_method rq)) r"
    "results (map decode_param (the (match_path (parse_pattern (rt_path r)) (rq_path rq)))) = Inr ps"
    by simp_all
qed

lemma check_caller_Inr:
  assumes "check_caller ie now creds rq r = Inr a"
  shows "if rt_auth r then (\<exists>au. authenticate ie now (rq_header rq ''authorization'') creds = Inr au \<and> a = Some au
      \<and> (\<forall>sc. rt_scope r = Some sc \<longrightarrow> sc \<in> au_scopes au)) else a = None"
  using assms by (auto simp: check_caller_def split: if_splits sum.splits option.splits)

lemma admit_Inr:
  assumes "admit cfg ie rs now creds rq st = (Inr a, st')"
  obtains st1 where "version_refusal cfg rq = None" "client_refusal rq = None" "take_for cfg now rq st = (None, st1)"
    "find_route rs (served_major cfg rq) rq = Inr (ad_route a, ad_params a)" "take_slot cfg (ad_route a) st1 = (None, st')"
    "check_caller ie now creds rq (ad_route a) = Inr (ad_authed a)" "ad_major a = served_major cfg rq"
proof -
  have v: "version_refusal cfg rq = None" and c: "client_refusal rq = None"
    using assms by (auto simp: admit_def split: option.splits)
  obtain st1 where t: "take_for cfg now rq st = (None, st1)"
    using assms v c by (auto simp: admit_def split: prod.splits option.splits)
  obtain r ps where f: "find_route rs (served_major cfg rq) rq = Inr (r, ps)"
    using assms v c t by (auto simp: admit_def split: sum.splits)
  obtain st2 where s: "take_slot cfg r st1 = (None, st2)"
    using assms v c t f by (auto simp: admit_def split: prod.splits option.splits)
  show ?thesis
    using assms v c t f s by (intro that [of st1]) (auto simp: admit_def split: sum.splits)
qed

lemma route_scope:
  assumes "route meth pattern auth con = Some r"
  shows "rt_method r = meth \<and> rt_path r = pattern \<and> rt_auth r = auth
    \<and> (auth \<longrightarrow> (case map_of SCOPE_BY_ROUTE (meth @ '' '' @ pattern) of Some s \<Rightarrow> rt_scope r = Some s | None \<Rightarrow> scope_exempt pattern))"
  using assms
  by (cases "map_of SCOPE_BY_ROUTE (meth @ '' '' @ pattern)"; cases con)
     (auto simp: route_def Let_def scopeForRoute_def split: if_splits)

text \<open>The bucket of the caller, and that its token was there to take.\<close>

lemma take_for_None:
  "take_for cfg now rq st = (None, st1) \<Longrightarrow> fst (take_token (rc_rate cfg) now (bucketFor cfg now (bucket_key rq) st)) = None"
  by (auto simp: take_for_def split: prod.splits)

text \<open>
  C11: A handler runs only after every check: the request's route is one of the table, matches the path and
  serves the method under the contract the reply names; the caller had a token in its bucket;
  and where the route is authenticated, the credential presented resolves and either the
  route is exempt or its scope in \<open>SCOPE_BY_ROUTE\<close> is held.
\<close>

theorem handler_is_authorised:
  assumes "admit cfg ie rs now creds rq st = (Inr a, st')"
    and "\<forall>r \<in> set rs. \<exists>meth pattern auth con. route meth pattern auth con = Some r"
  shows "ad_route a \<in> set rs \<and> route_matches rq (ad_route a)
    \<and> serves (served_major cfg rq) (method_of (rq_method rq)) (ad_route a)
    \<and> fst (take_token (rc_rate cfg) now (bucketFor cfg now (bucket_key rq) st)) = None
    \<and> (if rt_auth (ad_route a)
       then (\<exists>au. authenticate ie now (rq_header rq ''authorization'') creds = Inr au \<and> ad_authed a = Some au
         \<and> (case map_of SCOPE_BY_ROUTE (rt_method (ad_route a) @ '' '' @ rt_path (ad_route a)) of
              Some sc \<Rightarrow> sc \<in> au_scopes au | None \<Rightarrow> scope_exempt (rt_path (ad_route a))))
       else ad_authed a = None)"
proof -
  obtain st1 where t: "take_for cfg now rq st = (None, st1)"
    and f: "find_route rs (served_major cfg rq) rq = Inr (ad_route a, ad_params a)"
    and c: "check_caller ie now creds rq (ad_route a) = Inr (ad_authed a)"
    by (rule admit_Inr [OF assms(1)])
  note found = find_route_Inr [OF f]
  obtain meth pattern auth con where "route meth pattern auth con = Some (ad_route a)" using assms(2) found(1) by blast
  note sc = route_scope [OF this]
  have "case map_of SCOPE_BY_ROUTE (rt_method (ad_route a) @ '' '' @ rt_path (ad_route a)) of
      Some s \<Rightarrow> s \<in> au_scopes au | None \<Rightarrow> scope_exempt (rt_path (ad_route a))"
    if "rt_auth (ad_route a)" "\<forall>s. rt_scope (ad_route a) = Some s \<longrightarrow> s \<in> au_scopes au" for au
    using sc that by (auto split: option.splits)
  with check_caller_Inr [OF c] have
    "if rt_auth (ad_route a)
     then (\<exists>au. authenticate ie now (rq_header rq ''authorization'') creds = Inr au \<and> ad_authed a = Some au
       \<and> (case map_of SCOPE_BY_ROUTE (rt_method (ad_route a) @ '' '' @ rt_path (ad_route a)) of
            Some sc \<Rightarrow> sc \<in> au_scopes au | None \<Rightarrow> scope_exempt (rt_path (ad_route a))))
     else ad_authed a = None"
    by (auto split: if_splits)
  with found take_for_None [OF t] show ?thesis by blast
qed

section \<open>The capacity cap\<close>

text \<open>
  Requests arrive and responses close in any order. \<open>open\<close> holds the responses that
  registered the listener giving a slot back; node fires \<open>close\<close> once for each.
\<close>

inductive door :: "router_cfg \<Rightarrow> identity_env \<Rightarrow> route list \<Rightarrow> router_state \<times> nat set \<Rightarrow> router_state \<times> nat set \<Rightarrow> bool"
  for cfg :: router_cfg and ie :: identity_env and rs :: "route list" where
  arrives: "admit cfg ie rs now creds rq st = (res, st') \<Longrightarrow> i \<notin> opened
    \<Longrightarrow> door cfg ie rs (st, opened) (st', if rs_inflight st < rs_inflight st' then insert i opened else opened)"
| closes: "i \<in> opened \<Longrightarrow> rt_auth r \<Longrightarrow> rc_cap cfg \<noteq> None \<Longrightarrow> door cfg ie rs (st, opened) (close_response cfg r st, opened - {i})"

inductive_cases doorE: "door cfg ie rs s s'"

definition booted :: router_state where
  "booted = \<lparr>rs_buckets = [], rs_inflight = 0\<rparr>"

lemma take_for_inflight: "rs_inflight (snd (take_for cfg now rq st)) = rs_inflight st"
  by (simp add: take_for_def split: prod.splits)

lemma take_slot_inflight:
  "rs_inflight (snd (take_slot cfg r st)) = rs_inflight st \<or>
   (rs_inflight (snd (take_slot cfg r st)) = Suc (rs_inflight st) \<and> (\<exists>cap. rc_cap cfg = Some cap \<and> rs_inflight st < cap))"
  by (auto simp: take_slot_def split: option.splits)

lemma admit_inflight:
  assumes "admit cfg ie rs now creds rq st = (res, st')"
  shows "rs_inflight st' = rs_inflight st \<or>
    (rs_inflight st' = Suc (rs_inflight st) \<and> (\<exists>cap. rc_cap cfg = Some cap \<and> rs_inflight st < cap))"
proof (cases "version_refusal cfg rq")
  case None
  show ?thesis
  proof (cases "client_refusal rq")
    case c: None
    obtain e st1 where t: "take_for cfg now rq st = (e, st1)" by force
    with take_for_inflight [of cfg now rq st] have i: "rs_inflight st1 = rs_inflight st" by simp
    show ?thesis
    proof (cases e)
      case e: None
      show ?thesis
      proof (cases "find_route rs (served_major cfg rq) rq")
        case (Inr p)
        obtain r ps where p: "p = (r, ps)" by force
        have "st' = snd (take_slot cfg r st1)"
          using assms None c t e Inr p by (auto simp: admit_def split: prod.splits option.splits sum.splits)
        with take_slot_inflight [of cfg r st1] i show ?thesis by simp
      qed (use assms None c t e i in \<open>simp add: admit_def\<close>)
    qed (use assms None c t i in \<open>simp add: admit_def\<close>)
  qed (use assms None in \<open>simp add: admit_def\<close>)
qed (use assms in \<open>simp add: admit_def\<close>)

definition slots_ok :: "router_cfg \<Rightarrow> router_state \<times> nat set \<Rightarrow> bool" where
  "slots_ok cfg s \<longleftrightarrow> finite (snd s) \<and> rs_inflight (fst s) = card (snd s) \<and> (\<forall>cap. rc_cap cfg = Some cap \<longrightarrow> card (snd s) \<le> cap)"

lemma door_keeps_slots:
  assumes "door cfg ie rs s s'" "slots_ok cfg s"
  shows "slots_ok cfg s'"
  using assms(1)
proof cases
  case (arrives now creds rq st res st' i opened)
  with admit_inflight [OF arrives(3)] assms(2) show ?thesis by (auto simp: slots_ok_def)
next
  case (closes i opened r st)
  with assms(2) have "finite opened" "rs_inflight st = card opened" by (simp_all add: slots_ok_def)
  moreover have "card (opened - {i}) = card opened - 1" using closes calculation by simp
  ultimately show ?thesis using closes assms(2) by (auto simp: slots_ok_def close_response_def)
qed

lemma doors_keep_slots: "(door cfg ie rs)\<^sup>*\<^sup>* s s' \<Longrightarrow> slots_ok cfg s \<Longrightarrow> slots_ok cfg s'"
  by (induction rule: rtranclp_induct) (auto intro: door_keeps_slots)

text \<open>
  The cap: however requests and closing responses interleave, the counter is the number
  of open responses that hold a slot and never exceeds the configured cap; a request that would
  pass every check before it is refused with \<open>service_unavailable\<close> exactly when the cap is
  reached.
\<close>

theorem capacity_is_kept:
  assumes "(door cfg ie rs)\<^sup>*\<^sup>* (booted, {}) (st, opened)" "rc_cap cfg = Some cap" "rt_auth r"
  shows "rs_inflight st = card opened \<and> card opened \<le> cap
    \<and> (fst (take_slot cfg r st) \<noteq> None \<longleftrightarrow> card opened = cap)"
proof -
  have "slots_ok cfg (booted, {})" by (simp add: slots_ok_def booted_def)
  with doors_keep_slots [OF assms(1)] have "slots_ok cfg (st, opened)" by blast
  with assms(2,3) show ?thesis by (auto simp: slots_ok_def take_slot_def)
qed

section \<open>A front door with one route\<close>

definition demo_router :: router_cfg where
  "demo_router = \<lparr>rc_v1_retired = False, rc_preferred = ''2.0'', rc_cors = CorsOff, rc_rate = 60, rc_cap = Some 1,
     rc_retry_seconds = 5, rc_status = (\<lambda>c. 409), rc_oauth_bound = False, rc_jsonrpc = [], rc_audit = False\<rparr>"

definition demo_route :: route where
  "demo_route = \<lparr>rt_method = ''GET'', rt_path = ''/runs'', rt_auth = True, rt_contract = Contract 2, rt_scope = Some ''runs:read''\<rparr>"

definition demo_get :: web_request where
  "demo_get = \<lparr>rq_method = ''get'', rq_path = ''/runs'', rq_headers = [(''authorization'', ''Bearer key'')], rq_remote = None\<rparr>"

definition demo_admission :: "(web_error + admitted) \<times> router_state" where
  "demo_admission = admit demo_router demo_identity [demo_route] 0 demo_credentials demo_get booted"

lemma demo_route_known: "route ''GET'' ''/runs'' True None = Some demo_route"
  by code_simp

lemma demo_admitted: "\<exists>a st. demo_admission = (Inr a, st) \<and> rs_inflight st = 1 \<and> rt_auth (ad_route a)"
proof -
  have "case demo_admission of (Inr a, st) \<Rightarrow> rs_inflight st = 1 \<and> rt_auth (ad_route a) | _ \<Rightarrow> False" by code_simp
  then show ?thesis by (auto split: prod.splits sum.splits)
qed

lemma handler_is_authorised_witness:
  "\<exists>a st au. demo_admission = (Inr a, st) \<and> authenticate demo_identity 0 (Some ''Bearer key'') demo_credentials = Inr au
    \<and> ad_authed a = Some au \<and> ''runs:read'' \<in> au_scopes au"
proof -
  obtain a st where a: "demo_admission = (Inr a, st)" "rt_auth (ad_route a)" using demo_admitted by blast
  have routes: "\<forall>r \<in> set [demo_route]. \<exists>meth pattern auth con. route meth pattern auth con = Some r" using demo_route_known by auto
  have "rq_header demo_get ''authorization'' = Some ''Bearer key''" by code_simp
  moreover have "map_of SCOPE_BY_ROUTE (rt_method demo_route @ '' '' @ rt_path demo_route) = Some ''runs:read''" by code_simp
  ultimately show ?thesis
    using handler_is_authorised [OF a(1) [unfolded demo_admission_def] routes] a by auto
qed

lemma capacity_is_kept_witness:
  "\<exists>st. rs_inflight st = 1 \<and> fst (take_slot demo_router demo_route st) \<noteq> None"
proof -
  obtain a st where a: "demo_admission = (Inr a, st)" "rs_inflight st = 1" using demo_admitted by blast
  have "door demo_router demo_identity [demo_route] (booted, {}) (st, {0})"
    using arrives [OF a(1) [unfolded demo_admission_def], of 0 "{}"] a(2) by (simp add: booted_def)
  then have r: "(door demo_router demo_identity [demo_route])\<^sup>*\<^sup>* (booted, {}) (st, {0})" by blast
  have "rc_cap demo_router = Some 1" "rt_auth demo_route" by (simp_all add: demo_router_def demo_route_def)
  from capacity_is_kept [OF r this] a(2) show ?thesis by auto
qed

end
