(* ===== verification/Idempotency.thy ===== *)
theory Idempotency
  imports Router
begin

text \<open>
  Layer-1 idempotency as a protocol: keyed requests begin and settle in any order, other code
  works on the other tables in between, and the process may stop and start again.
\<close>

section \<open>The table under its operations\<close>

lemma idem_at_same: "idem_at a b c d \<Longrightarrow> idem_at a' b' c' d \<longleftrightarrow> a' = a \<and> b' = b \<and> c' = c"
  by (auto simp: idem_at_def)

lemma get_claim:
  assumes "claimIdempotency a b c g s = (ok, s')"
  shows "getIdempotency a' b' c' s' = (if ok \<and> a' = a \<and> b' = b \<and> c' = c
    then Some \<lparr>d_tenant = a, d_endpoint = b, d_key = c, d_digest = g, d_status = None, d_headers = [], d_body = None\<rparr>
    else getIdempotency a' b' c' s)"
proof (cases ok)
  case True
  then have n: "find (idem_at a b c) (t_idem s) = None" and
    s': "t_idem s' = t_idem s @ [\<lparr>d_tenant = a, d_endpoint = b, d_key = c, d_digest = g, d_status = None, d_headers = [], d_body = None\<rparr>]"
    using assms by (auto simp: claimIdempotency_def find_None_iff split: if_splits)
  have app: "find P (xs @ ys) = (case find P xs of None \<Rightarrow> find P ys | Some x \<Rightarrow> Some x)" for P :: "idem_row \<Rightarrow> bool" and xs ys
    by (induction xs) auto
  show ?thesis using n True by (auto simp: getIdempotency_def s' app idem_at_def split: option.splits)
qed (use assms in \<open>auto simp: claimIdempotency_def split: if_splits\<close>)

lemma get_complete:
  "getIdempotency a' b' c' (completeIdempotency a b c st hs body s) =
     (if a' = a \<and> b' = b \<and> c' = c
      then map_option (\<lambda>d. d\<lparr>d_status := Some st, d_headers := hs, d_body := body\<rparr>) (getIdempotency a b c s)
      else getIdempotency a' b' c' s)"
proof -
  let ?u = "\<lambda>d. if idem_at a b c d then d\<lparr>d_status := Some st, d_headers := hs, d_body := body\<rparr> else d"
  have keep: "idem_at x y z (?u d) = idem_at x y z d" for x y z d by (simp add: idem_at_def)
  have "find (idem_at a' b' c') (map ?u ds) = map_option ?u (find (idem_at a' b' c') ds)" for ds
    by (induction ds) (simp_all add: keep)
  moreover have "idem_at a' b' c' d" if "find (idem_at a' b' c') (t_idem s) = Some d" for d
    using that by (auto simp: find_Some_iff)
  ultimately show ?thesis
    by (cases "find (idem_at a' b' c') (t_idem s)") (auto simp: getIdempotency_def completeIdempotency_def idem_at_def)
qed

lemma get_release:
  "getIdempotency a' b' c' (releaseIdempotency a b c s) =
     (if a' = a \<and> b' = b \<and> c' = c then None else getIdempotency a' b' c' s)"
proof -
  have "find (idem_at a' b' c') (filter (\<lambda>d. \<not> idem_at a b c d) ds)
      = (if a' = a \<and> b' = b \<and> c' = c then None else find (idem_at a' b' c') ds)" for ds
  proof (induction ds)
    case (Cons d ds)
    then show ?case using idem_at_same [of a' b' c' d a b c] by auto
  qed simp
  then show ?thesis by (simp add: getIdempotency_def releaseIdempotency_def)
qed

section \<open>Beginning and settling\<close>

definition row_of :: "idem_call \<Rightarrow> 'a store_scheme \<Rightarrow> idem_row option" where
  "row_of c s = getIdempotency (ic_tenant c) (ic_endpoint c) (ic_key c) s"

definition call_key :: "idem_call \<Rightarrow> string \<times> string \<times> string" where
  "call_key c = (ic_tenant c, ic_endpoint c, ic_key c)"

lemma row_of_key: "call_key c = call_key c' \<Longrightarrow> row_of c s = row_of c' s"
  by (simp add: row_of_def call_key_def)

text \<open>Whether an outcome is final, and its status.\<close>

definition is_final :: "router_cfg \<Rightarrow> web_error + reply \<Rightarrow> bool" where
  "is_final cfg res = (case res of Inl we \<Rightarrow> final_error cfg (we_exn we) | Inr rp \<Rightarrow> final_reply rp)"

definition outcome_status :: "router_cfg \<Rightarrow> web_error + reply \<Rightarrow> nat" where
  "outcome_status cfg res = (case res of Inl we \<Rightarrow> rp_status (error_reply cfg we) | Inr rp \<Rightarrow> rp_status rp)"

lemma begin_claims:
  assumes "idem_begin h sb key ep di s = (Claimed c, s')"
  shows "row_of c s = None" "\<exists>d. row_of c s' = Some d \<and> d_digest d = ic_digest c \<and> d_status d = None"
    "call_key c' \<noteq> call_key c \<Longrightarrow> row_of c' s' = row_of c' s"
proof -
  obtain k where k: "key = Some k" "IDEMPOTENCY_KEY k" using assms by (auto simp: idem_begin_def split: option.splits if_splits)
  obtain subj where sb: "sb = Some subj" using assms k by (auto simp: idem_begin_def split: option.splits)
  let ?ten = "sub_tenant subj" and ?g = "idem_digest h di"
  have free: "getIdempotency ?ten ep k s = None"
    using assms k sb by (auto simp: idem_begin_def Let_def split: option.splits if_splits)
  obtain ok s1 where cl: "claimIdempotency ?ten ep k ?g s = (ok, s1)" by force
  have ok: ok and s': "s1 = s'" and c: "c = \<lparr>ic_tenant = ?ten, ic_endpoint = ep, ic_key = k, ic_digest = ?g\<rparr>"
    using assms k sb free cl by (auto simp: idem_begin_def Let_def split: bool.splits)
  note get = get_claim [OF cl [unfolded s']]
  show "row_of c s = None" using free by (simp add: row_of_def c)
  show "\<exists>d. row_of c s' = Some d \<and> d_digest d = ic_digest c \<and> d_status d = None"
    using ok by (simp add: row_of_def c get)
  show "row_of c' s' = row_of c' s" if "call_key c' \<noteq> call_key c"
    using that by (auto simp: row_of_def call_key_def c get)
qed

lemma begin_otherwise:
  assumes "idem_begin h sb key ep di s = (r, s')" "\<forall>c. r \<noteq> Claimed c"
  shows "s' = s"
proof -
  have no: "s1 = s" if "claimIdempotency a b c g s = (False, s1)" for a b c g s1
    using that by (auto simp: claimIdempotency_def split: if_splits)
  show ?thesis using assms by (auto simp: idem_begin_def Let_def dest: no split: option.splits if_splits prod.splits bool.splits)
qed

lemma settle_row:
  "row_of c (idem_settle cfg c res s) = (if is_final cfg res
     then map_option (\<lambda>d. d\<lparr>d_status := Some (outcome_status cfg res),
       d_headers := (case res of Inl we \<Rightarrow> we_headers we | Inr rp \<Rightarrow> rp_headers rp),
       d_body := (case res of Inl we \<Rightarrow> Some (error_body (we_exn we)) | Inr rp \<Rightarrow> Some (or_null (rp_body rp)))\<rparr>) (row_of c s)
     else None)"
  by (cases res) (simp_all add: row_of_def idem_settle_def is_final_def outcome_status_def get_complete get_release)

lemma settle_others: "call_key c' \<noteq> call_key c \<Longrightarrow> row_of c' (idem_settle cfg c res s) = row_of c' s"
  by (cases res) (auto simp: row_of_def call_key_def idem_settle_def get_complete get_release)

section \<open>The protocol\<close>

text \<open>
  A state holds the store, the calls whose handler is running, and the calls that reached a final
  outcome, with its status. Between two steps of the protocol other code may change the store,
  but no other code writes the idempotency table. A restart forgets what was running.
\<close>

inductive layer1 :: "router_cfg \<Rightarrow> host \<Rightarrow> 'a store_scheme \<times> idem_call list \<times> (idem_call \<times> nat) list
    \<Rightarrow> 'a store_scheme \<times> idem_call list \<times> (idem_call \<times> nat) list \<Rightarrow> bool"
  for cfg :: router_cfg and h :: host where
  begins: "idem_begin h sb key ep di s = (Claimed c, s') \<Longrightarrow> layer1 cfg h (s, run, fin) (s', c # run, fin)"
| answers: "idem_begin h sb key ep di s = (r, s') \<Longrightarrow> (\<forall>c. r \<noteq> Claimed c) \<Longrightarrow> layer1 cfg h (s, run, fin) (s', run, fin)"
| settles: "c \<in> set run \<Longrightarrow> layer1 cfg h (s, run, fin)
    (idem_settle cfg c res s, removeAll c run, if is_final cfg res then (c, outcome_status cfg res) # fin else fin)"
| works: "t_idem s' = t_idem s \<Longrightarrow> layer1 cfg h (s, run, fin) (s', run, fin)"
| restarts: "layer1 cfg h (s, run, fin) (s, [], fin)"

definition protocol_ok :: "'a store_scheme \<times> idem_call list \<times> (idem_call \<times> nat) list \<Rightarrow> bool" where
  "protocol_ok = (\<lambda>(s, run, fin). distinct (map call_key run) \<and> distinct (map (call_key \<circ> fst) fin)
     \<and> (\<forall>c \<in> set run. \<exists>d. row_of c s = Some d \<and> d_digest d = ic_digest c \<and> d_status d = None)
     \<and> (\<forall>(c, st) \<in> set fin. \<exists>d. row_of c s = Some d \<and> d_digest d = ic_digest c \<and> d_status d = Some st))"

lemma protocol_running: "protocol_ok (s, run, fin) \<Longrightarrow> c \<in> set run \<Longrightarrow> \<exists>d. row_of c s = Some d \<and> d_digest d = ic_digest c \<and> d_status d = None"
  and protocol_final: "protocol_ok (s, run, fin) \<Longrightarrow> (c, st) \<in> set fin \<Longrightarrow> \<exists>d. row_of c s = Some d \<and> d_digest d = ic_digest c \<and> d_status d = Some st"
  and protocol_distinct: "protocol_ok (s, run, fin) \<Longrightarrow> distinct (map call_key run) \<and> distinct (map (call_key \<circ> fst) fin)"
  by (auto simp: protocol_ok_def)

lemma running_not_final:
  assumes "protocol_ok (s, run, fin)" "c \<in> set run" "(c', st) \<in> set fin"
  shows "call_key c \<noteq> call_key c'"
  using assms row_of_key [of c c' s] by (fastforce simp: protocol_ok_def)

lemma begins_keeps:
  assumes "idem_begin h sb key ep di s = (Claimed c, s')" "protocol_ok (s, run, fin)"
  shows "protocol_ok (s', c # run, fin)"
proof -
  note b = begin_claims [OF assms(1)]
  have new: "call_key c' \<noteq> call_key c" if "row_of c' s \<noteq> None" for c'
    using that b(1) row_of_key [of c' c s] by auto
  have run: "call_key c' \<noteq> call_key c" if "c' \<in> set run" for c' using assms(2) that by (intro new) (auto simp: protocol_ok_def)
  have fin: "call_key c' \<noteq> call_key c" if "(c', st) \<in> set fin" for c' st
    using assms(2) that by (intro new) (auto simp: protocol_ok_def)
  have "call_key c \<notin> call_key ` set run" using run by (metis imageE)
  moreover have "\<exists>d. row_of c' s' = Some d \<and> d_digest d = ic_digest c' \<and> d_status d = None" if "c' \<in> set (c # run)" for c'
    using that b(2) b(3) [OF run] assms(2) by (cases "c' = c") (auto simp: protocol_ok_def)
  moreover have "\<exists>d. row_of c' s' = Some d \<and> d_digest d = ic_digest c' \<and> d_status d = Some st" if "(c', st) \<in> set fin" for c' st
    using that b(3) [OF fin [OF that]] assms(2) by (auto simp: protocol_ok_def)
  ultimately show ?thesis using assms(2) by (auto simp: protocol_ok_def)
qed

lemma settles_keeps:
  assumes "c \<in> set run" "protocol_ok (s, run, fin)"
  shows "protocol_ok (idem_settle cfg c res s, removeAll c run, if is_final cfg res then (c, outcome_status cfg res) # fin else fin)"
proof -
  let ?s = "idem_settle cfg c res s"
  have inj: "distinct (map call_key run)" using assms(2) by (simp add: protocol_ok_def)
  have others: "call_key c' \<noteq> call_key c" if "c' \<in> set run" "c' \<noteq> c" for c'
    using inj that assms(1) by (auto simp: distinct_map inj_on_def)
  have fins: "call_key c' \<noteq> call_key c" if "(c', st) \<in> set fin" for c' st
    using running_not_final [OF assms(2,1) that] by simp
  have "\<exists>d. row_of c' ?s = Some d \<and> d_digest d = ic_digest c' \<and> d_status d = None" if "c' \<in> set (removeAll c run)" for c'
    using that settle_others [OF others, of c' cfg res s] protocol_running [OF assms(2), of c'] by simp
  moreover have "\<exists>d. row_of c' ?s = Some d \<and> d_digest d = ic_digest c' \<and> d_status d = Some st" if "(c', st) \<in> set fin" for c' st
    using settle_others [OF fins [OF that], of cfg res s] protocol_final [OF assms(2) that] by simp
  moreover have "\<exists>d. row_of c ?s = Some d \<and> d_digest d = ic_digest c \<and> d_status d = Some (outcome_status cfg res)" if "is_final cfg res"
    using that protocol_running [OF assms(2,1)] by (auto simp: settle_row)
  moreover have "call_key c \<notin> (call_key \<circ> fst) ` set fin" using fins by fastforce
  moreover have "distinct (map call_key (removeAll c run))" using inj by (metis distinct_map distinct_removeAll inj_on_subset set_removeAll Diff_subset)
  ultimately show ?thesis using assms(2) by (auto simp: protocol_ok_def)
qed

lemma layer1_keeps:
  assumes "layer1 cfg h x y" "protocol_ok x"
  shows "protocol_ok y"
  using assms(1)
proof cases
  case (begins sb key ep di s c s' run fin)
  with begins_keeps [OF begins(3)] assms(2) show ?thesis by simp
next
  case (answers sb key ep di s r s' run fin)
  with begin_otherwise [OF answers(3,4)] assms(2) show ?thesis by simp
next
  case (settles c run s fin res)
  from settles_keeps [OF settles(3), of s fin cfg res] assms(2) settles(1,2) show ?thesis by (simp only:)
next
  case (works s' s run fin)
  then have "row_of c s' = row_of c s" for c by (simp add: row_of_def getIdempotency_def)
  with works assms(2) show ?thesis by (simp add: protocol_ok_def)
next
  case (restarts s run fin)
  with assms(2) show ?thesis by (simp add: protocol_ok_def)
qed

lemma layer1s_keep: "(layer1 cfg h)\<^sup>*\<^sup>* x y \<Longrightarrow> protocol_ok x \<Longrightarrow> protocol_ok y"
  by (induction rule: rtranclp_induct) (auto intro: layer1_keeps)

lemma begin_on_final:
  assumes "row_of c s = Some d" "d_digest d = ic_digest c" "d_status d = Some st" "IDEMPOTENCY_KEY (ic_key c)" "sub_tenant sb = ic_tenant c"
  shows "idem_begin h (Some sb) (Some (ic_key c)) (ic_endpoint c) di s =
    (if idem_digest h di = ic_digest c
     then (Replayed \<lparr>rp_status = st, rp_body = d_body d, rp_raw = None, rp_type = None,
       rp_headers = AList.update ''OpenWOP-Idempotent-Replay'' ''true'' (d_headers d)\<rparr>, s)
     else (Refused (web_err ''idempotency_key_mismatch'' ''a different request digest was presented under the same Idempotency-Key'' None), s))"
  using assms by (auto simp: idem_begin_def row_of_def Let_def)

text \<open>A request under a key that has a final outcome: the replay of it, or the refusal of another digest.\<close>

definition answered_from_cache :: "host \<Rightarrow> idem_call \<Rightarrow> nat \<Rightarrow> subject \<Rightarrow> string \<Rightarrow> 'a store_scheme \<Rightarrow> bool" where
  "answered_from_cache h c st sb di s \<longleftrightarrow>
     (case idem_begin h (Some sb) (Some (ic_key c)) (ic_endpoint c) di s of
           (Replayed rp, s') \<Rightarrow> idem_digest h di = ic_digest c \<and> rp_status rp = st \<and> s' = s
         | (Refused we, s') \<Rightarrow> idem_digest h di \<noteq> ic_digest c \<and> s' = s
         | _ \<Rightarrow> False)"

text \<open>
  C12: At most once: under every interleaving of keyed requests, restarts included, no two handlers
  run at the same time under one (tenant, endpoint, key), no key reaches a second final
  outcome, and none is running under a key that has one. A later request under such a key
  replays the cached outcome when it carries the same digest, and is refused otherwise; its handler
  does not run.
\<close>

theorem handler_final_at_most_once:
  assumes "(layer1 cfg h)\<^sup>*\<^sup>* (s0, [], []) (s, run, fin)"
  shows "distinct (map call_key run) \<and> distinct (map (call_key \<circ> fst) fin)
    \<and> call_key ` set run \<inter> (call_key \<circ> fst) ` set fin = {}
    \<and> (\<forall>(c, st) \<in> set fin. IDEMPOTENCY_KEY (ic_key c) \<longrightarrow> (\<forall>sb di. sub_tenant sb = ic_tenant c \<longrightarrow>
        answered_from_cache h c st sb di s))"
proof -
  have "protocol_ok (s0, [], [])" by (simp add: protocol_ok_def)
  with layer1s_keep [OF assms] have ok: "protocol_ok (s, run, fin)" by blast
  have final: "answered_from_cache h c st sb di s"
    if "(c, st) \<in> set fin" "IDEMPOTENCY_KEY (ic_key c)" "sub_tenant sb = ic_tenant c" for c st sb di
  proof -
    from protocol_final [OF ok that(1)]
    obtain d where "row_of c s = Some d" "d_digest d = ic_digest c" "d_status d = Some st" by blast
    from begin_on_final [OF this that(2,3), of h di] show ?thesis by (auto simp: answered_from_cache_def)
  qed
  have "call_key ` set run \<inter> (call_key \<circ> fst) ` set fin = {}"
    using running_not_final [OF ok] by fastforce
  with final show ?thesis using protocol_distinct [OF ok] by blast
qed

section \<open>The contract of one key\<close>

text \<open>
  What a client may rely on of one (tenant, endpoint, key), without the table: the key is free, in
  flight for a digest, or done for good with a status.
\<close>

datatype claim = Free | InFlight string | Done string nat

inductive claim_step :: "claim \<Rightarrow> claim \<Rightarrow> bool" where
  starts: "claim_step Free (InFlight g)"
| finishes: "claim_step (InFlight g) (Done g st)"
| frees: "claim_step (InFlight g) Free"

inductive_cases claim_stepE: "claim_step a b"
inductive_simps done_is_final [simp]: "claim_step (Done g st) b"

definition claim_of :: "'a store_scheme \<Rightarrow> string \<times> string \<times> string \<Rightarrow> claim" where
  "claim_of s = (\<lambda>(ten, ep, k). case getIdempotency ten ep k s of
       None \<Rightarrow> Free
     | Some d \<Rightarrow> (case d_status d of None \<Rightarrow> InFlight (d_digest d) | Some st \<Rightarrow> Done (d_digest d) st))"

lemma claim_of_call: "claim_of s (call_key c) = (case row_of c s of
       None \<Rightarrow> Free
     | Some d \<Rightarrow> (case d_status d of None \<Rightarrow> InFlight (d_digest d) | Some st \<Rightarrow> Done (d_digest d) st))"
  by (simp add: claim_of_def call_key_def row_of_def)

lemma key_of_call: "\<exists>c. k = call_key c"
proof (cases k)
  case (fields ten ep x)
  then show ?thesis by (intro exI [of _ "\<lparr>ic_tenant = ten, ic_endpoint = ep, ic_key = x, ic_digest = []\<rparr>"]) (simp add: call_key_def)
qed

lemma begins_claim:
  assumes "idem_begin h sb key ep di s = (Claimed c, s')"
  shows "claim_step\<^sup>=\<^sup>= (claim_of s k) (claim_of s' k)"
proof -
  obtain c' where k: "k = call_key c'" using key_of_call by blast
  note b = begin_claims [OF assms]
  show ?thesis
  proof (cases "call_key c' = call_key c")
    case True
    with b(1) b(2) have "claim_of s k = Free" "\<exists>g. claim_of s' k = InFlight g" unfolding k True by (auto simp: claim_of_call)
    then show ?thesis by (auto intro: claim_step.intros)
  next
    case False
    then show ?thesis by (simp add: k claim_of_call b(3))
  qed
qed

lemma settles_claim:
  assumes "c \<in> set run" "protocol_ok (s, run, fin)"
  shows "claim_step\<^sup>=\<^sup>= (claim_of s k) (claim_of (idem_settle cfg c res s) k)"
proof -
  obtain c' where k: "k = call_key c'" using key_of_call by blast
  from protocol_running [OF assms(2,1)] obtain d where d: "row_of c s = Some d" "d_status d = None" by blast
  show ?thesis
  proof (cases "call_key c' = call_key c")
    case True
    show ?thesis unfolding k True using d by (auto simp: claim_of_call settle_row intro: claim_step.intros)
  next
    case False
    then show ?thesis by (simp add: k claim_of_call settle_others)
  qed
qed

lemma layer1_claim:
  assumes "layer1 cfg h x y" "protocol_ok x"
  shows "claim_step\<^sup>=\<^sup>= (claim_of (fst x) k) (claim_of (fst y) k)"
  using assms(1)
proof cases
  case (begins sb key ep di s c s' run fin)
  with begins_claim [OF begins(3)] show ?thesis by simp
next
  case (answers sb key ep di s r s' run fin)
  with begin_otherwise [OF answers(3,4)] show ?thesis by simp
next
  case (settles c run s fin res)
  with settles_claim [OF settles(3)] assms(2) show ?thesis by simp
next
  case (works s' s run fin)
  then have "claim_of s' k = claim_of s k" by (simp add: claim_of_def getIdempotency_def)
  with works show ?thesis by simp
next
  case (restarts s run fin)
  then show ?thesis by simp
qed

lemma claim_steps_done: "claim_step\<^sup>*\<^sup>* a b \<Longrightarrow> a = Done g st \<Longrightarrow> b = Done g st"
  by (induction rule: rtranclp_induct) auto

text \<open>
  C17: Refinement: seen through one key, every step of every interleaving, with restarts and other
  work in between, is a step of the contract or none at all: free, in flight for one digest, done or
  free again. So every run of the host is a run of the contract, and a key that is done stays done with its
  digest and status.
\<close>

theorem layer1_refines_claim:
  assumes "(layer1 cfg h)\<^sup>*\<^sup>* (s0, [], []) (s, run, fin)"
  shows "(\<forall>s' run' fin'. layer1 cfg h (s, run, fin) (s', run', fin') \<longrightarrow> claim_step\<^sup>=\<^sup>= (claim_of s k) (claim_of s' k))
    \<and> claim_step\<^sup>*\<^sup>* (claim_of s0 k) (claim_of s k)
    \<and> (claim_of s0 k = Done g st \<longrightarrow> claim_of s k = Done g st)"
proof -
  have ok: "protocol_ok (s0, [], [])" by (simp add: protocol_ok_def)
  have "protocol_ok y \<and> claim_step\<^sup>*\<^sup>* (claim_of s0 k) (claim_of (fst y) k)" if "(layer1 cfg h)\<^sup>*\<^sup>* (s0, [], []) y" for y
    using that
  proof (induction rule: rtranclp_induct)
    case (step y z)
    with layer1_claim [of cfg h y z k] layer1_keeps [of cfg h y z] show ?case by auto
  qed (simp add: ok)
  from this [OF assms] have "protocol_ok (s, run, fin)" and steps: "claim_step\<^sup>*\<^sup>* (claim_of s0 k) (claim_of s k)"
    by simp_all
  then have "claim_step\<^sup>=\<^sup>= (claim_of s k) (claim_of s' k)" if "layer1 cfg h (s, run, fin) (s', run', fin')" for s' run' fin'
    using layer1_claim [OF that, of k] by simp
  with steps claim_steps_done [OF steps] show ?thesis by blast
qed

section \<open>A claim whose process died\<close>

text \<open>
  The row of a claim is completed or released only by the call that made it. After a restart
  nothing runs, no recovery releases the row, and every later request under the key is
  answered as if it were still in flight.
\<close>

lemma dead_claim_stays_in_flight:
  assumes "idem_begin h (Some sb) (Some k) ep di s = (Claimed c, s')"
  shows "(layer1 cfg h)\<^sup>*\<^sup>* (s, [], []) (s', [], [])"
    "\<exists>we. idem_begin h (Some sb) (Some k) ep di s' = (Refused we, s') \<and> (\<exists>m ds. we_exn we = HostError ''idempotency_in_flight'' m ds)"
proof -
  have "layer1 cfg h (s, [], []) (s', [c], [])" by (rule begins [OF assms])
  moreover have "layer1 cfg h (s', [c], []) (s', [], [])" by (rule restarts)
  ultimately show "(layer1 cfg h)\<^sup>*\<^sup>* (s, [], []) (s', [], [])" by (rule two_steps)
  have c: "ic_tenant c = sub_tenant sb" "ic_endpoint c = ep" "ic_key c = k" "ic_digest c = idem_digest h di" "IDEMPOTENCY_KEY k"
    using assms by (auto simp: idem_begin_def Let_def split: option.splits if_splits prod.splits bool.splits)
  then show "\<exists>we. idem_begin h (Some sb) (Some k) ep di s' = (Refused we, s') \<and> (\<exists>m ds. we_exn we = HostError ''idempotency_in_flight'' m ds)"
    using begin_claims(2) [OF assms] by (auto simp: idem_begin_def row_of_def Let_def)
qed

section \<open>One keyed request, settled and repeated\<close>

definition demo_key :: string where "demo_key = ''0123456789012345678901''"

definition demo_caller :: subject where
  "demo_caller = \<lparr>sub_issuer = ''i'', sub_id = ''s'', sub_tenant = ''t'', sub_lane = ''api-key'', sub_kind = ''user''\<rparr>"

definition demo_call :: idem_call where
  "demo_call = \<lparr>ic_tenant = ''t'', ic_endpoint = ''e'', ic_key = demo_key, ic_digest = idem_digest demo_host ''d''\<rparr>"

definition demo_cfg :: router_cfg where
  "demo_cfg = \<lparr>rc_v1_retired = False, rc_preferred = ''2.0'', rc_cors = CorsOff, rc_rate = 60, rc_cap = None,
     rc_retry_seconds = 5, rc_status = (\<lambda>c. 409), rc_oauth_bound = False, rc_jsonrpc = [], rc_audit = False\<rparr>"

definition demo_created :: "web_error + reply" where
  "demo_created = Inr \<lparr>rp_status = 201, rp_body = None, rp_raw = None, rp_type = None, rp_headers = []\<rparr>"

lemma demo_claims: "\<exists>s1. idem_begin demo_host (Some demo_caller) (Some demo_key) ''e'' ''d'' (demo_world []) = (Claimed demo_call, s1)"
proof -
  have "IDEMPOTENCY_KEY demo_key" by code_simp
  then have "fst (idem_begin demo_host (Some demo_caller) (Some demo_key) ''e'' ''d'' (demo_world [])) = Claimed demo_call"
    by (simp add: idem_begin_def getIdempotency_def demo_world_def demo_caller_def demo_call_def claimIdempotency_def Let_def)
  then show ?thesis by (metis prod.collapse)
qed

lemma demo_settles:
  assumes "idem_begin demo_host (Some demo_caller) (Some demo_key) ''e'' ''d'' s = (Claimed demo_call, s1)"
  shows "(layer1 demo_cfg demo_host)\<^sup>*\<^sup>* (s, [], []) (idem_settle demo_cfg demo_call demo_created s1, [], [(demo_call, 201)])"
proof -
  have "layer1 demo_cfg demo_host (s, [], []) (s1, [demo_call], [])" by (rule begins [OF assms])
  moreover have "layer1 demo_cfg demo_host (s1, [demo_call], []) (idem_settle demo_cfg demo_call demo_created s1, [], [(demo_call, 201)])"
    using settles [of demo_call "[demo_call]" demo_cfg demo_host s1 "[]" demo_created]
    by (simp add: is_final_def final_reply_def outcome_status_def demo_created_def)
  ultimately show ?thesis by (rule two_steps)
qed

lemma handler_final_at_most_once_witness:
  "\<exists>s :: world. case idem_begin demo_host (Some demo_caller) (Some demo_key) ''e'' ''d'' s of
      (Replayed rp, s') \<Rightarrow> rp_status rp = 201 | _ \<Rightarrow> False"
proof -
  have key: "IDEMPOTENCY_KEY demo_key" by code_simp
  obtain s1 where b: "idem_begin demo_host (Some demo_caller) (Some demo_key) ''e'' ''d'' (demo_world []) = (Claimed demo_call, s1)"
    using demo_claims by blast
  let ?s = "idem_settle demo_cfg demo_call demo_created s1"
  note demo_settles [OF b]
  from handler_final_at_most_once [OF this]
  have "IDEMPOTENCY_KEY (ic_key demo_call) \<longrightarrow>
      (\<forall>sb di. sub_tenant sb = ic_tenant demo_call \<longrightarrow> answered_from_cache demo_host demo_call 201 sb di ?s)"
    by (simp only: list.set ball_simps prod.case) blast
  moreover have k: "ic_key demo_call = demo_key" "ic_endpoint demo_call = ''e''" "sub_tenant demo_caller = ic_tenant demo_call"
    "ic_digest demo_call = idem_digest demo_host ''d''"
    by (simp_all add: demo_call_def demo_caller_def)
  ultimately have "answered_from_cache demo_host demo_call 201 demo_caller ''d'' ?s" using key by (simp only:)
  then show ?thesis unfolding answered_from_cache_def k
    by (intro exI [of _ ?s]) (auto split: prod.splits idem_start.splits)
qed

lemma layer1_refines_claim_witness:
  "\<exists>s :: world. claim_step\<^sup>*\<^sup>* (claim_of (demo_world []) (call_key demo_call)) (claim_of s (call_key demo_call))
     \<and> claim_of s (call_key demo_call) \<noteq> Free"
proof -
  obtain s1 where b: "idem_begin demo_host (Some demo_caller) (Some demo_key) ''e'' ''d'' (demo_world []) = (Claimed demo_call, s1)"
    using demo_claims by blast
  have "is_final demo_cfg demo_created" by (simp add: is_final_def demo_created_def final_reply_def)
  then have "claim_of (idem_settle demo_cfg demo_call demo_created s1) (call_key demo_call) \<noteq> Free"
    using begin_claims(2) [OF b] by (auto simp: claim_of_call settle_row)
  with layer1_refines_claim [OF demo_settles [OF b]] show ?thesis by blast
qed

end
