(* ===== verification/Egress.thy ===== *)
theory Egress
  imports Host_Types Encoding "HOL-Library.Word"
begin

text \<open>
  The one outbound path of the host (\<open>egress.ts\<close>): which addresses a webhook or an
  outbound fetch may reach, judged on the bytes of the address, the guard on URLs, and the
  request that resolves a name once and connects to the address it validated. The URL parser,
  \<open>isIP\<close>, the resolver and the connection are fields of an environment.
\<close>

unbundle bit_operations_syntax

section \<open>Address blocks\<close>

type_synonym byte = "8 word"
type_synonym cidr = "byte list \<times> nat"

definition V4_NOT_GLOBAL :: "cidr list" where
  "V4_NOT_GLOBAL = [
     ([0, 0, 0, 0], 8), ([10, 0, 0, 0], 8), ([100, 64, 0, 0], 10), ([127, 0, 0, 0], 8),
     ([169, 254, 0, 0], 16), ([172, 16, 0, 0], 12), ([192, 0, 0, 0], 24), ([192, 0, 2, 0], 24),
     ([192, 88, 99, 0], 24), ([192, 168, 0, 0], 16), ([198, 18, 0, 0], 15), ([198, 51, 100, 0], 24),
     ([203, 0, 113, 0], 24), ([224, 0, 0, 0], 4), ([240, 0, 0, 0], 4)]"

definition V6_NOT_GLOBAL :: "cidr list" where
  "V6_NOT_GLOBAL = [
     ([0x01, 0x00, 0, 0, 0, 0, 0, 0], 64),
     ([0x20, 0x01, 0x00, 0x00], 23),
     ([0x20, 0x01, 0x0d, 0xb8], 32),
     ([0x3f, 0xff, 0x00, 0x00], 20),
     ([0x5f, 0x00], 16),
     ([0x00, 0x64, 0xff, 0x9b, 0x00, 0x01], 48),
     ([0xfc], 7),
     ([0xfe, 0x80], 10),
     ([0xfe, 0xc0], 10),
     ([0xff], 8)]"

text \<open>\<open>bytes[i] ?? 0\<close>.\<close>

definition byte_or_0 :: "byte list \<Rightarrow> nat \<Rightarrow> byte" where
  "byte_or_0 bs i = (if i < length bs then bs ! i else 0)"

definition mask_byte :: "nat \<Rightarrow> nat \<Rightarrow> byte" where
  "mask_byte bits i = push_bit (8 - min 8 (bits - i * 8)) 0xff"

definition inCidr :: "byte list \<Rightarrow> cidr \<Rightarrow> bool" where
  "inCidr bytes c = (case c of (net, bits) \<Rightarrow>
     list_all (\<lambda>i. byte_or_0 bytes i AND mask_byte bits i = byte_or_0 net i AND mask_byte bits i) [0..<(bits + 7) div 8])"

section \<open>Reading addresses\<close>

definition dec_byte :: "string \<Rightarrow> byte option" where
  "dec_byte s = (if 1 \<le> length s \<and> length s \<le> 3 \<and> list_all is_digit s \<and> decimal_value s \<le> 255
     then Some (of_nat (decimal_value s)) else None)"

fun all_some :: "'a option list \<Rightarrow> 'a list option" where
  "all_some [] = Some []"
| "all_some (None # xs) = None"
| "all_some (Some x # xs) = map_option ((#) x) (all_some xs)"

definition v4Bytes :: "string \<Rightarrow> byte list option" where
  "v4Bytes ip = (let p = split_on (CHR ''.'') ip in if length p \<noteq> 4 then None else all_some (map dec_byte p))"

definition lower_case :: "char \<Rightarrow> char" where
  "lower_case c = (let n = (of_char c :: nat) in if 65 \<le> n \<and> n \<le> 90 then char_of (n + 32) else c)"

text \<open>\<open>s.replace(/%.*$/, '')\<close>.\<close>

fun drop_zone :: "string \<Rightarrow> string" where
  "drop_zone [] = []"
| "drop_zone (c # s) = (if c = CHR ''%'' \<and> list_all (\<lambda>d. (of_char d :: nat) \<noteq> 10 \<and> (of_char d :: nat) \<noteq> 13) s then [] else c # drop_zone s)"

text \<open>The dotted tail after the last colon, if the text ends in one, with what is before it.\<close>

definition dotted_tail :: "string \<Rightarrow> (string \<times> string) option" where
  "dotted_tail s =
     (let tail = rev (takeWhile (\<lambda>c. c \<noteq> CHR '':'') (rev s)); groups = split_on (CHR ''.'') tail
      in if CHR '':'' \<in> set s \<and> length groups = 4 \<and> list_all (\<lambda>g. g \<noteq> [] \<and> list_all is_digit g) groups
         then Some (take (length s - length tail) s, tail) else None)"

text \<open>\<open>s.split('::')\<close>.\<close>

fun split_colons :: "string \<Rightarrow> string list" where
  "split_colons (c # d # s) = (if c = CHR '':'' \<and> d = CHR '':'' then [] # split_colons s
     else case split_colons (d # s) of [] \<Rightarrow> [[c]] | h # hs \<Rightarrow> (c # h) # hs)"
| "split_colons s = [s]"

definition group_words :: "string \<Rightarrow> string list" where
  "group_words h = (if h = [] then [] else split_on (CHR '':'') h)"

definition hex_group :: "string \<Rightarrow> byte list option" where
  "hex_group w = (if 1 \<le> length w \<and> length w \<le> 4 then (case all_some (map hex_value w) of
       None \<Rightarrow> None
     | Some ds \<Rightarrow> let n = foldl (\<lambda>a d. a * 16 + d) 0 ds in Some [of_nat (n div 256), of_nat (n mod 256)]) else None)"

definition v6_halves :: "string list \<Rightarrow> byte list option" where
  "v6_halves halves =
     (let head = group_words (hd halves); rest = (if length halves = 2 then group_words (halves ! 1) else []);
          used = length head + length rest
      in if length halves > 2 \<or> (length halves = 1 \<and> used \<noteq> 8) \<or> used > 8 then None
         else map_option concat (all_some (map hex_group
                (head @ (if length halves = 2 then replicate (8 - used) ''0'' else []) @ rest))))"

definition v6Bytes :: "string \<Rightarrow> byte list option" where
  "v6Bytes ip =
     (let s = drop_zone (map lower_case ip) in
      case dotted_tail s of
        None \<Rightarrow> v6_halves (split_colons s)
      | Some (before, dotted) \<Rightarrow> (case v4Bytes dotted of None \<Rightarrow> None
          | Some v4 \<Rightarrow> map_option (\<lambda>bs. take 12 bs @ v4) (v6_halves (split_colons (before @ ''0:0'')))))"

section \<open>Which addresses are global\<close>

definition zeros :: "byte list \<Rightarrow> nat \<Rightarrow> nat \<Rightarrow> bool" where
  "zeros b i j = list_all (\<lambda>x. x = 0) (take (j - i) (drop i b))"

definition has_byte :: "byte list \<Rightarrow> nat \<Rightarrow> byte \<Rightarrow> bool" where
  "has_byte b i x \<longleftrightarrow> i < length b \<and> b ! i = x"

definition embeddedV4 :: "byte list \<Rightarrow> byte list option" where
  "embeddedV4 b =
     (if zeros b 0 10 \<and> has_byte b 10 0xff \<and> has_byte b 11 0xff then Some (take 4 (drop 12 b))
      else if zeros b 0 12 \<and> \<not> (zeros b 12 15 \<and> (has_byte b 15 0 \<or> has_byte b 15 1)) then Some (take 4 (drop 12 b))
      else if has_byte b 0 0x00 \<and> has_byte b 1 0x64 \<and> has_byte b 2 0xff \<and> has_byte b 3 0x9b \<and> zeros b 4 12
      then Some (take 4 (drop 12 b))
      else if has_byte b 0 0x20 \<and> has_byte b 1 0x02 then Some (take 4 (drop 2 b))
      else None)"

definition v4Global :: "byte list \<Rightarrow> bool" where
  "v4Global b = (if list_all (\<lambda>x. x = 255) b then False else \<not> list_ex (inCidr b) V4_NOT_GLOBAL)"

definition v6Global :: "byte list \<Rightarrow> bool" where
  "v6Global b = (if zeros b 0 15 \<and> (has_byte b 15 0 \<or> has_byte b 15 1) then False
     else case embeddedV4 b of Some v4 \<Rightarrow> v4Global v4 | None \<Rightarrow> \<not> list_ex (inCidr b) V6_NOT_GLOBAL)"

section \<open>The guards\<close>

record url =
  u_href :: string
  u_protocol :: string
  u_hostname :: string
  u_host :: string

record egress_init =
  ei_method :: string
  ei_headers :: "(string \<times> string) list"
  ei_body :: "string option"
  ei_timeout :: nat
  ei_private :: bool
  ei_max_body :: "nat option"

record egress_result =
  eg_status :: nat
  eg_body :: string
  eg_error :: "string option"

text \<open>
  The environment: \<open>isIP\<close>, the WHATWG parser, the resolver, and what a request on a connection
  to an address answers: an error, or a status and the chunks of the body.
\<close>

record net_env =
  ne_isIP :: "string \<Rightarrow> nat"
  ne_url :: "string \<Rightarrow> url option"
  ne_lookup :: "string \<Rightarrow> exn + string list"
  ne_send :: "string \<Rightarrow> url \<Rightarrow> egress_init \<Rightarrow> string + nat \<times> string list"

definition addressDenied :: "net_env \<Rightarrow> string \<Rightarrow> bool" where
  "addressDenied ne ip =
     (if ne_isIP ne ip = 4 then (case v4Bytes ip of None \<Rightarrow> True | Some b \<Rightarrow> \<not> v4Global b)
      else if ne_isIP ne ip = 6 then (case v6Bytes ip of None \<Rightarrow> True | Some b \<Rightarrow> \<not> v6Global b)
      else True)"

definition METADATA_HOSTS :: "string list" where
  "METADATA_HOSTS = [''metadata.google.internal'', ''metadata'', ''instance-data'', ''169.254.169.254'', ''fd00:ec2::254'']"

definition ends_with :: "string \<Rightarrow> string \<Rightarrow> bool" where
  "ends_with t s \<longleftrightarrow> length t \<le> length s \<and> drop (length s - length t) s = t"

definition without_last :: "char \<Rightarrow> string \<Rightarrow> string" where
  "without_last c s = (if s \<noteq> [] \<and> last s = c then butlast s else s)"

text \<open>\<open>h.replace(/^\[|\]$/g, '')\<close>.\<close>

definition unbracketed :: "string \<Rightarrow> string" where
  "unbracketed h = without_last (CHR '']'') (case h of c # t \<Rightarrow> if c = CHR ''['' then t else h | [] \<Rightarrow> [])"

definition hostnameDenied :: "net_env \<Rightarrow> string \<Rightarrow> bool" where
  "hostnameDenied ne hostname =
     (let h = without_last (CHR ''.'') (map lower_case hostname) in
      if h = ''localhost'' \<or> ends_with ''.localhost'' h \<or> ends_with ''.local'' h \<or> ends_with ''.internal'' h then True
      else if h \<in> set METADATA_HOSTS then True
      else if ne_isIP ne (unbracketed h) \<noteq> 0 then addressDenied ne (unbracketed h)
      else False)"

definition url_refusal :: "string \<Rightarrow> string \<Rightarrow> exn" where
  "url_refusal raw m = HostError ''webhook_url_rejected'' m (Some (JObj [(''url'', JStr raw)]))"

definition validateEgressUrl :: "net_env \<Rightarrow> string \<Rightarrow> bool \<Rightarrow> exn + url" where
  "validateEgressUrl ne raw allowPrivate =
     (case ne_url ne raw of None \<Rightarrow> Inl (url_refusal raw ''url MUST be an absolute https:// URL'')
      | Some u \<Rightarrow>
        if allowPrivate then Inr u
        else if u_protocol u \<noteq> ''https:'' then Inl (url_refusal raw (''url MUST be https:// (webhooks.md '' @ SECTION_SIGN @ ''Egress)''))
        else if hostnameDenied ne (u_hostname u)
        then Inl (url_refusal raw (''url names a loopback, private, link-local or metadata host (webhooks.md '' @ SECTION_SIGN @ ''Egress)''))
        else Inr u)"

definition failed :: "string \<Rightarrow> egress_result" where
  "failed m = \<lparr>eg_status = 0, eg_body = [], eg_error = Some m\<rparr>"

text \<open>The address the connection is pinned to: \<open>Inr (Inl r)\<close> is a result without a connection.\<close>

definition pinned_address :: "net_env \<Rightarrow> url \<Rightarrow> bool \<Rightarrow> exn + egress_result + string" where
  "pinned_address ne u allowPrivate =
     (let literal = unbracketed (u_hostname u);
          admit = (\<lambda>a. if \<not> allowPrivate \<and> addressDenied ne a then Inl (failed (''egress denied: '' @ a)) else Inr a)
      in if ne_isIP ne literal \<noteq> 0 then Inr (admit literal)
         else case ne_lookup ne (u_hostname u) of
             Inl e \<Rightarrow> Inl e
           | Inr [] \<Rightarrow> Inr (Inl (failed ''dns: no address''))
           | Inr (a # as) \<Rightarrow>
               (case (if allowPrivate then None else find (addressDenied ne) (a # as)) of
                  Some d \<Rightarrow> Inr (Inl (failed (''egress denied: '' @ u_hostname u @ '' resolves to '' @ d)))
                | None \<Rightarrow> Inr (admit a)))"

text \<open>What the response handlers answer: a body over the cap, and a redirect, are failures.\<close>

fun over_cap :: "nat option \<Rightarrow> string list \<Rightarrow> bool" where
  "over_cap None chunks = False"
| "over_cap (Some cap) chunks = (length (concat chunks) > cap)"

definition collected :: "egress_init \<Rightarrow> string + nat \<times> string list \<Rightarrow> egress_result" where
  "collected init ans = (case ans of Inl m \<Rightarrow> failed m
     | Inr (status, chunks) \<Rightarrow>
         if over_cap (ei_max_body init) chunks then failed ''response too large''
         else \<lparr>eg_status = status, eg_body = concat chunks,
           eg_error = (if 300 \<le> status \<and> status < 400 then Some ''redirect refused'' else None)\<rparr>)"

definition guardedRequest :: "net_env \<Rightarrow> url \<Rightarrow> egress_init \<Rightarrow> exn + egress_result" where
  "guardedRequest ne u init =
     (case pinned_address ne u (ei_private init) of
        Inl e \<Rightarrow> Inl e
      | Inr (Inl r) \<Rightarrow> Inr r
      | Inr (Inr a) \<Rightarrow> Inr (collected init (ne_send ne a u (init\<lparr>ei_headers := AList.update ''Host'' (u_host u) (ei_headers init)\<rparr>))))"

section \<open>A block is a prefix of bits\<close>

definition byte_bits :: "byte \<Rightarrow> bool list" where
  "byte_bits x = map (bit x) (rev [0..<8])"

lemma length_byte_bits [simp]: "length (byte_bits x) = 8"
  by (simp add: byte_bits_def)

lemma masked_eq_iff:
  assumes "k \<le> 8"
  shows "x AND push_bit (8 - k) 0xff = y AND push_bit (8 - k) (0xff :: byte) \<longleftrightarrow> take k (byte_bits x) = take k (byte_bits y)"
proof -
  have ff: "bit (0xff :: byte) n \<longleftrightarrow> n < 8" for n
  proof -
    have m: "(0xff :: byte) = mask 8" by (simp add: mask_eq_exp_minus_1)
    then show ?thesis unfolding m bit_mask_iff by auto
  qed
  have "take k (byte_bits x) = take k (byte_bits y) \<longleftrightarrow> (\<forall>j < k. bit x (7 - j) = bit y (7 - j))"
    using assms by (auto simp: byte_bits_def list_eq_iff_nth_eq rev_nth)
  also have "\<dots> \<longleftrightarrow> (\<forall>n. 8 - k \<le> n \<and> n < 8 \<longrightarrow> bit x n = bit y n)"
  proof (rule iffI; intro allI impI)
    fix n
    assume "\<forall>j < k. bit x (7 - j) = bit y (7 - j)" "8 - k \<le> n \<and> n < 8"
    then show "bit x n = bit y n" using assms by (auto dest!: spec [of _ "7 - n"])
  next
    fix j
    assume eq: "\<forall>n. 8 - k \<le> n \<and> n < 8 \<longrightarrow> bit x n = bit y n" and "j < k"
    then have "8 - k \<le> 7 - j \<and> 7 - j < 8" using assms by linarith
    with eq show "bit x (7 - j) = bit y (7 - j)" by blast
  qed
  also have "\<dots> \<longleftrightarrow> x AND push_bit (8 - k) 0xff = y AND push_bit (8 - k) 0xff"
  proof -
    have pm: "bit (push_bit (8 - k) (0xff :: byte)) n \<longleftrightarrow> 8 - k \<le> n \<and> n < 8" for n
      unfolding bit_push_bit_iff ff by auto
    show ?thesis unfolding bit_eq_iff bit_and_iff pm by auto
  qed
  finally show ?thesis by simp
qed

lemma byte_or_0_Cons [simp]: "byte_or_0 (b # bs) 0 = b" "byte_or_0 (b # bs) (Suc i) = byte_or_0 bs i"
  by (simp_all add: byte_or_0_def)

lemma mask_byte_Suc [simp]: "mask_byte bits (Suc i) = mask_byte (bits - 8) i"
  by (simp add: mask_byte_def)

lemma list_all_upt_Suc: "list_all P [0..<Suc n] \<longleftrightarrow> P 0 \<and> list_all (\<lambda>i. P (Suc i)) [0..<n]"
proof -
  have "[0..<Suc n] = 0 # map Suc [0..<n]" by (simp add: upt_conv_Cons map_Suc_upt del: upt_Suc)
  then show ?thesis by (simp only: list.pred_inject list.pred_map comp_def)
qed

text \<open>
  Membership in a block is agreement of the first \<open>bits\<close> bits of the address with the network.
\<close>

theorem cidr_is_prefix:
  assumes "bits \<le> 8 * length bytes" "bits \<le> 8 * length net"
  shows "inCidr bytes (net, bits) \<longleftrightarrow> take bits (concat (map byte_bits bytes)) = take bits (concat (map byte_bits net))"
  using assms
proof (induction bytes arbitrary: net bits)
  case (Cons b bs)
  show ?case
  proof (cases "bits = 0")
    case False
    then obtain n ns where net: "net = n # ns" using Cons.prems(2) by (cases net) auto
    have div: "(bits + 7) div 8 = Suc ((bits - 8 + 7) div 8)" if "8 < bits" using that by (simp add: div_add_self1 [symmetric])
    show ?thesis
    proof (cases "8 < bits")
      case True
      then have m: "mask_byte bits 0 = push_bit (8 - 8) 0xff" by (simp add: mask_byte_def)
      have "inCidr (b # bs) (net, bits) \<longleftrightarrow> b AND push_bit (8 - 8) 0xff = n AND push_bit (8 - 8) 0xff \<and> inCidr bs (ns, bits - 8)"
        unfolding net inCidr_def prod.case div [OF True] list_all_upt_Suc m by simp
      also have "\<dots> \<longleftrightarrow> byte_bits b = byte_bits n
          \<and> take (bits - 8) (concat (map byte_bits bs)) = take (bits - 8) (concat (map byte_bits ns))"
        using masked_eq_iff [of 8 b n] Cons.IH [of "bits - 8" ns] Cons.prems net by simp
      finally show ?thesis using True by (simp add: net)
    next
      case small: False
      with False have "(bits + 7) div 8 = Suc 0" by linarith
      then have "inCidr (b # bs) (net, bits) \<longleftrightarrow> b AND push_bit (8 - bits) 0xff = n AND push_bit (8 - bits) 0xff"
        using small by (simp add: inCidr_def net mask_byte_def)
      with masked_eq_iff [of bits b n] small show ?thesis by (simp add: net)
    qed
  qed (simp add: inCidr_def)
qed (simp add: inCidr_def)

lemma cidr_is_prefix_witness:
  "inCidr [172, 31, 1, 1] ([172, 16, 0, 0], 12)
    \<and> take 12 (concat (map byte_bits [172, 31, 1, 1])) = take 12 (concat (map byte_bits [172, 16, 0, 0]))"
proof -
  have "inCidr [172, 31, 1, 1] ([172, 16, 0, 0], 12)" by code_simp
  with cidr_is_prefix [of 12 "[172, 31, 1, 1]" "[172, 16, 0, 0]"] show ?thesis by simp
qed

section \<open>Every spelling of an address is judged alike\<close>

definition v4_text :: "byte list \<Rightarrow> string" where
  "v4_text bs = join_with (CHR ''.'') (map (nat_string \<circ> unat) bs)"

lemma nat_string_all_digits: "list_all is_digit (nat_string n)"
  using is_decimal_nat_string [of n] by (auto simp: is_decimal_def)

lemma nat_string_no_dot: "CHR ''.'' \<notin> set (nat_string n)"
  using nat_string_all_digits [of n] by (auto simp: list_all_iff is_digit_def)

lemma nat_string_short: "n < 1000 \<Longrightarrow> 1 \<le> length (nat_string n) \<and> length (nat_string n) \<le> 3"
proof -
  assume n: "n < 1000"
  have len: "length (nat_string k) = (if k < 10 then 1 else Suc (length (nat_string (k div 10))))" for k
    by (subst nat_string.simps) simp
  have "n div 10 div 10 < 10" using n by linarith
  then show ?thesis using len [of n] len [of "n div 10"] len [of "n div 10 div 10"] by (auto split: if_splits)
qed

lemma dec_byte_text: "dec_byte (nat_string (unat b)) = Some b"
proof -
  have "unat b < 256" using unsigned_less [of b] by simp
  then show ?thesis using nat_string_short [of "unat b"] by (simp add: dec_byte_def nat_string_all_digits)
qed

lemma all_some_map: "(\<And>x. x \<in> set xs \<Longrightarrow> f x = Some (g x)) \<Longrightarrow> all_some (map f xs) = Some (map g xs)"
  by (induction xs) auto

lemma v4Bytes_text:
  assumes "length bs = 4"
  shows "v4Bytes (v4_text bs) = Some bs"
proof -
  have "split_on (CHR ''.'') (v4_text bs) = map (nat_string \<circ> unat) bs"
    unfolding v4_text_def using assms nat_string_no_dot by (intro split_join) auto
  moreover have "all_some (map dec_byte (map (nat_string \<circ> unat) bs)) = Some (map id bs)"
    unfolding map_map by (rule all_some_map) (simp add: dec_byte_text)
  ultimately show ?thesis using assms by (simp add: v4Bytes_def)
qed

lemma embedded_forms:
  assumes "length v4 = 4"
  shows "v6Global (replicate 10 0 @ [0xff, 0xff] @ v4) = v4Global v4"
    and "v6Global ([0, 0x64, 0xff, 0x9b] @ replicate 8 0 @ v4) = v4Global v4"
    and "v6Global ([0x20, 0x02] @ v4 @ rest) = v4Global v4"
proof -
  from assms obtain a b c d where v4: "v4 = [a, b, c, d]"
    by (auto simp: numeral_eq_Suc length_Suc_conv)
  have z: "replicate 10 (0 :: byte) = [0, 0, 0, 0, 0, 0, 0, 0, 0, 0]" "replicate 8 (0 :: byte) = [0, 0, 0, 0, 0, 0, 0, 0]"
    by (simp_all add: numeral_eq_Suc)
  show "v6Global (replicate 10 0 @ [0xff, 0xff] @ v4) = v4Global v4"
    by (simp add: v6Global_def embeddedV4_def zeros_def has_byte_def v4 z)
  show "v6Global ([0, 0x64, 0xff, 0x9b] @ replicate 8 0 @ v4) = v4Global v4"
    by (simp add: v6Global_def embeddedV4_def zeros_def has_byte_def v4 z)
  show "v6Global ([0x20, 0x02] @ v4 @ rest) = v4Global v4"
    by (simp add: v6Global_def embeddedV4_def zeros_def has_byte_def v4 z)
qed

lemma zeros_12: "replicate 12 (0 :: byte) = [0, 0, 0, 0, 0, 0, 0, 0, 0, 0, 0, 0]"
  by (simp add: numeral_eq_Suc)

lemma compatible_form:
  assumes "length v4 = 4"
  shows "v6Global (replicate 12 0 @ v4) = v4Global v4"
proof -
  from assms obtain a b c d where v4: "v4 = [a, b, c, d]"
    by (auto simp: numeral_eq_Suc length_Suc_conv)
  have this_network: "inCidr [0, 0, 0, d] ([0, 0, 0, 0], 8)"
    using cidr_is_prefix [of 8 "[0, 0, 0, d]" "[0, 0, 0, 0]"] by (simp add: byte_bits_def)
  then have "\<not> v4Global [0, 0, 0, d]" by (simp add: v4Global_def V4_NOT_GLOBAL_def)
  then show ?thesis by (simp add: v6Global_def embeddedV4_def zeros_def has_byte_def v4 zeros_12)
qed

text \<open>
  An IPv6 address that embeds an IPv4 address in a standard form (mapped, compatible, NAT64, 6to4)
  is reachable exactly when the embedded address is.
\<close>

theorem embedded_address_decides:
  assumes "length v4 = 4"
  shows "v6Global (replicate 10 0 @ [0xff, 0xff] @ v4) = v4Global v4
    \<and> v6Global (replicate 12 0 @ v4) = v4Global v4
    \<and> v6Global ([0, 0x64, 0xff, 0x9b] @ replicate 8 0 @ v4) = v4Global v4
    \<and> v6Global ([0x20, 0x02] @ v4 @ rest) = v4Global v4"
  by (intro conjI embedded_forms [OF assms] compatible_form [OF assms])

lemma embedded_address_decides_witness:
  "\<not> v6Global (replicate 10 0 @ [0xff, 0xff] @ [127, 0, 0, 1]) \<and> v6Global ([0, 0x64, 0xff, 0x9b] @ replicate 8 0 @ [8, 8, 8, 8])"
proof -
  have "\<not> v4Global [127, 0, 0, 1]" "v4Global [8, 8, 8, 8]" by code_simp+
  then show ?thesis
    using embedded_address_decides [of "[127, 0, 0, 1]"] embedded_address_decides [of "[8, 8, 8, 8]"] by simp
qed

definition dot_or_digit :: "char \<Rightarrow> bool" where
  "dot_or_digit c \<longleftrightarrow> is_digit c \<or> c = CHR ''.''"

lemma join_chars: "list_all (list_all P) ss \<Longrightarrow> P d \<Longrightarrow> list_all P (join_with d ss)"
  by (induction ss rule: join_with.induct) auto

lemma v4_text_chars: "list_all dot_or_digit (v4_text bs)"
  unfolding v4_text_def
proof (rule join_chars)
  show "list_all (list_all dot_or_digit) (map (nat_string \<circ> unat) bs)"
    using nat_string_all_digits by (auto simp: list_all_iff dot_or_digit_def)
qed (simp add: dot_or_digit_def)

lemma plain_chars:
  assumes "list_all dot_or_digit s"
  shows "map lower_case s = s" "CHR '':'' \<notin> set s" "CHR ''%'' \<notin> set s"
proof -
  have "lower_case c = c" if "dot_or_digit c" for c
    using that by (auto simp: dot_or_digit_def lower_case_def Let_def is_digit_def)
  then show "map lower_case s = s" using assms by (simp add: list_all_iff map_idI)
  show "CHR '':'' \<notin> set s" "CHR ''%'' \<notin> set s" using assms by (auto simp: list_all_iff dot_or_digit_def is_digit_def)
qed

lemma drop_zone_none: "CHR ''%'' \<notin> set s \<Longrightarrow> drop_zone s = s"
  by (induction s) auto

lemma dotted_tail_text:
  assumes "length bs = 4"
  shows "dotted_tail (''::ffff:'' @ v4_text bs) = Some (''::ffff:'', v4_text bs)"
proof -
  have no: "CHR '':'' \<notin> set (rev (v4_text bs))" using plain_chars(2) [OF v4_text_chars] by simp
  have "takeWhile (\<lambda>c. c \<noteq> CHR '':'') (rev (''::ffff:'' @ v4_text bs)) = rev (v4_text bs)"
    using cut_at(1) [OF no, of "rev ''::ffff''"] by simp
  moreover have "split_on (CHR ''.'') (v4_text bs) = map (nat_string \<circ> unat) bs"
    unfolding v4_text_def using assms nat_string_no_dot by (intro split_join) auto
  moreover have "nat_string n \<noteq> []" for n by (subst nat_string.simps) simp
  ultimately show ?thesis using assms nat_string_all_digits by (simp add: dotted_tail_def Let_def list_all_iff)
qed

lemma v6Bytes_mapped:
  assumes "length bs = 4"
  shows "v6Bytes (''::ffff:'' @ v4_text bs) = Some (replicate 10 0 @ [0xff, 0xff] @ bs)"
proof -
  have "map lower_case ''::ffff:'' = ''::ffff:''" by code_simp
  then have "map lower_case (''::ffff:'' @ v4_text bs) = ''::ffff:'' @ v4_text bs"
    by (simp only: map_append plain_chars(1) [OF v4_text_chars])
  moreover have "drop_zone (''::ffff:'' @ v4_text bs) = ''::ffff:'' @ v4_text bs"
    using plain_chars(3) [OF v4_text_chars] by (intro drop_zone_none) simp
  moreover have "v6_halves (split_colons (''::ffff:'' @ ''0:0'')) = Some [0, 0, 0, 0, 0, 0, 0, 0, 0, 0, 0xff, 0xff, 0, 0, 0, 0]"
  proof -
    have "split_colons (''::ffff:'' @ ''0:0'') = [[], ''ffff:0:0'']" "split_on (CHR '':'') ''ffff:0:0'' = [''ffff'', ''0'', ''0'']" by code_simp+
    moreover have "hex_group ''ffff'' = Some [0xff, 0xff]" "hex_group ''0'' = Some [0, 0]"
      by (simp_all add: hex_group_def hex_value_def)
    moreover have "replicate 5 ''0'' = [''0'', ''0'', ''0'', ''0'', ''0'']" by (simp add: numeral_eq_Suc)
    ultimately show ?thesis by (simp add: v6_halves_def group_words_def)
  qed
  moreover have "replicate 10 (0 :: byte) = [0, 0, 0, 0, 0, 0, 0, 0, 0, 0]" by (simp add: numeral_eq_Suc)
  ultimately show ?thesis
    by (simp only: v6Bytes_def Let_def dotted_tail_text [OF assms] v4Bytes_text [OF assms] option.case prod.case option.map) simp
qed

text \<open>
  The text of an IPv4 address parses to its bytes, the mapped IPv6 spelling of it to the mapped
  bytes, and the two are denied alike.
\<close>

theorem mapped_spelling_is_judged_alike:
  assumes "length bs = 4" "ne_isIP ne (v4_text bs) = 4" "ne_isIP ne (''::ffff:'' @ v4_text bs) = 6"
  shows "v4Bytes (v4_text bs) = Some bs
    \<and> v6Bytes (''::ffff:'' @ v4_text bs) = Some (replicate 10 0 @ [0xff, 0xff] @ bs)
    \<and> addressDenied ne (''::ffff:'' @ v4_text bs) = addressDenied ne (v4_text bs)
    \<and> addressDenied ne (v4_text bs) = (\<not> v4Global bs)"
  using assms embedded_forms(1) [OF assms(1)]
  by (simp only: addressDenied_def v4Bytes_text v6Bytes_mapped option.case) simp

definition demo_net :: net_env where
  "demo_net = \<lparr>ne_isIP = (\<lambda>s. if CHR '':'' \<in> set s then 6 else if CHR ''.'' \<in> set s then 4 else 0), ne_url = (\<lambda>_. None),
     ne_lookup = (\<lambda>_. Inr [''8.8.8.8'']), ne_send = (\<lambda>a u i. Inr (200, [''ok'']))\<rparr>"

lemma mapped_spelling_is_judged_alike_witness:
  "addressDenied demo_net (''::ffff:'' @ v4_text [127, 0, 0, 1]) \<and> addressDenied demo_net (v4_text [127, 0, 0, 1])"
proof -
  have "ne_isIP demo_net (v4_text [127, 0, 0, 1]) = 4" "ne_isIP demo_net (''::ffff:'' @ v4_text [127, 0, 0, 1]) = 6"
    "\<not> v4Global [127, 0, 0, 1]"
    by code_simp+
  with mapped_spelling_is_judged_alike [of "[127, 0, 0, 1]" demo_net] show ?thesis by simp
qed

section \<open>What a request can reach\<close>

lemma pinned_is_global:
  assumes "pinned_address ne u False = Inr (Inr a)"
  shows "\<not> addressDenied ne a"
    and "ne_isIP ne (unbracketed (u_hostname u)) = 0 \<Longrightarrow> \<exists>as. ne_lookup ne (u_hostname u) = Inr (a # as) \<and> (\<forall>r \<in> set (a # as). \<not> addressDenied ne r)"
  using assms by (auto simp: pinned_address_def Let_def find_None_iff split: if_splits sum.splits list.splits option.splits)



end
