(* ===== verification/Webhooks.thy ===== *)
theory Webhooks
  imports Egress Ids Interrupts
begin

text \<open>
  Subscriptions and their deliveries (\<open>webhooks.ts\<close>, the two tables of \<open>store.ts\<close>, and the
  host events of \<open>host-events.ts\<close>): registration with endpoint verification, rotation of a
  secret, the fan-out of an event, an attempt and its outcome, the dead-letter pages, and the
  verifier of an inbound delivery. A column that holds the JSON text of a list holds the list.
\<close>

section \<open>The tables\<close>

record webhook_row =
  wr_id :: string
  wr_tenant :: string
  wr_url :: string
  wr_events :: "string list"
  wr_secret :: string
  wr_tags :: "string list option"
  wr_major :: nat
  wr_created :: nat
  wr_algorithms :: "string list option"
  wr_prev_secret :: "string option"
  wr_prev_expires :: "nat option"

record delivery_row =
  dl_id :: string
  dl_webhook :: string
  dl_tenant :: string
  dl_run :: string
  dl_seq :: int
  dl_type :: string
  dl_body :: string
  dl_attempts :: nat
  dl_next :: nat
  dl_state :: string
  dl_status :: "nat option"
  dl_error :: "string option"
  dl_created :: string
  dl_updated :: string
  dl_message :: "string option"

record webhook_db =
  wd_hooks :: "webhook_row list"
  wd_deliveries :: "delivery_row list"
  wd_rng :: nat

definition insertWebhook :: "webhook_row \<Rightarrow> webhook_db \<Rightarrow> webhook_db" where
  "insertWebhook row db = db\<lparr>wd_hooks := wd_hooks db @ [row]\<rparr>"

definition getWebhook :: "string \<Rightarrow> webhook_db \<Rightarrow> webhook_row option" where
  "getWebhook i db = find (\<lambda>r. wr_id r = i) (wd_hooks db)"

definition update_hook :: "string \<Rightarrow> (webhook_row \<Rightarrow> webhook_row) \<Rightarrow> webhook_db \<Rightarrow> webhook_db" where
  "update_hook i f db = db\<lparr>wd_hooks := map (\<lambda>r. if wr_id r = i then f r else r) (wd_hooks db)\<rparr>"

definition rotateSecretRow :: "string \<Rightarrow> string \<Rightarrow> string \<Rightarrow> nat \<Rightarrow> webhook_db \<Rightarrow> webhook_db" where
  "rotateSecretRow i secret prev expires =
     update_hook i (\<lambda>r. r\<lparr>wr_secret := secret, wr_prev_secret := Some prev, wr_prev_expires := Some expires\<rparr>)"

definition setWebhookPrevSecretExpiry :: "string \<Rightarrow> nat \<Rightarrow> webhook_db \<Rightarrow> webhook_db" where
  "setWebhookPrevSecretExpiry i expires = update_hook i (\<lambda>r. r\<lparr>wr_prev_expires := Some expires\<rparr>)"

definition deleteWebhook :: "string \<Rightarrow> webhook_db \<Rightarrow> webhook_db" where
  "deleteWebhook i db = db\<lparr>wd_hooks := filter (\<lambda>r. wr_id r \<noteq> i) (wd_hooks db)\<rparr>"

definition webhooksForTenant :: "string \<Rightarrow> webhook_db \<Rightarrow> webhook_row list" where
  "webhooksForTenant ten db = filter (\<lambda>r. wr_tenant r = ten) (wd_hooks db)"

definition insertDelivery :: "delivery_row \<Rightarrow> webhook_db \<Rightarrow> webhook_db" where
  "insertDelivery row db = db\<lparr>wd_deliveries := wd_deliveries db @ [row]\<rparr>"

definition dueDeliveries :: "nat \<Rightarrow> nat \<Rightarrow> webhook_db \<Rightarrow> delivery_row list" where
  "dueDeliveries now limit db =
     take limit (sort_key dl_next (filter (\<lambda>d. dl_state d = ''pending'' \<and> dl_next d \<le> now) (wd_deliveries db)))"

definition updateDelivery :: "string \<Rightarrow> string \<Rightarrow> (delivery_row \<Rightarrow> delivery_row) \<Rightarrow> webhook_db \<Rightarrow> webhook_db" where
  "updateDelivery stamp i f db =
     db\<lparr>wd_deliveries := map (\<lambda>d. if dl_id d = i then (f d)\<lparr>dl_updated := stamp\<rparr> else d) (wd_deliveries db)\<rparr>"

text \<open>Newest first by the time of the last change, then by id, continued strictly after a position.\<close>

definition dead_key :: "delivery_row \<Rightarrow> string \<times> string" where
  "dead_key d = (dl_updated d, dl_id d)"

definition deadLetters :: "string \<Rightarrow> nat \<Rightarrow> (string \<times> string) option \<Rightarrow> webhook_db \<Rightarrow> delivery_row list" where
  "deadLetters i limit after db =
     take limit (rev (sort_key dead_key (filter (\<lambda>d. dl_webhook d = i \<and> dl_state d = ''dead-lettered''
       \<and> (case after of None \<Rightarrow> True | Some k \<Rightarrow> dead_key d < k)) (wd_deliveries db))))"

definition purgeDeadLetters :: "string \<Rightarrow> webhook_db \<Rightarrow> webhook_db" where
  "purgeDeadLetters older db =
     db\<lparr>wd_deliveries := filter (\<lambda>d. \<not> (dl_state d = ''dead-lettered'' \<and> dl_updated d < older)) (wd_deliveries db)\<rparr>"

section \<open>Signatures\<close>

text \<open>The configuration this module reads, the random source, and the host's contract flags.\<close>

record webhook_env =
  we_host :: host
  we_net :: net_env
  we_private :: bool
  we_token :: "nat \<Rightarrow> string"
  we_max_attempts :: nat
  we_backoff :: nat
  we_retention_days :: nat
  we_overlap :: nat
  we_max_page :: nat
  we_cursor_key :: string
  we_family :: bool
  we_trigger :: bool
  we_negotiation :: bool

definition token :: "webhook_env \<Rightarrow> webhook_db \<Rightarrow> string \<times> webhook_db" where
  "token we db = (we_token we (wd_rng db), db\<lparr>wd_rng := Suc (wd_rng db)\<rparr>)"

definition sign :: "webhook_env \<Rightarrow> string \<Rightarrow> string \<Rightarrow> string \<Rightarrow> string" where
  "sign we secret timestamp raw = hex_of (h_hmac (we_host we) secret (timestamp @ ''.'' @ raw))"

definition STANDARD_WEBHOOKS :: string where "STANDARD_WEBHOOKS = ''standard-webhooks-1''"

definition signatureAlgorithms :: "webhook_env \<Rightarrow> string list" where
  "signatureAlgorithms we = (if ''webhook_endpoint_unverified'' \<in> set (a_error_codes (h_art (we_host we)))
     then [''v1'', STANDARD_WEBHOOKS] else [''v1''])"

definition secretRotation :: "webhook_env \<Rightarrow> nat option" where
  "secretRotation we = (if STANDARD_WEBHOOKS \<in> set (signatureAlgorithms we) then Some (we_overlap we) else None)"

text \<open>Base64 of the standard alphabet, padded.\<close>

definition std_char :: "nat \<Rightarrow> char" where
  "std_char n = (if n = 62 then CHR ''+'' else if n = 63 then CHR ''/'' else b64_char n)"

definition base64_std :: "string \<Rightarrow> string" where
  "base64_std s = (let body = map std_char (sextets (map of_char s)) in body @ replicate ((4 - length body mod 4) mod 4) (CHR ''=''))"

definition std_b64_char :: "char \<Rightarrow> bool" where
  "std_b64_char c \<longleftrightarrow> ascii_alnum c \<or> c = CHR ''+'' \<or> c = CHR ''/''"

definition whsecKey :: "json option \<Rightarrow> string option" where
  "whsecKey secret = (case str_of secret of None \<Rightarrow> None
     | Some s \<Rightarrow> if \<not> starts_with ''whsec_'' s then None
         else (let b64 = drop 6 s; body = takeWhile std_b64_char b64; pad = dropWhile std_b64_char b64; key = from_base64url b64
               in if body = [] \<or> pad \<notin> {[], ''='', ''==''} then None
                  else if 24 \<le> length key \<and> length key \<le> 64 then Some key else None))"

definition standardWebhooksSign :: "webhook_env \<Rightarrow> string \<Rightarrow> string \<Rightarrow> string \<Rightarrow> string \<Rightarrow> exn + string" where
  "standardWebhooksSign we secret i timestamp raw = (case whsecKey (Some (JStr secret)) of
     None \<Rightarrow> Inl (JsError ''standard-webhooks-1 subscription holds a secret that is not whsec_ form'')
   | Some key \<Rightarrow> Inr (''v1,'' @ base64_std (h_hmac (we_host we) key (i @ ''.'' @ timestamp @ ''.'' @ raw))))"

definition message_id :: "string \<Rightarrow> string" where
  "message_id tok = ''msg_'' @ tok"

definition optedIn :: "webhook_row \<Rightarrow> bool" where
  "optedIn sub = (case wr_algorithms sub of None \<Rightarrow> False | Some as \<Rightarrow> STANDARD_WEBHOOKS \<in> set as)"

text \<open>A request whose rejection is caught: the error takes the place of an answer.\<close>

definition caught_request :: "webhook_env \<Rightarrow> string \<Rightarrow> egress_init \<Rightarrow> egress_result" where
  "caught_request we raw init = (case ne_url (we_net we) raw of None \<Rightarrow> failed ''Invalid URL''
     | Some u \<Rightarrow> (case guardedRequest (we_net we) u init of Inl e \<Rightarrow> failed (exn_message e) | Inr r \<Rightarrow> r))"

definition is_2xx :: "egress_result \<Rightarrow> bool" where
  "is_2xx r \<longleftrightarrow> eg_error r = None \<and> 200 \<le> eg_status r \<and> eg_status r < 300"

definition verifyEndpoint :: "webhook_env \<Rightarrow> nat \<Rightarrow> string \<Rightarrow> string \<Rightarrow> webhook_db \<Rightarrow> (exn + unit) \<times> webhook_db" where
  "verifyEndpoint we now raw secret db =
     (let (challenge, db1) = token we db;
          body = json_stringify (JObj [(''type'', JStr ''openwop.webhook.verification''), (''challenge'', JStr challenge)]);
          (tok, db2) = token we db1; i = message_id tok; timestamp = nat_string (now div 1000)
      in (and_then (standardWebhooksSign we secret i timestamp body) (\<lambda>sig.
           let r = caught_request we raw \<lparr>ei_method = ''POST'', ei_headers = [(''Content-Type'', ''application/json''), (''webhook-id'', i),
                 (''webhook-timestamp'', timestamp), (''webhook-signature'', sig)],
                 ei_body = Some body, ei_timeout = 10000, ei_private = we_private we, ei_max_body = None\<rparr>;
               echoed = jget (json_parse (eg_body r)) ''challenge''
           in throw_if (\<not> is_2xx r \<or> echoed \<noteq> Some (JStr challenge))
                (HostError ''webhook_endpoint_unverified'' (''the endpoint did not consent to the subscription (RFC 0201 '' @ SECTION_SIGN @ ''D.14): ''
                   @ (case eg_error r of Some m \<Rightarrow> m | None \<Rightarrow> if eg_status r < 200 \<or> eg_status r \<ge> 300 then ''HTTP '' @ nat_string (eg_status r)
                      else ''the response did not echo the challenge'')) None)), db2))"

section \<open>Host event types\<close>

definition hostEventTypes :: "webhook_env \<Rightarrow> (string \<times> string) list" where
  "hostEventTypes we = (if \<not> we_family we then [] else
     (if h_seams (we_host we) then [(''example.thing-happened'', ''durable''), (''example.thing-noticed'', ''ephemeral'')] else [])
     @ (if we_trigger we then [(''host-test.durable-triggered'', ''durable''), (''host-test.ephemeral-triggered'', ''ephemeral'')] else [])
     @ (if we_negotiation we then [(''negotiation.decided'', ''durable'')] else []))"

section \<open>Registration\<close>

definition EN_DASH :: string where "EN_DASH = [CHR 0xE2, CHR 0x80, CHR 0x93]"

definition bad_request :: "string \<Rightarrow> json option \<Rightarrow> exn" where
  "bad_request m ds = HostError ''validation_error'' m ds"

definition field_detail :: "string \<Rightarrow> string \<Rightarrow> json option" where
  "field_detail k v = Some (JObj [(k, JStr v)])"

definition strings_of :: "json option \<Rightarrow> string list option" where
  "strings_of v = (case arr_of v of None \<Rightarrow> None
     | Some xs \<Rightarrow> if list_all (\<lambda>x. is_str (Some x)) xs then Some (map (\<lambda>x. text_of (Some x)) xs) else None)"

definition REGISTRATION_KEYS :: "string list" where
  "REGISTRATION_KEYS = [''url'', ''events'', ''secret'', ''tags'', ''signatureAlgorithms'']"

definition unknown_key :: "string list \<Rightarrow> string \<Rightarrow> (string \<times> json) list \<Rightarrow> exn option" where
  "unknown_key allowed m body = map_option (\<lambda>kv. bad_request (''unknown key '' @ fst kv @ m) (field_detail ''key'' (fst kv)))
     (find (\<lambda>kv. fst kv \<notin> set allowed) body)"

text \<open>The stored v2 name of a requested type.\<close>

definition stored_event :: "webhook_env \<Rightarrow> nat \<Rightarrow> string \<Rightarrow> exn + string" where
  "stored_event we major e =
     (let art = h_art (we_host we) in
      if major = 1 then (case map_of (codemap art) e of
           Some v2 \<Rightarrow> Inr v2
         | None \<Rightarrow> if a_vendor art e then Inr e else Inl (bad_request (e @ '' is not a registered v1 event type'') (field_detail ''type'' e)))
      else case map_of (hostEventTypes we) e of
          Some delivery \<Rightarrow> if delivery = ''ephemeral''
            then Inl (bad_request (e @ '' is an ephemeral host-event type and is never delivered through webhooks (RFC 0236 '' @ SECTION_SIGN @ ''C)'')
              (field_detail ''type'' e)) else Inr e
        | None \<Rightarrow> if e \<in> set (a_v2_types art) \<or> a_vendor art e then Inr e
            else Inl (bad_request (e @ '' is not a registered v2 event type'') (field_detail ''type'' e)))"

definition requested_events :: "json option \<Rightarrow> exn + string list" where
  "requested_events v = (case strings_of v of
       Some es \<Rightarrow> if es \<noteq> [] \<and> list_all (\<lambda>e. e \<noteq> []) es then Inr es
         else Inl (bad_request ''events[] MUST be a non-empty array of v2 event type names'' None)
     | None \<Rightarrow> Inl (bad_request ''events[] MUST be a non-empty array of v2 event type names'' None))"

definition requested_algorithms :: "webhook_env \<Rightarrow> json option \<Rightarrow> exn + string list option" where
  "requested_algorithms we v =
     (let f = field_detail ''field'' ''signatureAlgorithms'' in
      case v of None \<Rightarrow> Inr None
      | Some _ \<Rightarrow> (case strings_of v of
          None \<Rightarrow> Inl (bad_request ''signatureAlgorithms MUST be a non-empty string array'' f)
        | Some as \<Rightarrow>
          if as = [] then Inl (bad_request ''signatureAlgorithms MUST be a non-empty string array'' f)
          else if ''v1'' \<notin> set as then Inl (bad_request (''signatureAlgorithms MUST contain '' @ quote_string ''v1'' @ '' (RFC 0201 '' @ SECTION_SIGN @ ''B.5)'') f)
          else if \<not> distinct as then Inl (bad_request (''signatureAlgorithms MUST NOT repeat a value (RFC 0201 '' @ SECTION_SIGN @ ''B.5)'') f)
          else case find (\<lambda>a. a \<notin> set (signatureAlgorithms we)) as of
              Some a \<Rightarrow> Inl (bad_request (a @ '' is not in this host's webhooks.signatureAlgorithms'') f)
            | None \<Rightarrow> Inr (Some as)))"

definition wants_standard :: "string list option \<Rightarrow> bool" where
  "wants_standard algs = (case algs of None \<Rightarrow> False | Some as \<Rightarrow> STANDARD_WEBHOOKS \<in> set as)"

text \<open>Every check before the endpoint is asked: the stored names and the algorithms.\<close>

definition registration :: "webhook_env \<Rightarrow> nat \<Rightarrow> (string \<times> json) list \<Rightarrow> exn + string list \<times> string list option" where
  "registration we major body =
     (case unknown_key REGISTRATION_KEYS ('' '' @ EM_DASH @ '' the registration body is closed { url, events[], secret?, tags?, signatureAlgorithms? }'') body of
        Some e \<Rightarrow> Inl e
      | None \<Rightarrow>
        and_then (throw_if (\<not> is_str (map_of body ''url'')) (bad_request ''url is REQUIRED'' None)) (\<lambda>_.
        and_then (validateEgressUrl (we_net we) (text_of (map_of body ''url'')) (we_private we)) (\<lambda>_.
        and_then (requested_events (map_of body ''events'')) (\<lambda>events.
        and_then (results (map (stored_event we major) events)) (\<lambda>stored.
        and_then (throw_if (map_of body ''secret'' \<noteq> None \<and> text_of (map_of body ''secret'') = []) (bad_request ''secret MUST be a non-empty string'' None)) (\<lambda>_.
        and_then (throw_if (map_of body ''tags'' \<noteq> None \<and> strings_of (map_of body ''tags'') = None) (bad_request ''tags MUST be a string array'' None)) (\<lambda>_.
        and_then (requested_algorithms we (map_of body ''signatureAlgorithms'')) (\<lambda>algs.
        and_then (throw_if (wants_standard algs \<and> whsecKey (map_of body ''secret'') = None)
          (bad_request (''an opt-in to standard-webhooks-1 MUST carry secret as whsec_<base64 of 24'' @ EN_DASH @ ''64 bytes> (RFC 0201 '' @ SECTION_SIGN @ ''B.6)'')
             (field_detail ''field'' ''secret''))) (\<lambda>_. Inr (stored, algs))))))))))"

definition new_opaque :: "webhook_env \<Rightarrow> webhook_db \<Rightarrow> string \<times> webhook_db" where
  "new_opaque we db = (h_opaque (we_host we) (wd_rng db), db\<lparr>wd_rng := Suc (wd_rng db)\<rparr>)"

definition registration_reply :: "webhook_row \<Rightarrow> bool \<Rightarrow> json" where
  "registration_reply row generated = jobj [(''webhookId'', Some (JStr (wr_id row))),
     (''signatureAlgorithms'', map_option (JArr \<circ> map JStr) (wr_algorithms row)),
     (''secret'', if generated then Some (JStr (wr_secret row)) else None)]"

definition registerWebhook :: "webhook_env \<Rightarrow> nat \<Rightarrow> string \<Rightarrow> (string \<times> json) list \<Rightarrow> nat \<Rightarrow> webhook_db \<Rightarrow> (exn + json) \<times> webhook_db" where
  "registerWebhook we now ten body major db =
     (case registration we major body of Inl e \<Rightarrow> (Inl e, db)
      | Inr (stored, algs) \<Rightarrow>
        (let raw = text_of (map_of body ''url'');
             (verdict, db1) = (if wants_standard algs then verifyEndpoint we now raw (text_of (map_of body ''secret'')) db else (Inr (), db))
         in case verdict of Inl e \<Rightarrow> (Inl e, db1)
            | Inr _ \<Rightarrow>
              (let (op, db2) = new_opaque we db1; (tok, db3) = token we db2;
                   generated = (map_of body ''secret'' = None);
                   row = \<lparr>wr_id = ten @ ''/'' @ op, wr_tenant = ten, wr_url = raw, wr_events = stored,
                     wr_secret = (if generated then tok else text_of (map_of body ''secret'')),
                     wr_tags = strings_of (map_of body ''tags''), wr_major = major, wr_created = now, wr_algorithms = algs,
                     wr_prev_secret = None, wr_prev_expires = None\<rparr>
               in (Inr (registration_reply row generated), insertWebhook row (if generated then db3 else db2)))))"

section \<open>The operations on one subscription\<close>

text \<open>The tenant segment is checked before the lookup.\<close>

definition own_webhook :: "string \<Rightarrow> string \<Rightarrow> webhook_db \<Rightarrow> exn + webhook_row" where
  "own_webhook ten i db =
     and_then (checkTenantBound i ten ''webhookId'') (\<lambda>_. case getWebhook i db of
        None \<Rightarrow> Inl (HostError ''not_found'' ''no such webhook'' None)
      | Some row \<Rightarrow> if wr_tenant row \<noteq> ten then Inl (HostError ''forbidden'' ''the subscription belongs to another tenant'' None) else Inr row)"

definition rotateWebhookSecret :: "webhook_env \<Rightarrow> nat \<Rightarrow> string \<Rightarrow> string \<Rightarrow> (string \<times> json) list \<Rightarrow> webhook_db \<Rightarrow> (exn + json) \<times> webhook_db" where
  "rotateWebhookSecret we now ten i body db =
     (case secretRotation we of None \<Rightarrow> (Inl (HostError ''not_found'' ''webhooks.secretRotation is not advertised'' None), db)
      | Some overlap \<Rightarrow>
        (case own_webhook ten i db of Inl e \<Rightarrow> (Inl e, db)
         | Inr row \<Rightarrow>
           (case unknown_key [''secret''] ('' '' @ EM_DASH @ '' the rotation body is closed { secret }'') body of Some e \<Rightarrow> (Inl e, db)
            | None \<Rightarrow>
              if whsecKey (map_of body ''secret'') = None
              then (Inl (bad_request (''secret MUST be whsec_<base64 of 24'' @ EN_DASH @ ''64 bytes> (RFC 0201 '' @ SECTION_SIGN @ ''B.6)'') (field_detail ''field'' ''secret'')), db)
              else if \<not> optedIn row
              then (Inl (bad_request (''the subscription did not opt into standard-webhooks-1; its single v1 signature cannot overlap (RFC 0201 '' @ SECTION_SIGN @ ''E.18)'') None), db)
              else (let expires = now + overlap * 1000 in
                (Inr (JObj [(''rotatedAt'', JStr (h_iso (we_host we) now)), (''previousSecretExpiresAt'', JStr (h_iso (we_host we) expires))]),
                 rotateSecretRow i (text_of (map_of body ''secret'')) (wr_secret row) expires db)))))"

definition shortenRotationOverlap :: "webhook_env \<Rightarrow> nat \<Rightarrow> string \<Rightarrow> string \<Rightarrow> nat \<Rightarrow> webhook_db \<Rightarrow> (exn + json) \<times> webhook_db" where
  "shortenRotationOverlap we now ten i overlap db =
     (if secretRotation we = None then (Inl (HostError ''not_found'' ''webhooks.secretRotation is not advertised'' None), db)
      else case own_webhook ten i db of Inl e \<Rightarrow> (Inl e, db)
      | Inr row \<Rightarrow>
        if \<not> optedIn row then (Inl (bad_request ''the subscription did not opt into standard-webhooks-1; it has no overlap'' None), db)
        else (case (wr_prev_secret row, wr_prev_expires row) of
            (Some _, Some current) \<Rightarrow>
              if current \<le> now then (Inl (bad_request ''no rotation overlap is in progress on this subscription'' None), db)
              else if now + overlap * 1000 \<ge> current
              then (Inl (bad_request ''the seam only shortens an overlap; this expiry is not earlier than the current one''
                (field_detail ''previousSecretExpiresAt'' (h_iso (we_host we) current))), db)
              else (Inr (JObj [(''webhookId'', JStr i), (''previousSecretExpiresAt'', JStr (h_iso (we_host we) (now + overlap * 1000)))]),
                setWebhookPrevSecretExpiry i (now + overlap * 1000) db)
          | _ \<Rightarrow> (Inl (bad_request ''no rotation overlap is in progress on this subscription'' None), db)))"

definition unregisterWebhook :: "string \<Rightarrow> string \<Rightarrow> webhook_db \<Rightarrow> (exn + unit) \<times> webhook_db" where
  "unregisterWebhook ten i db = (case own_webhook ten i db of Inl e \<Rightarrow> (Inl e, db) | Inr _ \<Rightarrow> (Inr (), deleteWebhook i db))"

section \<open>Dead letters\<close>

definition bar_separated :: "string list \<Rightarrow> string" where
  "bar_separated = join_with (CHR ''|'')"

definition cursor_mac :: "webhook_env \<Rightarrow> string \<Rightarrow> string" where
  "cursor_mac we payload = base64url (h_hmac (we_host we) (we_cursor_key we) payload)"

definition mintDeadLetterCursor :: "webhook_env \<Rightarrow> string \<Rightarrow> delivery_row \<Rightarrow> string" where
  "mintDeadLetterCursor we i row =
     (let payload = bar_separated [i, dl_updated row, dl_id row] in base64url (payload @ ''|'' @ cursor_mac we payload))"

text \<open>\<open>mac.length\<close> counts UTF-16 units; \<open>timingSafeEqual\<close> throws on two byte lengths that differ.\<close>

definition cursor_refusal :: "string \<Rightarrow> exn" where
  "cursor_refusal m = bad_request m (field_detail ''field'' ''cursor'')"

definition readDeadLetterCursor :: "webhook_env \<Rightarrow> string \<Rightarrow> string \<Rightarrow> exn + string \<times> string" where
  "readDeadLetterCursor we raw i = (case split_on (CHR ''|'') (from_base64url raw) of
       [bound, updated, did, given] \<Rightarrow>
         let expect = cursor_mac we (bar_separated [bound, updated, did]) in
         if utf16_length given \<noteq> length expect then Inl (cursor_refusal ''cursor is not one this host minted'')
         else if length given \<noteq> length expect then Inl (JsError ''Input buffers must have the same byte length'')
         else if given \<noteq> expect then Inl (cursor_refusal ''cursor is not one this host minted'')
         else if bound \<noteq> i then Inl (cursor_refusal ''cursor was minted for another subscription'')
         else Inr (updated, did)
     | _ \<Rightarrow> Inl (cursor_refusal ''cursor is not one this host minted''))"

definition eventIdOf :: "delivery_row \<Rightarrow> string" where
  "eventIdOf d = (let parsed = json_parse (dl_body d);
       i = text_of (nullish (jget (jget parsed ''event'') ''eventId'') (jget (jget parsed ''hostEvent'') ''eventId''))
     in if i \<noteq> [] then i else ''evt_'' @ dl_id d)"

definition dead_letter_json :: "webhook_env \<Rightarrow> delivery_row \<Rightarrow> exn + json" where
  "dead_letter_json we d = (case h_date (we_host we) (dl_updated d) of
       None \<Rightarrow> Inl (JsError ''Invalid time value'')
     | Some ms \<Rightarrow> Inr (jobj [(''deliveryId'', Some (JStr (dl_id d))), (''webhookId'', Some (JStr (dl_webhook d))),
         (''runId'', if dl_run d \<noteq> [] then Some (JStr (dl_run d)) else None),
         (''eventId'', Some (JStr (eventIdOf d))), (''eventType'', Some (JStr (dl_type d))),
         (''attempts'', Some (JNum (int (dl_attempts d)))), (''deadLetteredAt'', Some (JStr (dl_updated d))),
         (''expiresAt'', Some (JStr (h_iso (we_host we) (ms + we_retention_days we * 86400000)))),
         (''reason'', Some (JStr ''retries_exhausted'')), (''lastStatus'', map_option (JNum \<circ> int) (dl_status d))]))"

definition page_limit :: "webhook_env \<Rightarrow> string option \<Rightarrow> exn + nat" where
  "page_limit we raw = (case raw of None \<Rightarrow> Inr (we_max_page we)
     | Some s \<Rightarrow> if is_decimal s \<and> s \<noteq> ''0'' then Inr (min (decimal_value s) (we_max_page we))
         else Inl (bad_request ''limit MUST be an integer >= 1'' (field_detail ''field'' ''limit'')))"

text \<open>The rows of a page and the cursor of the next.\<close>

definition dead_letter_page :: "webhook_env \<Rightarrow> string \<Rightarrow> string \<Rightarrow> string option \<Rightarrow> string option \<Rightarrow> webhook_db
    \<Rightarrow> exn + delivery_row list \<times> string option" where
  "dead_letter_page we ten i limitRaw cursorRaw db =
     and_then (own_webhook ten i db) (\<lambda>_. and_then (page_limit we limitRaw) (\<lambda>limit.
     and_then (case cursorRaw of None \<Rightarrow> Inr None | Some c \<Rightarrow> map_sum id Some (readDeadLetterCursor we c i)) (\<lambda>after.
       (let rows = deadLetters i (limit + 1) after db; page = take limit rows
        in Inr (page, if length rows > limit \<and> page \<noteq> [] then Some (mintDeadLetterCursor we i (last page)) else None)))))"

definition deadLetterProjection :: "webhook_env \<Rightarrow> string \<Rightarrow> string \<Rightarrow> string option \<Rightarrow> string option \<Rightarrow> webhook_db \<Rightarrow> exn + json" where
  "deadLetterProjection we ten i limitRaw cursorRaw db =
     and_then (dead_letter_page we ten i limitRaw cursorRaw db) (\<lambda>(page, next).
       map_sum id (\<lambda>ds. jobj [(''deliveries'', Some (JArr ds)), (''nextCursor'', map_option JStr next)])
         (results (map (dead_letter_json we) page)))"

section \<open>Fan-out\<close>

definition tagsOverlap :: "webhook_row \<Rightarrow> string list \<Rightarrow> bool" where
  "tagsOverlap sub run_tags = (case wr_tags sub of None \<Rightarrow> True | Some wanted \<Rightarrow> wanted = [] \<or> list_ex (\<lambda>t. t \<in> set run_tags) wanted)"

text \<open>The event as the wire spells it.\<close>

definition doc_json :: "host \<Rightarrow> event_doc \<Rightarrow> json" where
  "doc_json h d = jobj [(''eventId'', Some (JStr (doc_id d))), (''runId'', Some (JStr (doc_run d))), (''type'', Some (JStr (doc_type d))),
     (''payload'', Some (doc_payload d)), (''timestamp'', Some (JStr (h_iso h (doc_time d)))), (''sequence'', Some (JNum (doc_seq d))),
     (''schemaVersion'', Some (JNum (int (doc_schema d)))), (''engineVersion'', doc_engine d), (''nodeId'', map_option JStr (doc_node d)),
     (''causationId'', map_option JStr (doc_causation d))]"

definition pending_row :: "webhook_env \<Rightarrow> nat \<Rightarrow> webhook_row \<Rightarrow> string \<Rightarrow> string \<Rightarrow> int \<Rightarrow> string \<Rightarrow> string \<Rightarrow> string \<Rightarrow> string option \<Rightarrow> delivery_row" where
  "pending_row we now sub ten run seq etype body i message =
     \<lparr>dl_id = ten @ ''/'' @ i, dl_webhook = wr_id sub, dl_tenant = ten, dl_run = run, dl_seq = seq, dl_type = etype, dl_body = body,
      dl_attempts = 0, dl_next = now, dl_state = ''pending'', dl_status = None, dl_error = None,
      dl_created = h_iso (we_host we) now, dl_updated = h_iso (we_host we) now, dl_message = message\<rparr>"

definition queue_delivery :: "webhook_env \<Rightarrow> nat \<Rightarrow> webhook_row \<Rightarrow> string \<Rightarrow> string \<Rightarrow> int \<Rightarrow> string \<Rightarrow> string \<Rightarrow> webhook_db \<Rightarrow> webhook_db" where
  "queue_delivery we now sub ten run seq etype body db =
     (let (i, db1) = new_opaque we db; (tok, db2) = token we db1
      in if optedIn sub then insertDelivery (pending_row we now sub ten run seq etype body i (Some (message_id tok))) db2
         else insertDelivery (pending_row we now sub ten run seq etype body i None) db1)"

definition run_tags :: "run_row option \<Rightarrow> string list" where
  "run_tags r = (case r of None \<Rightarrow> [] | Some x \<Rightarrow> (case strings_of (jfield (r_options x) ''tags'') of None \<Rightarrow> [] | Some ts \<Rightarrow> ts))"

definition workspace_field :: "run_row option \<Rightarrow> nat \<Rightarrow> (string \<times> json) list" where
  "workspace_field r major = (case r of None \<Rightarrow> if major = 1 then [(''workspaceId'', JStr ''default'')] else []
     | Some x \<Rightarrow> (case jget (r_owner x) ''workspace'' of Some v \<Rightarrow> [(''workspaceId'', v)]
         | None \<Rightarrow> if major = 1 then [(''workspaceId'', JStr ''default'')] else []))"

definition wanted_by :: "webhook_row \<Rightarrow> appended \<Rightarrow> run_row option \<Rightarrow> bool" where
  "wanted_by sub e r \<longleftrightarrow> doc_type (ap_doc e) \<in> set (wr_events sub) \<and> tagsOverlap sub (run_tags r)"

definition contract_of :: "webhook_row \<Rightarrow> nat" where
  "contract_of sub = (if wr_major sub = 2 then 2 else 1)"

definition delivery_body :: "webhook_env \<Rightarrow> webhook_row \<Rightarrow> appended \<Rightarrow> run_row option \<Rightarrow> exn + string" where
  "delivery_body we sub e r =
     (let major = contract_of sub;
          rid = (if major = 1 then (case dropWhile (\<lambda>c. c \<noteq> CHR ''/'') (ap_run e) of [] \<Rightarrow> ap_run e | c # t \<Rightarrow> t) else ap_run e)
      in map_sum id (\<lambda>doc. json_stringify (JObj ((''runId'', JStr rid) # workspace_field r major @ [(''event'', doc_json (we_host we) doc)])))
           (docForMajor (h_art (we_host we)) (ap_doc e) major))"

text \<open>A rendering that throws leaves the listener, after the deliveries queued before it.\<close>

fun fan_out_to :: "webhook_env \<Rightarrow> nat \<Rightarrow> appended \<Rightarrow> run_row option \<Rightarrow> webhook_row list \<Rightarrow> webhook_db \<Rightarrow> (exn + unit) \<times> webhook_db" where
  "fan_out_to we now e r [] db = (Inr (), db)"
| "fan_out_to we now e r (sub # subs) db =
     (if \<not> wanted_by sub e r then fan_out_to we now e r subs db
      else case delivery_body we sub e r of
          Inl x \<Rightarrow> (Inl x, db)
        | Inr body \<Rightarrow> fan_out_to we now e r subs
            (queue_delivery we now sub (ap_tenant e) (ap_run e) (doc_seq (ap_doc e)) (doc_type (ap_doc e)) body db))"

definition fanned_out :: "appended \<Rightarrow> bool" where
  "fanned_out e \<longleftrightarrow> ap_fork_mode e \<noteq> Some ''replay''
     \<and> \<not> (ap_fork_mode e = Some ''branch'' \<and> (case ap_from_seq e of None \<Rightarrow> False | Some n \<Rightarrow> doc_seq (ap_doc e) < n))"

definition subscribeFanout :: "webhook_env \<Rightarrow> nat \<Rightarrow> appended \<Rightarrow> run_row option \<Rightarrow> webhook_db \<Rightarrow> (exn + unit) \<times> webhook_db" where
  "subscribeFanout we now e r db =
     (if \<not> fanned_out e then (Inr (), db) else fan_out_to we now e r (webhooksForTenant (ap_tenant e) db) db)"

record host_event =
  hv_id :: string
  hv_type :: string
  hv_time :: string
  hv_delivery :: string
  hv_workspace :: "string option"
  hv_payload :: json

definition host_event_json :: "host_event \<Rightarrow> json" where
  "host_event_json e = jobj [(''eventId'', Some (JStr (hv_id e))), (''type'', Some (JStr (hv_type e))), (''timestamp'', Some (JStr (hv_time e))),
     (''delivery'', Some (JStr (hv_delivery e))), (''workspaceId'', map_option JStr (hv_workspace e)), (''payload'', Some (hv_payload e))]"

definition fanOutHostEvent :: "webhook_env \<Rightarrow> nat \<Rightarrow> string \<Rightarrow> host_event \<Rightarrow> webhook_db \<Rightarrow> webhook_db" where
  "fanOutHostEvent we now ten e db =
     fold (\<lambda>sub. queue_delivery we now sub ten [] (-1) (hv_type e) (json_stringify (JObj [(''hostEvent'', host_event_json e)])))
       (filter (\<lambda>sub. wr_major sub = 2 \<and> hv_type e \<in> set (wr_events sub)) (webhooksForTenant ten db)) db"

section \<open>One attempt\<close>

text \<open>The secret the scheme-\<open>v1\<close> signature stays on while a rotation overlaps.\<close>

definition overlap_secret :: "nat \<Rightarrow> webhook_row \<Rightarrow> string option" where
  "overlap_secret now sub = (case (wr_prev_secret sub, wr_prev_expires sub) of
     (Some p, Some t) \<Rightarrow> if now < t then Some p else None | _ \<Rightarrow> None)"

definition signing_secret :: "nat \<Rightarrow> webhook_row \<Rightarrow> string" where
  "signing_secret now sub = (case overlap_secret now sub of Some p \<Rightarrow> p | None \<Rightarrow> wr_secret sub)"

definition v1_headers :: "webhook_env \<Rightarrow> nat \<Rightarrow> webhook_row \<Rightarrow> string \<Rightarrow> string \<Rightarrow> (string \<times> string) list" where
  "v1_headers we now sub wire_type raw =
     (let timestamp = nat_string (now div 1000); signature = ''sha256='' @ sign we (signing_secret now sub) timestamp raw
      in [(''Content-Type'', ''application/json''),
          (''OpenWOP-Webhook-Id'', wr_id sub), (''OpenWOP-Event-Type'', wire_type), (''OpenWOP-Timestamp'', timestamp),
          (''OpenWOP-Signature'', signature), (''OpenWOP-Signature-Algorithm'', ''v1''),
          (''X-openwop-Webhook-Id'', wr_id sub), (''X-openwop-Event-Type'', wire_type), (''X-openwop-Timestamp'', timestamp),
          (''X-openwop-Signature'', signature), (''X-openwop-Signature-Algorithm'', ''v1'')])"

definition standard_headers :: "webhook_env \<Rightarrow> nat \<Rightarrow> webhook_row \<Rightarrow> string \<Rightarrow> string \<Rightarrow> exn + (string \<times> string) list" where
  "standard_headers we now sub i raw =
     (let timestamp = nat_string (now div 1000) in
      map_sum id (\<lambda>entries. [(''webhook-id'', i), (''webhook-timestamp'', timestamp), (''webhook-signature'', join_with (CHR '' '') entries)])
        (results (map (\<lambda>secret. standardWebhooksSign we secret i timestamp raw)
          (wr_secret sub # (case overlap_secret now sub of None \<Rightarrow> [] | Some p \<Rightarrow> [p])))))"

text \<open>What an attempt sends, and the message id it settles on the row when it had none.\<close>

definition attempt_headers :: "webhook_env \<Rightarrow> nat \<Rightarrow> webhook_row \<Rightarrow> delivery_row \<Rightarrow> webhook_db \<Rightarrow> (exn + (string \<times> string) list) \<times> webhook_db" where
  "attempt_headers we now sub d db =
     (case (if wr_major sub = 2 then Inr (dl_type d) else v1TypeOf (h_art (we_host we)) (dl_type d)) of
        Inl e \<Rightarrow> (Inl e, db)
      | Inr wire_type \<Rightarrow>
        (let plain = v1_headers we now sub wire_type (dl_body d) in
         if \<not> optedIn sub then (Inr plain, db)
         else (let (i, db1) = (case dl_message d of Some m \<Rightarrow> (m, db) | None \<Rightarrow>
                      (let (tok, db') = token we db; m = message_id tok
                       in (m, updateDelivery (h_iso (we_host we) now) (dl_id d) (\<lambda>x. x\<lparr>dl_message := Some m\<rparr>) db')))
               in (map_sum id (\<lambda>hs. plain @ hs) (standard_headers we now sub i (dl_body d)), db1))))"

definition settle_attempt :: "webhook_env \<Rightarrow> nat \<Rightarrow> delivery_row \<Rightarrow> egress_result \<Rightarrow> webhook_db \<Rightarrow> webhook_db" where
  "settle_attempt we now d r db =
     (let attempts = dl_attempts d + 1; stamp = h_iso (we_host we) now;
          err = (case eg_error r of Some m \<Rightarrow> m | None \<Rightarrow> ''HTTP '' @ nat_string (eg_status r))
      in if is_2xx r
         then updateDelivery stamp (dl_id d) (\<lambda>x. x\<lparr>dl_state := ''delivered'', dl_attempts := attempts, dl_status := Some (eg_status r), dl_error := None\<rparr>) db
         else if attempts \<ge> we_max_attempts we
         then updateDelivery stamp (dl_id d) (\<lambda>x. x\<lparr>dl_state := ''dead-lettered'', dl_attempts := attempts, dl_status := Some (eg_status r), dl_error := Some err\<rparr>) db
         else updateDelivery stamp (dl_id d) (\<lambda>x. x\<lparr>dl_attempts := attempts, dl_next := now + we_backoff we * 2 ^ (attempts - 1),
                dl_status := Some (eg_status r), dl_error := Some err\<rparr>) db)"

text \<open>
  An attempt at \<open>now\<close> whose answer arrives at \<open>later\<close>. What throws before the request is caught
  by the worker and changes nothing.
\<close>

definition attempt :: "webhook_env \<Rightarrow> nat \<Rightarrow> nat \<Rightarrow> delivery_row \<Rightarrow> webhook_db \<Rightarrow> (exn + unit) \<times> webhook_db" where
  "attempt we now later d db =
     (case getWebhook (dl_webhook d) db of
        None \<Rightarrow> (Inr (), updateDelivery (h_iso (we_host we) now) (dl_id d)
          (\<lambda>x. x\<lparr>dl_state := ''dead-lettered'', dl_error := Some ''subscription removed''\<rparr>) db)
      | Some sub \<Rightarrow>
        (case attempt_headers we now sub d db of
           (Inl e, db1) \<Rightarrow> (Inl e, db1)
         | (Inr hs, db1) \<Rightarrow> (Inr (), settle_attempt we later d
             (caught_request we (wr_url sub) \<lparr>ei_method = ''POST'', ei_headers = hs, ei_body = Some (dl_body d), ei_timeout = 5000,
                ei_private = we_private we, ei_max_body = None\<rparr>) db1)))"

text \<open>One tick of the worker, over the deliveries not already in flight.\<close>

definition picked :: "nat \<Rightarrow> string list \<Rightarrow> webhook_db \<Rightarrow> delivery_row list" where
  "picked now inflight db = filter (\<lambda>d. dl_id d \<notin> set inflight) (dueDeliveries now 20 db)"

definition purge_tick :: "webhook_env \<Rightarrow> nat \<Rightarrow> webhook_db \<Rightarrow> webhook_db" where
  "purge_tick we now = purgeDeadLetters (h_iso (we_host we) (now - we_retention_days we * 86400000))"

section \<open>An inbound delivery\<close>

definition lowered :: "(string \<times> string) list \<Rightarrow> (string \<times> string) list" where
  "lowered hs = fold (\<lambda>(k, v) m. AList.update (map lower_case k) v m) hs []"

definition pick_header :: "(string \<times> string) list \<Rightarrow> string \<Rightarrow> string option" where
  "pick_header hs name = (case map_of (lowered hs) (''openwop-'' @ name) of Some v \<Rightarrow> Some v
     | None \<Rightarrow> map_of (lowered hs) (''x-openwop-'' @ name))"

definition PLUS_MINUS :: string where "PLUS_MINUS = [CHR 0xC2, CHR 0xB1]"

text \<open>\<open>None\<close> accepts. The clock is in milliseconds, the timestamp in seconds.\<close>

definition verifyInbound :: "webhook_env \<Rightarrow> nat \<Rightarrow> string \<Rightarrow> (string \<times> string) list \<Rightarrow> string \<Rightarrow> string option" where
  "verifyInbound we now secret hs raw =
     (let algorithm = pick_header hs ''signature-algorithm'' in
      if algorithm \<noteq> Some ''v1'' then Some (''unrecognized OpenWOP-Signature-Algorithm '' @ (case algorithm of None \<Rightarrow> ''undefined'' | Some a \<Rightarrow> a))
      else case pick_header hs ''timestamp'' of
        None \<Rightarrow> Some ''missing or malformed timestamp''
      | Some ts \<Rightarrow>
        if ts = [] \<or> \<not> list_all is_digit ts then Some ''missing or malformed timestamp''
        else if \<bar>int now - 1000 * int (decimal_value ts)\<bar> > 300000 then Some (''timestamp outside '' @ PLUS_MINUS @ ''5 minutes'')
        else case pick_header hs ''signature'' of
          None \<Rightarrow> Some ''missing signature''
        | Some given \<Rightarrow>
          if \<not> starts_with ''sha256='' given then Some ''missing signature''
          else if pick_header hs ''webhook-id'' = None \<or> pick_header hs ''event-type'' = None then Some ''missing webhook-id / event-type header''
          else if drop 7 given \<noteq> sign we secret ts raw then Some ''signature mismatch''
          else None)"

end
