(* ===== verification/Paging.thy ===== *)
theory Paging
  imports Prelude
begin

text \<open>
  Keyset pagination, as the reads of this host do it: the rows in descending order of a key, a page
  of at most \<open>sz\<close> of them, and a cursor minted of the last one when more remain; the next read
  answers the rows whose key is smaller than the cursor's. The locale states what a read promises and
  proves that following the cursors yields every row once; the reads of the runs and of the dead
  letters are its instances.
\<close>

lemma after_last:
  assumes "sorted_wrt (\<lambda>a b. f b < (f a :: 'b::linorder)) (xs @ ys)" "xs \<noteq> []"
  shows "filter (\<lambda>d. f d < f (last xs)) (xs @ ys) = ys"
proof -
  have "\<not> f x < f (last xs)" if "x \<in> set xs" for x
  proof -
    from assms(2) obtain zs z where xs: "xs = zs @ [z]" by (cases xs rule: rev_cases) auto
    then show ?thesis using assms(1) that by (fastforce simp: sorted_wrt_append)
  qed
  moreover have "f y < f (last xs)" if "y \<in> set ys" for y using assms that by (auto simp: sorted_wrt_append)
  ultimately show ?thesis by (simp add: filter_id_conv filter_False)
qed

lemma sorted_desc_distinct:
  assumes "distinct (map f xs)"
  shows "sorted_wrt (\<lambda>a b. f b < (f a :: 'b::linorder)) (rev (sort_key f xs))"
proof -
  have "sorted (map f (sort_key f xs))" by simp
  moreover have "distinct (map f (sort_key f xs))"
    using assms by (auto simp: distinct_map)
  ultimately have "sorted_wrt (<) (map f (sort_key f xs))" by (simp add: strict_sorted_iff)
  then show ?thesis by (simp add: sorted_wrt_rev sorted_wrt_map)
qed

lemma take_Suc_rest: "length (take (k + 1) xs) > k \<longleftrightarrow> drop k xs \<noteq> []"
  by auto

text \<open>A reader that follows the cursors, in at most \<open>n\<close> reads.\<close>

fun read_all :: "('c option \<Rightarrow> 'e + 'a list \<times> 'c option) \<Rightarrow> nat \<Rightarrow> 'c option \<Rightarrow> 'e + 'a list" where
  "read_all page 0 cursor = Inr []"
| "read_all page (Suc n) cursor =
     (case page cursor of
        Inl e \<Rightarrow> Inl e
      | Inr (rows, None) \<Rightarrow> Inr rows
      | Inr (rows, Some next) \<Rightarrow> map_sum id ((@) rows) (read_all page n (Some next)))"

text \<open>The page of what remains, and the cursor of its last row.\<close>

definition page_of_rest :: "nat \<Rightarrow> ('a \<Rightarrow> 'c) \<Rightarrow> 'a list \<Rightarrow> 'a list \<times> 'c option" where
  "page_of_rest sz mint rest = (take sz rest, if drop sz rest = [] then None else Some (mint (last (take sz rest))))"

text \<open>How the code takes it: one row more than the page is read to learn whether another follows.\<close>

lemma page_of_one_more:
  assumes "0 < sz"
  shows "(let rows = take (sz + 1) rest; page = take sz rows
      in (page, if length rows > sz \<and> page \<noteq> [] then Some (mint (last page)) else None)) = page_of_rest sz mint rest"
proof -
  have "take sz (take (sz + 1) rest) = take sz rest" by simp
  moreover have "take sz rest \<noteq> []" if "drop sz rest \<noteq> []" using that assms by (cases rest) auto
  ultimately show ?thesis by (auto simp: Let_def page_of_rest_def take_Suc_rest)
qed

locale keyset =
  fixes ready :: bool
    and rows :: "'a list"
    and key :: "'a \<Rightarrow> 'k :: linorder"
    and sz :: nat
    and page :: "'c option \<Rightarrow> 'e + 'a list \<times> 'c option"
    and mint :: "'a \<Rightarrow> 'c"
  assumes descending: "ready \<Longrightarrow> sorted_wrt (\<lambda>a b. key b < key a) rows"
    and size_pos: "ready \<Longrightarrow> 0 < sz"
    and first_page: "ready \<Longrightarrow> page None = Inr (page_of_rest sz mint rows)"
    and next_page: "ready \<Longrightarrow> d \<in> set rows \<Longrightarrow> page (Some (mint d)) = Inr (page_of_rest sz mint (filter (\<lambda>x. key x < key d) rows))"
begin

lemma read_rest:
  assumes ready
  shows "rows = seen @ rest \<Longrightarrow> length rest \<le> n \<Longrightarrow> page cursor = Inr (page_of_rest sz mint rest) \<Longrightarrow>
    read_all page (Suc n) cursor = Inr rest"
proof (induction n arbitrary: seen rest cursor)
  case (Suc n)
  show ?case
  proof (cases "drop sz rest = []")
    case True
    with Suc.prems(3) show ?thesis by (simp add: page_of_rest_def)
  next
    case False
    let ?x = "last (take sz rest)"
    have ne: "take sz rest \<noteq> []" using False size_pos [OF assms] by (cases rest) auto
    then have "?x \<in> set rest" using last_in_set in_set_takeD by metis
    then have x: "?x \<in> set rows" using Suc.prems(1) by simp
    have cut: "rows = (seen @ take sz rest) @ drop sz rest" using Suc.prems(1) by simp
    from after_last [of key "seen @ take sz rest" "drop sz rest"] descending [OF assms] ne
    have "filter (\<lambda>d. key d < key ?x) rows = drop sz rest" by (simp add: cut)
    with next_page [OF assms x] have "page (Some (mint ?x)) = Inr (page_of_rest sz mint (drop sz rest))" by simp
    moreover have "length (drop sz rest) \<le> n" using Suc.prems(2) size_pos [OF assms] by simp
    ultimately have "read_all page (Suc n) (Some (mint ?x)) = Inr (drop sz rest)" using Suc.IH [OF cut] by blast
    with False show ?thesis
      by (subst read_all.simps(2)) (simp add: Suc.prems(3) page_of_rest_def del: read_all.simps)
  qed
qed (simp add: page_of_rest_def)

lemma read_all_rows: "ready \<Longrightarrow> length rows < n \<Longrightarrow> read_all page n None = Inr rows"
  using read_rest [of "[]" rows "n - 1" None] first_page by (cases n) (auto simp del: read_all.simps)

end

end
