(* ===== verification/Deliveries.thy ===== *)
theory Deliveries
  imports Webhooks Paging Demo "HOL-Library.Multiset"
begin

text \<open>
  What the webhook delivery guarantees: who a fan-out reaches, that a delivery is settled by its
  last allowed attempt, that the receiver's verifier accepts what an attempt sends, and that
  the dead-letter pages enumerate the dead letters.
\<close>

section \<open>The reach of a fan-out\<close>

lemma queue_delivery_rows:
  "\<exists>d. wd_deliveries (queue_delivery we now sub ten run seq etype body db) = wd_deliveries db @ [d]
    \<and> dl_webhook d = wr_id sub \<and> dl_tenant d = ten \<and> dl_run d = run \<and> dl_type d = etype \<and> dl_body d = body
    \<and> dl_state d = ''pending'' \<and> dl_attempts d = 0 \<and> (dl_message d \<noteq> None \<longleftrightarrow> optedIn sub)"
  "wd_hooks (queue_delivery we now sub ten run seq etype body db) = wd_hooks db"
  by (auto simp: queue_delivery_def new_opaque_def token_def insertDelivery_def pending_row_def)

definition delivers_for :: "appended \<Rightarrow> run_row option \<Rightarrow> webhook_row list \<Rightarrow> delivery_row \<Rightarrow> bool" where
  "delivers_for e r subs d \<longleftrightarrow> (\<exists>sub \<in> set subs. dl_webhook d = wr_id sub \<and> wanted_by sub e r)
     \<and> dl_tenant d = ap_tenant e \<and> dl_run d = ap_run e \<and> dl_state d = ''pending'' \<and> dl_attempts d = 0"

lemma fan_out_to_rows:
  assumes "fan_out_to we now e r subs db = (res, db')"
  shows "\<exists>new. wd_deliveries db' = wd_deliveries db @ new \<and> wd_hooks db' = wd_hooks db \<and> list_all (delivers_for e r subs) new
    \<and> (res = Inr () \<longrightarrow> map dl_webhook new = map wr_id (filter (\<lambda>sub. wanted_by sub e r) subs))"
  using assms
proof (induction we now e r subs db rule: fan_out_to.induct)
  case (2 we now e r sub subs db)
  show ?case
  proof (cases "wanted_by sub e r")
    case False
    with 2 obtain new where "wd_deliveries db' = wd_deliveries db @ new" "wd_hooks db' = wd_hooks db" "list_all (delivers_for e r subs) new"
      "res = Inr () \<longrightarrow> map dl_webhook new = map wr_id (filter (\<lambda>sub. wanted_by sub e r) subs)" by auto
    with False show ?thesis by (intro exI [of _ new]) (auto simp: delivers_for_def list_all_iff)
  next
    case True
    show ?thesis
    proof (cases "delivery_body we sub e r")
      case (Inl x)
      with 2 True show ?thesis by auto
    next
      case (Inr body)
      let ?q = "queue_delivery we now sub (ap_tenant e) (ap_run e) (doc_seq (ap_doc e)) (doc_type (ap_doc e)) body db"
      obtain d where d: "wd_deliveries ?q = wd_deliveries db @ [d]" "dl_webhook d = wr_id sub" "dl_tenant d = ap_tenant e" "dl_run d = ap_run e"
        "dl_state d = ''pending''" "dl_attempts d = 0"
        using queue_delivery_rows(1) [of we now sub] by blast
      from "2.prems" True Inr have f: "fan_out_to we now e r subs ?q = (res, db')" by simp
      have "\<not> \<not> wanted_by sub e r" using True by simp
      from "2.IH"(2) [OF this Inr f] obtain new where n: "wd_deliveries db' = wd_deliveries ?q @ new" "wd_hooks db' = wd_hooks db"
        "list_all (delivers_for e r subs) new"
        "res = Inr () \<longrightarrow> map dl_webhook new = map wr_id (filter (\<lambda>sub. wanted_by sub e r) subs)"
        by (auto simp: queue_delivery_rows(2))
      with d True show ?thesis by (intro exI [of _ "d # new"]) (auto simp: delivers_for_def list_all_iff)
    qed
  qed
qed simp

text \<open>
  The reach of a fan-out: an event adds deliveries only to subscriptions of its run's own
  tenant that name its type and share a tag, one each in the order of the table; a replay fork,
  and a branch below its fork point, adds none; and the rows already queued stay as they were.
\<close>

theorem fan_out_stays_in_tenant:
  assumes "subscribeFanout we now e r db = (res, db')"
  shows "\<exists>new. wd_deliveries db' = wd_deliveries db @ new \<and> wd_hooks db' = wd_hooks db
    \<and> (\<forall>d \<in> set new. dl_tenant d = ap_tenant e
        \<and> (\<exists>sub \<in> set (wd_hooks db). dl_webhook d = wr_id sub \<and> wr_tenant sub = ap_tenant e \<and> wanted_by sub e r))
    \<and> (\<not> fanned_out e \<longrightarrow> new = [])
    \<and> (fanned_out e \<and> res = Inr () \<longrightarrow> map dl_webhook new = map wr_id (filter (\<lambda>sub. wanted_by sub e r) (webhooksForTenant (ap_tenant e) db)))"
proof (cases "fanned_out e")
  case True
  with assms have "fan_out_to we now e r (webhooksForTenant (ap_tenant e) db) db = (res, db')" by (simp add: subscribeFanout_def)
  from fan_out_to_rows [OF this] True show ?thesis
    by (fastforce simp: list_all_iff delivers_for_def webhooksForTenant_def)
qed (use assms in \<open>auto simp: subscribeFanout_def\<close>)

section \<open>A delivery is settled\<close>

text \<open>Attempts whose answers arrive as given, until the row is no longer pending.\<close>

definition pending_with :: "string \<Rightarrow> webhook_db \<Rightarrow> delivery_row option" where
  "pending_with i db = find (\<lambda>d. dl_id d = i \<and> dl_state d = ''pending'') (wd_deliveries db)"

fun tried :: "webhook_env \<Rightarrow> string \<Rightarrow> (nat \<times> egress_result) list \<Rightarrow> webhook_db \<Rightarrow> webhook_db" where
  "tried we i [] db = db"
| "tried we i ((now, r) # rs) db = (case pending_with i db of None \<Rightarrow> db | Some d \<Rightarrow> tried we i rs (settle_attempt we now d r db))"

definition row_with :: "string \<Rightarrow> webhook_db \<Rightarrow> delivery_row option" where
  "row_with i db = find (\<lambda>d. dl_id d = i) (wd_deliveries db)"

definition settled_as :: "webhook_env \<Rightarrow> nat \<Rightarrow> egress_result \<Rightarrow> nat \<Rightarrow> delivery_row \<Rightarrow> delivery_row" where
  "settled_as we now r attempts x = (let err = (case eg_error r of Some m \<Rightarrow> m | None \<Rightarrow> ''HTTP '' @ nat_string (eg_status r)) in
     (if is_2xx r then x\<lparr>dl_state := ''delivered'', dl_attempts := attempts, dl_status := Some (eg_status r), dl_error := None\<rparr>
      else if attempts \<ge> we_max_attempts we
      then x\<lparr>dl_state := ''dead-lettered'', dl_attempts := attempts, dl_status := Some (eg_status r), dl_error := Some err\<rparr>
      else x\<lparr>dl_attempts := attempts, dl_next := now + we_backoff we * 2 ^ (attempts - 1), dl_status := Some (eg_status r), dl_error := Some err\<rparr>)
     \<lparr>dl_updated := h_iso (we_host we) now\<rparr>)"

lemma settled_as_fields:
  "dl_id (settled_as we now r n x) = dl_id x" "dl_attempts (settled_as we now r n x) = n"
  "dl_state (settled_as we now r n x) = (if is_2xx r then ''delivered'' else if n \<ge> we_max_attempts we then ''dead-lettered'' else dl_state x)"
  "\<not> is_2xx r \<Longrightarrow> n < we_max_attempts we \<Longrightarrow> dl_next (settled_as we now r n x) = now + we_backoff we * 2 ^ (n - 1)"
  by (simp_all add: settled_as_def Let_def)

lemma settle_attempt_map:
  "wd_deliveries (settle_attempt we now d r db)
    = map (\<lambda>x. if dl_id x = dl_id d then settled_as we now r (dl_attempts d + 1) x else x) (wd_deliveries db)"
  by (auto simp: settle_attempt_def updateDelivery_def settled_as_def Let_def)

lemma row_after_settle:
  "row_with i (settle_attempt we now d r db)
    = map_option (\<lambda>x. if i = dl_id d then settled_as we now r (dl_attempts d + 1) x else x) (row_with i db)"
proof -
  have "find (\<lambda>x. dl_id x = i) (map (\<lambda>x. if dl_id x = dl_id d then settled_as we now r (dl_attempts d + 1) x else x) xs)
      = map_option (\<lambda>x. if i = dl_id d then settled_as we now r (dl_attempts d + 1) x else x) (find (\<lambda>x. dl_id x = i) xs)" for xs
    by (induction xs) (auto simp: settled_as_fields)
  then show ?thesis by (simp add: row_with_def settle_attempt_map)
qed

lemma ids_after_settle: "map dl_id (wd_deliveries (settle_attempt we now d r db)) = map dl_id (wd_deliveries db)"
  by (simp add: settle_attempt_map settled_as_fields comp_def)

lemma find_by_id: "distinct (map f xs) \<Longrightarrow> find (\<lambda>x. f x = i) xs = Some d \<Longrightarrow> P d \<Longrightarrow> find (\<lambda>x. f x = i \<and> P x) xs = Some d"
  by (induction xs) (auto split: if_splits)

lemma find_none_by_id: "distinct (map f xs) \<Longrightarrow> find (\<lambda>x. f x = i) xs = Some d \<Longrightarrow> \<not> P d \<Longrightarrow> find (\<lambda>x. f x = i \<and> P x) xs = None"
proof (induction xs)
  case (Cons a xs)
  show ?case
  proof (cases "f a = i")
    case True
    then have "a = d" "\<forall>x \<in> set xs. f x \<noteq> i" using Cons.prems(1,2) by (auto simp: image_iff)
    with Cons.prems(3) show ?thesis by (auto simp: find_None_iff)
  qed (use Cons in simp)
qed simp

lemma tried_settled:
  assumes "distinct (map dl_id (wd_deliveries db))" "row_with i db = Some d" "dl_state d \<noteq> ''pending''"
  shows "tried we i rs db = db"
proof -
  have "pending_with i db = None" using assms find_none_by_id [of dl_id "wd_deliveries db" i d] by (simp add: pending_with_def row_with_def)
  then show ?thesis by (cases rs) auto
qed


definition demo_we :: webhook_env where
  "demo_we = \<lparr>we_host = demo_host, we_net = demo_net, we_private = False, we_token = (\<lambda>_. []), we_max_attempts = 2, we_backoff = 1,
    we_retention_days = 1, we_overlap = 60, we_max_page = 10, we_cursor_key = [], we_family = False, we_trigger = False, we_negotiation = False\<rparr>"

definition demo_delivery :: "string \<Rightarrow> string \<Rightarrow> delivery_row" where
  "demo_delivery i st = \<lparr>dl_id = i, dl_webhook = ''w'', dl_tenant = ''t'', dl_run = [], dl_seq = 0, dl_type = ''y'', dl_body = [], dl_attempts = 0, dl_next = 0,
    dl_state = st, dl_status = None, dl_error = None, dl_created = [], dl_updated = [], dl_message = None\<rparr>"

definition demo_hook :: webhook_row where
  "demo_hook = \<lparr>wr_id = ''w'', wr_tenant = ''t'', wr_url = [], wr_events = [''y''], wr_secret = ''s'', wr_tags = None, wr_major = 2, wr_created = 0,
    wr_algorithms = None, wr_prev_secret = Some ''p'', wr_prev_expires = Some 9\<rparr>"

definition demo_db :: "delivery_row list \<Rightarrow> webhook_db" where
  "demo_db ds = \<lparr>wd_hooks = [demo_hook], wd_deliveries = ds, wd_rng = 0\<rparr>"

lemma fan_out_stays_in_tenant_witness:
  "fst (subscribeFanout demo_we 1 \<lparr>ap_run = ''t/r'', ap_tenant = ''u'', ap_fork_mode = None, ap_from_seq = None,
      ap_doc = \<lparr>doc_id = [], doc_run = ''t/r'', doc_type = ''y'', doc_payload = JNull, doc_time = 0, doc_seq = 0, doc_schema = 1, doc_node = None,
        doc_engine = None, doc_causation = None\<rparr>\<rparr> None (demo_db [])) = Inr ()
   \<and> wd_deliveries (snd (subscribeFanout demo_we 1 \<lparr>ap_run = ''t/r'', ap_tenant = ''u'', ap_fork_mode = None, ap_from_seq = None,
      ap_doc = \<lparr>doc_id = [], doc_run = ''t/r'', doc_type = ''y'', doc_payload = JNull, doc_time = 0, doc_seq = 0, doc_schema = 1, doc_node = None,
        doc_engine = None, doc_causation = None\<rparr>\<rparr> None (demo_db []))) = []"
proof -
  let ?e = "\<lparr>ap_run = ''t/r'', ap_tenant = ''u'', ap_fork_mode = None, ap_from_seq = None,
      ap_doc = \<lparr>doc_id = [], doc_run = ''t/r'', doc_type = ''y'', doc_payload = JNull, doc_time = 0, doc_seq = 0, doc_schema = 1, doc_node = None,
        doc_engine = None, doc_causation = None\<rparr>\<rparr>"
  obtain res db' where f: "subscribeFanout demo_we 1 ?e None (demo_db []) = (res, db')" by force
  have "res = Inr ()" using f by (auto simp: subscribeFanout_def fanned_out_def webhooksForTenant_def demo_db_def demo_hook_def)
  with fan_out_stays_in_tenant [OF f] show ?thesis unfolding f by (auto simp: webhooksForTenant_def demo_db_def demo_hook_def)
qed


section \<open>What an attempt sends, the receiver accepts\<close>

lemma lowered_names:
  "map (map lower_case \<circ> fst) (v1_headers we now sub w raw) = [''content-type'',
     ''openwop-webhook-id'', ''openwop-event-type'', ''openwop-timestamp'', ''openwop-signature'', ''openwop-signature-algorithm'',
     ''x-openwop-webhook-id'', ''x-openwop-event-type'', ''x-openwop-timestamp'', ''x-openwop-signature'', ''x-openwop-signature-algorithm'']"
proof -
  have "map (map lower_case) [''Content-Type'', ''OpenWOP-Webhook-Id'', ''OpenWOP-Event-Type'', ''OpenWOP-Timestamp'', ''OpenWOP-Signature'',
      ''OpenWOP-Signature-Algorithm'', ''X-openwop-Webhook-Id'', ''X-openwop-Event-Type'', ''X-openwop-Timestamp'', ''X-openwop-Signature'',
      ''X-openwop-Signature-Algorithm''] = [''content-type'',
     ''openwop-webhook-id'', ''openwop-event-type'', ''openwop-timestamp'', ''openwop-signature'', ''openwop-signature-algorithm'',
     ''x-openwop-webhook-id'', ''x-openwop-event-type'', ''x-openwop-timestamp'', ''x-openwop-signature'', ''x-openwop-signature-algorithm'']"
    by code_simp
  then show ?thesis by (simp only: v1_headers_def Let_def list.map comp_apply fst_conv)
qed

lemma map_of_lowered:
  "map_of (fold (\<lambda>(k, v) m. AList.update (map lower_case k) v m) hs m0) k
    = (case map_of (rev (map (\<lambda>(k, v). (map lower_case k, v)) hs)) k of Some v \<Rightarrow> Some v | None \<Rightarrow> map_of m0 k)"
  by (induction hs arbitrary: m0) (auto simp: map_add_def split: option.splits)

text \<open>The last header of a name wins, and the names of the two families do not clash.\<close>

definition named :: "(string \<times> string) list \<Rightarrow> (string \<times> string) list" where
  "named hs = map (\<lambda>(k, v). (map lower_case k, v)) hs"

lemma lowered_lookup: "map_of (lowered hs) k = map_of (rev (named hs)) k"
  by (simp add: lowered_def named_def map_of_lowered split: option.splits)

lemma named_v1:
  "named (v1_headers we now sub w raw) =
     (let ts = nat_string (now div 1000); sg = ''sha256='' @ sign we (signing_secret now sub) ts raw in
      [(''content-type'', ''application/json''),
       (''openwop-webhook-id'', wr_id sub), (''openwop-event-type'', w), (''openwop-timestamp'', ts), (''openwop-signature'', sg),
       (''openwop-signature-algorithm'', ''v1''),
       (''x-openwop-webhook-id'', wr_id sub), (''x-openwop-event-type'', w), (''x-openwop-timestamp'', ts), (''x-openwop-signature'', sg),
       (''x-openwop-signature-algorithm'', ''v1'')])"
proof -
  have "named hs = zip (map (map lower_case \<circ> fst) hs) (map snd hs)" for hs
    by (induction hs) (auto simp: named_def)
  then show ?thesis by (simp only: lowered_names) (simp add: v1_headers_def Let_def)
qed

definition standard_names :: "string list" where
  "standard_names = [''webhook-id'', ''webhook-timestamp'', ''webhook-signature'']"

lemma standard_named:
  assumes "standard_headers we now sub i raw = Inr hs"
  shows "map fst (named hs) = standard_names"
proof -
  have "map (map lower_case) standard_names = standard_names" by code_simp
  moreover have "map fst hs = standard_names"
    using assms by (auto simp: standard_headers_def Let_def standard_names_def map_sum_def split: sum.splits)
  moreover have "map fst (named hs) = map (map lower_case) (map fst hs)" by (simp add: named_def comp_def case_prod_beta)
  ultimately show ?thesis by simp
qed

lemma attempt_headers_shape:
  assumes "attempt_headers we now sub d db = (Inr hs, db')"
  shows "\<exists>w extra. hs = v1_headers we now sub w (dl_body d) @ extra \<and> (map fst (named extra) = [] \<or> map fst (named extra) = standard_names)"
proof -
  obtain w where w: "(if wr_major sub = 2 then Inr (dl_type d) else v1TypeOf (h_art (we_host we)) (dl_type d)) = Inr w"
    using assms by (auto simp: attempt_headers_def split: sum.splits if_splits)
  show ?thesis
  proof (cases "optedIn sub")
    case False
    with assms w show ?thesis by (auto simp: attempt_headers_def named_def)
  next
    case True
    then obtain i extra where "standard_headers we now sub i (dl_body d) = Inr extra" "hs = v1_headers we now sub w (dl_body d) @ extra"
      using assms w by (auto simp: attempt_headers_def Let_def map_sum_def split: sum.splits prod.splits)
    with standard_named show ?thesis by blast
  qed
qed

lemma picked_header:
  assumes "map fst (named extra) = [] \<or> map fst (named extra) = standard_names"
  shows "pick_header (v1_headers we now sub w raw @ extra) ''signature-algorithm'' = Some ''v1''"
    "pick_header (v1_headers we now sub w raw @ extra) ''timestamp'' = Some (nat_string (now div 1000))"
    "pick_header (v1_headers we now sub w raw @ extra) ''signature'' = Some (''sha256='' @ sign we (signing_secret now sub) (nat_string (now div 1000)) raw)"
    "pick_header (v1_headers we now sub w raw @ extra) ''webhook-id'' = Some (wr_id sub)"
    "pick_header (v1_headers we now sub w raw @ extra) ''event-type'' = Some w"
proof -
  have none: "map_of (rev (named extra)) (''openwop-'' @ k) = None" for k
    using assms by (auto simp: map_of_eq_None_iff standard_names_def simp flip: set_map)
  have app: "named (a @ b) = named a @ named b" for a b by (simp add: named_def)
  have find: "map_of (lowered (v1_headers we now sub w raw @ extra)) (''openwop-'' @ k) = map_of (rev (named (v1_headers we now sub w raw))) (''openwop-'' @ k)" for k
    unfolding lowered_lookup app rev_append map_of_append by (simp only: map_add_def none option.case)
  show "pick_header (v1_headers we now sub w raw @ extra) ''signature-algorithm'' = Some ''v1''"
    "pick_header (v1_headers we now sub w raw @ extra) ''timestamp'' = Some (nat_string (now div 1000))"
    "pick_header (v1_headers we now sub w raw @ extra) ''signature'' = Some (''sha256='' @ sign we (signing_secret now sub) (nat_string (now div 1000)) raw)"
    "pick_header (v1_headers we now sub w raw @ extra) ''webhook-id'' = Some (wr_id sub)"
    "pick_header (v1_headers we now sub w raw @ extra) ''event-type'' = Some w"
    by (simp_all only: pick_header_def find named_v1 Let_def) simp_all
qed

text \<open>
  What an attempt sends verifies at the receiver: under the secret the subscription signs
  with at that moment (the previous one while a rotation overlaps), for the body sent, at any
  receiver's clock within 299 seconds of the sender's.
\<close>

theorem attempt_verifies_at_receiver:
  assumes "attempt_headers we now sub d db = (Inr hs, db')" "\<bar>int t - int now\<bar> \<le> 299000"
  shows "verifyInbound we t (case overlap_secret now sub of Some p \<Rightarrow> p | None \<Rightarrow> wr_secret sub) hs (dl_body d) = None"
proof -
  obtain w extra where hs: "hs = v1_headers we now sub w (dl_body d) @ extra"
    and e: "map fst (named extra) = [] \<or> map fst (named extra) = standard_names"
    using attempt_headers_shape [OF assms(1)] by blast
  have "int now - 999 \<le> 1000 * int (now div 1000)" "1000 * int (now div 1000) \<le> int now" by linarith+
  with assms(2) have "\<not> \<bar>int t - 1000 * int (now div 1000)\<bar> > 300000" by linarith
  moreover have "nat_string n \<noteq> []" for n by (subst nat_string.simps) simp
  moreover have "starts_with ''sha256='' (''sha256='' @ s)" "drop 7 (''sha256='' @ s) = s" for s by (simp_all add: starts_with_def)
  ultimately show ?thesis
    unfolding hs verifyInbound_def picked_header [OF e] Let_def
    by (simp add: nat_string_all_digits signing_secret_def)
qed

lemma attempt_verifies_at_receiver_witness:
  "\<exists>hs. fst (attempt_headers demo_we 5 demo_hook (demo_delivery ''x'' ''pending'') (demo_db [])) = Inr hs
    \<and> verifyInbound demo_we 1000 ''p'' hs [] = None"
proof -
  have o: "overlap_secret 5 demo_hook = Some ''p''" by (simp add: overlap_secret_def demo_hook_def)
  obtain hs db' where a: "attempt_headers demo_we 5 demo_hook (demo_delivery ''x'' ''pending'') (demo_db []) = (Inr hs, db')"
    by (simp add: attempt_headers_def demo_hook_def demo_delivery_def optedIn_def)
  from attempt_verifies_at_receiver [OF a, of 1000] have "verifyInbound demo_we 1000 ''p'' hs [] = None"
    by (simp add: o demo_delivery_def)
  with a show ?thesis by simp
qed

section \<open>The dead-letter pages\<close>

definition all_dead :: "string \<Rightarrow> webhook_db \<Rightarrow> delivery_row list" where
  "all_dead i db = rev (sort_key dead_key (filter (\<lambda>d. dl_webhook d = i \<and> dl_state d = ''dead-lettered'') (wd_deliveries db)))"

lemma deadLetters_filter:
  "deadLetters i limit after db = take limit (filter (\<lambda>d. case after of None \<Rightarrow> True | Some k \<Rightarrow> dead_key d < k) (all_dead i db))"
  by (simp add: deadLetters_def all_dead_def rev_filter [symmetric] filter_sort conj_commute conj_left_commute flip: filter_filter)
     (simp only: filter_filter conj_ac)

lemma utf16_ascii: "\<forall>c \<in> set s. (of_char c :: nat) < 128 \<Longrightarrow> utf16_length s = length s"
  by (induction s) (auto simp: utf16_length_def unit_count_def)

lemma b64_char_ascii: "n < 64 \<Longrightarrow> (of_char (b64_char n) :: nat) < 128 \<and> b64_char n \<noteq> CHR ''|''"
proof
  assume n: "n < 64"
  then show "(of_char (b64_char n) :: nat) < 128" by (auto simp: b64_char_def)
  show "b64_char n \<noteq> CHR ''|''"
  proof
    assume "b64_char n = CHR ''|''"
    with b64_value_char [OF n] show False by (simp add: b64_value_def)
  qed
qed

lemma base64url_ascii: "c \<in> set (base64url s) \<Longrightarrow> (of_char c :: nat) < 128 \<and> c \<noteq> CHR ''|''"
  using sextets_less [OF bytes_less] b64_char_ascii by (auto simp: base64url_def)

lemma cursor_roundtrip:
  assumes "CHR ''|'' \<notin> set i" "CHR ''|'' \<notin> set (dl_updated d)" "CHR ''|'' \<notin> set (dl_id d)"
  shows "readDeadLetterCursor we (mintDeadLetterCursor we i d) j
    = (if i = j then Inr (dead_key d) else Inl (cursor_refusal ''cursor was minted for another subscription''))"
proof -
  let ?p = "bar_separated [i, dl_updated d, dl_id d]"
  have m: "CHR ''|'' \<notin> set (cursor_mac we ?p)" using base64url_ascii by (auto simp: cursor_mac_def)
  have joined: "?p @ ''|'' @ cursor_mac we ?p = join_with (CHR ''|'') [i, dl_updated d, dl_id d, cursor_mac we ?p]"
    by (simp add: bar_separated_def)
  have "split_on (CHR ''|'') (?p @ ''|'' @ cursor_mac we ?p) = [i, dl_updated d, dl_id d, cursor_mac we ?p]"
    unfolding joined using assms m by (intro split_join) auto
  moreover have "utf16_length (cursor_mac we ?p) = length (cursor_mac we ?p)"
    by (rule utf16_ascii) (use base64url_ascii in \<open>auto simp: cursor_mac_def\<close>)
  ultimately show ?thesis by (simp add: readDeadLetterCursor_def mintDeadLetterCursor_def dead_key_def Let_def)
qed

text \<open>The dead letters of a subscription are a keyset read.\<close>

definition dead_ready :: "webhook_env \<Rightarrow> string \<Rightarrow> string \<Rightarrow> string option \<Rightarrow> nat \<Rightarrow> webhook_db \<Rightarrow> bool" where
  "dead_ready we ten i lim k db \<longleftrightarrow> (\<exists>hook. own_webhook ten i db = Inr hook) \<and> page_limit we lim = Inr k \<and> 0 < k
     \<and> distinct (map dl_id (wd_deliveries db)) \<and> CHR ''|'' \<notin> set i
     \<and> (\<forall>d \<in> set (wd_deliveries db). CHR ''|'' \<notin> set (dl_updated d) \<and> CHR ''|'' \<notin> set (dl_id d))"

lemma dead_descending:
  assumes "distinct (map dl_id (wd_deliveries db))"
  shows "sorted_wrt (\<lambda>a b. dead_key b < dead_key a) (all_dead i db)"
  unfolding all_dead_def
  by (rule sorted_desc_distinct) (use assms in \<open>auto simp: distinct_map dead_key_def inj_on_def distinct_filter\<close>)

lemma dead_page:
  assumes "own_webhook ten i db = Inr hook" "page_limit we lim = Inr k" "0 < k"
    and "(case cursor of None \<Rightarrow> Inr None | Some c \<Rightarrow> map_sum id Some (readDeadLetterCursor we c i)) = Inr after"
  shows "dead_letter_page we ten i lim cursor db = Inr (page_of_rest k (mintDeadLetterCursor we i)
    (filter (\<lambda>d. case after of None \<Rightarrow> True | Some key \<Rightarrow> dead_key d < key) (all_dead i db)))"
  using page_of_one_more [OF assms(3), of "filter (\<lambda>d. case after of None \<Rightarrow> True | Some key \<Rightarrow> dead_key d < key) (all_dead i db)"
    "mintDeadLetterCursor we i"]
  by (simp only: dead_letter_page_def assms(1,2,4) and_then.simps deadLetters_filter Let_def)

interpretation dead: keyset "dead_ready we ten i lim k db" "all_dead i db" dead_key k
    "\<lambda>cursor. dead_letter_page we ten i lim cursor db" "mintDeadLetterCursor we i"
  for we ten i lim k db
proof
  assume r: "dead_ready we ten i lim k db"
  then obtain hook where hook: "own_webhook ten i db = Inr hook" and lim: "page_limit we lim = Inr k" and k: "0 < k"
    by (auto simp: dead_ready_def)
  from k show "0 < k" .
  show "sorted_wrt (\<lambda>a b. dead_key b < dead_key a) (all_dead i db)"
    using r by (intro dead_descending) (simp add: dead_ready_def)
  show "dead_letter_page we ten i lim None db = Inr (page_of_rest k (mintDeadLetterCursor we i) (all_dead i db))"
    using dead_page [OF hook lim k, of None None] by simp
  fix d assume "d \<in> set (all_dead i db)"
  then have "d \<in> set (wd_deliveries db)" by (simp add: all_dead_def)
  then have "readDeadLetterCursor we (mintDeadLetterCursor we i d) i = Inr (dead_key d)"
    using cursor_roundtrip [of i d we i] r by (simp add: dead_ready_def)
  with dead_page [OF hook lim k, of "Some (mintDeadLetterCursor we i d)" "Some (dead_key d)"]
  show "dead_letter_page we ten i lim (Some (mintDeadLetterCursor we i d)) db
      = Inr (page_of_rest k (mintDeadLetterCursor we i) (filter (\<lambda>x. dead_key x < dead_key d) (all_dead i db)))" by simp
qed

text \<open>
  Pagination is exact: a reader that follows the cursors of the dead-letter read, at any page
  size of at least one, receives every dead letter of the subscription once, newest first, and no row of
  another; a cursor of one subscription is refused on another.
\<close>

theorem dead_letter_pages_are_exact:
  assumes "dead_ready we ten i lim k db" "length (wd_deliveries db) < n"
  shows "read_all (\<lambda>cursor. dead_letter_page we ten i lim cursor db) n None = Inr (all_dead i db)
    \<and> mset (all_dead i db) = filter_mset (\<lambda>d. dl_webhook d = i \<and> dl_state d = ''dead-lettered'') (mset (wd_deliveries db))
    \<and> sorted_wrt (\<lambda>a b. dead_key b < dead_key a) (all_dead i db)
    \<and> (\<forall>d \<in> set (wd_deliveries db). \<forall>j. j \<noteq> i \<longrightarrow>
        readDeadLetterCursor we (mintDeadLetterCursor we i d) j = Inl (cursor_refusal ''cursor was minted for another subscription''))"
proof -
  have "length (all_dead i db) \<le> length (wd_deliveries db)" by (simp add: all_dead_def)
  then have "read_all (\<lambda>cursor. dead_letter_page we ten i lim cursor db) n None = Inr (all_dead i db)"
    using dead.read_all_rows [OF assms(1), of n] assms(2) by simp
  moreover have "mset (all_dead i db) = filter_mset (\<lambda>d. dl_webhook d = i \<and> dl_state d = ''dead-lettered'') (mset (wd_deliveries db))"
    by (simp add: all_dead_def)
  ultimately show ?thesis using dead.descending [OF assms(1)] cursor_roundtrip [of i _ we] assms(1) by (auto simp: dead_ready_def)
qed

definition demo_dead_db :: webhook_db where
  "demo_dead_db = \<lparr>wd_hooks = [demo_hook\<lparr>wr_id := ''t/0123456789abcdef''\<rparr>],
     wd_deliveries = [demo_delivery ''x'' ''dead-lettered'', demo_delivery ''y'' ''pending''], wd_rng = 0\<rparr>"

lemma dead_letter_pages_are_exact_witness:
  "read_all (\<lambda>cursor. dead_letter_page demo_we ''t'' ''t/0123456789abcdef'' (Some ''1'') cursor demo_dead_db) 4 None
   = Inr (all_dead ''t/0123456789abcdef'' demo_dead_db)"
proof -
  let ?i = "''t/0123456789abcdef''"
  have "checkTenantBound ?i ''t'' ''webhookId'' = Inr (''t'', ''0123456789abcdef'')" by code_simp
  then have "own_webhook ''t'' ?i demo_dead_db = Inr (demo_hook\<lparr>wr_id := ?i\<rparr>)"
    by (simp add: own_webhook_def getWebhook_def demo_hook_def demo_dead_db_def)
  moreover have "page_limit demo_we (Some ''1'') = Inr 1" by code_simp
  ultimately have "dead_ready demo_we ''t'' ?i (Some ''1'') 1 demo_dead_db"
    by (simp add: dead_ready_def demo_dead_db_def demo_delivery_def)
  from dead_letter_pages_are_exact [OF this, of 4] show ?thesis by (simp add: demo_dead_db_def)
qed

section \<open>A cursor that throws\<close>

text \<open>
  \<open>mac.length\<close> counts UTF-16 units and \<open>timingSafeEqual\<close> bytes: a cursor whose last part has as many units as
  a MAC and more bytes leaves through the RangeError of \<open>timingSafeEqual\<close>, not through the
  refusal. Here the MAC has three characters, and the cursor ends in three, one of two bytes.
\<close>

lemma cursor_of_other_byte_length_throws:
  "readDeadLetterCursor demo_we (base64url (''|||'' @ [CHR 0xC3, CHR 0xA9] @ ''fH'')) ''t/w''
    = Inl (JsError ''Input buffers must have the same byte length'')"
  by code_simp

end
