(* ===== verification/Trace.thy ===== *)
theory Trace
  imports Ids Encoding
begin

text \<open>
  W3C trace context across the host (\<open>trace-context.ts\<close>): parsing a \<open>traceparent\<close>, the inbound
  context of a request, the child a run sends outward, its carriers, and the context kept in the
  options of a run. The random span ids are an argument: the draws, in order.
\<close>

record trace_context =
  tc_parent :: string
  tc_state :: "string option"

definition lower_hex :: "char \<Rightarrow> bool" where
  "lower_hex c \<longleftrightarrow> is_digit c \<or> CHR ''a'' \<le> c \<and> c \<le> CHR ''f''"

definition all_zero :: "string \<Rightarrow> bool" where
  "all_zero s \<longleftrightarrow> s \<noteq> [] \<and> list_all (\<lambda>c. c = CHR ''0'') s"

text \<open>\<open>^([0-9a-f]{2})-([0-9a-f]{32})-([0-9a-f]{16})-([0-9a-f]{2})$\<close> of the first 55 characters.\<close>

definition GRAMMAR :: "string \<Rightarrow> (string \<times> string \<times> string \<times> string) option" where
  "GRAMMAR s = (case split_on (CHR ''-'') s of
       [v, t, p, f] \<Rightarrow> if length v = 2 \<and> length t = 32 \<and> length p = 16 \<and> length f = 2
           \<and> list_all lower_hex (v @ t @ p @ f) then Some (v, t, p, f) else None
     | _ \<Rightarrow> None)"

text \<open>The trace id and the flags.\<close>

definition parseTraceparent :: "json option \<Rightarrow> (string \<times> string) option" where
  "parseTraceparent value = (case value of
       Some (JStr raw) \<Rightarrow>
         (let v = js_trim raw in case GRAMMAR (take 55 v) of None \<Rightarrow> None
          | Some (version, traceId, parentId, flags) \<Rightarrow>
              if version = ''ff'' \<or> (length v > 55 \<and> (version = ''00'' \<or> v ! 55 \<noteq> CHR ''-'')) then None
              else if all_zero traceId \<or> all_zero parentId then None
              else Some (traceId, flags))
     | _ \<Rightarrow> None)"

definition ofValue :: "json option \<Rightarrow> json option \<Rightarrow> trace_context option" where
  "ofValue traceparent tracestate = (case parseTraceparent traceparent of None \<Rightarrow> None
     | Some x \<Rightarrow> Some \<lparr>tc_parent = js_trim (text_of traceparent),
         tc_state = (case tracestate of Some (JStr s) \<Rightarrow> if 0 < utf16_length s \<and> utf16_length s \<le> 512 then Some s else None | _ \<Rightarrow> None)\<rparr>)"

text \<open>The in-message value when it is valid, else the header's.\<close>

definition inboundTraceContext :: "json option \<Rightarrow> (string \<Rightarrow> string option) \<Rightarrow> trace_context option" where
  "inboundTraceContext inMessage header =
     (case ofValue (jget inMessage ''traceparent'') (jget inMessage ''tracestate'') of
        Some tc \<Rightarrow> Some tc
      | None \<Rightarrow> ofValue (map_option JStr (header ''traceparent'')) (map_option JStr (header ''tracestate'')))"

text \<open>The span of a child: the first draw that is not all zeros (\<open>while\<close>, over a stream of draws).\<close>

fun fresh_span :: "string list \<Rightarrow> string option" where
  "fresh_span [] = None"
| "fresh_span (d # ds) = (if all_zero d then fresh_span ds else Some d)"

definition childOf :: "trace_context \<Rightarrow> string \<Rightarrow> trace_context option" where
  "childOf tc span = (case parseTraceparent (Some (JStr (tc_parent tc))) of None \<Rightarrow> None
     | Some (traceId, flags) \<Rightarrow> Some \<lparr>tc_parent = ''00-'' @ traceId @ ''-'' @ span @ ''-'' @ flags, tc_state = tc_state tc\<rparr>)"

definition traceHeaders :: "trace_context option \<Rightarrow> (string \<times> string) list" where
  "traceHeaders otc = (case otc of None \<Rightarrow> []
     | Some tc \<Rightarrow> (''traceparent'', tc_parent tc) # (case tc_state tc of None \<Rightarrow> [] | Some s \<Rightarrow> [(''tracestate'', s)]))"

definition traceFields :: "trace_context option \<Rightarrow> (string \<times> string) list" where
  "traceFields otc = traceHeaders otc"

definition runTraceContext :: "json option \<Rightarrow> trace_context option" where
  "runTraceContext options =
     (let tc = jget options ''traceContext'' in ofValue (jget tc ''traceparent'') (jget tc ''tracestate''))"

definition trace_json :: "trace_context \<Rightarrow> json" where
  "trace_json tc = jobj [(''traceparent'', Some (JStr (tc_parent tc))), (''tracestate'', map_option JStr (tc_state tc))]"

section \<open>A child continues the trace\<close>

lemma split_dash_parts:
  assumes "CHR ''-'' \<notin> set a" "CHR ''-'' \<notin> set b" "CHR ''-'' \<notin> set c" "CHR ''-'' \<notin> set d"
  shows "split_on (CHR ''-'') (a @ ''-'' @ b @ ''-'' @ c @ ''-'' @ d) = [a, b, c, d]"
  using split_join [of "[a, b, c, d]" "CHR ''-''"] assms by simp

lemma hex_no_dash: "list_all lower_hex s \<Longrightarrow> CHR ''-'' \<notin> set s"
  by (auto simp: list_all_iff lower_hex_def is_digit_def)

lemma hex_not_space: "lower_hex c \<Longrightarrow> \<not> js_space c"
  by (auto simp: lower_hex_def is_digit_def js_space_def less_eq_char_def)

lemma GRAMMAR_parts:
  assumes "GRAMMAR s = Some (v, t, p, f)"
  shows "length t = 32" "length f = 2" "list_all lower_hex t" "list_all lower_hex f"
  using assms by (auto simp: GRAMMAR_def split: list.splits if_splits)

lemma parse_parts:
  assumes "parseTraceparent value = Some (t, f)"
  shows "length t = 32 \<and> length f = 2 \<and> list_all lower_hex t \<and> list_all lower_hex f \<and> \<not> all_zero t"
  using assms GRAMMAR_parts
  by (fastforce simp: parseTraceparent_def Let_def split: option.splits json.splits if_splits prod.splits)

text \<open>
  A child continues its trace: the context sent outward for one request parses, under any span of
  sixteen hexadecimal digits that are not all zero, to the trace id and the flags it was received
  with, so the receiver that reads it from the headers has the same trace; and the context a run keeps in its
  options is read back as it was.
\<close>

theorem child_continues_the_trace:
  assumes "parseTraceparent (Some (JStr (tc_parent tc))) = Some (traceId, flags)"
    and "length span = 16" "list_all lower_hex span" "\<not> all_zero span"
  shows "\<exists>c. childOf tc span = Some c \<and> tc_state c = tc_state tc
    \<and> parseTraceparent (Some (JStr (tc_parent c))) = Some (traceId, flags)
    \<and> ((\<forall>s. tc_state tc = Some s \<longrightarrow> 0 < utf16_length s \<and> utf16_length s \<le> 512) \<longrightarrow>
        inboundTraceContext None (map_of (traceHeaders (Some c))) = Some c
      \<and> runTraceContext (Some (JObj [(''traceContext'', trace_json c)])) = Some c)"
proof -
  note h = parse_parts [OF assms(1)]
  let ?p = "''00-'' @ traceId @ ''-'' @ span @ ''-'' @ flags"
  have form: "?p = ''00'' @ ''-'' @ traceId @ ''-'' @ span @ ''-'' @ flags" by simp
  have len: "length ?p = 55" using h assms(2) by simp
  have trim: "js_trim ?p = ?p"
  proof -
    obtain x y where f: "flags = [x, y]" using h by (cases flags; cases "tl flags") auto
    with h hex_not_space [of y] show ?thesis by (simp add: js_trim_def) (simp add: js_space_def)
  qed
  have "split_on (CHR ''-'') ?p = [''00'', traceId, span, flags]"
    unfolding form using h assms(3) by (intro split_dash_parts) (auto dest: hex_no_dash)
  moreover have "list_all lower_hex ''00''" by (simp add: lower_hex_def is_digit_def)
  ultimately have "GRAMMAR ?p = Some (''00'', traceId, span, flags)"
    using h assms by (simp add: GRAMMAR_def)
  then have parse: "parseTraceparent (Some (JStr ?p)) = Some (traceId, flags)"
    using h assms(4) trim len by (simp only: parseTraceparent_def) (simp add: Let_def)
  have c: "childOf tc span = Some \<lparr>tc_parent = ?p, tc_state = tc_state tc\<rparr>" using assms(1) by (simp add: childOf_def)
  show ?thesis
    by (rule exI [of _ "\<lparr>tc_parent = ?p, tc_state = tc_state tc\<rparr>"])
       (use c parse trim in \<open>auto simp: inboundTraceContext_def ofValue_def runTraceContext_def trace_json_def traceHeaders_def
          text_of_def jget_def parseTraceparent_def [of None] Let_def split: option.splits\<close>)
qed

lemma child_continues_the_trace_witness:
  "\<exists>c. childOf \<lparr>tc_parent = ''00-0123456789abcdef0123456789abcdef-0123456789abcdef-01'', tc_state = None\<rparr> ''fedcba9876543210'' = Some c
     \<and> parseTraceparent (Some (JStr (tc_parent c))) = Some (''0123456789abcdef0123456789abcdef'', ''01'')"
proof -
  let ?tc = "\<lparr>tc_parent = ''00-0123456789abcdef0123456789abcdef-0123456789abcdef-01'', tc_state = None\<rparr>"
  have "parseTraceparent (Some (JStr (tc_parent ?tc))) = Some (''0123456789abcdef0123456789abcdef'', ''01'')" by code_simp
  from child_continues_the_trace [OF this, of "''fedcba9876543210''"] show ?thesis
    by (auto simp: lower_hex_def is_digit_def all_zero_def)
qed

end
