(* ===== verification/Stream_Frames.thy ===== *)
theory Stream_Frames
  imports Demo
begin

text \<open>
  The event stream of a run (\<open>events.ts\<close>, \<open>streamRun\<close>): the modes, the frames, the batch and its
  timer, the backlog and the live events after it. A frame is one \<open>res.write\<close>: its \<open>id:\<close>, its
  \<open>event:\<close> and what its \<open>data:\<close> prints. The projection of a document to the caller's contract and the snapshot
  of the run are arguments, as they are of \<open>streamRun\<close>; the scheduling of appends, of the flush timer and
  of the client's close is left open.
\<close>

section \<open>Modes\<close>

definition UPDATES_PREFIXES :: "string list" where
  "UPDATES_PREFIXES = [''run.'', ''interrupt.'', ''approval.'', ''clarification.'', ''node.'', ''artifact.'', ''eval.'',
     ''deployment.'', ''workspace.'', ''replay.'', ''cap.'', ''compensation.'', ''negotiation.'']"

definition DEBUG_ONLY :: "string list" where
  "DEBUG_ONLY = [''log.appended'', ''variable.changed'', ''version.pinned'', ''lease.acquired'', ''lease.renewed'',
     ''lease.lost'', ''lease.handed-off'', ''node.retried'']"

definition IMPLEMENTED_MODES :: "string list" where
  "IMPLEMENTED_MODES = [''updates'', ''values'', ''messages'', ''debug'']"

text \<open>\<open>^(values|(updates|messages|debug)(,(updates|messages|debug))*)$\<close>.\<close>

definition STREAM_MODE :: "string \<Rightarrow> bool" where
  "STREAM_MODE v \<longleftrightarrow> v = ''values'' \<or> list_all (\<lambda>m. m \<in> {''updates'', ''messages'', ''debug''}) (split_on (CHR '','') v)"

definition parseStreamModes :: "string option \<Rightarrow> exn + string list" where
  "parseStreamModes raw =
     (let value = (case raw of None \<Rightarrow> ''updates'' | Some v \<Rightarrow> if v = [] then ''updates'' else v)
      in if \<not> STREAM_MODE value
         then Inl (HostError ''unsupported_stream_mode'' (''streamMode '' @ value @ '' is outside the grammar'')
                (Some (JObj [(''supported'', JArr (map JStr IMPLEMENTED_MODES))])))
         else Inr (split_on (CHR '','') value))"

definition CORE_FAMILIES :: "string list" where
  "CORE_FAMILIES = [''run'', ''node'', ''interrupt'', ''approval'', ''clarification'', ''artifact'', ''eval'', ''deployment'',
     ''workspace'', ''replay'', ''cap'', ''compensation'', ''negotiation'', ''log'', ''variable'', ''version'', ''lease'', ''agent'',
     ''output'', ''provider'', ''prompt'', ''envelope'', ''memory'', ''budget'', ''dispatch'', ''orchestrator'', ''conversation'',
     ''channel'', ''context'', ''workflow'', ''workflow-chain'', ''trigger'', ''tool'', ''egress'', ''import'', ''goal'', ''proposal'',
     ''connector'', ''authorization'', ''voice'', ''roster'', ''commitment'', ''model'']"

definition vendor_type :: "string \<Rightarrow> bool" where
  "vendor_type t \<longleftrightarrow> CHR ''.'' \<in> set t \<and> \<not> list_ex (\<lambda>f. starts_with (f @ ''.'') t) CORE_FAMILIES"

definition in_updates :: "string \<Rightarrow> bool" where
  "in_updates t \<longleftrightarrow> t \<notin> set DEBUG_ONLY \<and> list_ex (\<lambda>p. starts_with p t) UPDATES_PREFIXES"

fun admitted :: "string list \<Rightarrow> string \<Rightarrow> string option" where
  "admitted [] t = None"
| "admitted (m # ms) t =
     (if m = ''debug'' then Some ''debug''
      else if m = ''updates'' \<and> \<not> vendor_type t \<and> in_updates t then Some ''updates''
      else if m = ''messages'' \<and> t = ''output.chunk'' then Some ''messages''
      else if m = ''values'' \<and> in_updates t then Some ''values''
      else admitted ms t)"

section \<open>The stream\<close>

datatype sse_data = Doc event_doc | Docs "event_doc list" | Snapshot json

record frame =
  fr_id :: int
  fr_event :: string
  fr_data :: sse_data

record sse =
  ss_closed :: bool
  ss_batch :: "event_doc list"
  ss_timer :: bool
  ss_delivered :: int
  ss_listening :: bool
  ss_out :: "frame list"

record stream_opts =
  so_modes :: "string list"
  so_last :: "int option"
  so_buffer :: nat
  so_project :: "event_doc \<Rightarrow> exn + event_doc"

definition writeFrame :: "int \<Rightarrow> string \<Rightarrow> sse_data \<Rightarrow> sse \<Rightarrow> sse" where
  "writeFrame i ev dat s = (if ss_closed s then s
     else s\<lparr>ss_out := ss_out s @ [\<lparr>fr_id = i, fr_event = ev, fr_data = dat\<rparr>]\<rparr>)"

definition flush :: "sse \<Rightarrow> sse" where
  "flush s = (if ss_batch s = [] then s
     else (writeFrame (doc_seq (last (ss_batch s))) ''batch'' (Docs (ss_batch s)) s)\<lparr>ss_batch := [], ss_timer := False\<rparr>)"

definition end_stream :: "sse \<Rightarrow> sse" where
  "end_stream s = (if ss_closed s then s else (flush s)\<lparr>ss_closed := True, ss_listening := False\<rparr>)"

text \<open>\<open>s.replace('run.', '')\<close>: the first occurrence.\<close>

fun remove_first :: "string \<Rightarrow> string \<Rightarrow> string" where
  "remove_first p [] = []"
| "remove_first p (c # cs) = (if starts_with p (c # cs) then drop (length p) (c # cs) else c # remove_first p cs)"

definition ends_batch :: "string \<Rightarrow> bool" where
  "ends_batch t \<longleftrightarrow> t = NODE_SUSPENDED \<or> remove_first ''run.'' t \<in> {''completed'', ''failed'', ''cancelled''}"

definition ends_stream :: "string \<Rightarrow> bool" where
  "ends_stream t \<longleftrightarrow> t \<in> {RUN_COMPLETED, RUN_FAILED, RUN_CANCELLED}"

definition emit_frames :: "stream_opts \<Rightarrow> string \<Rightarrow> json \<Rightarrow> event_doc \<Rightarrow> sse \<Rightarrow> sse" where
  "emit_frames sopt mode snap doc s =
     (let s1 = (if so_buffer sopt > 0
                then let s' = s\<lparr>ss_batch := ss_batch s @ [doc]\<rparr>
                     in if ends_batch (doc_type doc) then flush s' else s'\<lparr>ss_timer := True\<rparr>
                else writeFrame (doc_seq doc) (if length (so_modes sopt) = 1 then doc_type doc else mode) (Doc doc) s);
          s2 = (if ''values'' \<in> set (so_modes sopt) then writeFrame (doc_seq doc) ''state.snapshot'' (Snapshot snap) s1 else s1)
      in if ends_stream (doc_type doc) then end_stream s2 else s2)"

definition emit_doc :: "stream_opts \<Rightarrow> json \<Rightarrow> event_doc \<Rightarrow> sse \<Rightarrow> exn option \<times> sse" where
  "emit_doc sopt snap raw s =
     (case so_project sopt raw of Inl e \<Rightarrow> (Some e, s)
      | Inr doc \<Rightarrow> (case admitted (so_modes sopt) (doc_type doc) of None \<Rightarrow> (None, s)
          | Some mode \<Rightarrow> (None, emit_frames sopt mode snap doc s)))"

definition on_event :: "stream_opts \<Rightarrow> json \<Rightarrow> event_doc \<Rightarrow> sse \<Rightarrow> exn option \<times> sse" where
  "on_event sopt snap d s = (if \<not> ss_listening s \<or> doc_seq d \<le> ss_delivered s then (None, s)
     else emit_doc sopt snap d (s\<lparr>ss_delivered := doc_seq d\<rparr>))"

fun backlog_frames :: "stream_opts \<Rightarrow> json \<Rightarrow> event_doc list \<Rightarrow> sse \<Rightarrow> exn option \<times> sse" where
  "backlog_frames sopt snap [] s = (None, s)"
| "backlog_frames sopt snap (d # ds) s =
     (case emit_doc sopt snap d (s\<lparr>ss_delivered := doc_seq d\<rparr>) of
        (Some e, s') \<Rightarrow> (Some e, s')
      | (None, s') \<Rightarrow> if ss_closed s' then (None, s') else backlog_frames sopt snap ds s')"

definition open_stream :: "stream_opts \<Rightarrow> json \<Rightarrow> sse" where
  "open_stream sopt snap =
     (let k = (case so_last sopt of None \<Rightarrow> -1 | Some n \<Rightarrow> n);
          s = \<lparr>ss_closed = False, ss_batch = [], ss_timer = False, ss_delivered = k, ss_listening = False, ss_out = []\<rparr>
      in if ''values'' \<in> set (so_modes sopt) \<and> so_last sopt \<noteq> None then writeFrame k ''state.snapshot'' (Snapshot snap) s else s)"

text \<open>\<open>Inl\<close>: the refusal before the 200 is committed.\<close>

definition streamRun :: "host \<Rightarrow> run_row \<Rightarrow> stream_opts \<Rightarrow> json \<Rightarrow> world \<Rightarrow> (exn + exn option \<times> sse) \<times> world" where
  "streamRun h r sopt snap w =
     (case readEvents h r (case so_last sopt of None \<Rightarrow> -1 | Some n \<Rightarrow> n) w of
        (Inl e, w1) \<Rightarrow> (Inl e, w1)
      | (Inr backlog, w1) \<Rightarrow>
          (Inr (case backlog_frames sopt snap backlog (open_stream sopt snap) of
             (Some e, s) \<Rightarrow> (Some e, s)
           | (None, s) \<Rightarrow>
               if ss_closed s then (None, s)
               else if (case getRun (run_id r) w1 of None \<Rightarrow> False | Some q \<Rightarrow> terminal_status (r_status q))
               then (None, end_stream s)
               else (None, s\<lparr>ss_listening := True\<rparr>)), w1))"

section \<open>The stream over time\<close>

datatype stream_op = Appended event_doc json | TimerFires | Gone

fun stream_step :: "stream_opts \<Rightarrow> stream_op \<Rightarrow> sse \<Rightarrow> sse" where
  "stream_step sopt (Appended d snap) s = snd (on_event sopt snap d s)"
| "stream_step sopt TimerFires s = (if ss_timer s then flush s else s)"
| "stream_step sopt Gone s = end_stream s"

fun appended_docs :: "stream_op list \<Rightarrow> event_doc list" where
  "appended_docs [] = []"
| "appended_docs (Appended d snap # ops) = d # appended_docs ops"
| "appended_docs (op # ops) = appended_docs ops"

text \<open>The documents a list of frames carries.\<close>

fun data_docs :: "sse_data \<Rightarrow> event_doc list" where
  "data_docs (Doc d) = [d]"
| "data_docs (Docs ds) = ds"
| "data_docs (Snapshot j) = []"

definition frame_docs :: "frame list \<Rightarrow> event_doc list" where
  "frame_docs fs = concat (map (data_docs \<circ> fr_data) fs)"

fun upto_first :: "('a \<Rightarrow> bool) \<Rightarrow> 'a list \<Rightarrow> 'a list" where
  "upto_first P [] = []"
| "upto_first P (x # xs) = x # (if P x then [] else upto_first P xs)"

section \<open>What the frames carry\<close>

definition docs_of :: "sse \<Rightarrow> event_doc list" where
  "docs_of s = frame_docs (ss_out s) @ ss_batch s"

definition admits :: "stream_opts \<Rightarrow> event_doc \<Rightarrow> bool" where
  "admits sopt d \<longleftrightarrow> admitted (so_modes sopt) (doc_type d) \<noteq> None"

definition last_of_stream :: "event_doc \<Rightarrow> bool" where
  "last_of_stream d \<longleftrightarrow> ends_stream (doc_type d)"

lemma upto_first_all: "\<forall>x \<in> set xs. \<not> P x \<Longrightarrow> upto_first P xs = xs"
  by (induction xs) auto

lemma upto_first_append: "upto_first P (xs @ ys) = (if \<exists>x \<in> set xs. P x then upto_first P xs else xs @ upto_first P ys)"
  by (induction xs) auto

lemma frame_docs_append [simp]: "frame_docs (fs @ gs) = frame_docs fs @ frame_docs gs"
  by (simp add: frame_docs_def)

lemma frame_docs_one [simp]: "frame_docs [\<lparr>fr_id = i, fr_event = e, fr_data = d\<rparr>] = data_docs d"
  by (simp add: frame_docs_def)

lemma writeFrame_open:
  "\<not> ss_closed s \<Longrightarrow> writeFrame i e d s = s\<lparr>ss_out := ss_out s @ [\<lparr>fr_id = i, fr_event = e, fr_data = d\<rparr>]\<rparr>"
  by (simp add: writeFrame_def)

lemma flush_docs: "\<not> ss_closed s \<Longrightarrow> docs_of (flush s) = docs_of s"
  by (simp add: flush_def writeFrame_open docs_of_def)

lemma flush_fields [simp]:
  "ss_closed (flush s) = ss_closed s" "ss_batch (flush s) = []" "ss_delivered (flush s) = ss_delivered s"
  "ss_listening (flush s) = ss_listening s"
  by (simp_all add: flush_def writeFrame_def)

lemma end_docs: "docs_of (end_stream s) = docs_of s" if "\<not> ss_closed s"
proof -
  have "docs_of (s'\<lparr>ss_closed := a, ss_listening := b\<rparr>) = docs_of s'" for s' a b by (simp add: docs_of_def)
  with that flush_docs show ?thesis by (simp add: end_stream_def)
qed

text \<open>Between two steps: a batch waits for its timer, and a closed stream holds none.\<close>

definition stream_ok :: "stream_opts \<Rightarrow> sse \<Rightarrow> bool" where
  "stream_ok sopt s \<longleftrightarrow> (so_buffer sopt = 0 \<longrightarrow> ss_batch s = []) \<and> (ss_batch s \<noteq> [] \<longrightarrow> ss_timer s) \<and> (ss_closed s \<longrightarrow> ss_batch s = [])"

lemma emit_frames_docs:
  assumes "\<not> ss_closed s" "stream_ok sopt s"
  shows "docs_of (emit_frames sopt mode snap d s) = docs_of s @ [d]
    \<and> ss_closed (emit_frames sopt mode snap d s) = last_of_stream d
    \<and> stream_ok sopt (emit_frames sopt mode snap d s)
    \<and> ss_delivered (emit_frames sopt mode snap d s) = ss_delivered s
    \<and> ss_listening (emit_frames sopt mode snap d s) = (ss_listening s \<and> \<not> last_of_stream d)"
proof -
  define s1 where "s1 = (if so_buffer sopt > 0
      then let s' = s\<lparr>ss_batch := ss_batch s @ [d]\<rparr>
           in if ends_batch (doc_type d) then flush s' else s'\<lparr>ss_timer := True\<rparr>
      else writeFrame (doc_seq d) (if length (so_modes sopt) = 1 then doc_type d else mode) (Doc d) s)"
  define s2 where "s2 = (if ''values'' \<in> set (so_modes sopt) then writeFrame (doc_seq d) ''state.snapshot'' (Snapshot snap) s1 else s1)"
  let ?ok = "\<lambda>t. docs_of t = docs_of s @ [d] \<and> \<not> ss_closed t \<and> stream_ok sopt t \<and> ss_delivered t = ss_delivered s \<and> ss_listening t = ss_listening s"
  have "?ok s1"
  proof (cases "so_buffer sopt > 0")
    case True
    have "docs_of (s\<lparr>ss_batch := ss_batch s @ [d]\<rparr>) = docs_of s @ [d]" by (simp add: docs_of_def)
    with True assms flush_docs [of "s\<lparr>ss_batch := ss_batch s @ [d]\<rparr>"] show ?thesis
      by (simp add: s1_def Let_def stream_ok_def) (simp add: docs_of_def)
  next
    case False
    then have "so_buffer sopt = 0" "ss_batch s = []" using assms by (auto simp: stream_ok_def)
    then show ?thesis using assms
      by (auto simp: s1_def writeFrame_open docs_of_def stream_ok_def)
  qed
  then have two: "?ok s2" by (auto simp: s2_def writeFrame_open docs_of_def stream_ok_def)
  have "emit_frames sopt mode snap d s = (if last_of_stream d then end_stream s2 else s2)"
    by (simp add: emit_frames_def s1_def s2_def Let_def last_of_stream_def)
  with two end_docs [of s2] show ?thesis by (auto simp: end_stream_def stream_ok_def)
qed

section \<open>The documents seen so far\<close>

text \<open>
  \<open>sent_of f xs\<close>: what a stream sends of the documents \<open>xs\<close>, projected by \<open>f\<close>: those its modes admit, and none after
  the first that ends the stream.
\<close>

definition sent_of :: "stream_opts \<Rightarrow> (event_doc \<Rightarrow> event_doc) \<Rightarrow> event_doc list \<Rightarrow> event_doc list" where
  "sent_of sopt f xs = upto_first last_of_stream (filter (admits sopt) (map f xs))"

definition over :: "stream_opts \<Rightarrow> (event_doc \<Rightarrow> event_doc) \<Rightarrow> event_doc list \<Rightarrow> bool" where
  "over sopt f xs \<longleftrightarrow> (\<exists>x \<in> set xs. admits sopt (f x) \<and> last_of_stream (f x))"

lemma sent_snoc:
  "sent_of sopt f (xs @ [x]) = sent_of sopt f xs @ (if \<not> over sopt f xs \<and> admits sopt (f x) then [f x] else [])"
  "over sopt f (xs @ [x]) \<longleftrightarrow> over sopt f xs \<or> admits sopt (f x) \<and> last_of_stream (f x)"
proof -
  have "upto_first last_of_stream (filter (admits sopt) (map f xs)) = filter (admits sopt) (map f xs)" if "\<not> over sopt f xs"
    using that by (intro upto_first_all) (auto simp: over_def)
  then show "sent_of sopt f (xs @ [x]) = sent_of sopt f xs @ (if \<not> over sopt f xs \<and> admits sopt (f x) then [f x] else [])"
    by (auto simp: sent_of_def upto_first_append) (auto simp: over_def)
qed (auto simp: over_def)

definition caught_up :: "stream_opts \<Rightarrow> (event_doc \<Rightarrow> event_doc) \<Rightarrow> event_doc list \<Rightarrow> sse \<Rightarrow> bool" where
  "caught_up sopt f xs s \<longleftrightarrow> stream_ok sopt s \<and> docs_of s = sent_of sopt f xs \<and> (ss_closed s \<longleftrightarrow> over sopt f xs)"

lemma emit_catches_up:
  assumes "caught_up sopt f xs s" "\<not> ss_closed s" "so_project sopt d = Inr (f d)"
  shows "fst (emit_doc sopt snap d s) = None \<and> caught_up sopt f (xs @ [d]) (snd (emit_doc sopt snap d s))
    \<and> ss_delivered (snd (emit_doc sopt snap d s)) = ss_delivered s
    \<and> ss_listening (snd (emit_doc sopt snap d s)) = (ss_listening s \<and> \<not> ss_closed (snd (emit_doc sopt snap d s)))"
proof (cases "admitted (so_modes sopt) (doc_type (f d))")
  case None
  with assms show ?thesis by (auto simp: emit_doc_def caught_up_def sent_snoc admits_def)
next
  case (Some mode)
  have "stream_ok sopt s" using assms(1) by (simp add: caught_up_def)
  from emit_frames_docs [OF assms(2) this, of mode snap "f d"] assms Some show ?thesis
    by (auto simp: emit_doc_def caught_up_def sent_snoc admits_def)
qed

lemma delivered_irrelevant: "caught_up sopt f xs (s\<lparr>ss_delivered := k\<rparr>) = caught_up sopt f xs s"
  by (simp add: caught_up_def stream_ok_def docs_of_def)

lemma backlog_catches_up:
  assumes "\<forall>d. so_project sopt d = Inr (f d)"
  shows "caught_up sopt f xs s \<Longrightarrow> \<not> ss_closed s \<Longrightarrow> \<not> ss_listening s \<Longrightarrow>
    (case backlog_frames sopt snap ds s of (x, s') \<Rightarrow> x = None \<and> \<not> ss_listening s' \<and> caught_up sopt f (xs @ ds) s'
      \<and> (\<not> ss_closed s' \<longrightarrow> ss_delivered s' = (if ds = [] then ss_delivered s else doc_seq (last ds))))"
proof (induction ds arbitrary: xs s)
  case (Cons d ds)
  let ?s = "s\<lparr>ss_delivered := doc_seq d\<rparr>"
  obtain x s' where e: "emit_doc sopt snap d ?s = (x, s')" by force
  from emit_catches_up [of sopt f xs ?s d snap] Cons.prems assms e
  have s': "x = None" "caught_up sopt f (xs @ [d]) s'" "ss_delivered s' = doc_seq d" "\<not> ss_listening s'"
    by (simp_all add: delivered_irrelevant)
  show ?case
  proof (cases "ss_closed s'")
    case True
    then have "over sopt f (xs @ [d])" using s' by (simp add: caught_up_def)
    then have "over sopt f (xs @ d # ds)" "sent_of sopt f (xs @ d # ds) = sent_of sopt f (xs @ [d])"
      by (auto simp: over_def sent_of_def upto_first_append)
    with True s' e show ?thesis by (auto simp: caught_up_def)
  next
    case False
    from Cons.IH [OF s'(2) False s'(4)] False s' e show ?thesis by (auto split: prod.splits)
  qed
qed simp

section \<open>Live events\<close>

text \<open>The documents of the run after sequence \<open>k\<close>, in order; \<open>live\<close>: a stream that saw all of them.\<close>

definition after_seq :: "int \<Rightarrow> event_doc list \<Rightarrow> event_doc list" where
  "after_seq k ds = filter (\<lambda>d. doc_seq d > k) ds"

definition live :: "stream_opts \<Rightarrow> (event_doc \<Rightarrow> event_doc) \<Rightarrow> int \<Rightarrow> event_doc list \<Rightarrow> sse \<Rightarrow> bool" where
  "live sopt f k ds s \<longleftrightarrow> caught_up sopt f (after_seq k ds) s \<and> (ss_listening s \<longleftrightarrow> \<not> ss_closed s)
     \<and> (\<not> ss_closed s \<longrightarrow> ss_delivered s = (if after_seq k ds = [] then k else doc_seq (last (after_seq k ds))))"

lemma caught_up_closed: "caught_up sopt f xs s \<Longrightarrow> ss_closed s \<Longrightarrow> caught_up sopt f (xs @ ys) s"
  by (auto simp: caught_up_def over_def sent_of_def upto_first_append)

lemma on_event_live:
  assumes l: "live sopt f k ds s" and p: "so_project sopt d = Inr (f d)" and seq: "\<forall>x \<in> set ds. doc_seq x < doc_seq d"
  shows "live sopt f k (ds @ [d]) (snd (on_event sopt snap d s))"
proof (cases "ss_closed s")
  case True
  then have "after_seq k (ds @ [d]) = after_seq k ds @ after_seq k [d]" by (simp add: after_seq_def)
  with True l caught_up_closed [of sopt f "after_seq k ds" s] show ?thesis by (simp add: live_def on_event_def)
next
  case up: False
  show ?thesis
  proof (cases "doc_seq d > k")
    case False
    then have "after_seq k (ds @ [d]) = []" "after_seq k ds = []" using seq by (auto simp: after_seq_def filter_empty_conv)
    with up l False show ?thesis by (simp add: live_def on_event_def)
  next
    case True
    then have xs: "after_seq k (ds @ [d]) = after_seq k ds @ [d]" by (simp add: after_seq_def)
    have "last (after_seq k ds) \<in> set ds" if "after_seq k ds \<noteq> []" using that last_in_set by (fastforce simp: after_seq_def)
    then have "ss_delivered s < doc_seq d" using up l True seq by (auto simp: live_def)
    moreover have "ss_listening s" using up l by (simp add: live_def)
    ultimately have "on_event sopt snap d s = emit_doc sopt snap d (s\<lparr>ss_delivered := doc_seq d\<rparr>)" by (simp add: on_event_def)
    with emit_catches_up [of sopt f "after_seq k ds" "s\<lparr>ss_delivered := doc_seq d\<rparr>" d snap] up l p xs show ?thesis
      by (simp add: live_def delivered_irrelevant)
  qed
qed

lemma timer_live:
  assumes "live sopt f k ds s"
  shows "live sopt f k ds (stream_step sopt TimerFires s)"
proof (cases "ss_timer s \<and> \<not> ss_closed s")
  case True
  with assms flush_docs [of s] show ?thesis by (auto simp: live_def caught_up_def stream_ok_def)
next
  case False
  with assms show ?thesis by (auto simp: live_def caught_up_def stream_ok_def flush_def)
qed

lemma stream_stays_live:
  assumes "\<forall>d. so_project sopt d = Inr (f d)" "Gone \<notin> set ops" "sorted_wrt (<) (map doc_seq (ds @ appended_docs ops))"
  shows "live sopt f k ds s \<Longrightarrow> live sopt f k (ds @ appended_docs ops) (fold (stream_step sopt) ops s)"
  using assms(2,3)
proof (induction ops arbitrary: ds s)
  case (Cons opn ops)
  show ?case
  proof (cases opn)
    case (Appended d snap)
    have "\<forall>x \<in> set ds. doc_seq x < doc_seq d" using Cons.prems(3) Appended by (auto simp: sorted_wrt_append)
    from on_event_live [OF Cons.prems(1) _ this] assms(1)
    have "live sopt f k (ds @ [d]) (stream_step sopt opn s)" by (simp add: Appended)
    from Cons.IH [OF this] Cons.prems Appended show ?thesis by simp
  next
    case TimerFires
    from Cons.IH [OF timer_live [OF Cons.prems(1)]] Cons.prems TimerFires show ?thesis by simp
  qed (use Cons.prems in simp)
qed simp

section \<open>From the opening on\<close>

lemma open_stream_caught_up:
  "caught_up sopt f [] (open_stream sopt snap) \<and> \<not> ss_closed (open_stream sopt snap) \<and> \<not> ss_listening (open_stream sopt snap)
    \<and> ss_delivered (open_stream sopt snap) = (case so_last sopt of None \<Rightarrow> -1 | Some n \<Rightarrow> n)"
  by (auto simp: open_stream_def Let_def writeFrame_def caught_up_def stream_ok_def docs_of_def frame_docs_def sent_of_def over_def)

lemma streamRun_live:
  assumes "log_ok w" "eraOf r \<ge> 3" "\<forall>d. so_project sopt d = Inr (f d)"
    and "\<forall>q. getRun (run_id r) w = Some q \<longrightarrow> \<not> terminal_status (r_status q)"
  shows "\<exists>s. streamRun h r sopt snap w = (Inr (None, s), w)
    \<and> live sopt f (case so_last sopt of None \<Rightarrow> -1 | Some n \<Rightarrow> n) (map doc_of_row (run_events (run_id r) w)) s"
proof -
  let ?k = "case so_last sopt of None \<Rightarrow> -1 | Some n \<Rightarrow> n"
  let ?ds = "map doc_of_row (filter (\<lambda>e. e_seq e > ?k) (run_events (run_id r) w))"
  have ds: "?ds = after_seq ?k (map doc_of_row (run_events (run_id r) w))"
    by (simp add: after_seq_def filter_map comp_def doc_of_row_def)
  obtain x s where b: "backlog_frames sopt snap ?ds (open_stream sopt snap) = (x, s)" by force
  from backlog_catches_up [where xs = "[]" and s = "open_stream sopt snap" and snap = snap and ds = ?ds, OF assms(3)]
    open_stream_caught_up [of sopt f snap] b
  have s: "x = None" "\<not> ss_listening s" "caught_up sopt f ?ds s"
    "\<not> ss_closed s \<longrightarrow> ss_delivered s = (if ?ds = [] then ?k else doc_seq (last ?ds))" by auto
  have "caught_up sopt f ?ds (s\<lparr>ss_listening := True\<rparr>)" using s(3) by (simp add: caught_up_def stream_ok_def docs_of_def)
  with s show ?thesis unfolding streamRun_def readEvents_era3 [OF assms(1,2)] ds [symmetric] live_def
    using assms(4) b by (cases "ss_closed s") (auto split: option.splits)
qed

lemma over_sent: "over sopt f xs \<longleftrightarrow> (\<exists>d \<in> set (sent_of sopt f xs). last_of_stream d)"
proof -
  have "(\<exists>x \<in> set xs. P x) \<longleftrightarrow> (\<exists>x \<in> set (upto_first P xs). P x)" for P and xs :: "'a list" by (induction xs) auto
  from this [of "filter (admits sopt) (map f xs)" last_of_stream] show ?thesis by (auto simp: over_def sent_of_def)
qed

lemma logged_docs_sorted:
  assumes "log_ok w"
  shows "sorted_wrt (<) (map doc_seq (map doc_of_row (run_events rid w)))"
proof -
  have "map doc_seq (map doc_of_row (run_events rid w)) = map int [0..<length (run_events rid w)]"
    using assms by (intro nth_equalityI) (simp_all add: doc_of_row_def seqs_from_zero_nth log_ok_def)
  then show ?thesis by (simp only: sorted_wrt_map of_nat_less_iff sorted_wrt_upt)
qed

text \<open>
  C21: A stream delivers the log: whatever the appends, the caller's position and buffering, and the
  moments the flush timer fires, the documents of the frames, with the batch still waiting for its
  timer, are exactly the run's events after the position that the modes admit, each once and in
  order, up to the first that ends the stream; the stream is closed exactly when that one was sent.
\<close>

theorem stream_delivers_the_log:
  assumes "log_ok w" "eraOf r \<ge> 3" "\<forall>d. so_project sopt d = Inr (f d)"
    and "\<forall>q. getRun (run_id r) w = Some q \<longrightarrow> \<not> terminal_status (r_status q)"
    and w': "w' = fold (append_cmd h) cs w"
    and ops: "appended_docs ops = map doc_of_row (drop (length (run_events (run_id r) w)) (run_events (run_id r) w'))" "Gone \<notin> set ops"
  shows "\<exists>s0 s. streamRun h r sopt snap w = (Inr (None, s0), w) \<and> s = fold (stream_step sopt) ops s0
    \<and> frame_docs (ss_out s) @ ss_batch s
      = sent_of sopt f (filter (\<lambda>d. doc_seq d > (case so_last sopt of None \<Rightarrow> -1 | Some n \<Rightarrow> n)) (map doc_of_row (run_events (run_id r) w')))
    \<and> (ss_batch s \<noteq> [] \<longrightarrow> ss_timer s)
    \<and> (ss_closed s \<longleftrightarrow> (\<exists>d \<in> set (frame_docs (ss_out s)). last_of_stream d))"
proof -
  let ?k = "case so_last sopt of None \<Rightarrow> -1 | Some n \<Rightarrow> n" and ?rid = "run_id r"
  let ?ds = "map doc_of_row (run_events ?rid w)"
  from streamRun_live [OF assms(1-4), of h snap] obtain s0
    where s0: "streamRun h r sopt snap w = (Inr (None, s0), w)" "live sopt f ?k ?ds s0" by blast
  have "run_events ?rid w' = run_events ?rid w @ drop (length (run_events ?rid w)) (run_events ?rid w')"
    unfolding w' by (rule appends.cursor_resumes [OF assms(1)])
  then have all: "?ds @ appended_docs ops = map doc_of_row (run_events ?rid w')"
    unfolding ops(1) map_append [symmetric] by (rule arg_cong [OF sym])
  have "log_ok w'" unfolding w' by (rule appends.acts_inv [OF assms(1)])
  with stream_stays_live [OF assms(3) ops(2), of ?ds ?k s0] logged_docs_sorted [of w' ?rid] s0(2)
  have l: "live sopt f ?k (map doc_of_row (run_events ?rid w')) (fold (stream_step sopt) ops s0)" by (simp add: all)
  let ?s = "fold (stream_step sopt) ops s0" and ?xs = "after_seq ?k (map doc_of_row (run_events ?rid w'))"
  from l have "caught_up sopt f ?xs ?s" by (simp only: live_def)
  then have d: "frame_docs (ss_out ?s) @ ss_batch ?s = sent_of sopt f ?xs" "ss_closed ?s \<longleftrightarrow> over sopt f ?xs"
    "ss_batch ?s \<noteq> [] \<longrightarrow> ss_timer ?s" "ss_closed ?s \<longrightarrow> ss_batch ?s = []"
    by (simp_all add: caught_up_def stream_ok_def docs_of_def)
  have "ss_closed ?s \<longleftrightarrow> (\<exists>d \<in> set (frame_docs (ss_out ?s)). last_of_stream d)"
  proof
    assume "ss_closed ?s"
    then show "\<exists>d \<in> set (frame_docs (ss_out ?s)). last_of_stream d" using d(1,2,4) over_sent [of sopt f ?xs] by simp
  next
    assume "\<exists>d \<in> set (frame_docs (ss_out ?s)). last_of_stream d"
    moreover have "set (frame_docs (ss_out ?s)) \<subseteq> set (sent_of sopt f ?xs)" using d(1) [symmetric] by simp
    ultimately show "ss_closed ?s" unfolding d(2) over_sent by blast
  qed
  with s0(1) d(1,3) show ?thesis unfolding after_seq_def by blast
qed

section \<open>Modes that do not admit the end\<close>

text \<open>
  \<open>end()\<close> comes after the test of the modes: a stream of \<open>messages\<close> alone never sees the terminal event it
  would close on, so it stays open after its run ended, whatever is appended.
\<close>

lemma messages_stream_stays_open:
  assumes "so_modes sopt = [''messages'']" "\<forall>d. so_project sopt d = Inr (f d)" "live sopt f k ds s"
    and "Gone \<notin> set ops" "sorted_wrt (<) (map doc_seq (ds @ appended_docs ops))"
  shows "\<not> ss_closed (fold (stream_step sopt) ops s)"
proof -
  have "\<not> over sopt f xs" for xs
    using assms(1) by (auto simp: over_def admits_def last_of_stream_def ends_stream_def
        RUN_COMPLETED_def RUN_FAILED_def RUN_CANCELLED_def)
  with stream_stays_live [OF assms(2,4,5,3)] show ?thesis by (simp add: live_def caught_up_def)
qed

section \<open>A run that completes while it is streamed\<close>

definition demo_stream :: stream_opts where
  "demo_stream = \<lparr>so_modes = [''updates''], so_last = None, so_buffer = 100, so_project = Inr\<rparr>"

definition demo_completes :: append_cmd where
  "demo_completes = \<lparr>ac_run = demo_run ''r'' ''l'', ac_type = RUN_COMPLETED, ac_payload = JObj [], ac_opts = no_opts\<rparr>"

lemma stream_delivers_the_log_witness:
  "\<exists>s0 d. streamRun demo_host (demo_run ''r'' ''l'') demo_stream JNull (demo_world [demo_run ''r'' ''l''])
      = (Inr (None, s0), demo_world [demo_run ''r'' ''l''])
    \<and> frame_docs (ss_out (fold (stream_step demo_stream) [Appended d JNull, TimerFires] s0)) = [d]
    \<and> ss_closed (fold (stream_step demo_stream) [Appended d JNull, TimerFires] s0)"
proof -
  let ?r = "demo_run ''r'' ''l''" and ?w = "demo_world [demo_run ''r'' ''l'']"
  let ?w' = "fold (append_cmd demo_host) [demo_completes] ?w"
  have ok: "log_ok ?w" by (simp add: log_ok_def run_events_def seqs_from_zero_def demo_world_def)
  have none: "run_events ''r'' ?w = []" by (simp add: run_events_def demo_world_def)
  obtain e where e: "run_events ''r'' ?w' = [e]" "e_type e = RUN_COMPLETED" "e_seq e = 0"
    by (simp add: append_cmd_def demo_completes_def emit_def guarded_def appendEvent_def registered_type_def demo_host_def demo_artifacts_def
        event_types_def toStorageVocabulary_def eraOf_def demo_run_def insertEvent_def demo_world_def Let_def run_events_def no_opts_def
        lastSequence_def)
  have act: "\<forall>q. getRun (run_id ?r) ?w = Some q \<longrightarrow> \<not> terminal_status (r_status q)" and r: "eraOf ?r \<ge> 3" "run_id ?r = ''r''"
    and p: "\<forall>d. so_project demo_stream d = Inr (id d)"
    by (simp_all add: getRun_def demo_world_def demo_run_def eraOf_def demo_stream_def)
  let ?ops = "[Appended (doc_of_row e) JNull, TimerFires]"
  have ops: "appended_docs ?ops = map doc_of_row (drop (length (run_events (run_id ?r) ?w)) (run_events (run_id ?r) ?w'))" "Gone \<notin> set ?ops"
    using e(1) by (simp_all add: none r(2))
  have kept: "admits demo_stream (doc_of_row e)" "last_of_stream (doc_of_row e)" "doc_seq (doc_of_row e) = 0"
    using e by (simp_all add: admits_def demo_stream_def doc_of_row_def RUN_COMPLETED_def last_of_stream_def ends_stream_def
        vendor_type_def in_updates_def starts_with_def CORE_FAMILIES_def DEBUG_ONLY_def UPDATES_PREFIXES_def)
  have sent: "sent_of demo_stream id (filter (\<lambda>d. doc_seq d > (case so_last demo_stream of None \<Rightarrow> -1 | Some n \<Rightarrow> n))
      (map doc_of_row (run_events (run_id ?r) ?w'))) = [doc_of_row e]"
    using kept e(1) by (simp add: r(2) sent_of_def demo_stream_def [THEN arg_cong [where f = so_last]])
  from stream_delivers_the_log [OF ok r(1) p act refl ops, of JNull] obtain s0 s
    where s0: "streamRun demo_host ?r demo_stream JNull ?w = (Inr (None, s0), ?w)" and s: "s = fold (stream_step demo_stream) ?ops s0"
      and out: "frame_docs (ss_out s) @ ss_batch s = [doc_of_row e]" "ss_batch s \<noteq> [] \<longrightarrow> ss_timer s"
        "ss_closed s \<longleftrightarrow> (\<exists>d \<in> set (frame_docs (ss_out s)). last_of_stream d)"
    unfolding sent by blast
  have "ss_batch s \<noteq> [] \<longrightarrow> \<not> ss_timer s" unfolding s by (simp add: stream_step.simps)
  with out have "frame_docs (ss_out s) = [doc_of_row e]" by auto
  moreover from this out(3) kept(2) have "ss_closed s" by simp
  ultimately show ?thesis using s0 unfolding s by blast
qed

end
