(* ===== verification/Runs.thy ===== *)
theory Runs
  imports Admission Replay Webhooks Trace Paging Stream_Frames
begin

text \<open>
  The run surface (\<open>runs.ts\<close>): the closed schema of the run options, acceptance of a run, the run a
  caller may see, the snapshot, the run list and its cursors, and the handlers of cancel, pause,
  resume, fork, annotations, interrupts and their tokens. A handler answers a reply or throws; it
  changes the world. What the caller brings is the context of the request.
\<close>

section \<open>The request\<close>

record ctx =
  cx_subject :: "subject option"
  cx_major :: nat
  cx_headers :: "(string \<times> string) list"
  cx_query :: "(string \<times> string) list"
  cx_base :: string

record runs_env =
  re_host :: host
  re_cfg :: router_cfg
  re_tenant :: string
  re_cursor_key :: string
  re_build :: string
  re_a2a_push :: bool

type_synonym answer = "(web_error + reply) \<times> world"

definition header_of :: "ctx \<Rightarrow> string \<Rightarrow> string option" where
  "header_of c name = map_of (cx_headers c) name"

definition thrown :: "exn + 'a \<Rightarrow> web_error + 'a" where
  "thrown r = map_sum (\<lambda>e. WebError e []) id r"

definition replied :: "nat \<Rightarrow> json \<Rightarrow> reply" where
  "replied st body = \<lparr>rp_status = st, rp_body = Some body, rp_raw = None, rp_type = None, rp_headers = []\<rparr>"

definition caller_tenant :: "runs_env \<Rightarrow> ctx \<Rightarrow> string" where
  "caller_tenant env c = (case cx_subject c of Some s \<Rightarrow> sub_tenant s | None \<Rightarrow> re_tenant env)"

text \<open>The guards of a handler, in order: the first that holds refuses.\<close>

fun first_refusal :: "(bool \<times> 'e) list \<Rightarrow> 'e + unit" where
  "first_refusal [] = Inr ()"
| "first_refusal ((b, e) # gs) = (if b then Inl e else first_refusal gs)"

section \<open>Run options\<close>

definition CREATE_KEYS :: "string list" where
  "CREATE_KEYS = [''workflowId'', ''inputs'', ''residency'', ''tenantId'', ''scopeId'', ''callbackUrl'', ''mode'', ''evalSuiteRef'',
     ''agentId'', ''configurable'', ''tags'', ''metadata'']"

definition CONFIGURABLE_SECTIONS :: "(string \<times> string list) list" where
  "CONFIGURABLE_SECTIONS = [
     (''run'', [''recursionLimit'', ''runTimeoutMs'', ''maxLoopIterations'', ''escalationThreshold'']),
     (''ai'', [''provider'', ''model'', ''temperature'', ''maxTokens'', ''credentialRef'', ''promptOverrides'', ''mockProvider'',
        ''reasoningVerbosity'', ''maxRefusals'']),
     (''distillation'', [''tokenBudget''])]"

text \<open>The names every object of the language answers, which \<open>CONFIGURABLE_SECTIONS[k]\<close> finds too.\<close>

definition OBJECT_PROTOTYPE :: "string list" where
  "OBJECT_PROTOTYPE = [''constructor'', ''__defineGetter__'', ''__defineSetter__'', ''hasOwnProperty'', ''__lookupGetter__'',
     ''__lookupSetter__'', ''isPrototypeOf'', ''propertyIsEnumerable'', ''toString'', ''valueOf'', ''__proto__'', ''toLocaleString'']"

text \<open>\<open>^[a-z][a-z0-9]*(-[a-z0-9]+)*$\<close>.\<close>

definition lower_alnum :: "char \<Rightarrow> bool" where
  "lower_alnum c \<longleftrightarrow> is_digit c \<or> (let n = (of_char c :: nat) in 97 \<le> n \<and> n \<le> 122)"

definition org_key :: "string \<Rightarrow> bool" where
  "org_key s \<longleftrightarrow> list_all (\<lambda>p. p \<noteq> [] \<and> list_all lower_alnum p) (split_on (CHR ''-'') s) \<and> s \<noteq> [] \<and> \<not> is_digit (hd s)"

text \<open>An object that is no array.\<close>

definition plain_object :: "json option \<Rightarrow> bool" where
  "plain_object v \<longleftrightarrow> (case v of Some (JObj ps) \<Rightarrow> True | _ \<Rightarrow> False)"

definition path_detail :: "string \<Rightarrow> json option" where
  "path_detail p = field_detail ''path'' p"

definition extensions_refusal :: "json \<Rightarrow> exn option" where
  "extensions_refusal v = (if \<not> is_object (Some v) then Some (bad_request ''configurable.extensions MUST be an object'' None)
     else map_option (\<lambda>kv. bad_request (''configurable.extensions.'' @ fst kv @ '' is not an org key'')
            (path_detail (''configurable.extensions.'' @ fst kv)))
       (find (\<lambda>kv. \<not> org_key (fst kv)) (members_of (Some v))))"

definition ai_refusal :: "json \<Rightarrow> exn option" where
  "ai_refusal v =
     (let t = jfield v ''temperature'' in
      if (case t of None \<Rightarrow> False | Some (JNum n) \<Rightarrow> n < 0 \<or> n > 2 | _ \<Rightarrow> True) then Some (bad_request ''ai.temperature is 0..2'' None)
      else if jfield v ''provider'' \<noteq> None
      then Some (bad_request (''ai.provider MUST be in aiProviders.providers '' @ EM_DASH @ '' this host advertises no AI provider'') (path_detail ''configurable.ai.provider''))
      else if jfield v ''mockProvider'' \<noteq> None
      then Some (HostError ''mock_provider_forbidden'' ''mockProvider is test-keys-only and this host advertises no mock provider'' None)
      else None)"

definition run_refusal :: "json \<Rightarrow> exn option" where
  "run_refusal v = (if (case jfield v ''runTimeoutMs'' of None \<Rightarrow> False | Some (JNum n) \<Rightarrow> n < 1 \<or> n > 600000 | _ \<Rightarrow> True)
     then Some (bad_request ''run.runTimeoutMs is out of range (1..limits.maxRunDurationMs)'' None) else None)"

definition section_refusal :: "string \<Rightarrow> string list \<Rightarrow> json \<Rightarrow> exn option" where
  "section_refusal k sect v =
     (case find (\<lambda>kv. fst kv \<notin> set sect) (members_of (Some v)) of
        Some (inner, x) \<Rightarrow> Some (bad_request (''unknown key '' @ inner @ '' in configurable.'' @ k
            @ (if CHR ''.'' \<in> set inner then '' (a dotted key is not a section path)'' else [])) (path_detail (''configurable.'' @ k @ ''.'' @ inner)))
      | None \<Rightarrow> if k = ''ai'' then ai_refusal v else if k = ''run'' then run_refusal v else None)"

definition member_refusal :: "string \<Rightarrow> json \<Rightarrow> exn option" where
  "member_refusal k v =
     (if k = ''version'' then None
      else if k = ''budget'' then map_option (\<lambda>(code, m, path). HostError code m (path_detail path)) (budgetRefusal v)
      else if k = ''extensions'' then extensions_refusal v
      else case map_of CONFIGURABLE_SECTIONS k of
        Some sect \<Rightarrow> if \<not> plain_object (Some v) then Some (bad_request (''configurable.'' @ k @ '' MUST be an object'') None) else section_refusal k sect v
      | None \<Rightarrow>
          if k \<notin> set OBJECT_PROTOTYPE
          then Some (bad_request (''unknown configurable key '' @ k @ '' (closed schema)'') (path_detail (''configurable.'' @ k)))
          else if \<not> plain_object (Some v) then Some (bad_request (''configurable.'' @ k @ '' MUST be an object'') None)
          else if members_of (Some v) = [] then None else Some (JsError ''section.has is not a function''))"

fun first_member_refusal :: "(string \<times> json) list \<Rightarrow> exn option" where
  "first_member_refusal [] = None"
| "first_member_refusal ((k, v) # kvs) = (case member_refusal k v of Some e \<Rightarrow> Some e | None \<Rightarrow> first_member_refusal kvs)"

definition validateConfigurable :: "json option \<Rightarrow> exn option" where
  "validateConfigurable c = (case c of None \<Rightarrow> None
     | Some (JObj ps) \<Rightarrow>
         if map_of ps ''version'' \<noteq> Some (JNum 1)
         then Some (bad_request ''configurable.version is REQUIRED and MUST be 1'' (path_detail ''configurable.version''))
         else first_member_refusal ps
     | _ \<Rightarrow> Some (bad_request ''configurable MUST be an object'' None))"

section \<open>Bodies\<close>

definition parseJsonBody :: "string \<Rightarrow> exn + (string \<times> json) list" where
  "parseJsonBody txt = (if js_trim txt = [] then Inr [] else
     case json_parse txt of
       None \<Rightarrow> Inl (bad_request ''the request body is not JSON'' None)
     | Some (JObj ps) \<Rightarrow> Inr ps
     | Some _ \<Rightarrow> Inl (bad_request ''the request body MUST be a JSON object'' None))"

section \<open>The run a caller may see\<close>

definition wireRunId :: "nat \<Rightarrow> string \<Rightarrow> string" where
  "wireRunId major rid = (if major \<noteq> 1 then rid else
     let rest = dropWhile (\<lambda>c. c \<noteq> CHR ''/'') rid
     in if takeWhile (\<lambda>c. c \<noteq> CHR ''/'') rid \<noteq> [] \<and> rest \<noteq> [] then drop 1 rest else rid)"

definition bare_id_refusal :: "string \<Rightarrow> exn" where
  "bare_id_refusal rid = bad_request (''a bare run id is the v1 spelling and this host no longer advertises a 1.x member; use the tenant-bound form <tenantId>/<id> (identity.md ''
     @ SECTION_SIGN @ ''5)'') (field_detail ''runId'' rid)"

definition loadRun :: "runs_env \<Rightarrow> ctx \<Rightarrow> string \<Rightarrow> world \<Rightarrow> (exn + run_row) \<times> world" where
  "loadRun env c rid w =
     (let ten = caller_tenant env c; bound = (CHR ''/'' \<in> set rid) in
      if rc_v1_retired (re_cfg env) \<and> \<not> bound
      then (Inl (bare_id_refusal rid), w)
      else
        let i = (if bound then rid else ten @ ''/'' @ rid) in
        case checkTenantBound i ten ''runId'' of
          Inl e \<Rightarrow> (Inl e, w)
        | Inr x \<Rightarrow>
            (case getRun i w of
               Some r \<Rightarrow> if r_tenant r \<noteq> ten then (Inl (HostError ''not_found'' ''run not found'' None), w) else applyPinDisposition (re_host env) r w
             | None \<Rightarrow> (Inl (HostError ''not_found'' ''run not found'' None), w)))"

text \<open>Every handler of one run begins with it.\<close>

definition on_run :: "runs_env \<Rightarrow> ctx \<Rightarrow> string \<Rightarrow> (run_row \<Rightarrow> world \<Rightarrow> answer) \<Rightarrow> world \<Rightarrow> answer" where
  "on_run env c rid f w = (case loadRun env c rid w of (Inl e, w1) \<Rightarrow> (Inl (WebError e []), w1) | (Inr r, w1) \<Rightarrow> f r w1)"

section \<open>The snapshot\<close>

definition compensationStatusOf :: "run_row \<Rightarrow> string" where
  "compensationStatusOf r = cm_status (compensationState r)"

definition snapshot_json :: "host \<Rightarrow> run_row \<Rightarrow> json \<Rightarrow> json" where
  "snapshot_json h r owner =
     (let opts = Some (r_options r) in
      jobj [(''runId'', Some (JStr (run_id r))), (''workflowId'', Some (JStr (r_workflow r))), (''status'', Some (JStr (status_name (r_status r)))),
        (''owner'', Some owner), (''eventLogSchemaVersion'', Some (JNum (int (eraOf r)))), (''engineVersion'', Some (JNum (int ENGINE_VERSION))),
        (''compensationStatus'', Some (JStr (compensationStatusOf r))), (''variables'', Some (r_inputs r)),
        (''currentNodeId'', map_option JStr (r_node r)), (''parentRunId'', map_option JStr (r_source r)),
        (''startedAt'', map_option (\<lambda>t. JStr (h_iso h t)) (r_started r)), (''completedAt'', map_option (\<lambda>t. JStr (h_iso h t)) (r_completed r)),
        (''error'', r_error r), (''configurable'', jget opts ''configurable''), (''tags'', jget opts ''tags''), (''metadata'', jget opts ''metadata''),
        (''agent'', jget opts ''agent'')])"

definition snapshot :: "host \<Rightarrow> run_row \<Rightarrow> world \<Rightarrow> json \<times> world" where
  "snapshot h r w = (case ownerOf r w of (owner, w1) \<Rightarrow> (snapshot_json h r owner, w1))"

text \<open>The members a v1 caller sees spelled otherwise, and the \<open>runId\<close> of the reply.\<close>

definition put :: "string \<Rightarrow> json \<Rightarrow> json \<Rightarrow> json" where
  "put k v j = (case j of JObj ps \<Rightarrow> JObj (AList.update k v ps) | _ \<Rightarrow> j)"

definition snapshotForMajor :: "runs_env \<Rightarrow> nat \<Rightarrow> run_row \<Rightarrow> world \<Rightarrow> json \<times> world" where
  "snapshotForMajor env major r w =
     (case snapshot (re_host env) r w of (snap, w1) \<Rightarrow>
        (if major \<noteq> 1 then snap
         else let v1 = (case jfield snap ''owner'' of Some ow \<Rightarrow> put ''owner'' (ownerForMajor ow 1) snap | None \<Rightarrow> snap)
              in (case jfield snap ''parentRunId'' of Some (JStr p) \<Rightarrow> put ''parentRunId'' (JStr (wireRunId major p)) v1 | _ \<Rightarrow> v1), w1))"

section \<open>Acceptance\<close>

definition accepted_row :: "host \<Rightarrow> subject \<Rightarrow> string \<Rightarrow> json \<Rightarrow> json \<Rightarrow> string option \<Rightarrow> string \<Rightarrow> nat \<Rightarrow> run_row" where
  "accepted_row h subj wid inputs options scope rid now =
     \<lparr>run_id = rid, r_tenant = sub_tenant subj, r_workflow = wid, r_status = Pending, r_era = Some EVENT_LOG_SCHEMA_VERSION,
      r_owner = Some (JObj [(''tenant'', JStr (sub_tenant subj)), (''subject'', subject_json subj)]),
      r_options = options, r_inputs = inputs, r_created = now, r_updated = now, r_started = None, r_completed = None, r_node = None,
      r_error = None, r_source = None, r_fork_mode = None, r_from_seq = None, r_comp = None, r_pause = False, r_cancel = False,
      r_pin_checked = True, r_scope = scope\<rparr>"

definition acceptRun :: "host \<Rightarrow> subject \<Rightarrow> string \<Rightarrow> json \<Rightarrow> json \<Rightarrow> string option \<Rightarrow> world \<Rightarrow> (exn + run_row) \<times> world" where
  "acceptRun h subj wid inputs options scope w =
     (let (rid, w1) = tenantBound h (sub_tenant subj) w; row = accepted_row h subj wid inputs options scope rid (w_clock w1)
      in case insertRun row w1 of
           None \<Rightarrow> (Inl (JsError ''UNIQUE constraint failed: runs''), w1)
         | Some w2 \<Rightarrow> (Inr row, w2))"

section \<open>Creating a run\<close>

definition unknown_create_key :: "(string \<times> json) list \<Rightarrow> exn + unit" where
  "unknown_create_key body = (case find (\<lambda>kv. fst kv \<notin> set CREATE_KEYS) body of
       None \<Rightarrow> Inr ()
     | Some kv \<Rightarrow> Inl (bad_request (''unknown key '' @ fst kv @ '' '' @ EM_DASH @ '' the createRun body is closed'') (field_detail ''key'' (fst kv))))"

text \<open>The refusals that read only the body and the headers, in the order of the code; the subject is known.\<close>

definition bad_tags :: "json option \<Rightarrow> bool" where
  "bad_tags t \<longleftrightarrow> (case t of None \<Rightarrow> False
     | Some (JArr xs) \<Rightarrow> length xs > 100 \<or> \<not> list_all (\<lambda>x. case x of JStr s \<Rightarrow> 0 < utf16_length s \<and> utf16_length s \<le> 256 | _ \<Rightarrow> False) xs
     | _ \<Rightarrow> True)"

definition not_plain :: "json option \<Rightarrow> bool" where
  "not_plain v \<longleftrightarrow> v \<noteq> None \<and> \<not> plain_object v"

definition mode_and_workflow :: "subject \<Rightarrow> (string \<times> json) list \<Rightarrow> exn + unit" where
  "mode_and_workflow subj body = (let b = map_of body; wid = b ''workflowId'' in first_refusal [
     (b ''mode'' = Some (JStr ''eval''), HostError ''capability_not_provided'' ''mode: eval needs agents.evalSuite, which this host does not advertise''
        (field_detail ''capability'' ''agents.evalSuite'')),
     (b ''mode'' \<noteq> None, bad_request ''mode MUST be eval when present'' None),
     (\<not> (is_str wid \<and> NODE_ID (text_of wid)), bad_request ''workflowId is REQUIRED (ids.schema.json workflowId grammar)'' None),
     (b ''tenantId'' \<noteq> None \<and> b ''tenantId'' \<noteq> Some (JStr (sub_tenant subj)),
        HostError ''forbidden'' ''tenantId MUST be the credential's tenant; the tenant never comes from the body'' None),
     (b ''residency'' \<noteq> None, HostError ''residency_unavailable''
        (''residency.region '' @ js_String (jget (b ''residency'') ''region'') @ '' is not advertised by this host (dataResidency not advertised)'')
        (Some (jobj [(''region'', jget (b ''residency'') ''region'')]))),
     (not_plain (b ''inputs''), bad_request ''inputs MUST be an object'' None)])"

definition rest_of_body :: "ctx \<Rightarrow> (string \<times> json) list \<Rightarrow> exn + unit" where
  "rest_of_body c body = (let b = map_of body in first_refusal [
     (bad_tags (b ''tags''), bad_request ''tags: at most 100 strings of at most 256 characters''
        (Some (JObj [(''maxItems'', JNum 100), (''maxLength'', JNum 256)]))),
     (not_plain (b ''metadata''), bad_request ''metadata MUST be an object'' None),
     (b ''callbackUrl'' \<noteq> None, bad_request (''callbackUrl is not supported by this host: it does not advertise interrupt.callbackDelivery, so it delivers nothing to it (interrupt.md ''
        @ SECTION_SIGN @ ''Callback delivery, RFC 0196)'') (field_detail ''field'' ''callbackUrl'')),
     (header_of c ''openwop-force-engine-version'' \<noteq> None, HostError ''force_engine_version_forbidden''
        ''OpenWOP-Force-Engine-Version is test-keys-only; this host advertises no forceEngineVersionRange'' None)])"

definition workflow_for :: "host \<Rightarrow> nat \<Rightarrow> string \<Rightarrow> exn + wf_def" where
  "workflow_for h major wid = (case workflow_of h wid of
       None \<Rightarrow> Inl (HostError ''not_found'' (''workflow '' @ wid @ '' is not registered on this host'') (field_detail ''workflowId'' wid))
     | Some d \<Rightarrow>
         if major = 1 \<and> list_ex (\<lambda>n. nd_type n = ''core.conversationGate'') (wf_nodes d)
         then Inl (HostError ''capability_required'' ''core.conversationGate needs conversationPrimitive, which this host does not advertise on the 1.x contract''
                (field_detail ''requiredCapability'' ''conversationPrimitive''))
         else case (if major = 2 \<and> councilSupported h then oversizedRoster d else None) of
           Some (nid, k) \<Rightarrow> Inl (HostError ''conversation_roster_exceeded'' (''core.conversationGate '' @ nid @ '' names '' @ nat_string k
               @ '' participants; this host's multiPartyConversation.maxParticipants is '' @ nat_string MAX_PARTICIPANTS)
               (Some (JObj [(''maxParticipants'', JNum (int MAX_PARTICIPANTS)), (''nodeId'', JStr nid), (''participants'', JNum (int k))])))
         | None \<Rightarrow> Inr d)"

definition scope_of_body :: "(string \<times> json) list \<Rightarrow> string option" where
  "scope_of_body body = str_of (map_of body ''scopeId'')"

definition scope_conflict :: "ctx \<Rightarrow> subject \<Rightarrow> string option \<Rightarrow> 'a store_scheme \<Rightarrow> web_error + unit" where
  "scope_conflict c subj scope w =
     (case scope of Some sc \<Rightarrow>
        if header_of c ''openwop-dedup'' = Some ''enforce'' then
          (case activeRunForScope (sub_tenant subj) sc w of
             Some r \<Rightarrow> Inl (WebError (HostError ''run_already_active'' (''a run for scopeId '' @ sc @ '' is active'')
                 (Some (JObj [(''runId'', JStr (run_id r)), (''scopeId'', JStr sc)]))) [(''Retry-After'', ''5'')])
           | None \<Rightarrow> Inr ())
        else Inr ()
      | None \<Rightarrow> Inr ())"

definition create_options :: "ctx \<Rightarrow> (string \<times> json) list \<Rightarrow> json" where
  "create_options c body = jobj [(''configurable'', map_of body ''configurable''), (''tags'', map_of body ''tags''), (''metadata'', map_of body ''metadata''),
     (''traceContext'', map_option trace_json (inboundTraceContext None (header_of c)))]"

definition create_inputs :: "wf_def \<Rightarrow> (string \<times> json) list \<Rightarrow> (string \<times> json) list" where
  "create_inputs d body =
     (let defaults = fold (\<lambda>v m. case v_default v of Some x \<Rightarrow> AList.update (v_name v) x m | None \<Rightarrow> m) (wf_vars d) []
      in fold (\<lambda>(k, x) m. AList.update k x m) (case map_of body ''inputs'' of Some (JObj ps) \<Rightarrow> ps | _ \<Rightarrow> []) defaults)"

definition missing_input :: "wf_def \<Rightarrow> (string \<times> json) list \<Rightarrow> exn + unit" where
  "missing_input d inputs = (case find (\<lambda>v. v_required v = Some True \<and> map_of inputs (v_name v) = None) (wf_vars d) of
       None \<Rightarrow> Inr ()
     | Some v \<Rightarrow> Inl (bad_request (''input '' @ v_name v @ '' is required by the workflow'') (field_detail ''variable'' (v_name v))))"

text \<open>What the request asks for: who, which workflow, its inputs, its options and its scope.\<close>

definition create_request :: "runs_env \<Rightarrow> ctx \<Rightarrow> string \<Rightarrow> 'a store_scheme \<Rightarrow>
    web_error + subject \<times> string \<times> (string \<times> json) list \<times> json \<times> string option" where
  "create_request env c txt w =
     and_then (thrown (parseJsonBody txt)) (\<lambda>body.
     and_then (thrown (unknown_create_key body)) (\<lambda>u.
     case cx_subject c of None \<Rightarrow> Inl (web_err ''unauthenticated'' ''runs:create needs a credential'' None)
     | Some subj \<Rightarrow>
       and_then (thrown (mode_and_workflow subj body)) (\<lambda>u.
       let wid = text_of (map_of body ''workflowId'') in
       and_then (case validateConfigurable (map_of body ''configurable'') of Some e \<Rightarrow> Inl (WebError e []) | None \<Rightarrow> Inr ()) (\<lambda>u.
       and_then (thrown (rest_of_body c body)) (\<lambda>u.
       and_then (thrown (workflow_for (re_host env) (cx_major c) wid)) (\<lambda>d.
       and_then (scope_conflict c subj (scope_of_body body) w) (\<lambda>u.
       let inputs = create_inputs d body in
       and_then (thrown (missing_input d inputs)) (\<lambda>u.
         Inr (subj, wid, inputs, create_options c body, scope_of_body body)))))))))"

definition created_reply :: "ctx \<Rightarrow> run_row \<Rightarrow> reply" where
  "created_reply c r =
     (let prefix = (if cx_major c = 1 then ''/v1'' else []); wire = wireRunId (cx_major c) (run_id r); i = projectBoundId wire
      in replied 201 (JObj [(''runId'', JStr wire), (''status'', JStr ''pending''),
           (''eventsUrl'', JStr (cx_base c @ prefix @ ''/runs/'' @ i @ ''/events'')), (''statusUrl'', JStr (cx_base c @ prefix @ ''/runs/'' @ i))]))"

definition create_body :: "runs_env \<Rightarrow> ctx \<Rightarrow> string \<Rightarrow> world \<Rightarrow> answer" where
  "create_body env c txt w =
     (case create_request env c txt w of Inl we \<Rightarrow> (Inl we, w)
      | Inr (subj, wid, inputs, options, scope) \<Rightarrow>
          (case acceptRun (re_host env) subj wid (JObj inputs) options scope w of
             (Inl e, w1) \<Rightarrow> (Inl (WebError e []), w1)
           | (Inr r, w1) \<Rightarrow> (Inr (created_reply c r), scheduleRun (run_id r) w1)))"

text \<open>A keyed handler, begun and settled (\<open>router.ts\<close>); the armed hold of the seam only delays.\<close>

definition withIdempotency :: "runs_env \<Rightarrow> ctx \<Rightarrow> string \<Rightarrow> string \<Rightarrow> (world \<Rightarrow> answer) \<Rightarrow> world \<Rightarrow> answer" where
  "withIdempotency env c endpoint digestInput fn w =
     (case idem_begin (re_host env) (cx_subject c) (header_of c ''idempotency-key'') endpoint digestInput w of
        (Unkeyed, w1) \<Rightarrow> fn w1
      | (Refused we, w1) \<Rightarrow> (Inl we, w1)
      | (Replayed rp, w1) \<Rightarrow> (Inr rp, w1)
      | (Claimed call, w1) \<Rightarrow> (case fn w1 of (res, w2) \<Rightarrow> (res, idem_settle (re_cfg env) call res w2)))"

definition createRun :: "runs_env \<Rightarrow> ctx \<Rightarrow> string \<Rightarrow> world \<Rightarrow> answer" where
  "createRun env c txt w = withIdempotency env c ''createRun'' txt (create_body env c txt) w"

section \<open>The run list\<close>

definition RUN_LIST_MAX_PAGE :: nat where "RUN_LIST_MAX_PAGE = 100"

definition RUN_STATUSES :: "run_status list" where
  "RUN_STATUSES = [Pending, Running, Paused, WaitingApproval, WaitingInput, WaitingExternal, Completed, Failed, Cancelling, Cancelled]"

definition status_named :: "string \<Rightarrow> run_status option" where
  "status_named s = find (\<lambda>st. status_name st = s) RUN_STATUSES"

definition run_cursor_mac :: "runs_env \<Rightarrow> string \<Rightarrow> string" where
  "run_cursor_mac env payload = base64url (h_hmac (re_host env) (re_cursor_key env) payload)"

definition mintCursor :: "runs_env \<Rightarrow> run_row \<Rightarrow> string" where
  "mintCursor env r = (let payload = bar_separated [h_iso (re_host env) (r_created r), run_id r]
     in base64url (payload @ ''|'' @ run_cursor_mac env payload))"

text \<open>The creation time, as its ISO text, and the id. As in the webhook cursor, MACs are compared by \<open>timingSafeEqual\<close>.\<close>

definition readCursor :: "runs_env \<Rightarrow> string \<Rightarrow> exn + string \<times> string" where
  "readCursor env raw = (case split_on (CHR ''|'') (from_base64url raw) of
       [created, rid, given] \<Rightarrow>
         (let expect = run_cursor_mac env (bar_separated [created, rid]) in
          if utf16_length given \<noteq> length expect then Inl (cursor_refusal ''cursor is not one this host minted'')
          else if length given \<noteq> length expect then Inl (JsError ''Input buffers must have the same byte length'')
          else if given \<noteq> expect then Inl (cursor_refusal ''cursor is not one this host minted'')
          else Inr (created, rid))
     | _ \<Rightarrow> Inl (cursor_refusal ''cursor is not one this host minted''))"

text \<open>
  \<open>created_at < ?\<close> compares ISO texts, which order as the times they print; a text that prints no time
  cannot come out of a minted cursor.
\<close>

definition cursor_key :: "runs_env \<Rightarrow> string \<times> string \<Rightarrow> nat \<times> string" where
  "cursor_key env = (\<lambda>(created, rid). (case h_date (re_host env) created of Some t \<Rightarrow> t | None \<Rightarrow> 0, rid))"

definition run_page_limit :: "string option \<Rightarrow> exn + nat" where
  "run_page_limit raw = (case raw of None \<Rightarrow> Inr RUN_LIST_MAX_PAGE
     | Some s \<Rightarrow> if is_decimal s \<and> s \<noteq> ''0'' then Inr (min (decimal_value s) RUN_LIST_MAX_PAGE)
         else Inl (bad_request ''limit MUST be an integer >= 1'' (field_detail ''field'' ''limit'')))"

definition list_filters :: "(string \<times> string) list \<Rightarrow> exn + string option \<times> run_status option" where
  "list_filters q =
     (case map_of q ''workflowId'' of
        Some wid \<Rightarrow> if \<not> NODE_ID wid then Inl (bad_request ''workflowId does not match the workflowId grammar'' (field_detail ''field'' ''workflowId''))
          else (case map_of q ''status'' of None \<Rightarrow> Inr (Some wid, None)
            | Some x \<Rightarrow> (case status_named x of Some st \<Rightarrow> Inr (Some wid, Some st)
               | None \<Rightarrow> Inl (bad_request ''status is not a RunSnapshot status'' (field_detail ''field'' ''status''))))
      | None \<Rightarrow> (case map_of q ''status'' of None \<Rightarrow> Inr (None, None)
            | Some x \<Rightarrow> (case status_named x of Some st \<Rightarrow> Inr (None, Some st)
               | None \<Rightarrow> Inl (bad_request ''status is not a RunSnapshot status'' (field_detail ''field'' ''status'')))))"

definition run_page :: "runs_env \<Rightarrow> string \<Rightarrow> nat \<Rightarrow> string option \<Rightarrow> run_status option \<Rightarrow> 'a store_scheme \<Rightarrow> string option
    \<Rightarrow> exn + run_row list \<times> string option" where
  "run_page env ten limit wid st w cursorRaw =
     and_then (case cursorRaw of None \<Rightarrow> Inr None | Some raw \<Rightarrow> map_sum id Some (readCursor env raw)) (\<lambda>after.
       (let rows = listRuns ten (limit + 1) (map_option (cursor_key env) after) wid st w; page = take limit rows
        in Inr (page, if length rows > limit \<and> page \<noteq> [] then Some (mintCursor env (last page)) else None)))"

fun listed_runs :: "runs_env \<Rightarrow> run_row list \<Rightarrow> world \<Rightarrow> (exn + json list) \<times> world" where
  "listed_runs env [] w = (Inr [], w)"
| "listed_runs env (r # rs) w =
     (case applyPinDisposition (re_host env) r w of
        (Inl e, w1) \<Rightarrow> (Inl e, w1)
      | (Inr r1, w1) \<Rightarrow> (case snapshot (re_host env) r1 w1 of (snap, w2) \<Rightarrow>
          (case listed_runs env rs w2 of (Inl e, w3) \<Rightarrow> (Inl e, w3) | (Inr js, w3) \<Rightarrow> (Inr (snap # js), w3))))"

definition listRuns_handler :: "runs_env \<Rightarrow> ctx \<Rightarrow> world \<Rightarrow> answer" where
  "listRuns_handler env c w =
     (case and_then (run_page_limit (map_of (cx_query c) ''limit'')) (\<lambda>limit.
             and_then (list_filters (cx_query c)) (\<lambda>(wid, st).
               run_page env (caller_tenant env c) limit wid st w (map_of (cx_query c) ''cursor''))) of
        Inl e \<Rightarrow> (Inl (WebError e []), w)
      | Inr (page, next) \<Rightarrow>
          (case listed_runs env page w of
             (Inl e, w1) \<Rightarrow> (Inl (WebError e []), w1)
           | (Inr js, w1) \<Rightarrow> (Inr (replied 200 (jobj [(''runs'', Some (JArr js)), (''nextCursor'', map_option JStr next)])), w1)))"

section \<open>Reading one run\<close>

definition opaque_tag :: "string \<Rightarrow> string" where
  "opaque_tag t = (let s = js_trim t in if starts_with ''W/'' s then drop 2 s else s)"

definition ifNoneMatchMatches :: "string option \<Rightarrow> string \<Rightarrow> bool" where
  "ifNoneMatchMatches header etag \<longleftrightarrow> (case header of None \<Rightarrow> False
     | Some hd' \<Rightarrow> list_ex (\<lambda>t. js_trim t = ''*'' \<or> opaque_tag t = opaque_tag etag) (split_on (CHR '','') hd'))"

definition run_etag :: "run_row \<Rightarrow> 'a store_scheme \<Rightarrow> string" where
  "run_etag r w = [CHR 0x22] @ ''seq-'' @ int_string (lastSequence (run_id r) w) @ ''-'' @ status_name (r_status r) @ [CHR 0x22]"

definition getRun_handler :: "runs_env \<Rightarrow> ctx \<Rightarrow> string \<Rightarrow> world \<Rightarrow> answer" where
  "getRun_handler env c rid = on_run env c rid (\<lambda>r w.
     case snapshotForMajor env (cx_major c) r w of (snap, w1) \<Rightarrow>
       let body = put ''runId'' (JStr (wireRunId (cx_major c) (run_id r))) snap; etag = run_etag r w1; hs = [(''ETag'', etag)] in
       if ifNoneMatchMatches (header_of c ''if-none-match'') etag
       then (Inr \<lparr>rp_status = 304, rp_body = None, rp_raw = None, rp_type = None, rp_headers = hs\<rparr>, w1)
       else (Inr ((replied 200 body)\<lparr>rp_headers := hs\<rparr>), w1))"

definition poll_position :: "(string \<times> string) list \<Rightarrow> exn + int option" where
  "poll_position q =
     (case (case map_of q ''afterSequence'' of Some s \<Rightarrow> Some s | None \<Rightarrow> map_of q ''since'') of
        None \<Rightarrow> Inr None
      | Some raw \<Rightarrow> if raw \<noteq> [] \<and> list_all is_digit raw then Inr (Some (int (decimal_value raw)))
          else Inl (bad_request ''afterSequence MUST be an integer >= 0'' None))"

definition poll_timeout :: "(string \<times> string) list \<Rightarrow> exn + int" where
  "poll_timeout q = (case map_of q ''timeout'' of None \<Rightarrow> Inr 30
     | Some raw \<Rightarrow> (case js_Number (Some (JStr raw)) of
         Some n \<Rightarrow> if n < 1 \<or> n > 60 then Inl (bad_request ''timeout is 1..60 seconds'' None) else Inr n
       | None \<Rightarrow> Inl (bad_request ''timeout is 1..60 seconds'' None)))"

definition poll_reply :: "runs_env \<Rightarrow> nat \<Rightarrow> poll_body \<Rightarrow> exn + reply" where
  "poll_reply env major b =
     map_sum id (\<lambda>docs. replied 200 (JObj [(''runId'', JStr (wireRunId major (p_run b))), (''events'', JArr (map (doc_json (re_host env)) docs)),
         (''lastSequence'', JNum (p_last b)), (''status'', JStr (status_name (p_status b))), (''isTerminal'', JBool (p_terminal b))]))
       (map_result (\<lambda>d. docForMajor (h_art (re_host env)) d major) (p_events b))"

text \<open>
  The long poll: when nothing is there and the run is not terminal, the handler waits for the next
  append or its timeout and reads again; \<open>elsewhere\<close> is what the host did meanwhile.
\<close>

definition poll_handler :: "runs_env \<Rightarrow> ctx \<Rightarrow> string \<Rightarrow> (world \<Rightarrow> world) \<Rightarrow> world \<Rightarrow> answer" where
  "poll_handler env c rid elsewhere = on_run env c rid (\<lambda>r w.
     case and_then (poll_position (cx_query c)) (\<lambda>after. map_sum id (\<lambda>t. after) (poll_timeout (cx_query c))) of
       Inl e \<Rightarrow> (Inl (WebError e []), w)
     | Inr after \<Rightarrow>
        (case pollResponse (re_host env) r after w of
           (Inl e, w1) \<Rightarrow> (Inl (WebError e []), w1)
         | (Inr b, w1) \<Rightarrow>
            if p_events b = [] \<and> \<not> p_terminal b
            then (case pollResponse (re_host env) r after (elsewhere w1) of
                    (Inl e, w2) \<Rightarrow> (Inl (WebError e []), w2)
                  | (Inr b2, w2) \<Rightarrow> (thrown (poll_reply env (cx_major c) b2), w2))
            else (thrown (poll_reply env (cx_major c) b), w1)))"

definition stream_request :: "runs_env \<Rightarrow> ctx \<Rightarrow> exn + stream_opts" where
  "stream_request env c =
     and_then (parseStreamModes (map_of (cx_query c) ''streamMode'')) (\<lambda>modes.
     let last' = (case header_of c ''last-event-id'' of
            Some raw \<Rightarrow> if raw \<noteq> [] \<and> list_all is_digit raw then Some (int (decimal_value raw)) else None | None \<Rightarrow> None);
         buffer = (case map_of (cx_query c) ''bufferMs'' of None \<Rightarrow> Some 0 | Some raw \<Rightarrow> js_Number (Some (JStr raw)))
     in case buffer of
          Some n \<Rightarrow> if n < 0 \<or> n > 5000 then Inl (bad_request ''bufferMs is 0..5000'' None)
            else Inr \<lparr>so_modes = modes, so_last = last', so_buffer = nat n,
                   so_project = (\<lambda>d. docForMajor (h_art (re_host env)) d (cx_major c))\<rparr>
        | None \<Rightarrow> Inl (bad_request ''bufferMs is 0..5000'' None))"

definition stream_handler :: "runs_env \<Rightarrow> ctx \<Rightarrow> string \<Rightarrow> world \<Rightarrow> (exn + exn option \<times> sse) \<times> world" where
  "stream_handler env c rid w =
     (case loadRun env c rid w of (Inl e, w1) \<Rightarrow> (Inl e, w1)
      | (Inr r, w1) \<Rightarrow>
         (case stream_request env c of Inl e \<Rightarrow> (Inl e, w1)
          | Inr sopt \<Rightarrow>
             (case snapshotForMajor env (cx_major c) (case getRun (run_id r) w1 of Some q \<Rightarrow> q | None \<Rightarrow> r) w1 of (snap, w2) \<Rightarrow>
                streamRun (re_host env) r sopt snap w2)))"

section \<open>Cancel, pause, resume\<close>

definition reason_of :: "(string \<times> json) list \<Rightarrow> string option" where
  "reason_of body = str_of (map_of body ''reason'')"

definition cancel_reply :: "ctx \<Rightarrow> run_row \<Rightarrow> (exn + run_status) \<times> world \<Rightarrow> answer" where
  "cancel_reply c r x = (thrown (map_sum id (\<lambda>st. replied 200 (JObj [(''runId'', JStr (wireRunId (cx_major c) (run_id r))),
     (''status'', JStr (status_name st))])) (fst x)), snd x)"

definition cancel_handler :: "runs_env \<Rightarrow> ctx \<Rightarrow> string \<Rightarrow> (string \<times> json) list \<Rightarrow> world \<Rightarrow> answer" where
  "cancel_handler env c rid body = on_run env c rid (\<lambda>r.
     withIdempotency env c ''cancelRun'' (json_stringify (JObj body)) (\<lambda>w.
       cancel_reply c r (requestCancel (re_host env) r (reason_of body) w)))"

definition cancelled_result :: "runs_env \<Rightarrow> ctx \<Rightarrow> string option \<Rightarrow> json \<Rightarrow> world \<Rightarrow> json \<times> world" where
  "cancelled_result env c reason i w =
     (let rid = js_string i;
          failed = (\<lambda>e. JObj [(''runId'', JStr rid), (''ok'', JBool False),
            (''error'', case e of HostError code m ds \<Rightarrow> error_body e
               | _ \<Rightarrow> JObj [(''error'', JStr ''run_forbidden''), (''message'', JStr (exn_message e))])])
      in case loadRun env c rid w of
           (Inl e, w1) \<Rightarrow> (failed e, w1)
         | (Inr r, w1) \<Rightarrow> (case requestCancel (re_host env) r reason w1 of
             (Inl e, w2) \<Rightarrow> (failed e, w2)
           | (Inr st, w2) \<Rightarrow> (JObj [(''runId'', JStr rid), (''ok'', JBool True), (''status'', JStr (status_name st))], w2)))"

fun cancelled_results :: "runs_env \<Rightarrow> ctx \<Rightarrow> string option \<Rightarrow> json list \<Rightarrow> world \<Rightarrow> json list \<times> world" where
  "cancelled_results env c reason [] w = ([], w)"
| "cancelled_results env c reason (i # is) w =
     (case cancelled_result env c reason i w of (j, w1) \<Rightarrow>
        case cancelled_results env c reason is w1 of (js, w2) \<Rightarrow> (j # js, w2))"

definition bulkCancel :: "runs_env \<Rightarrow> ctx \<Rightarrow> (string \<times> json) list \<Rightarrow> world \<Rightarrow> answer" where
  "bulkCancel env c body w =
     (case map_of body ''runIds'' of
        Some (JArr ids) \<Rightarrow>
          if ids = [] then (Inl (WebError (bad_request ''runIds[1..100] is REQUIRED'' None) []), w)
          else if length ids > 100 then (Inl (WebError (bad_request ''at most 100 runIds per request'' (Some (JObj [(''maxRunIds'', JNum 100)]))) []), w)
          else (case cancelled_results env c (reason_of body) ids w of (js, w1) \<Rightarrow> (Inr (replied 200 (JObj [(''results'', JArr js)])), w1))
      | _ \<Rightarrow> (Inl (WebError (bad_request ''runIds[1..100] is REQUIRED'' None) []), w))"

definition status_detail :: "string \<Rightarrow> json option" where
  "status_detail s = field_detail ''runStatus'' s"

definition pause_refusal :: "(string \<times> json) list \<Rightarrow> run_row \<Rightarrow> exn + string" where
  "pause_refusal body r =
     (let drain = (case map_of body ''drainPolicy'' of None \<Rightarrow> ''drain-current-node'' | Some v \<Rightarrow> js_string v); st = status_name (r_status r) in
      and_then (case find (\<lambda>kv. fst kv \<notin> {''reason'', ''drainPolicy''}) body of
          Some kv \<Rightarrow> Inl (bad_request (''unknown key '' @ fst kv) None) | None \<Rightarrow> Inr ()) (\<lambda>u.
      and_then (first_refusal [
        (drain \<noteq> ''immediate'' \<and> drain \<noteq> ''drain-current-node'', bad_request ''drainPolicy is immediate | drain-current-node'' None),
        (terminal_status (r_status r), HostError ''run_terminal'' (''a '' @ st @ '' run cannot be paused'') (status_detail st)),
        (r_status r = Paused \<or> r_pause r, HostError ''run_state_conflict'' ''the run is already paused'' (status_detail ''paused'')),
        (waiting_status (r_status r) \<or> r_status r = Cancelling,
           HostError ''run_state_conflict'' (''a run in status '' @ st @ '' cannot be paused'') (status_detail st))]) (\<lambda>u. Inr drain)))"

definition pause_handler :: "runs_env \<Rightarrow> ctx \<Rightarrow> string \<Rightarrow> (string \<times> json) list \<Rightarrow> world \<Rightarrow> answer" where
  "pause_handler env c rid body = on_run env c rid (\<lambda>r w.
     case pause_refusal body r of Inl e \<Rightarrow> (Inl (WebError e []), w)
     | Inr drain \<Rightarrow> (case requestPause (re_host env) r (reason_of body) drain w of
         (Inl e, w1) \<Rightarrow> (Inl (WebError e []), w1)
       | (Inr at, w1) \<Rightarrow> (Inr (replied 202 (jobj [(''runId'', Some (JStr (wireRunId (cx_major c) (run_id r)))), (''status'', Some (JStr ''paused'')),
            (''pausedAt'', map_option (\<lambda>t. JStr (h_iso (re_host env) t)) at)])), w1)))"

definition resume_handler :: "runs_env \<Rightarrow> ctx \<Rightarrow> string \<Rightarrow> (string \<times> json) list \<Rightarrow> world \<Rightarrow> answer" where
  "resume_handler env c rid body = on_run env c rid (\<lambda>r w.
     let st = status_name (r_status r) in
     if terminal_status (r_status r) then (Inl (web_err ''run_terminal'' (''a '' @ st @ '' run cannot be resumed'') (status_detail st)), w)
     else if r_status r \<noteq> Paused then (Inl (web_err ''run_state_conflict'' ''the run is not paused'' (status_detail st)), w)
     else (case requestResume (re_host env) r (reason_of body) w of
         (Inl e, w1) \<Rightarrow> (Inl (WebError e []), w1)
       | (Inr at, w1) \<Rightarrow> (Inr (replied 202 (JObj [(''runId'', JStr (run_id r)), (''status'', JStr ''running''),
            (''resumedAt'', JStr (h_iso (re_host env) at))])), w1)))"

section \<open>Fork and ancestry\<close>

definition fork_handler :: "runs_env \<Rightarrow> ctx \<Rightarrow> string \<Rightarrow> string \<Rightarrow> world \<Rightarrow> answer" where
  "fork_handler env c rid txt = on_run env c rid (\<lambda>r.
     withIdempotency env c ''forkRun'' (run_id r @ ''|'' @ txt) (\<lambda>w.
       case parseJsonBody txt of Inl e \<Rightarrow> (Inl (WebError e []), w)
       | Inr body \<Rightarrow> (case forkRun (re_host env) r body w of
           (Inl e, w1) \<Rightarrow> (Inl (WebError e []), w1)
         | (Inr f, w1) \<Rightarrow>
             (let wire = wireRunId (cx_major c) (fr_run f); prefix = (if cx_major c = 1 then ''/v1'' else [])
              in (Inr (replied 201 (JObj [(''runId'', JStr wire), (''sourceRunId'', JStr (fr_source f)), (''fromSeq'', JNum (fr_from f)),
                   (''mode'', JStr (fr_mode f)), (''status'', JStr (status_name (fr_status f))),
                   (''eventsUrl'', JStr (cx_base c @ prefix @ ''/runs/'' @ projectBoundId wire @ ''/events''))])), w1)))))"

definition HOST_ID :: string where "HOST_ID = ''openwop.dev/examples/hosts/v2-reference''"

definition ancestry_handler :: "runs_env \<Rightarrow> ctx \<Rightarrow> string \<Rightarrow> world \<Rightarrow> answer" where
  "ancestry_handler env c rid = on_run env c rid (\<lambda>r w.
     (Inr (replied 200 (JObj [(''runId'', JStr (run_id r)), (''hostId'', JStr HOST_ID), (''parent'', JNull)])), w))"

section \<open>Annotations\<close>

text \<open>
  \<open>\b(sk-[A-Za-z0-9]{8,}|hk_[A-Za-z0-9_]{8,}|ow2k_[A-Za-z0-9_-]{8,})\b\<close>: at a boundary before it, the longest
  match of the first alternative that ends at a boundary.
\<close>

definition boundary :: "char option \<Rightarrow> char option \<Rightarrow> bool" where
  "boundary a b \<longleftrightarrow> (case a of None \<Rightarrow> False | Some x \<Rightarrow> name_char x) \<noteq> (case b of None \<Rightarrow> False | Some x \<Rightarrow> name_char x)"

definition char_at :: "string \<Rightarrow> nat \<Rightarrow> char option" where
  "char_at s n = (if n < length s then Some (s ! n) else None)"

definition secret_length :: "string \<Rightarrow> (char \<Rightarrow> bool) \<Rightarrow> string \<Rightarrow> nat option" where
  "secret_length p ok s = (if \<not> starts_with p s then None else
     let run = length (takeWhile ok (drop (length p) s)) in
     find (\<lambda>n. boundary (char_at s (n - 1)) (char_at s n)) (rev (map (\<lambda>k. length p + k) [8..<run + 1])))"

definition secret_at :: "string \<Rightarrow> nat option" where
  "secret_at s = (let alnum = (\<lambda>c. name_char c \<and> c \<noteq> CHR ''_'') in
     case secret_length ''sk-'' alnum s of Some n \<Rightarrow> Some n
     | None \<Rightarrow> (case secret_length ''hk_'' name_char s of Some n \<Rightarrow> Some n
       | None \<Rightarrow> secret_length ''ow2k_'' (\<lambda>c. name_char c \<or> c = CHR ''-'') s))"

fun scrub_from :: "nat \<Rightarrow> char option \<Rightarrow> string \<Rightarrow> string" where
  "scrub_from n before [] = []"
| "scrub_from 0 before (c # cs) = c # cs"
| "scrub_from (Suc n) before (c # cs) =
     (case (if boundary before (Some c) then secret_at (c # cs) else None) of
        Some k \<Rightarrow> ''[redacted]'' @ scrub_from n (char_at (c # cs) (k - 1)) (drop k (c # cs))
      | None \<Rightarrow> c # scrub_from n (Some c) cs)"

definition scrub :: "string \<Rightarrow> string" where
  "scrub s = scrub_from (length s) None s"

record annotation_row =
  an_id :: string
  an_run :: string
  an_json :: json
  an_created :: nat

definition insertAnnotation :: "annotation_row \<Rightarrow> annotation_row list \<Rightarrow> annotation_row list" where
  "insertAnnotation row rows = rows @ [row]"

definition annotationsForRun :: "string \<Rightarrow> annotation_row list \<Rightarrow> annotation_row list" where
  "annotationsForRun rid rows = sort_key an_created (filter (\<lambda>a. an_run a = rid) rows)"

definition signal_refusal :: "json option \<Rightarrow> exn + unit" where
  "signal_refusal signal =
     (let kind = jget signal ''kind''; rating = jget signal ''rating'' in first_refusal [
        (\<not> is_object signal, bad_request ''signal is REQUIRED'' None),
        (js_String kind \<notin> {''rating'', ''correction'', ''label'', ''flag''}, bad_request ''signal.kind is rating | correction | label | flag'' None),
        (kind = Some (JStr ''rating'') \<and> \<not> (case rating of Some (JNum n) \<Rightarrow> 1 \<le> n \<and> n \<le> 5 | _ \<Rightarrow> False), bad_request ''rating 1..5 is required'' None),
        (kind = Some (JStr ''label'') \<and> \<not> is_str (jget signal ''label''), bad_request ''label is required'' None),
        (kind = Some (JStr ''correction'') \<and> \<not> is_str (jget signal ''correction''), bad_request ''correction is required'' None)])"

definition annotation_target :: "run_row \<Rightarrow> json option \<Rightarrow> exn + json" where
  "annotation_target r t =
     (if \<not> is_object t then Inr (JObj [(''runId'', JStr (run_id r))])
      else if jget t ''runId'' \<noteq> None then Inl (bad_request ''target.runId comes from the path'' None)
      else if is_str (jget t ''nodeId'') \<and> \<not> NODE_ID (text_of (jget t ''nodeId'')) then Inl (bad_request ''target.nodeId grammar'' None)
      else Inr (jobj [(''runId'', Some (JStr (run_id r))), (''eventId'', only_if (is_str (jget t ''eventId'')) (jget t ''eventId'')),
             (''nodeId'', only_if (is_str (jget t ''nodeId'')) (jget t ''nodeId''))]))"

definition scrubbed_signal :: "json option \<Rightarrow> json" where
  "scrubbed_signal signal = (case jget signal ''correction'' of
       Some (JStr x) \<Rightarrow> put ''correction'' (JStr (scrub x)) (or_null signal) | _ \<Rightarrow> or_null signal)"

definition scrubbed_note :: "json option \<Rightarrow> json option" where
  "scrubbed_note note = (case note of Some (JStr x) \<Rightarrow> Some (JStr (scrub x)) | _ \<Rightarrow> None)"

definition actor_json :: "ctx \<Rightarrow> json" where
  "actor_json c = JObj [(''principalRef'', JStr (case cx_subject c of Some s \<Rightarrow> Identity.principalRef s | None \<Rightarrow> ''anonymous''))]"

definition unknown_annotation_key :: "(string \<times> json) list \<Rightarrow> exn + unit" where
  "unknown_annotation_key body = (case find (\<lambda>kv. fst kv \<notin> {''target'', ''signal'', ''note''}) body of
       Some kv \<Rightarrow> Inl (bad_request (''unknown key '' @ fst kv) None) | None \<Rightarrow> Inr ())"

text \<open>\<open>rand\<close>: the six random characters of the id.\<close>

definition new_annotation :: "runs_env \<Rightarrow> ctx \<Rightarrow> string \<Rightarrow> nat \<Rightarrow> run_row \<Rightarrow> (string \<times> json) list \<Rightarrow> exn + annotation_row" where
  "new_annotation env c rand now r body =
     and_then (unknown_annotation_key body) (\<lambda>u.
     and_then (signal_refusal (map_of body ''signal'')) (\<lambda>u.
     and_then (annotation_target r (map_of body ''target'')) (\<lambda>target.
       let stamp = h_iso (re_host env) now; i = ''ann-'' @ filter is_digit stamp @ ''-'' @ rand
       in Inr \<lparr>an_id = i, an_run = run_id r,
            an_json = jobj [(''annotationId'', Some (JStr i)), (''target'', Some target), (''signal'', Some (scrubbed_signal (map_of body ''signal''))),
              (''actor'', Some (actor_json c)), (''createdAt'', Some (JStr stamp)), (''note'', scrubbed_note (map_of body ''note''))],
            an_created = now\<rparr>)))"

definition createAnnotation :: "runs_env \<Rightarrow> ctx \<Rightarrow> string \<Rightarrow> string \<Rightarrow> (string \<times> json) list \<Rightarrow> annotation_row list \<Rightarrow> world
    \<Rightarrow> answer \<times> annotation_row list" where
  "createAnnotation env c rand rid body rows w =
     (case loadRun env c rid w of (Inl e, w1) \<Rightarrow> ((Inl (WebError e []), w1), rows)
      | (Inr r, w1) \<Rightarrow>
         (case new_annotation env c rand (w_clock w1) r body of
            Inl e \<Rightarrow> ((Inl (WebError e []), w1), rows)
          | Inr a \<Rightarrow> ((Inr (replied 201 (an_json a)), w1), insertAnnotation a rows)))"

definition listAnnotations :: "runs_env \<Rightarrow> ctx \<Rightarrow> string \<Rightarrow> annotation_row list \<Rightarrow> world \<Rightarrow> answer" where
  "listAnnotations env c rid rows = on_run env c rid (\<lambda>r w.
     (Inr (replied 200 (JObj [(''annotations'', JArr (map an_json (annotationsForRun (run_id r) rows)))])), w))"

section \<open>Projections\<close>

definition compensationProjection :: "host \<Rightarrow> run_row \<Rightarrow> json" where
  "compensationProjection h r = (let s = compensationState r in
     JObj [(''runId'', JStr (run_id r)), (''status'', JStr (cm_status s)),
       (''plan'', JArr (map (\<lambda>p. jobj [(''nodeId'', Some (JStr (cs_node p))), (''order'', Some (JNum (int (cs_order p)))),
           (''irreversibleEffect'', if cs_irreversible p then Some (JBool True) else None)]) (cm_plan s))),
       (''attempts'', JArr (map (\<lambda>a. jobj [(''nodeId'', Some (JStr (ca_node a))), (''attempt'', Some (JNum (int (ca_attempt a)))),
           (''outcome'', Some (JStr (ca_outcome a))), (''at'', Some (JStr (h_iso h (ca_at a)))), (''reason'', map_option JStr (ca_reason a))]) (cm_attempts s)))])"

definition effectsProjection :: "host \<Rightarrow> run_row \<Rightarrow> 'a store_scheme \<Rightarrow> json" where
  "effectsProjection h r w = JObj [(''runId'', JStr (run_id r)),
     (''effects'', JArr (map (\<lambda>e. jobj [(''effectId'', Some (JStr (f_id e))), (''nodeId'', Some (JStr (f_node e))), (''attempt'', Some (JNum (int (f_attempt e)))),
        (''keying'', Some (JStr (f_keying e))), (''state'', Some (JStr (f_state e))), (''at'', Some (JStr (h_iso h (f_at e)))),
        (''invocationId'', map_option JStr (f_invocation e)), (''providerKey'', map_option JStr (f_provider e))]) (effectsForRun (run_id r) w)))]"

definition compensation_handler :: "runs_env \<Rightarrow> ctx \<Rightarrow> string \<Rightarrow> world \<Rightarrow> answer" where
  "compensation_handler env c rid = on_run env c rid (\<lambda>r w. (Inr (replied 200 (compensationProjection (re_host env) r)), w))"

definition effects_handler :: "runs_env \<Rightarrow> ctx \<Rightarrow> string \<Rightarrow> world \<Rightarrow> answer" where
  "effects_handler env c rid = on_run env c rid (\<lambda>r w. (Inr (replied 200 (effectsProjection (re_host env) r w)), w))"

section \<open>Interrupts by run and by token\<close>

definition resolve_body :: "(string \<times> json) list \<Rightarrow> exn + json" where
  "resolve_body body =
     (if list_ex (\<lambda>kv. fst kv \<noteq> ''resumeValue'') body then Inl (bad_request ''the resolve body is { resumeValue } (closed)'' None)
      else case map_of body ''resumeValue'' of None \<Rightarrow> Inl (bad_request ''resumeValue is REQUIRED'' None) | Some v \<Rightarrow> Inr v)"

definition resolved_reply :: "run_row \<Rightarrow> interrupt_row \<Rightarrow> (exn + run_status) \<times> world \<Rightarrow> answer" where
  "resolved_reply r i x = (thrown (map_sum id (\<lambda>st. replied 200 (JObj [(''runId'', JStr (run_id r)), (''nodeId'', JStr (i_node i)),
     (''status'', JStr (status_name st))])) (fst x)), snd x)"

definition resolveByRun :: "runs_env \<Rightarrow> ctx \<Rightarrow> string \<Rightarrow> string \<Rightarrow> string \<Rightarrow> world \<Rightarrow> answer" where
  "resolveByRun env c rid nid txt = on_run env c rid (\<lambda>r.
     withIdempotency env c ''resolveInterruptByRun'' (run_id r @ ''|'' @ nid @ ''|'' @ txt) (\<lambda>w.
       case and_then (parseJsonBody txt) resolve_body of Inl e \<Rightarrow> (Inl (WebError e []), w)
       | Inr v \<Rightarrow>
          (case pendingInterruptForNode (run_id r) nid w of
             None \<Rightarrow>
               if list_ex (\<lambda>e. e_node e = Some nid \<and> e_type e = ''interrupt.requested'') (listEventRows (run_id r) (-1) w) \<or> terminal_status (r_status r)
               then (Inl (web_err ''interrupt_already_resolved'' ''the interrupt was already resolved, or its run is terminal'' None), w)
               else (Inl (web_err ''not_found'' ''no pending interrupt on that node'' None), w)
           | Some i \<Rightarrow> resolved_reply r i (resolveAndResume (re_host env) r i (Some v) (cx_subject c) w))))"

definition tokenRow :: "runs_env \<Rightarrow> string \<Rightarrow> world \<Rightarrow> exn + run_row \<times> interrupt_row" where
  "tokenRow env tok w =
     and_then (verifyToken (re_host env) (w_clock w) tok) (\<lambda>claims.
       (case getInterrupt (text_of (jfield claims ''i'')) w of
          None \<Rightarrow> Inl (HostError ''not_found'' ''the token names no interrupt on this host'' None)
        | Some i \<Rightarrow> (case getRun (i_run i) w of
            None \<Rightarrow> Inl (HostError ''not_found'' ''the token names no run on this host'' None)
          | Some r \<Rightarrow> Inr (r, i))))"

definition inspectByToken :: "runs_env \<Rightarrow> string \<Rightarrow> world \<Rightarrow> answer" where
  "inspectByToken env tok w =
     (case tokenRow env tok w of Inl e \<Rightarrow> (Inl (WebError e []), w)
      | Inr (r, i) \<Rightarrow> if i_resolved i \<noteq> None \<or> terminal_status (r_status r)
          then (Inl (web_err ''interrupt_already_resolved'' ''the token was invalidated by resolution, cancellation or completion'' None), w)
          else (Inr (replied 200 (payload_json (payloadOf i))), w))"

definition resolveByToken :: "runs_env \<Rightarrow> string \<Rightarrow> string \<Rightarrow> world \<Rightarrow> answer" where
  "resolveByToken env tok txt w =
     (case and_then (tokenRow env tok w) (\<lambda>(r, i). map_sum id (\<lambda>v. (r, i, v)) (and_then (parseJsonBody txt) resolve_body)) of
        Inl e \<Rightarrow> (Inl (WebError e []), w)
      | Inr (r, i, v) \<Rightarrow> resolved_reply r i (resolveAndResume (re_host env) r i (Some v) None w))"

definition interruptToken :: "runs_env \<Rightarrow> ctx \<Rightarrow> string \<Rightarrow> string \<Rightarrow> world \<Rightarrow> answer" where
  "interruptToken env c rid nid = on_run env c rid (\<lambda>r w.
     case pendingInterruptForNode (run_id r) nid w of
       None \<Rightarrow> (Inl (web_err ''not_found'' ''no pending interrupt on that node'' None), w)
     | Some i \<Rightarrow> (Inr (replied 200 (JObj [(''interruptId'', JStr (i_id i)), (''token'', JStr (mintToken (re_host env) (mint_claims (re_host env) r (i_node i) i))),
          (''expiresAt'', JStr (h_iso (re_host env) (i_expires i))), (''payload'', payload_json (payloadOf i))])), w))"

definition debugEvents :: "runs_env \<Rightarrow> ctx \<Rightarrow> string \<Rightarrow> world \<Rightarrow> answer" where
  "debugEvents env c rid = on_run env c rid (\<lambda>r w.
     case readEvents (re_host env) r (-1) w of (Inl e, w1) \<Rightarrow> (Inl (WebError e []), w1)
     | (Inr docs, w1) \<Rightarrow> (Inr (replied 200 (JObj [(''runId'', JStr (run_id r)), (''events'', JArr (map (doc_json (re_host env)) docs))])), w1))"

section \<open>The seam manifest and the routes\<close>

definition effectSeamManifest :: "runs_env \<Rightarrow> json" where
  "effectSeamManifest env = JObj [(''manifestVersion'', JStr ''1''),
     (''host'', JObj [(''name'', JStr HOST_NAME), (''build'', JStr (re_build env))]),
     (''seams'', JArr ([
        JObj [(''seam'', JStr ''http.fetch''), (''kind'', JStr ''http''), (''guarded'', JBool True),
          (''guardedBy'', JStr ''effects-ledger:recorded-outcome (effects.ts performHttpFetch)''), (''branchReFires'', JBool False),
          (''note'', JStr (''the core.httpFetch node. A replay fork resolves the source run's recorded outcome keyed (sourceRunId, nodeId, attempt). A BRANCH does not re-fire it either: the Layer-2 key is the business identity and carries no runId, so a branch reaching the same operation resolves to the recorded outcome (idempotency.md ''
             @ SECTION_SIGN @ ''Layer 2 Keying) rather than calling out.''))],
        JObj [(''seam'', JStr ''webhook.fanout''), (''kind'', JStr ''webhook-fanout''), (''guarded'', JBool True),
          (''guardedBy'', JStr ''fanout-guard:replay-ness-of-the-run (webhooks.ts subscribeFanout)''), (''branchReFires'', JBool True),
          (''note'', JStr ''a replay fork's events are never delivered; a branch delivers only events >= fromSeq'')]]
      @ (if re_a2a_push env then [
        JObj [(''seam'', JStr ''a2a.push''), (''kind'', JStr ''webhook-fanout''), (''guarded'', JBool True),
          (''guardedBy'', JStr ''push-guard:replay-ness-of-the-run + configs keyed on their own task (a2a-push.ts subscribePush)''), (''branchReFires'', JBool False),
          (''note'', JStr ''RFC 0214: a replay fork's events are never pushed, and no fork (replay or branch) inherits a source task's push configs, so a fork never pushes'')]]
        else [])))]"

definition manifest_handler :: "runs_env \<Rightarrow> ctx \<Rightarrow> world \<Rightarrow> answer" where
  "manifest_handler env c w = (Inr (replied 200 (effectSeamManifest env)), w)"

text \<open>\<open>None\<close> marks a route whose scope the table lacks: the host would not boot.\<close>

definition runRoutes :: "route option list" where
  "runRoutes = [
     route ''GET'' ''/workflows/{workflowId}'' True None,
     route ''POST'' ''/runs'' True None,
     route ''GET'' ''/runs'' True (Some (Contract 2)),
     route ''POST'' ''/runs:bulk-cancel'' True None,
     route ''GET'' ''/runs/{runId}'' True None,
     route ''GET'' ''/runs/{runId}/events'' True None,
     route ''GET'' ''/runs/{runId}/events/poll'' True None,
     route ''GET'' ''/runs/{runId}/events/debug'' True None,
     route ''POST'' ''/runs/{runId}/cancel'' True None,
     route ''POST'' ''/runs/{runId}:pause'' True None,
     route ''POST'' ''/runs/{runId}:resume'' True None,
     route ''POST'' ''/runs/{runId}:fork'' True None,
     route ''GET'' ''/runs/{runId}/ancestry'' True None,
     route ''POST'' ''/runs/{runId}/annotations'' True None,
     route ''GET'' ''/runs/{runId}/annotations'' True None,
     route ''GET'' ''/runs/{runId}/compensation'' True None,
     route ''GET'' ''/runs/{runId}/effects'' True None,
     route ''POST'' ''/runs/{runId}/interrupts/{nodeId}'' True None,
     route ''GET'' ''/runs/{runId}/interrupts/{nodeId}'' True None,
     route ''GET'' ''/interrupts/{token}'' False None,
     route ''POST'' ''/interrupts/{token}'' False None,
     route ''GET'' ''/host/effect-seams'' True None,
     route ''POST'' ''/v1/runs'' True (Some (Contract 1)),
     route ''GET'' ''/v1/runs/{runId}'' True (Some (Contract 1)),
     route ''GET'' ''/v1/runs/{runId}/events'' True (Some (Contract 1)),
     route ''GET'' ''/v1/runs/{runId}/events/poll'' True (Some (Contract 1)),
     route ''POST'' ''/v1/runs/{runId}/cancel'' True (Some (Contract 1))]"

lemma run_routes_boot: "None \<notin> set runRoutes"
  by code_simp

end
