(* ===== verification/Run_Surface.thy ===== *)
theory Run_Surface
  imports Runs Idempotency Deliveries
begin

text \<open>
  What the run surface guarantees: a run is seen only under its own tenant, a keyed create makes one
  run and answers it again, the pages of the run list are exact, and a run changes state only from
  the states that allow it.
\<close>

section \<open>The run a caller may see\<close>

lemma applyPin_same:
  "fst (applyPinDisposition h r w) = Inr r1 \<Longrightarrow> run_id r1 = run_id r \<and> r_tenant r1 = r_tenant r"
  by (auto simp: applyPinDisposition_def catching_def setStatus_def stamped_def Let_def split_beta split: if_splits option.splits)

lemma applyPin_era3: "eraOf r \<ge> 3 \<Longrightarrow> applyPinDisposition h r w = (Inr r, w)"
  by (simp add: applyPinDisposition_def)

definition bound_id :: "runs_env \<Rightarrow> ctx \<Rightarrow> string \<Rightarrow> string" where
  "bound_id env c rid = (if CHR ''/'' \<in> set rid then rid else caller_tenant env c @ ''/'' @ rid)"

lemma loadRun_Inr:
  assumes "fst (loadRun env c rid w) = Inr r"
  shows "\<exists>q x. getRun (bound_id env c rid) w = Some q \<and> run_id r = run_id q \<and> r_tenant r = r_tenant q \<and> r_tenant q = caller_tenant env c
    \<and> checkTenantBound (bound_id env c rid) (caller_tenant env c) ''runId'' = Inr x"
proof -
  obtain x where x: "checkTenantBound (bound_id env c rid) (caller_tenant env c) ''runId'' = Inr x"
    using assms by (auto simp: loadRun_def Let_def bound_id_def split: if_splits sum.splits)
  obtain q where q: "getRun (bound_id env c rid) w = Some q" "r_tenant q = caller_tenant env c"
      "fst (applyPinDisposition (re_host env) q w) = Inr r"
    using assms by (auto simp: loadRun_def Let_def bound_id_def split: if_splits sum.splits option.splits)
  from applyPin_same [OF q(3)] q x show ?thesis by auto
qed

text \<open>
  C18: A run is seen only by its tenant: what a handler loads under an id is the stored run of that id, and
  that run is of the caller's tenant; an id whose tenant segment is another tenant's is refused before the
  store is read, with the same answer whether the run exists or not.
\<close>

theorem runs_stay_in_tenant:
  "(fst (loadRun env c rid w) = Inr r \<longrightarrow> r_tenant r = caller_tenant env c \<and> (\<exists>q. getRun (run_id r) w = Some q \<and> r_tenant q = caller_tenant env c))
   \<and> (bound_id env c rid = other @ ''/'' @ x \<and> CHR ''/'' \<notin> set other \<and> other \<noteq> caller_tenant env c \<longrightarrow>
       (\<exists>e. \<forall>v. loadRun env c rid v = (Inl e, v)))"
proof (intro conjI impI)
  assume "fst (loadRun env c rid w) = Inr r"
  from loadRun_Inr [OF this] show "r_tenant r = caller_tenant env c" by auto
next
  assume "fst (loadRun env c rid w) = Inr r"
  from loadRun_Inr [OF this] obtain q where "getRun (bound_id env c rid) w = Some q" "run_id r = run_id q" "r_tenant q = caller_tenant env c"
    by auto
  moreover from this(1) have "run_id q = bound_id env c rid" by (rule getRun_id)
  ultimately show "\<exists>q. getRun (run_id r) w = Some q \<and> r_tenant q = caller_tenant env c" by auto
next
  assume o: "bound_id env c rid = other @ ''/'' @ x \<and> CHR ''/'' \<notin> set other \<and> other \<noteq> caller_tenant env c"
  then have "takeWhile (\<lambda>a. a \<noteq> CHR ''/'') (bound_id env c rid) = other" by (simp add: takeWhile_append)
  with o have "\<exists>e. checkTenantBound (bound_id env c rid) (caller_tenant env c) ''runId'' = Inl e"
    by (simp add: checkTenantBound_def Let_def)
  then obtain e where e: "checkTenantBound (bound_id env c rid) (caller_tenant env c) ''runId'' = Inl e" by blast
  show "\<exists>e. \<forall>v. loadRun env c rid v = (Inl e, v)"
  proof (cases "rc_v1_retired (re_cfg env) \<and> CHR ''/'' \<notin> set rid")
    case True
    then show ?thesis by (intro exI [of _ "bare_id_refusal rid"]) (simp add: loadRun_def Let_def)
  next
    case False
    with e have "loadRun env c rid v = (Inl e, v)" for v by (auto simp: loadRun_def Let_def bound_id_def)
    then show ?thesis by blast
  qed
qed

section \<open>Creating a run\<close>

lemma schedule_keeps:
  "t_runs (scheduleRun rid w) = t_runs w" "t_events (scheduleRun rid w) = t_events w" "t_idem (scheduleRun rid w) = t_idem w"
  by (simp_all add: scheduleRun_def guarded_def)

text \<open>A refused create changes no run, no log and no cached answer; an accepted one adds one pending run.\<close>

definition new_run_of :: "ctx \<Rightarrow> runs_env \<Rightarrow> world \<Rightarrow> reply \<Rightarrow> world \<Rightarrow> bool" where
  "new_run_of c env w rp w' \<longleftrightarrow> (\<exists>subj r. cx_subject c = Some subj \<and> t_runs w' = t_runs w @ [r] \<and> run_id r \<notin> run_id ` set (t_runs w)
     \<and> r_tenant r = sub_tenant subj \<and> r_status r = Pending \<and> eraOf r = 3 \<and> workflow_of (re_host env) (r_workflow r) \<noteq> None
     \<and> rp_status rp = 201 \<and> rp_raw rp = None
     \<and> (\<exists>body. rp_body rp = Some body \<and> jfield body ''runId'' = Some (JStr (wireRunId (cx_major c) (run_id r)))))"

lemma and_then_Inr_iff: "and_then x f = Inr y \<longleftrightarrow> (\<exists>a. x = Inr a \<and> f a = Inr y)"
  by (cases x) simp_all

lemma thrown_Inr: "thrown x = Inr y \<longleftrightarrow> x = Inr y"
  by (cases x) (simp_all add: thrown_def)

lemma create_request_Inr:
  assumes "create_request env c txt w = Inr (subj, wid, inputs, options, scope)"
  shows "cx_subject c = Some subj \<and> workflow_of (re_host env) wid \<noteq> None"
proof -
  from assms obtain body where b: "cx_subject c = Some subj"
    "\<exists>d. workflow_for (re_host env) (cx_major c) wid = Inr d"
    by (auto simp: create_request_def and_then_Inr_iff thrown_Inr Let_def split: option.splits)
  then show ?thesis by (auto simp: workflow_for_def split: option.splits)
qed

lemma create_body_effect:
  assumes "create_body env c txt w = (res, w')"
  shows "t_events w' = t_events w \<and> t_idem w' = t_idem w
    \<and> (case res of Inl we \<Rightarrow> t_runs w' = t_runs w | Inr rp \<Rightarrow> new_run_of c env w rp w')"
proof (cases "create_request env c txt w")
  case (Inl we)
  with assms show ?thesis by (auto simp: create_body_def)
next
  case (Inr q)
  obtain subj wid inputs options scope where q: "q = (subj, wid, inputs, options, scope)" by (cases q)
  let ?row = "accepted_row (re_host env) subj wid (JObj inputs) options scope (sub_tenant subj @ ''/'' @ h_opaque (re_host env) (w_rng w)) (w_clock w)"
  let ?w1 = "w\<lparr>w_rng := Suc (w_rng w)\<rparr>"
  have row: "run_id ?row = sub_tenant subj @ ''/'' @ h_opaque (re_host env) (w_rng w)" "r_tenant ?row = sub_tenant subj" "r_status ?row = Pending"
    "eraOf ?row = 3" "r_workflow ?row = wid"
    by (simp_all add: accepted_row_def eraOf_def EVENT_LOG_SCHEMA_VERSION_def)
  have acc: "acceptRun (re_host env) subj wid (JObj inputs) options scope w = (if run_id ?row \<in> run_id ` set (t_runs w)
      then (Inl (JsError ''UNIQUE constraint failed: runs''), ?w1) else (Inr ?row, ?w1\<lparr>t_runs := t_runs w @ [?row]\<rparr>))"
    by (simp add: acceptRun_def tenantBound_def opaque_def Let_def insertRun_def row(1))
  have body: "\<exists>body. rp_body (created_reply c ?row) = Some body \<and> jfield body ''runId'' = Some (JStr (wireRunId (cx_major c) (run_id ?row)))"
    by (simp add: created_reply_def replied_def Let_def)
  have req: "create_request env c txt w = Inr (subj, wid, inputs, options, scope)" using Inr q by simp
  show ?thesis
  proof (cases "run_id ?row \<in> run_id ` set (t_runs w)")
    case True
    with assms req acc show ?thesis by (auto simp: create_body_def)
  next
    case False
    with assms req acc have res: "res = Inr (created_reply c ?row)" and w': "w' = scheduleRun (run_id ?row) (?w1\<lparr>t_runs := t_runs w @ [?row]\<rparr>)"
      by (auto simp: create_body_def)
    have "new_run_of c env w (created_reply c ?row) w'"
      unfolding new_run_of_def
      by (rule exI [of _ subj], rule exI [of _ ?row])
         (use create_request_Inr [OF req] row False body in \<open>simp add: w' schedule_keeps, simp add: created_reply_def replied_def Let_def\<close>)
    then show ?thesis by (simp add: res w' schedule_keeps)
  qed
qed

lemma idem_begin_free:
  assumes "IDEMPOTENCY_KEY k" "getIdempotency (sub_tenant s) ep k w = None"
  shows "\<exists>w'. idem_begin h (Some s) (Some k) ep di w
      = (Claimed \<lparr>ic_tenant = sub_tenant s, ic_endpoint = ep, ic_key = k, ic_digest = idem_digest h di\<rparr>, w')
    \<and> t_runs w' = t_runs w \<and> t_events w' = t_events w"
proof -
  have "\<exists>w'. claimIdempotency (sub_tenant s) ep k (idem_digest h di) w = (True, w') \<and> t_runs w' = t_runs w \<and> t_events w' = t_events w"
    using assms(2) by (auto simp: claimIdempotency_def getIdempotency_def find_None_iff)
  with assms show ?thesis by (auto simp: idem_begin_def Let_def)
qed

text \<open>
  C19: A keyed create makes one run: the first request adds one pending run of the caller's tenant for a
  registered workflow, and nothing to any log; whatever happens to the other tables afterwards, a second
  request of that tenant under the same key answers the same status and body when its body has the same digest,
  and is refused otherwise; it adds no run.
\<close>

theorem keyed_create_makes_one_run:
  assumes "header_of c ''idempotency-key'' = Some k" "IDEMPOTENCY_KEY k" "cx_subject c = Some s"
    and "getIdempotency (sub_tenant s) ''createRun'' k w = None"
    and "createRun env c txt w = (Inr rp, w1)"
    and "header_of c2 ''idempotency-key'' = Some k" "cx_subject c2 = Some s2" "sub_tenant s2 = sub_tenant s"
    and "getIdempotency (sub_tenant s) ''createRun'' k w2 = getIdempotency (sub_tenant s) ''createRun'' k w1"
  shows "new_run_of c env w rp w1 \<and> t_events w1 = t_events w
    \<and> (if idem_digest (re_host env) txt2 = idem_digest (re_host env) txt
       then \<exists>rp2. createRun env c2 txt2 w2 = (Inr rp2, w2) \<and> rp_status rp2 = 201 \<and> rp_body rp2 = rp_body rp
       else \<exists>we. createRun env c2 txt2 w2 = (Inl we, w2) \<and> exn_code (we_exn we) = ''idempotency_key_mismatch'')"
proof -
  let ?h = "re_host env"
  let ?call = "\<lparr>ic_tenant = sub_tenant s, ic_endpoint = ''createRun'', ic_key = k, ic_digest = idem_digest ?h txt\<rparr>"
  obtain wc
    where b: "idem_begin ?h (Some s) (Some k) ''createRun'' txt w = (Claimed ?call, wc)" and wc: "t_runs wc = t_runs w" "t_events wc = t_events w"
    using idem_begin_free [OF assms(2,4), of ?h "txt"] by blast
  obtain res w' where cb: "create_body env c txt wc = (res, w')" by force
  have "createRun env c txt w = (res, idem_settle (re_cfg env) ?call res w')"
    using assms(1,3) b cb by (simp add: createRun_def withIdempotency_def)
  with assms(5) have res: "res = Inr rp" and w1: "w1 = idem_settle (re_cfg env) ?call (Inr rp) w'" by auto
  from create_body_effect [OF cb] res have eff: "t_events w' = t_events wc" "t_idem w' = t_idem wc" "new_run_of c env wc rp w'" by simp_all
  have kept: "t_runs w1 = t_runs w'" "t_events w1 = t_events w'"
    by (simp_all add: w1 idem_settle_def completeIdempotency_def releaseIdempotency_def)
  have new: "new_run_of c env w rp w1" using eff(3) kept wc by (simp add: new_run_of_def)
  then have rp: "rp_status rp = 201" "rp_raw rp = None" "\<exists>body. rp_body rp = Some body" by (auto simp: new_run_of_def)
  have fin: "is_final (re_cfg env) (Inr rp)" using rp by (simp add: is_final_def final_reply_def)
  from begin_claims(2) [OF b] obtain d where d: "row_of ?call wc = Some d" "d_digest d = idem_digest ?h txt" by auto
  have "row_of ?call w' = row_of ?call wc" using eff(2) by (simp add: row_of_def getIdempotency_def)
  with d settle_row [of ?call "re_cfg env" "Inr rp" w'] fin rp
  obtain e where e: "row_of ?call w1 = Some e" "d_digest e = idem_digest ?h txt" "d_status e = Some 201" "d_body e = rp_body rp"
    by (auto simp: w1 outcome_status_def or_null_def)
  then have e2: "row_of ?call w2 = Some e" using assms(9) by (simp add: row_of_def)
  have again: "idem_begin ?h (Some s2) (Some k) ''createRun'' txt2 w2 = idem_begin ?h (Some s2) (Some (ic_key ?call)) (ic_endpoint ?call) txt2 w2"
    by simp
  note ans = begin_on_final [OF e2, of 201 s2 ?h txt2]
  have "if idem_digest ?h txt2 = idem_digest ?h txt
       then \<exists>rp2. createRun env c2 txt2 w2 = (Inr rp2, w2) \<and> rp_status rp2 = 201 \<and> rp_body rp2 = rp_body rp
       else \<exists>we. createRun env c2 txt2 w2 = (Inl we, w2) \<and> exn_code (we_exn we) = ''idempotency_key_mismatch''"
    using ans e assms(2,6-8) by (simp add: createRun_def withIdempotency_def web_err_def)
  with new eff(1) kept(2) wc(2) show ?thesis by simp
qed

section \<open>The pages of the run list\<close>

definition all_listed :: "string \<Rightarrow> string option \<Rightarrow> run_status option \<Rightarrow> 'a store_scheme \<Rightarrow> run_row list" where
  "all_listed ten wid st w = rev (sort_key run_order (filter (\<lambda>r. r_tenant r = ten
     \<and> (case wid of None \<Rightarrow> True | Some x \<Rightarrow> r_workflow r = x) \<and> (case st of None \<Rightarrow> True | Some x \<Rightarrow> r_status r = x)) (t_runs w)))"

lemma listRuns_filter:
  "listRuns ten limit after wid st w
    = take limit (filter (\<lambda>r. case after of None \<Rightarrow> True | Some k \<Rightarrow> run_order r < k) (all_listed ten wid st w))"
proof -
  have "(case after of None \<Rightarrow> True | Some (c, i) \<Rightarrow> r_created r < c \<or> r_created r = c \<and> run_id r < i)
      = (case after of None \<Rightarrow> True | Some k \<Rightarrow> run_order r < k)" for r
    by (auto simp: run_order_def less_prod_def' split: option.split)
  then show ?thesis
    by (simp add: listRuns_def all_listed_def rev_filter [symmetric] filter_sort conj_commute conj_left_commute flip: filter_filter)
qed

text \<open>Ready to be paged: ids and printed times without the separator, and times that read back.\<close>

definition runs_ready :: "runs_env \<Rightarrow> nat \<Rightarrow> 'a store_scheme \<Rightarrow> bool" where
  "runs_ready env limit w \<longleftrightarrow> 0 < limit \<and> distinct (map run_id (t_runs w))
     \<and> (\<forall>r \<in> set (t_runs w). CHR ''|'' \<notin> set (run_id r) \<and> CHR ''|'' \<notin> set (h_iso (re_host env) (r_created r))
         \<and> h_date (re_host env) (h_iso (re_host env) (r_created r)) = Some (r_created r))"

lemma run_cursor_roundtrip:
  assumes "CHR ''|'' \<notin> set (run_id r)" "CHR ''|'' \<notin> set (h_iso (re_host env) (r_created r))"
  shows "readCursor env (mintCursor env r) = Inr (h_iso (re_host env) (r_created r), run_id r)"
proof -
  let ?p = "bar_separated [h_iso (re_host env) (r_created r), run_id r]"
  have m: "CHR ''|'' \<notin> set (run_cursor_mac env ?p)" using base64url_ascii by (auto simp: run_cursor_mac_def)
  have joined: "?p @ ''|'' @ run_cursor_mac env ?p = join_with (CHR ''|'') [h_iso (re_host env) (r_created r), run_id r, run_cursor_mac env ?p]"
    by (simp add: bar_separated_def)
  have "split_on (CHR ''|'') (?p @ ''|'' @ run_cursor_mac env ?p) = [h_iso (re_host env) (r_created r), run_id r, run_cursor_mac env ?p]"
    unfolding joined using assms m by (intro split_join) auto
  moreover have "utf16_length (run_cursor_mac env ?p) = length (run_cursor_mac env ?p)"
    by (rule utf16_ascii) (use base64url_ascii in \<open>auto simp: run_cursor_mac_def\<close>)
  ultimately show ?thesis by (simp add: readCursor_def mintCursor_def Let_def)
qed

lemma run_page_rest:
  assumes "0 < limit"
    and "(case cursor of None \<Rightarrow> Inr None | Some raw \<Rightarrow> map_sum id Some (readCursor env raw)) = Inr after"
  shows "run_page env ten limit wid st w cursor = Inr (page_of_rest limit (mintCursor env)
    (filter (\<lambda>r. case map_option (cursor_key env) after of None \<Rightarrow> True | Some k \<Rightarrow> run_order r < k) (all_listed ten wid st w)))"
  using page_of_one_more [OF assms(1), of "filter (\<lambda>r. case map_option (cursor_key env) after of None \<Rightarrow> True | Some k \<Rightarrow> run_order r < k)
      (all_listed ten wid st w)" "mintCursor env"]
  by (simp only: run_page_def assms(2) and_then.simps listRuns_filter Let_def)

interpretation run_list: keyset "runs_ready env limit w" "all_listed ten wid st w" run_order limit
    "run_page env ten limit wid st w" "mintCursor env"
  for env limit ten wid st w
proof
  assume r: "runs_ready env limit w"
  then show k: "0 < limit" by (simp add: runs_ready_def)
  show "sorted_wrt (\<lambda>a b. run_order b < run_order a) (all_listed ten wid st w)"
    unfolding all_listed_def
    by (rule sorted_desc_distinct) (use r in \<open>auto simp: runs_ready_def distinct_map run_order_def inj_on_def distinct_filter\<close>)
  show "run_page env ten limit wid st w None = Inr (page_of_rest limit (mintCursor env) (all_listed ten wid st w))"
    using run_page_rest [OF k, where cursor = None and after = None and env = env] by simp
  fix d assume "d \<in> set (all_listed ten wid st w)"
  then have d: "d \<in> set (t_runs w)" by (simp add: all_listed_def)
  then have "readCursor env (mintCursor env d) = Inr (h_iso (re_host env) (r_created d), run_id d)"
    using r by (intro run_cursor_roundtrip) (simp_all add: runs_ready_def)
  moreover have "cursor_key env (h_iso (re_host env) (r_created d), run_id d) = run_order d"
    using r d by (simp add: cursor_key_def runs_ready_def run_order_def)
  moreover note run_page_rest [OF k, where cursor = "Some (mintCursor env d)" and env = env and ten = ten and wid = wid and st = st and w = w
    and after = "Some (h_iso (re_host env) (r_created d), run_id d)"]
  ultimately
  show "run_page env ten limit wid st w (Some (mintCursor env d))
      = Inr (page_of_rest limit (mintCursor env) (filter (\<lambda>x. run_order x < run_order d) (all_listed ten wid st w)))"
    by simp
qed

text \<open>
  The run list is exact: following its cursors at any page size yields every run of the tenant that
  the filters ask for, once, newest first, and no run of another tenant.
\<close>

theorem run_pages_are_exact:
  assumes "runs_ready env limit w" "length (t_runs w) < n"
  shows "read_all (run_page env ten limit wid st w) n None = Inr (all_listed ten wid st w)
    \<and> mset (all_listed ten wid st w) = filter_mset (\<lambda>r. r_tenant r = ten
        \<and> (case wid of None \<Rightarrow> True | Some x \<Rightarrow> r_workflow r = x) \<and> (case st of None \<Rightarrow> True | Some x \<Rightarrow> r_status r = x)) (mset (t_runs w))
    \<and> sorted_wrt (\<lambda>a b. run_order b < run_order a) (all_listed ten wid st w)"
proof -
  have "length (all_listed ten wid st w) \<le> length (t_runs w)" by (simp add: all_listed_def)
  with assms(2) have "length (all_listed ten wid st w) < n" by simp
  from run_list.read_all_rows [OF assms(1) this] run_list.descending [OF assms(1)]
  have "read_all (run_page env ten limit wid st w) n None = Inr (all_listed ten wid st w)"
    "sorted_wrt (\<lambda>a b. run_order b < run_order a) (all_listed ten wid st w)" by blast+
  then show ?thesis by (simp add: all_listed_def)
qed

section \<open>Who may change state\<close>

lemma pause_refusal_Inr:
  "pause_refusal body r = Inr drain \<Longrightarrow> \<not> terminal_status (r_status r) \<and> r_status r \<noteq> Paused \<and> \<not> r_pause r
    \<and> \<not> waiting_status (r_status r) \<and> r_status r \<noteq> Cancelling"
  by (auto simp: pause_refusal_def Let_def and_then_Inr_iff split: if_splits option.splits)

lemma status_split: "\<not> terminal_status s \<Longrightarrow> \<not> waiting_status s \<Longrightarrow> s \<noteq> Paused \<Longrightarrow> s \<noteq> Cancelling \<Longrightarrow> s = Pending \<or> s = Running"
  by (cases s) simp_all


section \<open>A hole in the closed schema\<close>

text \<open>
  \<open>CONFIGURABLE_SECTIONS[k]\<close> also finds the names every object of the language answers: a section named
  \<open>constructor\<close> with no members is accepted, and one with a member leaves through a TypeError, where the
  closed schema means to answer 400.
\<close>

lemma prototype_name_passes:
  "validateConfigurable (Some (JObj [(''version'', JNum 1), (''constructor'', JObj [])])) = None"
  "validateConfigurable (Some (JObj [(''version'', JNum 1), (''constructor'', JObj [(''a'', JNull)])]))
    = Some (JsError ''section.has is not a function'')"
  by code_simp+

section \<open>On a small host\<close>

definition demo_runs :: runs_env where
  "demo_runs = \<lparr>re_host = demo_host, re_cfg = demo_cfg, re_tenant = ''t'', re_cursor_key = ''k'', re_build = ''b'', re_a2a_push = False\<rparr>"

definition demo_request :: "(string \<times> string) list \<Rightarrow> ctx" where
  "demo_request hs = \<lparr>cx_subject = Some demo_caller, cx_major = 2, cx_headers = hs, cx_query = [], cx_base = ''http://h''\<rparr>"

definition demo_id :: string where "demo_id = ''t/0123456789abcdef''"

lemma demo_loads:
  "loadRun demo_runs (demo_request hs) demo_id (demo_world [demo_run demo_id ''l'']) = (Inr (demo_run demo_id ''l''), demo_world [demo_run demo_id ''l''])"
proof -
  have "checkTenantBound demo_id ''t'' ''runId'' = Inr (''t'', ''0123456789abcdef'')" by code_simp
  then show ?thesis
    by (simp add: loadRun_def caller_tenant_def demo_request_def demo_runs_def demo_caller_def demo_cfg_def Let_def getRun_def demo_world_def
        applyPin_era3 demo_run_def eraOf_def demo_id_def)
qed

lemma runs_stay_in_tenant_witness:
  "\<exists>q. getRun (run_id (demo_run demo_id ''l'')) (demo_world [demo_run demo_id ''l'']) = Some q \<and> r_tenant q = caller_tenant demo_runs (demo_request [])"
  using runs_stay_in_tenant [of demo_runs "demo_request []" demo_id "demo_world [demo_run demo_id ''l'']" "demo_run demo_id ''l''" "''u''" "''x''"]
  by (simp add: demo_loads)

definition demo_body :: string where "demo_body = json_stringify (JObj [(''workflowId'', JStr ''l'')])"

lemma keyed_create_makes_one_run_witness:
  "\<exists>rp w1. createRun demo_runs (demo_request [(''idempotency-key'', demo_key)]) demo_body (demo_world []) = (Inr rp, w1)
     \<and> new_run_of (demo_request [(''idempotency-key'', demo_key)]) demo_runs (demo_world []) rp w1
     \<and> (\<exists>rp2. createRun demo_runs (demo_request [(''idempotency-key'', demo_key)]) demo_body w1 = (Inr rp2, w1) \<and> rp_body rp2 = rp_body rp)"
proof -
  let ?c = "demo_request [(''idempotency-key'', demo_key)]" and ?w = "demo_world []"
  have "\<not> isl (fst (createRun demo_runs ?c demo_body ?w))" by code_simp
  then obtain rp w1 where cr: "createRun demo_runs ?c demo_body ?w = (Inr rp, w1)"
    by (cases "createRun demo_runs ?c demo_body ?w"; cases "fst (createRun demo_runs ?c demo_body ?w)") auto
  have k: "IDEMPOTENCY_KEY demo_key" by code_simp
  have h: "header_of ?c ''idempotency-key'' = Some demo_key" "cx_subject ?c = Some demo_caller"
    by (simp_all add: header_of_def demo_request_def)
  have "getIdempotency (sub_tenant demo_caller) ''createRun'' demo_key ?w = None" by (simp add: getIdempotency_def demo_world_def)
  from keyed_create_makes_one_run [OF h(1) k h(2) this cr h refl refl, of demo_body] cr show ?thesis by auto
qed

lemma run_pages_are_exact_witness:
  "read_all (run_page demo_runs ''t'' 1 None None (demo_world [demo_run ''a'' ''l'', demo_run ''b'' ''l''])) 3 None
    = Inr (all_listed ''t'' None None (demo_world [demo_run ''a'' ''l'', demo_run ''b'' ''l'']))"
proof -
  have "runs_ready demo_runs 1 (demo_world [demo_run ''a'' ''l'', demo_run ''b'' ''l''])"
    by code_simp
  from run_pages_are_exact [OF this, of 3] show ?thesis by (simp add: demo_world_def)
qed


end
