(* ===== verification/One_Shot.thy ===== *)
theory One_Shot
  imports Prelude
begin

text \<open>
  Things that may happen once: a grant's \<open>state\<close> is exchanged once, a message starts one task. An
  action fires keys; the store remembers which are spent. The locale states the two laws such a store
  keeps and proves that no schedule of actions fires a key twice; the OAuth client and the task server are
  its instances.
\<close>

fun fired :: "('op \<Rightarrow> 's \<Rightarrow> 'k list \<times> 's) \<Rightarrow> 'op list \<Rightarrow> 's \<Rightarrow> 'k list \<times> 's" where
  "fired act [] s = ([], s)"
| "fired act (a # as) s = (let (ks, s1) = act a s; (rest, s2) = fired act as s1 in (ks @ rest, s2))"

lemma fired_append:
  "fired act (as @ bs) s = (let (ks, s1) = fired act as s; (ls, s2) = fired act bs s1 in (ks @ ls, s2))"
  by (induction as arbitrary: s) (auto simp: Let_def split: prod.splits)

lemma fired_state: "snd (fired act (a # as) s) = snd (fired act as (snd (act a s)))"
  by (simp add: Let_def split: prod.splits)

lemma fired_keys: "fst (fired act (a # as) s) = fst (act a s) @ fst (fired act as (snd (act a s)))"
  by (simp add: Let_def split: prod.splits)

locale one_shot =
  fixes act :: "'op \<Rightarrow> 's \<Rightarrow> 'k list \<times> 's"
    and spent :: "'s \<Rightarrow> 'k \<Rightarrow> bool"
    and sound :: "'s \<Rightarrow> bool"
  assumes fires_fresh: "sound s \<Longrightarrow> k \<in> set (fst (act a s)) \<Longrightarrow> \<not> spent s k \<and> spent (snd (act a s)) k"
    and fires_distinct: "sound s \<Longrightarrow> distinct (fst (act a s))"
    and stays_spent: "sound s \<Longrightarrow> spent s k \<Longrightarrow> spent (snd (act a s)) k"
    and stays_sound: "sound s \<Longrightarrow> sound (snd (act a s))"
begin

lemma spent_along: "sound s \<Longrightarrow> spent s k \<Longrightarrow> spent (snd (fired act as s)) k"
proof (induction as arbitrary: s)
  case (Cons a as)
  with stays_spent [of s k a] stays_sound [of s a] show ?case by (simp only: fired_state)
qed simp

lemma sound_along: "sound s \<Longrightarrow> sound (snd (fired act as s))"
proof (induction as arbitrary: s)
  case (Cons a as)
  with stays_sound [of s a] show ?case by (simp only: fired_state)
qed simp

lemma fired_once:
  "sound s \<Longrightarrow> distinct (fst (fired act as s)) \<and> (\<forall>k \<in> set (fst (fired act as s)). \<not> spent s k \<and> spent (snd (fired act as s)) k)"
proof (induction as arbitrary: s)
  case (Cons a as)
  obtain ks s1 where a: "act a s = (ks, s1)" by force
  obtain ls s2 where f: "fired act as s1 = (ls, s2)" by force
  have s1: "sound s1" using stays_sound [OF Cons.prems, of a] a by simp
  from Cons.IH [OF s1] f have ih: "distinct ls" "\<And>k. k \<in> set ls \<Longrightarrow> \<not> spent s1 k \<and> spent s2 k" by auto
  have ks: "\<not> spent s k \<and> spent s1 k" if "k \<in> set ks" for k using fires_fresh [OF Cons.prems, of k a] a that by simp
  have s2: "spent s2 k" if "spent s1 k" for k using spent_along [OF s1 that, of as] f by simp
  have new: "\<not> spent s k" if "k \<in> set ls" for k using stays_spent [OF Cons.prems, of k a] ih(2) [OF that] a by auto
  have "set ks \<inter> set ls = {}" using ks ih(2) by blast
  with fires_distinct [OF Cons.prems, of a] a ih(1) have "distinct (ks @ ls)" by simp
  with ks ih(2) s2 new show ?case by (auto simp: a f Let_def)
qed simp

end

end
