(* ===== verification/OAuth.thy ===== *)
theory OAuth
  imports Executor Egress Ids One_Shot
begin

text \<open>
  The host as an OAuth authorization-code client (\<open>oauth.ts\<close>): the provider registry and its
  verified discovery, the one authorization-URL builder, the connect link, the callback cut at its
  token request, and the credentials a node acquires. The URL parser and the URL builder, the network,
  and the random bytes are fields of the environment; a column that holds the JSON text of a row holds
  the row.
\<close>

section \<open>The tables\<close>

record provider_row =
  pr_id :: string
  pr_auth_url :: string
  pr_token_url :: string
  pr_issuer :: "string option"
  pr_pkce :: "string option"
  pr_resource :: "string option"
  pr_source :: string
  pr_pin :: "string option"
  pr_iss_required :: bool

record state_row =
  os_provider :: string
  os_subject :: string
  os_verifier :: "string option"
  os_redirect :: string
  os_scopes :: "string list"
  os_created :: nat
  os_consumed :: bool
  os_connect :: "string option"
  os_bound :: "provider_row option"

record oauth_credential =
  oc_ref :: string
  oc_access :: string
  oc_refresh :: "string option"
  oc_expires :: int
  oc_scopes :: "string list"
  oc_bound :: "provider_row option"

record connect_row =
  cn_run :: string
  cn_node :: string
  cn_subject :: string
  cn_provider :: string
  cn_scopes :: "string list"
  cn_bound :: "provider_row option"

record oauth_db =
  od_providers :: "(string \<times> provider_row) list"
  od_packs :: "(string \<times> json) list"
  od_states :: "(string \<times> state_row) list"
  od_creds :: "((string \<times> string) \<times> oauth_credential) list"
  od_connect :: "(string \<times> connect_row) list"
  od_draws :: nat

record url_parts =
  up_origin :: string
  up_protocol :: string
  up_host :: string
  up_pathname :: string
  up_search :: string

text \<open>
  \<open>oe_parts\<close> is \<open>new URL\<close> (\<open>None\<close> where it throws), \<open>oe_with_params\<close> the text of a URL after its
  search parameters were set in order, \<open>oe_random\<close> the bytes of a draw.
\<close>

record oauth_env =
  oe_host :: host
  oe_net :: net_env
  oe_private :: bool
  oe_public_base :: "string option"
  oe_listen :: string
  oe_port :: nat
  oe_interrupt :: bool
  oe_parts :: "string \<Rightarrow> url_parts option"
  oe_with_params :: "string \<Rightarrow> (string \<times> string) list \<Rightarrow> string option"
  oe_random :: "nat \<Rightarrow> nat \<Rightarrow> string"

definition STATE_TTL_MS :: nat where "STATE_TTL_MS = 600000"
definition CLIENT_ID :: string where "CLIENT_ID = ''openwop-v2-reference''"

definition QUOTE :: string where "QUOTE = [CHR 0x22]"

definition CATALOG :: "(string \<times> string list) list" where
  "CATALOG = [(''synthetic'', [''openwop.read'', ''openwop.write'']), (''synthetic-noiss'', [''openwop.read'', ''openwop.write'']),
     (''synthetic-noiss-b'', [''openwop.read'', ''openwop.write''])]"

definition catalog_row :: "string \<Rightarrow> provider_row" where
  "catalog_row i = \<lparr>pr_id = i, pr_auth_url = ''https://oauth.synthetic.openwop.test/authorize'',
     pr_token_url = ''https://oauth.synthetic.openwop.test/token'', pr_issuer = None, pr_pkce = None, pr_resource = None,
     pr_source = ''catalog'', pr_pin = None, pr_iss_required = False\<rparr>"

definition oauthSupported :: "host \<Rightarrow> bool" where
  "oauthSupported h \<longleftrightarrow> ''connector_auth_declined'' \<in> set (a_error_codes (h_art h))
     \<and> ''connection_auth_metadata_mismatch'' \<in> set (a_error_codes (h_art h))"

text \<open>\<open>s.replace(/\/+$/, '')\<close>.\<close>

definition no_trailing_slashes :: "string \<Rightarrow> string" where
  "no_trailing_slashes s = rev (dropWhile (\<lambda>c. c = CHR ''/'') (rev s))"

definition publicBase :: "oauth_env \<Rightarrow> string" where
  "publicBase oe = no_trailing_slashes (case oe_public_base oe of Some b \<Rightarrow> b
     | None \<Rightarrow> ''http://'' @ oe_listen oe @ '':'' @ nat_string (oe_port oe))"

definition credentialInterruptAdvertised :: "oauth_env \<Rightarrow> bool" where
  "credentialInterruptAdvertised oe \<longleftrightarrow> oauthSupported (oe_host oe) \<and> oe_interrupt oe \<and> starts_with ''https://'' (publicBase oe)"

definition subject_key :: "subject \<Rightarrow> string" where
  "subject_key s = sub_tenant s @ ''|'' @ principalRef s"

definition b64u :: "oauth_env \<Rightarrow> nat \<Rightarrow> nat \<Rightarrow> string" where
  "b64u oe draw n = base64url (oe_random oe draw n)"

definition S256 :: "host \<Rightarrow> string \<Rightarrow> string" where
  "S256 h v = base64url (h_sha256 h v)"

section \<open>The provider registry\<close>

definition provider :: "oauth_db \<Rightarrow> string \<Rightarrow> provider_row option" where
  "provider db i = (case map_of (od_providers db) i of Some r \<Rightarrow> Some r
     | None \<Rightarrow> if i \<in> fst ` set CATALOG then Some (catalog_row i) else None)"

definition upsertProvider :: "provider_row \<Rightarrow> oauth_db \<Rightarrow> oauth_db" where
  "upsertProvider r db = db\<lparr>od_providers := AList.update (pr_id r) r (od_providers db)\<rparr>"

definition unsupported_provider :: "string \<Rightarrow> exn" where
  "unsupported_provider i = HostError ''oauth_provider_unsupported'' (''provider '' @ i @ '' is not in oauth.providers'')
     (Some (JObj [(''provider'', JStr i)]))"

definition getJson :: "oauth_env \<Rightarrow> string \<Rightarrow> exn + (string \<times> json) list option" where
  "getJson oe u =
     (case validateEgressUrl (oe_net oe) u (oe_private oe) of Inl e \<Rightarrow> Inr None
      | Inr x \<Rightarrow>
         (case guardedRequest (oe_net oe) x \<lparr>ei_method = ''GET'', ei_headers = [(''Accept'', ''application/json'')], ei_body = None,
             ei_timeout = 5000, ei_private = oe_private oe, ei_max_body = None\<rparr> of
            Inl e \<Rightarrow> Inl e
          | Inr r \<Rightarrow> if eg_status r \<noteq> 200 then Inr None
              else Inr (case json_parse (eg_body r) of Some (JObj ps) \<Rightarrow> Some ps | _ \<Rightarrow> None)))"

definition parsed_url :: "oauth_env \<Rightarrow> string \<Rightarrow> exn + url_parts" where
  "parsed_url oe u = (case oe_parts oe u of None \<Rightarrow> Inl (JsError ''Invalid URL'') | Some p \<Rightarrow> Inr p)"

definition asMetadataUrl :: "oauth_env \<Rightarrow> string \<Rightarrow> exn + string" where
  "asMetadataUrl oe issuer = and_then (parsed_url oe issuer) (\<lambda>u.
     Inr (up_origin u @ ''/.well-known/oauth-authorization-server''
       @ (if up_pathname u = ''/'' then [] else no_trailing_slashes (up_pathname u))))"

text \<open>What the seam points a provider at; an absent field is \<open>None\<close>.\<close>

record endpoints =
  ep_auth :: "string option"
  ep_token :: "string option"
  ep_issuer :: "string option"
  ep_pkce :: "string option"

definition promises_iss :: "oauth_env \<Rightarrow> string \<Rightarrow> exn + bool" where
  "promises_iss oe issuer = and_then (asMetadataUrl oe issuer) (\<lambda>u. and_then (getJson oe u) (\<lambda>md.
     Inr (case md of None \<Rightarrow> False
        | Some ps \<Rightarrow> map_of ps ''issuer'' = Some (JStr issuer)
            \<and> map_of ps ''authorization_response_iss_parameter_supported'' = Some (JBool True))))"

definition configureProvider :: "oauth_env \<Rightarrow> string \<Rightarrow> endpoints \<Rightarrow> oauth_db \<Rightarrow> (exn + provider_row) \<times> oauth_db" where
  "configureProvider oe i v db =
     (case provider db i of None \<Rightarrow> (Inl (unsupported_provider i), db)
      | Some base \<Rightarrow>
         if pr_source base = ''pack'' then (Inl (unsupported_provider i), db)
         else case (case ep_issuer v of None \<Rightarrow> Inr False | Some iss \<Rightarrow> promises_iss oe iss) of
            Inl e \<Rightarrow> (Inl e, db)
          | Inr required \<Rightarrow>
             (let row = base\<lparr>pr_auth_url := (case ep_auth v of Some u \<Rightarrow> u | None \<Rightarrow> pr_auth_url base),
                    pr_token_url := (case ep_token v of Some u \<Rightarrow> u | None \<Rightarrow> pr_token_url base),
                    pr_issuer := ep_issuer v, pr_pkce := ep_pkce v, pr_resource := None, pr_source := ''seam'', pr_pin := None,
                    pr_iss_required := required\<rparr>
              in (Inr row, upsertProvider row db)))"

section \<open>Verified discovery\<close>

definition mismatch :: "string \<Rightarrow> (string \<times> json option) list \<Rightarrow> exn" where
  "mismatch why details = HostError ''connection_auth_metadata_mismatch'' why (Some (jobj details))"

text \<open>The lower case of the scheme and of the host; the fragment is dropped.\<close>

definition canonicalResource :: "oauth_env \<Rightarrow> string \<Rightarrow> exn + string" where
  "canonicalResource oe u = and_then (parsed_url oe u) (\<lambda>p.
     Inr (map lower_case (up_protocol p) @ ''//'' @ map lower_case (up_host p)
       @ (if length (up_pathname p) > 1 then no_trailing_slashes (up_pathname p) else []) @ up_search p))"

record reach =
  rh_resource :: string
  rh_issuer :: string
  rh_authorize :: string
  rh_token :: string
  rh_iss_required :: bool

text \<open>The path \<open>p.a?.b?.c\<close>.\<close>

definition at_path :: "json option \<Rightarrow> string list \<Rightarrow> json option" where
  "at_path v ks = foldl jget v ks"

definition server_url :: "json option \<Rightarrow> json option" where "server_url p = at_path p [''reach'', ''mcp'', ''server'', ''url'']"
definition declared_authorize :: "json option \<Rightarrow> json option" where "declared_authorize p = at_path p [''auth'', ''endpoints'', ''authorize'']"
definition declared_token :: "json option \<Rightarrow> json option" where "declared_token p = at_path p [''auth'', ''endpoints'', ''token'']"
definition declared_issuer :: "json option \<Rightarrow> json option" where "declared_issuer p = at_path p [''auth'', ''issuer'']"

fun first_json :: "oauth_env \<Rightarrow> string list \<Rightarrow> exn + (string \<times> json) list option" where
  "first_json oe [] = Inr None"
| "first_json oe (c # cs) = (case getJson oe c of Inl e \<Rightarrow> Inl e | Inr (Some ps) \<Rightarrow> Inr (Some ps) | Inr None \<Rightarrow> first_json oe cs)"

definition text_list :: "json option \<Rightarrow> string list" where
  "text_list v = (case v of Some (JArr xs) \<Rightarrow> map js_string xs | _ \<Rightarrow> [])"

text \<open>The four texts the manifest has to declare, with the refusals of their absence in the order of the code.\<close>

definition reach_fields :: "json option \<Rightarrow> exn + string \<times> string \<times> string \<times> string" where
  "reach_fields p =
     (case str_of (server_url p) of None \<Rightarrow> Inl (mismatch ''reach.mcp.server.url is required'' [])
      | Some s \<Rightarrow> (case str_of (declared_issuer p) of
          None \<Rightarrow> Inl (mismatch (''a reach.mcp + oauth2 provider whose manifest declares no provider.auth.issuer cannot be authorized (RFC 0199 '' @ SECTION_SIGN @ ''E.2)'')
                   [(''field'', Some (JStr ''provider.auth.issuer''))])
        | Some iss \<Rightarrow>
          if at_path p [''auth'', ''pkce''] = Some (JStr ''unsupported'')
          then Inl (mismatch (''a provider reached as an MCP server MUST use PKCE; pkce '' @ QUOTE @ ''unsupported'' @ QUOTE @ '' cannot be authorized (RFC 0199 '' @ SECTION_SIGN @ ''B.2)'')
                   [(''field'', Some (JStr ''provider.auth.pkce''))])
          else (case (str_of (declared_authorize p), str_of (declared_token p)) of
              (Some a, Some t) \<Rightarrow> Inr (s, iss, a, t)
            | _ \<Rightarrow> Inl (mismatch ''provider.auth.endpoints.authorize and .token are required for an MCP reach'' [(''field'', Some (JStr ''provider.auth.endpoints''))]))))"

text \<open>The protected-resource metadata names the server it was fetched for and the manifest's issuer.\<close>

definition resource_verdict :: "oauth_env \<Rightarrow> string \<Rightarrow> string \<Rightarrow> (string \<times> json) list \<Rightarrow> exn + unit" where
  "resource_verdict oe resource issuer prm =
     and_then (case str_of (map_of prm ''resource'') of None \<Rightarrow> Inr False
        | Some r \<Rightarrow> and_then (canonicalResource oe r) (\<lambda>c. Inr (c = resource))) (\<lambda>same.
     if \<not> same then Inl (mismatch ''the PRM resource is not the server URL it was fetched for'' [(''resource'', Some (JStr resource)), (''got'', map_of prm ''resource'')])
     else throw_if (issuer \<notin> set (text_list (map_of prm ''authorization_servers'')))
       (mismatch ''the PRM does not name the manifest's issuer'' [(''issuer'', Some (JStr issuer)),
          (''authorizationServers'', Some (JArr (map JStr (text_list (map_of prm ''authorization_servers'')))))]))"

text \<open>The issuer's own metadata names it, its endpoints are the manifest's, and it lists S256.\<close>

definition server_verdict :: "string \<Rightarrow> string \<Rightarrow> string \<Rightarrow> (string \<times> json) list option \<Rightarrow> exn + bool" where
  "server_verdict issuer authorize tok md =
     (case md of None \<Rightarrow> Inl (mismatch ''the issuer's authorization-server metadata is missing or names another issuer'' [(''issuer'', Some (JStr issuer))])
      | Some ps \<Rightarrow>
        if map_of ps ''issuer'' \<noteq> Some (JStr issuer)
        then Inl (mismatch ''the issuer's authorization-server metadata is missing or names another issuer'' [(''issuer'', Some (JStr issuer))])
        else if map_of ps ''authorization_endpoint'' \<noteq> Some (JStr authorize) \<or> map_of ps ''token_endpoint'' \<noteq> Some (JStr tok)
        then Inl (mismatch ''the authorization-server metadata endpoints differ from the manifest's''
               [(''field'', Some (JStr (if map_of ps ''token_endpoint'' \<noteq> Some (JStr tok) then ''token_endpoint'' else ''authorization_endpoint'')))])
        else if ''S256'' \<notin> set (text_list (map_of ps ''code_challenge_methods_supported''))
        then Inl (mismatch (''the authorization server does not list S256 in code_challenge_methods_supported (RFC 0199 '' @ SECTION_SIGN @ ''B.2)'')
               [(''codeChallengeMethods'', Some (JArr (map JStr (text_list (map_of ps ''code_challenge_methods_supported'')))))])
        else Inr (map_of ps ''authorization_response_iss_parameter_supported'' = Some (JBool True)))"

text \<open>The well-known URLs a server URL derives: with its path inserted, then at the root.\<close>

definition resource_urls :: "url_parts \<Rightarrow> string list" where
  "resource_urls s = (let root = up_origin s @ ''/.well-known/oauth-protected-resource''
     in [root @ (if up_pathname s = ''/'' then [] else up_pathname s), root])"

definition verifyReach :: "oauth_env \<Rightarrow> json option \<Rightarrow> exn + reach" where
  "verifyReach oe p =
     and_then (reach_fields p) (\<lambda>(server, issuer, authorize, tok).
     and_then (canonicalResource oe server) (\<lambda>resource.
     and_then (parsed_url oe resource) (\<lambda>s.
     and_then (first_json oe (resource_urls s)) (\<lambda>found.
       case found of None \<Rightarrow> Inl (mismatch ''the MCP server publishes no Protected Resource Metadata at the URIs its URL derives'' [(''resource'', Some (JStr resource))])
       | Some prm \<Rightarrow>
         and_then (resource_verdict oe resource issuer prm) (\<lambda>u.
         and_then (asMetadataUrl oe issuer) (\<lambda>mu.
         and_then (getJson oe mu) (\<lambda>md.
         and_then (server_verdict issuer authorize tok md) (\<lambda>required.
           Inr \<lparr>rh_resource = resource, rh_issuer = issuer, rh_authorize = authorize, rh_token = tok, rh_iss_required = required\<rparr>))))))))"

definition pin_tuple :: "reach \<Rightarrow> string" where
  "pin_tuple t = json_stringify (JArr (map JStr [rh_resource t, rh_issuer t, rh_authorize t, rh_token t]))"

section \<open>Registration under a pin\<close>

definition https :: "json option \<Rightarrow> bool" where
  "https v = (case v of Some (JStr s) \<Rightarrow> starts_with ''https://'' s | _ \<Rightarrow> False)"

text \<open>\<open>/^[a-z][a-z0-9-]*$/\<close>.\<close>

definition lower_alpha :: "char \<Rightarrow> bool" where
  "lower_alpha c \<longleftrightarrow> 97 \<le> (of_char c :: nat) \<and> (of_char c :: nat) \<le> 122"

definition provider_name :: "string \<Rightarrow> bool" where
  "provider_name s = (case s of [] \<Rightarrow> False
     | c # t \<Rightarrow> lower_alpha c \<and> list_all (\<lambda>d. lower_alpha d \<or> is_digit d \<or> d = CHR ''-'') t)"

definition absent_or_https :: "json option \<Rightarrow> bool" where
  "absent_or_https v \<longleftrightarrow> v = None \<or> https v"

definition reach_refusal :: "(string \<times> json) list \<Rightarrow> exn option" where
  "reach_refusal pack =
     (let p = nullish (map_of pack ''provider'') (Some (JObj [])) in
      if map_of pack ''kind'' \<noteq> Some (JStr ''connection'') \<or> (case jget p ''id'' of Some (JStr i) \<Rightarrow> \<not> provider_name i | _ \<Rightarrow> True)
      then Some (HostError ''pack_validation_failed'' (''a connection pack names kind '' @ QUOTE @ ''connection'' @ QUOTE @ '' and a provider.id'') None)
      else if \<not> https (server_url p) \<or> \<not> absent_or_https (declared_authorize p) \<or> \<not> absent_or_https (declared_token p)
        \<or> \<not> absent_or_https (declared_issuer p)
      then Some (HostError ''pack_validation_failed'' ''connection-pack endpoints, issuer and reach.mcp.server.url are https:// URLs (clause 3)'' None)
      else if at_path p [''auth'', ''kind''] \<noteq> Some (JStr ''oauth2'') \<or> at_path p [''reach'', ''mcp''] = None
      then Some (HostError ''validation_error'' ''this path registers an oauth2 provider reached as an MCP server (provider.reach.mcp)'' None)
      else None)"

text \<open>
  \<open>registerReachProvider\<close> is cut at its \<open>await\<close>: the registered row is read before discovery,
  the pin is settled and the row is written after it.
\<close>

definition register_begin :: "(string \<times> json) list \<Rightarrow> oauth_db \<Rightarrow> exn + string \<times> json option \<times> string option" where
  "register_begin pack db =
     (case reach_refusal pack of Some e \<Rightarrow> Inl e
      | None \<Rightarrow>
        (let p = nullish (map_of pack ''provider'') (Some (JObj [])); i = text_of (jget p ''id''); existing = map_of (od_providers db) i
         in if (case existing of None \<Rightarrow> False | Some r \<Rightarrow> pr_source r \<noteq> ''pack'')
            then Inl (HostError ''validation_error'' (''provider '' @ i @ '' is already defined by the host catalog'') None)
            else Inr (i, p, Option.bind existing pr_pin)))"

definition register_finish :: "(string \<times> json) list \<Rightarrow> string \<Rightarrow> string option \<Rightarrow> exn + reach \<Rightarrow> oauth_db \<Rightarrow> (exn + provider_row) \<times> oauth_db" where
  "register_finish pack i pinned discovery db =
     (case discovery of Inl e \<Rightarrow> (Inl e, db)
      | Inr t \<Rightarrow>
        (let row = \<lparr>pr_id = i, pr_auth_url = rh_authorize t, pr_token_url = rh_token t, pr_issuer = Some (rh_issuer t),
               pr_pkce = Some ''S256'', pr_resource = Some (rh_resource t), pr_source = ''pack'',
               pr_pin = (case pinned of Some q \<Rightarrow> Some q | None \<Rightarrow> Some (pin_tuple t)), pr_iss_required = rh_iss_required t\<rparr>
         in if pr_pin row \<noteq> Some (pin_tuple t)
            then (Inl (mismatch (''a later discovery disagrees with the tuple pinned at registration (RFC 0199 '' @ SECTION_SIGN @ ''B.4)'')
                    [(''provider'', Some (JStr i))]), db)
            else (Inr row, (upsertProvider row db)\<lparr>od_packs := AList.update i (JObj pack) (od_packs db)\<rparr>)))"

definition registerReachProvider :: "oauth_env \<Rightarrow> (string \<times> json) list \<Rightarrow> oauth_db \<Rightarrow> (exn + provider_row) \<times> oauth_db" where
  "registerReachProvider oe pack db =
     (case register_begin pack db of Inl e \<Rightarrow> (Inl e, db)
      | Inr (i, p, pinned) \<Rightarrow> register_finish pack i pinned (verifyReach oe p) db)"

definition recheckPin :: "oauth_env \<Rightarrow> provider_row \<Rightarrow> oauth_db \<Rightarrow> exn + provider_row" where
  "recheckPin oe row db =
     (if pr_source row \<noteq> ''pack'' then Inr row
      else case map_of (od_packs db) (pr_id row) of
          None \<Rightarrow> Inl (mismatch ''the pack behind this provider is not registered'' [])
        | Some pack \<Rightarrow> and_then (verifyReach oe (jfield pack ''provider'')) (\<lambda>t.
            if Some (pin_tuple t) \<noteq> pr_pin row
            then Inl (mismatch (''discovery disagrees with the tuple pinned at registration (RFC 0199 '' @ SECTION_SIGN @ ''B.4)'')
                   [(''provider'', Some (JStr (pr_id row)))])
            else Inr row))"

section \<open>The authorization URL\<close>

text \<open>\<open>encodeURIComponent\<close> on UTF-8 bytes.\<close>

definition uri_plain :: "char \<Rightarrow> bool" where
  "uri_plain c \<longleftrightarrow> ascii_alnum c \<or> c \<in> set ''-_.!~*'' \<or> (of_char c :: nat) \<in> {39, 40, 41}"

definition percent :: "char \<Rightarrow> string" where
  "percent c = [CHR ''%'', upper_hex (of_char c div 16), upper_hex (of_char c mod 16)]"

definition encodeURIComponent :: "string \<Rightarrow> string" where
  "encodeURIComponent s = concat (map (\<lambda>c. if uri_plain c then [c] else percent c) s)"

definition redirectUriFor :: "oauth_env \<Rightarrow> string \<Rightarrow> string" where
  "redirectUriFor oe i = publicBase oe @ ''/oauth/callback/'' @ encodeURIComponent i"

text \<open>\<open>xs.join(' ')\<close>.\<close>

definition spaced :: "string list \<Rightarrow> string" where
  "spaced xs = join_with (CHR '' '') xs"

definition grant_params :: "oauth_env \<Rightarrow> provider_row \<Rightarrow> string list \<Rightarrow> string \<Rightarrow> string \<Rightarrow> (string \<times> string) list" where
  "grant_params oe row scopes st verifier =
     [(''response_type'', ''code''), (''client_id'', CLIENT_ID), (''redirect_uri'', redirectUriFor oe (pr_id row))]
     @ (if scopes \<noteq> [] then [(''scope'', spaced scopes)] else [])
     @ [(''state'', st)]
     @ (if pr_pkce row \<noteq> Some ''unsupported'' then [(''code_challenge'', S256 (oe_host oe) verifier), (''code_challenge_method'', ''S256'')] else [])
     @ (case pr_resource row of None \<Rightarrow> [] | Some r \<Rightarrow> [(''resource'', r)])"

definition beginGrant :: "oauth_env \<Rightarrow> nat \<Rightarrow> subject \<Rightarrow> string \<Rightarrow> string list \<Rightarrow> string option \<Rightarrow> provider_row option
    \<Rightarrow> oauth_db \<Rightarrow> (exn + string) \<times> oauth_db" where
  "beginGrant oe now sb i scopes link configured db =
     (case (case configured of Some r \<Rightarrow> Some r | None \<Rightarrow> provider db i) of
        None \<Rightarrow> (Inl (unsupported_provider i), db)
      | Some given \<Rightarrow> (case recheckPin oe given db of Inl e \<Rightarrow> (Inl e, db)
          | Inr row \<Rightarrow>
            (let st = b64u oe (od_draws db) 32; verifier = b64u oe (od_draws db + 1) 32; drawn = db\<lparr>od_draws := od_draws db + 2\<rparr>
             in case oe_with_params oe (pr_auth_url row) (grant_params oe row scopes st verifier) of
                  None \<Rightarrow> (Inl (JsError ''Invalid URL''), drawn)
                | Some u \<Rightarrow>
                    if map_of (od_states db) st \<noteq> None then (Inl (JsError ''UNIQUE constraint failed: oauth_states''), drawn)
                    else (Inr u, drawn\<lparr>od_states := od_states db @ [(st, \<lparr>os_provider = pr_id row, os_subject = subject_key sb,
                            os_verifier = (if pr_pkce row \<noteq> Some ''unsupported'' then Some verifier else None),
                            os_redirect = redirectUriFor oe (pr_id row), os_scopes = scopes, os_created = now, os_consumed = False,
                            os_connect = link, os_bound = Some row\<rparr>)]\<rparr>))))"

definition boundProvider :: "oauth_db \<Rightarrow> string \<Rightarrow> provider_row option \<Rightarrow> provider_row option" where
  "boundProvider db i snapshot = (case snapshot of Some r \<Rightarrow> Some r | None \<Rightarrow> provider db i)"

section \<open>The connect link\<close>

definition connectUrlFor :: "oauth_env \<Rightarrow> run_row \<Rightarrow> string \<Rightarrow> string \<Rightarrow> string list \<Rightarrow> oauth_db \<Rightarrow> world \<Rightarrow> (exn + string) \<times> oauth_db \<times> world" where
  "connectUrlFor oe r nid i scopes db w =
     (let link = b64u oe (od_draws db) 24; (ow, w1) = ownerOf r w; drawn = db\<lparr>od_draws := od_draws db + 1\<rparr>
      in if map_of (od_connect db) link \<noteq> None then (Inl (JsError ''UNIQUE constraint failed: oauth_connect''), drawn, w1)
         else (Inr (publicBase oe @ ''/oauth/connect/'' @ link),
           drawn\<lparr>od_connect := od_connect db @ [(link, \<lparr>cn_run = run_id r, cn_node = nid, cn_subject = owner_key ow, cn_provider = i,
              cn_scopes = scopes, cn_bound = provider db i\<rparr>)]\<rparr>, w1))"

definition link_refusal :: "subject \<Rightarrow> connect_row option \<Rightarrow> world \<Rightarrow> exn option" where
  "link_refusal sb row w =
     (case row of None \<Rightarrow> Some (HostError ''not_found'' ''no such connect link'' None)
      | Some l \<Rightarrow>
        if cn_subject l \<noteq> subject_key sb then Some (HostError ''forbidden'' ''this connect link belongs to another Subject'' None)
        else if (case getRun (cn_run l) w of None \<Rightarrow> True | Some r \<Rightarrow> terminal_status (r_status r)) \<or> pendingInterruptForNode (cn_run l) (cn_node l) w = None
        then Some (HostError ''interrupt_already_resolved'' ''the credential interrupt this link belongs to is no longer open'' None)
        else None)"

definition connect :: "oauth_env \<Rightarrow> subject \<Rightarrow> string \<Rightarrow> oauth_db \<Rightarrow> world \<Rightarrow> (exn + string) \<times> oauth_db" where
  "connect oe sb link db w =
     (case link_refusal sb (map_of (od_connect db) link) w of Some e \<Rightarrow> (Inl e, db)
      | None \<Rightarrow> (let l = the (map_of (od_connect db) link) in
          beginGrant oe (w_clock w) sb (cn_provider l) (cn_scopes l) (Some link) (boundProvider db (cn_provider l) (cn_bound l)) db))"

section \<open>The callback\<close>

text \<open>A callback whose token request is out: what it sends, and what it will store under.\<close>

record exchange =
  ex_state :: string
  ex_row :: state_row
  ex_provider :: provider_row
  ex_form :: "(string \<times> string) list"
  ex_caller :: subject

definition bad_callback :: "string \<Rightarrow> string \<Rightarrow> exn" where
  "bad_callback m field = HostError ''validation_error'' m (Some (JObj [(''field'', JStr field)]))"

definition state_refusal :: "nat \<Rightarrow> subject \<Rightarrow> string \<Rightarrow> state_row option \<Rightarrow> exn option" where
  "state_refusal now sb i found =
     (case found of None \<Rightarrow> Some (bad_callback ''unknown state'' ''state'')
      | Some row \<Rightarrow>
        if os_provider row \<noteq> i then Some (bad_callback ''unknown state'' ''state'')
        else if os_consumed row then Some (bad_callback ''the state was already used'' ''state'')
        else if int now - int (os_created row) > int STATE_TTL_MS then Some (bad_callback ''the state expired'' ''state'')
        else if os_subject row \<noteq> subject_key sb
        then Some (HostError ''forbidden'' ''the callback is authenticated as a Subject other than the one that began the grant'' None)
        else None)"

definition spend_state :: "string \<Rightarrow> oauth_db \<Rightarrow> oauth_db" where
  "spend_state st db = db\<lparr>od_states := map (\<lambda>(k, row). if k = st then (k, row\<lparr>os_consumed := True\<rparr>) else (k, row)) (od_states db)\<rparr>"

definition issuer_refusal :: "provider_row \<Rightarrow> string option \<Rightarrow> exn option" where
  "issuer_refusal p iss =
     (case pr_issuer p of None \<Rightarrow> None
      | Some i \<Rightarrow>
        if iss \<noteq> None \<and> iss \<noteq> Some i then Some (bad_callback ''the authorization response names another issuer (RFC 9207)'' ''iss'')
        else if iss = None \<and> pr_iss_required p
        then Some (bad_callback ''the authorization response carries no iss, which this provider's metadata promises (RFC 9207)'' ''iss'')
        else None)"

definition exchange_form :: "state_row \<Rightarrow> provider_row \<Rightarrow> string \<Rightarrow> (string \<times> string) list" where
  "exchange_form row p code =
     [(''grant_type'', ''authorization_code''), (''code'', code), (''redirect_uri'', os_redirect row), (''client_id'', CLIENT_ID)]
     @ (case os_verifier row of None \<Rightarrow> [] | Some v \<Rightarrow> [(''code_verifier'', v)])
     @ (case pr_resource p of None \<Rightarrow> [] | Some r \<Rightarrow> [(''resource'', r)])"

text \<open>Once the state is spent: whose server the grant was sent to, what it answered, and the exchange.\<close>

definition judge_response :: "subject \<Rightarrow> string \<Rightarrow> string \<Rightarrow> state_row \<Rightarrow> (string \<times> string) list \<Rightarrow> oauth_db \<Rightarrow> exn + exchange" where
  "judge_response sb i st row q db =
     (case boundProvider db i (os_bound row) of None \<Rightarrow> Inl (HostError ''oauth_provider_unsupported'' (''provider '' @ i @ '' is not in oauth.providers'') None)
      | Some p \<Rightarrow>
        (case issuer_refusal p (map_of q ''iss'') of Some e \<Rightarrow> Inl e
         | None \<Rightarrow>
           if map_of q ''error'' \<noteq> None then Inl (bad_callback ''the provider refused the authorization'' ''error'')
           else case map_of q ''code'' of None \<Rightarrow> Inl (bad_callback ''the callback carries no code'' ''code'')
             | Some code \<Rightarrow> Inr \<lparr>ex_state = st, ex_row = row, ex_provider = p, ex_form = exchange_form row p code, ex_caller = sb\<rparr>))"

definition callback_begin :: "nat \<Rightarrow> subject \<Rightarrow> string \<Rightarrow> (string \<times> string) list \<Rightarrow> oauth_db \<Rightarrow> (exn + exchange) \<times> oauth_db" where
  "callback_begin now sb i q db =
     (case map_of q ''state'' of
        None \<Rightarrow> (Inl (bad_callback ''the callback carries no state'' ''state''), db)
      | Some st \<Rightarrow>
        if st = [] then (Inl (bad_callback ''the callback carries no state'' ''state''), db)
        else case state_refusal now sb i (map_of (od_states db) st) of Some e \<Rightarrow> (Inl e, db)
          | None \<Rightarrow> (let row = the (map_of (od_states db) st); db1 = spend_state st db in (judge_response sb i st row q db1, db1)))"

text \<open>\<open>new URLSearchParams(form).toString()\<close>, on UTF-8 bytes.\<close>

definition form_text :: "string \<Rightarrow> string" where
  "form_text s = concat (map (\<lambda>c. if ascii_alnum c \<or> c \<in> set ''*-._'' then [c] else if c = CHR '' '' then ''+'' else percent c) s)"

definition form_body :: "(string \<times> string) list \<Rightarrow> string" where
  "form_body form = join_with (CHR ''&'') (map (\<lambda>(k, v). form_text k @ ''='' @ form_text v) form)"

definition tokenRequest :: "oauth_env \<Rightarrow> provider_row \<Rightarrow> (string \<times> string) list \<Rightarrow> exn + json option" where
  "tokenRequest oe row form =
     (case validateEgressUrl (oe_net oe) (pr_token_url row) (oe_private oe) of Inl e \<Rightarrow> Inr None
      | Inr x \<Rightarrow>
         (case guardedRequest (oe_net oe) x \<lparr>ei_method = ''POST'',
             ei_headers = [(''Content-Type'', ''application/x-www-form-urlencoded''), (''Accept'', ''application/json'')],
             ei_body = Some (form_body form), ei_timeout = 5000, ei_private = oe_private oe, ei_max_body = None\<rparr> of
            Inl e \<Rightarrow> Inl e
          | Inr r \<Rightarrow> Inr (if eg_status r \<noteq> 200 then None else json_parse (eg_body r))))"

section \<open>Credentials\<close>

text \<open>
  The executor reads the credential table through \<open>w_creds\<close>: the columns it looks at, of the rows in
  this order.
\<close>

definition credential_view :: "(string \<times> string) \<times> oauth_credential \<Rightarrow> credential_row" where
  "credential_view kc = (case kc of ((key, i), c) \<Rightarrow>
     \<lparr>k_subject = key, k_provider = i, k_ref = oc_ref c, k_expires = nat (oc_expires c), k_scopes = oc_scopes c\<rparr>)"

definition publish_creds :: "oauth_db \<Rightarrow> world \<Rightarrow> world" where
  "publish_creds db w = w\<lparr>w_creds := map credential_view (od_creds db)\<rparr>"

definition number_or :: "int \<Rightarrow> json option \<Rightarrow> int" where
  "number_or d v = (case num_of v of Some n \<Rightarrow> n | None \<Rightarrow> d)"

definition granted_scopes :: "json \<Rightarrow> string list \<Rightarrow> string list" where
  "granted_scopes tokens asked = (case jfield tokens ''scope'' of
     Some (JStr s) \<Rightarrow> if s \<noteq> [] then split_on (CHR '' '') s else asked | _ \<Rightarrow> asked)"

text \<open>\<open>INSERT \<dots> ON CONFLICT DO UPDATE\<close>: a row that exists keeps its reference.\<close>

definition upsert_credential :: "string \<times> string \<Rightarrow> oauth_credential \<Rightarrow> oauth_db \<Rightarrow> oauth_db" where
  "upsert_credential k c db = db\<lparr>od_creds := AList.update k
     (case map_of (od_creds db) k of None \<Rightarrow> c | Some old \<Rightarrow> c\<lparr>oc_ref := oc_ref old\<rparr>) (od_creds db)\<rparr>"

definition refused_exchange :: exn where
  "refused_exchange = bad_callback ''the token endpoint refused the exchange'' ''code''"

text \<open>The connect link's interrupt is resolved by the host itself.\<close>

definition grant_done :: "host \<Rightarrow> connect_row \<Rightarrow> provider_row \<Rightarrow> string \<Rightarrow> string list \<Rightarrow> subject \<Rightarrow> world \<Rightarrow> exn option \<times> world" where
  "grant_done h l p ref scopes sb w =
     (case getRun (cn_run l) w of None \<Rightarrow> (None, w)
      | Some r \<Rightarrow> if terminal_status (r_status r) then (None, w)
          else (case appendEvent h r ''connector.authorized''
                  (JObj [(''provider'', JStr (pr_id p)), (''credentialRef'', JStr ref), (''scopes'', JArr (map JStr scopes))])
                  (on_node (cn_node l)) w of
              (Inl e, w1) \<Rightarrow> (Some e, w1)
            | (Inr d, w1) \<Rightarrow> (None, grantCompleted h (cn_run l) (cn_node l) sb w1)))"

definition earned_credential :: "exchange \<Rightarrow> json \<Rightarrow> string \<Rightarrow> string \<Rightarrow> nat \<Rightarrow> oauth_credential" where
  "earned_credential ex tokens access ref now =
     \<lparr>oc_ref = ref, oc_access = access, oc_refresh = str_of (jfield tokens ''refresh_token''),
      oc_expires = int now + number_or 3600 (jfield tokens ''expires_in'') * 1000,
      oc_scopes = granted_scopes tokens (os_scopes (ex_row ex)), oc_bound = Some (ex_provider ex)\<rparr>"

definition callback_finish :: "oauth_env \<Rightarrow> exchange \<Rightarrow> exn + json option \<Rightarrow> oauth_db \<Rightarrow> world \<Rightarrow> (exn + json) \<times> oauth_db \<times> world" where
  "callback_finish oe ex ans db w =
     (case ans of Inl e \<Rightarrow> (Inl e, db, w)
      | Inr None \<Rightarrow> (Inl refused_exchange, db, w)
      | Inr (Some tokens) \<Rightarrow>
        (case str_of (jfield tokens ''access_token'') of
           Some access \<Rightarrow>
             (let row = ex_row ex; p = ex_provider ex; key = (os_subject row, pr_id p);
                  (ref, w1) = (case map_of (od_creds db) key of Some c \<Rightarrow> (oc_ref c, w)
                     | None \<Rightarrow> (''cred_'' @ h_opaque (oe_host oe) (w_rng w), w\<lparr>w_rng := Suc (w_rng w)\<rparr>));
                  c = earned_credential ex tokens access ref (w_clock w);
                  db1 = upsert_credential key c db; w2 = publish_creds db1 w1;
                  reply = JObj [(''provider'', JStr (pr_id p)), (''credentialRef'', JStr ref)]
              in case Option.bind (os_connect row) (map_of (od_connect db1)) of
                   None \<Rightarrow> (Inr reply, db1, w2)
                 | Some l \<Rightarrow>
                    (let (thrown, w3) = grant_done (oe_host oe) l p ref (oc_scopes c) (ex_caller ex) w2
                     in (case thrown of Some e \<Rightarrow> Inl e | None \<Rightarrow> Inr reply, db1, w3)))
         | None \<Rightarrow> (Inl refused_exchange, db, w)))"

definition expireAccessToken :: "subject \<Rightarrow> string \<Rightarrow> oauth_db \<Rightarrow> bool \<times> oauth_db" where
  "expireAccessToken sb i db =
     (case map_of (od_creds db) (subject_key sb, i) of None \<Rightarrow> (False, db)
      | Some c \<Rightarrow> (True, db\<lparr>od_creds := AList.update (subject_key sb, i) (c\<lparr>oc_expires := 0\<rparr>) (od_creds db)\<rparr>))"

text \<open>What a node sees of its credential, before and after a refresh that has to be asked for.\<close>

datatype acquired = Resolved string | NeedsRefresh "string \<times> string" oauth_credential | NotResolved string "string option"

definition acquire_begin :: "nat \<Rightarrow> string \<Rightarrow> string \<Rightarrow> string list \<Rightarrow> oauth_db \<Rightarrow> acquired" where
  "acquire_begin now key i scopes db =
     (case map_of (od_creds db) (key, i) of None \<Rightarrow> NotResolved ''missing'' None
      | Some c \<Rightarrow> if \<not> list_all (\<lambda>s. s \<in> set (oc_scopes c)) scopes then NotResolved ''insufficient_scope'' (Some (oc_ref c))
          else if oc_expires c > int now then Resolved (oc_ref c) else NeedsRefresh (key, i) c)"

definition refresh_form :: "provider_row \<Rightarrow> string \<Rightarrow> (string \<times> string) list" where
  "refresh_form p tok = [(''grant_type'', ''refresh_token''), (''refresh_token'', tok), (''client_id'', CLIENT_ID)]
     @ (case pr_resource p of None \<Rightarrow> [] | Some r \<Rightarrow> [(''resource'', r)])"

definition refresh_request :: "oauth_env \<Rightarrow> string \<Rightarrow> oauth_credential \<Rightarrow> oauth_db \<Rightarrow> exn + json option" where
  "refresh_request oe i c db =
     (case (boundProvider db i (oc_bound c), oc_refresh c) of
        (Some p, Some tok) \<Rightarrow> tokenRequest oe p (refresh_form p tok)
      | _ \<Rightarrow> Inr None)"

definition refreshed_row :: "nat \<Rightarrow> json \<Rightarrow> string \<Rightarrow> oauth_credential \<Rightarrow> oauth_credential" where
  "refreshed_row now tokens access c = c\<lparr>oc_access := access, oc_expires := int now + number_or 3600 (jfield tokens ''expires_in'') * 1000,
     oc_refresh := (case str_of (jfield tokens ''refresh_token'') of Some t \<Rightarrow> Some t | None \<Rightarrow> oc_refresh c)\<rparr>"

definition acquire_finish :: "oauth_env \<Rightarrow> run_row \<Rightarrow> string \<Rightarrow> string \<times> string \<Rightarrow> oauth_credential \<Rightarrow> exn + json option \<Rightarrow> oauth_db \<Rightarrow> world
    \<Rightarrow> (exn + acquired) \<times> oauth_db \<times> world" where
  "acquire_finish oe r nid k c ans db w =
     (case ans of Inl e \<Rightarrow> (Inl e, db, w)
      | Inr tokens \<Rightarrow>
        (case Option.bind tokens (\<lambda>t. str_of (jfield t ''access_token'')) of
           Some access \<Rightarrow>
             (let db1 = db\<lparr>od_creds := map (\<lambda>(k', c'). if k' = k then (k', refreshed_row (w_clock w) (the tokens) access c') else (k', c')) (od_creds db)\<rparr>
              in (Inr (Resolved (oc_ref c)), db1, publish_creds db1 w))
         | None \<Rightarrow>
             (case appendEvent (oe_host oe) r ''connector.auth-expired''
                 (JObj [(''provider'', JStr (snd k)), (''credentialRef'', JStr (oc_ref c)), (''reason'', JStr ''refresh_token_revoked'')]) (on_node nid) w of
                (Inl e, w1) \<Rightarrow> (Inl e, db, w1)
              | (Inr d, w1) \<Rightarrow> (Inr (NotResolved ''expired'' (Some (oc_ref c))), db, w1))))"

text \<open>The whole of it, where nothing else happens while the refresh is asked for.\<close>

definition acquireForNode :: "oauth_env \<Rightarrow> run_row \<Rightarrow> string \<Rightarrow> string list \<Rightarrow> string \<Rightarrow> oauth_db \<Rightarrow> world \<Rightarrow> (exn + acquired) \<times> oauth_db \<times> world" where
  "acquireForNode oe r i scopes nid db w =
     (let (ow, w1) = ownerOf r w
      in case acquire_begin (w_clock w1) (owner_key ow) i scopes db of
           NeedsRefresh k c \<Rightarrow> acquire_finish oe r nid k c (refresh_request oe i c db) db w1
         | a \<Rightarrow> (Inr a, db, w1))"

section \<open>The client among its requests\<close>

record oauth_sys =
  oy_db :: oauth_db
  oy_world :: world
  oy_out :: "exchange list"

text \<open>
  One step is what runs between two awaits: a grant begun (for a seam or through a connect link), a
  callback up to its token request, a token answer arriving, a registration that settles its pin, a
  credential that expires or is refreshed, and any progress of the rest of the host.
\<close>

datatype oauth_op =
    Begins net_env subject string "string list" "provider_row option"
  | Connects net_env subject string
  | CallsBack subject string "(string \<times> string) list"
  | Answers nat net_env
  | Configures net_env string endpoints
  | Registers "(string \<times> json) list" string "string option" "exn + reach"
  | Links run_row string string "string list"
  | Expires subject string
  | Acquires net_env run_row string "string list" string
  | HostMoves "world \<Rightarrow> world"

definition with_db :: "oauth_sys \<Rightarrow> oauth_db \<Rightarrow> oauth_sys" where
  "with_db s db = s\<lparr>oy_db := db\<rparr>"

fun oauth_step :: "oauth_env \<Rightarrow> oauth_op \<Rightarrow> oauth_sys \<Rightarrow> string list \<times> oauth_sys" where
  "oauth_step oe (Begins ne sb i scopes configured) s =
     ([], with_db s (snd (beginGrant (oe\<lparr>oe_net := ne\<rparr>) (w_clock (oy_world s)) sb i scopes None configured (oy_db s))))"
| "oauth_step oe (Connects ne sb link) s = ([], with_db s (snd (connect (oe\<lparr>oe_net := ne\<rparr>) sb link (oy_db s) (oy_world s))))"
| "oauth_step oe (CallsBack sb i q) s =
     (case callback_begin (w_clock (oy_world s)) sb i q (oy_db s) of
        (Inl e, db) \<Rightarrow> ([], with_db s db)
      | (Inr ex, db) \<Rightarrow> ([ex_state ex], s\<lparr>oy_db := db, oy_out := oy_out s @ [ex]\<rparr>))"
| "oauth_step oe (Answers n ne) s =
     (if n \<ge> length (oy_out s) then ([], s)
      else (let ex = oy_out s ! n;
                (a, db, w) = callback_finish oe ex (tokenRequest (oe\<lparr>oe_net := ne\<rparr>) (ex_provider ex) (ex_form ex)) (oy_db s) (oy_world s)
            in ([], \<lparr>oy_db = db, oy_world = w, oy_out = take n (oy_out s) @ drop (Suc n) (oy_out s)\<rparr>)))"
| "oauth_step oe (Configures ne i v) s = ([], with_db s (snd (configureProvider (oe\<lparr>oe_net := ne\<rparr>) i v (oy_db s))))"
| "oauth_step oe (Registers pack i pinned t) s = ([], with_db s (snd (register_finish pack i pinned t (oy_db s))))"
| "oauth_step oe (Links r nid i scopes) s =
     (let (a, db, w) = connectUrlFor oe r nid i scopes (oy_db s) (oy_world s) in ([], s\<lparr>oy_db := db, oy_world := w\<rparr>))"
| "oauth_step oe (Expires sb i) s =
     (let (done, db) = expireAccessToken sb i (oy_db s) in ([], s\<lparr>oy_db := db, oy_world := publish_creds db (oy_world s)\<rparr>))"
| "oauth_step oe (Acquires ne r i scopes nid) s =
     (let (a, db, w) = acquireForNode (oe\<lparr>oe_net := ne\<rparr>) r i scopes nid (oy_db s) (oy_world s) in ([], s\<lparr>oy_db := db, oy_world := w\<rparr>))"
| "oauth_step oe (HostMoves f) s = ([], s\<lparr>oy_world := f (oy_world s)\<rparr>)"

end
