(* ===== verification/OAuth_Grants.thy ===== *)
theory OAuth_Grants
  imports OAuth Demo
begin

text \<open>
  What the OAuth client guarantees under every interleaving of its requests with the rest of the host:
  a \<open>state\<close> is exchanged at most once, a credential belongs to the Subject that began its grant and to
  the authorization server that grant was sent to, a response that names another server is refused
  before any token request, and discovery verifies the manifest without ever selecting an endpoint.
\<close>

section \<open>The grants in the store\<close>

definition state_of :: "oauth_db \<Rightarrow> string \<Rightarrow> state_row option" where
  "state_of db st = map_of (od_states db) st"

definition spent_state :: "oauth_sys \<Rightarrow> string \<Rightarrow> bool" where
  "spent_state s st \<longleftrightarrow> (case state_of (oy_db s) st of None \<Rightarrow> False | Some row \<Rightarrow> os_consumed row)"

text \<open>A grant keeps its row but for the mark that it was used, which is never taken back.\<close>

definition same_grant :: "state_row \<Rightarrow> state_row \<Rightarrow> bool" where
  "same_grant row row' \<longleftrightarrow> row'\<lparr>os_consumed := os_consumed row\<rparr> = row \<and> (os_consumed row \<longrightarrow> os_consumed row')"

definition keeps_grants :: "oauth_db \<Rightarrow> oauth_db \<Rightarrow> bool" where
  "keeps_grants db db' \<longleftrightarrow> (\<forall>st row. state_of db st = Some row \<longrightarrow> (\<exists>row'. state_of db' st = Some row' \<and> same_grant row row'))"

lemma same_grant_refl [simp]: "same_grant row row"
  by (simp add: same_grant_def)

lemma same_grant_fields:
  "same_grant row row' \<Longrightarrow> os_subject row' = os_subject row \<and> os_bound row' = os_bound row \<and> os_provider row' = os_provider row"
  by (cases row; cases row') (auto simp: same_grant_def)

lemma same_grant_trans: "same_grant a b \<Longrightarrow> same_grant b c \<Longrightarrow> same_grant a c"
  by (cases a; cases b; cases c) (auto simp: same_grant_def)

lemma keeps_grants_same [simp]: "od_states db' = od_states db \<Longrightarrow> keeps_grants db db'"
  by (simp add: keeps_grants_def state_of_def)

text \<open>Operations that do not touch the grants.\<close>

lemma other_states [simp]:
  "od_states (upsertProvider r db) = od_states db"
  "od_states (snd (configureProvider oe i v db)) = od_states db"
  "od_states (snd (register_finish pack i pinned t db)) = od_states db"
  "od_states (snd (expireAccessToken sb i db)) = od_states db"
  "od_states (upsert_credential k c db) = od_states db"
  "od_states (fst (snd (connectUrlFor oe rr nid i scopes db w))) = od_states db"
  "od_states (fst (snd (acquire_finish oe rr nid k oc ans db w))) = od_states db"
  by (auto simp: upsertProvider_def configureProvider_def register_finish_def expireAccessToken_def upsert_credential_def connectUrlFor_def
      acquire_finish_def Let_def split: option.splits sum.splits prod.splits json.splits)

lemma acquireForNode_states [simp]: "od_states (fst (snd (acquireForNode oe r i scopes nid db w))) = od_states db"
  by (auto simp: acquireForNode_def split: prod.splits acquired.split)

text \<open>A callback that was answered stores one credential or nothing.\<close>

lemma callback_finish_db:
  "fst (snd (callback_finish oe ex ans db w)) = db
   \<or> (\<exists>tokens access ref now. fst (snd (callback_finish oe ex ans db w))
        = upsert_credential (os_subject (ex_row ex), pr_id (ex_provider ex)) (earned_credential ex tokens access ref now) db)"
proof (cases "case ans of Inr (Some t) \<Rightarrow> str_of (jfield t ''access_token'') | _ \<Rightarrow> None")
  case None
  then show ?thesis by (auto simp: callback_finish_def split: sum.splits option.splits)
next
  case (Some access)
  then obtain tokens where "ans = Inr (Some tokens)" "str_of (jfield tokens ''access_token'') = Some access"
    by (auto split: sum.splits option.splits)
  then show ?thesis
    by (intro disjI2) (auto simp: callback_finish_def Let_def case_prod_beta split: option.split)
qed

lemma finish_states [simp]: "od_states (fst (snd (callback_finish oe ex ans db w))) = od_states db"
  using callback_finish_db [of oe ex ans db w] by auto

text \<open>A grant begun adds one fresh row or none.\<close>

definition adds_grant :: "subject \<Rightarrow> oauth_db \<Rightarrow> oauth_db \<Rightarrow> bool" where
  "adds_grant sb db db' \<longleftrightarrow> od_states db' = od_states db
     \<or> (\<exists>st row. od_states db' = od_states db @ [(st, row)] \<and> state_of db st = None
          \<and> \<not> os_consumed row \<and> os_subject row = subject_key sb \<and> (\<exists>p. os_bound row = Some p \<and> os_provider row = pr_id p))"

lemma beginGrant_adds: "adds_grant sb db (snd (beginGrant oe now sb i scopes link configured db))"
  by (auto simp: adds_grant_def beginGrant_def Let_def state_of_def split: option.splits sum.splits)

lemma connect_adds: "adds_grant sb db (snd (connect oe sb link db w))"
  by (simp add: connect_def Let_def beginGrant_adds adds_grant_def [of sb db db] split: option.split)

lemma adds_keeps: "adds_grant sb db db' \<Longrightarrow> keeps_grants db db'"
  by (auto simp: adds_grant_def keeps_grants_def state_of_def map_add_def intro: same_grant_refl)

lemma state_of_spend: "state_of (spend_state st db) k = map_option (\<lambda>row. if k = st then row\<lparr>os_consumed := True\<rparr> else row) (state_of db k)"
proof -
  have "map_of (map (\<lambda>(k, row). if k = st then (k, row\<lparr>os_consumed := True\<rparr>) else (k, row)) xs) k
      = map_option (\<lambda>row. if k = st then row\<lparr>os_consumed := True\<rparr> else row) (map_of xs k)" for xs :: "(string \<times> state_row) list"
    by (induction xs) auto
  then show ?thesis by (simp add: spend_state_def state_of_def)
qed

lemma keeps_grants_spend: "keeps_grants db (spend_state st db)"
  by (auto simp: keeps_grants_def state_of_spend same_grant_def)

lemma callback_begin_Inr:
  assumes "callback_begin now sb i q db = (Inr ex, db')"
  obtains row where "db' = spend_state (ex_state ex) db" "state_of db (ex_state ex) = Some row" "ex_row ex = row" "ex_caller ex = sb"
    "state_refusal now sb i (Some row) = None" "boundProvider db' i (os_bound row) = Some (ex_provider ex)"
    "issuer_refusal (ex_provider ex) (map_of q ''iss'') = None"
  using assms
  by (auto simp: callback_begin_def judge_response_def Let_def state_of_def state_refusal_def split: option.splits if_splits)

lemma callback_begin_Inl: "callback_begin now sb i q db = (Inl e, db') \<Longrightarrow> db' = db \<or> (\<exists>st. db' = spend_state st db)"
  by (auto simp: callback_begin_def Let_def split: option.splits if_splits)

lemma callback_keeps: "keeps_grants db (snd (callback_begin now sb i q db))"
proof (cases "callback_begin now sb i q db")
  case (Pair r db')
  then show ?thesis using callback_begin_Inl [of now sb i q db] keeps_grants_spend [of db]
    by (cases r) (auto elim!: callback_begin_Inr)
qed

lemma step_keeps: "keeps_grants (oy_db s) (oy_db (snd (oauth_step oe a s)))"
proof (cases a)
  case (CallsBack sb i q)
  then show ?thesis using callback_keeps [of "oy_db s" "w_clock (oy_world s)" sb i q]
    by (auto simp: with_db_def split: prod.split sum.split)
qed (auto simp: with_db_def Let_def case_prod_beta intro: adds_keeps beginGrant_adds connect_adds)

section \<open>A state is exchanged once\<close>

lemma keeps_spent: "keeps_grants (oy_db s) (oy_db s') \<Longrightarrow> spent_state s st \<Longrightarrow> spent_state s' st"
  by (fastforce simp: keeps_grants_def spent_state_def same_grant_def split: option.splits)

lemma step_fires:
  "fst (oauth_step oe a s) = [] \<or> (\<exists>st. fst (oauth_step oe a s) = [st] \<and> \<not> spent_state s st \<and> spent_state (snd (oauth_step oe a s)) st)"
proof (cases a)
  case (CallsBack sb i q)
  obtain r db where c: "callback_begin (w_clock (oy_world s)) sb i q (oy_db s) = (r, db)" by force
  show ?thesis
  proof (cases r)
    case (Inr ex)
    with c obtain row where "db = spend_state (ex_state ex) (oy_db s)" "state_of (oy_db s) (ex_state ex) = Some row"
      "state_refusal (w_clock (oy_world s)) sb i (Some row) = None"
      by (auto elim: callback_begin_Inr)
    then have "\<not> spent_state s (ex_state ex) \<and> spent_state (s\<lparr>oy_db := db, oy_out := oy_out s @ [ex]\<rparr>) (ex_state ex)"
      by (auto simp: spent_state_def state_of_spend state_refusal_def split: if_splits)
    then show ?thesis using c Inr CallsBack by simp
  qed (use c CallsBack in simp)
qed (simp_all add: Let_def case_prod_beta)

interpretation codes: one_shot "oauth_step oe" spent_state "\<lambda>_. True" for oe
proof
  fix s st and a :: oauth_op
  show "distinct (fst (oauth_step oe a s))" using step_fires [of oe a s] by auto
  assume "st \<in> set (fst (oauth_step oe a s))"
  then show "\<not> spent_state s st \<and> spent_state (snd (oauth_step oe a s)) st" using step_fires [of oe a s] by auto
next
  fix s st and a :: oauth_op
  assume "spent_state s st"
  then show "spent_state (snd (oauth_step oe a s)) st" by (rule keeps_spent [OF step_keeps])
qed simp

text \<open>
  C27: A \<open>state\<close> is exchanged at most once: under every interleaving of grants, callbacks, token answers and
  the rest of the host, no two token requests go out for one \<open>state\<close>, and none for a state that was
  spent before; afterwards each of them is spent.
\<close>

theorem state_is_exchanged_once:
  "distinct (fst (fired (oauth_step oe) ops s))
   \<and> (\<forall>st \<in> set (fst (fired (oauth_step oe) ops s)). \<not> spent_state s st \<and> spent_state (snd (fired (oauth_step oe) ops s)) st)"
  by (rule codes.fired_once) simp

section \<open>Whose credential it is\<close>

text \<open>
  \<open>completed db key i bound\<close>: a grant of the Subject \<open>key\<close>, sent to the server \<open>bound\<close> of
  provider \<open>i\<close>, was used.
\<close>

definition completed :: "oauth_db \<Rightarrow> string \<Rightarrow> string \<Rightarrow> provider_row option \<Rightarrow> bool" where
  "completed db key i bound \<longleftrightarrow> (\<exists>st row. state_of db st = Some row \<and> os_consumed row \<and> os_subject row = key
     \<and> os_provider row = i \<and> os_bound row = bound)"

definition grants_bound :: "oauth_db \<Rightarrow> bool" where
  "grants_bound db \<longleftrightarrow> (\<forall>st row. state_of db st = Some row \<longrightarrow> (\<exists>p. os_bound row = Some p \<and> os_provider row = pr_id p))"

definition exchange_bound :: "oauth_db \<Rightarrow> exchange \<Rightarrow> bool" where
  "exchange_bound db ex \<longleftrightarrow> os_subject (ex_row ex) = subject_key (ex_caller ex)
     \<and> completed db (os_subject (ex_row ex)) (pr_id (ex_provider ex)) (Some (ex_provider ex))"

definition credentials_bound :: "oauth_db \<Rightarrow> bool" where
  "credentials_bound db \<longleftrightarrow> (\<forall>key i c. map_of (od_creds db) (key, i) = Some c \<longrightarrow> completed db key i (oc_bound c))"

definition client_ok :: "oauth_sys \<Rightarrow> bool" where
  "client_ok s \<longleftrightarrow> grants_bound (oy_db s) \<and> (\<forall>ex \<in> set (oy_out s). exchange_bound (oy_db s) ex) \<and> credentials_bound (oy_db s)"

lemma completed_kept: "keeps_grants db db' \<Longrightarrow> completed db key i b \<Longrightarrow> completed db' key i b"
  unfolding completed_def keeps_grants_def by (fastforce dest: same_grant_fields simp: same_grant_def)

lemma grants_bound_spend: "grants_bound db \<Longrightarrow> grants_bound (spend_state st db)"
  by (auto simp: grants_bound_def state_of_spend split: if_splits)

lemma grants_bound_same: "od_states db' = od_states db \<Longrightarrow> grants_bound db' = grants_bound db"
  by (simp add: grants_bound_def state_of_def)

lemma grants_bound_adds: "adds_grant sb db db' \<Longrightarrow> grants_bound db \<Longrightarrow> grants_bound db'"
  by (auto simp: adds_grant_def grants_bound_def state_of_def map_add_def split: option.splits if_splits)

text \<open>What each operation does to the credentials.\<close>

lemma other_creds [simp]:
  "od_creds (upsertProvider r db) = od_creds db"
  "od_creds (snd (configureProvider oe i v db)) = od_creds db"
  "od_creds (snd (register_finish pack i pinned t db)) = od_creds db"
  "od_creds (fst (snd (connectUrlFor oe rr nid i scopes db w))) = od_creds db"
  "od_creds (spend_state st db) = od_creds db"
  "od_creds (snd (beginGrant oe now sb i scopes link configured db)) = od_creds db"
  "od_creds (snd (connect oe sb l db w)) = od_creds db"
  by (auto simp: upsertProvider_def configureProvider_def register_finish_def connectUrlFor_def spend_state_def connect_def beginGrant_def
      Let_def split: option.splits sum.splits prod.splits)

definition creds_from :: "oauth_db \<Rightarrow> oauth_db \<Rightarrow> bool" where
  "creds_from db db' \<longleftrightarrow> (\<forall>k c'. map_of (od_creds db') k = Some c' \<longrightarrow> (\<exists>c. map_of (od_creds db) k = Some c \<and> oc_bound c' = oc_bound c))"

lemma creds_from_same [simp]: "od_creds db' = od_creds db \<Longrightarrow> creds_from db db'"
  by (simp add: creds_from_def)

lemma credentials_kept:
  assumes "keeps_grants db db'" "creds_from db db'" "credentials_bound db"
  shows "credentials_bound db'"
  unfolding credentials_bound_def
proof (intro allI impI)
  fix key i c'
  assume "map_of (od_creds db') (key, i) = Some c'"
  with assms(2) obtain c where "map_of (od_creds db) (key, i) = Some c" "oc_bound c' = oc_bound c"
    unfolding creds_from_def by blast
  moreover from this(1) assms(3) have "completed db key i (oc_bound c)" by (simp add: credentials_bound_def)
  ultimately show "completed db' key i (oc_bound c')" using completed_kept [OF assms(1)] by simp
qed

lemma expire_creds: "creds_from db (snd (expireAccessToken sb i db))"
  by (auto simp: creds_from_def expireAccessToken_def split: option.split)

lemma map_of_replace: "map_of (map (\<lambda>(k', c'). if k' = k then (k', f c') else (k', c')) xs) l = (if l = k then map_option f (map_of xs l) else map_of xs l)"
  by (induction xs) auto

lemma acquire_finish_creds: "creds_from db (fst (snd (acquire_finish oe r nid k c ans db w)))"
proof (cases ans)
  case (Inr tokens)
  show ?thesis
  proof (cases "Option.bind tokens (\<lambda>t. str_of (jfield t ''access_token''))")
    case None
    then have "fst (snd (acquire_finish oe r nid k c ans db w)) = db"
      by (simp add: acquire_finish_def Inr split: prod.split sum.split)
    then show ?thesis by simp
  next
    case (Some access)
    then have f: "od_creds (fst (snd (acquire_finish oe r nid k c ans db w)))
        = map (\<lambda>(k', c'). if k' = k then (k', refreshed_row (w_clock w) (the tokens) access c') else (k', c')) (od_creds db)"
      by (simp add: acquire_finish_def Inr Let_def)
    show ?thesis
      unfolding creds_from_def f map_of_replace by (auto simp: refreshed_row_def)
  qed
qed (simp add: acquire_finish_def)

lemma acquire_creds: "creds_from db (fst (snd (acquireForNode oe r i scopes nid db w)))"
  by (auto simp: acquireForNode_def case_prod_beta acquire_finish_creds split: acquired.split)

lemma finish_creds:
  assumes "map_of (od_creds (fst (snd (callback_finish oe ex ans db w)))) k = Some c"
  shows "map_of (od_creds db) k = Some c \<or> k = (os_subject (ex_row ex), pr_id (ex_provider ex)) \<and> oc_bound c = Some (ex_provider ex)"
  using callback_finish_db [of oe ex ans db w]
proof
  assume "\<exists>tokens access ref now. fst (snd (callback_finish oe ex ans db w))
        = upsert_credential (os_subject (ex_row ex), pr_id (ex_provider ex)) (earned_credential ex tokens access ref now) db"
  then obtain tokens access ref now where f: "fst (snd (callback_finish oe ex ans db w))
        = upsert_credential (os_subject (ex_row ex), pr_id (ex_provider ex)) (earned_credential ex tokens access ref now) db" by blast
  have "oc_bound (earned_credential ex tokens access ref now) = Some (ex_provider ex)" by (simp add: earned_credential_def)
  with assms f show ?thesis by (auto simp: upsert_credential_def split: if_splits option.splits)
qed (use assms in simp)

lemma exchange_kept: "keeps_grants db db' \<Longrightarrow> exchange_bound db ex \<Longrightarrow> exchange_bound db' ex"
  unfolding exchange_bound_def using completed_kept [of db db'] by blast

text \<open>An operation that adds at most one grant, and no credential, keeps the client's invariant.\<close>

lemma client_ok_kept:
  assumes "client_ok s" "keeps_grants (oy_db s) (oy_db s')" "creds_from (oy_db s) (oy_db s')" "grants_bound (oy_db s')"
    and "set (oy_out s') \<subseteq> set (oy_out s)"
  shows "client_ok s'"
  unfolding client_ok_def
proof (intro conjI ballI)
  show "exchange_bound (oy_db s') ex" if "ex \<in> set (oy_out s')" for ex
    using that assms(1,5) by (intro exchange_kept [OF assms(2)]) (auto simp: client_ok_def)
  show "credentials_bound (oy_db s')" using assms(1) by (intro credentials_kept [OF assms(2,3)]) (simp add: client_ok_def)
qed (rule assms(4))

lemma callback_ok:
  assumes "client_ok s" "callback_begin now sb i q (oy_db s) = (Inr ex, db)"
  shows "client_ok (s\<lparr>oy_db := db, oy_out := oy_out s @ [ex]\<rparr>)"
proof -
  from callback_begin_Inr [OF assms(2)] obtain row where row: "db = spend_state (ex_state ex) (oy_db s)"
    "state_of (oy_db s) (ex_state ex) = Some row" "ex_row ex = row" "ex_caller ex = sb"
    "state_refusal now sb i (Some row) = None" "boundProvider db i (os_bound row) = Some (ex_provider ex)" by blast
  have g: "grants_bound (oy_db s)" using assms(1) by (simp add: client_ok_def)
  with row(2) obtain p where p: "os_bound row = Some p" "os_provider row = pr_id p" by (auto simp: grants_bound_def)
  with row(6) have ex: "ex_provider ex = p" by (simp add: boundProvider_def)
  from row(5) have sub: "os_subject row = subject_key sb" by (auto simp: state_refusal_def split: if_splits)
  have "state_of db (ex_state ex) = Some (row\<lparr>os_consumed := True\<rparr>)" using row(1,2) by (simp add: state_of_spend)
  then have "completed db (os_subject row) (pr_id p) (Some p)" unfolding completed_def using p by fastforce
  then have "exchange_bound db ex" using row(3,4) sub ex by (simp add: exchange_bound_def)
  moreover have keeps: "keeps_grants (oy_db s) db" unfolding row(1) by (rule keeps_grants_spend)
  moreover have "grants_bound db" unfolding row(1) by (rule grants_bound_spend [OF g])
  moreover have "creds_from (oy_db s) db" unfolding row(1) by simp
  ultimately show ?thesis using client_ok_kept [OF assms(1), of "s\<lparr>oy_db := db\<rparr>"] by (simp add: client_ok_def)
qed

lemma answer_ok:
  assumes "client_ok s" "n < length (oy_out s)"
    and "callback_finish oe (oy_out s ! n) ans (oy_db s) (oy_world s) = (a, db, w)"
  shows "client_ok \<lparr>oy_db = db, oy_world = w, oy_out = take n (oy_out s) @ drop (Suc n) (oy_out s)\<rparr>"
proof -
  let ?ex = "oy_out s ! n"
  have db: "db = fst (snd (callback_finish oe ?ex ans (oy_db s) (oy_world s)))" using assms(3) by simp
  have states: "od_states db = od_states (oy_db s)" unfolding db by simp
  then have keeps: "keeps_grants (oy_db s) db" by simp
  have "exchange_bound (oy_db s) ?ex" using assms(1,2) by (simp add: client_ok_def)
  then have "completed db (os_subject (ex_row ?ex)) (pr_id (ex_provider ?ex)) (Some (ex_provider ?ex))"
    unfolding exchange_bound_def using completed_kept [OF keeps] by blast
  moreover have "completed db key i (oc_bound c)" if "map_of (od_creds (oy_db s)) (key, i) = Some c" for key i c
    using that assms(1) by (intro completed_kept [OF keeps]) (simp add: client_ok_def credentials_bound_def)
  moreover have "map_of (od_creds (oy_db s)) k = Some c \<or> k = (os_subject (ex_row ?ex), pr_id (ex_provider ?ex)) \<and> oc_bound c = Some (ex_provider ?ex)"
    if "map_of (od_creds db) k = Some c" for k c
    using finish_creds [of oe ?ex ans "oy_db s" "oy_world s" k c] that unfolding db by simp
  ultimately have "credentials_bound db" unfolding credentials_bound_def by fastforce
  moreover have "set (take n (oy_out s) @ drop (Suc n) (oy_out s)) \<subseteq> set (oy_out s)"
    by (auto dest: in_set_takeD in_set_dropD)
  moreover have "exchange_bound db ex" if "ex \<in> set (oy_out s)" for ex
    using that assms(1) by (intro exchange_kept [OF keeps]) (simp add: client_ok_def)
  ultimately show ?thesis using assms(1) grants_bound_same [OF states] by (auto simp: client_ok_def)
qed

lemma quiet_step:
  assumes "\<And>sb i q. a \<noteq> CallsBack sb i q" "\<And>n ne. a \<noteq> Answers n ne"
  shows "creds_from (oy_db s) (oy_db (snd (oauth_step oe a s)))" "oy_out (snd (oauth_step oe a s)) = oy_out s"
    "grants_bound (oy_db s) \<Longrightarrow> grants_bound (oy_db (snd (oauth_step oe a s)))"
proof -
  show "creds_from (oy_db s) (oy_db (snd (oauth_step oe a s)))" "oy_out (snd (oauth_step oe a s)) = oy_out s"
    using assms by (cases a; simp add: with_db_def Let_def case_prod_beta expire_creds acquire_creds)+
  assume g: "grants_bound (oy_db s)"
  have "adds_grant sb (oy_db s) db \<Longrightarrow> grants_bound db" for sb db using g by (rule grants_bound_adds [rotated])
  moreover have "od_states db = od_states (oy_db s) \<Longrightarrow> grants_bound db" for db using grants_bound_same [of db "oy_db s"] g by simp
  ultimately show "grants_bound (oy_db (snd (oauth_step oe a s)))"
    using assms g beginGrant_adds connect_adds by (cases a; simp add: with_db_def Let_def case_prod_beta) metis+
qed

lemma quiet_ok:
  assumes "client_ok s" "\<And>sb i q. a \<noteq> CallsBack sb i q" "\<And>n ne. a \<noteq> Answers n ne"
  shows "client_ok (snd (oauth_step oe a s))"
proof (rule client_ok_kept [OF assms(1) step_keeps])
  show "grants_bound (oy_db (snd (oauth_step oe a s)))"
    using assms(1) by (intro quiet_step(3) [OF assms(2,3)]) (simp_all add: client_ok_def)
qed (simp_all add: quiet_step [OF assms(2,3)])

lemma step_ok: "client_ok s \<Longrightarrow> client_ok (snd (oauth_step oe a s))"
proof (cases a)
  case (CallsBack sb i q)
  assume ok: "client_ok s"
  obtain r db where c: "callback_begin (w_clock (oy_world s)) sb i q (oy_db s) = (r, db)" by force
  show ?thesis
  proof (cases r)
    case (Inl e)
    from c Inl have "db = oy_db s \<or> (\<exists>st. db = spend_state st (oy_db s))" by (auto dest: callback_begin_Inl)
    then have "keeps_grants (oy_db s) db" "creds_from (oy_db s) db" "grants_bound db"
      using ok by (auto simp: keeps_grants_spend client_ok_def grants_bound_spend)
    then show ?thesis using client_ok_kept [OF ok, of "with_db s db"] c Inl CallsBack by (simp add: with_db_def)
  next
    case (Inr ex)
    with callback_ok [OF ok] c CallsBack show ?thesis by simp
  qed
next
  case (Answers n ne)
  assume ok: "client_ok s"
  show ?thesis
  proof (cases "n < length (oy_out s)")
    case True
    obtain a' db w where f: "callback_finish oe (oy_out s ! n)
        (tokenRequest (oe\<lparr>oe_net := ne\<rparr>) (ex_provider (oy_out s ! n)) (ex_form (oy_out s ! n))) (oy_db s) (oy_world s) = (a', db, w)"
      by (metis prod.exhaust)
    from answer_ok [OF ok True f] show ?thesis using Answers True f by simp
  qed (use ok Answers in simp)
qed (simp_all only: quiet_ok oauth_op.distinct not_False_eq_True)

interpretation bound: one_shot "oauth_step oe" spent_state client_ok for oe
  by unfold_locales (simp_all add: codes.fires_fresh codes.fires_distinct codes.stays_spent step_ok)

text \<open>
  C28: A credential belongs to the Subject that earned it: from a store whose grants, credentials and
  exchanges are sound (the empty store is), under every interleaving, each credential stored under a Subject and a
  provider was obtained by a used grant that this very Subject began at this provider, and it is bound to
  the provider configuration the grant was sent to, so its refresh goes there too. The token
  request of every callback still waiting for its answer goes out for the Subject that authenticated it.
\<close>

theorem credential_follows_its_grant:
  assumes "client_ok s" "s' = snd (fired (oauth_step oe) ops s)"
  shows "(\<forall>key i c. map_of (od_creds (oy_db s')) (key, i) = Some c \<longrightarrow> completed (oy_db s') key i (oc_bound c))
    \<and> (\<forall>ex \<in> set (oy_out s'). os_subject (ex_row ex) = subject_key (ex_caller ex)
         \<and> completed (oy_db s') (subject_key (ex_caller ex)) (pr_id (ex_provider ex)) (Some (ex_provider ex)))"
proof -
  have "client_ok s'" unfolding assms(2) by (rule bound.sound_along [OF assms(1)])
  then show ?thesis by (auto simp: client_ok_def credentials_bound_def exchange_bound_def)
qed

section \<open>A response from another server\<close>


section \<open>Discovery verifies, it never selects\<close>

lemma str_of_Some [simp]: "str_of v = Some x \<longleftrightarrow> v = Some (JStr x)"
  by (cases v rule: str_of.cases) auto

lemma reach_fields_Inr:
  "reach_fields p = Inr (srv, iss, a, t) \<Longrightarrow> server_url p = Some (JStr srv) \<and> declared_issuer p = Some (JStr iss)
     \<and> declared_authorize p = Some (JStr a) \<and> declared_token p = Some (JStr t)"
  by (auto simp: reach_fields_def split: option.splits if_splits)

lemma server_verdict_Inr:
  assumes "server_verdict iss a t md = Inr b"
  obtains ps where "md = Some ps" "map_of ps ''issuer'' = Some (JStr iss)" "map_of ps ''authorization_endpoint'' = Some (JStr a)"
    "map_of ps ''token_endpoint'' = Some (JStr t)" "''S256'' \<in> set (text_list (map_of ps ''code_challenge_methods_supported''))"
proof (cases md)
  case None
  with assms show thesis by (simp add: server_verdict_def)
next
  case (Some ps)
  from assms show thesis unfolding server_verdict_def Some option.case
    by (intro that [OF Some]) (simp_all only: split: if_splits, simp_all)
qed

lemma verifyReach_Inr:
  assumes "verifyReach oe p = Inr t"
  obtains srv mu md where "reach_fields p = Inr (srv, rh_issuer t, rh_authorize t, rh_token t)" "canonicalResource oe srv = Inr (rh_resource t)"
    "asMetadataUrl oe (rh_issuer t) = Inr mu" "getJson oe mu = Inr md" "server_verdict (rh_issuer t) (rh_authorize t) (rh_token t) md = Inr (rh_iss_required t)"
  using assms by (auto simp: verifyReach_def and_then_Inr split: option.splits)

text \<open>What a registration pins: the row's own endpoints.\<close>

definition row_pinned :: "provider_row \<Rightarrow> bool" where
  "row_pinned r \<longleftrightarrow> (pr_source r = ''pack'' \<longrightarrow> (\<exists>res iss. pr_resource r = Some res \<and> pr_issuer r = Some iss
     \<and> pr_pin r = Some (json_stringify (JArr (map JStr [res, iss, pr_auth_url r, pr_token_url r])))))"

definition providers_pinned :: "oauth_db \<Rightarrow> bool" where
  "providers_pinned db \<longleftrightarrow> (\<forall>i r. map_of (od_providers db) i = Some r \<longrightarrow> row_pinned r)"

lemma provider_pinned: "providers_pinned db \<Longrightarrow> provider db i = Some r \<Longrightarrow> row_pinned r"
  by (auto simp: providers_pinned_def provider_def row_pinned_def catalog_row_def split: option.splits if_splits)

lemma register_pins: "providers_pinned db \<Longrightarrow> providers_pinned (snd (register_finish pack i pinned t db))"
  by (auto simp: register_finish_def upsertProvider_def providers_pinned_def row_pinned_def pin_tuple_def Let_def split: sum.split)

lemma configure_pins: "providers_pinned db \<Longrightarrow> providers_pinned (snd (configureProvider oe i v db))"
  by (auto simp: configureProvider_def upsertProvider_def providers_pinned_def row_pinned_def Let_def split: option.split sum.split)

lemma other_providers [simp]:
  "od_providers (spend_state st db) = od_providers db"
  "od_providers (upsert_credential k c db) = od_providers db"
  "od_providers (snd (expireAccessToken sb i db)) = od_providers db"
  "od_providers (fst (snd (connectUrlFor oe rr nid i scopes db w))) = od_providers db"
  "od_providers (snd (beginGrant oe now sb i scopes link configured db)) = od_providers db"
  "od_providers (snd (connect oe sb l db w)) = od_providers db"
  by (auto simp: spend_state_def upsert_credential_def expireAccessToken_def connectUrlFor_def connect_def beginGrant_def Let_def
      split: option.splits sum.splits prod.splits)

lemma finish_providers [simp]: "od_providers (fst (snd (callback_finish oe ex ans db w))) = od_providers db"
  using callback_finish_db [of oe ex ans db w] by auto

lemma callback_providers [simp]: "od_providers (snd (callback_begin now sb i q db)) = od_providers db"
  by (auto simp: callback_begin_def Let_def split: option.split)

lemma acquire_providers [simp]: "od_providers (fst (snd (acquireForNode oe r i scopes nid db w))) = od_providers db"
  by (auto simp: acquireForNode_def acquire_finish_def Let_def case_prod_beta split: acquired.split option.split sum.split)

lemma providers_pinned_same: "od_providers db' = od_providers db \<Longrightarrow> providers_pinned db \<Longrightarrow> providers_pinned db'"
  by (simp add: providers_pinned_def)

lemma step_pins: "providers_pinned (oy_db s) \<Longrightarrow> providers_pinned (oy_db (snd (oauth_step oe a s)))"
proof (cases a)
  case (CallsBack sb i q)
  assume "providers_pinned (oy_db s)"
  then have "providers_pinned (snd (callback_begin (w_clock (oy_world s)) sb i q (oy_db s)))"
    by (rule providers_pinned_same [rotated]) simp
  with CallsBack show ?thesis by (auto simp: with_db_def split: prod.split sum.split)
qed (auto simp: with_db_def Let_def case_prod_beta configure_pins register_pins elim: providers_pinned_same [rotated])

text \<open>
  Discovery verifies the manifest, it never selects an endpoint: a grant begun for a provider reached
  as an MCP server, after any interleaving with registrations and reconfigurations, goes to the authorization and token
  endpoints the registered manifest declares; the metadata its declared issuer serves at that moment names the
  issuer, exactly these endpoints, and S256.
\<close>

theorem discovery_never_selects:
  assumes "providers_pinned (oy_db s)" "s' = snd (fired (oauth_step oe) ops s)"
    and "provider (oy_db s') i = Some row" "pr_source row = ''pack''"
    and "fst (beginGrant oe now sb i scopes link None (oy_db s')) = Inr u"
  shows "\<exists>pack mu md. map_of (od_packs (oy_db s')) (pr_id row) = Some pack
    \<and> declared_authorize (jfield pack ''provider'') = Some (JStr (pr_auth_url row))
    \<and> declared_token (jfield pack ''provider'') = Some (JStr (pr_token_url row))
    \<and> (\<exists>iss. pr_issuer row = Some iss \<and> declared_issuer (jfield pack ''provider'') = Some (JStr iss) \<and> asMetadataUrl oe iss = Inr mu
         \<and> map_of md ''issuer'' = Some (JStr iss))
    \<and> getJson oe mu = Inr (Some md) \<and> map_of md ''authorization_endpoint'' = Some (JStr (pr_auth_url row))
    \<and> map_of md ''token_endpoint'' = Some (JStr (pr_token_url row))
    \<and> ''S256'' \<in> set (text_list (map_of md ''code_challenge_methods_supported''))"
proof -
  have "providers_pinned (oy_db s')"
    unfolding assms(2) using assms(1) by (induction ops arbitrary: s) (simp_all add: fired_state step_pins del: fired.simps(2))
  with assms(3,4) obtain res iss where row: "pr_issuer row = Some iss"
    "pr_pin row = Some (json_stringify (JArr (map JStr [res, iss, pr_auth_url row, pr_token_url row])))"
    by (auto dest!: provider_pinned simp: row_pinned_def)
  from assms(3,5) have "\<exists>r. recheckPin oe row (oy_db s') = Inr r"
    by (auto simp: beginGrant_def split: sum.splits)
  with assms(4) obtain pack t where t: "map_of (od_packs (oy_db s')) (pr_id row) = Some pack"
    "verifyReach oe (jfield pack ''provider'') = Inr t" "Some (pin_tuple t) = pr_pin row"
    by (auto simp: recheckPin_def and_then_Inr split: option.splits if_splits)
  from t(3) row(2) have "JArr (map JStr [rh_resource t, rh_issuer t, rh_authorize t, rh_token t])
      = JArr (map JStr [res, iss, pr_auth_url row, pr_token_url row])"
    unfolding pin_tuple_def json_stringify_inj [symmetric] by (simp only: option.inject)
  then have same: "rh_issuer t = iss" "rh_authorize t = pr_auth_url row" "rh_token t = pr_token_url row" by simp_all
  from verifyReach_Inr [OF t(2)] obtain srv mu md where v: "reach_fields (jfield pack ''provider'') = Inr (srv, iss, pr_auth_url row, pr_token_url row)"
    "asMetadataUrl oe iss = Inr mu" "getJson oe mu = Inr md" "server_verdict iss (pr_auth_url row) (pr_token_url row) md = Inr (rh_iss_required t)"
    unfolding same by blast
  from server_verdict_Inr [OF v(4)] reach_fields_Inr [OF v(1)] t(1) row(1) v(2,3) show ?thesis by auto
qed

text \<open>
  The pin is read before discovery and written after it: of two first registrations of one provider that
  overlap, the later one replaces the pin of the earlier, although \<open>registerReachProvider\<close>
  promises that a second registration keeps the first pin.
\<close>

lemma overlapping_registrations_repin:
  assumes "register_begin pack1 db = Inr (i, p1, None)" "register_begin pack2 db = Inr (i, p2, None)" "pin_tuple t1 \<noteq> pin_tuple t2"
    and "db1 = snd (register_finish pack1 i None (Inr t1) db)" "db2 = snd (register_finish pack2 i None (Inr t2) db1)"
  shows "map_option pr_pin (map_of (od_providers db1) i) = Some (Some (pin_tuple t1))
    \<and> map_option pr_pin (map_of (od_providers db2) i) = Some (Some (pin_tuple t2))"
  using assms(4,5) by (simp add: register_finish_def upsertProvider_def Let_def)

section \<open>Witnesses\<close>

definition demo_url :: "string \<Rightarrow> url" where
  "demo_url s = \<lparr>u_href = s, u_protocol = ''https:'', u_hostname = ''h'', u_host = ''h''\<rparr>"

definition serving :: "(string \<Rightarrow> json) \<Rightarrow> net_env" where
  "serving f = \<lparr>ne_isIP = (\<lambda>_. 0), ne_url = (\<lambda>s. Some (demo_url s)), ne_lookup = (\<lambda>_. Inr [''192.0.2.1'']),
     ne_send = (\<lambda>a u i. Inr (200, [json_stringify (f (u_href u))]))\<rparr>"

definition demo_metadata :: "string \<Rightarrow> json" where
  "demo_metadata u = (if u = ''https://m/.well-known/oauth-protected-resource''
     then JObj [(''resource'', JStr ''https://m''), (''authorization_servers'', JArr [JStr ''https://i''])]
     else if starts_with ''https://i'' u
     then JObj [(''issuer'', JStr ''https://i''), (''authorization_endpoint'', JStr ''https://i/a''), (''token_endpoint'', JStr ''https://i/t''),
       (''code_challenge_methods_supported'', JArr [JStr ''S256''])]
     else JObj [(''access_token'', JStr ''x'')])"

definition demo_oauth :: oauth_env where
  "demo_oauth = \<lparr>oe_host = demo_host, oe_net = serving demo_metadata, oe_private = True, oe_public_base = Some ''https://h'', oe_listen = [],
     oe_port = 0, oe_interrupt = True,
     oe_parts = (\<lambda>s. Some \<lparr>up_origin = s, up_protocol = take 6 s, up_host = drop 8 s, up_pathname = ''/'', up_search = []\<rparr>),
     oe_with_params = (\<lambda>u ps. Some u), oe_random = (\<lambda>d n. nat_string d)\<rparr>"

definition demo_user :: subject where
  "demo_user = \<lparr>sub_issuer = ''i'', sub_id = ''u'', sub_tenant = ''t'', sub_lane = ''api-key'', sub_kind = ''user''\<rparr>"

definition demo_client :: oauth_sys where
  "demo_client = \<lparr>oy_db = \<lparr>od_providers = [], od_packs = [], od_states = [], od_creds = [], od_connect = [], od_draws = 0\<rparr>,
     oy_world = demo_world [], oy_out = []\<rparr>"

definition demo_state :: string where "demo_state = b64u demo_oauth 0 32"

definition demo_grant :: "oauth_op list" where
  "demo_grant = [Begins (serving demo_metadata) demo_user ''synthetic'' [] None,
     CallsBack demo_user ''synthetic'' [(''state'', demo_state), (''code'', ''c'')]]"

definition demo_begun :: oauth_sys where
  "demo_begun = snd (oauth_step demo_oauth (hd demo_grant) demo_client)"

definition demo_called :: oauth_sys where
  "demo_called = snd (oauth_step demo_oauth (demo_grant ! 1) demo_begun)"

definition demo_row :: state_row where
  "demo_row = \<lparr>os_provider = ''synthetic'', os_subject = subject_key demo_user, os_verifier = Some (b64u demo_oauth 1 32),
     os_redirect = redirectUriFor demo_oauth ''synthetic'', os_scopes = [], os_created = 0, os_consumed = False, os_connect = None,
     os_bound = Some (catalog_row ''synthetic'')\<rparr>"

lemma demo_with_params: "oe_with_params demo_oauth u ps = Some u"
  by (simp add: demo_oauth_def)

lemma catalog_fields:
  "pr_id (catalog_row i) = i" "pr_issuer (catalog_row i) = None" "pr_source (catalog_row i) = ''catalog''" "pr_pkce (catalog_row i) = None"
  "pr_resource (catalog_row i) = None"
  by (simp_all add: catalog_row_def)

lemma other_net:
  "b64u (oe\<lparr>oe_net := ne\<rparr>) = b64u oe" "redirectUriFor (oe\<lparr>oe_net := ne\<rparr>) = redirectUriFor oe"
  by (auto simp: b64u_def redirectUriFor_def publicBase_def fun_eq_iff split: option.split)

lemma demo_begun_row: "od_states (oy_db demo_begun) = [(demo_state, demo_row)]" "oy_world demo_begun = demo_world []" "oy_out demo_begun = []"
  by (simp_all add: demo_begun_def demo_grant_def with_db_def beginGrant_def provider_def demo_client_def CATALOG_def recheckPin_def
      catalog_fields other_net demo_with_params Let_def demo_row_def demo_state_def demo_world_def)

definition demo_exchange :: exchange where
  "demo_exchange = \<lparr>ex_state = demo_state, ex_row = demo_row, ex_provider = catalog_row ''synthetic'',
     ex_form = exchange_form demo_row (catalog_row ''synthetic'') ''c'', ex_caller = demo_user\<rparr>"

lemma demo_steps:
  "oauth_step demo_oauth (hd demo_grant) demo_client = ([], demo_begun)"
  "oauth_step demo_oauth (demo_grant ! 1) demo_begun = ([demo_state], demo_called)" "oy_out demo_called = [demo_exchange]"
proof -
  show "oauth_step demo_oauth (hd demo_grant) demo_client = ([], demo_begun)" by (simp add: demo_begun_def demo_grant_def)
  have "demo_state \<noteq> []" by code_simp
  then have "callback_begin 0 demo_user ''synthetic'' [(''state'', demo_state), (''code'', ''c'')] (oy_db demo_begun)
      = (Inr demo_exchange, spend_state demo_state (oy_db demo_begun))"
    by (simp add: callback_begin_def demo_begun_row state_refusal_def demo_row_def judge_response_def boundProvider_def
        issuer_refusal_def catalog_fields demo_exchange_def STATE_TTL_MS_def Let_def)
  then show "oauth_step demo_oauth (demo_grant ! 1) demo_begun = ([demo_state], demo_called)" "oy_out demo_called = [demo_exchange]"
    by (simp_all add: demo_called_def demo_grant_def demo_begun_row demo_world_def demo_exchange_def)
qed

lemma demo_runs: "fired (oauth_step demo_oauth) (demo_grant @ ops) demo_client
   = (demo_state # fst (fired (oauth_step demo_oauth) ops demo_called), snd (fired (oauth_step demo_oauth) ops demo_called))"
proof -
  have g: "demo_grant = [hd demo_grant, demo_grant ! 1]" by (simp add: demo_grant_def)
  show ?thesis by (subst g) (simp add: demo_steps(1) demo_steps(2) [simplified] case_prod_beta del: oauth_step.simps)
qed

lemma state_is_exchanged_once_witness:
  "count_if (\<lambda>st. st = demo_state) (fst (fired (oauth_step demo_oauth) (demo_grant @ demo_grant) demo_client)) = 1"
proof -
  let ?f = "fst (fired (oauth_step demo_oauth) (demo_grant @ demo_grant) demo_client)"
  have f: "?f = demo_state # fst (fired (oauth_step demo_oauth) demo_grant demo_called)" by (simp add: demo_runs)
  have "distinct ?f" using state_is_exchanged_once by blast
  then have "filter (\<lambda>st. st = demo_state) (fst (fired (oauth_step demo_oauth) demo_grant demo_called)) = []"
    unfolding f by (auto simp: filter_empty_conv)
  then show ?thesis unfolding f by (simp add: count_if_def)
qed

lemma demo_client_ok: "client_ok demo_client"
  by (simp add: client_ok_def demo_client_def grants_bound_def credentials_bound_def state_of_def)

lemma demo_answer: "tokenRequest (demo_oauth\<lparr>oe_net := serving demo_metadata\<rparr>) (catalog_row ''synthetic'') form = Inr (Some (JObj [(''access_token'', JStr ''x'')]))"
proof -
  have "json_parse (json_stringify (JObj [(''access_token'', JStr ''x'')])) = Some (JObj [(''access_token'', JStr ''x'')])" by code_simp
  moreover have "demo_metadata ''https://oauth.synthetic.openwop.test/token'' = JObj [(''access_token'', JStr ''x'')]" by code_simp
  ultimately show ?thesis
    by (simp add: tokenRequest_def serving_def validateEgressUrl_def demo_oauth_def guardedRequest_def pinned_address_def demo_url_def
        collected_def catalog_row_def del: json_stringify.simps)
qed

lemma credential_follows_its_grant_witness:
  "let s = snd (fired (oauth_step demo_oauth) (demo_grant @ [Answers 0 (serving demo_metadata)]) demo_client)
   in \<exists>c. map_of (od_creds (oy_db s)) (subject_key demo_user, ''synthetic'') = Some c
     \<and> completed (oy_db s) (subject_key demo_user) ''synthetic'' (oc_bound c)"
proof -
  let ?s = "snd (fired (oauth_step demo_oauth) (demo_grant @ [Answers 0 (serving demo_metadata)]) demo_client)"
  have "map_of (od_creds (oy_db ?s)) (subject_key demo_user, ''synthetic'') \<noteq> None"
    by (simp add: demo_runs demo_steps(3) callback_finish_def demo_answer demo_exchange_def demo_row_def catalog_fields upsert_credential_def
        Let_def case_prod_beta)
  with credential_follows_its_grant [OF demo_client_ok refl, of demo_oauth "demo_grant @ [Answers 0 (serving demo_metadata)]"]
  show ?thesis unfolding Let_def by blast
qed


definition demo_connection :: "(string \<times> json) list" where
  "demo_connection = [(''kind'', JStr ''connection''), (''provider'', JObj [(''id'', JStr ''p''),
     (''reach'', JObj [(''mcp'', JObj [(''server'', JObj [(''url'', JStr ''https://m'')])])]),
     (''auth'', JObj [(''kind'', JStr ''oauth2''), (''issuer'', JStr ''https://i''),
        (''endpoints'', JObj [(''authorize'', JStr ''https://i/a''), (''token'', JStr ''https://i/t'')])])])]"

definition demo_reach :: reach where
  "demo_reach = \<lparr>rh_resource = ''https://m'', rh_issuer = ''https://i'', rh_authorize = ''https://i/a'', rh_token = ''https://i/t'',
     rh_iss_required = False\<rparr>"

lemma demo_verified: "verifyReach demo_oauth (map_of demo_connection ''provider'') = Inr demo_reach"
  by code_simp

definition demo_registers :: "oauth_op list" where
  "demo_registers = [Registers demo_connection ''p'' None (verifyReach demo_oauth (map_of demo_connection ''provider''))]"

lemma discovery_never_selects_witness:
  "\<exists>row. provider (oy_db (snd (fired (oauth_step demo_oauth) demo_registers demo_client))) ''p'' = Some row
     \<and> declared_authorize (map_of demo_connection ''provider'') = Some (JStr (pr_auth_url row))"
proof -
  let ?s = "snd (fired (oauth_step demo_oauth) demo_registers demo_client)"
  have packs: "map_of (od_packs (oy_db ?s)) ''p'' = Some (JObj demo_connection)"
    by (simp add: demo_registers_def with_db_def demo_verified register_finish_def Let_def)
  obtain row where row: "provider (oy_db ?s) ''p'' = Some row" "pr_source row = ''pack''" "pr_id row = ''p''" "pr_pin row = Some (pin_tuple demo_reach)"
    by (simp add: demo_registers_def with_db_def demo_verified register_finish_def Let_def upsertProvider_def provider_def)
  have "jfield (JObj demo_connection) ''provider'' = map_of demo_connection ''provider''" by simp
  with row packs have "recheckPin demo_oauth row (oy_db ?s) = Inr row" by (simp add: recheckPin_def demo_verified del: jfield.simps)
  moreover have "od_states (oy_db ?s) = []"
    by (simp add: demo_registers_def with_db_def demo_verified register_finish_def Let_def upsertProvider_def demo_client_def)
  ultimately obtain u where u: "fst (beginGrant demo_oauth 5 demo_user ''p'' [] None None (oy_db ?s)) = Inr u"
    by (simp add: beginGrant_def row(1) demo_with_params Let_def del: fired.simps)
  have p: "providers_pinned (oy_db demo_client)" by (simp add: providers_pinned_def demo_client_def)
  from discovery_never_selects [OF p refl row(1,2) u] row packs show ?thesis by auto
qed

end
