(* ===== verification/Packs.thy ===== *)
theory Packs
  imports Chains Webhooks
begin

text \<open>
  The pack catalog (\<open>packs.ts\<close>, the test catalog of \<open>seams.ts\<close>): the ustar reader, the engine range, the
  checks of a manifest, publication and deletion. Decompression, the schemas and the contract's
  declaration families are fields of the environment; bytes are characters.
\<close>

record pack_row =
  pk_catalog :: string
  pk_name :: string
  pk_version :: string
  pk_kind :: string
  pk_manifest :: json
  pk_tarball :: string
  pk_sha :: string
  pk_published :: nat

record pack_db =
  pd_chains :: chain_store
  pd_packs :: "pack_row list"

record pack_env =
  pe_host :: host
  pe_gunzip :: "string \<Rightarrow> string option"
  pe_families :: "string list"
  pe_aliases :: "string list"
  pe_validate :: "string \<Rightarrow> json \<Rightarrow> exn option"
  pe_depth :: nat

definition invalid_pack :: "string \<Rightarrow> string \<Rightarrow> exn" where
  "invalid_pack m reason = HostError ''pack_validation_failed'' m (Some (JObj [(''reason'', JStr reason)]))"

section \<open>Names, versions and ranges\<close>

definition lower_letter :: "char \<Rightarrow> bool" where
  "lower_letter c \<longleftrightarrow> 97 \<le> (of_char c :: nat) \<and> (of_char c :: nat) \<le> 122"

definition pack_part :: "(char \<Rightarrow> bool) \<Rightarrow> string \<Rightarrow> bool" where
  "pack_part p s = (case s of [] \<Rightarrow> False | c # r \<Rightarrow> lower_letter c \<and> list_all (\<lambda>d. p d \<or> is_digit d \<or> d = CHR ''_'' \<or> d = CHR ''-'') r)"

definition PACK_NAME :: "string \<Rightarrow> bool" where
  "PACK_NAME s = (case split_on (CHR ''.'') s of
     root # org # parts \<Rightarrow> root \<in> {''core'', ''vendor'', ''community'', ''private'', ''local''} \<and> pack_part lower_letter org
       \<and> parts \<noteq> [] \<and> list_all (pack_part ascii_alnum) parts
   | _ \<Rightarrow> False)"

definition version_number :: "string \<Rightarrow> bool" where
  "version_number s \<longleftrightarrow> s = ''0'' \<or> s \<noteq> [] \<and> list_all is_digit s \<and> hd s \<noteq> CHR ''0''"

definition version_tag :: "string \<Rightarrow> bool" where
  "version_tag s \<longleftrightarrow> s \<noteq> [] \<and> list_all (\<lambda>c. ascii_alnum c \<or> c \<in> set ''_.-'') s"

definition build_tag :: "string \<Rightarrow> bool" where
  "build_tag s = (case s of [] \<Rightarrow> True | c # r \<Rightarrow> c = CHR ''+'' \<and> version_tag r)"

definition SEMVER :: "string \<Rightarrow> bool" where
  "SEMVER s =
     (let stop = (\<lambda>c. c \<noteq> CHR ''-'' \<and> c \<noteq> CHR ''+''); numbers = split_on (CHR ''.'') (takeWhile stop s); rest = dropWhile stop s
      in length numbers = 3 \<and> list_all version_number numbers
        \<and> (case rest of c # r \<Rightarrow> if c = CHR ''-'' then version_tag (takeWhile (\<lambda>d. d \<noteq> CHR ''+'') r) \<and> build_tag (dropWhile (\<lambda>d. d \<noteq> CHR ''+'') r)
               else build_tag rest
           | [] \<Rightarrow> True))"

definition HATCH :: "string \<Rightarrow> bool" where
  "HATCH k \<longleftrightarrow> starts_with ''openwop-'' k \<or> starts_with ''x-'' k \<or> starts_with ''vendor.'' k"

definition KINDS :: "string list" where
  "KINDS = [''node'', ''prompt'', ''workflow-chain'', ''artifact-type'', ''chat-card'', ''connection'', ''form-content'', ''frontend-plugin'']"

text \<open>The digits \<open>\s*(\d+)\<close> at the front, with what follows them.\<close>

definition digits_after :: "string \<Rightarrow> (nat \<times> string) option" where
  "digits_after s = (let t = dropWhile js_space s; d = takeWhile is_digit t
     in if d = [] then None else Some (decimal_value d, dropWhile is_digit t))"

text \<open>\<open>/(?:^|\s)>=\s*(\d+)/\<close> at the front, then at the first place it matches.\<close>

definition lower_at :: "bool \<Rightarrow> string \<Rightarrow> nat option" where
  "lower_at start s =
     (let t = (if start \<and> starts_with ''>='' s then Some (drop 2 s)
        else case s of [] \<Rightarrow> None | c # r \<Rightarrow> if js_space c \<and> starts_with ''>='' r then Some (drop 2 r) else None)
      in map_option fst (Option.bind t digits_after))"

fun lower_bound :: "bool \<Rightarrow> string \<Rightarrow> nat option" where
  "lower_bound start [] = None"
| "lower_bound start (c # s) = (case lower_at start (c # s) of Some n \<Rightarrow> Some n | None \<Rightarrow> lower_bound False s)"

definition upper_at :: "bool \<Rightarrow> string \<Rightarrow> nat option" where
  "upper_at exact s = (case s of [] \<Rightarrow> None
     | c # r \<Rightarrow> if c \<noteq> CHR ''<'' then None
         else (case digits_after r of None \<Rightarrow> None | Some (n, rest) \<Rightarrow> if exact \<and> \<not> starts_with ''.0.0'' rest then None else Some n))"

fun upper_bound :: "bool \<Rightarrow> string \<Rightarrow> nat option" where
  "upper_bound exact [] = None"
| "upper_bound exact (c # s) = (case upper_at exact (c # s) of Some n \<Rightarrow> Some n | None \<Rightarrow> upper_bound exact s)"

definition rangeAdmitsMajor :: "string \<Rightarrow> nat \<Rightarrow> bool" where
  "rangeAdmitsMajor rng major =
     (let lowerMajor = (case lower_bound True rng of Some n \<Rightarrow> n | None \<Rightarrow> 0);
          ceiling = (case upper_bound True rng of Some n \<Rightarrow> n | None \<Rightarrow> (case upper_bound False rng of Some n \<Rightarrow> n | None \<Rightarrow> 2))
      in lowerMajor \<le> major \<and> major < ceiling)"

definition HOST_MAJOR :: nat where "HOST_MAJOR = 2"

section \<open>The archive\<close>

definition NUL :: char where "NUL = CHR 0x00"

text \<open>\<open>s.replace(/\0.*$/s, '')\<close>.\<close>

definition c_text :: "string \<Rightarrow> string" where
  "c_text s = takeWhile (\<lambda>c. c \<noteq> NUL) s"

definition octal_digit :: "char \<Rightarrow> bool" where
  "octal_digit c \<longleftrightarrow> 48 \<le> (of_char c :: nat) \<and> (of_char c :: nat) \<le> 55"

definition octal_value :: "string \<Rightarrow> nat" where
  "octal_value s = foldl (\<lambda>a c. a * 8 + (of_char c - 48)) 0 s"

text \<open>\<open>parseInt(s, 8)\<close>; \<open>None\<close> is \<open>NaN\<close>.\<close>

definition parse_octal :: "string \<Rightarrow> int option" where
  "parse_octal s =
     (let (neg, t) = (case dropWhile js_space s of [] \<Rightarrow> (False, []) | c # r \<Rightarrow> if c = CHR ''-'' then (True, r) else if c = CHR ''+'' then (False, r) else (False, c # r));
          d = takeWhile octal_digit t
      in if d = [] then None else Some (if neg then - int (octal_value d) else int (octal_value d)))"

definition header_size :: "string \<Rightarrow> int option" where
  "header_size header = (let s = js_trim (c_text (take 12 (drop 124 header))) in parse_octal (if s = [] then ''0'' else s))"

definition entry_name :: "string \<Rightarrow> string" where
  "entry_name header = (let name = c_text (take 100 header); prefix = c_text (take 155 (drop 345 header))
     in if prefix = [] then name else prefix @ ''/'' @ name)"

definition without_dot_slash :: "string \<Rightarrow> string" where
  "without_dot_slash s = (if starts_with ''./'' s then drop 2 s else s)"

definition padded :: "nat \<Rightarrow> nat" where
  "padded n = (n + 511) div 512 * 512"

function read_entries :: "string \<Rightarrow> exn + (string \<times> string) list" where
  "read_entries tar =
     (if length tar < 512 then Inr []
      else let header = take 512 tar in
        if list_all (\<lambda>c. c = NUL) header then Inr []
        else case header_size header of
            None \<Rightarrow> Inl (invalid_pack ''a tar header is malformed'' ''tarball_tar_parse_failed'')
          | Some n \<Rightarrow>
            if n < 0 then Inl (invalid_pack ''a tar header is malformed'' ''tarball_tar_parse_failed'')
            else let full = entry_name header in
              if ''..'' \<in> set (split_on (CHR ''/'') full) then Inl (invalid_pack ''a tar entry escapes the pack root'' ''tarball_path_traversal'')
              else map_sum id (\<lambda>rest. (if header ! 156 \<in> {CHR ''0'', NUL} then [(without_dot_slash full, take (nat n) (drop 512 tar))] else []) @ rest)
                     (read_entries (drop (512 + padded (nat n)) tar)))"
  by pat_completeness auto
termination
  by (relation "measure length") auto

declare read_entries.simps [simp del]

definition readTar :: "pack_env \<Rightarrow> string \<Rightarrow> exn + (string \<times> string) list" where
  "readTar pe tgz = (case pe_gunzip pe tgz of None \<Rightarrow> Inl (invalid_pack ''the tarball is not gzip'' ''tarball_gunzip_failed'')
     | Some tar \<Rightarrow> read_entries tar)"

section \<open>The manifest\<close>

fun stripHatch :: "json \<Rightarrow> json" and strip_all :: "json list \<Rightarrow> json list" and strip_members :: "(string \<times> json) list \<Rightarrow> (string \<times> json) list" where
  "stripHatch (JArr xs) = JArr (strip_all xs)"
| "stripHatch (JObj ps) = JObj (strip_members ps)"
| "stripHatch v = v"
| "strip_all [] = []"
| "strip_all (x # xs) = stripHatch x # strip_all xs"
| "strip_members [] = []"
| "strip_members ((k, v) # ps) = (if HATCH k then strip_members ps else (k, stripHatch v) # strip_members ps)"

definition naming_refusal :: "json \<Rightarrow> string \<Rightarrow> string \<Rightarrow> exn option" where
  "naming_refusal m name version =
     (if m = JNull then Some (JsError ''TypeError'')
      else if jfield m ''name'' \<noteq> Some (JStr name) then Some (invalid_pack ''manifest name does not match the URL'' ''manifest_name_mismatch'')
      else if jfield m ''version'' \<noteq> Some (JStr version) then Some (invalid_pack ''manifest version does not match the URL'' ''manifest_version_mismatch'')
      else case jfield m ''kind'' of
          Some (JStr k) \<Rightarrow> if k \<in> set KINDS then None
            else Some (HostError ''pack_kind_invalid'' (''kind '' @ k @ '' is not a pack kind'') (Some (JObj [(''kind'', JStr k)])))
        | _ \<Rightarrow> Some (HostError ''pack_kind_invalid'' (''`kind` is REQUIRED on every manifest (packs.md '' @ SECTION_SIGN @ ''Version manifests)'') None))"

definition engine_range :: "json \<Rightarrow> string" where
  "engine_range m = (case jfield m ''engines'' of
     Some v \<Rightarrow> (if is_object (Some v) then (case jfield v ''openwop'' of Some (JStr r) \<Rightarrow> r | _ \<Rightarrow> ''>=1.0.0'') else ''>=1.0.0'')
   | None \<Rightarrow> ''>=1.0.0'')"

definition engine_refusal :: "json \<Rightarrow> exn option" where
  "engine_refusal m =
     (let rng = engine_range m in
      if rangeAdmitsMajor rng HOST_MAJOR then None
      else Some (HostError ''pack_engine_unsupported'' (''engines.openwop '' @ json_stringify (JStr rng) @ '' does not admit protocol major 2''
        @ (if upper_bound False rng \<noteq> None then [] else '' (a range with no upper bound reads <2.0.0)''))
        (Some (JObj [(''range'', JStr rng), (''hostMajor'', JNum 2)]))))"

definition peer_refusal :: "pack_env \<Rightarrow> json \<Rightarrow> exn option" where
  "peer_refusal pe m = (case jfield m ''peerDependencies'' of
     None \<Rightarrow> None
   | Some (JObj ps) \<Rightarrow> map_option (\<lambda>k. HostError ''pack_peer_dependency_undefined''
         (''peerDependencies key '' @ k @ '' is not a spec/v2/declaration.json family nor an overlap alias'') (Some (JObj [(''key'', JStr k)])))
       (find (\<lambda>k. k \<notin> set (pe_families pe) \<and> k \<notin> set (pe_aliases pe)) (map fst ps))
   | _ \<Rightarrow> Some (HostError ''pack_validation_failed'' ''peerDependencies MUST be an object'' None))"

definition node_refusal :: "json \<Rightarrow> exn option" where
  "node_refusal m =
     (if \<not> is_object (jfield m ''runtime'') \<or> \<not> is_str (jget (jfield m ''runtime'') ''language'')
      then Some (invalid_pack ''a node pack MUST declare runtime.language'' ''invalid_manifest'')
      else case jfield m ''nodes'' of Some (JArr xs) \<Rightarrow> None | _ \<Rightarrow> Some (invalid_pack ''a node pack MUST declare nodes[]'' ''invalid_manifest''))"

definition bad_prompt :: "json \<Rightarrow> exn option" where
  "bad_prompt p = (if p = JNull then Some (JsError ''TypeError'')
     else if \<not> is_str (jfield p ''templateId'') \<or> \<not> is_str (jfield p ''version'')
     then Some (invalid_pack ''every prompt template names templateId + version'' ''invalid_manifest'') else None)"

definition prompt_refusal :: "json \<Rightarrow> exn option" where
  "prompt_refusal m = (case jfield m ''prompts'' of
     Some (JArr (x # xs)) \<Rightarrow> (case List.map_filter bad_prompt (x # xs) of [] \<Rightarrow> None | e # _ \<Rightarrow> Some e)
   | _ \<Rightarrow> Some (invalid_pack ''a prompt pack MUST declare prompts[] (minItems 1)'' ''invalid_manifest''))"

fun first_refused :: "exn option list \<Rightarrow> exn option" where
  "first_refused [] = None"
| "first_refused (Some e # xs) = Some e"
| "first_refused (None # xs) = first_refused xs"

definition label_of :: "string \<Rightarrow> string \<Rightarrow> string \<Rightarrow> string" where
  "label_of what name version = what @ '' pack '' @ name @ ''@'' @ version"

text \<open>
  The checks in the order of the code; a chain pack is registered on the way, so a later refusal would leave
  its chains. After its registration no later check applies to its kind.
\<close>

definition validateManifest :: "pack_env \<Rightarrow> json \<Rightarrow> string \<Rightarrow> string \<Rightarrow> chain_store \<Rightarrow> (exn + json) \<times> chain_store" where
  "validateManifest pe manifest name version cs =
     (let m = stripHatch manifest; k = text_of (jfield m ''kind'') in
      case first_refused [naming_refusal m name version, engine_refusal m, peer_refusal pe m, if k = ''node'' then node_refusal m else None] of
        Some e \<Rightarrow> (Inl e, cs)
      | None \<Rightarrow>
          (if k = ''workflow-chain''
           then (case first_refused [assertExactPins (members_of (Some m)), pe_validate pe ''workflow-chain-pack-manifest'' m] of
               Some e \<Rightarrow> (Inl e, cs)
             | None \<Rightarrow> (case registerChainPack (pe_host pe) (pe_depth pe) (members_of (Some m)) cs of
                  (Inl e, cs1) \<Rightarrow> (Inl e, cs1) | (Inr r, cs1) \<Rightarrow> (Inr m, cs1)))
           else (case first_refused [if k = ''form-content'' then pe_validate pe ''form-content-pack-manifest'' m else None,
                   if k = ''prompt'' then prompt_refusal m else None] of
               Some e \<Rightarrow> (Inl e, cs) | None \<Rightarrow> (Inr m, cs))))"

section \<open>The catalog\<close>

definition pack_at :: "string \<Rightarrow> string \<Rightarrow> string \<Rightarrow> pack_row \<Rightarrow> bool" where
  "pack_at cat name version p \<longleftrightarrow> pk_catalog p = cat \<and> pk_name p = name \<and> pk_version p = version"

definition getPack :: "string \<Rightarrow> string \<Rightarrow> string \<Rightarrow> pack_db \<Rightarrow> pack_row option" where
  "getPack cat name version db = find (pack_at cat name version) (pd_packs db)"

definition insertPack :: "pack_row \<Rightarrow> pack_db \<Rightarrow> pack_db option" where
  "insertPack row db = (if getPack (pk_catalog row) (pk_name row) (pk_version row) db \<noteq> None then None
     else Some (db\<lparr>pd_packs := pd_packs db @ [row]\<rparr>))"

definition deletePack :: "string \<Rightarrow> string \<Rightarrow> string \<Rightarrow> pack_db \<Rightarrow> bool \<times> pack_db" where
  "deletePack cat name version db = (getPack cat name version db \<noteq> None,
     db\<lparr>pd_packs := filter (\<lambda>p. \<not> pack_at cat name version p) (pd_packs db)\<rparr>)"

definition listPacks :: "string \<Rightarrow> pack_db \<Rightarrow> pack_row list" where
  "listPacks cat db = sort_key (\<lambda>p. (pk_name p, pk_version p)) (filter (\<lambda>p. pk_catalog p = cat) (pd_packs db))"

definition pack_record :: "host \<Rightarrow> pack_row \<Rightarrow> json" where
  "pack_record h row = JObj [(''name'', JStr (pk_name row)), (''version'', JStr (pk_version row)), (''tarballSha256'', JStr (pk_sha row)),
     (''publishedAt'', JStr (h_iso h (pk_published row))), (''signed'', JBool False), (''signingMethod'', JStr ''none'')]"

definition installedPacks :: "host \<Rightarrow> string \<Rightarrow> pack_db \<Rightarrow> json" where
  "installedPacks h cat db = JObj [(''packs'', JArr (map (\<lambda>p. JObj [(''name'', JStr (pk_name p)), (''version'', JStr (pk_version p)),
     (''kind'', JStr (pk_kind p)), (''tarballSha256'', JStr (pk_sha p)), (''publishedAt'', JStr (h_iso h (pk_published p)))]) (listPacks cat db)))]"

definition pack_sha :: "host \<Rightarrow> string \<Rightarrow> string" where
  "pack_sha h tgz = ''sha256-'' @ base64_std (h_sha256 h tgz)"

definition upload_refusal :: "host \<Rightarrow> string \<Rightarrow> string \<Rightarrow> string \<Rightarrow> string option \<Rightarrow> exn option" where
  "upload_refusal h name version tgz asserted =
     (if \<not> PACK_NAME name then Some (invalid_pack ''pack name is outside the reverse-DNS grammar'' ''invalid_pack_name'')
      else if \<not> SEMVER version then Some (invalid_pack ''version is not SemVer 2.0.0'' ''invalid_version'')
      else if length tgz = 0 then Some (invalid_pack ''empty body'' ''invalid_body'')
      else if length tgz > 8 * 1024 * 1024 then Some (invalid_pack ''tarball exceeds 8 MiB'' ''tarball_too_large'')
      else case asserted of None \<Rightarrow> None
        | Some s \<Rightarrow> if s = pack_sha h tgz then None
            else Some (HostError ''pack_integrity_failure'' ''the asserted OpenWOP-Pack-Sha256 does not match the uploaded bytes''
              (Some (JObj [(''asserted'', JStr s), (''computed'', JStr (pack_sha h tgz))]))))"

definition is_pack_json :: "string \<Rightarrow> bool" where
  "is_pack_json n \<longleftrightarrow> n = ''pack.json'' \<or> ends_with ''/pack.json'' n"

definition manifest_of :: "pack_env \<Rightarrow> string \<Rightarrow> exn + json" where
  "manifest_of pe tgz = and_then (readTar pe tgz) (\<lambda>entries.
     case find (\<lambda>e. is_pack_json (fst e)) entries of
       None \<Rightarrow> Inl (invalid_pack ''pack.json is missing from the tarball root'' ''tarball_manifest_missing'')
     | Some e \<Rightarrow> (case json_parse (snd e) of None \<Rightarrow> Inl (invalid_pack ''pack.json is not JSON'' ''tarball_manifest_not_json'') | Some m \<Rightarrow> Inr m))"

definition publishTestPack :: "pack_env \<Rightarrow> nat \<Rightarrow> string \<Rightarrow> string \<Rightarrow> string \<Rightarrow> string option \<Rightarrow> pack_db \<Rightarrow> (exn + nat \<times> json) \<times> pack_db" where
  "publishTestPack pe now name version tgz asserted db =
     (let h = pe_host pe; sha = pack_sha h tgz in
      case upload_refusal h name version tgz asserted of Some e \<Rightarrow> (Inl e, db)
      | None \<Rightarrow>
        (case getPack ''test'' name version db of
           Some old \<Rightarrow> if pk_sha old = sha then (Inr (200, pack_record h old), db)
             else (Inl (HostError ''version_conflict'' (name @ ''@'' @ version @ '' is already published with different content'') None), db)
         | None \<Rightarrow>
           (case manifest_of pe tgz of Inl e \<Rightarrow> (Inl e, db)
            | Inr manifest \<Rightarrow>
              (case validateManifest pe manifest name version (pd_chains db) of
                 (Inl e, cs) \<Rightarrow> (Inl e, db\<lparr>pd_chains := cs\<rparr>)
               | (Inr m, cs) \<Rightarrow>
                 (let row = \<lparr>pk_catalog = ''test'', pk_name = name, pk_version = version, pk_kind = text_of (jfield m ''kind''),
                        pk_manifest = manifest, pk_tarball = tgz, pk_sha = sha, pk_published = now\<rparr>; db1 = db\<lparr>pd_chains := cs\<rparr>
                  in case insertPack row db1 of None \<Rightarrow> (Inl (JsError ''UNIQUE constraint failed: packs''), db1)
                     | Some db2 \<Rightarrow> (Inr (201, pack_record h row), db2))))))"

definition packGet :: "string \<Rightarrow> string \<Rightarrow> pack_db \<Rightarrow> exn + string \<times> string" where
  "packGet name version db = (case getPack ''test'' name version db of
     None \<Rightarrow> Inl (HostError ''pack_version_not_found'' ''no such test-catalog version'' None)
   | Some p \<Rightarrow> Inr (pk_tarball p, pk_sha p))"

definition packDelete :: "string \<Rightarrow> string \<Rightarrow> pack_db \<Rightarrow> (exn + unit) \<times> pack_db" where
  "packDelete name version db =
     (let db1 = (case getPack ''test'' name version db of None \<Rightarrow> db
            | Some row \<Rightarrow> if pk_kind row = ''workflow-chain''
                then db\<lparr>pd_chains := unregisterChainPack (members_of (Some (pk_manifest row))) (pd_chains db)\<rparr> else db);
          (found, db2) = deletePack ''test'' name version db1
      in (if found then Inr () else Inl (HostError ''pack_version_not_found'' ''no such test-catalog version'' None), db2))"

end
