(* ===== verification/Pack_Catalog.thy ===== *)
theory Pack_Catalog
  imports Packs
begin

text \<open>
  What the pack catalog guarantees: the archive reader gives back what a ustar writer stored and nothing
  outside the pack's root, every stored pack is the one its name, version and digest say, and a published
  version never changes.
\<close>

section \<open>The archive reader and a writer\<close>

fun octal_text :: "nat \<Rightarrow> nat \<Rightarrow> string" where
  "octal_text 0 n = []"
| "octal_text (Suc w) n = octal_text w (n div 8) @ [digit_char (n mod 8)]"

lemma length_octal_text [simp]: "length (octal_text w n) = w"
  by (induction w n rule: octal_text.induct) auto

lemma octal_digit_char: "d < 8 \<Longrightarrow> of_char (digit_char d) = 48 + d" "d < 8 \<Longrightarrow> octal_digit (digit_char d)"
proof -
  assume "d < 8"
  then show "of_char (digit_char d) = 48 + d" by (simp add: digit_char_def of_char_of)
  with \<open>d < 8\<close> show "octal_digit (digit_char d)" by (simp add: octal_digit_def digit_char_def of_char_of)
qed

lemma octal_text_digits: "list_all octal_digit (octal_text w n)"
  by (induction w n rule: octal_text.induct) (auto simp: octal_digit_char)

lemma octal_value_text: "n < 8 ^ w \<Longrightarrow> octal_value (octal_text w n) = n"
proof (induction w n rule: octal_text.induct)
  case (2 w n)
  then have "octal_value (octal_text w (n div 8)) = n div 8" by (simp add: less_mult_imp_div_less mult.commute)
  then show ?case by (simp add: octal_value_def octal_digit_char)
qed (simp add: octal_value_def)

lemma octal_not: "octal_digit c \<Longrightarrow> \<not> js_space c \<and> c \<noteq> NUL \<and> c \<noteq> CHR ''-'' \<and> c \<noteq> CHR ''+''"
  by (auto simp: octal_digit_def js_space_def NUL_def)

lemma js_trim_solid: "list_all (\<lambda>c. \<not> js_space c) s \<Longrightarrow> js_trim s = s"
proof -
  have keep: "list_all (\<lambda>c. \<not> js_space c) t \<Longrightarrow> dropWhile js_space t = t" for t by (cases t) auto
  assume "list_all (\<lambda>c. \<not> js_space c) s"
  with keep [of s] keep [of "rev s"] show ?thesis by (simp add: js_trim_def)
qed

lemma c_text_padded: "NUL \<notin> set s \<Longrightarrow> c_text (s @ replicate k NUL) = s"
  by (induction s) (auto simp: c_text_def takeWhile_replicate)

lemma parse_octal_text: "w > 0 \<Longrightarrow> n < 8 ^ w \<Longrightarrow> parse_octal (octal_text w n) = Some (int n)"
proof -
  assume w: "w > 0" "n < 8 ^ w"
  have d: "list_all octal_digit (octal_text w n)" by (rule octal_text_digits)
  have ne: "octal_text w n \<noteq> []" using w by (metis length_0_conv length_octal_text less_numeral_extra(3))
  then obtain c r where cr: "octal_text w n = c # r" by (cases "octal_text w n") auto
  with d octal_not have c: "\<not> js_space c" "c \<noteq> CHR ''-''" "c \<noteq> CHR ''+''" by auto
  have "takeWhile octal_digit (c # r) = c # r" using d cr by (simp add: takeWhile_eq_all_conv list_all_iff)
  then show ?thesis using c cr octal_value_text [OF w(2)] by (simp add: parse_octal_def)
qed

text \<open>
  A ustar block as any writer lays it out: the fields the reader does not look at are arbitrary bytes of
  their widths.
\<close>

record tar_fill =
  tf_owner :: string
  tf_stamp :: string
  tf_link :: string
  tf_end :: string

definition fill_ok :: "tar_fill \<Rightarrow> bool" where
  "fill_ok f \<longleftrightarrow> length (tf_owner f) = 24 \<and> length (tf_stamp f) = 20 \<and> length (tf_link f) = 188 \<and> length (tf_end f) = 12"

definition tar_header :: "tar_fill \<Rightarrow> string \<Rightarrow> nat \<Rightarrow> string" where
  "tar_header f name n = name @ replicate (100 - length name) NUL @ tf_owner f @ octal_text 11 n @ [NUL] @ tf_stamp f @ ''0'' @ tf_link f
     @ replicate 155 NUL @ tf_end f"

definition tar_block :: "tar_fill \<times> string \<times> string \<Rightarrow> string" where
  "tar_block e = (case e of (f, name, content) \<Rightarrow> tar_header f name (length content) @ content @ replicate (padded (length content) - length content) NUL)"

definition storable :: "tar_fill \<times> string \<times> string \<Rightarrow> bool" where
  "storable e = (case e of (f, name, content) \<Rightarrow> fill_ok f \<and> name \<noteq> [] \<and> length name \<le> 100 \<and> NUL \<notin> set name
     \<and> ''..'' \<notin> set (split_on (CHR ''/'') name) \<and> length content < 8 ^ 11)"

lemma le_padded: "n \<le> padded n"
  unfolding padded_def using div_mult_mod_eq [of "n + 511" 512] mod_less_divisor [of 512 "n + 511"] by linarith

lemma header_fields:
  assumes "fill_ok f" "length name \<le> 100" "NUL \<notin> set name" "n < 8 ^ 11"
  shows "length (tar_header f name n) = 512" "entry_name (tar_header f name n) = name" "header_size (tar_header f name n) = Some (int n)"
    "tar_header f name n ! 156 = CHR ''0''"
proof -
  let ?a = "name @ replicate (100 - length name) NUL" and ?o = "octal_text 11 n @ [NUL]"
  have len: "length ?a = 100" using assms(2) by simp
  have h: "tar_header f name n = ?a @ tf_owner f @ ?o @ tf_stamp f @ ''0'' @ tf_link f @ replicate 155 NUL @ tf_end f"
    by (simp add: tar_header_def)
  note l = assms(1) [unfolded fill_ok_def]
  show "length (tar_header f name n) = 512" unfolding h using l len by simp
  have "take 100 (tar_header f name n) = ?a" unfolding h using len by simp
  moreover have "take 155 (drop 345 (tar_header f name n)) = replicate 155 NUL" unfolding h using l len by simp
  ultimately show "entry_name (tar_header f name n) = name"
    using c_text_padded [OF assms(3)] c_text_padded [of "[]" 155] by (simp add: entry_name_def)
  have "take 12 (drop 124 (tar_header f name n)) = octal_text 11 n @ replicate 1 NUL" unfolding h using l len by simp
  moreover have nul: "NUL \<notin> set (octal_text 11 n)" using octal_text_digits [of 11 n] octal_not by (auto simp: list_all_iff)
  ultimately have s: "c_text (take 12 (drop 124 (tar_header f name n))) = octal_text 11 n" by (simp only: c_text_padded [OF nul])
  have "js_trim (octal_text 11 n) = octal_text 11 n"
    using octal_text_digits [of 11 n] octal_not by (intro js_trim_solid) (auto simp: list_all_iff)
  moreover have "octal_text 11 n \<noteq> []" by (metis length_0_conv length_octal_text zero_neq_numeral)
  ultimately show "header_size (tar_header f name n) = Some (int n)"
    using parse_octal_text [of 11 n] assms(4) by (simp add: header_size_def s Let_def)
  have "drop 156 (tar_header f name n) = CHR ''0'' # tf_link f @ replicate 155 NUL @ tf_end f" unfolding h using l len by simp
  then show "tar_header f name n ! 156 = CHR ''0''" by (metis list.sel(1) hd_drop_conv_nth drop_eq_Nil leI list.distinct(1))
qed

lemma read_block:
  assumes "storable (f, name, content)"
  shows "read_entries (tar_block (f, name, content) @ rest) = map_sum id ((#) (without_dot_slash name, content)) (read_entries rest)"
proof -
  let ?h = "tar_header f name (length content)" and ?p = "replicate (padded (length content) - length content) NUL"
  note s = assms [unfolded storable_def prod.case]
  have hf: "length ?h = 512" "entry_name ?h = name" "header_size ?h = Some (int (length content))" "?h ! 156 = CHR ''0''"
    using header_fields [of f name "length content"] s by auto
  have tar: "tar_block (f, name, content) @ rest = ?h @ content @ ?p @ rest" by (simp add: tar_block_def)
  have zero: "\<not> list_all (\<lambda>c. c = NUL) ?h"
    using hf(1,4) by (auto simp: list_all_length NUL_def intro!: exI [of _ 156])
  have one: "(@) [x] = (#) x" for x :: "string \<times> string" by (rule ext) simp
  have "drop (512 + padded (length content)) (?h @ content @ ?p @ rest) = rest"
    using hf(1) le_padded [of "length content"] by simp
  then show ?thesis
    unfolding tar using hf zero s by (subst read_entries.simps) (simp add: Let_def one)
qed

text \<open>
  C30: The reader is the inverse of a ustar writer: of an archive of regular files, whatever their owner, time and
  link fields hold and whatever follows the end mark, it answers exactly their names and contents in order.
\<close>

theorem archive_reads_back:
  assumes "list_all storable es" "pe_gunzip pe tgz = Some (concat (map tar_block es) @ replicate 512 NUL @ tail)"
  shows "readTar pe tgz = Inr (map (\<lambda>(f, name, content). (without_dot_slash name, content)) es)"
proof -
  have "read_entries (concat (map tar_block es) @ replicate 512 NUL @ tail) = Inr (map (\<lambda>(f, name, content). (without_dot_slash name, content)) es)"
    using assms(1)
  proof (induction es)
    case Nil
    show ?case by (subst read_entries.simps) (simp add: Let_def list_all_iff)
  next
    case (Cons e es)
    then show ?case by (cases e) (simp add: read_block)
  qed
  with assms(2) show ?thesis by (simp add: readTar_def)
qed

section \<open>Nothing outside the root\<close>

lemma split_dot_slash: "set (split_on (CHR ''/'') (drop 2 s)) \<subseteq> set (split_on (CHR ''/'') s)" if "starts_with ''./'' s"
proof -
  have "take 2 s = ''./''" using that by (simp add: starts_with_def numeral_2_eq_2)
  then obtain x where "s = ''./'' @ x" by (metis append_take_drop_id)
  then show ?thesis by (auto split: list.split)
qed

text \<open>One round of the reader.\<close>

lemma read_entries_Inr:
  assumes "read_entries tar = Inr es"
  obtains "es = []"
  | k rest where "\<not> length tar < 512" "\<not> list_all (\<lambda>c. c = NUL) (take 512 tar)" "header_size (take 512 tar) = Some k" "\<not> k < 0"
      "''..'' \<notin> set (split_on (CHR ''/'') (entry_name (take 512 tar)))" "read_entries (drop (512 + padded (nat k)) tar) = Inr rest"
      "set es \<subseteq> insert (without_dot_slash (entry_name (take 512 tar)), take (nat k) (drop 512 tar)) (set rest)"
proof (cases "length tar < 512 \<or> list_all (\<lambda>c. c = NUL) (take 512 tar)")
  case True
  moreover have "length tar < 512 \<Longrightarrow> read_entries tar = Inr []" by (subst read_entries.simps) (simp only: if_True)
  moreover have "\<not> length tar < 512 \<Longrightarrow> list_all (\<lambda>c. c = NUL) (take 512 tar) \<Longrightarrow> read_entries tar = Inr []"
    by (subst read_entries.simps) (simp only: if_True if_False Let_def)
  ultimately have "read_entries tar = Inr []" by blast
  with assms show thesis by (intro that(1)) simp
next
  case False
  note r = assms [unfolded read_entries.simps [of tar] Let_def]
  from False r obtain k where k: "header_size (take 512 tar) = Some k" "\<not> k < 0"
    by (cases "header_size (take 512 tar)") (auto split: if_splits)
  from False r k have dots: "''..'' \<notin> set (split_on (CHR ''/'') (entry_name (take 512 tar)))" by (auto split: if_splits)
  from False r k dots obtain rest where "read_entries (drop (512 + padded (nat k)) tar) = Inr rest"
    "es = (if take 512 tar ! 156 \<in> {CHR ''0'', NUL} then [(without_dot_slash (entry_name (take 512 tar)), take (nat k) (drop 512 tar))] else []) @ rest"
    by (cases "read_entries (drop (512 + padded (nat k)) tar)") auto
  with False k dots show thesis by (intro that(2)) auto
qed

lemma read_entries_inside:
  "read_entries tar = Inr es \<Longrightarrow> (n, content) \<in> set es \<Longrightarrow> ''..'' \<notin> set (split_on (CHR ''/'') n)"
proof (induction tar arbitrary: es rule: measure_induct_rule [where f = length])
  case (less tar)
  from less.prems(1) show ?case
  proof (cases rule: read_entries_Inr)
    case (2 k rest)
    have "length (drop (512 + padded (nat k)) tar) < length tar" using 2(1) by simp
    from less.IH [OF this 2(6)] have "(n, content) \<in> set rest \<Longrightarrow> ''..'' \<notin> set (split_on (CHR ''/'') n)" .
    moreover have "''..'' \<notin> set (split_on (CHR ''/'') (without_dot_slash (entry_name (take 512 tar))))"
      using 2(5) split_dot_slash [of "entry_name (take 512 tar)"] by (auto simp: without_dot_slash_def)
    ultimately show ?thesis using less.prems(2) 2(7) by auto
  qed (use less.prems(2) in simp)
qed

text \<open>No entry the reader answers names a parent directory, so no name leads out of the pack's root.\<close>

theorem archive_stays_inside:
  assumes "readTar pe tgz = Inr es" "(n, content) \<in> set es"
  shows "''..'' \<notin> set (split_on (CHR ''/'') n)"
  using assms read_entries_inside by (auto simp: readTar_def split: option.splits)

section \<open>A published version\<close>

datatype catalog_op = Publishes nat string string string "string option" | Deletes string string

fun catalog_step :: "pack_env \<Rightarrow> catalog_op \<Rightarrow> pack_db \<Rightarrow> pack_db" where
  "catalog_step pe (Publishes now name version tgz asserted) db = snd (publishTestPack pe now name version tgz asserted db)"
| "catalog_step pe (Deletes name version) db = snd (packDelete name version db)"

text \<open>What the store says of a row is what its bytes say.\<close>

definition row_sound :: "pack_env \<Rightarrow> pack_row \<Rightarrow> bool" where
  "row_sound pe p \<longleftrightarrow> pk_catalog p = ''test'' \<and> PACK_NAME (pk_name p) \<and> SEMVER (pk_version p)
     \<and> pk_sha p = pack_sha (pe_host pe) (pk_tarball p) \<and> length (pk_tarball p) \<le> 8 * 1024 * 1024
     \<and> manifest_of pe (pk_tarball p) = Inr (pk_manifest p)
     \<and> jfield (stripHatch (pk_manifest p)) ''name'' = Some (JStr (pk_name p))
     \<and> jfield (stripHatch (pk_manifest p)) ''version'' = Some (JStr (pk_version p))
     \<and> jfield (stripHatch (pk_manifest p)) ''kind'' = Some (JStr (pk_kind p)) \<and> pk_kind p \<in> set KINDS
     \<and> rangeAdmitsMajor (engine_range (stripHatch (pk_manifest p))) HOST_MAJOR"

definition catalog_ok :: "pack_env \<Rightarrow> pack_db \<Rightarrow> bool" where
  "catalog_ok pe db \<longleftrightarrow> (\<forall>p \<in> set (pd_packs db). row_sound pe p)
     \<and> distinct (map (\<lambda>p. (pk_catalog p, pk_name p, pk_version p)) (pd_packs db))"

lemma first_refused_None: "first_refused xs = None \<longleftrightarrow> (\<forall>x \<in> set xs. x = None)"
  by (induction xs rule: first_refused.induct) auto

lemma naming_None:
  "naming_refusal m name version = None \<Longrightarrow> jfield m ''name'' = Some (JStr name) \<and> jfield m ''version'' = Some (JStr version)
     \<and> (\<exists>k \<in> set KINDS. jfield m ''kind'' = Some (JStr k))"
  by (auto simp: naming_refusal_def split: if_splits option.splits json.splits)

lemma validateManifest_Inr:
  assumes "validateManifest pe manifest name version cs = (Inr m, cs')"
  shows "m = stripHatch manifest \<and> naming_refusal m name version = None \<and> engine_refusal m = None"
  using assms by (auto simp: validateManifest_def Let_def first_refused_None split: option.splits prod.splits sum.splits if_splits)

lemma upload_None:
  "upload_refusal h name version tgz asserted = None \<Longrightarrow> PACK_NAME name \<and> SEMVER version \<and> length tgz \<le> 8 * 1024 * 1024"
  by (auto simp: upload_refusal_def split: if_splits)

text \<open>What a publication does to the table: nothing, or one sound row under a free name and version.\<close>

lemma publish_adds:
  assumes "publishTestPack pe now name version tgz asserted db = (r, db')"
  shows "pd_packs db' = pd_packs db
    \<or> (\<exists>row. pd_packs db' = pd_packs db @ [row] \<and> row_sound pe row \<and> getPack ''test'' name version db = None \<and> pk_name row = name \<and> pk_version row = version)"
proof -
  consider (same) "pd_packs db' = pd_packs db"
    | (new) manifest m cs where "upload_refusal (pe_host pe) name version tgz asserted = None" "getPack ''test'' name version db = None"
        "manifest_of pe tgz = Inr manifest" "validateManifest pe manifest name version (pd_chains db) = (Inr m, cs)"
        "pd_packs db' = pd_packs db @ [\<lparr>pk_catalog = ''test'', pk_name = name, pk_version = version, pk_kind = text_of (jfield m ''kind''),
           pk_manifest = manifest, pk_tarball = tgz, pk_sha = pack_sha (pe_host pe) tgz, pk_published = now\<rparr>]"
    using assms by (auto simp: publishTestPack_def insertPack_def Let_def getPack_def split: option.splits sum.splits prod.splits if_splits)
  then show ?thesis
  proof cases
    case (new manifest m cs)
    from validateManifest_Inr [OF new(4)] have m: "m = stripHatch manifest" "naming_refusal m name version = None" "engine_refusal m = None" by auto
    from naming_None [OF m(2)] obtain k where "jfield m ''name'' = Some (JStr name)" "jfield m ''version'' = Some (JStr version)"
      "k \<in> set KINDS" "jfield m ''kind'' = Some (JStr k)" by auto
    moreover have "rangeAdmitsMajor (engine_range m) HOST_MAJOR" using m(3) by (auto simp: engine_refusal_def Let_def split: if_splits)
    ultimately show ?thesis using new(2,3,5) upload_None [OF new(1)] m(1) by (auto simp: row_sound_def text_of_def)
  qed simp
qed

lemma getPack_found: "getPack cat name version db = Some row \<Longrightarrow> row \<in> set (pd_packs db) \<and> pack_at cat name version row"
  by (auto simp: getPack_def find_Some_iff)

lemma publish_ok: "catalog_ok pe db \<Longrightarrow> catalog_ok pe (snd (publishTestPack pe now name version tgz asserted db))"
proof -
  assume ok: "catalog_ok pe db"
  obtain r db' where p: "publishTestPack pe now name version tgz asserted db = (r, db')" by force
  from publish_adds [OF p] show ?thesis
  proof
    assume "pd_packs db' = pd_packs db"
    with ok p show ?thesis by (simp add: catalog_ok_def)
  next
    assume "\<exists>row. pd_packs db' = pd_packs db @ [row] \<and> row_sound pe row \<and> getPack ''test'' name version db = None \<and> pk_name row = name \<and> pk_version row = version"
    then obtain row where row: "pd_packs db' = pd_packs db @ [row]" "row_sound pe row" "getPack ''test'' name version db = None"
      "pk_name row = name" "pk_version row = version" by blast
    then have "(''test'', name, version) \<notin> (\<lambda>p. (pk_catalog p, pk_name p, pk_version p)) ` set (pd_packs db)"
      by (auto simp: getPack_def find_None_iff pack_at_def)
    moreover have "pk_catalog row = ''test''" using row(2) by (simp add: row_sound_def)
    ultimately show ?thesis using ok p row by (simp add: catalog_ok_def ball_Un)
  qed
qed

lemma delete_packs: "pd_packs (snd (packDelete name version db)) = filter (\<lambda>p. \<not> pack_at ''test'' name version p) (pd_packs db)"
  by (simp add: packDelete_def deletePack_def Let_def split: option.split)

lemma catalog_step_ok: "catalog_ok pe db \<Longrightarrow> catalog_ok pe (catalog_step pe a db)"
proof (cases a)
  case (Deletes name version)
  assume "catalog_ok pe db"
  with Deletes show ?thesis by (auto simp: catalog_ok_def delete_packs distinct_map intro: inj_on_subset)
qed (simp add: publish_ok)

text \<open>
  C31: The catalog says what its bytes say: under any sequence of publications and deletions, every stored pack
  has a grammatical name and version that its own manifest states, the digest of its bytes, the manifest
  its archive holds, a known kind, and an engine range that admits this host; and no name and version is stored twice.
\<close>

theorem catalog_is_sound:
  assumes "catalog_ok pe db"
  shows "catalog_ok pe (fold (catalog_step pe) ops db)"
  using assms by (induction ops arbitrary: db) (simp_all add: catalog_step_ok)

lemma step_keeps_row:
  assumes "getPack ''test'' name version db = Some row" "a \<noteq> Deletes name version"
  shows "getPack ''test'' name version (catalog_step pe a db) = Some row"
proof (cases a)
  case (Publishes now n v tgz asserted)
  obtain r db' where p: "publishTestPack pe now n v tgz asserted db = (r, db')" by force
  from publish_adds [OF p] assms(1) show ?thesis
    unfolding Publishes catalog_step.simps p by (auto simp: getPack_def find_append)
next
  case (Deletes n v)
  have kept: "find P (filter Q xs) = Some x" if "find P xs = Some x" "\<And>y. P y \<Longrightarrow> Q y" for P Q and xs :: "pack_row list" and x
    using that by (induction xs) (auto split: if_splits)
  have "find (pack_at ''test'' name version) (filter (\<lambda>p. \<not> pack_at ''test'' n v p) (pd_packs db)) = Some row"
    by (rule kept) (use assms Deletes in \<open>auto simp: getPack_def pack_at_def\<close>)
  then show ?thesis by (simp add: Deletes getPack_def delete_packs)
qed

text \<open>
  C32: A published version is final: until it is deleted, no publication of any name, version or bytes changes
  its row; publishing the same bytes again answers 200 with the stored record, other bytes answer a conflict,
  and neither changes anything.
\<close>

theorem published_version_is_final:
  assumes "getPack ''test'' name version db = Some row" "Deletes name version \<notin> set ops" "db' = fold (catalog_step pe) ops db"
  shows "getPack ''test'' name version db' = Some row
    \<and> (upload_refusal (pe_host pe) name version tgz asserted = None \<longrightarrow>
        (if pack_sha (pe_host pe) tgz = pk_sha row then publishTestPack pe now name version tgz asserted db' = (Inr (200, pack_record (pe_host pe) row), db')
         else \<exists>e. publishTestPack pe now name version tgz asserted db' = (Inl e, db') \<and> exn_code e = ''version_conflict''))"
proof -
  have "getPack ''test'' name version db' = Some row"
    unfolding assms(3) using assms(1,2)
  proof (induction ops arbitrary: db)
    case (Cons a ops)
    then show ?case using step_keeps_row [OF Cons.prems(1), of a pe] by auto
  qed simp
  then show ?thesis by (auto simp: publishTestPack_def Let_def)
qed

section \<open>Witnesses\<close>

definition demo_fill :: tar_fill where
  "demo_fill = \<lparr>tf_owner = replicate 24 NUL, tf_stamp = replicate 20 NUL, tf_link = replicate 188 NUL, tf_end = replicate 12 NUL\<rparr>"

definition demo_manifest :: json where
  "demo_manifest = JObj [(''name'', JStr ''local.a.b''), (''version'', JStr ''1.0.0''), (''kind'', JStr ''chat-card''),
     (''engines'', JObj [(''openwop'', JStr ''>=1.0.0 <3.0.0'')])]"

definition demo_archive :: "(tar_fill \<times> string \<times> string) list" where
  "demo_archive = [(demo_fill, ''./pack.json'', json_stringify demo_manifest)]"

definition demo_packs :: pack_env where
  "demo_packs = \<lparr>pe_host = chains_host, pe_gunzip = (\<lambda>s. if s = ''z'' then Some (concat (map tar_block demo_archive) @ replicate 512 NUL) else None),
     pe_families = [], pe_aliases = [], pe_validate = (\<lambda>_ _. None), pe_depth = 8\<rparr>"

lemma demo_storable: "list_all storable demo_archive"
proof -
  have "length (json_stringify demo_manifest) < 8 ^ 11" by (simp add: demo_manifest_def quote_string_def esc_char_def)
  then show ?thesis by (simp add: demo_archive_def storable_def fill_ok_def demo_fill_def NUL_def)
qed

lemma archive_reads_back_witness: "readTar demo_packs ''z'' = Inr [(''pack.json'', json_stringify demo_manifest)]"
proof -
  have "pe_gunzip demo_packs ''z'' = Some (concat (map tar_block demo_archive) @ replicate 512 NUL @ [])" by (simp add: demo_packs_def)
  from archive_reads_back [OF demo_storable this] show ?thesis by (simp add: demo_archive_def without_dot_slash_def starts_with_def)
qed

definition demo_pack_row :: pack_row where
  "demo_pack_row = \<lparr>pk_catalog = ''test'', pk_name = ''local.a.b'', pk_version = ''1.0.0'', pk_kind = ''chat-card'', pk_manifest = demo_manifest,
     pk_tarball = ''z'', pk_sha = pack_sha chains_host ''z'', pk_published = 3\<rparr>"

definition demo_catalog :: pack_db where
  "demo_catalog = \<lparr>pd_chains = \<lparr>cs_workflows = [], cs_owners = []\<rparr>, pd_packs = [demo_pack_row]\<rparr>"

lemma demo_sound: "row_sound demo_packs demo_pack_row"
proof -
  have "storable (demo_fill, ''./pack.json'', json_stringify demo_manifest)" using demo_storable by (simp add: demo_archive_def)
  from read_block [OF this, of "replicate 512 NUL"]
  have "readTar demo_packs ''z'' = Inr [(''pack.json'', json_stringify demo_manifest)]"
    by (simp add: readTar_def demo_packs_def demo_archive_def without_dot_slash_def starts_with_def read_entries.simps [of "replicate 512 NUL"] list_all_iff)
  moreover have "json_parse (json_stringify demo_manifest) = Some demo_manifest" by code_simp
  ultimately have "manifest_of demo_packs ''z'' = Inr demo_manifest" by (simp add: manifest_of_def is_pack_json_def)
  moreover have "PACK_NAME ''local.a.b''" "SEMVER ''1.0.0''" "rangeAdmitsMajor (engine_range (stripHatch demo_manifest)) HOST_MAJOR" by code_simp+
  ultimately show ?thesis
    by (simp add: row_sound_def demo_pack_row_def) (simp add: demo_packs_def demo_manifest_def HATCH_def starts_with_def KINDS_def)
qed

lemma demo_catalog_ok: "catalog_ok demo_packs demo_catalog"
  by (simp add: catalog_ok_def demo_catalog_def demo_sound)

lemma archive_stays_inside_witness: "''..'' \<notin> set (split_on (CHR ''/'') ''pack.json'')"
proof -
  have "readTar demo_packs ''z'' = Inr [(''pack.json'', json_stringify demo_manifest)]"
    using read_block [of demo_fill "''./pack.json''" "json_stringify demo_manifest" "replicate 512 NUL"] demo_storable
    by (simp add: readTar_def demo_packs_def demo_archive_def without_dot_slash_def starts_with_def read_entries.simps [of "replicate 512 NUL"] list_all_iff)
  from archive_stays_inside [OF this] show ?thesis by simp
qed

lemma catalog_is_sound_witness:
  "catalog_ok demo_packs (fold (catalog_step demo_packs) [Publishes 5 ''local.a.b'' ''1.0.0'' ''y'' None, Deletes ''local.a.b'' ''2.0.0''] demo_catalog)"
  by (rule catalog_is_sound [OF demo_catalog_ok])

lemma published_version_is_final_witness:
  "\<exists>e. publishTestPack demo_packs 9 ''local.a.b'' ''1.0.0'' ''y'' None demo_catalog = (Inl e, demo_catalog) \<and> exn_code e = ''version_conflict''"
proof -
  have g: "getPack ''test'' ''local.a.b'' ''1.0.0'' demo_catalog = Some demo_pack_row"
    by (simp add: getPack_def demo_catalog_def pack_at_def demo_pack_row_def)
  have "PACK_NAME ''local.a.b''" "SEMVER ''1.0.0''" by code_simp+
  then have "upload_refusal (pe_host demo_packs) ''local.a.b'' ''1.0.0'' ''y'' None = None" by (simp add: upload_refusal_def)
  moreover have "pack_sha chains_host ''y'' \<noteq> pack_sha chains_host ''z''" by code_simp
  then have "pack_sha (pe_host demo_packs) ''y'' \<noteq> pk_sha demo_pack_row" by (simp add: demo_packs_def demo_pack_row_def)
  ultimately show ?thesis
    using published_version_is_final [OF g, of "[]" demo_catalog demo_packs "''y''" None 9] by simp
qed

end
