(* ===== verification/Mcp.thy ===== *)
theory Mcp
  imports Runs OAuth
begin

text \<open>
  The host as an MCP server (\<open>mcp-server.ts\<close>): the checks of the mount, \<open>tools/call\<close> cut at its wait for
  the run, the signed request state of a retry, the elicitation an open interrupt is shown as, and the
  task methods. A call changes the world and two tables of its own, the consumed request states
  and the interrupt pages.
\<close>

section \<open>Errors and results\<close>

datatype mcp_error = McpError (mc_code: int) (mc_message: string) (mc_data: "json option") (mc_status: nat) | McpThrown exn

definition INVALID_PARAMS :: int where "INVALID_PARAMS = -32602"
definition MISSING_CAPABILITY :: int where "MISSING_CAPABILITY = -32021"
definition REQUEST_STATE_TTL_MS :: nat where "REQUEST_STATE_TTL_MS = 600000"

record page_row =
  pg_run :: string
  pg_node :: string
  pg_subject :: string

record mcp_sys =
  ms_world :: world
  ms_used :: "string list"
  ms_pages :: "(string \<times> page_row) list"
  ms_draws :: nat

record mcp_env =
  me_host :: host
  me_oauth :: oauth_env
  me_secret :: string
  me_status :: "string \<Rightarrow> nat"
  me_revisions :: "string list"
  me_describe :: "wf_def \<Rightarrow> string"
  me_info :: json

definition refused :: "string \<Rightarrow> mcp_error" where
  "refused m = McpError INVALID_PARAMS m None 200"

definition textResult :: "bool \<Rightarrow> json \<Rightarrow> json" where
  "textResult isError v = JObj [(''resultType'', JStr ''complete''),
     (''content'', JArr [JObj [(''type'', JStr ''text''), (''text'', JStr (json_stringify v))]]), (''isError'', JBool isError)]"

definition openInterrupt :: "run_row \<Rightarrow> world \<Rightarrow> interrupt_row option" where
  "openInterrupt r w =
     (if r_status r = WaitingApproval \<or> r_status r = WaitingInput
      then (case r_node r of None \<Rightarrow> None | Some n \<Rightarrow> pendingInterruptForNode (run_id r) n w) else None)"

section \<open>The request state\<close>

text \<open>
  \<open>stableJson\<close> sorts the members of every object by \<open>Array.prototype.sort\<close>, which is the canonical
  text; the two agree on every value.
\<close>

definition stableJson :: "json \<Rightarrow> string" where "stableJson v = canonical v"

definition digestOf :: "host \<Rightarrow> string \<Rightarrow> json \<Rightarrow> string" where
  "digestOf h name args = base64url (h_sha256 h (name @ [CHR 0x0A] @ stableJson args))"

definition state_mac :: "mcp_env \<Rightarrow> string \<Rightarrow> string" where
  "state_mac env body = base64url (h_hmac (me_host env) (me_secret env) body)"

record state_claims =
  sc_principal :: string
  sc_expires :: int
  sc_digest :: string
  sc_run :: string
  sc_interrupt :: string
  sc_nonce :: string

definition state_json :: "state_claims \<Rightarrow> json" where
  "state_json c = JObj [(''v'', JNum 1), (''p'', JStr (sc_principal c)), (''e'', JNum (sc_expires c)), (''d'', JStr (sc_digest c)),
     (''r'', JStr (sc_run c)), (''i'', JStr (sc_interrupt c)), (''j'', JStr (sc_nonce c))]"

definition state_text :: "mcp_env \<Rightarrow> state_claims \<Rightarrow> string" where
  "state_text env c = (let body = base64url (json_stringify (state_json c)) in body @ ''.'' @ state_mac env body)"

definition mintState :: "mcp_env \<Rightarrow> subject \<Rightarrow> string \<Rightarrow> json \<Rightarrow> string \<Rightarrow> string \<Rightarrow> world \<Rightarrow> string \<times> world" where
  "mintState env sb name args rid iid w =
     (state_text env \<lparr>sc_principal = subject_key sb, sc_expires = int (w_clock w) + int REQUEST_STATE_TTL_MS,
        sc_digest = digestOf (me_host env) name args, sc_run = rid, sc_interrupt = iid, sc_nonce = h_opaque (me_host env) (w_rng w)\<rparr>,
      w\<lparr>w_rng := Suc (w_rng w)\<rparr>)"

definition bad_state :: "string \<Rightarrow> mcp_error" where
  "bad_state why = refused (''requestState refused: '' @ why)"

text \<open>The claims a verified body states; their fields are texts because only this host signs them.\<close>

definition read_claims :: "json \<Rightarrow> mcp_error + state_claims" where
  "read_claims j =
     (if j = JNull then Inl (McpThrown (JsError ''TypeError''))
      else if jfield j ''v'' \<noteq> Some (JNum 1) then Inl (bad_state ''malformed'')
      else case (jfield j ''j'', jfield j ''i'') of
          (Some (JStr nonce), Some (JStr iid)) \<Rightarrow> Inr \<lparr>sc_principal = text_of (jfield j ''p''), sc_expires = number_or 0 (jfield j ''e''),
            sc_digest = text_of (jfield j ''d''), sc_run = text_of (jfield j ''r''), sc_interrupt = iid, sc_nonce = nonce\<rparr>
        | _ \<Rightarrow> Inl (bad_state ''malformed''))"

definition claims_refusal :: "mcp_env \<Rightarrow> nat \<Rightarrow> subject \<Rightarrow> string \<Rightarrow> json \<Rightarrow> state_claims \<Rightarrow> mcp_error option" where
  "claims_refusal env now sb name args c =
     (if sc_expires c < int now then Some (bad_state ''expired'')
      else if sc_principal c \<noteq> subject_key sb then Some (bad_state ''bound to another principal'')
      else if sc_digest c \<noteq> digestOf (me_host env) name args then Some (bad_state ''bound to another request'')
      else None)"

definition verifyState :: "mcp_env \<Rightarrow> nat \<Rightarrow> subject \<Rightarrow> json option \<Rightarrow> string \<Rightarrow> json \<Rightarrow> mcp_error + state_claims" where
  "verifyState env now sb raw name args =
     (case str_of raw of None \<Rightarrow> Inl (bad_state ''not a string'')
      | Some s \<Rightarrow>
        (let body = takeWhile (\<lambda>c. c \<noteq> CHR ''.'') s; rest = dropWhile (\<lambda>c. c \<noteq> CHR ''.'') s; sig = tl rest; expect = state_mac env body in
         if rest = [] \<or> body = [] then Inl (bad_state ''malformed'')
         else if utf16_length sig \<noteq> utf16_length expect then Inl (bad_state ''integrity check failed'')
         else if length sig \<noteq> length expect then Inl (McpThrown (JsError ''RangeError''))
         else if sig \<noteq> expect then Inl (bad_state ''integrity check failed'')
         else case json_parse (from_base64url body) of None \<Rightarrow> Inl (bad_state ''malformed'')
            | Some j \<Rightarrow> and_then (read_claims j) (\<lambda>c. case claims_refusal env now sb name args c of Some e \<Rightarrow> Inl e | None \<Rightarrow> Inr c)))"

definition consumeMcpRequestState :: "string \<Rightarrow> mcp_sys \<Rightarrow> bool \<times> mcp_sys" where
  "consumeMcpRequestState nonce s = (if nonce \<in> set (ms_used s) then (False, s) else (True, s\<lparr>ms_used := ms_used s @ [nonce]\<rparr>))"

section \<open>Elicitation\<close>

definition PRIMITIVE :: "string list" where
  "PRIMITIVE = [''string'', ''number'', ''integer'', ''boolean'']"

definition eligible_property :: "json \<Rightarrow> bool" where
  "eligible_property p = (case p of JObj ps \<Rightarrow> js_String (map_of ps ''type'') \<in> set PRIMITIVE \<and> map_of ps ''writeOnly'' \<noteq> Some (JBool True)
       \<and> map_of ps ''format'' \<noteq> Some (JStr ''password'') \<and> map_of ps ''properties'' = None \<and> map_of ps ''items'' = None
     | _ \<Rightarrow> False)"

definition formEligible :: "json \<Rightarrow> bool" where
  "formEligible schema \<longleftrightarrow> jfield schema ''type'' = Some (JStr ''object'')
     \<and> (case jfield schema ''properties'' of Some (JObj ps) \<Rightarrow> list_all (\<lambda>(k, p). eligible_property p) ps | _ \<Rightarrow> False)"

definition declaresUrlMode :: "json \<Rightarrow> bool" where
  "declaresUrlMode caps \<longleftrightarrow> plain_object (jfield caps ''elicitation'') \<and> plain_object (jget (jfield caps ''elicitation'') ''url'')"

definition MCP_TASKS_EXTENSION :: string where "MCP_TASKS_EXTENSION = ''io.modelcontextprotocol/tasks''"

definition declaresTasks :: "json \<Rightarrow> bool" where
  "declaresTasks caps \<longleftrightarrow> plain_object (jfield caps ''extensions'') \<and> plain_object (jget (jfield caps ''extensions'') MCP_TASKS_EXTENSION)"

definition interruptPageFor :: "mcp_env \<Rightarrow> run_row \<Rightarrow> interrupt_row \<Rightarrow> mcp_sys \<Rightarrow> (exn + string) \<times> mcp_sys" where
  "interruptPageFor env r i s =
     (let page = base64url (oe_random (me_oauth env) (ms_draws s) 24); (ow, w1) = ownerOf r (ms_world s);
          s1 = s\<lparr>ms_world := w1, ms_draws := ms_draws s + 1\<rparr>
      in if map_of (ms_pages s) page \<noteq> None then (Inl (JsError ''UNIQUE constraint failed: interrupt_pages''), s1)
         else (Inr (publicBase (me_oauth env) @ ''/interrupt-pages/'' @ page),
           s1\<lparr>ms_pages := ms_pages s @ [(page, \<lparr>pg_run = run_id r, pg_node = i_node i, pg_subject = owner_key ow\<rparr>)]\<rparr>))"

definition elicitation :: "(string \<times> json) list \<Rightarrow> json" where
  "elicitation params = JObj [(''method'', JStr ''elicitation/create''), (''params'', JObj params)]"

definition approval_schema :: "json \<Rightarrow> json" where
  "approval_schema payload =
     (let actions = (case jfield payload ''actions'' of Some (JArr xs) \<Rightarrow> map js_string xs | _ \<Rightarrow> [''accept'', ''reject''])
      in JObj [(''type'', JStr ''object''),
           (''properties'', JObj [(''action'', JObj [(''type'', JStr ''string''), (''enum'', JArr (map JStr actions))])]),
           (''required'', JArr [JStr ''action''])])"

definition approval_message :: "json \<Rightarrow> string \<Rightarrow> string" where
  "approval_message payload nid =
     (let parts = List.map_filter str_of [jfield payload ''title'', jfield payload ''description''];
          m = (case parts of [] \<Rightarrow> [] | x # xs \<Rightarrow> x @ concat (map (\<lambda>y. '' '' @ EM_DASH @ '' '' @ y) xs))
      in if m = [] then ''Approve '' @ nid else m)"

definition questions_of :: "json \<Rightarrow> json list" where
  "questions_of payload = (case jfield payload ''questions'' of Some (JArr xs) \<Rightarrow> xs | _ \<Rightarrow> [])"

definition question_property :: "json \<Rightarrow> string \<Rightarrow> json" where
  "question_property q qid =
     (let described = JStr (js_String (nullish (jfield q ''question'') (Some (JStr qid))))
      in case jfield q ''schema'' of
           Some (JObj ps) \<Rightarrow> JObj (AList.update ''description'' described ps)
         | _ \<Rightarrow> JObj [(''type'', JStr ''string''), (''description'', described)])"

definition question_properties :: "json list \<Rightarrow> (string \<times> json) list" where
  "question_properties qs = fold (\<lambda>q ps. case jfield q ''id'' of Some (JStr qid) \<Rightarrow> AList.update qid (question_property q qid) ps | _ \<Rightarrow> ps) qs []"

definition questions_schema :: "json list \<Rightarrow> json" where
  "questions_schema qs = (let ps = question_properties qs in
     JObj [(''type'', JStr ''object''), (''properties'', JObj ps), (''required'', JArr (map (JStr \<circ> fst) ps))])"

definition questions_message :: "json list \<Rightarrow> string \<Rightarrow> string" where
  "questions_message qs nid =
     (let texts = filter (\<lambda>t. t \<noteq> []) (map (\<lambda>q. js_String (nullish (jfield q ''question'') (Some (JStr [])))) qs)
      in if texts = [] then ''Input for '' @ nid else join_with (CHR '' '') texts)"

definition elicitationFor :: "mcp_env \<Rightarrow> run_row \<Rightarrow> interrupt_row \<Rightarrow> json \<Rightarrow> mcp_sys \<Rightarrow> (exn + json option) \<times> mcp_sys" where
  "elicitationFor env r i caps s =
     (let p = payloadOf i; info = ip_data p in
      if ip_kind p = ''credential''
      then (Inr (if \<not> declaresUrlMode caps then None
             else (let scopes = (case jfield info ''scopes'' of Some (JArr xs) \<Rightarrow> spaced (map js_string xs) | _ \<Rightarrow> [])
                   in Some (elicitation [(''mode'', JStr ''url''),
                        (''message'', JStr (''Authorize '' @ js_String (jfield info ''provider'') @ (if scopes = [] then [] else '' ('' @ scopes @ '')''))),
                        (''url'', JStr (js_String (jfield info ''connectUrl'')))]))), s)
      else let schema = (if ip_kind p = ''approval'' then approval_schema info else questions_schema (questions_of info));
               message = (if ip_kind p = ''approval'' then approval_message info (i_node i) else questions_message (questions_of info) (i_node i))
           in if formEligible schema
              then (Inr (Some (elicitation [(''mode'', JStr ''form''), (''message'', JStr message), (''requestedSchema'', schema)])), s)
              else if \<not> declaresUrlMode caps then (Inr None, s)
              else case interruptPageFor env r i s of
                  (Inl e, s1) \<Rightarrow> (Inl e, s1)
                | (Inr u, s1) \<Rightarrow> (Inr (Some (elicitation [(''mode'', JStr ''url''), (''message'', JStr message), (''url'', JStr u)])), s1))"

section \<open>The outcome of a call\<close>

definition in_world :: "(exn + 'a) \<times> world \<Rightarrow> mcp_sys \<Rightarrow> (mcp_error + 'a) \<times> mcp_sys" where
  "in_world rw s = (map_sum McpThrown id (fst rw), s\<lparr>ms_world := snd rw\<rparr>)"

definition applyElicitResult :: "mcp_env \<Rightarrow> subject \<Rightarrow> run_row \<Rightarrow> interrupt_row \<Rightarrow> json \<Rightarrow> mcp_sys \<Rightarrow> (mcp_error + run_status) \<times> mcp_sys" where
  "applyElicitResult env sb r i response s =
     (case jfield response ''action'' of
        Some (JStr a) \<Rightarrow>
          (if a = ''cancel'' then in_world (requestCancel (me_host env) r (Some ''mcp-elicitation-cancelled'') (ms_world s)) s
           else if a = ''accept'' then in_world (resolveAndResume (me_host env) r i (jfield response ''content'') (Some sb) (ms_world s)) s
           else if a = ''decline''
           then in_world (resolveAndResume (me_host env) r i (Some (if i_kind i = ''approval'' then JObj [(''action'', JStr ''reject'')]
                    else JObj [(''declined'', JBool True)])) (Some sb) (ms_world s)) s
           else (Inl (refused ''ElicitResult.action is accept | decline | cancel''), s))
      | _ \<Rightarrow> (Inl (refused ''ElicitResult.action is accept | decline | cancel''), s))"

definition run_value :: "run_row \<Rightarrow> (string \<times> json option) list \<Rightarrow> json" where
  "run_value r extra = jobj ([(''runId'', Some (JStr (run_id r))), (''status'', Some (JStr (status_name (r_status r))))] @ extra)"

definition no_form_reason :: "interrupt_payload \<Rightarrow> string" where
  "no_form_reason p = (if ip_kind p = ''credential''
     then ''authorization for '' @ js_String (jfield (ip_data p) ''provider'') @ '' is required out of band; this client declared no elicitation.url''
     else ''this input cannot be collected in form mode (not a flat, non-sensitive schema) and this client declared no elicitation.url'')"

text \<open>Without a Subject (a task read) no state is minted; the code reads a terminal run there only.\<close>

definition outcome :: "mcp_env \<Rightarrow> subject option \<Rightarrow> string \<Rightarrow> json \<Rightarrow> run_row \<Rightarrow> json \<Rightarrow> mcp_sys \<Rightarrow> (mcp_error + json) \<times> mcp_sys" where
  "outcome env sb name args r caps s =
     (if r_status r = Completed then (Inr (textResult False (run_value r [(''variables'', Some (r_inputs r))])), s)
      else if r_status r = Failed \<or> r_status r = Cancelled then (Inr (textResult True (run_value r [(''error'', r_error r)])), s)
      else case openInterrupt r (ms_world s) of
          None \<Rightarrow> (Inr (textResult True (run_value r [(''message'',
             Some (JStr (''the run is '' @ status_name (r_status r) @ ''; follow it at GET /runs/{runId}'')))])), s)
        | Some i \<Rightarrow>
            (case elicitationFor env r i caps s of
               (Inl e, s1) \<Rightarrow> (Inl (McpThrown e), s1)
             | (Inr None, s1) \<Rightarrow> (Inr (textResult True (run_value r [(''interruptKind'', Some (JStr (ip_kind (payloadOf i)))),
                  (''message'', Some (JStr (no_form_reason (payloadOf i) @ ''; the run is suspended '' @ EM_DASH @
                     '' resolve it at POST /runs/{runId}/interrupts/'' @ i_node i)))])), s1)
             | (Inr (Some req), s1) \<Rightarrow>
                 (case sb of None \<Rightarrow> (Inl (McpThrown (JsError ''TypeError'')), s1)
                  | Some who \<Rightarrow>
                     (let (st, w) = mintState env who name args (run_id r) (i_id i) (ms_world s1)
                      in (Inr (JObj [(''resultType'', JStr ''input_required''), (''inputRequests'', JObj [(i_id i, req)]),
                           (''requestState'', JStr st)]), s1\<lparr>ms_world := w\<rparr>)))))"

section \<open>Tasks\<close>

definition task_not_found :: mcp_error where "task_not_found = refused ''task not found''"

definition requireTasks :: "json \<Rightarrow> mcp_error + unit" where
  "requireTasks caps = throw_if (\<not> declaresTasks caps) (McpError MISSING_CAPABILITY ''Missing required client capability''
     (Some (JObj [(''requiredCapabilities'', JObj [(''extensions'', JObj [(MCP_TASKS_EXTENSION, JObj [])])])])) 200)"

definition taskRun :: "subject \<Rightarrow> json option \<Rightarrow> world \<Rightarrow> mcp_error + run_row" where
  "taskRun sb raw w =
     (case str_of raw of None \<Rightarrow> Inl task_not_found
      | Some s \<Rightarrow> (case unprojectBoundId s of Inl e \<Rightarrow> Inl task_not_found
          | Inr i \<Rightarrow>
            if \<not> TENANT_BOUND i \<or> takeWhile (\<lambda>c. c \<noteq> CHR ''/'') i \<noteq> sub_tenant sb then Inl task_not_found
            else case getRun i w of None \<Rightarrow> Inl task_not_found
               | Some r \<Rightarrow> if r_tenant r \<noteq> sub_tenant sb then Inl task_not_found else Inr r))"

definition task_base :: "mcp_env \<Rightarrow> run_row \<Rightarrow> (string \<times> json) list" where
  "task_base env r = [(''taskId'', JStr (projectBoundId (run_id r))), (''createdAt'', JStr (h_iso (me_host env) (r_created r))),
     (''lastUpdatedAt'', JStr (h_iso (me_host env) (r_updated r))), (''ttlMs'', JNull), (''pollIntervalMs'', JNum 500),
     (''statusMessage'', JStr (''the run is '' @ status_name (r_status r)))]"

definition without_type :: "json \<Rightarrow> json" where
  "without_type j = (case j of JObj ps \<Rightarrow> JObj (AList.delete ''resultType'' ps) | _ \<Rightarrow> j)"

definition taskOf :: "mcp_env \<Rightarrow> run_row \<Rightarrow> bool \<Rightarrow> json \<Rightarrow> mcp_sys \<Rightarrow> (mcp_error + (string \<times> json) list) \<times> mcp_sys" where
  "taskOf env r detailed caps s =
     (let base = task_base env r in
      if r_status r = Completed \<or> r_status r = Failed
      then (if \<not> detailed then (Inr (base @ [(''status'', JStr ''completed'')]), s)
            else (case outcome env None [] (JObj []) r (JObj []) s of
                (Inl e, s1) \<Rightarrow> (Inl e, s1)
              | (Inr res, s1) \<Rightarrow> (Inr (base @ [(''status'', JStr ''completed''), (''result'', without_type res)]), s1)))
      else if r_status r = Cancelled then (Inr (base @ [(''status'', JStr ''cancelled'')]), s)
      else case openInterrupt r (ms_world s) of
          None \<Rightarrow> (Inr (base @ [(''status'', JStr ''working'')]), s)
        | Some i \<Rightarrow>
            (case (if detailed then elicitationFor env r i caps s else (Inr None, s)) of
               (Inl e, s1) \<Rightarrow> (Inl (McpThrown e), s1)
             | (Inr None, s1) \<Rightarrow> (Inr (base @ [(''status'', JStr ''input_required'')]), s1)
             | (Inr (Some req), s1) \<Rightarrow> (Inr (base @ [(''status'', JStr ''input_required''), (''inputRequests'', JObj [(i_id i, req)])]), s1)))"

definition complete :: "(string \<times> json) list \<Rightarrow> json" where
  "complete ps = JObj ((''resultType'', JStr ''complete'') # ps)"

definition tasksGet :: "mcp_env \<Rightarrow> subject \<Rightarrow> json option \<Rightarrow> json \<Rightarrow> mcp_sys \<Rightarrow> (mcp_error + json) \<times> mcp_sys" where
  "tasksGet env sb taskId caps s =
     (case taskRun sb taskId (ms_world s) of Inl e \<Rightarrow> (Inl e, s)
      | Inr r \<Rightarrow> (case taskOf env r True caps s of (Inl e, s1) \<Rightarrow> (Inl e, s1) | (Inr ps, s1) \<Rightarrow> (Inr (complete ps), s1)))"

text \<open>What the loop of \<open>tasks/update\<close> swallows: a refusal of the host or of this module.\<close>

definition swallowed :: "mcp_error \<Rightarrow> bool" where
  "swallowed e = (case e of McpError _ _ _ _ \<Rightarrow> True | McpThrown (HostError _ _ _) \<Rightarrow> True | _ \<Rightarrow> False)"

fun update_all :: "mcp_env \<Rightarrow> subject \<Rightarrow> run_row \<Rightarrow> (string \<times> json) list \<Rightarrow> mcp_sys \<Rightarrow> (mcp_error + unit) \<times> mcp_sys" where
  "update_all env sb r [] s = (Inr (), s)"
| "update_all env sb r ((k, response) # rest) s =
     (let current = (case getRun (run_id r) (ms_world s) of Some q \<Rightarrow> q | None \<Rightarrow> r) in
      if terminal_status (r_status current) then (Inr (), s)
      else case openInterrupt current (ms_world s) of
          None \<Rightarrow> update_all env sb r rest s
        | Some i \<Rightarrow>
            if i_id i \<noteq> k \<or> \<not> plain_object (Some response) \<or> \<not> is_str (jfield response ''action'') then update_all env sb r rest s
            else (case applyElicitResult env sb current i response s of
                (Inl e, s1) \<Rightarrow> if swallowed e then update_all env sb r rest s1 else (Inl e, s1)
              | (Inr st, s1) \<Rightarrow> update_all env sb r rest s1))"

definition tasksUpdate :: "mcp_env \<Rightarrow> subject \<Rightarrow> json option \<Rightarrow> json option \<Rightarrow> mcp_sys \<Rightarrow> (mcp_error + json) \<times> mcp_sys" where
  "tasksUpdate env sb taskId responses s =
     (case taskRun sb taskId (ms_world s) of Inl e \<Rightarrow> (Inl e, s)
      | Inr r \<Rightarrow> (case responses of
          Some (JObj ps) \<Rightarrow> (case update_all env sb r ps s of (Inl e, s1) \<Rightarrow> (Inl e, s1) | (Inr u, s1) \<Rightarrow> (Inr (complete []), s1))
        | _ \<Rightarrow> (Inl (refused ''tasks/update carries inputResponses''), s)))"

definition tasksCancel :: "mcp_env \<Rightarrow> subject \<Rightarrow> json option \<Rightarrow> mcp_sys \<Rightarrow> (mcp_error + json) \<times> mcp_sys" where
  "tasksCancel env sb taskId s =
     (case taskRun sb taskId (ms_world s) of Inl e \<Rightarrow> (Inl e, s)
      | Inr r \<Rightarrow>
        if terminal_status (r_status r) then (Inr (complete []), s)
        else (case requestCancel (me_host env) r None (ms_world s) of
            (Inl e, w) \<Rightarrow> ((if swallowed (McpThrown e) then Inr (complete []) else Inl (McpThrown e)), s\<lparr>ms_world := w\<rparr>)
          | (Inr st, w) \<Rightarrow> (Inr (complete []), s\<lparr>ms_world := w\<rparr>)))"

section \<open>Calling a tool\<close>

text \<open>
  A call up to its wait: answered at once, or waiting for the run it started or continued, which it
  owns until its response is sent.
\<close>

datatype call_next = Answer json | Waits run_row

definition SUSPENDING :: "string list" where
  "SUSPENDING = [''core.approvalGate'', ''core.clarificationGate'', ''core.interrupt'', ''conformance.oauth.use'']"

definition tool_refusal :: "json \<Rightarrow> string \<Rightarrow> wf_def \<Rightarrow> json option \<Rightarrow> mcp_error + (string \<times> json) list" where
  "tool_refusal caps name def args =
     (case (case args of None \<Rightarrow> Some (JObj []) | a \<Rightarrow> a) of
        Some (JObj ps) \<Rightarrow>
          (case find (\<lambda>v. v_required v = Some True \<and> map_of ps (v_name v) = None \<and> v_default v = None) (wf_vars def) of
             Some v \<Rightarrow> Inl (refused (''arguments.'' @ v_name v @ '' is required by the tool inputSchema''))
           | None \<Rightarrow>
               if (\<exists>n \<in> set (wf_nodes def). nd_type n \<in> set SUSPENDING) \<and> \<not> plain_object (jfield caps ''elicitation'')
               then Inl (McpError MISSING_CAPABILITY (''tool '' @ name @ '' can suspend for input and the request did not declare the elicitation client capability'')
                      (Some (JObj [(''requiredCapabilities'', JArr [JStr ''elicitation''])])) 200)
               else Inr ps)
      | _ \<Rightarrow> Inl (refused ''arguments MUST be an object (the tool inputSchema is type object)''))"

definition with_defaults :: "wf_def \<Rightarrow> (string \<times> json) list \<Rightarrow> (string \<times> json) list" where
  "with_defaults def args = fold (\<lambda>(k, v). AList.update k v) args
     (fold (\<lambda>v ps. case v_default v of None \<Rightarrow> ps | Some d \<Rightarrow> AList.update (v_name v) d ps) (wf_vars def) [])"

definition task_answer :: "(mcp_error + (string \<times> json) list) \<times> mcp_sys \<Rightarrow> (mcp_error + json) \<times> mcp_sys" where
  "task_answer r = (map_sum id (\<lambda>ps. JObj ((''resultType'', JStr ''task'') # ps)) (fst r), snd r)"

definition start_tool :: "mcp_env \<Rightarrow> subject \<Rightarrow> string \<Rightarrow> wf_def \<Rightarrow> (string \<times> json) list \<Rightarrow> json \<Rightarrow> trace_context option \<Rightarrow> mcp_sys
    \<Rightarrow> (mcp_error + call_next) \<times> mcp_sys" where
  "start_tool env sb name def args caps tr s =
     (case acceptRun (me_host env) sb name (JObj (with_defaults def args))
         (jobj [(''transport'', Some (JStr ''mcp'')), (''traceContext'', map_option trace_json tr)]) None (ms_world s) of
        (Inl e, w) \<Rightarrow> (Inl (McpThrown e), s\<lparr>ms_world := w\<rparr>)
      | (Inr r, w) \<Rightarrow>
          (let s1 = s\<lparr>ms_world := scheduleRun (run_id r) w\<rparr> in
           if \<not> declaresTasks caps then (Inr (Waits r), s1)
           else let now = (case getRun (run_id r) (ms_world s1) of Some q \<Rightarrow> q | None \<Rightarrow> r);
                    (a, s2) = (if terminal_status (r_status now) then outcome env (Some sb) name (JObj args) now caps s1
                               else task_answer (taskOf env now False (JObj []) s1))
                in (map_sum id Answer a, s2)))"

text \<open>The retry of a suspended call, from its verified state on.\<close>

definition answer_interrupt :: "mcp_env \<Rightarrow> subject \<Rightarrow> run_row \<Rightarrow> interrupt_row \<Rightarrow> json \<Rightarrow> mcp_sys \<Rightarrow> (mcp_error + unit) \<times> mcp_sys" where
  "answer_interrupt env sb r i response s =
     (let kind = ip_kind (payloadOf i); info = ip_data (payloadOf i); action = text_of (jfield response ''action'');
          done = (\<lambda>x. (map_sum id (\<lambda>_. ()) (fst x), snd x)) in
      if kind = ''credential'' \<and> action = ''accept''
      then (let scopes = text_list (jfield info ''scopes''); (ow, w1) = ownerOf r (ms_world s)
            in if credentialResolves (owner_key ow) (js_String (nullish (jfield info ''provider'') (Some (JStr [])))) scopes w1
               then done (in_world (resolveAndResume (me_host env) r i (Some (JObj [(''outcome'', JStr ''authorized'')])) (Some sb) w1) s)
               else (Inr (), s\<lparr>ms_world := w1\<rparr>))
      else if kind = ''credential'' \<and> action = ''decline''
      then done (in_world (resolveAndResume (me_host env) r i (Some (JObj [(''outcome'', JStr ''declined'')])) (Some sb) (ms_world s)) s)
      else if action = ''accept'' \<and> jfield response ''content'' = None then (Inr (), s)
      else done (applyElicitResult env sb r i response s))"

definition continue_tool :: "mcp_env \<Rightarrow> subject \<Rightarrow> string \<Rightarrow> (string \<times> json) list \<Rightarrow> json \<Rightarrow> state_claims \<Rightarrow> json \<Rightarrow> mcp_sys
    \<Rightarrow> (mcp_error + call_next) \<times> mcp_sys" where
  "continue_tool env sb name args caps c response s =
     (case consumeMcpRequestState (sc_nonce c) s of
        (False, s1) \<Rightarrow> (Inl (bad_state ''already used''), s1)
      | (True, s1) \<Rightarrow>
          (case getRun (sc_run c) (ms_world s1) of
             None \<Rightarrow> (Inl (bad_state ''its run is not readable''), s1)
           | Some r \<Rightarrow>
              if r_tenant r \<noteq> sub_tenant sb then (Inl (bad_state ''its run is not readable''), s1)
              else if terminal_status (r_status r)
              then (let (a, s2) = outcome env (Some sb) name (JObj args) r caps s1 in (map_sum id Answer a, s2))
              else if jfield response ''action'' = Some (JStr ''cancel'')
              then (case in_world (requestCancel (me_host env) r (Some ''mcp-elicitation-cancelled'') (ms_world s1)) s1 of
                  (Inl e, s2) \<Rightarrow> (Inl e, s2) | (Inr st, s2) \<Rightarrow> (Inr (Waits r), s2))
              else case getInterrupt (sc_interrupt c) (ms_world s1) of
                  None \<Rightarrow> (Inl (bad_state ''its interrupt is no longer open''), s1)
                | Some i \<Rightarrow>
                    if i_run i \<noteq> run_id r \<or> i_resolved i \<noteq> None then (Inl (bad_state ''its interrupt is no longer open''), s1)
                    else (case answer_interrupt env sb r i response s1 of
                        (Inl e, s2) \<Rightarrow> (Inl e, s2) | (Inr u, s2) \<Rightarrow> (Inr (Waits r), s2))))"

definition toolsCall :: "mcp_env \<Rightarrow> subject \<Rightarrow> (string \<times> json) list \<Rightarrow> json \<Rightarrow> trace_context option \<Rightarrow> mcp_sys \<Rightarrow> (mcp_error + call_next) \<times> mcp_sys" where
  "toolsCall env sb params caps tr s =
     (case Option.bind (str_of (map_of params ''name'')) (\<lambda>n. map_option (Pair n) (workflow_of (me_host env) n)) of
        None \<Rightarrow> (Inl (refused (''unknown tool '' @ js_String (map_of params ''name''))), s)
      | Some (name, def) \<Rightarrow>
        (case tool_refusal caps name def (map_of params ''arguments'') of Inl e \<Rightarrow> (Inl e, s)
         | Inr args \<Rightarrow>
           if map_of params ''requestState'' = None then start_tool env sb name def args caps tr s
           else (case verifyState env (w_clock (ms_world s)) sb (map_of params ''requestState'') name (JObj args) of
               Inl e \<Rightarrow> (Inl e, s)
             | Inr c \<Rightarrow>
               (case map_of params ''inputResponses'' of
                  Some (JObj responses) \<Rightarrow>
                    (case map_of responses (sc_interrupt c) of
                       Some (JObj ps) \<Rightarrow>
                         if is_str (map_of ps ''action'') then continue_tool env sb name args caps c (JObj ps) s
                         else (Inl (refused (''inputResponses.'' @ sc_interrupt c @ '' MUST be an ElicitResult'')), s)
                     | _ \<Rightarrow> (Inl (refused (''inputResponses.'' @ sc_interrupt c @ '' MUST be an ElicitResult'')), s))
                | _ \<Rightarrow> (Inl (refused ''a retry carries inputResponses''), s)))))"

text \<open>After the wait: the run as the store has it then.\<close>

definition toolsCall_end :: "mcp_env \<Rightarrow> subject \<Rightarrow> string \<Rightarrow> json \<Rightarrow> bool \<Rightarrow> json \<Rightarrow> run_row \<Rightarrow> mcp_sys \<Rightarrow> (mcp_error + json) \<times> mcp_sys" where
  "toolsCall_end env sb name args retried caps r s =
     (let settled = (case getRun (run_id r) (ms_world s) of Some q \<Rightarrow> q | None \<Rightarrow> r) in
      if retried \<and> declaresTasks caps \<and> \<not> terminal_status (r_status settled) then task_answer (taskOf env settled False (JObj []) s)
      else outcome env (Some sb) name args settled caps s)"

text \<open>The connection closes before the response was sent.\<close>

definition disconnected :: "mcp_env \<Rightarrow> string option \<Rightarrow> world \<Rightarrow> world" where
  "disconnected env owned w =
     (case owned of None \<Rightarrow> w
      | Some rid \<Rightarrow> (case getRun rid w of None \<Rightarrow> w
          | Some r \<Rightarrow> if terminal_status (r_status r) then w
              else snd (requestCancel (me_host env) r (Some ''mcp-request-cancelled'') w)))"

section \<open>The mount\<close>

text \<open>The checks before a method is dispatched, in their order: the header, its agreement with the body, the mirrors, the revision.\<close>

definition META_VERSION :: string where "META_VERSION = ''io.modelcontextprotocol/protocolVersion''"

definition mirror_refusal :: "(string \<Rightarrow> string option) \<Rightarrow> string \<Rightarrow> (string \<times> json) list \<Rightarrow> mcp_error option" where
  "mirror_refusal header meth params =
     (case header ''mcp-method'' of
        Some m \<Rightarrow> if m \<noteq> meth then Some (McpError (-32020) (''Mcp-Method '' @ m @ '' does not equal method '' @ meth) None 400) else None
      | None \<Rightarrow> None)"

definition name_refusal :: "(string \<Rightarrow> string option) \<Rightarrow> string \<Rightarrow> (string \<times> json) list \<Rightarrow> mcp_error option" where
  "name_refusal header meth params =
     (case header ''mcp-name'' of None \<Rightarrow> None
      | Some n \<Rightarrow>
        (let key = (if meth = ''resources/read'' then ''uri'' else ''name'') in
         if meth \<in> {''tools/call'', ''prompts/get'', ''resources/read''} \<and> map_of params key \<noteq> Some (JStr n)
         then Some (McpError (-32020) (''Mcp-Name '' @ n @ '' does not equal the request's '' @ key) None 400)
         else if starts_with ''tasks/'' meth \<and> map_of params ''taskId'' \<noteq> Some (JStr n)
         then Some (McpError (-32020) (''Mcp-Name '' @ n @ '' does not equal the request's taskId'') None 400)
         else None))"

definition mount_refusal :: "mcp_env \<Rightarrow> (string \<Rightarrow> string option) \<Rightarrow> string \<Rightarrow> (string \<times> json) list \<Rightarrow> mcp_error option" where
  "mount_refusal env header meth params =
     (let supported = JArr (map JStr (me_revisions env)); requested = js_trim (case header ''mcp-protocol-version'' of Some v \<Rightarrow> v | None \<Rightarrow> []) in
      if requested = []
      then Some (McpError (-32022) ''MCP-Protocol-Version is required; this mount speaks no header-less revision''
             (Some (JObj [(''supported'', supported), (''requested'', JNull)])) 400)
      else if (case map_of params ''_meta'' of Some (JObj ps) \<Rightarrow> map_of ps META_VERSION | _ \<Rightarrow> None) \<noteq> Some (JStr requested)
      then Some (McpError (-32020) (''MCP-Protocol-Version '' @ requested @ '' does not equal _meta '' @ META_VERSION) None 400)
      else case mirror_refusal header meth params of Some e \<Rightarrow> Some e
        | None \<Rightarrow> (case name_refusal header meth params of Some e \<Rightarrow> Some e
          | None \<Rightarrow> if requested \<notin> set (me_revisions env)
              then Some (McpError (-32022) (''revision '' @ requested @ '' is not served'')
                     (Some (JObj [(''supported'', supported), (''requested'', JStr requested)])) 400)
              else None))"

text \<open>An error as the reply states it; a refusal of the host is internal from status 500 on.\<close>

definition rpc_reply :: "mcp_env \<Rightarrow> json \<Rightarrow> mcp_error \<Rightarrow> nat \<times> json" where
  "rpc_reply env i e =
     (let body = (\<lambda>code m extra. JObj [(''jsonrpc'', JStr ''2.0''), (''id'', i), (''error'', jobj [(''code'', Some (JNum code)), (''message'', Some (JStr m)), (''data'', extra)])])
      in case e of
        McpError code m extra st \<Rightarrow> (st, body code m extra)
      | McpThrown (HostError code m d) \<Rightarrow> (200, body (if me_status env code \<ge> 500 then -32603 else INVALID_PARAMS) m None)
      | McpThrown _ \<Rightarrow> (200, body (-32603) ''the host failed to serve the request'' None))"

section \<open>The interrupt pages\<close>

definition pageTarget :: "subject \<Rightarrow> string \<Rightarrow> mcp_sys \<Rightarrow> exn + run_row \<times> interrupt_row" where
  "pageTarget sb page s =
     (case map_of (ms_pages s) page of None \<Rightarrow> Inl (HostError ''not_found'' ''no such interrupt page'' None)
      | Some p \<Rightarrow>
        if pg_subject p \<noteq> subject_key sb then Inl (HostError ''forbidden'' ''this interrupt page belongs to another Subject'' None)
        else case (getRun (pg_run p) (ms_world s), pendingInterruptForNode (pg_run p) (pg_node p) (ms_world s)) of
            (Some r, Some i) \<Rightarrow> Inr (r, i)
          | _ \<Rightarrow> Inl (HostError ''interrupt_already_resolved'' ''the interrupt this page resolves is no longer open'' None))"

definition pagePost :: "mcp_env \<Rightarrow> subject \<Rightarrow> string \<Rightarrow> (string \<times> json) list \<Rightarrow> mcp_sys \<Rightarrow> (exn + run_status) \<times> mcp_sys" where
  "pagePost env sb page body s =
     (case pageTarget sb page s of Inl e \<Rightarrow> (Inl e, s)
      | Inr (r, i) \<Rightarrow>
        (case map_of body ''resumeValue'' of None \<Rightarrow> (Inl (HostError ''validation_error'' ''resumeValue is REQUIRED'' None), s)
         | Some v \<Rightarrow> (let (a, w) = resolveAndResume (me_host env) r i (Some v) (Some sb) (ms_world s) in (a, s\<lparr>ms_world := w\<rparr>))))"

definition pageGet :: "subject \<Rightarrow> string \<Rightarrow> mcp_sys \<Rightarrow> exn + json" where
  "pageGet sb page s = and_then (pageTarget sb page s) (\<lambda>(r, i).
     Inr (JObj [(''interruptId'', JStr (i_id i)), (''kind'', JStr (ip_kind (payloadOf i))), (''data'', ip_data (payloadOf i))]))"

section \<open>Listening to tasks\<close>

text \<open>Only the ids the caller can read are acknowledged; the others are left out without a word.\<close>

definition readable_tasks :: "subject \<Rightarrow> json list \<Rightarrow> world \<Rightarrow> string list" where
  "readable_tasks sb raws w = List.map_filter (\<lambda>raw. case taskRun sb (Some raw) w of Inl e \<Rightarrow> None | Inr r \<Rightarrow> Some (projectBoundId (run_id r))) raws"

definition notification :: "string \<Rightarrow> (string \<times> json) list \<Rightarrow> json" where
  "notification meth params = JObj [(''jsonrpc'', JStr ''2.0''), (''method'', JStr meth), (''params'', JObj params)]"

definition subscription_meta :: "json \<Rightarrow> json" where
  "subscription_meta i = JObj [(''io.modelcontextprotocol/subscriptionId'', i)]"

definition acknowledgement :: "json \<Rightarrow> json \<Rightarrow> string list \<Rightarrow> json" where
  "acknowledgement i caps readable = notification ''notifications/subscriptions/acknowledged''
     [(''_meta'', subscription_meta i),
      (''notifications'', JObj (if declaresTasks caps then [(''taskIds'', JArr (map JStr readable))] else []))]"

definition requested_tasks :: "(string \<times> json) list \<Rightarrow> json list" where
  "requested_tasks params = (case jget (map_of params ''notifications'') ''taskIds'' of Some (JArr xs) \<Rightarrow> xs | _ \<Rightarrow> [])"

text \<open>One pass over the acknowledged ids; the last status and update time seen of each are kept between passes.\<close>

fun tick :: "mcp_env \<Rightarrow> json \<Rightarrow> string list \<Rightarrow> (string \<times> json option \<times> json option) list \<Rightarrow> mcp_sys
    \<Rightarrow> json list \<times> (string \<times> json option \<times> json option) list" where
  "tick env i [] seen s = ([], seen)"
| "tick env i (t # ts) seen s =
     (case (case unprojectBoundId t of Inl e \<Rightarrow> None | Inr rid \<Rightarrow> getRun rid (ms_world s)) of
        None \<Rightarrow> tick env i ts seen s
      | Some r \<Rightarrow>
        (case fst (taskOf env r True (JObj []) s) of
           Inl e \<Rightarrow> ([], seen)
         | Inr ps \<Rightarrow>
           (let now = (map_of ps ''status'', map_of ps ''lastUpdatedAt'') in
            if map_of seen t = Some now then tick env i ts seen s
            else (let (fs, seen') = tick env i ts (AList.update t now seen) s
                  in (notification ''notifications/tasks'' (ps @ [(''_meta'', subscription_meta i)]) # fs, seen')))))"

section \<open>Dispatch\<close>

definition inputSchemaOf :: "wf_def \<Rightarrow> json" where
  "inputSchemaOf def =
     (let required = map v_name (filter (\<lambda>v. v_required v = Some True) (wf_vars def));
          property = (\<lambda>v. jobj [(''description'', Some (JStr (''workflow variable '' @ v_name v))), (''default'', v_default v)])
      in JObj ([(''type'', JStr ''object''), (''properties'', JObj (fold (\<lambda>v ps. AList.update (v_name v) (property v) ps) (wf_vars def) [])),
           (''additionalProperties'', JBool True)] @ (if required = [] then [] else [(''required'', JArr (map JStr required))])))"

definition toolsList :: "mcp_env \<Rightarrow> json" where
  "toolsList env = complete [(''tools'', JArr (map (\<lambda>def. JObj [(''name'', JStr (wf_id def)), (''description'', JStr (me_describe env def)),
       (''inputSchema'', inputSchemaOf def)]) (sort_key wf_id (map snd (h_workflows (me_host env)))))),
     (''ttlMs'', JNum 60000), (''cacheScope'', JStr ''private'')]"

definition discovered :: "mcp_env \<Rightarrow> json" where
  "discovered env = complete [(''supportedVersions'', JArr (map JStr (me_revisions env))),
     (''capabilities'', JObj [(''tools'', JObj []), (''extensions'', JObj [(MCP_TASKS_EXTENSION, JObj [])])]),
     (''serverInfo'', me_info env), (''ttlMs'', JNum 60000), (''cacheScope'', JStr ''private''),
     (''_meta'', JObj [(''io.modelcontextprotocol/serverInfo'', me_info env)])]"

definition answered :: "(mcp_error + json) \<times> mcp_sys \<Rightarrow> (mcp_error + call_next) \<times> mcp_sys" where
  "answered a = (map_sum id Answer (fst a), snd a)"

definition with_tasks :: "json \<Rightarrow> mcp_sys \<Rightarrow> (mcp_error + json) \<times> mcp_sys \<Rightarrow> (mcp_error + call_next) \<times> mcp_sys" where
  "with_tasks caps s a = (case requireTasks caps of Inl e \<Rightarrow> (Inl e, s) | Inr u \<Rightarrow> answered a)"

definition dispatch :: "mcp_env \<Rightarrow> subject \<Rightarrow> string \<Rightarrow> (string \<times> json) list \<Rightarrow> json \<Rightarrow> trace_context option \<Rightarrow> mcp_sys
    \<Rightarrow> (mcp_error + call_next) \<times> mcp_sys" where
  "dispatch env sb meth params caps tr s =
     (let task = map_of params ''taskId'' in
      if meth = ''server/discover'' then (Inr (Answer (discovered env)), s)
      else if meth = ''tools/list'' then (Inr (Answer (toolsList env)), s)
      else if meth = ''tools/call'' then toolsCall env sb params caps tr s
      else if meth = ''tasks/get'' then with_tasks caps s (tasksGet env sb task caps s)
      else if meth = ''tasks/update'' then with_tasks caps s (tasksUpdate env sb task (map_of params ''inputResponses'') s)
      else if meth = ''tasks/cancel'' then with_tasks caps s (tasksCancel env sb task s)
      else (Inl (McpError (-32601) (''method '' @ meth @ '' is not served on this mount'') None 200), s))"

text \<open>
  A request up to its first wait: refused or answered, accepted without a body, waiting for a run it
  owns, or turned into a stream. The record of the negotiation in the audit log is left out.
\<close>

datatype served = Replies nat json | Accepted | Awaits json run_row | Listens json "string list"

definition rpc_id :: "json option \<Rightarrow> json" where
  "rpc_id raw = (case raw of Some (JStr x) \<Rightarrow> JStr x | Some (JNum n) \<Rightarrow> JNum n | _ \<Rightarrow> JNull)"

definition client_caps :: "(string \<times> json) list \<Rightarrow> json" where
  "client_caps params = (case jget (map_of params ''_meta'') ''io.modelcontextprotocol/clientCapabilities'' of Some (JObj ps) \<Rightarrow> JObj ps | _ \<Rightarrow> JObj [])"

definition replies :: "mcp_env \<Rightarrow> json \<Rightarrow> mcp_error \<Rightarrow> served" where
  "replies env i e = (let (st, body) = rpc_reply env i e in Replies st body)"

definition served_result :: "mcp_env \<Rightarrow> json \<Rightarrow> mcp_error + call_next \<Rightarrow> served" where
  "served_result env i a = (case a of Inl e \<Rightarrow> replies env i e
     | Inr (Answer j) \<Rightarrow> Replies 200 (JObj [(''jsonrpc'', JStr ''2.0''), (''id'', i), (''result'', j)])
     | Inr (Waits r) \<Rightarrow> Awaits i r)"

definition mcp_serve :: "mcp_env \<Rightarrow> subject \<Rightarrow> (string \<Rightarrow> string option) \<Rightarrow> string \<Rightarrow> json option \<Rightarrow> (string \<times> json) list \<Rightarrow> mcp_sys \<Rightarrow> served \<times> mcp_sys" where
  "mcp_serve env sb header meth rawId params s =
     (let i = rpc_id rawId; caps = client_caps params in
      case mount_refusal env header meth params of Some e \<Rightarrow> (replies env i e, s)
      | None \<Rightarrow>
        if rawId = None \<and> starts_with ''notifications/'' meth then (Accepted, s)
        else if meth = ''subscriptions/listen''
        then (if jget (map_of params ''notifications'') ''taskIds'' \<noteq> None \<and> requireTasks caps \<noteq> Inr ()
              then (case requireTasks caps of Inl e \<Rightarrow> (replies env i e, s) | Inr u \<Rightarrow> (Accepted, s))
              else (Listens i (readable_tasks sb (requested_tasks params) (ms_world s)), s))
        else (let (a, s1) = dispatch env sb meth params caps (inboundTraceContext (map_of params ''_meta'') header) s
              in (served_result env i a, s1)))"

definition mcpHandler :: "mcp_env \<Rightarrow> subject option \<Rightarrow> (string \<Rightarrow> string option) \<Rightarrow> string \<Rightarrow> mcp_sys \<Rightarrow> served \<times> mcp_sys" where
  "mcpHandler env subj header body s =
     (case subj of None \<Rightarrow> (replies env JNull (McpError (-32603) ''the mount is authenticated'' None 200), s)
      | Some sb \<Rightarrow>
        (case json_parse body of None \<Rightarrow> (replies env JNull (McpError (-32700) ''the request body is not JSON'' None 400), s)
         | Some j \<Rightarrow>
           (case (j, jfield j ''jsonrpc'' = Some (JStr ''2.0''), jfield j ''method'') of
              (JObj envelope, True, Some (JStr meth)) \<Rightarrow>
                (case map_of envelope ''params'' of
                   None \<Rightarrow> mcp_serve env sb header meth (map_of envelope ''id'') [] s
                 | Some (JObj ps) \<Rightarrow> mcp_serve env sb header meth (map_of envelope ''id'') ps s
                 | _ \<Rightarrow> (replies env (rpc_id (map_of envelope ''id'')) (refused ''params MUST be an object''), s))
            | _ \<Rightarrow> (replies env JNull (McpError (-32600) ''not a JSON-RPC 2.0 request'' None 400), s))))"

end
