(* ===== verification/Interop.thy ===== *)
theory Interop
  imports Trace Executor Egress
begin

text \<open>
  The host as a client of A2A and MCP peers (\<open>interop.ts\<close>): the order of versions, the
  decision of a negotiation, its record on the log of a run, the errors of a peer in either shape, and
  the two invocations. The network is what each request in turn finds; the requests made are kept in order.
\<close>

section \<open>Versions\<close>

text \<open>
  \<open>Number\<close> of one part of a version, \<open>None\<close> for not-a-number: the empty part is zero, a sign, an exponent or a
  radix prefix is read as JavaScript reads it. Infinity is taken as not-a-number: it is never below another part.
\<close>

definition radix_value :: "nat \<Rightarrow> string \<Rightarrow> nat option" where
  "radix_value b ds = (if ds \<noteq> [] \<and> list_all (\<lambda>c. case hex_value c of Some d \<Rightarrow> d < b | None \<Rightarrow> False) ds
     then Some (fold (\<lambda>c n. n * b + the (hex_value c)) ds 0) else None)"

definition digits_value :: "string \<Rightarrow> nat option" where
  "digits_value ds = (if ds \<noteq> [] \<and> list_all is_digit ds then Some (decimal_value ds) else None)"

definition unsigned_part :: "string \<Rightarrow> string" where
  "unsigned_part s = (case s of c # cs \<Rightarrow> if c = CHR ''+'' then cs else s | [] \<Rightarrow> s)"

definition version_part :: "string \<Rightarrow> nat option" where
  "version_part raw =
     (let s = js_trim raw in
      if s = [] then Some 0
      else case s of
          z # x # ds \<Rightarrow> if z = CHR ''0'' \<and> x \<in> {CHR ''x'', CHR ''X''} then radix_value 16 ds
            else if z = CHR ''0'' \<and> x \<in> {CHR ''o'', CHR ''O''} then radix_value 8 ds
            else if z = CHR ''0'' \<and> x \<in> {CHR ''b'', CHR ''B''} then radix_value 2 ds
            else (case split_on (CHR ''e'') (map (\<lambda>c. if c = CHR ''E'' then CHR ''e'' else c) (unsigned_part s)) of
                [m] \<Rightarrow> digits_value m
              | [m, e] \<Rightarrow> Option.bind (digits_value m) (\<lambda>n. map_option (\<lambda>k. n * 10 ^ k) (digits_value (unsigned_part e)))
              | _ \<Rightarrow> None)
        | _ \<Rightarrow> digits_value s)"

definition version_parts :: "string \<Rightarrow> nat option list" where
  "version_parts v = map version_part (split_on (CHR ''.'') (map (\<lambda>c. if c = CHR ''-'' then CHR ''.'' else c) v))"

fun lt_parts :: "nat option list \<Rightarrow> nat option list \<Rightarrow> bool" where
  "lt_parts [] [] = False"
| "lt_parts (x # xs) [] = (x = Some 0 \<and> lt_parts xs [])"
| "lt_parts [] (y # ys) = (case y of Some b \<Rightarrow> b \<noteq> 0 \<or> lt_parts [] ys | None \<Rightarrow> False)"
| "lt_parts (x # xs) (y # ys) = (case (x, y) of (Some a, Some b) \<Rightarrow> if a \<noteq> b then a < b else lt_parts xs ys | _ \<Rightarrow> False)"

definition lt :: "string \<Rightarrow> string \<Rightarrow> bool" where
  "lt a b = lt_parts (version_parts a) (version_parts b)"

section \<open>The decision\<close>

datatype decision = Accepted string | Refused string

text \<open>The sort by falling version; a comparator that is an order leaves the sort no other choice.\<close>

fun insert_version :: "string \<Rightarrow> string list \<Rightarrow> string list" where
  "insert_version v [] = [v]"
| "insert_version v (w # ws) = (if lt v w then w # insert_version v ws else v # w # ws)"

definition common_versions :: "string list \<Rightarrow> string \<Rightarrow> string list \<Rightarrow> string \<Rightarrow> string list" where
  "common_versions hv floor_version offers candidate = foldr insert_version
     (filter (\<lambda>v. v \<in> set offers \<and> \<not> lt v floor_version \<and> \<not> lt candidate v) hv) []"

definition decide :: "string list \<Rightarrow> string \<Rightarrow> string \<Rightarrow> string list \<Rightarrow> string option \<Rightarrow> bool \<Rightarrow> decision" where
  "decide hv preferred floor_version offers requested authenticated =
     (let candidate = (case requested of Some r \<Rightarrow> r | None \<Rightarrow> preferred) in
      if lt candidate floor_version then Refused ''below-floor''
      else if candidate \<notin> set hv then Refused ''unsupported''
      else case common_versions hv floor_version offers candidate of
          [] \<Rightarrow> Refused (if list_all (\<lambda>v. lt v floor_version) offers then ''below-floor'' else ''unsupported'')
        | chosen # _ \<Rightarrow> if lt chosen preferred \<and> \<not> authenticated then Refused ''unauthenticated'' else Accepted chosen)"

definition A2A_VERSIONS :: "string list" where "A2A_VERSIONS = [''1.0'']"
definition A2A_PREFERRED :: string where "A2A_PREFERRED = ''1.0''"
definition MCP_REVISIONS :: "string list" where "MCP_REVISIONS = [''2026-07-28'']"
definition MCP_PREFERRED :: string where "MCP_PREFERRED = ''2026-07-28''"
definition MCP_MAX_ROUNDS :: nat where "MCP_MAX_ROUNDS = 4"

text \<open>The minimum of either protocol is its preferred version.\<close>

definition decideInbound :: "bool \<Rightarrow> string option \<Rightarrow> decision" where
  "decideInbound a2a requested =
     (let floor_version = (if a2a then A2A_PREFERRED else MCP_PREFERRED); versions = (if a2a then A2A_VERSIONS else MCP_REVISIONS);
          candidate = (case requested of Some r \<Rightarrow> r | None \<Rightarrow> floor_version)
      in if lt candidate floor_version then Refused ''below-floor''
         else if candidate \<notin> set versions then Refused ''unsupported'' else Accepted candidate)"

definition a2aFacet :: "bool \<Rightarrow> json" where
  "a2aFacet push = JObj [(''versions'', JArr (map JStr A2A_VERSIONS)), (''preferredVersion'', JStr A2A_PREFERRED),
     (''minimumVersion'', JStr A2A_PREFERRED), (''refreshedAt'', JStr ''2026-09-18''), (''streaming'', JBool False),
     (''pushNotifications'', JBool push), (''durableTasks'', JBool False)]"

section \<open>Requests to a peer\<close>

record interop_env =
  io_host :: host
  io_net :: "nat \<Rightarrow> net_env"
  io_private :: bool
  io_requested :: bool
  io_span :: "nat \<Rightarrow> string"
  io_origin :: "string \<Rightarrow> string option"
  io_servers :: "(string \<times> string) list"
  io_facet :: bool

record peer_call =
  cl_url :: string
  cl_init :: egress_init

record probe =
  pr_at :: nat
  pr_ttl :: nat
  pr_outcome :: "exn + json"

record interop_sys =
  xs_world :: world
  xs_sent :: "peer_call list"
  xs_probes :: "(string \<times> probe) list"

definition NEGOTIATION_DECIDED :: string where "NEGOTIATION_DECIDED = ''negotiation.decided''"
definition invalid_url :: exn where "invalid_url = JsError ''Invalid URL''"

definition transmit :: "interop_env \<Rightarrow> string \<Rightarrow> egress_init \<Rightarrow> interop_sys \<Rightarrow> (exn + egress_result) \<times> interop_sys" where
  "transmit env u init s =
     (let ne = io_net env (length (xs_sent s)) in
      case ne_url ne u of None \<Rightarrow> (Inl invalid_url, s)
      | Some x \<Rightarrow> (guardedRequest ne x init, s\<lparr>xs_sent := xs_sent s @ [\<lparr>cl_url = u, cl_init = init\<rparr>]\<rparr>))"

definition body_json :: "egress_result \<Rightarrow> json option" where
  "body_json r = (if eg_body r = [] then None else json_parse (eg_body r))"

definition peer_init :: "bool \<Rightarrow> string \<Rightarrow> (string \<times> string) list \<Rightarrow> json option \<Rightarrow> egress_init" where
  "peer_init private meth headers body = \<lparr>ei_method = meth,
     ei_headers = (if body = None then [] else [(''Content-Type'', ''application/json'')]) @ [(''Accept'', ''application/json'')] @ headers,
     ei_body = map_option json_stringify body, ei_timeout = 20000, ei_private = private, ei_max_body = None\<rparr>"

record peer_reply =
  py_status :: nat
  py_json :: "json option"
  py_error :: "string option"

definition peer_reply_of :: "egress_result \<Rightarrow> peer_reply" where
  "peer_reply_of r = \<lparr>py_status = eg_status r, py_json = body_json r, py_error = eg_error r\<rparr>"

definition peer_request :: "interop_env \<Rightarrow> string \<Rightarrow> string \<Rightarrow> (string \<times> string) list \<Rightarrow> json option \<Rightarrow> interop_sys
    \<Rightarrow> (exn + peer_reply) \<times> interop_sys" where
  "peer_request env meth u headers body s =
     (let (r, s1) = transmit env u (peer_init (io_private env) meth headers body) s in (map_sum id peer_reply_of r, s1))"

text \<open>The first entry that satisfies a test; reading a member of a null entry throws.\<close>

fun find_entry :: "(json \<Rightarrow> bool) \<Rightarrow> json list \<Rightarrow> exn + json option" where
  "find_entry P [] = Inr None"
| "find_entry P (JNull # xs) = Inl (JsError ''Cannot read properties of null'')"
| "find_entry P (x # xs) = (if P x then Inr (Some x) else find_entry P xs)"

section \<open>The record of a negotiation\<close>

definition negotiation_record :: "interop_env \<Rightarrow> string \<Rightarrow> string \<Rightarrow> decision \<Rightarrow> string option \<Rightarrow> string option \<Rightarrow> nat \<Rightarrow> json" where
  "negotiation_record env protocol floor_version d requested digest now = jobj (
     [(''protocol'', Some (JStr protocol)), (''outcome'', Some (JStr (case d of Accepted v \<Rightarrow> ''accepted'' | Refused r \<Rightarrow> ''refused''))),
      (''version'', case d of Accepted v \<Rightarrow> Some (JStr v) | Refused r \<Rightarrow> None),
      (''reason'', Some (JStr (case d of Accepted v \<Rightarrow> ''ok'' | Refused r \<Rightarrow> r))),
      (''requested'', if io_requested env then map_option JStr requested else None),
      (''floor'', Some (JStr floor_version)), (''peerDigest'', map_option JStr digest), (''at'', Some (JStr (h_iso (io_host env) now)))])"

definition originDigest :: "interop_env \<Rightarrow> string \<Rightarrow> exn + string" where
  "originDigest env u = (case io_origin env u of None \<Rightarrow> Inl invalid_url | Some x \<Rightarrow> Inr (hex_of (h_sha256 (io_host env) x)))"

definition audit :: "interop_env \<Rightarrow> run_row \<Rightarrow> string \<Rightarrow> string \<Rightarrow> string \<Rightarrow> decision \<Rightarrow> string option \<Rightarrow> world \<Rightarrow> (exn + unit) \<times> world" where
  "audit env r protocol u floor_version d requested w =
     (case originDigest env u of Inl e \<Rightarrow> (Inl e, w)
      | Inr dg \<Rightarrow> (let (a, w1) = appendEvent (io_host env) r NEGOTIATION_DECIDED
            (negotiation_record env protocol floor_version d requested (Some dg) (w_clock w)) no_opts w
          in (map_sum id (\<lambda>_. ()) a, w1)))"

text \<open>The run that only holds the decision of an exchange: completed when it is made.\<close>

definition HOST_SUBJECT :: "string \<Rightarrow> subject" where
  "HOST_SUBJECT ten = \<lparr>sub_issuer = ''urn:openwop-v2-reference:host'', sub_id = ''interop'', sub_tenant = ten, sub_lane = ''workload'',
     sub_kind = ''workload''\<rparr>"

definition audit_row :: "string \<Rightarrow> subject option \<Rightarrow> string \<Rightarrow> nat \<Rightarrow> run_row" where
  "audit_row ten sb rid now =
     \<lparr>run_id = rid, r_tenant = ten, r_workflow = ''conformance-noop'', r_status = Completed, r_era = Some EVENT_LOG_SCHEMA_VERSION,
      r_owner = Some (JObj [(''tenant'', JStr ten), (''subject'', subject_json (case sb of Some x \<Rightarrow> x | None \<Rightarrow> HOST_SUBJECT ten))]),
      r_options = JObj [], r_inputs = JObj [], r_created = now, r_updated = now, r_started = Some now, r_completed = Some now, r_node = None,
      r_error = None, r_source = None, r_fork_mode = None, r_from_seq = None, r_comp = None, r_pause = False, r_cancel = False,
      r_pin_checked = True, r_scope = None\<rparr>"

definition auditRun :: "interop_env \<Rightarrow> string \<Rightarrow> subject option \<Rightarrow> world \<Rightarrow> (exn + run_row) \<times> world" where
  "auditRun env ten sb w =
     (let (rid, w1) = tenantBound (io_host env) ten w; row = audit_row ten sb rid (w_clock w)
      in case insertRun row w1 of None \<Rightarrow> (Inl (JsError ''UNIQUE constraint failed: runs''), w1) | Some w2 \<Rightarrow> (Inr row, w2))"

definition interop_refusal :: "string \<Rightarrow> string \<Rightarrow> string list \<Rightarrow> string \<Rightarrow> string \<Rightarrow> exn" where
  "interop_refusal protocol requested supported rid reason =
     HostError ''interop_version_unsupported'' (protocol @ '' negotiation refused: '' @ reason)
       (Some (JObj [(''protocol'', JStr protocol), (''requested'', JStr requested), (''supported'', JArr (map JStr supported)),
          (''runId'', JStr rid), (''reason'', JStr reason)]))"

section \<open>The error of a peer\<close>

record peer_error =
  pe_code :: "int option"
  pe_reason :: "string option"
  pe_supported :: "string list"

definition ERROR_INFO_TYPE :: string where "ERROR_INFO_TYPE = ''type.googleapis.com/google.rpc.ErrorInfo''"

definition num_of :: "json option \<Rightarrow> int option" where
  "num_of v = (case v of Some (JNum n) \<Rightarrow> Some n | _ \<Rightarrow> None)"

definition error_info :: "json option \<Rightarrow> json option" where
  "error_info data = (case data of
       Some (JArr xs) \<Rightarrow> find (\<lambda>x. jfield x ''@type'' = Some (JStr ERROR_INFO_TYPE)) xs
     | Some (JObj ps) \<Rightarrow> Some (JObj ps)
     | _ \<Rightarrow> None)"

definition readPeerError :: "json option \<Rightarrow> peer_error" where
  "readPeerError e =
     (let info = error_info (jget e ''data''); md = jget info ''metadata'';
          sv = nullish (jget md ''supportedVersions'') (jget info ''supportedVersions'')
      in \<lparr>pe_code = num_of (jget e ''code''), pe_reason = str_of (jget info ''reason''),
           pe_supported = (case sv of Some (JStr s) \<Rightarrow> filter (\<lambda>v. v \<noteq> []) (map js_trim (split_on (CHR '','') s))
             | Some (JArr xs) \<Rightarrow> map (\<lambda>x. js_String (Some x)) xs | _ \<Rightarrow> [])\<rparr>)"

definition isVersionNotSupported :: "peer_error \<Rightarrow> bool" where
  "isVersionNotSupported p \<longleftrightarrow> pe_code p = Some (-32009) \<or> pe_reason p = Some ''VERSION_NOT_SUPPORTED''"

section \<open>Calling an A2A peer\<close>

definition without_slash :: "string \<Rightarrow> string" where
  "without_slash s = (if s \<noteq> [] \<and> last s = CHR ''/'' then butlast s else s)"

definition dotted_version :: "string \<Rightarrow> bool" where
  "dotted_version v \<longleftrightarrow> (case split_on (CHR ''.'') v of [a, b] \<Rightarrow> a \<noteq> [] \<and> b \<noteq> [] \<and> list_all is_digit (a @ b) | _ \<Rightarrow> False)"

definition major_minor :: "string \<Rightarrow> string" where
  "major_minor v = (case split_on (CHR ''.'') v of a # b # _ \<Rightarrow> a @ ''.'' @ b | _ \<Rightarrow> v)"

definition card_ifaces :: "json option \<Rightarrow> json list" where
  "card_ifaces described = (case jget described ''supportedInterfaces'' of Some (JArr xs) \<Rightarrow> xs | _ \<Rightarrow> [])"

text \<open>The versions an Agent Card offers and the address of its JSON-RPC interface.\<close>

definition card_offers :: "json option \<Rightarrow> exn + string list" where
  "card_offers described =
     (if \<not> truthy described then Inr []
      else if JNull \<in> set (card_ifaces described) then Inl (JsError ''Cannot read properties of null'')
      else let vs = filter dotted_version (map (\<lambda>i. js_String (nullish (jfield i ''protocolVersion'') (Some (JStr [])))) (card_ifaces described))
        in Inr (if vs \<noteq> [] then vs else case jget described ''protocolVersion'' of Some (JStr v) \<Rightarrow> [major_minor v] | _ \<Rightarrow> []))"

definition card_rpc_url :: "string \<Rightarrow> json option \<Rightarrow> string" where
  "card_rpc_url base described =
     (case nullish (Option.bind (find (\<lambda>i. is_str (jfield i ''url'')) (card_ifaces described)) (\<lambda>i. jfield i ''url'')) (jget described ''url'') of
        Some (JStr u) \<Rightarrow> u | _ \<Rightarrow> base @ ''/a2a/jsonrpc'')"

definition send_message_rpc :: "json \<Rightarrow> json" where
  "send_message_rpc message = JObj [(''jsonrpc'', JStr ''2.0''), (''id'', JNum 1), (''method'', JStr ''SendMessage''),
     (''params'', JObj [(''message'', message)])]"

definition probe_message :: "string \<Rightarrow> json" where
  "probe_message rid = JObj [(''messageId'', JStr (''neg-'' @ (case split_on (CHR ''/'') rid of a # b # _ \<Rightarrow> b | _ \<Rightarrow> rid))),
     (''role'', JStr ''ROLE_USER''), (''parts'', JArr [JObj [(''text'', JStr ''ping'')]])]"

definition trace_members :: "trace_context option \<Rightarrow> (string \<times> json) list" where
  "trace_members tc = map (\<lambda>(k, v). (k, JStr v)) (traceFields tc)"

definition ping_message :: "trace_context option \<Rightarrow> json" where
  "ping_message tc = JObj ([(''role'', JStr ''user''), (''parts'', JArr [JObj [(''text'', JStr ''ping'')]])]
     @ (case tc of None \<Rightarrow> [] | Some t \<Rightarrow> [(''metadata'', JObj [(''openwop'', JObj (trace_members tc))])]))"

definition next_span :: "interop_env \<Rightarrow> trace_context option \<Rightarrow> interop_sys \<Rightarrow> trace_context option" where
  "next_span env trace s = Option.bind trace (\<lambda>t. childOf t (io_span env (length (xs_sent s))))"

text \<open>
  A refused decision: only an unsupported version that was asked for is put to the peer, for the versions
  its error names.
\<close>

definition a2a_refused :: "interop_env \<Rightarrow> string \<Rightarrow> string \<Rightarrow> string option \<Rightarrow> string \<Rightarrow> interop_sys \<Rightarrow> exn \<times> interop_sys" where
  "a2a_refused env rid u requested reason s =
     (case (reason = ''unsupported'', requested) of
        (True, Some v) \<Rightarrow>
          (case peer_request env ''POST'' u [(''A2A-Version'', v)] (Some (send_message_rpc (probe_message rid))) s of
             (Inl e, s1) \<Rightarrow> (e, s1)
           | (Inr p, s1) \<Rightarrow>
             (let peer = readPeerError (jget (py_json p) ''error'');
                  supported = (if isVersionNotSupported peer \<and> pe_supported peer \<noteq> [] then pe_supported peer else A2A_VERSIONS)
              in (interop_refusal ''a2a'' v supported rid reason, s1)))
      | _ \<Rightarrow> (interop_refusal ''a2a'' (case requested of Some v \<Rightarrow> v | None \<Rightarrow> A2A_PREFERRED) A2A_VERSIONS rid reason, s))"

definition a2a_send :: "interop_env \<Rightarrow> string \<Rightarrow> string \<Rightarrow> string \<Rightarrow> string \<Rightarrow> trace_context option \<Rightarrow> interop_sys \<Rightarrow> (exn + json) \<times> interop_sys" where
  "a2a_send env peerUrl rid u version trace s =
     (let tc = next_span env trace s in
      case peer_request env ''POST'' u ((''A2A-Version'', version) # traceHeaders tc) (Some (send_message_rpc (ping_message tc))) s of
        (Inl e, s1) \<Rightarrow> (Inl e, s1)
      | (Inr p, s1) \<Rightarrow>
        (let e = jget (py_json p) ''error'' in
         if truthy e \<and> isVersionNotSupported (readPeerError e) then (Inl (interop_refusal ''a2a'' version A2A_VERSIONS rid ''unsupported''), s1)
         else if py_status p \<ge> 400 \<or> truthy e
         then (Inl (HostError ''validation_error'' (''the peer refused SendMessage under A2A-Version '' @ version)
                (Some (JObj [(''peerStatus'', JNum (int (py_status p))), (''error'', or_null e), (''runId'', JStr rid)]))), s1)
         else case originDigest env peerUrl of Inl x \<Rightarrow> (Inl x, s1)
           | Inr dg \<Rightarrow> (Inr (JObj [(''negotiatedVersion'', JStr version), (''protocol'', JStr ''a2a''), (''runId'', JStr rid), (''peerDigest'', JStr dg),
               (''result'', or_null (jget (py_json p) ''result''))]), s1)))"

text \<open>A run to hold the decision, the card, the decision and its record.\<close>

definition a2a_decided :: "interop_env \<Rightarrow> string \<Rightarrow> subject option \<Rightarrow> string \<Rightarrow> json \<Rightarrow> interop_sys
    \<Rightarrow> (exn + run_row \<times> string \<times> decision) \<times> interop_sys" where
  "a2a_decided env ten sb peerUrl body s =
     (case auditRun env ten sb (xs_world s) of (Inl e, w) \<Rightarrow> (Inl e, s\<lparr>xs_world := w\<rparr>)
      | (Inr r, w) \<Rightarrow>
        (let base = without_slash peerUrl in
         case peer_request env ''GET'' (base @ ''/.well-known/agent-card.json'') [(''A2A-Version'', A2A_PREFERRED)] None (s\<lparr>xs_world := w\<rparr>) of
           (Inl e, s1) \<Rightarrow> (Inl e, s1)
         | (Inr p, s1) \<Rightarrow>
           (case card_offers (py_json p) of Inl e \<Rightarrow> (Inl e, s1)
            | Inr offered \<Rightarrow>
              (let offers = (case jfield body ''peerOffersOnly'' of Some (JStr v) \<Rightarrow> filter (\<lambda>x. x = v) offered | _ \<Rightarrow> offered);
                   requested = str_of (jfield body ''requestVersion'');
                   d = decide A2A_VERSIONS A2A_PREFERRED A2A_PREFERRED offers requested (jfield body ''authenticated'' \<noteq> Some (JBool False));
                   (a, w1) = audit env r ''a2a'' peerUrl A2A_PREFERRED d (Some (case requested of Some v \<Rightarrow> v | None \<Rightarrow> A2A_PREFERRED)) (xs_world s1)
               in (map_sum id (\<lambda>_. (r, card_rpc_url base (py_json p), d)) a, s1\<lparr>xs_world := w1\<rparr>)))))"

definition a2aInvoke :: "interop_env \<Rightarrow> string \<Rightarrow> subject option \<Rightarrow> json \<Rightarrow> trace_context option \<Rightarrow> interop_sys \<Rightarrow> (exn + json) \<times> interop_sys" where
  "a2aInvoke env ten sb body trace s =
     (let peerUrl = text_of (jfield body ''peerUrl'') in
      if peerUrl = [] then (Inl (HostError ''validation_error'' ''peerUrl is REQUIRED'' None), s)
      else case a2a_decided env ten sb peerUrl body s of
          (Inl e, s1) \<Rightarrow> (Inl e, s1)
        | (Inr (r, u, Refused reason), s1) \<Rightarrow>
            (let (e, s2) = a2a_refused env (run_id r) u (str_of (jfield body ''requestVersion'')) reason s1 in (Inl e, s2))
        | (Inr (r, u, Accepted version), s1) \<Rightarrow> a2a_send env peerUrl (run_id r) u version trace s1)"

section \<open>Calling a tool with its input rounds\<close>

text \<open>
  The loop over \<open>input_required\<close> answers that both MCP clients run: a round is sent, a final answer ends the loop,
  and an asking one is answered in the next round, while one is left.
\<close>

definition asks_input :: "json \<Rightarrow> bool" where
  "asks_input r \<longleftrightarrow> jfield r ''resultType'' = Some (JStr ''input_required'')"

definition requested_keys :: "json \<Rightarrow> string list" where
  "requested_keys r = (case jfield r ''inputRequests'' of
       Some (JObj ps) \<Rightarrow> map fst ps
     | Some (JArr xs) \<Rightarrow> map nat_string [0..<length xs]
     | Some (JStr t) \<Rightarrow> map nat_string [0..<utf16_length t]
     | _ \<Rightarrow> [])"

fun mrtr :: "(nat \<Rightarrow> json option \<Rightarrow> 's \<Rightarrow> (exn + json) \<times> 's) \<Rightarrow> (nat \<Rightarrow> exn) \<Rightarrow> nat \<Rightarrow> nat \<Rightarrow> json option \<Rightarrow> 's
    \<Rightarrow> (exn + json \<times> nat \<times> json option) \<times> 's" where
  "mrtr call exceeded left rounds prev s =
     (case call rounds prev s of
        (Inl e, s1) \<Rightarrow> (Inl e, s1)
      | (Inr r, s1) \<Rightarrow>
        if \<not> asks_input r then (Inr (r, rounds, prev), s1)
        else (case left of 0 \<Rightarrow> (Inl (exceeded (Suc rounds)), s1)
          | Suc k \<Rightarrow> mrtr call exceeded k (Suc rounds) (Some r) s1))"

text \<open>The parameters of a round: the retry carries the answers to what was asked and the state it was asked under.\<close>

definition round_params :: "string \<Rightarrow> json \<Rightarrow> json \<Rightarrow> json \<Rightarrow> json option \<Rightarrow> json" where
  "round_params name args meta reply prev = (case prev of
       None \<Rightarrow> JObj [(''name'', JStr name), (''arguments'', args), (''_meta'', meta)]
     | Some r \<Rightarrow> jobj [(''name'', Some (JStr name)), (''arguments'', Some args),
         (''inputResponses'', Some (JObj (map (\<lambda>k. (k, reply)) (requested_keys r)))), (''requestState'', jfield r ''requestState''), (''_meta'', Some meta)])"

definition META_PROTOCOL :: string where "META_PROTOCOL = ''io.modelcontextprotocol/protocolVersion''"
definition META_CAPS :: string where "META_CAPS = ''io.modelcontextprotocol/clientCapabilities''"

definition client_meta :: "string \<Rightarrow> json \<Rightarrow> trace_context option \<Rightarrow> json" where
  "client_meta version caps tc = JObj ([(META_PROTOCOL, JStr version), (META_CAPS, caps)] @ trace_members tc)"

definition rpc_body :: "int \<Rightarrow> string \<Rightarrow> json \<Rightarrow> json" where
  "rpc_body i meth params = JObj [(''jsonrpc'', JStr ''2.0''), (''id'', JNum i), (''method'', JStr meth), (''params'', params)]"

definition strings_of :: "json option \<Rightarrow> string list option" where
  "strings_of v = (case v of Some (JArr xs) \<Rightarrow> Some (map (\<lambda>x. js_String (Some x)) xs) | _ \<Rightarrow> None)"

text \<open>What a server offers: its discovery, or the versions its refusal of the preferred one names.\<close>

definition server_offers :: "json option \<Rightarrow> string list" where
  "server_offers j = (case strings_of (jget (jget j ''result'') ''supportedVersions'') of Some vs \<Rightarrow> vs
     | None \<Rightarrow> (case strings_of (jget (jget (jget j ''error'') ''data'') ''supported'') of Some vs \<Rightarrow> vs | None \<Rightarrow> []))"

definition object_or :: "json option \<Rightarrow> json \<Rightarrow> json" where
  "object_or v d = (case v of Some (JObj ps) \<Rightarrow> JObj ps | Some (JArr xs) \<Rightarrow> JArr xs | _ \<Rightarrow> d)"

definition mcp_decided :: "interop_env \<Rightarrow> string \<Rightarrow> subject option \<Rightarrow> string \<Rightarrow> json \<Rightarrow> interop_sys
    \<Rightarrow> (exn + run_row \<times> decision) \<times> interop_sys" where
  "mcp_decided env ten sb serverUrl body s =
     (case auditRun env ten sb (xs_world s) of (Inl e, w) \<Rightarrow> (Inl e, s\<lparr>xs_world := w\<rparr>)
      | (Inr r, w) \<Rightarrow>
        (case peer_request env ''POST'' serverUrl [(''MCP-Protocol-Version'', MCP_PREFERRED)] (Some (rpc_body 1 ''server/discover'' (JObj [])))
             (s\<lparr>xs_world := w\<rparr>) of
           (Inl e, s1) \<Rightarrow> (Inl e, s1)
         | (Inr p, s1) \<Rightarrow>
           (let requested = str_of (jfield body ''requestVersion'');
                d = decide MCP_REVISIONS MCP_PREFERRED MCP_PREFERRED (server_offers (py_json p)) requested (jfield body ''authenticated'' \<noteq> Some (JBool False));
                (a, w1) = audit env r ''mcp'' serverUrl MCP_PREFERRED d (Some (case requested of Some v \<Rightarrow> v | None \<Rightarrow> MCP_PREFERRED)) (xs_world s1)
            in (map_sum id (\<lambda>_. (r, d)) a, s1\<lparr>xs_world := w1\<rparr>))))"

definition rounds_exceeded :: "(string \<times> json) list \<Rightarrow> nat \<Rightarrow> exn" where
  "rounds_exceeded details n = HostError ''mcp_mrtr_rounds_exceeded''
     (''MRTR round '' @ nat_string n @ '' exceeds mcp.mrtr.maxRounds '' @ nat_string MCP_MAX_ROUNDS) (Some (JObj details))"

definition tool_refused :: "string \<Rightarrow> peer_reply \<Rightarrow> string \<Rightarrow> exn" where
  "tool_refused version p rid = HostError ''validation_error'' (''the MCP server refused tools/call under '' @ version)
     (Some (jobj [(''serverStatus'', Some (JNum (int (py_status p)))), (''error'', Some (or_null (jget (py_json p) ''error''))),
        (''runId'', Some (JStr rid)), (''transportError'', map_option JStr (py_error p))]))"

definition invoke_round :: "interop_env \<Rightarrow> string \<Rightarrow> string \<Rightarrow> (string \<times> string) list \<Rightarrow> string \<Rightarrow> (json option \<Rightarrow> json) \<Rightarrow> nat \<Rightarrow> json option
    \<Rightarrow> interop_sys \<Rightarrow> (exn + json) \<times> interop_sys" where
  "invoke_round env u version headers rid params rounds prev s =
     (case peer_request env ''POST'' u headers (Some (rpc_body (2 + int rounds) ''tools/call'' (params prev))) s of
        (Inl e, s1) \<Rightarrow> (Inl e, s1)
      | (Inr p, s1) \<Rightarrow>
        (let e = jget (py_json p) ''error'' in
         case jget (py_json p) ''result'' of
           Some r \<Rightarrow> if truthy (Some r) \<and> \<not> truthy e then (Inr r, s1) else (Inl (tool_refused version p rid), s1)
         | None \<Rightarrow> (Inl (tool_refused version p rid), s1)))"

definition invoked :: "string \<Rightarrow> string \<Rightarrow> string \<Rightarrow> json \<times> nat \<times> json option \<Rightarrow> json" where
  "invoked version rid digest out = (case out of (r, rounds, prev) \<Rightarrow>
     JObj ([(''negotiatedVersion'', JStr version), (''protocol'', JStr ''mcp''), (''runId'', JStr rid), (''peerDigest'', JStr digest), (''result'', r)]
       @ (case prev of None \<Rightarrow> [] | Some q \<Rightarrow> [(''mrtr'', JObj [(''inputRequiredSeen'', JBool True), (''retried'', JBool True),
            (''requestStateEchoed'', JBool (is_str (jfield q ''requestState''))), (''rounds'', JNum (int rounds)), (''result'', r)])])))"

definition mcpInvoke :: "interop_env \<Rightarrow> string \<Rightarrow> subject option \<Rightarrow> json \<Rightarrow> trace_context option \<Rightarrow> interop_sys \<Rightarrow> (exn + json) \<times> interop_sys" where
  "mcpInvoke env ten sb body trace s =
     (let serverUrl = text_of (jfield body ''serverUrl'') in
      if serverUrl = [] then (Inl (HostError ''validation_error'' ''serverUrl is REQUIRED'' None), s)
      else case mcp_decided env ten sb serverUrl body s of
          (Inl e, s1) \<Rightarrow> (Inl e, s1)
        | (Inr (r, Refused reason), s1) \<Rightarrow>
            (Inl (interop_refusal ''mcp'' (case str_of (jfield body ''requestVersion'') of Some v \<Rightarrow> v | None \<Rightarrow> MCP_PREFERRED) MCP_REVISIONS (run_id r) reason), s1)
        | (Inr (r, Accepted version), s1) \<Rightarrow>
            (let tool = (case jfield body ''tool'' of Some (JStr t) \<Rightarrow> t | _ \<Rightarrow> ''echo'');
                 args = object_or (jfield body ''arguments'') (JObj [(''text'', JStr ''ping'')]);
                 caps = object_or (jfield body ''clientCapabilities'') (JObj []);
                 reply = (case object_or (jfield body ''elicitationAnswer'') JNull of JNull \<Rightarrow> JObj [(''action'', JStr ''decline'')]
                   | a \<Rightarrow> JObj [(''action'', JStr ''accept''), (''content'', a)]);
                 tc = next_span env trace s1;
                 params = round_params tool args (client_meta version caps tc) reply
             in case mrtr (invoke_round env serverUrl version ((''MCP-Protocol-Version'', version) # traceHeaders tc) (run_id r) params)
                   (\<lambda>n. rounds_exceeded [(''rounds'', JNum (int n)), (''maxRounds'', JNum (int MCP_MAX_ROUNDS)), (''runId'', JStr (run_id r))] n)
                   MCP_MAX_ROUNDS 0 None s1 of
                  (Inl e, s2) \<Rightarrow> (Inl e, s2)
                | (Inr out, s2) \<Rightarrow> (case originDigest env serverUrl of Inl e \<Rightarrow> (Inl e, s2) | Inr dg \<Rightarrow> (Inr (invoked version (run_id r) dg out), s2))))"

end
