(* ===== verification/Agents.thy ===== *)
theory Agents
  imports Mcp Interop
begin

text \<open>
  The manifest-agent inventory (\<open>agents.ts\<close>) and the purpose label of an inbound message
  (\<open>purpose.ts\<close>): which agents a tenant has installed, the keyed routing value of an agent, its
  resolution within the caller's own inventory, and what a relay run forwards. The bundled agents are
  constants of the module; the handoff schemas are two flags of theirs.
\<close>

record bundled_agent =
  ba_id :: string
  ba_persona :: string
  ba_label :: string
  ba_description :: string
  ba_prompt :: string

record inventory_entry =
  ie_agent :: string
  ie_persona :: string
  ie_label :: string
  ie_description :: string
  ie_model :: string
  ie_pack :: string
  ie_version :: string
  ie_handoff :: bool
  ie_routing :: "string option"

text \<open>The configuration values the A2A interface reads.\<close>

record a2a_env =
  ae_host :: host
  ae_net :: net_env
  ae_private :: bool
  ae_attempts :: nat
  ae_workflow :: string
  ae_push :: bool
  ae_cards :: bool
  ae_tenant :: string
  ae_tenant_b :: "string option"
  ae_relay_peer :: "string option"
  ae_card_secret :: string
  ae_version :: string
  ae_status :: "string \<Rightarrow> nat"
  ae_random :: "nat \<Rightarrow> string"
  ae_skill :: "string \<Rightarrow> json"
  ae_provider :: json

definition RELAY_WORKFLOW_ID :: string where "RELAY_WORKFLOW_ID = ''conformance-purpose-relay''"
definition RELAY_AGENT_ID :: string where "RELAY_AGENT_ID = ''core.conformance.agent-pack.relay''"
definition RESOLVER :: string where "RESOLVER = ''core.conformance.agent-pack.resolver''"
definition ESCALATOR :: string where "ESCALATOR = ''core.conformance.agent-pack.escalator''"

definition BUNDLED :: "(string \<times> bundled_agent) list" where
  "BUNDLED = [
     (RESOLVER, \<lparr>ba_id = RESOLVER, ba_persona = ''Resolver'', ba_label = ''Resolver'',
        ba_description = ''Resolves a request by running the approval workflow the host routes to it.'',
        ba_prompt = ''You are the resolver. OPENWOP-CONFORMANCE-CANARY-0202-PROMPT''\<rparr>),
     (RELAY_AGENT_ID, \<lparr>ba_id = RELAY_AGENT_ID, ba_persona = ''Relay'', ba_label = ''Relay'',
        ba_description = ''Relays an inbound message to a configured A2A peer, carrying its purpose label.'',
        ba_prompt = ''You are the relay. OPENWOP-CONFORMANCE-CANARY-0202-PROMPT''\<rparr>),
     (ESCALATOR, \<lparr>ba_id = ESCALATOR, ba_persona = ''Escalator'', ba_label = ''Escalator'',
        ba_description = ''Escalates a request by running the approval workflow the host routes to it.'',
        ba_prompt = ''You are the escalator. OPENWOP-CONFORMANCE-CANARY-0202-PROMPT''\<rparr>)]"

definition relayAvailable :: "a2a_env \<Rightarrow> bool" where
  "relayAvailable env \<longleftrightarrow> workflow_of (ae_host env) RELAY_WORKFLOW_ID \<noteq> None \<and> ae_relay_peer env \<noteq> None"

text \<open>The second tenant exists when a key provisions it.\<close>

definition installsOf :: "a2a_env \<Rightarrow> string \<Rightarrow> string list" where
  "installsOf env ten =
     (if ten = ae_tenant env then (if relayAvailable env then [RESOLVER, RELAY_AGENT_ID] else [RESOLVER])
      else if ae_tenant_b env = Some ten then [ESCALATOR] else [])"

definition routingValue :: "a2a_env \<Rightarrow> string \<Rightarrow> string" where
  "routingValue env aid = ''ag-'' @ take 22 (base64url (h_hmac (ae_host env) (ae_card_secret env) (aid @ [CHR 0x0A] @ ae_version env)))"

definition routedWorkflows :: "a2a_env \<Rightarrow> string \<Rightarrow> string list" where
  "routedWorkflows env aid = (let i = (if aid = RELAY_AGENT_ID then RELAY_WORKFLOW_ID else ae_workflow env)
     in if workflow_of (ae_host env) i \<noteq> None then [i] else [])"

definition entryOf :: "a2a_env \<Rightarrow> bundled_agent \<Rightarrow> inventory_entry" where
  "entryOf env a = \<lparr>ie_agent = ba_id a, ie_persona = ba_persona a, ie_label = ba_label a, ie_description = ba_description a,
     ie_model = ''chat'', ie_pack = ''core.conformance.agent-pack'', ie_version = ''1.0.0'', ie_handoff = True,
     ie_routing = (if ae_cards env \<and> routedWorkflows env (ba_id a) \<noteq> [] then Some (routingValue env (ba_id a)) else None)\<rparr>"

definition inventoryFor :: "a2a_env \<Rightarrow> subject \<Rightarrow> inventory_entry list" where
  "inventoryFor env sb = sort_key ie_agent (map (entryOf env) (List.map_filter (map_of BUNDLED) (installsOf env (sub_tenant sb))))"

definition resolveRoutingValue :: "a2a_env \<Rightarrow> subject \<Rightarrow> string \<Rightarrow> inventory_entry option" where
  "resolveRoutingValue env sb r = find (\<lambda>e. ie_routing e = Some r) (inventoryFor env sb)"

definition agentRefOf :: "inventory_entry \<Rightarrow> json" where
  "agentRefOf e = JObj [(''agentId'', JStr (ie_agent e)), (''name'', JStr (ie_persona e)), (''modelClass'', JStr (ie_model e))]"

definition entry_json :: "inventory_entry \<Rightarrow> json" where
  "entry_json e = jobj [(''agentId'', Some (JStr (ie_agent e))), (''persona'', Some (JStr (ie_persona e))), (''label'', Some (JStr (ie_label e))),
     (''description'', Some (JStr (ie_description e))), (''modelClass'', Some (JStr (ie_model e))), (''packName'', Some (JStr (ie_pack e))),
     (''packVersion'', Some (JStr (ie_version e))), (''toolAllowlist'', Some (JArr [])), (''hasHandoffSchemas'', Some (JBool (ie_handoff e))),
     (''a2aTenant'', map_option JStr (ie_routing e))]"

definition agents_handler :: "a2a_env \<Rightarrow> subject \<Rightarrow> exn + json" where
  "agents_handler env sb =
     (if \<not> ae_cards env then Inl (HostError ''not_found'' ''agents.manifestRuntime is not advertised by this host'' None)
      else let es = inventoryFor env sb in Inr (JObj [(''agents'', JArr (map entry_json es)), (''total'', JNum (int (length es)))]))"

definition agent_handler :: "a2a_env \<Rightarrow> subject \<Rightarrow> string \<Rightarrow> exn + json" where
  "agent_handler env sb aid =
     (if \<not> ae_cards env then Inl (HostError ''not_found'' ''agents.manifestRuntime is not advertised by this host'' None)
      else case find (\<lambda>e. ie_agent e = aid) (inventoryFor env sb) of
          None \<Rightarrow> Inl (HostError ''not_found'' ''no such agent'' None) | Some e \<Rightarrow> Inr (entry_json e))"

section \<open>The purpose label\<close>

text \<open>\<open>Inl\<close> is \<open>'invalid'\<close>; an absent label is \<open>Inr None\<close>.\<close>

definition inboundLabel :: "json option \<Rightarrow> unit + string list option" where
  "inboundLabel metadata =
     (let openwop = jget metadata ''openwop''; label = (if is_object openwop then jget openwop ''permittedPurposes'' else None) in
      case label of None \<Rightarrow> Inr None
      | Some (JArr xs) \<Rightarrow> if list_all (\<lambda>x. is_str (Some x)) xs then Inr (Some (map js_string xs)) else Inl ()
      | Some _ \<Rightarrow> Inl ())"

definition inboundOf :: "json list \<Rightarrow> string list option \<Rightarrow> json" where
  "inboundOf parts label = jobj
     [(''parts'', Some (JArr (List.map_filter (\<lambda>p. map_option (\<lambda>t. JObj [(''text'', JStr t)]) (str_of (jfield p ''text''))) parts))),
      (''permittedPurposes'', map_option (\<lambda>ls. JArr (map JStr ls)) label)]"

text \<open>
  The relay node up to the requests it makes: what it forwards, and to whom, or its refusal. The peer's
  card names the interface; the request under that address is judged by its answer.
\<close>

definition relay_message :: "run_row \<Rightarrow> exn + json \<times> nat" where
  "relay_message r =
     (case jfield (r_options r) ''a2aInbound'' of
        None \<Rightarrow> Inl (HostError ''validation_error'' ''the relay forwards an inbound A2A message, and this run was not started by one'' None)
      | Some inbound \<Rightarrow>
        (let label = jfield inbound ''permittedPurposes''; parts = (case jfield inbound ''parts'' of Some (JArr ps) \<Rightarrow> ps | _ \<Rightarrow> []) in
         if label = Some (JArr [])
         then Inl (HostError ''forbidden'' (''the inbound data is labelled permittedPurposes: [] '' @ EM_DASH @ '' no onward use is permitted'') None)
         else Inr (jobj [(''messageId'', Some (JStr (''relay-'' @ (case split_on (CHR ''/'') (run_id r) of a # b # _ \<Rightarrow> b | _ \<Rightarrow> run_id r)))),
               (''role'', Some (JStr ''ROLE_USER'')), (''parts'', Some (JArr parts)),
               (''metadata'', map_option (\<lambda>l. JObj [(''openwop'', JObj [(''permittedPurposes'', l)])]) label)], length parts)))"

definition rpc_url :: "string \<Rightarrow> json option \<Rightarrow> exn + string" where
  "rpc_url base described =
     (case find_entry (\<lambda>i. jfield i ''protocolBinding'' = Some (JStr ''JSONRPC'') \<and> is_str (jfield i ''url'')) (card_ifaces described) of
        Inl e \<Rightarrow> Inl e
      | Inr (Some i) \<Rightarrow> Inr (text_of (jfield i ''url''))
      | Inr None \<Rightarrow> Inr (base @ ''/a2a/jsonrpc''))"

definition relay_answer :: "nat \<Rightarrow> peer_reply \<Rightarrow> exn + json" where
  "relay_answer n r =
     (if py_status r = 0 \<or> py_status r \<ge> 400 \<or> jget (py_json r) ''error'' \<noteq> None
      then Inl (HostError ''validation_error'' (''the relay peer refused SendMessage ('' @ nat_string (py_status r)
             @ (case py_error r of Some m \<Rightarrow> if m = [] then [] else '': '' @ m | None \<Rightarrow> []) @ '')'')
             (Some (JObj [(''peerStatus'', JNum (int (py_status r)))])))
      else Inr (JObj [(''relayed'', JNum (int n))]))"

definition relay :: "a2a_env \<Rightarrow> interop_env \<Rightarrow> run_row \<Rightarrow> interop_sys \<Rightarrow> (exn + json) \<times> interop_sys" where
  "relay env io r s =
     (case (relay_message r, ae_relay_peer env) of
        (Inl e, _) \<Rightarrow> (Inl e, s)
      | (Inr _, None) \<Rightarrow> (Inl (HostError ''validation_error'' ''no relay peer is configured (OPENWOP_A2A_RELAY_PEER_URL)'' None), s)
      | (Inr (message, n), Some peer) \<Rightarrow>
        (let base = without_slash peer in
         case peer_request io ''GET'' (base @ ''/.well-known/agent-card.json'') [(''A2A-Version'', ''1.0'')] None s of
           (Inl e, s1) \<Rightarrow> (Inl e, s1)
         | (Inr described, s1) \<Rightarrow>
           (case rpc_url base (py_json described) of Inl e \<Rightarrow> (Inl e, s1)
            | Inr u \<Rightarrow>
              (case peer_request io ''POST'' u [(''A2A-Version'', ''1.0'')] (Some (send_message_rpc message)) s1 of
                 (Inl e, s2) \<Rightarrow> (Inl e, s2)
               | (Inr reply, s2) \<Rightarrow> (relay_answer n reply, s2)))))"

end
