(* ===== verification/A2A_Push.thy ===== *)
theory A2A_Push
  imports Agents
begin

text \<open>
  Push notifications of an A2A task (\<open>a2a-push.ts\<close>): the configs a process holds, in the order they
  were made, what a read shows of one, and the pushes a settled run causes. The id of a config is random; a
  config keeps the credential of its destination, which no read answers.
\<close>

section \<open>Pages by offset\<close>

text \<open>A token is the offset of the next page under a one-letter mark; the empty token ends the listing.\<close>

definition page_token :: "char \<Rightarrow> nat \<Rightarrow> string" where
  "page_token mark n = base64url (mark # CHR '':'' # nat_string n)"

definition read_token :: "char \<Rightarrow> json option \<Rightarrow> nat option" where
  "read_token mark raw = (case raw of None \<Rightarrow> Some 0
     | Some (JStr s) \<Rightarrow> if s = [] then Some 0
         else (case from_base64url s of
             m # c # ds \<Rightarrow> if m = mark \<and> c = CHR '':'' \<and> is_decimal ds then Some (decimal_value ds) else None
           | _ \<Rightarrow> None)
     | Some _ \<Rightarrow> None)"

definition offset_page :: "char \<Rightarrow> nat \<Rightarrow> nat \<Rightarrow> 'a list \<Rightarrow> 'a list \<times> string" where
  "offset_page mark off sz rows = (take sz (drop off rows), if off + sz < length rows then page_token mark (off + sz) else [])"

section \<open>The configs\<close>

record push_config =
  pc_id :: string
  pc_task :: string
  pc_url :: string
  pc_token :: "string option"
  pc_auth :: "(string \<times> string option) option"
  pc_last :: string

text \<open>\<open>PushInvalid\<close> becomes an invalid-params error, \<open>PushMissing\<close> the unknown-id answer.\<close>

datatype push_error = PushInvalid string | PushMissing string

definition publicView :: "push_config \<Rightarrow> json" where
  "publicView c = jobj [(''id'', Some (JStr (pc_id c))), (''taskId'', Some (JStr (pc_task c))), (''url'', Some (JStr (pc_url c))),
     (''authentication'', map_option (\<lambda>a. JObj [(''scheme'', JStr (fst a))]) (pc_auth c))]"

definition read_auth :: "json option \<Rightarrow> push_error + (string \<times> string option) option" where
  "read_auth auth =
     (case auth of None \<Rightarrow> Inr None
      | Some a \<Rightarrow>
        (case (a, str_of (jfield a ''scheme'')) of
           (JObj ps, Some scheme) \<Rightarrow>
             if js_trim scheme = [] then Inl (PushInvalid ''authentication.scheme is REQUIRED'')
             else if map_of ps ''credentials'' \<noteq> None \<and> \<not> is_str (map_of ps ''credentials'')
             then Inl (PushInvalid ''authentication.credentials MUST be a string'')
             else Inr (Some (js_trim scheme, str_of (map_of ps ''credentials'')))
         | _ \<Rightarrow> Inl (PushInvalid ''authentication.scheme is REQUIRED'')))"

definition read_destination :: "a2a_env \<Rightarrow> (string \<times> json) list \<Rightarrow> push_error + string \<times> string option \<times> (string \<times> string option) option" where
  "read_destination env raw =
     (case str_of (map_of raw ''url'') of None \<Rightarrow> Inl (PushInvalid ''url is REQUIRED'')
      | Some u \<Rightarrow>
        if u = [] then Inl (PushInvalid ''url is REQUIRED'')
        else case validateEgressUrl (ae_net env) u (ae_private env) of
            Inl e \<Rightarrow> Inl (PushInvalid (exn_message e))
          | Inr x \<Rightarrow>
              if map_of raw ''token'' \<noteq> None \<and> \<not> is_str (map_of raw ''token'') then Inl (PushInvalid ''token MUST be a string'')
              else map_sum id (\<lambda>a. (u, str_of (map_of raw ''token''), a)) (read_auth (map_of raw ''authentication'')))"

definition createPushConfig :: "a2a_env \<Rightarrow> nat \<Rightarrow> string \<Rightarrow> (string \<times> json) list \<Rightarrow> string \<Rightarrow> push_config list
    \<Rightarrow> (push_error + json) \<times> push_config list" where
  "createPushConfig env draw task raw current cs =
     (case read_destination env raw of Inl e \<Rightarrow> (Inl e, cs)
      | Inr (u, tok, auth) \<Rightarrow>
        (let c = \<lparr>pc_id = ''pnc-'' @ base64url (ae_random env draw), pc_task = task, pc_url = u, pc_token = tok, pc_auth = auth, pc_last = current\<rparr>
         in (Inr (publicView c), filter (\<lambda>d. pc_id d \<noteq> pc_id c) cs @ [c])))"

definition config_at :: "json option \<Rightarrow> push_config list \<Rightarrow> push_config option" where
  "config_at i cs = (case str_of i of None \<Rightarrow> None | Some s \<Rightarrow> find (\<lambda>c. pc_id c = s) cs)"

text \<open>\<open>None\<close> stands for a task the caller cannot read.\<close>

definition getPushConfig :: "string option \<Rightarrow> json option \<Rightarrow> push_config list \<Rightarrow> push_error + json" where
  "getPushConfig task i cs =
     (case (task, config_at i cs) of
        (Some t, Some c) \<Rightarrow> if pc_task c = t then Inr (publicView c) else Inl (PushMissing ''push notification config not found'')
      | _ \<Rightarrow> Inl (PushMissing ''push notification config not found''))"

definition page_size :: "json option \<Rightarrow> nat option" where
  "page_size raw = (case raw of None \<Rightarrow> Some 50
     | Some (JNum n) \<Rightarrow> if n = 0 then Some 50 else if n < 1 \<or> n > 100 then None else Some (nat n)
     | Some _ \<Rightarrow> None)"

definition task_configs :: "string \<Rightarrow> push_config list \<Rightarrow> push_config list" where
  "task_configs task cs = sort_key pc_id (filter (\<lambda>c. pc_task c = task) cs)"

definition listPushConfigs :: "string \<Rightarrow> json option \<Rightarrow> json option \<Rightarrow> push_config list \<Rightarrow> push_error + json list \<times> string" where
  "listPushConfigs task sz tok cs =
     (case page_size sz of None \<Rightarrow> Inl (PushInvalid ''pageSize MUST be an integer 1-100'')
      | Some n \<Rightarrow> (case read_token (CHR ''p'') tok of None \<Rightarrow> Inl (PushInvalid ''pageToken is not one this host minted'')
         | Some off \<Rightarrow> (let (page, next) = offset_page (CHR ''p'') off n (task_configs task cs) in Inr (map publicView page, next))))"

definition deletePushConfig :: "string option \<Rightarrow> json option \<Rightarrow> push_config list \<Rightarrow> push_config list" where
  "deletePushConfig task i cs =
     (case (task, config_at i cs) of
        (Some t, Some c) \<Rightarrow> if pc_task c = t then filter (\<lambda>d. pc_id d \<noteq> pc_id c) cs else cs
      | _ \<Rightarrow> cs)"

definition heldConfigCount :: "string \<Rightarrow> push_config list \<Rightarrow> nat" where
  "heldConfigCount task cs = length (filter (\<lambda>c. pc_task c = task) cs)"

section \<open>Delivery\<close>

definition authorizationOf :: "push_config \<Rightarrow> string option" where
  "authorizationOf c = (case pc_auth c of
       Some (scheme, Some cred) \<Rightarrow> Some (scheme @ '' '' @ cred)
     | Some (scheme, None) \<Rightarrow> Some scheme
     | None \<Rightarrow> map_option (\<lambda>t. ''Bearer '' @ t) (pc_token c))"

definition push_request :: "a2a_env \<Rightarrow> string option \<Rightarrow> string \<Rightarrow> egress_init" where
  "push_request env auth body = \<lparr>ei_method = ''POST'',
     ei_headers = [(''Content-Type'', ''application/a2a+json''), (''A2A-Version'', ''1.0'')]
       @ (case auth of None \<Rightarrow> [] | Some a \<Rightarrow> [(''Authorization'', a)]),
     ei_body = Some body, ei_timeout = 5000, ei_private = ae_private env, ei_max_body = None\<rparr>"

definition accepted_push :: "exn + egress_result \<Rightarrow> bool" where
  "accepted_push r = (case r of Inl e \<Rightarrow> False | Inr x \<Rightarrow> 200 \<le> eg_status x \<and> eg_status x < 300 \<and> eg_error x = None)"

text \<open>The answers of the attempts, over the network as each of them finds it; the waits between are left out.\<close>

fun attempts :: "a2a_env \<Rightarrow> nat \<Rightarrow> net_env list \<Rightarrow> string \<Rightarrow> string option \<Rightarrow> string \<Rightarrow> (exn + egress_result) list" where
  "attempts env 0 nes u auth body = []"
| "attempts env (Suc n) [] u auth body = []"
| "attempts env (Suc n) (ne # nes) u auth body =
     (let r = (case ne_url ne u of None \<Rightarrow> Inl (JsError ''Invalid URL'') | Some x \<Rightarrow> guardedRequest ne x (push_request env auth body))
      in r # (if accepted_push r then [] else attempts env n nes u auth body))"

definition deliver_push :: "a2a_env \<Rightarrow> net_env list \<Rightarrow> string \<Rightarrow> string option \<Rightarrow> string \<Rightarrow> (exn + egress_result) list" where
  "deliver_push env nes u auth body = attempts env (max 1 (ae_attempts env)) nes u auth body"

text \<open>
  A live event of a run names the configs held for it then; a replay fork names none. Once the row has
  settled, each that is still held is pushed its state when that changed, and is dropped when the run is
  terminal.
\<close>

definition push_listens :: "appended \<Rightarrow> push_config list \<Rightarrow> string list" where
  "push_listens e cs = (if ap_fork_mode e = Some ''replay'' then [] else map pc_id (filter (\<lambda>c. pc_task c = ap_run e) cs))"

record push =
  pu_config :: push_config
  pu_state :: string

fun push_settled :: "string \<Rightarrow> bool \<Rightarrow> string list \<Rightarrow> push_config list \<Rightarrow> push list \<times> push_config list" where
  "push_settled state terminal [] cs = ([], cs)"
| "push_settled state terminal (i # is) cs =
     (case find (\<lambda>c. pc_id c = i) cs of
        None \<Rightarrow> push_settled state terminal is cs
      | Some c \<Rightarrow>
        (let cs1 = map (\<lambda>d. if pc_id d = i then d\<lparr>pc_last := state\<rparr> else d) cs;
             cs2 = (if terminal then filter (\<lambda>d. pc_id d \<noteq> i) cs1 else cs1);
             (ps, cs3) = push_settled state terminal is cs2
         in ((if pc_last c \<noteq> state then [\<lparr>pu_config = c, pu_state = state\<rparr>] else []) @ ps, cs3)))"

end
