(* ===== verification/A2A.thy ===== *)
theory A2A
  imports A2A_Push
begin

text \<open>
  The host as an A2A server (\<open>a2a-server.ts\<close>): the task a run is shown as, the messages of a
  task, the methods over the run operations, and the one JSON-RPC interface. What the interface keeps
  beside the run is the task row, the message ids a principal has sent, and the push configs. A method that
  waits for its run to settle is cut at the wait.
\<close>

record a2a_task =
  at_run :: string
  at_tenant :: string
  at_context :: string
  at_history :: "json list"

record a2a_sys =
  as_world :: world
  as_tasks :: "a2a_task list"
  as_messages :: "((string \<times> string) \<times> string) list"
  as_push :: "push_config list"
  as_draws :: nat

section \<open>The store\<close>

definition a2aTask :: "string \<Rightarrow> a2a_sys \<Rightarrow> a2a_task option" where
  "a2aTask rid s = find (\<lambda>t. at_run t = rid) (as_tasks s)"

definition insertA2ATask :: "a2a_task \<Rightarrow> a2a_sys \<Rightarrow> a2a_sys option" where
  "insertA2ATask t s = (if a2aTask (at_run t) s = None then Some (s\<lparr>as_tasks := as_tasks s @ [t]\<rparr>) else None)"

definition setA2AHistory :: "string \<Rightarrow> json list \<Rightarrow> a2a_sys \<Rightarrow> a2a_sys" where
  "setA2AHistory rid hist s = s\<lparr>as_tasks := map (\<lambda>t. if at_run t = rid then t\<lparr>at_history := hist\<rparr> else t) (as_tasks s)\<rparr>"

definition a2aMessageRun :: "string \<Rightarrow> string \<Rightarrow> a2a_sys \<Rightarrow> string option" where
  "a2aMessageRun who mid s = map_of (as_messages s) (who, mid)"

definition recordA2AMessage :: "string \<Rightarrow> string \<Rightarrow> string \<Rightarrow> a2a_sys \<Rightarrow> a2a_sys" where
  "recordA2AMessage who mid rid s = (if a2aMessageRun who mid s = None
     then s\<lparr>as_messages := as_messages s @ [((who, mid), rid)]\<rparr> else s)"

section \<open>Errors\<close>

datatype rpc_error = RpcError int string "(string \<times> string) list" | RpcThrown exn

definition TASK_NOT_FOUND :: rpc_error where "TASK_NOT_FOUND = RpcError (-32001) ''task not found'' []"
definition UNSUPPORTED_OPERATION :: "string \<Rightarrow> rpc_error" where "UNSUPPORTED_OPERATION m = RpcError (-32004) m []"
definition invalid_params :: "string \<Rightarrow> rpc_error" where "invalid_params m = RpcError (-32602) m []"

definition A2A_REASON :: "(int \<times> string) list" where
  "A2A_REASON = [(-32001, ''TASK_NOT_FOUND''), (-32002, ''TASK_NOT_CANCELABLE''), (-32003, ''PUSH_NOTIFICATION_NOT_SUPPORTED''),
     (-32004, ''UNSUPPORTED_OPERATION''), (-32005, ''CONTENT_TYPE_NOT_SUPPORTED''), (-32006, ''INVALID_AGENT_RESPONSE''),
     (-32007, ''EXTENDED_AGENT_CARD_NOT_CONFIGURED''), (-32008, ''EXTENSION_SUPPORT_REQUIRED''), (-32009, ''VERSION_NOT_SUPPORTED'')]"

definition rpcErrorMember :: "int \<Rightarrow> string \<Rightarrow> (string \<times> string) list \<Rightarrow> json" where
  "rpcErrorMember code m metadata =
     (case map_of A2A_REASON code of
        None \<Rightarrow> JObj [(''code'', JNum code), (''message'', JStr m)]
      | Some reason \<Rightarrow> JObj [(''code'', JNum code), (''message'', JStr m), (''data'', JArr [JObj ([
            (''@type'', JStr ''type.googleapis.com/google.rpc.ErrorInfo''), (''reason'', JStr reason), (''domain'', JStr ''a2a-protocol.org'')]
            @ (if metadata = [] then [] else [(''metadata'', JObj (map (\<lambda>(k, v). (k, JStr v)) metadata))]))])])"

text \<open>A refusal of the host in the vocabulary of the binding.\<close>

definition fromHostError :: "a2a_env \<Rightarrow> string \<Rightarrow> string \<Rightarrow> rpc_error" where
  "fromHostError env code m =
     (let st = ae_status env code in
      if code \<in> {''run_terminal'', ''interrupt_already_resolved''} then UNSUPPORTED_OPERATION m
      else if st = 404 then TASK_NOT_FOUND
      else if st \<in> {400, 403, 422} then invalid_params m
      else if st = 409 then UNSUPPORTED_OPERATION m
      else RpcError (-32603) ''the host failed to serve the request'' [])"

section \<open>The task projection\<close>

fun TASK_STATE :: "run_status \<Rightarrow> string" where
  "TASK_STATE Pending = ''TASK_STATE_SUBMITTED''"
| "TASK_STATE Running = ''TASK_STATE_WORKING''"
| "TASK_STATE Paused = ''TASK_STATE_WORKING''"
| "TASK_STATE Cancelling = ''TASK_STATE_WORKING''"
| "TASK_STATE WaitingApproval = ''TASK_STATE_INPUT_REQUIRED''"
| "TASK_STATE WaitingInput = ''TASK_STATE_INPUT_REQUIRED''"
| "TASK_STATE WaitingExternal = ''TASK_STATE_INPUT_REQUIRED''"
| "TASK_STATE Completed = ''TASK_STATE_COMPLETED''"
| "TASK_STATE Failed = ''TASK_STATE_FAILED''"
| "TASK_STATE Cancelled = ''TASK_STATE_CANCELED''"

definition WIRE_STATES :: "string list" where
  "WIRE_STATES = [''TASK_STATE_SUBMITTED'', ''TASK_STATE_WORKING'', ''TASK_STATE_INPUT_REQUIRED'', ''TASK_STATE_COMPLETED'',
     ''TASK_STATE_FAILED'', ''TASK_STATE_CANCELED'']"

definition contextOf :: "string \<Rightarrow> a2a_sys \<Rightarrow> string" where
  "contextOf rid s = (case a2aTask rid s of Some t \<Rightarrow> at_context t | None \<Rightarrow> rid)"

definition historyOf :: "string \<Rightarrow> a2a_sys \<Rightarrow> json list" where
  "historyOf rid s = (case a2aTask rid s of Some t \<Rightarrow> at_history t | None \<Rightarrow> [])"

definition last_n :: "nat \<Rightarrow> 'a list \<Rightarrow> 'a list" where
  "last_n n xs = drop (length xs - n) xs"

definition waiting_interrupt :: "run_row \<Rightarrow> world \<Rightarrow> interrupt_row option" where
  "waiting_interrupt r w = (if waiting_status (r_status r)
     then (case r_node r of None \<Rightarrow> None | Some n \<Rightarrow> pendingInterruptForNode (run_id r) n w) else None)"

definition second_part :: "string \<Rightarrow> string" where
  "second_part i = (case split_on (CHR ''/'') i of a # b # _ \<Rightarrow> b | _ \<Rightarrow> i)"

definition auth_required :: "a2a_env \<Rightarrow> run_row \<Rightarrow> interrupt_row \<Rightarrow> a2a_sys \<Rightarrow> json" where
  "auth_required env r i s =
     (let info = ip_data (payloadOf i);
          scopes = (case jfield info ''scopes'' of Some (JArr xs) \<Rightarrow> if xs = [] then [] else '' ('' @ spaced (map js_string xs) @ '')'' | _ \<Rightarrow> [])
      in JObj [(''state'', JStr ''TASK_STATE_AUTH_REQUIRED''), (''timestamp'', JStr (h_iso (ae_host env) (r_updated r))),
           (''message'', JObj [(''messageId'', JStr (''auth-'' @ second_part (i_id i))), (''role'', JStr ''ROLE_AGENT''),
              (''parts'', JArr [JObj [(''text'', JStr (''Authorize '' @ js_String (jfield info ''provider'') @ scopes @ '': '' @ js_String (jfield info ''connectUrl'')))]]),
              (''taskId'', JStr (run_id r)), (''contextId'', JStr (contextOf (run_id r) s))])])"

definition task_status :: "a2a_env \<Rightarrow> run_row \<Rightarrow> a2a_sys \<Rightarrow> string \<times> json" where
  "task_status env r s =
     (case waiting_interrupt r (as_world s) of
        Some i \<Rightarrow> if i_kind i = ''credential'' then (''TASK_STATE_AUTH_REQUIRED'', auth_required env r i s)
          else (TASK_STATE (r_status r), JObj [(''state'', JStr (TASK_STATE (r_status r))), (''timestamp'', JStr (h_iso (ae_host env) (r_updated r)))])
      | None \<Rightarrow> (TASK_STATE (r_status r), JObj [(''state'', JStr (TASK_STATE (r_status r))), (''timestamp'', JStr (h_iso (ae_host env) (r_updated r)))]))"

definition a2a_task_of :: "a2a_env \<Rightarrow> run_row \<Rightarrow> nat option \<Rightarrow> a2a_sys \<Rightarrow> json" where
  "a2a_task_of env r historyLength s = jobj
     [(''id'', Some (JStr (run_id r))), (''contextId'', Some (JStr (contextOf (run_id r) s))), (''status'', Some (snd (task_status env r s))),
      (''history'', Some (JArr (case historyLength of None \<Rightarrow> historyOf (run_id r) s | Some n \<Rightarrow> last_n n (historyOf (run_id r) s)))),
      (''artifacts'', Some (JArr [])),
      (''metadata'', map_option (\<lambda>i. JObj [(''openwop'', JObj [(''interrupt'', JObj [(''kind'', JStr (i_kind i)), (''nodeId'', JStr (i_node i))])])])
         (waiting_interrupt r (as_world s)))]"

definition with_a2a :: "(exn + 'a) \<times> world \<Rightarrow> a2a_sys \<Rightarrow> (rpc_error + 'a) \<times> a2a_sys" where
  "with_a2a rw s = (map_sum RpcThrown id (fst rw), s\<lparr>as_world := snd rw\<rparr>)"

text \<open>\<open>store.getRun(run.run_id) ?? run\<close>.\<close>

definition current_run :: "run_row \<Rightarrow> world \<Rightarrow> run_row" where
  "current_run r w = (case getRun (run_id r) w of Some q \<Rightarrow> q | None \<Rightarrow> r)"

text \<open>A run the caller cannot read answers as an unknown one.\<close>

definition readable :: "subject \<Rightarrow> json option \<Rightarrow> world \<Rightarrow> run_row option" where
  "readable sb i w = (case str_of i of None \<Rightarrow> None | Some rid \<Rightarrow> if rid = [] then None
     else (case getRun rid w of None \<Rightarrow> None | Some r \<Rightarrow> if r_tenant r \<noteq> sub_tenant sb then None else Some r))"

definition readableRun :: "a2a_env \<Rightarrow> subject \<Rightarrow> json option \<Rightarrow> a2a_sys \<Rightarrow> (rpc_error + run_row) \<times> a2a_sys" where
  "readableRun env sb i s = (case readable sb i (as_world s) of
     None \<Rightarrow> (Inl TASK_NOT_FOUND, s)
   | Some r \<Rightarrow> with_a2a (applyPinDisposition (ae_host env) r (as_world s)) s)"

section \<open>Messages\<close>

record a2a_message =
  am_id :: string
  am_role :: string
  am_parts :: "json list"
  am_task :: "string option"
  am_context :: "string option"
  am_meta :: "json option"

definition message_json :: "a2a_message \<Rightarrow> (string \<times> json) list" where
  "message_json m = List.map_filter (\<lambda>(k, v). map_option (Pair k) v) [(''messageId'', Some (JStr (am_id m))), (''role'', Some (JStr (am_role m))),
     (''parts'', Some (JArr (am_parts m))), (''taskId'', map_option JStr (am_task m)), (''contextId'', map_option JStr (am_context m)),
     (''metadata'', am_meta m)]"

definition is_part :: "json \<Rightarrow> bool" where
  "is_part p = (case p of JObj ps \<Rightarrow> \<exists>k \<in> {''text'', ''data'', ''raw'', ''url''}. map_of ps k \<noteq> None | _ \<Rightarrow> False)"

definition message_refusals :: "(string \<times> json) list \<Rightarrow> (bool \<times> rpc_error) list" where
  "message_refusals m =
     [(text_of (map_of m ''messageId'') = [], invalid_params ''message.messageId is REQUIRED''),
      (text_of (map_of m ''role'') = [], invalid_params ''message.role is REQUIRED''),
      (arr_of (map_of m ''parts'') = None, invalid_params ''message.parts MUST be an array''),
      (\<not> list_all is_part (case arr_of (map_of m ''parts'') of Some ps \<Rightarrow> ps | None \<Rightarrow> []),
         invalid_params ''a Part is discriminated by member presence (text | raw | url | data)''),
      (map_of m ''taskId'' \<noteq> None \<and> \<not> is_str (map_of m ''taskId''), invalid_params ''message.taskId MUST be a string''),
      (map_of m ''contextId'' \<noteq> None \<and> \<not> is_str (map_of m ''contextId''), invalid_params ''message.contextId MUST be a string''),
      (map_of m ''metadata'' \<noteq> None \<and> \<not> plain_object (map_of m ''metadata''), invalid_params ''message.metadata MUST be an object'')]"

definition parseMessage :: "json option \<Rightarrow> rpc_error + a2a_message" where
  "parseMessage raw =
     (case raw of
        Some (JObj m) \<Rightarrow> and_then (first_refusal (message_refusals m)) (\<lambda>u.
          Inr \<lparr>am_id = text_of (map_of m ''messageId''), am_role = text_of (map_of m ''role''),
            am_parts = (case arr_of (map_of m ''parts'') of Some ps \<Rightarrow> ps | None \<Rightarrow> []), am_task = str_of (map_of m ''taskId''),
            am_context = str_of (map_of m ''contextId''), am_meta = map_of m ''metadata''\<rparr>)
      | _ \<Rightarrow> Inl (invalid_params ''params.message MUST be a Message object''))"

definition resumeValueOf :: "a2a_message \<Rightarrow> json option" where
  "resumeValueOf m =
     (case (case jget (am_meta m) ''openwop'' of Some (JObj ps) \<Rightarrow> map_of ps ''interrupt'' | _ \<Rightarrow> None) of
        Some v \<Rightarrow> Some v
      | None \<Rightarrow> (case find (\<lambda>p. case p of JObj ps \<Rightarrow> map_of ps ''data'' \<noteq> None | _ \<Rightarrow> False) (am_parts m) of
          None \<Rightarrow> None | Some p \<Rightarrow> jfield p ''data''))"

definition appendHistory :: "string \<Rightarrow> a2a_message \<Rightarrow> a2a_sys \<Rightarrow> a2a_sys" where
  "appendHistory rid m s = setA2AHistory rid (historyOf rid s
     @ [JObj (AList.update ''contextId'' (JStr (contextOf rid s)) (AList.update ''taskId'' (JStr rid) (message_json m)))]) s"

section \<open>Sending a message\<close>

definition message_principal :: "subject \<Rightarrow> string" where
  "message_principal sb = sub_tenant sb @ ''|'' @ principalRef sb"

definition configuration_refusal :: "json option \<Rightarrow> rpc_error option" where
  "configuration_refusal c =
     (case c of None \<Rightarrow> None
      | Some (JObj ps) \<Rightarrow> if map_of ps ''returnImmediately'' = Some (JBool True)
          then Some (UNSUPPORTED_OPERATION ''configuration.returnImmediately requires a2a.durableTasks, which this host does not advertise'') else None
      | Some _ \<Rightarrow> Some (invalid_params ''configuration MUST be an object''))"

definition task_options :: "inventory_entry option \<Rightarrow> trace_context option \<Rightarrow> json option \<Rightarrow> json" where
  "task_options agent tr inbound = jobj [(''transport'', Some (JStr ''a2a'')), (''agent'', map_option agentRefOf agent),
     (''traceContext'', map_option trace_json tr), (''a2aInbound'', inbound)]"

definition start_task :: "a2a_env \<Rightarrow> subject \<Rightarrow> a2a_message \<Rightarrow> inventory_entry option \<Rightarrow> trace_context option \<Rightarrow> a2a_sys
    \<Rightarrow> (rpc_error + run_row) \<times> a2a_sys" where
  "start_task env sb m agent tr s =
     (let h = ae_host env;
          wid = (case agent of Some e \<Rightarrow> (case routedWorkflows env (ie_agent e) of i # _ \<Rightarrow> Some i | [] \<Rightarrow> None) | None \<Rightarrow> Some (ae_workflow env))
      in case Option.bind wid (workflow_of h) of
           None \<Rightarrow> (Inl (UNSUPPORTED_OPERATION ''the interface routes no skill on this host''), s)
         | Some def \<Rightarrow>
           (case inboundLabel (am_meta m) of
              Inl u \<Rightarrow> (Inl (invalid_params ''metadata.openwop.permittedPurposes MUST be an array of strings''), s)
            | Inr label \<Rightarrow>
              (let inbound = (if wf_id def = RELAY_WORKFLOW_ID then Some (inboundOf (am_parts m) label) else None) in
               case acceptRun h sb (wf_id def) (JObj (with_defaults def [])) (task_options agent tr inbound) None (as_world s) of
                 (Inl e, w) \<Rightarrow> (Inl (RpcThrown e), s\<lparr>as_world := w\<rparr>)
               | (Inr r, w) \<Rightarrow>
                 (let (ctx, w1) = (case am_context m of Some c \<Rightarrow> (c, w) | None \<Rightarrow> (let (o1, w') = opaque h w in (''ctx-'' @ o1, w')));
                      s1 = s\<lparr>as_world := w1\<rparr>
                  in case insertA2ATask \<lparr>at_run = run_id r, at_tenant = sub_tenant sb, at_context = ctx, at_history = []\<rparr> s1 of
                       None \<Rightarrow> (Inl (RpcThrown (JsError ''UNIQUE constraint failed: a2a_tasks'')), s1)
                     | Some s2 \<Rightarrow>
                       (let s3 = recordA2AMessage (message_principal sb) (am_id m) (run_id r) (appendHistory (run_id r) m s2)
                        in (Inr r, s3\<lparr>as_world := scheduleRun (run_id r) (as_world s3)\<rparr>))))))"

definition continue_task :: "a2a_env \<Rightarrow> subject \<Rightarrow> a2a_message \<Rightarrow> string \<Rightarrow> a2a_sys \<Rightarrow> (rpc_error + run_row) \<times> a2a_sys" where
  "continue_task env sb m task s =
     (case readableRun env sb (Some (JStr task)) s of (Inl e, s1) \<Rightarrow> (Inl e, s1)
      | (Inr r, s1) \<Rightarrow>
        if am_context m \<noteq> None \<and> am_context m \<noteq> Some (contextOf (run_id r) s1)
        then (Inl (invalid_params ''message.contextId is not the task's contextId''), s1)
        else if terminal_status (r_status r)
        then (Inl (UNSUPPORTED_OPERATION (''the task is '' @ TASK_STATE (r_status r) @ ''; a terminal task accepts no message'')), s1)
        else if \<not> waiting_status (r_status r) \<or> r_node r = None
        then (Inl (UNSUPPORTED_OPERATION ''the task is not waiting for input; this host declares no input path for a running task''), s1)
        else case waiting_interrupt r (as_world s1) of
            None \<Rightarrow> (Inl (UNSUPPORTED_OPERATION ''the task has no open interrupt''), s1)
          | Some i \<Rightarrow>
            (case resumeValueOf m of
               None \<Rightarrow> (Inl (invalid_params ''the message carries no resumeValue (metadata.openwop.interrupt or a data part)''), s1)
             | Some v \<Rightarrow>
               (case resolveAndResume (ae_host env) r i (Some v) (Some sb) (as_world s1) of
                  (Inl e, w) \<Rightarrow> (Inl (RpcThrown e), s1\<lparr>as_world := w\<rparr>)
                | (Inr st, w) \<Rightarrow>
                  (let fresh = current_run r w
                   in (Inr fresh, recordA2AMessage (message_principal sb) (am_id m) (run_id r)
                         (appendHistory (run_id fresh) m (s1\<lparr>as_world := w\<rparr>)))))))"

text \<open>A message up to its wait: the run whose settled task is the answer.\<close>

definition sendMessage :: "a2a_env \<Rightarrow> subject \<Rightarrow> (string \<times> json) list \<Rightarrow> inventory_entry option \<Rightarrow> trace_context option \<Rightarrow> a2a_sys
    \<Rightarrow> (rpc_error + run_row) \<times> a2a_sys" where
  "sendMessage env sb params agent tr s =
     (case parseMessage (map_of params ''message'') of Inl e \<Rightarrow> (Inl e, s)
      | Inr m \<Rightarrow>
        (case configuration_refusal (map_of params ''configuration'') of Some e \<Rightarrow> (Inl e, s)
         | None \<Rightarrow>
           (case a2aMessageRun (message_principal sb) (am_id m) s of
              Some seen \<Rightarrow> readableRun env sb (Some (JStr seen)) s
            | None \<Rightarrow> (case am_task m of None \<Rightarrow> start_task env sb m agent tr s | Some t \<Rightarrow> continue_task env sb m t s))))"

definition settled_task :: "a2a_env \<Rightarrow> run_row \<Rightarrow> a2a_sys \<Rightarrow> json" where
  "settled_task env r s = JObj [(''task'', a2a_task_of env (current_run r (as_world s)) None s)]"

section \<open>Reading and cancelling\<close>

definition historyLengthOf :: "json option \<Rightarrow> rpc_error + nat option" where
  "historyLengthOf v = (case v of None \<Rightarrow> Inr None | Some JNull \<Rightarrow> Inr None
     | Some (JNum n) \<Rightarrow> if n < 0 then Inl (invalid_params ''historyLength MUST be a non-negative integer'') else Inr (Some (nat n))
     | Some _ \<Rightarrow> Inl (invalid_params ''historyLength MUST be a non-negative integer''))"

definition getTask :: "a2a_env \<Rightarrow> subject \<Rightarrow> (string \<times> json) list \<Rightarrow> a2a_sys \<Rightarrow> (rpc_error + json) \<times> a2a_sys" where
  "getTask env sb params s =
     (case historyLengthOf (map_of params ''historyLength'') of Inl e \<Rightarrow> (Inl e, s)
      | Inr n \<Rightarrow> (case readableRun env sb (map_of params ''id'') s of (Inl e, s1) \<Rightarrow> (Inl e, s1)
          | (Inr r, s1) \<Rightarrow> (Inr (a2a_task_of env r n s1), s1)))"

definition agentIdOf :: "run_row \<Rightarrow> json option" where
  "agentIdOf r = jget (jfield (r_options r) ''agent'') ''agentId''"

record task_query =
  tq_context :: "string option"
  tq_status :: "string option"
  tq_size :: nat
  tq_offset :: nat
  tq_history :: "nat option"

definition list_size :: "json option \<Rightarrow> nat option" where
  "list_size raw = (case raw of None \<Rightarrow> Some 50 | Some (JNum n) \<Rightarrow> if n < 1 \<or> n > 100 then None else Some (nat n) | Some _ \<Rightarrow> None)"

definition task_query_of :: "(string \<times> json) list \<Rightarrow> rpc_error + task_query" where
  "task_query_of params =
     (let ctx = map_of params ''contextId''; st = map_of params ''status'' in
      if ctx \<noteq> None \<and> \<not> is_str ctx then Inl (invalid_params ''contextId MUST be a string'')
      else if st \<noteq> None \<and> \<not> (is_str st \<and> text_of st \<in> set WIRE_STATES) then Inl (invalid_params ''status MUST be a TaskState this host projects'')
      else case list_size (map_of params ''pageSize'') of None \<Rightarrow> Inl (invalid_params ''pageSize MUST be an integer 1-100'')
        | Some n \<Rightarrow> (case read_token (CHR ''o'') (map_of params ''pageToken'') of
            None \<Rightarrow> Inl (invalid_params ''pageToken is not one this host minted'')
          | Some off \<Rightarrow> and_then (historyLengthOf (map_of params ''historyLength'')) (\<lambda>hl.
              Inr \<lparr>tq_context = str_of ctx, tq_status = str_of st, tq_size = n, tq_offset = off, tq_history = hl\<rparr>)))"

definition task_wanted :: "inventory_entry option \<Rightarrow> task_query \<Rightarrow> a2a_sys \<Rightarrow> run_row \<Rightarrow> bool" where
  "task_wanted agent q s r \<longleftrightarrow> (case tq_context q of None \<Rightarrow> True | Some c \<Rightarrow> contextOf (run_id r) s = c)
     \<and> (case agent of None \<Rightarrow> True | Some e \<Rightarrow> agentIdOf r = Some (JStr (ie_agent e)))
     \<and> (case tq_status q of None \<Rightarrow> True | Some st \<Rightarrow> TASK_STATE (r_status r) = st)"

definition listed_tasks :: "subject \<Rightarrow> inventory_entry option \<Rightarrow> task_query \<Rightarrow> a2a_sys \<Rightarrow> run_row list" where
  "listed_tasks sb agent q s = rev (sort_key (\<lambda>r. (r_updated r, run_id r))
     (filter (task_wanted agent q s) (listRuns (sub_tenant sb) 100000 None None None (as_world s))))"

fun shown_tasks :: "a2a_env \<Rightarrow> nat option \<Rightarrow> run_row list \<Rightarrow> a2a_sys \<Rightarrow> (rpc_error + json list) \<times> a2a_sys" where
  "shown_tasks env hl [] s = (Inr [], s)"
| "shown_tasks env hl (r # rs) s =
     (case with_a2a (applyPinDisposition (ae_host env) r (as_world s)) s of (Inl e, s1) \<Rightarrow> (Inl e, s1)
      | (Inr q, s1) \<Rightarrow> (let t = a2a_task_of env q hl s1; (ts, s2) = shown_tasks env hl rs s1 in (map_sum id (Cons t) ts, s2)))"

definition listTasks :: "a2a_env \<Rightarrow> subject \<Rightarrow> (string \<times> json) list \<Rightarrow> inventory_entry option \<Rightarrow> a2a_sys \<Rightarrow> (rpc_error + json) \<times> a2a_sys" where
  "listTasks env sb params agent s =
     (case task_query_of params of Inl e \<Rightarrow> (Inl e, s)
      | Inr q \<Rightarrow>
        (let rows = listed_tasks sb agent q s; (page, next) = offset_page (CHR ''o'') (tq_offset q) (tq_size q) rows in
         case shown_tasks env (tq_history q) page s of (Inl e, s1) \<Rightarrow> (Inl e, s1)
         | (Inr ts, s1) \<Rightarrow> (Inr (JObj [(''tasks'', JArr ts), (''nextPageToken'', JStr next), (''pageSize'', JNum (int (tq_size q))),
              (''totalSize'', JNum (int (length rows)))]), s1)))"

definition cancelTask :: "a2a_env \<Rightarrow> subject \<Rightarrow> (string \<times> json) list \<Rightarrow> a2a_sys \<Rightarrow> (rpc_error + json) \<times> a2a_sys" where
  "cancelTask env sb params s =
     (case readableRun env sb (map_of params ''id'') s of (Inl e, s1) \<Rightarrow> (Inl e, s1)
      | (Inr r, s1) \<Rightarrow>
        if terminal_status (r_status r) then (Inl (RpcError (-32002) (''the task is '' @ TASK_STATE (r_status r)) []), s1)
        else (case requestCancel (ae_host env) r (Some ''a2a-cancel-task'') (as_world s1) of
            (Inl e, w) \<Rightarrow> (Inl (case e of HostError c m d \<Rightarrow> if c = ''run_terminal'' then RpcError (-32002) m [] else RpcThrown e | _ \<Rightarrow> RpcThrown e),
               s1\<lparr>as_world := w\<rparr>)
          | (Inr st, w) \<Rightarrow> (let s2 = s1\<lparr>as_world := w\<rparr>
              in (Inr (a2a_task_of env (current_run r w) None s2), s2))))"

section \<open>The push methods\<close>

definition from_push :: "push_error \<Rightarrow> rpc_error" where
  "from_push e = (case e of PushInvalid m \<Rightarrow> invalid_params m | PushMissing m \<Rightarrow> RpcError (-32001) m [])"

text \<open>The run for a read or a delete: an unreadable one is no run, any other failure is thrown.\<close>

definition readableOrNull :: "a2a_env \<Rightarrow> subject \<Rightarrow> json option \<Rightarrow> a2a_sys \<Rightarrow> (rpc_error + run_row option) \<times> a2a_sys" where
  "readableOrNull env sb i s = (case readableRun env sb i s of
     (Inr r, s1) \<Rightarrow> (Inr (Some r), s1)
   | (Inl (RpcError c m d), s1) \<Rightarrow> (Inr None, s1)
   | (Inl (RpcThrown e), s1) \<Rightarrow> (Inl (RpcThrown e), s1))"

definition createPush :: "a2a_env \<Rightarrow> subject \<Rightarrow> (string \<times> json) list \<Rightarrow> a2a_sys \<Rightarrow> (rpc_error + json) \<times> a2a_sys" where
  "createPush env sb params s =
     (case readableRun env sb (map_of params ''taskId'') s of (Inl e, s1) \<Rightarrow> (Inl e, s1)
      | (Inr r, s1) \<Rightarrow>
        if terminal_status (r_status r) then (Inl (UNSUPPORTED_OPERATION ''a terminal task has no further state to push''), s1)
        else (let (a, cs) = createPushConfig env (as_draws s1) (run_id r) params (fst (task_status env r s1)) (as_push s1)
              in (map_sum from_push id a, s1\<lparr>as_push := cs, as_draws := Suc (as_draws s1)\<rparr>)))"

definition getPush :: "a2a_env \<Rightarrow> subject \<Rightarrow> (string \<times> json) list \<Rightarrow> a2a_sys \<Rightarrow> (rpc_error + json) \<times> a2a_sys" where
  "getPush env sb params s =
     (case readableOrNull env sb (map_of params ''taskId'') s of (Inl e, s1) \<Rightarrow> (Inl e, s1)
      | (Inr r, s1) \<Rightarrow> (map_sum from_push id (getPushConfig (map_option run_id r) (map_of params ''id'') (as_push s1)), s1))"

definition listPush :: "a2a_env \<Rightarrow> subject \<Rightarrow> (string \<times> json) list \<Rightarrow> a2a_sys \<Rightarrow> (rpc_error + json) \<times> a2a_sys" where
  "listPush env sb params s =
     (case readableRun env sb (map_of params ''taskId'') s of (Inl e, s1) \<Rightarrow> (Inl e, s1)
      | (Inr r, s1) \<Rightarrow> (map_sum from_push (\<lambda>(cs, next). JObj [(''configs'', JArr cs), (''nextPageToken'', JStr next)])
          (listPushConfigs (run_id r) (map_of params ''pageSize'') (map_of params ''pageToken'') (as_push s1)), s1))"

definition deletePush :: "a2a_env \<Rightarrow> subject \<Rightarrow> (string \<times> json) list \<Rightarrow> a2a_sys \<Rightarrow> (rpc_error + json) \<times> a2a_sys" where
  "deletePush env sb params s =
     (case readableOrNull env sb (map_of params ''taskId'') s of (Inl e, s1) \<Rightarrow> (Inl e, s1)
      | (Inr r, s1) \<Rightarrow> (Inr (JObj []), s1\<lparr>as_push := deletePushConfig (map_option run_id r) (map_of params ''id'') (as_push s1)\<rparr>))"

definition pushMethod :: "a2a_env \<Rightarrow> subject \<Rightarrow> string \<Rightarrow> (string \<times> json) list \<Rightarrow> a2a_sys \<Rightarrow> (rpc_error + json) \<times> a2a_sys" where
  "pushMethod env sb meth params s =
     (if meth = ''CreateTaskPushNotificationConfig'' then createPush env sb params s
      else if meth = ''GetTaskPushNotificationConfig'' then getPush env sb params s
      else if meth = ''ListTaskPushNotificationConfigs'' then listPush env sb params s
      else deletePush env sb params s)"

section \<open>Cards\<close>

text \<open>The skill of a routed workflow; the texts its definition may state are a field of the environment.\<close>

definition skill_of :: "a2a_env \<Rightarrow> string \<Rightarrow> json option" where
  "skill_of env wid = map_option (\<lambda>def. ae_skill env (wf_id def)) (workflow_of (ae_host env) wid)"

definition agentCard :: "a2a_env \<Rightarrow> string \<Rightarrow> (string \<times> json) list" where
  "agentCard env base =
     [(''name'', JStr ''openwop-v2-reference''),
      (''description'', JStr (''OpenWOP v2 reference host. The interface routes one skill: the workflow '' @ ae_workflow env @ '', one run per task.'')),
      (''version'', JStr (ae_version env)),
      (''supportedInterfaces'', JArr [JObj [(''url'', JStr (base @ ''/a2a/jsonrpc'')), (''protocolBinding'', JStr ''JSONRPC''), (''protocolVersion'', JStr ''1.0'')]]),
      (''provider'', ae_provider env),
      (''capabilities'', JObj [(''streaming'', JBool False), (''pushNotifications'', JBool (ae_push env)), (''extendedAgentCard'', JBool (ae_cards env))]),
      (''securitySchemes'', JObj [(''bearer'', JObj [(''httpAuthSecurityScheme'', JObj [(''scheme'', JStr ''Bearer''),
         (''description'', JStr ''An OpenWOP api-key or session credential (Authorization: Bearer <credential>); the Subject it resolves to owns the task.'')])])]),
      (''securityRequirements'', JArr [JObj [(''schemes'', JObj [(''bearer'', JObj [(''list'', JArr [])])])]]),
      (''defaultInputModes'', JArr [JStr ''text/plain'', JStr ''application/json'']),
      (''defaultOutputModes'', JArr [JStr ''text/plain'', JStr ''application/json'']),
      (''skills'', JArr (case skill_of env (ae_workflow env) of None \<Rightarrow> [] | Some k \<Rightarrow> [k]))]"

definition perAgentCard :: "a2a_env \<Rightarrow> string \<Rightarrow> inventory_entry \<Rightarrow> (string \<times> json) list" where
  "perAgentCard env base e =
     (let r = (case ie_routing e of Some x \<Rightarrow> [(''tenant'', JStr x)] | None \<Rightarrow> []) in
      AList.update ''supportedInterfaces'' (JArr [JObj ([(''url'', JStr (base @ ''/a2a/jsonrpc'')), (''protocolBinding'', JStr ''JSONRPC''),
          (''protocolVersion'', JStr ''1.0'')] @ r)])
        (AList.update ''skills'' (JArr (List.map_filter (skill_of env) (routedWorkflows env (ie_agent e))))
          (AList.update ''version'' (JStr (ie_version e)) (AList.update ''description'' (JStr (ie_description e))
            (AList.update ''name'' (JStr (ie_persona e)) (agentCard env base))))))"

section \<open>The interface\<close>

definition unrouted_tenant :: rpc_error where
  "unrouted_tenant = invalid_params ''tenant does not name an agent this caller can address''"

definition addressed_agent :: "a2a_env \<Rightarrow> subject \<Rightarrow> json option \<Rightarrow> rpc_error + inventory_entry option" where
  "addressed_agent env sb ten =
     (if \<not> ae_cards env \<or> ten = None \<or> ten = Some (JStr []) then Inr None
      else case Option.bind (str_of ten) (resolveRoutingValue env sb) of None \<Rightarrow> Inl unrouted_tenant | Some e \<Rightarrow> Inr (Some e))"

datatype a2a_next = TaskAnswer json | TaskWaits run_row

definition told :: "(rpc_error + json) \<times> a2a_sys \<Rightarrow> (rpc_error + a2a_next) \<times> a2a_sys" where
  "told a = (map_sum id TaskAnswer (fst a), snd a)"

definition PUSH_METHODS :: "string list" where
  "PUSH_METHODS = [''CreateTaskPushNotificationConfig'', ''GetTaskPushNotificationConfig'', ''ListTaskPushNotificationConfigs'',
     ''DeleteTaskPushNotificationConfig'']"

definition a2a_dispatch :: "a2a_env \<Rightarrow> subject \<Rightarrow> string \<Rightarrow> (string \<times> json) list \<Rightarrow> string \<Rightarrow> trace_context option \<Rightarrow> a2a_sys
    \<Rightarrow> (rpc_error + a2a_next) \<times> a2a_sys" where
  "a2a_dispatch env sb meth params base tr s =
     (case addressed_agent env sb (map_of params ''tenant'') of Inl e \<Rightarrow> (Inl e, s)
      | Inr agent \<Rightarrow>
        if meth = ''SendMessage'' then (let (a, s1) = sendMessage env sb params agent tr s in (map_sum id TaskWaits a, s1))
        else if meth = ''GetTask'' then told (getTask env sb params s)
        else if meth = ''ListTasks'' then told (listTasks env sb params agent s)
        else if meth = ''CancelTask'' then told (cancelTask env sb params s)
        else if meth = ''SendStreamingMessage'' \<or> meth = ''SubscribeToTask''
        then (Inl (UNSUPPORTED_OPERATION (meth @ '' requires a2a.streaming, which this host does not advertise'')), s)
        else if meth \<in> set PUSH_METHODS
        then (if \<not> ae_push env then (Inl (RpcError (-32003) (meth @ '' requires a2a.pushNotifications, which this host does not advertise'') []), s)
              else told (pushMethod env sb meth params s))
        else if meth = ''GetExtendedAgentCard''
        then (if \<not> ae_cards env then (Inl (RpcError (-32007) ''capabilities.extendedAgentCard is false on this host'' []), s)
              else (Inr (TaskAnswer (JObj (case agent of None \<Rightarrow> agentCard env base | Some e \<Rightarrow> perAgentCard env base e))), s))
        else (Inl (RpcError (-32601) (''method '' @ meth @ '' is not served'') []), s))"

text \<open>Every answer has status 200; the record of the negotiation as a host event is left out.\<close>

datatype a2a_served = A2AReply json | A2AWaits json run_row

definition rpc_error_reply :: "json \<Rightarrow> int \<Rightarrow> string \<Rightarrow> (string \<times> string) list \<Rightarrow> a2a_served" where
  "rpc_error_reply i code m metadata = A2AReply (JObj [(''jsonrpc'', JStr ''2.0''), (''id'', i), (''error'', rpcErrorMember code m metadata)])"

definition a2a_failure :: "a2a_env \<Rightarrow> json \<Rightarrow> rpc_error \<Rightarrow> a2a_served" where
  "a2a_failure env i e = (case e of
       RpcError c m d \<Rightarrow> rpc_error_reply i c m d
     | RpcThrown (HostError code m d) \<Rightarrow> (case fromHostError env code m of RpcError c x y \<Rightarrow> rpc_error_reply i c x []
          | RpcThrown x \<Rightarrow> rpc_error_reply i (-32603) ''the host failed to serve the request'' [])
     | RpcThrown _ \<Rightarrow> rpc_error_reply i (-32603) ''the host failed to serve the request'' [])"

definition next_reply :: "a2a_env \<Rightarrow> json \<Rightarrow> rpc_error + a2a_next \<Rightarrow> a2a_served" where
  "next_reply env i a = (case a of Inl e \<Rightarrow> a2a_failure env i e
     | Inr (TaskAnswer j) \<Rightarrow> A2AReply (JObj [(''jsonrpc'', JStr ''2.0''), (''id'', i), (''result'', j)])
     | Inr (TaskWaits r) \<Rightarrow> A2AWaits i r)"

definition message_trace :: "(string \<times> json) list \<Rightarrow> json option" where
  "message_trace params = (case jget (jget (map_of params ''message'') ''metadata'') ''openwop'' of Some (JObj x) \<Rightarrow> Some (JObj x) | _ \<Rightarrow> None)"

definition a2a_serve :: "a2a_env \<Rightarrow> subject \<Rightarrow> (string \<Rightarrow> string option) \<Rightarrow> string \<Rightarrow> string \<Rightarrow> json option \<Rightarrow> json option \<Rightarrow> a2a_sys
    \<Rightarrow> a2a_served \<times> a2a_sys" where
  "a2a_serve env sb header base meth rawId rawParams s =
     (let i = rpc_id rawId; version = js_trim (case header ''a2a-version'' of Some v \<Rightarrow> v | None \<Rightarrow> []) in
      if version \<noteq> [] \<and> version \<noteq> ''1.0''
      then (rpc_error_reply i (-32009) (''A2A-Version '' @ version @ '' is not served; this interface serves 1.0'') [(''supportedVersions'', ''1.0'')], s)
      else case (case rawParams of None \<Rightarrow> Some [] | Some (JObj qs) \<Rightarrow> Some qs | _ \<Rightarrow> None) of
          None \<Rightarrow> (rpc_error_reply i (-32602) ''params MUST be an object'' [], s)
        | Some params \<Rightarrow>
          (let (a, s1) = a2a_dispatch env sb meth params base (inboundTraceContext (message_trace params) header) s
           in (next_reply env i a, s1)))"

definition jsonRpcHandler :: "a2a_env \<Rightarrow> subject option \<Rightarrow> (string \<Rightarrow> string option) \<Rightarrow> string \<Rightarrow> string \<Rightarrow> a2a_sys \<Rightarrow> a2a_served \<times> a2a_sys" where
  "jsonRpcHandler env subj header base body s =
     (case subj of None \<Rightarrow> (rpc_error_reply JNull (-32603) ''the interface is authenticated'' [], s)
      | Some sb \<Rightarrow>
        (case json_parse body of None \<Rightarrow> (rpc_error_reply JNull (-32700) ''the request body is not JSON'' [], s)
         | Some j \<Rightarrow>
           (case (j, jfield j ''jsonrpc'' = Some (JStr ''2.0''), jfield j ''method'') of
              (JObj ps, True, Some (JStr meth)) \<Rightarrow> a2a_serve env sb header base meth (map_of ps ''id'') (map_of ps ''params'') s
            | _ \<Rightarrow> (rpc_error_reply JNull (-32600) ''not a JSON-RPC 2.0 request'' [], s))))"

end
