(* ===== verification/Mcp_Server.thy ===== *)
theory Mcp_Server
  imports Mcp OAuth_Grants
begin

text \<open>
  What the MCP mount guarantees: a request state is signed, bound and acts once, a task is seen by its
  tenant alone, a form never asks for a secret, and a read appends nothing.
\<close>

section \<open>A request state acts once\<close>

named_theorems used_kept

lemma interruptPageFor_used [used_kept]: "ms_used (snd (interruptPageFor env r i s)) = ms_used s"
  by (simp add: interruptPageFor_def Let_def case_prod_beta)

lemma elicitationFor_used [used_kept]: "ms_used (snd (elicitationFor env r i caps s)) = ms_used s"
proof -
  obtain a s1 where p: "interruptPageFor env r i s = (a, s1)" by force
  with interruptPageFor_used [of env r i s] have "ms_used s1 = ms_used s" by simp
  with p show ?thesis unfolding elicitationFor_def Let_def by (simp split: sum.split)
qed

lemma in_world_used [used_kept]: "ms_used (snd (in_world a s)) = ms_used s"
  by (simp add: in_world_def)

lemma applyElicitResult_used [used_kept]: "ms_used (snd (applyElicitResult env sb r i response s)) = ms_used s"
  by (simp add: applyElicitResult_def used_kept split: option.split json.split)

lemma outcome_used [used_kept]: "ms_used (snd (outcome env sb name args r caps s)) = ms_used s"
proof (cases "openInterrupt r (ms_world s)")
  case (Some i)
  obtain a s1 where p: "elicitationFor env r i caps s = (a, s1)" by force
  with elicitationFor_used [of env r i caps s] have "ms_used s1 = ms_used s" by simp
  with p Some show ?thesis unfolding outcome_def by (simp add: case_prod_beta Let_def split: sum.split option.split)
qed (simp add: outcome_def)

lemma taskOf_used [used_kept]: "ms_used (snd (taskOf env r detailed caps s)) = ms_used s"
proof -
  obtain a s1 where o: "outcome env None [] (JObj []) r (JObj []) s = (a, s1)" by force
  with outcome_used [of env None "[]" "JObj []" r "JObj []" s] have s1: "ms_used s1 = ms_used s" by simp
  show ?thesis
  proof (cases "openInterrupt r (ms_world s)")
    case None
    with o s1 show ?thesis unfolding taskOf_def by (simp add: Let_def split: sum.split)
  next
    case (Some i)
    obtain b s2 where p: "elicitationFor env r i caps s = (b, s2)" by force
    with elicitationFor_used [of env r i caps s] have "ms_used s2 = ms_used s" by simp
    with o s1 p Some show ?thesis unfolding taskOf_def by (simp add: Let_def split: sum.split option.split)
  qed
qed

lemma snd_case_sum: "snd (case x of (Inl e, t) \<Rightarrow> (f e, t) | (Inr y, t) \<Rightarrow> (g y, t)) = snd x"
  by (cases x) (simp split: sum.split)

lemma tasksGet_used [used_kept]: "ms_used (snd (tasksGet env sb t caps s)) = ms_used s"
  by (simp add: tasksGet_def snd_case_sum used_kept split: sum.split)

lemma update_all_used [used_kept]: "ms_used (snd (update_all env sb r rs s)) = ms_used s"
proof (induction rs arbitrary: s)
  case (Cons kr rs)
  obtain k response where kr: "kr = (k, response)" by force
  let ?current = "case getRun (run_id r) (ms_world s) of Some q \<Rightarrow> q | None \<Rightarrow> r"
  show ?case
  proof (cases "openInterrupt ?current (ms_world s)")
    case (Some i)
    obtain a s1 where p: "applyElicitResult env sb ?current i response s = (a, s1)" by force
    with applyElicitResult_used [of env sb ?current i response s] have "ms_used s1 = ms_used s" by simp
    with p Some Cons.IH show ?thesis by (simp add: kr Let_def split: sum.split)
  qed (use Cons.IH in \<open>simp add: kr Let_def\<close>)
qed simp

lemma tasksUpdate_used [used_kept]: "ms_used (snd (tasksUpdate env sb t rs s)) = ms_used s"
  by (simp add: tasksUpdate_def snd_case_sum used_kept split: sum.split option.split json.split)

lemma tasksCancel_used [used_kept]: "ms_used (snd (tasksCancel env sb t s)) = ms_used s"
  by (simp add: tasksCancel_def case_prod_beta split: sum.split)

lemma task_answer_used [used_kept]: "ms_used (snd (task_answer a)) = ms_used (snd a)"
  by (simp add: task_answer_def)

lemma start_tool_used [used_kept]: "ms_used (snd (start_tool env sb name def args caps tr s)) = ms_used s"
  unfolding start_tool_def Let_def
  by (simp add: case_prod_beta used_kept split: sum.split)

lemma answer_interrupt_used [used_kept]: "ms_used (snd (answer_interrupt env sb r i response s)) = ms_used s"
  unfolding answer_interrupt_def Let_def
  by (simp add: case_prod_beta used_kept)

text \<open>A retry either changes no claim or claims its own nonce, which was free.\<close>

definition claims_one :: "mcp_sys \<Rightarrow> mcp_sys \<Rightarrow> bool" where
  "claims_one s s' \<longleftrightarrow> ms_used s' = ms_used s \<or> (\<exists>n. n \<notin> set (ms_used s) \<and> ms_used s' = ms_used s @ [n])"

lemma claims_oneI: "ms_used s' = ms_used s \<Longrightarrow> claims_one s s'"
  by (simp add: claims_one_def)

lemma continue_tool_claims: "claims_one s (snd (continue_tool env sb name args caps c response s))"
proof (cases "sc_nonce c \<in> set (ms_used s)")
  case True
  then show ?thesis by (simp add: continue_tool_def consumeMcpRequestState_def claims_one_def)
next
  case False
  let ?s1 = "s\<lparr>ms_used := ms_used s @ [sc_nonce c]\<rparr>"
  have o: "ms_used (snd (outcome env (Some sb) name (JObj args) r caps ?s1)) = ms_used s @ [sc_nonce c]" for r
    by (simp add: used_kept)
  have w: "ms_used (snd (in_world a ?s1)) = ms_used s @ [sc_nonce c]" for a :: "(exn + run_status) \<times> world" by (simp add: used_kept)
  have a: "ms_used (snd (answer_interrupt env sb r i response ?s1)) = ms_used s @ [sc_nonce c]" for r i by (simp add: used_kept)
  have "ms_used (snd (continue_tool env sb name args caps c response s)) = ms_used s @ [sc_nonce c]"
    using False unfolding continue_tool_def consumeMcpRequestState_def
    by (simp add: case_prod_beta o w a split: option.split sum.split)
  with False show ?thesis by (auto simp: claims_one_def)
qed

lemma toolsCall_claims: "claims_one s (snd (toolsCall env sb params caps tr s))"
  unfolding toolsCall_def
  by (simp add: continue_tool_claims claims_oneI used_kept split: option.split sum.split json.split prod.split)

lemma with_tasks_used: "ms_used (snd a) = ms_used s \<Longrightarrow> ms_used (snd (with_tasks caps s a)) = ms_used s"
  by (simp add: with_tasks_def answered_def split: sum.split)

lemma dispatch_claims: "claims_one s (snd (dispatch env sb meth params caps tr s))"
  by (simp add: dispatch_def Let_def toolsCall_claims claims_oneI with_tasks_used used_kept)

lemma mcp_serve_claims: "claims_one s (snd (mcp_serve env sb header meth rawId params s))"
  unfolding mcp_serve_def Let_def
  by (simp add: case_prod_beta dispatch_claims claims_oneI split: option.split sum.split)

lemma mcpHandler_claims: "claims_one s (snd (mcpHandler env subj header body s))"
  unfolding mcpHandler_def
  by (simp add: mcp_serve_claims claims_oneI split: option.split json.split bool.split)

text \<open>
  The mount among the rest of the host: a request up to its wait, a call whose run has settled, a
  connection that closes, an answer posted to an interrupt page, and any progress of the host. The keys a
  step fires are the request states it consumed.
\<close>

datatype mcp_op =
    Requests "subject option" "string \<Rightarrow> string option" string
  | Settles subject string json bool json run_row
  | Disconnects "string option"
  | Posts subject string "(string \<times> json) list"
  | Moves "world \<Rightarrow> world"

fun mcp_state :: "mcp_env \<Rightarrow> mcp_op \<Rightarrow> mcp_sys \<Rightarrow> mcp_sys" where
  "mcp_state env (Requests subj header body) s = snd (mcpHandler env subj header body s)"
| "mcp_state env (Settles sb name args retried caps r) s = snd (toolsCall_end env sb name args retried caps r s)"
| "mcp_state env (Disconnects owned) s = s\<lparr>ms_world := disconnected env owned (ms_world s)\<rparr>"
| "mcp_state env (Posts sb page body) s = snd (pagePost env sb page body s)"
| "mcp_state env (Moves f) s = s\<lparr>ms_world := f (ms_world s)\<rparr>"

definition mcp_step :: "mcp_env \<Rightarrow> mcp_op \<Rightarrow> mcp_sys \<Rightarrow> string list \<times> mcp_sys" where
  "mcp_step env a s = (let s' = mcp_state env a s in (drop (length (ms_used s)) (ms_used s'), s'))"

lemma mcp_state_claims: "claims_one s (mcp_state env a s)"
  by (cases a) (simp_all add: mcpHandler_claims claims_oneI toolsCall_end_def pagePost_def case_prod_beta Let_def used_kept
      split: sum.split option.split)

lemma mcp_step_fires:
  "fst (mcp_step env a s) = [] \<and> ms_used (snd (mcp_step env a s)) = ms_used s
   \<or> (\<exists>n. fst (mcp_step env a s) = [n] \<and> n \<notin> set (ms_used s) \<and> ms_used (snd (mcp_step env a s)) = ms_used s @ [n])"
  using mcp_state_claims [of s env a] by (auto simp: claims_one_def mcp_step_def Let_def)

definition used_state :: "mcp_sys \<Rightarrow> string \<Rightarrow> bool" where
  "used_state s n \<longleftrightarrow> n \<in> set (ms_used s)"

interpretation retries: one_shot "mcp_step env" used_state "\<lambda>_. True" for env
proof
  fix s n and a :: mcp_op
  show "distinct (fst (mcp_step env a s))" using mcp_step_fires [of env a s] by auto
  show "n \<in> set (fst (mcp_step env a s)) \<Longrightarrow> \<not> used_state s n \<and> used_state (snd (mcp_step env a s)) n"
    using mcp_step_fires [of env a s] by (auto simp: used_state_def)
  show "used_state s n \<Longrightarrow> used_state (snd (mcp_step env a s)) n"
    using mcp_step_fires [of env a s] by (auto simp: used_state_def)
qed simp

lemma used_state_refused:
  "used_state s (sc_nonce c) \<Longrightarrow> continue_tool env sb name args caps c response s = (Inl (bad_state ''already used''), s)"
  by (simp add: used_state_def continue_tool_def consumeMcpRequestState_def)

text \<open>
  C33: A request state acts once: under every interleaving of requests, settling calls, closing connections,
  posted pages and the rest of the host, no state is consumed twice and none that was consumed before; and a
  retry that carries a consumed state is refused and changes nothing.
\<close>

theorem request_state_acts_once:
  assumes "fired (mcp_step env) ops s = (consumed, s')"
  shows "distinct consumed \<and> (\<forall>n \<in> set consumed. n \<notin> set (ms_used s))
    \<and> (sc_nonce c \<in> set (ms_used s) \<or> sc_nonce c \<in> set consumed \<longrightarrow>
        continue_tool ce sb name args caps c response s' = (Inl (bad_state ''already used''), s'))"
proof -
  have once: "distinct (fst (fired (mcp_step env) ops s)) \<and> (\<forall>n \<in> set (fst (fired (mcp_step env) ops s)).
      \<not> used_state s n \<and> used_state (snd (fired (mcp_step env) ops s)) n)"
    by (rule retries.fired_once) simp
  then have f: "distinct consumed" "\<And>n. n \<in> set consumed \<Longrightarrow> \<not> used_state s n \<and> used_state s' n" by (simp_all add: assms)
  have "used_state s n \<Longrightarrow> used_state (snd (fired (mcp_step env) ops s)) n" for n by (rule retries.spent_along) simp_all
  then have k: "used_state s n \<Longrightarrow> used_state s' n" for n by (simp add: assms)
  have "sc_nonce c \<in> set (ms_used s) \<or> sc_nonce c \<in> set consumed \<Longrightarrow> used_state s' (sc_nonce c)"
    using f(2) k [of "sc_nonce c"] by (auto simp: used_state_def)
  with f used_state_refused show ?thesis by (auto simp: used_state_def)
qed

section \<open>A request state is signed and bound\<close>

lemma base64url_nonempty: "s \<noteq> [] \<Longrightarrow> base64url s \<noteq> []"
proof
  assume "s \<noteq> []" "base64url s = []"
  then have "from_base64url (base64url s) = from_base64url (base64url [])" by (simp add: base64url_def)
  then have "s = []" by (simp only: from_base64url_base64url)
  with \<open>s \<noteq> []\<close> show False by simp
qed

lemma read_own_claims: "read_claims (state_json c) = Inr c"
  by (cases c) (simp add: state_json_def read_claims_def text_of_def number_or_def)

lemma state_json_parses: "json_parse (json_stringify (state_json c)) = Some (state_json c)"
  by (rule json_parse_stringify) (simp add: state_json_def)

lemma verify_own_state:
  "verifyState env now sb (Some (JStr (state_text env c))) name args
     = (case claims_refusal env now sb name args c of Some e \<Rightarrow> Inl e | None \<Rightarrow> Inr c)"
proof -
  let ?body = "base64url (json_stringify (state_json c))" let ?mac = "state_mac env ?body"
  have cut: "takeWhile (\<lambda>x. x \<noteq> CHR ''.'') (?body @ ''.'' @ ?mac) = ?body" "dropWhile (\<lambda>x. x \<noteq> CHR ''.'') (?body @ ''.'' @ ?mac) = ''.'' @ ?mac"
    using base64url_no_dot [of "json_stringify (state_json c)"] by (simp_all add: takeWhile_append dropWhile_append)
  have "?body \<noteq> []" by (rule base64url_nonempty) (simp add: state_json_def)
  then show ?thesis
    using cut by (simp add: verifyState_def state_text_def Let_def state_json_parses read_own_claims)
qed

text \<open>
  A minted request state verifies, until ten minutes have passed, for the Subject it was minted for and the
  call it was minted in, and answers its run and interrupt; later it is expired, under another Subject
  bound to another principal, and with another tool or arguments of another digest bound to another request.
\<close>

theorem minted_state_verifies:
  "verifyState env now sb' (Some (JStr (fst (mintState env sb name args rid iid w)))) name' args' =
     (if int (w_clock w) + 600000 < int now then Inl (bad_state ''expired'')
      else if subject_key sb \<noteq> subject_key sb' then Inl (bad_state ''bound to another principal'')
      else if digestOf (me_host env) name args \<noteq> digestOf (me_host env) name' args' then Inl (bad_state ''bound to another request'')
      else Inr \<lparr>sc_principal = subject_key sb', sc_expires = int (w_clock w) + 600000, sc_digest = digestOf (me_host env) name' args',
         sc_run = rid, sc_interrupt = iid, sc_nonce = h_opaque (me_host env) (w_rng w)\<rparr>)"
  by (simp add: mintState_def verify_own_state claims_refusal_def REQUEST_STATE_TTL_MS_def)

text \<open>
  What verifies was signed: an accepted request state is a body with the host's own code over it, the claims
  answered are those the body states, and they name the caller, this call, and a time not yet past.
\<close>

theorem accepted_state_was_signed:
  assumes "verifyState env now sb raw name args = Inr c"
  shows "\<exists>body j. raw = Some (JStr (body @ ''.'' @ state_mac env body)) \<and> json_parse (from_base64url body) = Some j \<and> read_claims j = Inr c
    \<and> sc_principal c = subject_key sb \<and> sc_digest c = digestOf (me_host env) name args \<and> int now \<le> sc_expires c"
proof -
  obtain s where s: "raw = Some (JStr s)"
    using assms by (cases raw rule: str_of.cases) (auto simp: verifyState_def)
  let ?body = "takeWhile (\<lambda>x. x \<noteq> CHR ''.'') s" let ?rest = "dropWhile (\<lambda>x. x \<noteq> CHR ''.'') s"
  have rest: "?rest \<noteq> []" and sig: "tl ?rest = state_mac env ?body"
    using assms by (simp_all add: s verifyState_def Let_def split: if_splits)
  from assms rest sig obtain j where j: "json_parse (from_base64url ?body) = Some j"
    and c: "and_then (read_claims j) (\<lambda>c. case claims_refusal env now sb name args c of Some e \<Rightarrow> Inl e | None \<Rightarrow> Inr c) = Inr c"
    by (simp add: s verifyState_def Let_def split: if_splits option.splits)
  from c have claims: "read_claims j = Inr c" "claims_refusal env now sb name args c = None"
    by (cases "read_claims j"; auto split: option.splits)+
  have "hd ?rest = CHR ''.''" using rest hd_dropWhile by blast
  with rest sig have "?rest = ''.'' @ state_mac env ?body" by (metis append_Cons append_Nil list.collapse)
  then have "s = ?body @ ''.'' @ state_mac env ?body" by (metis takeWhile_dropWhile_id)
  with s j claims show ?thesis
    by (intro exI [of _ ?body] exI [of _ j]) (simp add: claims_refusal_def split: if_splits)
qed

section \<open>Tasks\<close>

lemma find_of_tenant:
  assumes "distinct (map run_id rs)"
  shows "find (\<lambda>r. run_id r = i) (filter (\<lambda>r. r_tenant r = T) rs)
    = (case find (\<lambda>r. run_id r = i) rs of Some r \<Rightarrow> if r_tenant r = T then Some r else None | None \<Rightarrow> None)"
  using assms
proof (induction rs)
  case (Cons r rs)
  then have "run_id r = i \<Longrightarrow> find (\<lambda>r. run_id r = i) rs = None" by (auto simp: find_None_iff image_iff)
  with Cons show ?case by auto
qed simp

definition runs_of :: "string \<Rightarrow> world \<Rightarrow> run_row list" where
  "runs_of ten w = filter (\<lambda>r. r_tenant r = ten) (t_runs w)"

lemma taskRun_by_tenant:
  assumes "distinct (map run_id (t_runs w))"
  shows "taskRun sb raw w = (case Option.bind (str_of raw) (\<lambda>s. case unprojectBoundId s of Inl e \<Rightarrow> None | Inr i \<Rightarrow>
      if TENANT_BOUND i \<and> takeWhile (\<lambda>c. c \<noteq> CHR ''/'') i = sub_tenant sb then find (\<lambda>r. run_id r = i) (runs_of (sub_tenant sb) w) else None) of
    None \<Rightarrow> Inl task_not_found | Some r \<Rightarrow> Inr r)"
  using assms by (auto simp: taskRun_def runs_of_def find_of_tenant getRun_def split: option.split sum.split)

lemma taskRun_Inl: "taskRun sb raw w = Inl e \<Longrightarrow> e = task_not_found"
  by (auto simp: taskRun_def split: option.splits sum.splits if_splits)

lemma taskRun_Inr: "taskRun sb raw w = Inr r \<Longrightarrow> r_tenant r = sub_tenant sb \<and> getRun (run_id r) w = Some r"
  by (auto simp: taskRun_def split: option.splits sum.splits if_splits dest: getRun_id)

text \<open>
  C34: A task is its tenant's: which run a task id names, or that it names none, depends only on the runs of the
  caller's tenant, every refusal is the one unknown-task answer, and under it no task method changes
  anything.
\<close>

theorem tasks_stay_in_tenant:
  assumes "distinct (map run_id (t_runs w))" "distinct (map run_id (t_runs v))" "runs_of (sub_tenant sb) w = runs_of (sub_tenant sb) v"
  shows "taskRun sb raw w = taskRun sb raw v
    \<and> (taskRun sb raw w = Inl e \<longrightarrow> e = task_not_found \<and> (ms_world s = w \<longrightarrow>
         tasksGet env sb raw caps s = (Inl task_not_found, s) \<and> tasksUpdate env sb raw responses s = (Inl task_not_found, s)
         \<and> tasksCancel env sb raw s = (Inl task_not_found, s)))
    \<and> (taskRun sb raw w = Inr r \<longrightarrow> r_tenant r = sub_tenant sb \<and> r \<in> set (runs_of (sub_tenant sb) w))"
proof (intro conjI impI)
  show "taskRun sb raw w = taskRun sb raw v" by (simp only: taskRun_by_tenant [OF assms(1)] taskRun_by_tenant [OF assms(2)] assms(3))
next
  assume "taskRun sb raw w = Inr r"
  from taskRun_Inr [OF this] show "r_tenant r = sub_tenant sb" "r \<in> set (runs_of (sub_tenant sb) w)"
    by (auto simp: runs_of_def getRun_def find_Some_iff)
next
  assume e: "taskRun sb raw w = Inl e"
  from taskRun_Inl [OF e] show "e = task_not_found" .
  assume "ms_world s = w"
  with e taskRun_Inl [OF e] show "tasksGet env sb raw caps s = (Inl task_not_found, s)" "tasksUpdate env sb raw responses s = (Inl task_not_found, s)"
    "tasksCancel env sb raw s = (Inl task_not_found, s)"
    by (simp_all add: tasksGet_def tasksUpdate_def tasksCancel_def)
qed

text \<open>
  A pass over the acknowledged tasks never fails, and notifies each change once: a second pass at the same
  state is silent.
\<close>

lemma elicitation_without_url: "\<exists>req. elicitationFor env r i (JObj []) s = (Inr req, s)"
  by (auto simp: elicitationFor_def declaresUrlMode_def plain_object_def Let_def)

lemma taskOf_total: "\<exists>ps. taskOf env r True (JObj []) s = (Inr ps, s)"
proof (cases "openInterrupt r (ms_world s)")
  case (Some i)
  obtain req where "elicitationFor env r i (JObj []) s = (Inr req, s)" using elicitation_without_url by blast
  with Some show ?thesis by (auto simp: taskOf_def outcome_def Let_def split: option.split)
qed (auto simp: taskOf_def outcome_def Let_def)

definition seen_now :: "mcp_env \<Rightarrow> mcp_sys \<Rightarrow> (string \<times> json option \<times> json option) list \<Rightarrow> string \<Rightarrow> bool" where
  "seen_now env s seen t \<longleftrightarrow> (case (case unprojectBoundId t of Inl e \<Rightarrow> None | Inr rid \<Rightarrow> getRun rid (ms_world s)) of None \<Rightarrow> True
     | Some r \<Rightarrow> (case fst (taskOf env r True (JObj []) s) of Inl e \<Rightarrow> True
         | Inr ps \<Rightarrow> map_of seen t = Some (map_of ps ''status'', map_of ps ''lastUpdatedAt'')))"

lemma tick_quiet: "list_all (seen_now env s seen) ts \<Longrightarrow> fst (tick env i ts seen s) = []"
  by (induction ts) (auto simp: seen_now_def Let_def split: option.splits sum.splits)

lemma tick_keeps_seen: "seen_now env s seen t \<Longrightarrow> seen_now env s (snd (tick env i ts seen s)) t"
proof (induction ts arbitrary: seen)
  case (Cons u ts)
  show ?case
  proof (cases "case unprojectBoundId u of Inl e \<Rightarrow> None | Inr rid \<Rightarrow> getRun rid (ms_world s)")
    case (Some r)
    obtain ps where ps: "taskOf env r True (JObj []) s = (Inr ps, s)" using taskOf_total by blast
    let ?now = "(map_of ps ''status'', map_of ps ''lastUpdatedAt'')"
    have "seen_now env s (AList.update u ?now seen) t"
      using Cons.prems Some ps by (cases "t = u") (auto simp: seen_now_def split: option.splits sum.splits)
    from Cons.IH [OF this] Cons.IH [OF Cons.prems] Some ps show ?thesis by (simp add: Let_def case_prod_beta)
  qed (use Cons in simp)
qed simp

lemma tick_sees_all: "list_all (seen_now env s (snd (tick env i ts seen s))) ts"
proof (induction ts arbitrary: seen)
  case (Cons u ts)
  show ?case
  proof (cases "case unprojectBoundId u of Inl e \<Rightarrow> None | Inr rid \<Rightarrow> getRun rid (ms_world s)")
    case None
    then have "seen_now env s (snd (tick env i ts seen s)) u" by (simp add: seen_now_def)
    with None Cons show ?thesis by simp
  next
    case (Some r)
    obtain ps where ps: "taskOf env r True (JObj []) s = (Inr ps, s)" using taskOf_total by blast
    let ?now = "(map_of ps ''status'', map_of ps ''lastUpdatedAt'')"
    have "seen_now env s (AList.update u ?now seen) u" "map_of seen u = Some ?now \<Longrightarrow> seen_now env s seen u"
      using Some ps by (simp_all add: seen_now_def)
    then show ?thesis using Some ps Cons tick_keeps_seen by (simp add: Let_def case_prod_beta)
  qed
qed simp

lemma tick_notifies_once: "fst (tick env i ts (snd (tick env i ts seen s)) s) = []"
  by (rule tick_quiet [OF tick_sees_all])

section \<open>Forms and secrets\<close>

definition plain_property :: "json \<Rightarrow> bool" where
  "plain_property p \<longleftrightarrow> (\<exists>ps. p = JObj ps \<and> js_String (map_of ps ''type'') \<in> set PRIMITIVE
     \<and> map_of ps ''writeOnly'' \<noteq> Some (JBool True) \<and> map_of ps ''format'' \<noteq> Some (JStr ''password''))"

lemma formEligible_plain:
  assumes "formEligible schema"
  shows "\<exists>ps. jfield schema ''properties'' = Some (JObj ps) \<and> list_all (plain_property \<circ> snd) ps"
proof -
  from assms obtain ps where "jfield schema ''properties'' = Some (JObj ps)" "list_all (\<lambda>(k, p). eligible_property p) ps"
    by (auto simp: formEligible_def split: option.splits json.splits)
  moreover have "eligible_property p \<Longrightarrow> plain_property p" for p
    by (auto simp: eligible_property_def plain_property_def split: json.splits)
  ultimately show ?thesis by (auto simp: list_all_iff)
qed

text \<open>
  What a client is asked for: an input request in form mode belongs to no credential interrupt and carries
  a flat schema whose properties are primitive and none of them write-only or a password; one in URL mode
  goes only to a client that declared that mode.
\<close>

theorem forms_ask_no_secret:
  assumes "fst (elicitationFor env r i caps s) = Inr (Some req)"
  shows "(\<exists>message schema ps. req = elicitation [(''mode'', JStr ''form''), (''message'', JStr message), (''requestedSchema'', schema)]
            \<and> ip_kind (payloadOf i) \<noteq> ''credential'' \<and> jfield schema ''properties'' = Some (JObj ps) \<and> list_all (plain_property \<circ> snd) ps)
       \<or> (declaresUrlMode caps \<and> (\<exists>message u. req = elicitation [(''mode'', JStr ''url''), (''message'', JStr message), (''url'', JStr u)]))"
proof (cases "ip_kind (payloadOf i) = ''credential''")
  case True
  with assms show ?thesis by (auto simp: elicitationFor_def Let_def split: if_splits)
next
  case False
  define schema where "schema = (if ip_kind (payloadOf i) = ''approval'' then approval_schema (ip_data (payloadOf i))
      else questions_schema (questions_of (ip_data (payloadOf i))))"
  define message where "message = (if ip_kind (payloadOf i) = ''approval'' then approval_message (ip_data (payloadOf i)) (i_node i)
      else questions_message (questions_of (ip_data (payloadOf i))) (i_node i))"
  have e: "elicitationFor env r i caps s = (if formEligible schema
      then (Inr (Some (elicitation [(''mode'', JStr ''form''), (''message'', JStr message), (''requestedSchema'', schema)])), s)
      else if \<not> declaresUrlMode caps then (Inr None, s)
      else case interruptPageFor env r i s of
          (Inl e, s1) \<Rightarrow> (Inl e, s1)
        | (Inr u, s1) \<Rightarrow> (Inr (Some (elicitation [(''mode'', JStr ''url''), (''message'', JStr message), (''url'', JStr u)])), s1))"
    using False unfolding elicitationFor_def Let_def schema_def message_def by simp
  show ?thesis
  proof (cases "formEligible schema")
    case True
    with assms e have "req = elicitation [(''mode'', JStr ''form''), (''message'', JStr message), (''requestedSchema'', schema)]" by simp
    with False formEligible_plain [OF True] show ?thesis by blast
  next
    case no: False
    with assms e show ?thesis by (auto split: if_splits sum.splits prod.splits)
  qed
qed

section \<open>The properties on concrete requests\<close>

definition demo_mount :: mcp_env where
  "demo_mount = \<lparr>me_host = demo_host, me_oauth = demo_oauth, me_secret = ''k'', me_status = (\<lambda>_. 400), me_revisions = [''2026-07-28''],
     me_describe = wf_id, me_info = JObj []\<rparr>"

definition demo_mcp :: mcp_sys where
  "demo_mcp = \<lparr>ms_world = demo_world [demo_run ''t/0123456789abcdef'' ''l''], ms_used = [], ms_pages = [], ms_draws = 0\<rparr>"

definition demo_claims :: state_claims where
  "demo_claims = \<lparr>sc_principal = subject_key demo_user, sc_expires = 9, sc_digest = digestOf demo_host ''l'' (JObj []), sc_run = ''r'',
     sc_interrupt = ''i'', sc_nonce = ''n''\<rparr>"

definition demo_params :: "(string \<times> json) list" where
  "demo_params = [(''_meta'', JObj [(META_VERSION, JStr ''2026-07-28'')]), (''name'', JStr ''l''),
     (''requestState'', JStr (state_text demo_mount demo_claims)),
     (''inputResponses'', JObj [(''i'', JObj [(''action'', JStr ''accept'')])])]"

definition demo_body :: json where
  "demo_body = JObj [(''jsonrpc'', JStr ''2.0''), (''method'', JStr ''tools/call''), (''id'', JNum 1), (''params'', JObj demo_params)]"

definition demo_header :: "string \<Rightarrow> string option" where
  "demo_header n = (if n = ''mcp-protocol-version'' then Some ''2026-07-28'' else None)"

definition demo_request :: mcp_op where
  "demo_request = Requests (Some demo_user) demo_header (json_stringify demo_body)"

lemma demo_body_parses: "json_parse (json_stringify demo_body) = Some demo_body"
  by (rule json_parse_stringify) (simp add: demo_body_def demo_params_def)

lemma demo_state_verified: "verifyState demo_mount 0 demo_user (Some (JStr (state_text demo_mount demo_claims))) ''l'' (JObj []) = Inr demo_claims"
  by (simp add: verify_own_state claims_refusal_def demo_claims_def demo_mount_def)

lemma demo_allowed: "mount_refusal demo_mount demo_header ''tools/call'' demo_params = None"
  by (simp add: mount_refusal_def mirror_refusal_def name_refusal_def demo_header_def demo_params_def demo_mount_def Let_def js_trim_def js_space_def)

lemma demo_call: "toolsCall demo_mount demo_user demo_params caps tr demo_mcp
    = (Inl (bad_state ''its run is not readable''), demo_mcp\<lparr>ms_used := [''n'']\<rparr>)"
proof -
  have "workflow_of (me_host demo_mount) ''l'' = Some wf_line" by (simp add: demo_mount_def workflow_of_def demo_host_def)
  moreover have "tool_refusal caps ''l'' wf_line None = Inr []"
    by (simp add: tool_refusal_def wf_line_def plain_node_def SUSPENDING_def)
  moreover have "w_clock (ms_world demo_mcp) = 0" by (simp add: demo_mcp_def demo_world_def)
  moreover have "continue_tool demo_mount demo_user ''l'' [] caps demo_claims r demo_mcp
      = (Inl (bad_state ''its run is not readable''), demo_mcp\<lparr>ms_used := [''n'']\<rparr>)" for r
    by (simp add: continue_tool_def consumeMcpRequestState_def demo_claims_def demo_mcp_def demo_world_def getRun_def demo_run_def)
  moreover have "sc_interrupt demo_claims = ''i''" by (simp add: demo_claims_def)
  ultimately show ?thesis by (simp add: toolsCall_def demo_params_def demo_state_verified)
qed

lemma demo_requested: "mcp_step demo_mount demo_request demo_mcp = ([''n''], demo_mcp\<lparr>ms_used := [''n'']\<rparr>)"
proof -
  have served: "snd (mcp_serve demo_mount demo_user demo_header ''tools/call'' (Some (JNum 1)) demo_params demo_mcp) = demo_mcp\<lparr>ms_used := [''n'']\<rparr>"
    by (simp add: mcp_serve_def demo_allowed dispatch_def demo_call Let_def starts_with_def)
  have "mcpHandler demo_mount (Some demo_user) demo_header (json_stringify demo_body) demo_mcp
      = mcp_serve demo_mount demo_user demo_header ''tools/call'' (Some (JNum 1)) demo_params demo_mcp"
    by (simp add: mcpHandler_def demo_body_parses) (simp add: demo_body_def)
  with served show ?thesis by (simp add: mcp_step_def demo_request_def Let_def) (simp add: demo_mcp_def)
qed

text \<open>The same retry sent twice: the first consumes the state, the second is refused.\<close>

lemma request_state_acts_once_witness:
  "fired (mcp_step demo_mount) [demo_request] demo_mcp = ([''n''], demo_mcp\<lparr>ms_used := [''n'']\<rparr>)
   \<and> continue_tool demo_mount demo_user ''l'' [] (JObj []) demo_claims (JObj []) (demo_mcp\<lparr>ms_used := [''n'']\<rparr>)
      = (Inl (bad_state ''already used''), demo_mcp\<lparr>ms_used := [''n'']\<rparr>)"
proof -
  have f: "fired (mcp_step demo_mount) [demo_request] demo_mcp = ([''n''], demo_mcp\<lparr>ms_used := [''n'']\<rparr>)"
    by (simp add: demo_requested)
  from request_state_acts_once [OF this, of demo_claims demo_mount demo_user "''l''" "[]" "JObj []" "JObj []"] f show ?thesis
    by (simp add: demo_claims_def)
qed

lemma accepted_state_was_signed_witness:
  "\<exists>body. state_text demo_mount demo_claims = body @ ''.'' @ state_mac demo_mount body"
  using accepted_state_was_signed [OF demo_state_verified] by auto

lemma tasks_stay_in_tenant_witness:
  "taskRun demo_user (Some (JStr ''t~2F0123456789abcdef'')) (demo_world [demo_run ''t/0123456789abcdef'' ''l''])
     = Inr (demo_run ''t/0123456789abcdef'' ''l'')
   \<and> taskRun demo_user (Some (JStr ''t~2F0123456789abcdef''))
      (demo_world [(demo_run ''o/0123456789abcdef'' ''l'')\<lparr>r_tenant := ''o''\<rparr>, demo_run ''t/0123456789abcdef'' ''l''])
     = Inr (demo_run ''t/0123456789abcdef'' ''l'')"
proof -
  let ?w = "demo_world [demo_run ''t/0123456789abcdef'' ''l'']"
  let ?v = "demo_world [(demo_run ''o/0123456789abcdef'' ''l'')\<lparr>r_tenant := ''o''\<rparr>, demo_run ''t/0123456789abcdef'' ''l'']"
  have same: "taskRun demo_user (Some (JStr ''t~2F0123456789abcdef'')) ?w = taskRun demo_user (Some (JStr ''t~2F0123456789abcdef'')) ?v"
    by (rule tasks_stay_in_tenant [THEN conjunct1]) (simp_all add: demo_world_def demo_run_def runs_of_def demo_user_def)
  have "unprojectBoundId ''t~2F0123456789abcdef'' = Inr ''t/0123456789abcdef''" "TENANT_BOUND ''t/0123456789abcdef''" by code_simp+
  then have "taskRun demo_user (Some (JStr ''t~2F0123456789abcdef'')) ?w = Inr (demo_run ''t/0123456789abcdef'' ''l'')"
    by (simp add: taskRun_def demo_user_def getRun_def demo_world_def demo_run_def)
  with same show ?thesis by simp
qed

definition demo_approval :: interrupt_row where
  "demo_approval = \<lparr>i_id = ''i'', i_run = ''r'', i_node = ''n'', i_key = ''k'', i_kind = ''approval'',
     i_payload = JObj [(''kind'', JStr ''approval'')], i_expires = 0, i_resolved = None, i_resume = None, i_created = 0, i_votes = None\<rparr>"

lemma forms_ask_no_secret_witness:
  "\<exists>message schema ps. fst (elicitationFor demo_mount (demo_run ''r'' ''g'') demo_approval (JObj []) demo_mcp)
     = Inr (Some (elicitation [(''mode'', JStr ''form''), (''message'', JStr message), (''requestedSchema'', schema)]))
   \<and> jfield schema ''properties'' = Some (JObj ps) \<and> list_all (plain_property \<circ> snd) ps"
proof -
  have "payloadOf demo_approval = \<lparr>ip_kind = ''approval'', ip_key = [], ip_data = JObj [], ip_timeout = None, ip_schema = None\<rparr>"
    by (simp add: payloadOf_def demo_approval_def text_of_def)
  moreover have "formEligible (approval_schema (JObj []))" by code_simp
  ultimately obtain req where req: "fst (elicitationFor demo_mount (demo_run ''r'' ''g'') demo_approval (JObj []) demo_mcp) = Inr (Some req)"
    by (simp add: elicitationFor_def Let_def)
  from forms_ask_no_secret [OF this] req show ?thesis by (simp add: declaresUrlMode_def plain_object_def) metis
qed

end
