(* ===== verification/A2A_Server.thy ===== *)
theory A2A_Server
  imports A2A Mcp_Server Run_Surface
begin

text \<open>
  What the A2A interface guarantees: a message of a principal starts or continues one task, a task is seen by
  its tenant alone, no read answers the credential of a push destination, and a push follows a change of state
  and ends with its task.
\<close>

section \<open>A message acts once\<close>

named_theorems messages_kept

lemma with_a2a_messages [messages_kept]: "as_messages (snd (with_a2a rw s)) = as_messages s"
  by (simp add: with_a2a_def)

lemma readableRun_messages [messages_kept]: "as_messages (snd (readableRun env sb i s)) = as_messages s"
  by (simp add: readableRun_def messages_kept split: option.split)

lemma readableOrNull_messages [messages_kept]: "as_messages (snd (readableOrNull env sb i s)) = as_messages s"
  using readableRun_messages [of env sb i s] by (auto simp: readableOrNull_def split: prod.split sum.split rpc_error.split)

lemma getTask_messages [messages_kept]: "as_messages (snd (getTask env sb params s)) = as_messages s"
  using readableRun_messages [of env sb "map_of params ''id''" s] by (auto simp: getTask_def split: prod.split sum.split)

lemma shown_tasks_messages [messages_kept]: "as_messages (snd (shown_tasks env hl rs s)) = as_messages s"
proof (induction rs arbitrary: s)
  case (Cons r rs)
  obtain a s1 where p: "with_a2a (applyPinDisposition (ae_host env) r (as_world s)) s = (a, s1)" by force
  with with_a2a_messages [of "applyPinDisposition (ae_host env) r (as_world s)" s] have "as_messages s1 = as_messages s" by simp
  with p Cons.IH show ?case by (simp add: Let_def case_prod_beta split: sum.split)
qed simp

lemma listTasks_messages [messages_kept]: "as_messages (snd (listTasks env sb params agent s)) = as_messages s"
  unfolding listTasks_def by (simp add: Let_def case_prod_beta messages_kept split: sum.split)

lemma cancelTask_messages [messages_kept]: "as_messages (snd (cancelTask env sb params s)) = as_messages s"
proof -
  obtain a s1 where p: "readableRun env sb (map_of params ''id'') s = (a, s1)" by force
  with readableRun_messages [of env sb "map_of params ''id''" s] have "as_messages s1 = as_messages s" by simp
  then show ?thesis
  proof (cases a)
    case (Inr r)
    obtain b w where "requestCancel (ae_host env) r (Some ''a2a-cancel-task'') (as_world s1) = (b, w)" by force
    with \<open>as_messages s1 = as_messages s\<close> p Inr show ?thesis by (cases b) (simp_all add: cancelTask_def Let_def)
  qed (simp add: p cancelTask_def)
qed

lemma case_messages:
  assumes "as_messages (snd x) = as_messages s" "\<And>r s1. as_messages (snd (f r s1)) = as_messages s1"
  shows "as_messages (snd (case x of (Inl e, s1) \<Rightarrow> (Inl e, s1) | (Inr r, s1) \<Rightarrow> f r s1)) = as_messages s"
  using assms by (cases x) (simp split: sum.split)

lemma createPush_messages [messages_kept]: "as_messages (snd (createPush env sb params s)) = as_messages s"
  unfolding createPush_def by (rule case_messages [OF readableRun_messages]) (simp add: Let_def case_prod_beta)

lemma getPush_messages [messages_kept]: "as_messages (snd (getPush env sb params s)) = as_messages s"
  unfolding getPush_def by (rule case_messages [OF readableOrNull_messages]) simp

lemma listPush_messages [messages_kept]: "as_messages (snd (listPush env sb params s)) = as_messages s"
  unfolding listPush_def by (rule case_messages [OF readableRun_messages]) simp

lemma deletePush_messages [messages_kept]: "as_messages (snd (deletePush env sb params s)) = as_messages s"
  unfolding deletePush_def by (rule case_messages [OF readableOrNull_messages]) simp

lemma pushMethod_messages [messages_kept]: "as_messages (snd (pushMethod env sb meth params s)) = as_messages s"
  by (simp add: pushMethod_def messages_kept)

lemma setA2AHistory_messages [messages_kept]: "as_messages (setA2AHistory rid hist s) = as_messages s"
  by (simp add: setA2AHistory_def)

lemma appendHistory_messages [messages_kept]: "as_messages (appendHistory rid m s) = as_messages s"
  by (simp add: appendHistory_def messages_kept)

lemma insertA2ATask_messages: "insertA2ATask t s = Some s' \<Longrightarrow> as_messages s' = as_messages s"
  by (auto simp: insertA2ATask_def split: if_splits)

text \<open>A step records no message, or one that was not recorded.\<close>

definition records_one :: "a2a_sys \<Rightarrow> a2a_sys \<Rightarrow> bool" where
  "records_one s s' \<longleftrightarrow> as_messages s' = as_messages s
     \<or> (\<exists>k rid. map_of (as_messages s) k = None \<and> as_messages s' = as_messages s @ [(k, rid)])"

lemma records_oneI: "as_messages s' = as_messages s \<Longrightarrow> records_one s s'"
  by (simp add: records_one_def)

lemma record_records: "as_messages s1 = as_messages s \<Longrightarrow> records_one s (recordA2AMessage who mid rid s1)"
  by (auto simp: records_one_def recordA2AMessage_def a2aMessageRun_def)

lemma record_found: "a2aMessageRun who mid s = None \<Longrightarrow> a2aMessageRun who mid (recordA2AMessage who mid rid s) = Some rid"
  by (simp add: recordA2AMessage_def a2aMessageRun_def map_add_def)

lemma with_world_messages [messages_kept]: "as_messages (s\<lparr>as_world := w\<rparr>) = as_messages s"
  by simp

text \<open>What starting and continuing a task come to, beside their refusals.\<close>

lemma start_task_cases:
  obtains e s1 where "start_task env sb m agent tr s = (Inl e, s1)" "as_messages s1 = as_messages s"
  | r s1 w where "start_task env sb m agent tr s = (Inr r, (recordA2AMessage (message_principal sb) (am_id m) (run_id r) s1)\<lparr>as_world := w\<rparr>)"
      "as_messages s1 = as_messages s"
proof (cases "start_task env sb m agent tr s")
  case (Pair a s2)
  show ?thesis
  proof (cases a)
    case (Inl e)
    with Pair have "start_task env sb m agent tr s = (Inl e, s2)" by simp
    moreover from this have "as_messages s2 = as_messages s"
      by (auto simp: start_task_def Let_def split: option.splits sum.splits prod.splits)
    ultimately show ?thesis by (rule that(1))
  next
    case (Inr r)
    with Pair obtain s3 t s1' where i: "insertA2ATask t s3 = Some s1'" "as_messages s3 = as_messages s"
      and s2: "s2 = (let s3 = recordA2AMessage (message_principal sb) (am_id m) (run_id r) (appendHistory (run_id r) m s1')
          in s3\<lparr>as_world := scheduleRun (run_id r) (as_world s3)\<rparr>)"
      by (auto simp: start_task_def Let_def split: option.splits sum.splits prod.splits)
    from Pair Inr s2 have "start_task env sb m agent tr s = (Inr r, (recordA2AMessage (message_principal sb) (am_id m) (run_id r)
          (appendHistory (run_id r) m s1'))\<lparr>as_world := scheduleRun (run_id r)
            (as_world (recordA2AMessage (message_principal sb) (am_id m) (run_id r) (appendHistory (run_id r) m s1')))\<rparr>)"
      by (simp add: Let_def)
    moreover have "as_messages (appendHistory (run_id r) m s1') = as_messages s"
      using insertA2ATask_messages [OF i(1)] i(2) by (simp add: messages_kept)
    ultimately show ?thesis by (rule that(2))
  qed
qed

lemma continue_task_Inr:
  assumes "continue_task env sb m task s = (Inr r, s2)"
  shows "\<exists>q s1 w. readableRun env sb (Some (JStr task)) s = (Inr q, s1) \<and> r = current_run q w
    \<and> s2 = recordA2AMessage (message_principal sb) (am_id m) (run_id q) (appendHistory (run_id r) m (s1\<lparr>as_world := w\<rparr>))"
  using assms unfolding continue_task_def
  by (auto simp: Let_def split: option.splits sum.splits prod.splits if_splits)

lemma continue_task_Inl: "continue_task env sb m task s = (Inl e, s2) \<Longrightarrow> as_messages s2 = as_messages s"
  using readableRun_messages [of env sb "Some (JStr task)" s] unfolding continue_task_def
  by (auto simp: Let_def split: option.splits sum.splits prod.splits if_splits)

lemma current_run_id [simp]: "run_id (current_run r w) = run_id r"
  by (auto simp: current_run_def split: option.split dest: getRun_id)

lemma continue_task_cases:
  obtains e s1 where "continue_task env sb m task s = (Inl e, s1)" "as_messages s1 = as_messages s"
  | r s1 where "continue_task env sb m task s = (Inr r, recordA2AMessage (message_principal sb) (am_id m) (run_id r) s1)"
      "as_messages s1 = as_messages s"
proof (cases "continue_task env sb m task s")
  case (Pair a s2)
  show ?thesis
  proof (cases a)
    case (Inl e)
    with Pair have e: "continue_task env sb m task s = (Inl e, s2)" by simp
    from that(1) [OF e continue_task_Inl [OF e]] show ?thesis .
  next
    case (Inr r)
    with Pair continue_task_Inr [of env sb m task s r s2] obtain q s1 w where
      q: "readableRun env sb (Some (JStr task)) s = (Inr q, s1)" "r = current_run q w"
        "s2 = recordA2AMessage (message_principal sb) (am_id m) (run_id q) (appendHistory (run_id r) m (s1\<lparr>as_world := w\<rparr>))" by auto
    from q(1) readableRun_messages [of env sb "Some (JStr task)" s] have "as_messages s1 = as_messages s" by simp
    then have "as_messages (appendHistory (run_id r) m (s1\<lparr>as_world := w\<rparr>)) = as_messages s" by (simp add: messages_kept)
    moreover from Pair Inr q have "continue_task env sb m task s = (Inr r, recordA2AMessage (message_principal sb) (am_id m) (run_id r)
        (appendHistory (run_id r) m (s1\<lparr>as_world := w\<rparr>)))" by simp
    ultimately show ?thesis using that(2) by blast
  qed
qed

lemma sendMessage_records: "records_one s (snd (sendMessage env sb params agent tr s))"
proof (cases "parseMessage (map_of params ''message'')")
  case (Inl e)
  then show ?thesis by (simp add: sendMessage_def records_oneI)
next
  case (Inr m)
  have st: "records_one s (snd (start_task env sb m agent tr s))"
    by (rule start_task_cases [of env sb m agent tr s]) (auto simp: records_one_def recordA2AMessage_def a2aMessageRun_def)
  have co: "records_one s (snd (continue_task env sb m t s))" for t
    by (rule continue_task_cases [of env sb m t s]) (auto simp: records_one_def recordA2AMessage_def a2aMessageRun_def)
  show ?thesis
    using Inr st co by (simp add: sendMessage_def records_oneI messages_kept split: option.split)
qed

lemma dispatch_records: "records_one s (snd (a2a_dispatch env sb meth params base tr s))"
  unfolding a2a_dispatch_def
  by (simp add: told_def case_prod_beta Let_def sendMessage_records records_oneI messages_kept split: sum.split)

lemma a2a_serve_records: "records_one s (snd (a2a_serve env sb header base meth rawId rawParams s))"
  unfolding a2a_serve_def Let_def
  by (simp add: case_prod_beta dispatch_records records_oneI split: option.split)

lemma jsonRpcHandler_records: "records_one s (snd (jsonRpcHandler env subj header base body s))"
  unfolding jsonRpcHandler_def
  by (simp add: a2a_serve_records records_oneI split: option.split json.split bool.split)

text \<open>
  The instance of the one-shot store: a step fires the message ids it records, each with the run of its task. The
  rest of the host moves the runs under the interface, and settled runs move the push configs.
\<close>

datatype a2a_op =
    Asks "subject option" "string \<Rightarrow> string option" string string
  | Works "world \<Rightarrow> world"
  | Settles string bool "string list"

fun a2a_state :: "a2a_env \<Rightarrow> a2a_op \<Rightarrow> a2a_sys \<Rightarrow> a2a_sys" where
  "a2a_state env (Asks subj header base body) s = snd (jsonRpcHandler env subj header base body s)"
| "a2a_state env (Works f) s = s\<lparr>as_world := f (as_world s)\<rparr>"
| "a2a_state env (Settles state terminal held) s = s\<lparr>as_push := snd (push_settled state terminal held (as_push s))\<rparr>"

definition a2a_step :: "a2a_env \<Rightarrow> a2a_op \<Rightarrow> a2a_sys \<Rightarrow> ((string \<times> string) \<times> string) list \<times> a2a_sys" where
  "a2a_step env a s = (let s' = a2a_state env a s in (drop (length (as_messages s)) (as_messages s'), s'))"

lemma a2a_step_fires:
  "fst (a2a_step env a s) = [] \<and> as_messages (snd (a2a_step env a s)) = as_messages s
   \<or> (\<exists>k rid. fst (a2a_step env a s) = [(k, rid)] \<and> map_of (as_messages s) k = None
        \<and> as_messages (snd (a2a_step env a s)) = as_messages s @ [(k, rid)])"
proof -
  have "records_one s (a2a_state env a s)" by (cases a) (simp_all add: jsonRpcHandler_records records_oneI)
  then show ?thesis by (auto simp: records_one_def a2a_step_def Let_def)
qed

definition taken_by :: "a2a_sys \<Rightarrow> (string \<times> string) \<times> string \<Rightarrow> bool" where
  "taken_by s kr \<longleftrightarrow> map_of (as_messages s) (fst kr) = Some (snd kr)"

interpretation sends: one_shot "a2a_step env" taken_by "\<lambda>_. True" for env
proof
  fix s kr and a :: a2a_op
  show "distinct (fst (a2a_step env a s))" using a2a_step_fires [of env a s] by auto
  show "kr \<in> set (fst (a2a_step env a s)) \<Longrightarrow> \<not> taken_by s kr \<and> taken_by (snd (a2a_step env a s)) kr"
    using a2a_step_fires [of env a s] by (auto simp: taken_by_def map_add_def)
  show "taken_by s kr \<Longrightarrow> taken_by (snd (a2a_step env a s)) kr"
    using a2a_step_fires [of env a s] by (auto simp: taken_by_def map_add_def split: option.split)
qed simp

lemma readableRun_id: "readableRun env sb i s = (Inr r, s1) \<Longrightarrow> i = Some (JStr (run_id r))"
  using applyPin_same by (cases i rule: str_of.cases)
    (fastforce simp: readableRun_def readable_def with_a2a_def map_sum_def dest: getRun_id split: option.splits if_splits sum.splits)+

lemma sent_is_recorded:
  assumes "sendMessage env sb params agent tr s = (Inr r, s1)" "parseMessage (map_of params ''message'') = Inr m"
  shows "configuration_refusal (map_of params ''configuration'') = None \<and> a2aMessageRun (message_principal sb) (am_id m) s1 = Some (run_id r)"
proof (cases "a2aMessageRun (message_principal sb) (am_id m) s")
  case seen: (Some rid)
  with assms have "readableRun env sb (Some (JStr rid)) s = (Inr r, s1)" "configuration_refusal (map_of params ''configuration'') = None"
    by (auto simp: sendMessage_def split: option.splits)
  with readableRun_id [OF this(1)] readableRun_messages [of env sb "Some (JStr rid)" s] seen show ?thesis by (simp add: a2aMessageRun_def)
next
  case new: None
  with assms have c: "configuration_refusal (map_of params ''configuration'') = None" by (auto simp: sendMessage_def split: option.splits)
  have rec: "a2aMessageRun (message_principal sb) (am_id m) (recordA2AMessage (message_principal sb) (am_id m) q s') = Some q"
    if "as_messages s' = as_messages s" for s' q using record_found [of _ _ s' q] new that by (simp add: a2aMessageRun_def)
  show ?thesis
  proof (cases "am_task m")
    case None
    with assms new c have "start_task env sb m agent tr s = (Inr r, s1)" by (simp add: sendMessage_def)
    with c rec show ?thesis by (cases rule: start_task_cases [of env sb m agent tr s]) (auto simp: a2aMessageRun_def)
  next
    case (Some t)
    with assms new c have "continue_task env sb m t s = (Inr r, s1)" by (simp add: sendMessage_def)
    with c rec show ?thesis by (cases rule: continue_task_cases [of env sb m t s]) auto
  qed
qed

text \<open>
  C35: A message reaches one task: when a message of a principal has been taken, no later request of anyone,
  whatever the rest of the host does between, records that message again, no message is recorded twice, and
  sending it again, under any other configuration of the server, reads the task of its first run instead of
  starting or resuming one.
\<close>

theorem message_reaches_one_task:
  assumes "sendMessage env sb params agent tr s = (Inr r, s1)" "parseMessage (map_of params ''message'') = Inr m"
    and "fired (a2a_step env) ops s1 = (sent, s2)"
  shows "distinct (map fst sent) \<and> (message_principal sb, am_id m) \<notin> fst ` set sent
    \<and> a2aMessageRun (message_principal sb) (am_id m) s2 = Some (run_id r)
    \<and> sendMessage env' sb params agent' tr' s2 = readableRun env' sb (Some (JStr (run_id r))) s2"
proof -
  let ?k = "(message_principal sb, am_id m)"
  note rec = sent_is_recorded [OF assms(1,2)]
  have once: "distinct (fst (fired (a2a_step env) ops s1)) \<and> (\<forall>k \<in> set (fst (fired (a2a_step env) ops s1)).
      \<not> taken_by s1 k \<and> taken_by (snd (fired (a2a_step env) ops s1)) k)" by (rule sends.fired_once) simp
  then have f: "distinct sent" "\<And>kr. kr \<in> set sent \<Longrightarrow> taken_by s2 kr" by (simp_all add: assms(3))
  have "taken_by s1 kr \<Longrightarrow> taken_by (snd (fired (a2a_step env) ops s1)) kr" for kr by (rule sends.spent_along) simp_all
  then have k: "taken_by s1 kr \<Longrightarrow> taken_by s2 kr" for kr by (simp add: assms(3))
  have "inj_on fst (set sent)"
  proof (rule inj_onI)
    fix x y assume "x \<in> set sent" "y \<in> set sent" "fst x = fst y"
    with f(2) [of x] f(2) [of y] show "x = y" by (simp add: taken_by_def prod_eq_iff)
  qed
  with f(1) have "distinct (map fst sent)" by (simp add: distinct_map)
  moreover have s2: "taken_by s2 (?k, run_id r)" using k [of "(?k, run_id r)"] rec by (simp add: taken_by_def a2aMessageRun_def)
  moreover have "?k \<notin> fst ` set sent"
  proof
    assume "?k \<in> fst ` set sent"
    then obtain rid where in': "(?k, rid) \<in> set sent" by force
    with f(2) s2 have "rid = run_id r" by (fastforce simp: taken_by_def)
    with once in' rec show False by (auto simp: assms(3) taken_by_def a2aMessageRun_def)
  qed
  ultimately show ?thesis using assms(2) rec by (simp add: sendMessage_def taken_by_def a2aMessageRun_def)
qed

section \<open>A task is its tenant's\<close>

lemma readable_by_tenant:
  assumes "distinct (map run_id (t_runs w))"
  shows "readable sb i w = Option.bind (str_of i) (\<lambda>rid. if rid = [] then None else find (\<lambda>r. run_id r = rid) (runs_of (sub_tenant sb) w))"
  using assms by (auto simp: readable_def runs_of_def find_of_tenant getRun_def split: option.split)

lemma tenant_runs_only: "listRuns ten n None None None w = take n (rev (sort_key run_order (runs_of ten w)))"
  by (simp add: listRuns_def runs_of_def)

lemma task_wanted_world: "task_wanted agent q (s\<lparr>as_world := w\<rparr>) = task_wanted agent q s"
  by (rule ext) (simp add: task_wanted_def contextOf_def a2aTask_def split: option.split)

lemma refused_unread:
  assumes "readable sb i (as_world s) = None"
  shows "readableRun env sb i s = (Inl TASK_NOT_FOUND, s)"
  using assms by (simp add: readableRun_def)

text \<open>
  C36: A task is seen by its tenant alone: which run an id names and which runs a listing shows depend only on
  the runs of the caller's tenant, and are of that tenant; under an id that names none, the methods that read
  or change a task answer that it is not found and change nothing, whether or not another tenant has it.
\<close>

theorem a2a_tasks_stay_in_tenant:
  assumes "distinct (map run_id (t_runs (as_world s)))" "distinct (map run_id (t_runs w))"
    and "runs_of (sub_tenant sb) (as_world s) = runs_of (sub_tenant sb) w"
  shows "readable sb i (as_world s) = readable sb i w \<and> set_option (readable sb i w) \<subseteq> set (runs_of (sub_tenant sb) w)
    \<and> listed_tasks sb agent q s = listed_tasks sb agent q (s\<lparr>as_world := w\<rparr>) \<and> set (listed_tasks sb agent q s) \<subseteq> set (runs_of (sub_tenant sb) w)
    \<and> (readable sb (map_of params ''id'') w = None \<longrightarrow> historyLengthOf (map_of params ''historyLength'') = Inr n \<longrightarrow>
         getTask env sb params s = (Inl TASK_NOT_FOUND, s) \<and> cancelTask env sb params s = (Inl TASK_NOT_FOUND, s))
    \<and> (readable sb (Some (JStr t)) w = None \<longrightarrow> continue_task env sb m t s = (Inl TASK_NOT_FOUND, s))
    \<and> (readable sb (map_of params ''taskId'') w = None \<longrightarrow>
         createPush env sb params s = (Inl TASK_NOT_FOUND, s) \<and> listPush env sb params s = (Inl TASK_NOT_FOUND, s)
         \<and> getPush env sb params s = (Inl (RpcError (-32001) ''push notification config not found'' []), s))"
proof -
  have same: "readable sb j (as_world s) = readable sb j w" for j
    unfolding readable_by_tenant [OF assms(1)] readable_by_tenant [OF assms(2)] assms(3) by (rule refl)
  have own: "set_option (readable sb i w) \<subseteq> set (runs_of (sub_tenant sb) w)"
    by (auto simp: readable_by_tenant [OF assms(2)] bind_eq_Some_conv find_Some_iff split: if_splits)
  have listed: "listed_tasks sb agent q s = listed_tasks sb agent q (s\<lparr>as_world := w\<rparr>)"
    using assms(3) by (simp add: listed_tasks_def tenant_runs_only task_wanted_world)
  have theirs: "set (listed_tasks sb agent q s) \<subseteq> set (runs_of (sub_tenant sb) w)"
    using assms(3) by (auto simp: listed_tasks_def tenant_runs_only dest: in_set_takeD)
  show ?thesis
    using same own listed theirs refused_unread [of sb "map_of params ''id''" s env] refused_unread [of sb "Some (JStr t)" s env]
      refused_unread [of sb "map_of params ''taskId''" s env]
    by (simp add: getTask_def cancelTask_def continue_task_def createPush_def listPush_def getPush_def readableOrNull_def TASK_NOT_FOUND_def
        getPushConfig_def from_push_def)
qed

section \<open>Push configs\<close>

text \<open>What is left of a config without its secrets.\<close>

definition erased :: "push_config \<Rightarrow> push_config" where
  "erased c = c\<lparr>pc_token := None, pc_auth := map_option (\<lambda>a. (fst a, None)) (pc_auth c)\<rparr>"

lemma erased_fields [simp]: "pc_id (erased c) = pc_id c" "pc_task (erased c) = pc_task c" "publicView (erased c) = publicView c"
  by (simp_all add: erased_def publicView_def option.map_comp comp_def)

lemma filter_erased: "map erased cs = map erased ds \<Longrightarrow> (\<And>c. P (erased c) = P c) \<Longrightarrow> map erased (filter P cs) = map erased (filter P ds)"
proof (induction cs arbitrary: ds)
  case (Cons c cs)
  then obtain d ds' where "ds = d # ds'" "erased c = erased d" "map erased cs = map erased ds'" by (cases ds) auto
  moreover from this Cons.prems(2) have "P c = P d" by metis
  ultimately show ?case using Cons.IH [of ds'] Cons.prems(2) by simp
qed simp

lemma find_erased: "map erased cs = map erased ds \<Longrightarrow> (\<And>c. P (erased c) = P c) \<Longrightarrow> map_option erased (find P cs) = map_option erased (find P ds)"
proof (induction cs arbitrary: ds)
  case (Cons c cs)
  then obtain d ds' where "ds = d # ds'" "erased c = erased d" "map erased cs = map erased ds'" by (cases ds) auto
  moreover from this Cons.prems(2) have "P c = P d" by metis
  ultimately show ?case using Cons.IH [of ds'] Cons.prems(2) by simp
qed simp

lemma insort_erased: "erased c = erased d \<Longrightarrow> map erased cs = map erased ds
    \<Longrightarrow> map erased (insort_key pc_id c cs) = map erased (insort_key pc_id d ds)"
proof (induction cs arbitrary: ds)
  case (Cons x xs)
  then obtain y ys where "ds = y # ys" "erased x = erased y" "map erased xs = map erased ys" by (cases ds) auto
  moreover from this Cons.prems(1) have "pc_id x = pc_id y" "pc_id c = pc_id d" by (metis erased_fields(1))+
  ultimately show ?case using Cons.IH [of ys] Cons.prems(1) by simp
qed simp

lemma sort_erased: "map erased cs = map erased ds \<Longrightarrow> map erased (sort_key pc_id cs) = map erased (sort_key pc_id ds)"
proof (induction cs arbitrary: ds)
  case (Cons c cs)
  then obtain d ds' where ds: "ds = d # ds'" "erased c = erased d" "map erased cs = map erased ds'" by (cases ds) auto
  from insort_erased [OF ds(2) Cons.IH [OF ds(3)]] ds(1) show ?case by simp
qed simp

lemma publicView_erased: "erased c = erased d \<Longrightarrow> publicView c = publicView d"
  by (metis erased_fields(3))

lemma views_erased: "map erased cs = map erased ds \<Longrightarrow> map publicView cs = map publicView ds"
proof -
  have "map publicView xs = map publicView (map erased xs)" for xs by simp
  then show "map erased cs = map erased ds \<Longrightarrow> ?thesis" by metis
qed

lemma task_status_configs [simp]: "task_status env r (s\<lparr>as_push := cs\<rparr>) = task_status env r s"
  by (simp add: task_status_def auth_required_def contextOf_def a2aTask_def split: option.split)

lemma readableRun_configs: "readableRun env sb i (s\<lparr>as_push := cs\<rparr>) = (let (a, s1) = readableRun env sb i s in (a, s1\<lparr>as_push := cs\<rparr>))"
  by (simp add: readableRun_def with_a2a_def split: option.split)

lemma readableOrNull_configs:
  "readableOrNull env sb i (s\<lparr>as_push := cs\<rparr>) = (let (a, s1) = readableOrNull env sb i s in (a, s1\<lparr>as_push := cs\<rparr>))"
proof -
  obtain a s1 where "readableRun env sb i s = (a, s1)" by (cases "readableRun env sb i s")
  then show ?thesis by (cases a) (simp_all add: readableOrNull_def readableRun_configs split: rpc_error.split)
qed

definition alike :: "(rpc_error + json) \<times> a2a_sys \<Rightarrow> (rpc_error + json) \<times> a2a_sys \<Rightarrow> bool" where
  "alike x y \<longleftrightarrow> fst x = fst y \<and> map erased (as_push (snd x)) = map erased (as_push (snd y))"

lemma config_at_erased:
  assumes "map erased cs = map erased ds"
  shows "map_option erased (config_at i cs) = map_option erased (config_at i ds)"
  using find_erased [OF assms] by (simp add: config_at_def split: option.split)

lemma get_erased:
  assumes "map erased cs = map erased ds"
  shows "getPushConfig task i cs = getPushConfig task i ds"
proof (cases "config_at i cs")
  case None
  with config_at_erased [OF assms, of i] have "config_at i ds = None" by simp
  with None show ?thesis by (simp add: getPushConfig_def split: option.split)
next
  case (Some c)
  with config_at_erased [OF assms, of i] obtain d where d: "config_at i ds = Some d" "erased c = erased d"
    by (cases "config_at i ds") auto
  then have "pc_task c = pc_task d" "publicView c = publicView d" by (metis erased_fields)+
  with Some d show ?thesis by (simp add: getPushConfig_def split: option.split)
qed

lemma delete_erased:
  assumes "map erased cs = map erased ds"
  shows "map erased (deletePushConfig task i cs) = map erased (deletePushConfig task i ds)"
proof (cases "config_at i cs")
  case None
  with config_at_erased [OF assms, of i] have "config_at i ds = None" by simp
  with None assms show ?thesis by (simp add: deletePushConfig_def split: option.split)
next
  case (Some c)
  with config_at_erased [OF assms, of i] obtain d where d: "config_at i ds = Some d" "erased c = erased d"
    by (cases "config_at i ds") auto
  then have "pc_task c = pc_task d" "pc_id c = pc_id d" by (metis erased_fields)+
  with Some d assms filter_erased [OF assms] show ?thesis by (simp add: deletePushConfig_def split: option.split)
qed

lemma list_erased:
  assumes "map erased cs = map erased ds"
  shows "listPushConfigs task sz tok cs = listPushConfigs task sz tok ds"
proof -
  have e: "map erased (task_configs task cs) = map erased (task_configs task ds)"
    unfolding task_configs_def by (rule sort_erased, rule filter_erased [OF assms]) simp
  then have "length (task_configs task cs) = length (task_configs task ds)" by (metis length_map)
  moreover from views_erased [OF e] have "map publicView (take n (drop k (task_configs task cs))) = map publicView (take n (drop k (task_configs task ds)))" for n k
    by (simp add: take_map [symmetric] drop_map [symmetric])
  ultimately show ?thesis by (simp add: listPushConfigs_def offset_page_def split: option.split)
qed

lemma create_erased:
  assumes "map erased cs = map erased ds"
  shows "fst (createPushConfig env draw task raw current cs) = fst (createPushConfig env draw task raw current ds)
    \<and> map erased (snd (createPushConfig env draw task raw current cs)) = map erased (snd (createPushConfig env draw task raw current ds))"
  using assms filter_erased [OF assms] by (simp add: createPushConfig_def Let_def split: sum.split prod.split)

lemma pushMethod_alike:
  assumes "map erased cs = map erased ds"
  shows "alike (createPush env sb params (s\<lparr>as_push := cs\<rparr>)) (createPush env sb params (s\<lparr>as_push := ds\<rparr>))"
    and "alike (getPush env sb params (s\<lparr>as_push := cs\<rparr>)) (getPush env sb params (s\<lparr>as_push := ds\<rparr>))"
    and "alike (listPush env sb params (s\<lparr>as_push := cs\<rparr>)) (listPush env sb params (s\<lparr>as_push := ds\<rparr>))"
    and "alike (deletePush env sb params (s\<lparr>as_push := cs\<rparr>)) (deletePush env sb params (s\<lparr>as_push := ds\<rparr>))"
proof -
  obtain a s1 where a: "readableRun env sb (map_of params ''taskId'') s = (a, s1)" by (cases "readableRun env sb (map_of params ''taskId'') s")
  obtain b s2 where b: "readableOrNull env sb (map_of params ''taskId'') s = (b, s2)" by (cases "readableOrNull env sb (map_of params ''taskId'') s")
  show "alike (createPush env sb params (s\<lparr>as_push := cs\<rparr>)) (createPush env sb params (s\<lparr>as_push := ds\<rparr>))"
    using a assms create_erased [OF assms] by (cases a) (simp_all add: alike_def createPush_def readableRun_configs case_prod_beta Let_def)
  show "alike (listPush env sb params (s\<lparr>as_push := cs\<rparr>)) (listPush env sb params (s\<lparr>as_push := ds\<rparr>))"
    using a assms list_erased [OF assms] by (cases a) (simp_all add: alike_def listPush_def readableRun_configs)
  show "alike (getPush env sb params (s\<lparr>as_push := cs\<rparr>)) (getPush env sb params (s\<lparr>as_push := ds\<rparr>))"
    using b assms get_erased [OF assms] by (cases b) (simp_all add: alike_def getPush_def readableOrNull_configs)
  show "alike (deletePush env sb params (s\<lparr>as_push := cs\<rparr>)) (deletePush env sb params (s\<lparr>as_push := ds\<rparr>))"
    using b assms delete_erased [OF assms] by (cases b) (simp_all add: alike_def deletePush_def readableOrNull_configs)
qed

text \<open>
  C37: No method over push configs tells a secret: two servers whose configs differ only in the token or the
  credentials of their destinations answer every create, read, list and delete of any caller alike, and still
  differ in nothing else afterwards.
\<close>

theorem push_methods_tell_no_secret:
  assumes "map erased cs = map erased ds"
  shows "fst (pushMethod env sb meth params (s\<lparr>as_push := cs\<rparr>)) = fst (pushMethod env sb meth params (s\<lparr>as_push := ds\<rparr>))
    \<and> map erased (as_push (snd (pushMethod env sb meth params (s\<lparr>as_push := cs\<rparr>))))
        = map erased (as_push (snd (pushMethod env sb meth params (s\<lparr>as_push := ds\<rparr>))))"
  using pushMethod_alike [OF assms] by (simp add: pushMethod_def alike_def)

section \<open>A push follows a change\<close>

lemma push_settled_configs:
  "snd (push_settled state terminal held cs)
     = (if terminal then filter (\<lambda>c. pc_id c \<notin> set held) cs else map (\<lambda>c. if pc_id c \<in> set held then c\<lparr>pc_last := state\<rparr> else c) cs)"
proof (induction held arbitrary: cs)
  case (Cons i held)
  show ?case
  proof (cases "find (\<lambda>c. pc_id c = i) cs")
    case None
    then have "\<And>c. c \<in> set cs \<Longrightarrow> pc_id c \<noteq> i" by (auto simp: find_None_iff)
    with None show ?thesis by (auto simp: Cons.IH intro!: filter_cong map_cong)
  next
    case (Some c)
    have "filter (\<lambda>c. pc_id c \<noteq> i) (map (\<lambda>c. if pc_id c = i then c\<lparr>pc_last := state\<rparr> else c) cs) = filter (\<lambda>c. pc_id c \<noteq> i) cs"
      by (induction cs) auto
    with Some have "snd (push_settled state terminal (i # held) cs) = snd (push_settled state terminal held
        (if terminal then filter (\<lambda>d. pc_id d \<noteq> i) cs else map (\<lambda>d. if pc_id d = i then d\<lparr>pc_last := state\<rparr> else d) cs))"
      by (simp add: Let_def case_prod_beta)
    then show ?thesis unfolding Cons.IH by (cases terminal) (auto simp: conj_commute)
  qed
qed simp

definition told_of :: "string \<Rightarrow> string list \<Rightarrow> push_config list \<Rightarrow> push set" where
  "told_of state held cs = {p. pu_config p \<in> set cs \<and> pc_id (pu_config p) \<in> set held \<and> pc_last (pu_config p) \<noteq> state \<and> pu_state p = state}"

lemma told_rest:
  "told_of state held (if terminal then filter (\<lambda>d. pc_id d \<noteq> i) (map (\<lambda>d. if pc_id d = i then d\<lparr>pc_last := state\<rparr> else d) cs)
      else map (\<lambda>d. if pc_id d = i then d\<lparr>pc_last := state\<rparr> else d) cs)
    = {p \<in> told_of state held cs. pc_id (pu_config p) \<noteq> i}"
  by (auto simp: told_of_def image_iff split: if_splits)

lemma push_settled_pushes:
  "distinct (map pc_id cs) \<Longrightarrow> set (fst (push_settled state terminal held cs)) = told_of state held cs
     \<and> distinct (fst (push_settled state terminal held cs))"
proof (induction held arbitrary: cs)
  case Nil
  show ?case by (simp add: told_of_def)
next
  case (Cons i held)
  show ?case
  proof (cases "find (\<lambda>c. pc_id c = i) cs")
    case None
    then have "\<And>c. c \<in> set cs \<Longrightarrow> pc_id c \<noteq> i" by (auto simp: find_None_iff)
    with None Cons.IH [OF Cons.prems] show ?thesis by (auto simp: told_of_def)
  next
    case (Some c)
    then have c: "c \<in> set cs" "pc_id c = i" by (auto simp: find_Some_iff)
    with Cons.prems have same: "d = c" if "d \<in> set cs" "pc_id d = i" for d using that by (auto simp: distinct_map inj_on_def)
    let ?cs = "if terminal then filter (\<lambda>d. pc_id d \<noteq> i) (map (\<lambda>d. if pc_id d = i then d\<lparr>pc_last := state\<rparr> else d) cs)
      else map (\<lambda>d. if pc_id d = i then d\<lparr>pc_last := state\<rparr> else d) cs"
    have ids: "map pc_id (map (\<lambda>d. if pc_id d = i then d\<lparr>pc_last := state\<rparr> else d) cs) = map pc_id cs" by simp
    have "distinct (map pc_id ?cs)" using Cons.prems ids by (cases terminal) (simp_all add: distinct_map_filter del: map_map)
    from Cons.IH [OF this] have ih: "set (fst (push_settled state terminal held ?cs)) = {p \<in> told_of state held cs. pc_id (pu_config p) \<noteq> i}"
        "distinct (fst (push_settled state terminal held ?cs))" by (simp_all only: told_rest)
    have step: "fst (push_settled state terminal (i # held) cs)
        = (if pc_last c \<noteq> state then [\<lparr>pu_config = c, pu_state = state\<rparr>] else []) @ fst (push_settled state terminal held ?cs)"
      using Some by (simp add: Let_def case_prod_beta)
    have "told_of state (i # held) cs = (if pc_last c \<noteq> state then {\<lparr>pu_config = c, pu_state = state\<rparr>} else {})
        \<union> {p \<in> told_of state held cs. pc_id (pu_config p) \<noteq> i}"
      using c by (auto simp: told_of_def dest: same)
    then have "set (fst (push_settled state terminal (i # held) cs)) = told_of state (i # held) cs"
      unfolding step set_append ih(1) by simp
    moreover have "distinct (fst (push_settled state terminal (i # held) cs))"
      unfolding step distinct_append ih(1) using ih(2) c(2) by simp
    ultimately show ?thesis by simp
  qed
qed

text \<open>
  A push follows a change of state and ends with its task: the configs told are, each once, those that
  were held when the event was recorded, are still held, and were last told another state; each of them has
  then been told this one and the others are as they were, or, when the task is terminal, exactly the held
  ones are gone; so settling again in the same state pushes nothing.
\<close>

theorem push_follows_change:
  assumes "distinct (map pc_id cs)" "push_settled state terminal held cs = (pushes, cs')"
  shows "distinct pushes \<and> set pushes = told_of state held cs
    \<and> cs' = (if terminal then filter (\<lambda>c. pc_id c \<notin> set held) cs else map (\<lambda>c. if pc_id c \<in> set held then c\<lparr>pc_last := state\<rparr> else c) cs)
    \<and> fst (push_settled state again held cs') = []"
proof -
  have p: "distinct pushes" "set pushes = told_of state held cs"
    using push_settled_pushes [OF assms(1), of state terminal held] assms(2) by simp_all
  have cs': "cs' = (if terminal then filter (\<lambda>c. pc_id c \<notin> set held) cs else map (\<lambda>c. if pc_id c \<in> set held then c\<lparr>pc_last := state\<rparr> else c) cs)"
    using push_settled_configs [of state terminal held cs] assms(2) by simp
  have "map pc_id (map (\<lambda>c. if pc_id c \<in> set held then c\<lparr>pc_last := state\<rparr> else c) cs) = map pc_id cs" by simp
  with assms(1) cs' have "distinct (map pc_id cs')" by (cases terminal) (simp_all add: distinct_map_filter del: map_map)
  moreover have "told_of state held cs' = {}" using cs' by (auto simp: told_of_def split: if_splits)
  ultimately have "fst (push_settled state again held cs') = []" using push_settled_pushes [of cs' state again held] by simp
  with p cs' show ?thesis by simp
qed

section \<open>The properties on concrete requests\<close>

definition demo_agent :: a2a_env where
  "demo_agent = \<lparr>ae_host = demo_host, ae_net = demo_net, ae_private = False, ae_attempts = 2, ae_workflow = ''l'', ae_push = True,
     ae_cards = True, ae_tenant = ''t'', ae_tenant_b = None, ae_relay_peer = None, ae_card_secret = ''k'', ae_version = ''1'',
     ae_status = (\<lambda>_. 400), ae_random = nat_string, ae_skill = JStr, ae_provider = JNull\<rparr>"

definition demo_tasks :: a2a_sys where
  "demo_tasks = \<lparr>as_world = demo_world [], as_tasks = [], as_messages = [], as_push = [], as_draws = 0\<rparr>"

definition demo_message :: "(string \<times> json) list" where
  "demo_message = [(''message'', JObj [(''messageId'', JStr ''m''), (''role'', JStr ''ROLE_USER''), (''parts'', JArr [JObj [(''text'', JStr ''go'')]])])]"

definition demo_again :: a2a_op where
  "demo_again = Asks (Some demo_user) (\<lambda>_. None) [] (json_stringify (JObj [(''jsonrpc'', JStr ''2.0''), (''id'', JNum 1),
     (''method'', JStr ''SendMessage''), (''params'', JObj demo_message)]))"

lemma demo_sent: "(case sendMessage demo_agent demo_user demo_message None None demo_tasks of (Inr r, s1) \<Rightarrow> True | _ \<Rightarrow> False)"
  by code_simp

lemma demo_message_parses: "parseMessage (map_of demo_message ''message'')
    = Inr \<lparr>am_id = ''m'', am_role = ''ROLE_USER'', am_parts = [JObj [(''text'', JStr ''go'')]], am_task = None, am_context = None, am_meta = None\<rparr>"
  by code_simp

text \<open>A message that started a task, and the same message posted again and then sent once more.\<close>

lemma message_reaches_one_task_witness:
  "(case sendMessage demo_agent demo_user demo_message None None demo_tasks of
      (Inr r, s1) \<Rightarrow> (let s2 = snd (fired (a2a_step demo_agent) [demo_again, Works id, demo_again] s1)
        in sendMessage demo_agent demo_user demo_message None None s2 = readableRun demo_agent demo_user (Some (JStr (run_id r))) s2)
    | _ \<Rightarrow> False)"
proof -
  obtain r s1 where sent: "sendMessage demo_agent demo_user demo_message None None demo_tasks = (Inr r, s1)"
    using demo_sent by (auto split: prod.splits sum.splits)
  obtain ks s2 where f: "fired (a2a_step demo_agent) [demo_again, Works id, demo_again] s1 = (ks, s2)"
    by (cases "fired (a2a_step demo_agent) [demo_again, Works id, demo_again] s1")
  from message_reaches_one_task [OF sent demo_message_parses f] have
    "sendMessage demo_agent demo_user demo_message None None s2 = readableRun demo_agent demo_user (Some (JStr (run_id r))) s2" by blast
  with sent f show ?thesis by (simp add: Let_def del: fired.simps)
qed

lemma a2a_tasks_stay_in_tenant_witness:
  "getTask demo_agent demo_user [(''id'', JStr ''o/1'')] (demo_tasks\<lparr>as_world := demo_world [(demo_run ''o/1'' ''l'')\<lparr>r_tenant := ''o''\<rparr>]\<rparr>)
     = (Inl TASK_NOT_FOUND, demo_tasks\<lparr>as_world := demo_world [(demo_run ''o/1'' ''l'')\<lparr>r_tenant := ''o''\<rparr>]\<rparr>)"
proof -
  let ?s = "demo_tasks\<lparr>as_world := demo_world [(demo_run ''o/1'' ''l'')\<lparr>r_tenant := ''o''\<rparr>]\<rparr>" and ?w = "demo_world []"
  have "distinct (map run_id (t_runs (as_world ?s)))" "distinct (map run_id (t_runs ?w))"
      "runs_of (sub_tenant demo_user) (as_world ?s) = runs_of (sub_tenant demo_user) ?w"
    by (simp_all add: demo_world_def runs_of_def demo_run_def demo_user_def)
  from a2a_tasks_stay_in_tenant [OF this, of _ None _ "[(''id'', JStr ''o/1'')]" None demo_agent] show ?thesis
    by (simp add: readable_def getRun_def demo_world_def historyLengthOf_def)
qed

definition demo_config :: "string \<Rightarrow> string \<Rightarrow> push_config" where
  "demo_config i tok = \<lparr>pc_id = i, pc_task = ''t/1'', pc_url = ''https://h'', pc_token = Some tok, pc_auth = None, pc_last = ''TASK_STATE_WORKING''\<rparr>"

lemma push_methods_tell_no_secret_witness:
  "fst (pushMethod demo_agent demo_user ''ListTaskPushNotificationConfigs'' [(''taskId'', JStr ''t/1'')]
      (demo_tasks\<lparr>as_push := [demo_config ''c'' ''a'']\<rparr>))
   = fst (pushMethod demo_agent demo_user ''ListTaskPushNotificationConfigs'' [(''taskId'', JStr ''t/1'')]
      (demo_tasks\<lparr>as_push := [demo_config ''c'' ''b'']\<rparr>))"
  by (rule push_methods_tell_no_secret [THEN conjunct1]) (simp add: erased_def demo_config_def)

lemma push_follows_change_witness:
  "push_settled ''TASK_STATE_COMPLETED'' True [''a'', ''a''] [demo_config ''a'' ''k'', demo_config ''b'' ''k'']
     = ([\<lparr>pu_config = demo_config ''a'' ''k'', pu_state = ''TASK_STATE_COMPLETED''\<rparr>], [demo_config ''b'' ''k''])
   \<and> fst (push_settled ''TASK_STATE_COMPLETED'' True [''a'', ''a''] [demo_config ''b'' ''k'']) = []"
proof -
  have "distinct (map pc_id [demo_config ''a'' ''k'', demo_config ''b'' ''k''])" by (simp add: demo_config_def)
  moreover have e: "push_settled ''TASK_STATE_COMPLETED'' True [''a'', ''a''] [demo_config ''a'' ''k'', demo_config ''b'' ''k'']
     = ([\<lparr>pu_config = demo_config ''a'' ''k'', pu_state = ''TASK_STATE_COMPLETED''\<rparr>], [demo_config ''b'' ''k''])"
    by (simp add: demo_config_def Let_def)
  ultimately show ?thesis using push_follows_change by blast
qed

end
