(* ===== verification/Mcp_Client.thy ===== *)
theory Mcp_Client
  imports Interop
begin

text \<open>
  The MCP client a node is given (\<open>mcp-client.ts\<close>): one request, the cached discovery of a
  server, the negotiation recorded on the log of the calling run, a tool call with its declined input rounds, the
  two reads, and the health of a server. A rejection is a value; what the transport throws is the other sum.
\<close>

definition mcpClientAdvertised :: "interop_env \<Rightarrow> bool" where
  "mcpClientAdvertised env \<longleftrightarrow> io_facet env \<and> io_servers env \<noteq> []"

definition client_init :: "bool \<Rightarrow> string \<Rightarrow> json \<Rightarrow> string \<Rightarrow> (string \<times> string) list \<Rightarrow> egress_init" where
  "client_init private meth params revision extra = \<lparr>ei_method = ''POST'',
     ei_headers = [(''Content-Type'', ''application/json''), (''Accept'', ''application/json''), (''MCP-Protocol-Version'', revision),
       (''Mcp-Method'', meth)] @ extra,
     ei_body = Some (json_stringify (rpc_body 1 meth params)), ei_timeout = 5000, ei_private = private, ei_max_body = None\<rparr>"

definition rpc_outcome :: "string \<Rightarrow> egress_result \<Rightarrow> exn + json" where
  "rpc_outcome meth r =
     (if eg_status r = 0
      then Inl (HostError ''upstream_unavailable'' (''the MCP server did not answer '' @ meth @ '': ''
             @ (case eg_error r of Some m \<Rightarrow> m | None \<Rightarrow> ''transport failure'')) None)
      else case nullish (jget (body_json r) ''error'') None of
          Some e \<Rightarrow> Inl (HostError ''mcp_error'' (''the MCP server answered '' @ meth @ '' with an error'') (Some (JObj [(''error'', e)])))
        | None \<Rightarrow> (case jget (body_json r) ''result'' of
            Some (JObj ps) \<Rightarrow> Inr (JObj ps)
          | _ \<Rightarrow> Inl (HostError ''upstream_unavailable'' (''the MCP server answered '' @ meth @ '' with HTTP '' @ nat_string (eg_status r)
                 @ '' and no JSON-RPC result'') None)))"

definition rpc :: "interop_env \<Rightarrow> string \<Rightarrow> string \<Rightarrow> json \<Rightarrow> string \<Rightarrow> (string \<times> string) list \<Rightarrow> interop_sys
    \<Rightarrow> (exn + (exn + json)) \<times> interop_sys" where
  "rpc env u meth params revision extra s =
     (let (r, s1) = transmit env u (client_init (io_private env) meth params revision extra) s
      in (map_sum id (rpc_outcome meth) r, s1))"

section \<open>Discovery\<close>

definition probe_key :: "string \<Rightarrow> string \<Rightarrow> string" where
  "probe_key serverId u = serverId @ [CHR 0x00] @ u"

definition ttl_of_probe :: "exn + json \<Rightarrow> nat" where
  "ttl_of_probe outcome = (case outcome of Inr r \<Rightarrow> (case jfield r ''ttlMs'' of Some (JNum n) \<Rightarrow> nat n | _ \<Rightarrow> 0) | Inl _ \<Rightarrow> 0)"

definition discover :: "interop_env \<Rightarrow> string \<Rightarrow> string \<Rightarrow> interop_sys \<Rightarrow> (exn + (exn + json)) \<times> interop_sys" where
  "discover env serverId u s =
     (let key = probe_key serverId u; now = w_clock (xs_world s); asked = rpc env u ''server/discover'' (JObj []) MCP_PREFERRED [] s in
      case (case map_of (xs_probes s) key of Some p \<Rightarrow> if now - pr_at p < pr_ttl p then Some (pr_outcome p) else None | None \<Rightarrow> None) of
        Some outcome \<Rightarrow> (Inr outcome, s)
      | None \<Rightarrow>
        (case asked of (Inl e, s1) \<Rightarrow> (Inl e, s1)
         | (Inr outcome, s1) \<Rightarrow> (Inr outcome, s1\<lparr>xs_probes := AList.update key
              \<lparr>pr_at = w_clock (xs_world s1), pr_ttl = ttl_of_probe outcome, pr_outcome = outcome\<rparr> (xs_probes s1)\<rparr>)))"

definition resetMcpProbes :: "interop_sys \<Rightarrow> interop_sys" where
  "resetMcpProbes s = s\<lparr>xs_probes := []\<rparr>"

definition bound_server :: "interop_env \<Rightarrow> json option \<Rightarrow> exn + string" where
  "bound_server env serverId =
     (case Option.bind (str_of serverId) (map_of (io_servers env)) of Some u \<Rightarrow> Inr u
      | None \<Rightarrow> Inl (HostError ''not_found'' (''no MCP server is configured under serverId ''
            @ (case serverId of Some j \<Rightarrow> json_stringify j | None \<Rightarrow> ''undefined'')) (Some (JObj [(''serverId'', or_null serverId)]))))"

text \<open>The versions a discovery offers, or its rejection when it names none.\<close>

definition answered_error :: "exn \<Rightarrow> json option" where
  "answered_error e = (case e of HostError c m d \<Rightarrow> jget d ''error'' | _ \<Rightarrow> None)"

definition probe_offers :: "exn + json \<Rightarrow> exn + string list" where
  "probe_offers outcome = (case outcome of
       Inr r \<Rightarrow> Inr (case strings_of (jfield r ''supportedVersions'') of Some vs \<Rightarrow> vs | None \<Rightarrow> [])
     | Inl e \<Rightarrow> (case strings_of (jget (jget (answered_error e) ''data'') ''supported'') of Some vs \<Rightarrow> Inr vs | None \<Rightarrow> Inl e))"

definition own_decision :: "string list \<Rightarrow> decision" where
  "own_decision offers = decide MCP_REVISIONS MCP_PREFERRED MCP_PREFERRED offers None True"

definition unspoken_version :: "string \<Rightarrow> exn" where
  "unspoken_version reason = HostError ''interop_version_unsupported'' (''mcp negotiation refused: '' @ reason)
     (Some (JObj [(''protocol'', JStr ''mcp''), (''supported'', JArr (map JStr MCP_REVISIONS)), (''reason'', JStr reason)]))"

definition audit_if :: "interop_env \<Rightarrow> run_row option \<Rightarrow> string \<Rightarrow> decision \<Rightarrow> interop_sys \<Rightarrow> (exn + unit) \<times> interop_sys" where
  "audit_if env orun u d s = (case orun of None \<Rightarrow> (Inr (), s)
     | Some r \<Rightarrow> (let (a, w) = audit env r ''mcp'' u MCP_PREFERRED d (Some MCP_PREFERRED) (xs_world s) in (a, s\<lparr>xs_world := w\<rparr>)))"

definition negotiate :: "interop_env \<Rightarrow> run_row option \<Rightarrow> string \<Rightarrow> string \<Rightarrow> interop_sys \<Rightarrow> (exn + string) \<times> interop_sys" where
  "negotiate env orun serverId u s =
     (case discover env serverId u s of (Inl e, s1) \<Rightarrow> (Inl e, s1)
      | (Inr outcome, s1) \<Rightarrow>
        (case probe_offers outcome of Inl e \<Rightarrow> (Inl e, s1)
         | Inr offers \<Rightarrow>
           (case audit_if env orun u (own_decision offers) s1 of (Inl e, s2) \<Rightarrow> (Inl e, s2)
            | (Inr x, s2) \<Rightarrow> (case own_decision offers of Refused reason \<Rightarrow> (Inl (unspoken_version reason), s2) | Accepted v \<Rightarrow> (Inr v, s2)))))"

section \<open>The client\<close>

definition run_trace :: "run_row option \<Rightarrow> trace_context option" where
  "run_trace orun = Option.bind orun (\<lambda>r. runTraceContext (Some (r_options r)))"

definition unwrap :: "(exn + (exn + json)) \<times> interop_sys \<Rightarrow> (exn + json) \<times> interop_sys" where
  "unwrap a = (case fst a of Inl e \<Rightarrow> Inl e | Inr outcome \<Rightarrow> outcome, snd a)"

definition DECLINE :: json where "DECLINE = JObj [(''action'', JStr ''decline'')]"

text \<open>One round: its span is fresh, the same in the message and in the headers.\<close>

definition client_round :: "interop_env \<Rightarrow> run_row option \<Rightarrow> string \<Rightarrow> string \<Rightarrow> json \<Rightarrow> string \<Rightarrow> nat \<Rightarrow> json option \<Rightarrow> interop_sys
    \<Rightarrow> (exn + json) \<times> interop_sys" where
  "client_round env orun u name args revision rounds prev s =
     (let tc = next_span env (run_trace orun) s in
      unwrap (rpc env u ''tools/call'' (round_params name args (client_meta revision (JObj []) tc) DECLINE prev) revision
        ((''Mcp-Name'', name) # traceHeaders tc) s))"

definition bound_and_negotiated :: "interop_env \<Rightarrow> run_row option \<Rightarrow> json option \<Rightarrow> interop_sys \<Rightarrow> (exn + string \<times> string) \<times> interop_sys" where
  "bound_and_negotiated env orun serverId s =
     (case bound_server env serverId of Inl e \<Rightarrow> (Inl e, s)
      | Inr u \<Rightarrow> (let (a, s1) = negotiate env orun (text_of serverId) u s in (map_sum id (Pair u) a, s1)))"

definition callTool :: "interop_env \<Rightarrow> run_row option \<Rightarrow> json option \<Rightarrow> string \<Rightarrow> json option \<Rightarrow> interop_sys \<Rightarrow> (exn + json) \<times> interop_sys" where
  "callTool env orun serverId name args s =
     (case bound_and_negotiated env orun serverId s of (Inl e, s1) \<Rightarrow> (Inl e, s1)
      | (Inr (u, revision), s1) \<Rightarrow>
        (let (a, s2) = mrtr (client_round env orun u name (case nullish args None of Some j \<Rightarrow> j | None \<Rightarrow> JObj []) revision)
             (rounds_exceeded [(''maxRounds'', JNum (int MCP_MAX_ROUNDS))]) MCP_MAX_ROUNDS 0 None s1
         in (map_sum id fst a, s2)))"

definition listTools :: "interop_env \<Rightarrow> run_row option \<Rightarrow> json option \<Rightarrow> json option \<Rightarrow> interop_sys \<Rightarrow> (exn + json) \<times> interop_sys" where
  "listTools env orun serverId cursor s =
     (case bound_and_negotiated env orun serverId s of (Inl e, s1) \<Rightarrow> (Inl e, s1)
      | (Inr (u, revision), s1) \<Rightarrow> (let tc = next_span env (run_trace orun) s1 in
          unwrap (rpc env u ''tools/list'' (jobj [(''cursor'', cursor), (''_meta'', Some (client_meta revision (JObj []) tc))]) revision (traceHeaders tc) s1)))"

definition readResource :: "interop_env \<Rightarrow> run_row option \<Rightarrow> json option \<Rightarrow> json option \<Rightarrow> interop_sys \<Rightarrow> (exn + json) \<times> interop_sys" where
  "readResource env orun serverId uri s =
     (case bound_and_negotiated env orun serverId s of (Inl e, s1) \<Rightarrow> (Inl e, s1)
      | (Inr (u, revision), s1) \<Rightarrow> (let tc = next_span env (run_trace orun) s1 in
          unwrap (rpc env u ''resources/read'' (jobj [(''uri'', uri), (''_meta'', Some (client_meta revision (JObj []) tc))]) revision (traceHeaders tc) s1)))"

definition serverHealth :: "interop_env \<Rightarrow> json option \<Rightarrow> interop_sys \<Rightarrow> (exn + json) \<times> interop_sys" where
  "serverHealth env serverId s =
     (case bound_server env serverId of Inl e \<Rightarrow> (Inl e, s)
      | Inr u \<Rightarrow>
        (case discover env (text_of serverId) u s of (Inl e, s1) \<Rightarrow> (Inl e, s1)
         | (Inr (Inl e), s1) \<Rightarrow> (Inr (JObj [(''state'', JStr (if exn_code e = ''mcp_error'' then ''incompatible'' else ''unreachable''))]), s1)
         | (Inr (Inr r), s1) \<Rightarrow> (Inr (JObj [(''state'', JStr (case own_decision (case strings_of (jfield r ''supportedVersions'') of Some vs \<Rightarrow> vs | None \<Rightarrow> []) of
                Accepted v \<Rightarrow> ''reachable'' | Refused x \<Rightarrow> ''incompatible'')), (''discover'', r)]), s1)))"

end
