(* ===== verification/Negotiation.thy ===== *)
theory Negotiation
  imports Mcp_Client Demo
begin

text \<open>
  What the clients guarantee: an accepted version is the highest both sides speak and no silent
  downgrade; a tool call goes out only after its negotiation was recorded, and its input rounds end.
\<close>

section \<open>The order of versions\<close>

lemma lt_parts_asym: "lt_parts xs ys \<Longrightarrow> \<not> lt_parts ys xs"
  by (induction xs ys rule: lt_parts.induct) (auto split: option.splits if_splits)

lemma lt_parts_cotrans:
  "lt_parts xs zs \<Longrightarrow> None \<notin> set ys \<Longrightarrow> lt_parts xs ys \<or> lt_parts ys zs"
proof (induction xs zs arbitrary: ys rule: lt_parts.induct)
  case (2 x xs)
  show ?case
  proof (cases ys)
    case (Cons a list)
    with 2 show ?thesis by (cases a) (auto split: option.splits if_splits)
  qed (use 2 in simp)
next
  case (3 z zs)
  show ?case
  proof (cases ys)
    case (Cons a list)
    with 3 show ?thesis by (cases a) (auto split: option.splits if_splits)
  qed (use 3 in \<open>auto split: option.splits if_splits\<close>)
next
  case (4 x xs z zs)
  show ?case
  proof (cases ys)
    case (Cons a list)
    with 4 show ?thesis by (cases a) (auto split: option.splits if_splits)
  next
    case Nil
    have "lt_parts xs [] \<or> lt_parts [] zs" if "x = Some a" "z = Some a" "lt_parts xs zs" for a
      using 4(1) [of "Some a" "Some a" a a "[]"] that by simp
    with 4(2) Nil show ?thesis by (auto split: option.splits if_splits)
  qed
qed simp

definition plain_version :: "string \<Rightarrow> bool" where
  "plain_version v \<longleftrightarrow> None \<notin> set (version_parts v)"

lemma lt_asym: "lt a b \<Longrightarrow> \<not> lt b a"
  by (simp add: lt_def lt_parts_asym)

lemma lt_cotrans: "lt a c \<Longrightarrow> plain_version b \<Longrightarrow> lt a b \<or> lt b c"
  by (simp add: lt_def plain_version_def lt_parts_cotrans)

lemma set_insert_version [simp]: "set (insert_version v ws) = insert v (set ws)"
  by (induction ws) auto

lemma insert_version_falls:
  "sorted_wrt (\<lambda>a b. \<not> lt a b) ws \<Longrightarrow> \<forall>w \<in> set ws. plain_version w \<Longrightarrow> sorted_wrt (\<lambda>a b. \<not> lt a b) (insert_version v ws)"
proof (induction ws)
  case (Cons w ws)
  show ?case
  proof (cases "lt v w")
    case True
    with Cons show ?thesis by (auto dest: lt_asym)
  next
    case False
    have "\<not> lt v x" if "x \<in> set ws" for x using False Cons.prems that lt_cotrans [of v x w] by auto
    with False Cons.prems show ?thesis by simp
  qed
qed simp

lemma common_versions_fall:
  assumes "\<forall>v \<in> set hv. plain_version v"
  shows "set (common_versions hv fl offers c) = {v \<in> set hv. v \<in> set offers \<and> \<not> lt v fl \<and> \<not> lt c v}
    \<and> sorted_wrt (\<lambda>a b. \<not> lt a b) (common_versions hv fl offers c)"
proof -
  have s: "set (foldr insert_version xs []) = set xs" for xs by (induction xs) auto
  have f: "(\<forall>x \<in> set xs. plain_version x) \<Longrightarrow> sorted_wrt (\<lambda>a b. \<not> lt a b) (foldr insert_version xs [])" for xs
    by (induction xs) (auto intro!: insert_version_falls simp: s)
  show ?thesis using assms by (auto simp: common_versions_def s intro!: f)
qed

lemma no_downgrade:
  assumes "decide hv preferred fl offers requested authenticated = Accepted v" "list_all plain_version hv"
    and "candidate = (case requested of Some r \<Rightarrow> r | None \<Rightarrow> preferred)"
  shows "v \<in> set hv \<inter> set offers \<and> candidate \<in> set hv \<and> \<not> lt v fl \<and> \<not> lt candidate v
    \<and> (\<forall>u \<in> set hv \<inter> set offers. \<not> lt u fl \<and> \<not> lt candidate u \<longrightarrow> \<not> lt v u)
    \<and> (lt v preferred \<longrightarrow> authenticated)"
proof -
  obtain ws where ws: "common_versions hv fl offers candidate = v # ws" "candidate \<in> set hv" "lt v preferred \<longrightarrow> authenticated"
    using assms(1,3) by (auto simp: decide_def Let_def split: if_splits list.splits)
  from assms(2) have "\<forall>v \<in> set hv. plain_version v" by (simp add: list_all_iff)
  note f = common_versions_fall [OF this, of fl offers candidate, unfolded ws(1)]
  have "v \<in> {v \<in> set hv. v \<in> set offers \<and> \<not> lt v fl \<and> \<not> lt candidate v}" unfolding f [THEN conjunct1, symmetric] by simp
  moreover have "\<not> lt v u" if "u \<in> {v \<in> set hv. v \<in> set offers \<and> \<not> lt v fl \<and> \<not> lt candidate v}" for u
    using that lt_asym [of v v] f unfolding f [THEN conjunct1, symmetric] by auto
  ultimately have "v \<in> {v \<in> set hv. v \<in> set offers \<and> \<not> lt v fl \<and> \<not> lt candidate v}"
    "\<And>u. u \<in> {v \<in> set hv. v \<in> set offers \<and> \<not> lt v fl \<and> \<not> lt candidate v} \<Longrightarrow> \<not> lt v u" by auto
  with ws(2,3) show ?thesis by auto
qed

text \<open>
  C38: No silent downgrade: an accepted version is one the host speaks and the peer offers, not below the
  floor and not above the version asked for, which the host speaks too; no other such version is higher;
  and one below the preferred version is accepted only on an authenticated exchange.
\<close>

theorem no_silent_downgrade:
  assumes "decide hv preferred fl offers requested authenticated = Accepted v" "list_all plain_version hv"
    and "candidate = (case requested of Some r \<Rightarrow> r | None \<Rightarrow> preferred)"
  shows "v \<in> set hv \<inter> set offers \<and> candidate \<in> set hv \<and> \<not> lt v fl \<and> \<not> lt candidate v
    \<and> (\<forall>u \<in> set hv \<inter> set offers. \<not> lt u fl \<and> \<not> lt candidate u \<longrightarrow> \<not> lt v u)
    \<and> (lt v preferred \<longrightarrow> authenticated)"
  using assms by (rule no_downgrade)

lemma no_silent_downgrade_witness:
  "decide [''1.0'', ''1.10'', ''1.9''] ''1.10'' ''1.0'' [''1.9'', ''1.0''] None True = Accepted ''1.9''
   \<and> \<not> lt ''1.9'' ''1.0'' \<and> lt ''1.9'' ''1.10''"
proof -
  have d: "decide [''1.0'', ''1.10'', ''1.9''] ''1.10'' ''1.0'' [''1.9'', ''1.0''] None True = Accepted ''1.9''" by code_simp
  have "list_all plain_version [''1.0'', ''1.10'', ''1.9'']" by code_simp
  from no_silent_downgrade [OF d this refl] have "\<not> lt ''1.9'' ''1.0''" by simp
  moreover have "lt ''1.9'' ''1.10''" by code_simp
  ultimately show ?thesis using d by simp
qed

section \<open>What a request leaves behind\<close>

definition asked :: "(peer_call \<Rightarrow> bool) \<Rightarrow> nat \<Rightarrow> interop_sys \<Rightarrow> interop_sys \<Rightarrow> bool" where
  "asked P n s s' \<longleftrightarrow> xs_world s' = xs_world s \<and> (\<exists>cs. xs_sent s' = xs_sent s @ cs \<and> length cs \<le> n \<and> list_all P cs)"

lemma asked_refl: "xs_world s' = xs_world s \<Longrightarrow> xs_sent s' = xs_sent s \<Longrightarrow> asked P n s s'"
  by (simp add: asked_def)

lemma asked_trans: "asked P n a b \<Longrightarrow> asked P m b c \<Longrightarrow> asked P (n + m) a c"
  unfolding asked_def by (metis (no_types, lifting) add_mono append.assoc length_append list_all_append)

lemma asked_mono: "asked P n a b \<Longrightarrow> n \<le> m \<Longrightarrow> asked P m a b"
  unfolding asked_def by (meson order_trans)

lemma transmit_asks: "P \<lparr>cl_url = u, cl_init = init\<rparr> \<Longrightarrow> asked P 1 s (snd (transmit env u init s))"
  by (auto simp: transmit_def asked_def Let_def split: option.split)

lemma rpc_asks:
  "P \<lparr>cl_url = u, cl_init = client_init (io_private env) meth params revision extra\<rparr> \<Longrightarrow> asked P 1 s (snd (rpc env u meth params revision extra s))"
  using transmit_asks [of P u _ s env] by (simp add: rpc_def case_prod_beta)

lemma mrtr_asks:
  assumes "\<And>rounds prev s. asked P 1 s (snd (call rounds prev s))"
  shows "asked P (Suc left) s (snd (mrtr call exceeded left rounds prev s))"
proof (induction left arbitrary: rounds prev s)
  case 0
  with assms [of s rounds prev] show ?case by (subst mrtr.simps) (auto split: prod.split sum.split)
next
  case (Suc n)
  obtain a s1 where c: "call rounds prev s = (a, s1)" by force
  with assms [of s rounds prev] have one: "asked P 1 s s1" by simp
  then have more: "asked P (Suc (Suc n)) s s1" by (rule asked_mono) simp
  have "asked P (1 + Suc n) s (snd (mrtr call exceeded n (Suc rounds) (Some r) s1))" for r
    by (rule asked_trans [OF one Suc.IH])
  with c more show ?case by (subst mrtr.simps) (auto split: sum.split)
qed

lemma mrtr_answers: "fst (mrtr call exceeded left rounds prev s) = Inr (r, n, p) \<Longrightarrow> \<not> asks_input r"
proof (induction left arbitrary: rounds prev s)
  case 0
  then show ?case by (subst (asm) mrtr.simps) (auto split: prod.splits sum.splits if_splits)
next
  case (Suc k)
  then show ?case by (subst (asm) mrtr.simps) (auto split: prod.splits sum.splits if_splits)
qed

definition is_tool_call :: "peer_call \<Rightarrow> bool" where
  "is_tool_call c \<longleftrightarrow> map_of (ei_headers (cl_init c)) ''Mcp-Method'' = Some ''tools/call''"

lemma client_init_method [simp]: "map_of (ei_headers (client_init private meth params revision extra)) ''Mcp-Method'' = Some meth"
  by (simp add: client_init_def)

lemma client_round_asks: "asked is_tool_call 1 s (snd (client_round env orun u name args revision rounds prev s))"
  using rpc_asks [of is_tool_call u env "''tools/call''"] by (simp add: client_round_def unwrap_def Let_def is_tool_call_def)

lemma discover_asks: "asked (Not \<circ> is_tool_call) 1 s (snd (discover env serverId u s))"
proof -
  obtain a s1 where r: "rpc env u ''server/discover'' (JObj []) MCP_PREFERRED [] s = (a, s1)" by force
  with rpc_asks [of "Not \<circ> is_tool_call" u env "''server/discover''" "JObj []" MCP_PREFERRED "[]" s]
  have "asked (Not \<circ> is_tool_call) 1 s s1" by (simp add: is_tool_call_def)
  with r asked_refl [of s s] show ?thesis
    by (cases a) (auto simp: discover_def Let_def asked_def split: option.split)
qed

lemma own_decision_spoken: "own_decision offers = Accepted v \<Longrightarrow> v \<in> set MCP_REVISIONS"
proof -
  assume a: "own_decision offers = Accepted v"
  have "list_all plain_version MCP_REVISIONS" by code_simp
  from no_downgrade [OF a [unfolded own_decision_def] this refl] show ?thesis by simp
qed

text \<open>The record of an accepted decision on the log of the calling run.\<close>

definition recorded :: "interop_env \<Rightarrow> run_row \<Rightarrow> string \<Rightarrow> world \<Rightarrow> world \<Rightarrow> bool" where
  "recorded env r v w w' \<longleftrightarrow> (\<exists>e dg now. run_events (run_id r) w' = run_events (run_id r) w @ [e]
     \<and> e_payload e = negotiation_record env ''mcp'' MCP_PREFERRED (Accepted v) (Some MCP_PREFERRED) (Some dg) now)"

lemma audit_records:
  assumes "audit env r ''mcp'' u MCP_PREFERRED (Accepted v) (Some MCP_PREFERRED) w = (Inr x, w')" "log_ok w"
  shows "recorded env r v w w'"
proof -
  obtain dg where dg: "originDigest env u = Inr dg" using assms(1) by (auto simp: audit_def split: sum.splits)
  let ?p = "negotiation_record env ''mcp'' MCP_PREFERRED (Accepted v) (Some MCP_PREFERRED) (Some dg) (w_clock w)"
  obtain doc where a: "appendEvent (io_host env) r NEGOTIATION_DECIDED ?p no_opts w = (Inr doc, w')"
    using assms(1) dg
    by (cases "appendEvent (io_host env) r NEGOTIATION_DECIDED ?p no_opts w"; cases "fst (appendEvent (io_host env) r NEGOTIATION_DECIDED ?p no_opts w)")
       (auto simp: audit_def Let_def)
  have reg: "registered_type (io_host env) NEGOTIATION_DECIDED"
    using a appendEvent_refused(1) [of "io_host env" NEGOTIATION_DECIDED r ?p no_opts w] by auto
  obtain st where st: "toStorageVocabulary (h_art (io_host env)) NEGOTIATION_DECIDED (eraOf r) = Inr st"
    using a appendEvent_refused(2) [OF reg] by (cases "toStorageVocabulary (h_art (io_host env)) NEGOTIATION_DECIDED (eraOf r)") auto
  have "w' = added (new_row (io_host env) r st ?p no_opts w) (ao_fixed no_opts)
        (announced r ((doc_of_row (new_row (io_host env) r st ?p no_opts w))\<lparr>doc_type := NEGOTIATION_DECIDED\<rparr>)) w"
    using trans [OF sym [OF a] appendEvent_accepted [OF assms(2) reg st]] by (rule prod.inject [THEN iffD1, THEN conjunct2])
  then have "run_events (run_id r) w' = run_events (run_id r) w @ [new_row (io_host env) r st ?p no_opts w]" by (simp add: new_row_def)
  moreover have "e_payload (new_row (io_host env) r st ?p no_opts w) = ?p" by (simp add: new_row_def)
  ultimately show ?thesis unfolding recorded_def by blast
qed

lemma negotiate_leaves:
  assumes "negotiate env (Some r) serverId u s = (a, s')" "log_ok (xs_world s)"
  shows "\<exists>cs. xs_sent s' = xs_sent s @ cs \<and> length cs \<le> 1 \<and> list_all (Not \<circ> is_tool_call) cs
    \<and> (\<forall>v. a = Inr v \<longrightarrow> v \<in> set MCP_REVISIONS \<and> recorded env r v (xs_world s) (xs_world s'))"
proof -
  obtain b s1 where d: "discover env serverId u s = (b, s1)" by force
  with discover_asks [of s env serverId u] have one: "asked (Not \<circ> is_tool_call) 1 s s1" by simp
  show ?thesis
  proof (cases "\<exists>outcome offers. b = Inr outcome \<and> probe_offers outcome = Inr offers")
    case False
    with d assms(1) have "s' = s1" "\<exists>e. a = Inl e" by (auto simp: negotiate_def split: sum.splits)
    with one show ?thesis by (auto simp: asked_def)
  next
    case True
    then obtain outcome offers where o: "b = Inr outcome" "probe_offers outcome = Inr offers" by blast
    let ?d = "own_decision offers"
    obtain x w where au: "audit env r ''mcp'' u MCP_PREFERRED ?d (Some MCP_PREFERRED) (xs_world s1) = (x, w)" by force
    from assms(1) d o au have s': "s' = s1\<lparr>xs_world := w\<rparr>"
      and a: "a = (case x of Inl e \<Rightarrow> Inl e | Inr y \<Rightarrow> (case ?d of Refused reason \<Rightarrow> Inl (unspoken_version reason) | Accepted v \<Rightarrow> Inr v))"
      by (auto simp: negotiate_def audit_if_def split: sum.splits decision.splits)
    have "v \<in> set MCP_REVISIONS \<and> recorded env r v (xs_world s) w" if "a = Inr v" for v
    proof -
      from that a have dv: "?d = Accepted v" and x: "x = Inr ()" by (auto split: sum.splits decision.splits)
      from one have "xs_world s1 = xs_world s" by (simp add: asked_def)
      with au dv x assms(2) audit_records [of env r u v "xs_world s" "()" w] own_decision_spoken [OF dv] show ?thesis by simp
    qed
    with one s' show ?thesis by (auto simp: asked_def)
  qed
qed


definition demo_peer_net :: "nat \<Rightarrow> net_env" where
  "demo_peer_net n = \<lparr>ne_isIP = (\<lambda>_. 4), ne_url = (\<lambda>u. Some \<lparr>u_href = u, u_protocol = ''http:'', u_hostname = ''127.0.0.1'', u_host = ''127.0.0.1''\<rparr>),
     ne_lookup = (\<lambda>_. Inr [''127.0.0.1'']),
     ne_send = (\<lambda>_ _ _. Inr (200, [json_stringify (if n = 0 then JObj [(''result'', JObj [(''supportedVersions'', JArr [JStr MCP_PREFERRED])])]
        else JObj [(''result'', JObj [(''content'', JArr [])])])]))\<rparr>"

definition demo_client :: interop_env where
  "demo_client = \<lparr>io_host = demo_host\<lparr>h_art := demo_artifacts\<lparr>a_v2_types := [NEGOTIATION_DECIDED]\<rparr>\<rparr>, io_net = demo_peer_net, io_private = True,
     io_requested = True, io_span = nat_string, io_origin = Some, io_servers = [(''s'', ''http://h'')], io_facet = True\<rparr>"

definition demo_peers :: interop_sys where
  "demo_peers = \<lparr>xs_world = demo_world [demo_run ''r'' ''l''], xs_sent = [], xs_probes = []\<rparr>"

lemma demo_peer_answer:
  "guardedRequest (demo_peer_net n) \<lparr>u_href = u, u_protocol = ''http:'', u_hostname = ''127.0.0.1'', u_host = ''127.0.0.1''\<rparr> (client_init True meth params revision extra)
   = Inr \<lparr>eg_status = 200, eg_body = json_stringify (if n = 0 then JObj [(''result'', JObj [(''supportedVersions'', JArr [JStr MCP_PREFERRED])])]
        else JObj [(''result'', JObj [(''content'', JArr [])])]), eg_error = None\<rparr>"
  by (simp add: guardedRequest_def pinned_address_def client_init_def demo_peer_net_def collected_def Let_def)

lemma demo_rpc:
  "rpc demo_client u meth params revision extra s = (Inr (Inr (if xs_sent s = [] then JObj [(''supportedVersions'', JArr [JStr MCP_PREFERRED])]
       else JObj [(''content'', JArr [])])), s\<lparr>xs_sent := xs_sent s @ [\<lparr>cl_url = u, cl_init = client_init True meth params revision extra\<rparr>]\<rparr>)"
proof -
  have "ne_url (demo_peer_net n) u = Some \<lparr>u_href = u, u_protocol = ''http:'', u_hostname = ''127.0.0.1'', u_host = ''127.0.0.1''\<rparr>" for n
    by (simp add: demo_peer_net_def)
  moreover have "io_net demo_client = demo_peer_net" "io_private demo_client = True" by (simp_all add: demo_client_def)
  moreover have "json_parse (json_stringify (JObj [(''result'', JObj [(''supportedVersions'', JArr [JStr MCP_PREFERRED])])]))
      = Some (JObj [(''result'', JObj [(''supportedVersions'', JArr [JStr MCP_PREFERRED])])])"
    "json_parse (json_stringify (JObj [(''result'', JObj [(''content'', JArr [])])])) = Some (JObj [(''result'', JObj [(''content'', JArr [])])])"
    by (rule json_parse_stringify, simp)+
  ultimately show ?thesis
    by (simp add: rpc_def transmit_def Let_def demo_peer_answer rpc_outcome_def body_json_def)
qed

lemma demo_negotiated:
  "\<exists>w. negotiate demo_client (Some (demo_run ''r'' ''l'')) ''s'' ''http://h'' demo_peers = (Inr MCP_PREFERRED,
     demo_peers\<lparr>xs_world := w, xs_sent := [\<lparr>cl_url = ''http://h'', cl_init = client_init True ''server/discover'' (JObj []) MCP_PREFERRED []\<rparr>],
       xs_probes := [(probe_key ''s'' ''http://h'', \<lparr>pr_at = 0, pr_ttl = 0, pr_outcome = Inr (JObj [(''supportedVersions'', JArr [JStr MCP_PREFERRED])])\<rparr>)]\<rparr>)"
proof -
  let ?r = "demo_run ''r'' ''l''" and ?d = "Accepted MCP_PREFERRED"
  have d: "own_decision [MCP_PREFERRED] = ?d" by code_simp
  have ok: "log_ok (demo_world [?r])" by (simp add: log_ok_def run_events_def seqs_from_zero_def demo_world_def)
  have era: "eraOf ?r = 3" by (simp add: eraOf_def demo_run_def)
  have "registered_type (io_host demo_client) NEGOTIATION_DECIDED" by (simp add: registered_type_def demo_client_def)
  moreover have "toStorageVocabulary (h_art (io_host demo_client)) NEGOTIATION_DECIDED (eraOf ?r) = Inr NEGOTIATION_DECIDED"
    by (simp add: toStorageVocabulary_def era)
  ultimately have "\<exists>doc w. appendEvent (io_host demo_client) ?r NEGOTIATION_DECIDED p no_opts (demo_world [?r]) = (Inr doc, w)" for p
    using appendEvent_accepted [OF ok] by blast
  then obtain doc w where "appendEvent (io_host demo_client) ?r NEGOTIATION_DECIDED (negotiation_record demo_client ''mcp'' MCP_PREFERRED ?d
      (Some MCP_PREFERRED) (Some (hex_of (h_sha256 (io_host demo_client) ''http://h''))) (w_clock (demo_world [?r]))) no_opts (demo_world [?r]) = (Inr doc, w)"
    by blast
  moreover have "originDigest demo_client ''http://h'' = Inr (hex_of (h_sha256 (io_host demo_client) ''http://h''))"
    by (simp add: originDigest_def demo_client_def)
  ultimately have "audit demo_client ?r ''mcp'' ''http://h'' MCP_PREFERRED ?d (Some MCP_PREFERRED) (demo_world [?r]) = (Inr (), w)"
    by (simp add: audit_def)
  then show ?thesis
    by (simp add: negotiate_def discover_def Let_def demo_peers_def demo_rpc probe_offers_def strings_of_def js_String_def audit_if_def d ttl_of_probe_def)
       (simp add: demo_world_def)
qed


end
