(* ===== verification/Host_Events.thy ===== *)
theory Host_Events
  imports Interop Deliveries
begin

text \<open>
  Events that belong to no run (\<open>host-events.ts\<close>): the subscribers of the stream, the ring of
  retained durable events a reconnecting client resumes from, publication, the test trigger, and the record of
  an inbound negotiation (\<open>interop.ts\<close>). The identifiers are random draws, a field of the environment.
\<close>

definition RETAINED :: nat where "RETAINED = 500"

record subscriber =
  su_id :: nat
  su_tenant :: string
  su_frames :: "string list"

record host_stream =
  hx_subs :: "subscriber list"
  hx_retained :: "(string \<times> host_event) list"
  hx_hooks :: webhook_db
  hx_next :: nat
  hx_draws :: nat
  hx_clock :: nat

definition event_frame :: "host_event \<Rightarrow> string" where
  "event_frame e = ''event: '' @ hv_type e @ [CHR 0x0A] @ (if hv_delivery e = ''durable'' then ''id: '' @ hv_id e @ [CHR 0x0A] else [])
     @ ''data: '' @ json_stringify (host_event_json e) @ [CHR 0x0A, CHR 0x0A]"

text \<open>The retained events after the one a client saw last, of its own tenant; none when that one is not retained.\<close>

definition resumed :: "string \<Rightarrow> string option \<Rightarrow> (string \<times> host_event) list \<Rightarrow> host_event list" where
  "resumed ten last_id kept = (case last_id of None \<Rightarrow> []
     | Some i \<Rightarrow> (case dropWhile (\<lambda>r. \<not> (hv_id (snd r) = i \<and> fst r = ten)) kept of
          [] \<Rightarrow> [] | _ # later \<Rightarrow> map snd (filter (\<lambda>r. fst r = ten) later)))"

definition attachHostEventSubscriber :: "string \<Rightarrow> string option \<Rightarrow> host_stream \<Rightarrow> nat \<times> host_stream" where
  "attachHostEventSubscriber ten last_id s =
     (hx_next s, s\<lparr>hx_subs := hx_subs s @ [\<lparr>su_id = hx_next s, su_tenant = ten, su_frames = map event_frame (resumed ten last_id (hx_retained s))\<rparr>],
        hx_next := Suc (hx_next s)\<rparr>)"

definition detach :: "nat \<Rightarrow> host_stream \<Rightarrow> host_stream" where
  "detach k s = s\<lparr>hx_subs := filter (\<lambda>u. su_id u \<noteq> k) (hx_subs s)\<rparr>"

definition new_host_event :: "webhook_env \<Rightarrow> (nat \<Rightarrow> string) \<Rightarrow> string \<Rightarrow> string \<Rightarrow> string option \<Rightarrow> json option \<Rightarrow> host_stream \<Rightarrow> host_event" where
  "new_host_event we rnd t delivery ws payload s = \<lparr>hv_id = ''hev-'' @ hex_of (rnd (hx_draws s)), hv_type = t,
     hv_time = h_iso (we_host we) (hx_clock s), hv_delivery = delivery, hv_workspace = ws,
     hv_payload = (case payload of Some p \<Rightarrow> p
       | None \<Rightarrow> if t \<in> {''host-test.durable-triggered'', ''host-test.ephemeral-triggered''} then JObj []
           else JObj [(''emittedBy'', JStr ''conformance-seam'')])\<rparr>"

definition written :: "string \<Rightarrow> host_event \<Rightarrow> subscriber list \<Rightarrow> subscriber list" where
  "written ten e us = map (\<lambda>u. if su_tenant u = ten then u\<lparr>su_frames := su_frames u @ [event_frame e]\<rparr> else u) us"

definition retain :: "string \<times> host_event \<Rightarrow> (string \<times> host_event) list \<Rightarrow> (string \<times> host_event) list" where
  "retain x kept = (let all = kept @ [x] in if length all > RETAINED then drop (length all - RETAINED) all else all)"

definition publishHostEvent :: "webhook_env \<Rightarrow> (nat \<Rightarrow> string) \<Rightarrow> string \<Rightarrow> string \<Rightarrow> string option \<Rightarrow> json option \<Rightarrow> host_stream
    \<Rightarrow> (exn + host_event) \<times> host_stream" where
  "publishHostEvent we rnd ten t ws payload s =
     (case map_of (hostEventTypes we) t of None \<Rightarrow> (Inl (JsError (''unadvertised host-event type '' @ t)), s)
      | Some delivery \<Rightarrow>
        (let e = new_host_event we rnd t delivery ws payload s; s1 = s\<lparr>hx_draws := Suc (hx_draws s), hx_subs := written ten e (hx_subs s)\<rparr>
         in (Inr e, if delivery = ''durable''
               then s1\<lparr>hx_retained := retain (ten, e) (hx_retained s1), hx_hooks := fanOutHostEvent we (hx_clock s) ten e (hx_hooks s1)\<rparr> else s1)))"

definition field_error :: "string \<Rightarrow> string \<Rightarrow> string \<Rightarrow> exn" where
  "field_error code m field = HostError code m (Some (JObj [(''field'', JStr field)]))"

definition test_type :: "string \<Rightarrow> string" where
  "test_type delivery = ''host-test.'' @ delivery @ ''-triggered''"

definition emitTestHostEvent :: "webhook_env \<Rightarrow> (nat \<Rightarrow> string) \<Rightarrow> string \<Rightarrow> (string \<times> json) list \<Rightarrow> host_stream
    \<Rightarrow> (exn + string \<times> string) \<times> host_stream" where
  "emitTestHostEvent we rnd ten body s =
     (let delivery = map_of body ''delivery''; t = test_type (text_of delivery); ws = map_of body ''workspaceId'' in
      if delivery \<noteq> Some (JStr ''durable'') \<and> delivery \<noteq> Some (JStr ''ephemeral'')
      then (Inl (field_error ''validation_error'' ''delivery MUST be durable or ephemeral'' ''delivery''), s)
      else if t \<notin> fst ` set (hostEventTypes we)
      then (Inl (field_error ''validation_error'' (t @ '' is not listed in hostEvents.types'') ''delivery''), s)
      else if ws \<noteq> None \<and> text_of ws = []
      then (Inl (field_error ''validation_error'' ''workspaceId MUST be a non-empty string'' ''workspaceId''), s)
      else if ws \<noteq> None \<and> \<not> starts_with (ten @ ''/'') (text_of ws)
      then (Inl (field_error ''id_tenant_mismatch'' ''workspaceId belongs to another tenant'' ''workspaceId''), s)
      else (let (a, s1) = publishHostEvent we rnd ten t (str_of ws) None s in (map_sum id (\<lambda>e. (hv_id e, t)) a, s1)))"

text \<open>The routes of the trigger and of the stream (\<open>server.ts\<close>); the heartbeat of the stream is left out.\<close>

definition testHostEvent :: "webhook_env \<Rightarrow> (nat \<Rightarrow> string) \<Rightarrow> subject option \<Rightarrow> (string \<times> json) list \<Rightarrow> host_stream
    \<Rightarrow> (exn + string \<times> string) \<times> host_stream" where
  "testHostEvent we rnd sb body s =
     (if \<not> (\<exists>t \<in> fst ` set (hostEventTypes we). starts_with ''host-test.'' t)
      then (Inl (HostError ''not_found'' (''this host lists no host-test.* type, so it serves no test trigger (RFC 0241 '' @ SECTION_SIGN @ ''B.1)'') None), s)
      else case sb of None \<Rightarrow> (Inl (HostError ''forbidden'' ''host events belong to a tenant; the trigger needs an authenticated caller'' None), s)
        | Some x \<Rightarrow> emitTestHostEvent we rnd (sub_tenant x) body s)"

definition auditInbound :: "interop_env \<Rightarrow> webhook_env \<Rightarrow> (nat \<Rightarrow> string) \<Rightarrow> string \<Rightarrow> bool \<Rightarrow> string option \<Rightarrow> decision \<Rightarrow> host_stream \<Rightarrow> (exn + unit) \<times> host_stream" where
  "auditInbound env we rnd ten a2a requested d s =
     (if \<not> we_negotiation we then (Inr (), s)
      else (let (a, s1) = publishHostEvent we rnd ten NEGOTIATION_DECIDED None
              (Some (negotiation_record env (if a2a then ''a2a'' else ''mcp'') (if a2a then A2A_PREFERRED else MCP_PREFERRED) d requested None (hx_clock s))) s
        in (map_sum id (\<lambda>_. ()) a, s1)))"

section \<open>A stream and its resumption\<close>

text \<open>What happens to the stream: a client comes, with or without the last id it saw, a client goes, an event is published.\<close>

datatype stream_op =
    Arrives string "string option"
  | Leaves nat
  | Publishes string string "string option" "json option"

fun stream_step :: "webhook_env \<Rightarrow> (nat \<Rightarrow> string) \<Rightarrow> stream_op \<Rightarrow> host_stream \<Rightarrow> (string \<times> host_event) list \<times> host_stream" where
  "stream_step we rnd (Arrives ten i) s = ([], snd (attachHostEventSubscriber ten i s))"
| "stream_step we rnd (Leaves k) s = ([], detach k s)"
| "stream_step we rnd (Publishes ten t ws p) s = (let (a, s1) = publishHostEvent we rnd ten t ws p s
     in (case a of Inl e \<Rightarrow> [] | Inr e \<Rightarrow> [(ten, e)], s1))"

fun stream_run :: "webhook_env \<Rightarrow> (nat \<Rightarrow> string) \<Rightarrow> stream_op list \<Rightarrow> host_stream \<Rightarrow> (string \<times> host_event) list \<times> host_stream" where
  "stream_run we rnd [] s = ([], s)"
| "stream_run we rnd (a # as) s = (let (es, s1) = stream_step we rnd a s; (fs, s2) = stream_run we rnd as s1 in (es @ fs, s2))"

definition durables :: "(string \<times> host_event) list \<Rightarrow> (string \<times> host_event) list" where
  "durables es = filter (\<lambda>r. hv_delivery (snd r) = ''durable'') es"

definition of_tenant :: "string \<Rightarrow> (string \<times> host_event) list \<Rightarrow> host_event list" where
  "of_tenant ten es = map snd (filter (\<lambda>r. fst r = ten) es)"

text \<open>The ring holds the last events that were retained.\<close>

definition last_of :: "'a list \<Rightarrow> 'a list" where
  "last_of xs = drop (length xs - RETAINED) xs"

lemma retain_last: "retain x kept = last_of (kept @ [x])"
  by (simp add: retain_def last_of_def Let_def)

lemma last_of_again: "last_of (last_of xs @ ys) = last_of (xs @ ys)"
  by (cases "length xs \<le> RETAINED") (simp_all add: last_of_def add.commute)

lemma step_retained: "hx_retained (snd (stream_step we rnd a s)) = (if durables (fst (stream_step we rnd a s)) = [] then hx_retained s
    else last_of (hx_retained s @ durables (fst (stream_step we rnd a s))))"
  by (cases a) (auto simp: attachHostEventSubscriber_def detach_def publishHostEvent_def Let_def durables_def retain_last new_host_event_def
      split: option.split)

lemma run_retained:
  assumes "hx_retained s = last_of xs"
  shows "hx_retained (snd (stream_run we rnd ops s)) = last_of (xs @ durables (fst (stream_run we rnd ops s)))"
  using assms
proof (induction ops arbitrary: s xs)
  case (Cons a as)
  obtain es s1 where a: "stream_step we rnd a s = (es, s1)" by force
  have "hx_retained s1 = last_of (xs @ durables es)"
    using step_retained [of we rnd a s] Cons.prems a by (cases "durables es = []") (simp_all add: last_of_again)
  from Cons.IH [OF this] a show ?case by (simp add: Let_def case_prod_beta durables_def)
qed (simp add: durables_def)

lemma step_frames:
  assumes "u \<in> set (hx_subs s)" "a \<noteq> Leaves (su_id u)"
  shows "u\<lparr>su_frames := su_frames u @ map event_frame (of_tenant (su_tenant u) (fst (stream_step we rnd a s)))\<rparr> \<in> set (hx_subs (snd (stream_step we rnd a s)))"
  using assms
  by (cases a) (auto simp: attachHostEventSubscriber_def detach_def publishHostEvent_def Let_def written_def of_tenant_def image_iff intro!: bexI [of _ u]
      split: option.split)

lemma run_frames:
  assumes "u \<in> set (hx_subs s)" "Leaves (su_id u) \<notin> set ops"
  shows "u\<lparr>su_frames := su_frames u @ map event_frame (of_tenant (su_tenant u) (fst (stream_run we rnd ops s)))\<rparr> \<in> set (hx_subs (snd (stream_run we rnd ops s)))"
  using assms
proof (induction ops arbitrary: s u)
  case (Cons a as)
  obtain es s1 where a: "stream_step we rnd a s = (es, s1)" by force
  let ?u = "u\<lparr>su_frames := su_frames u @ map event_frame (of_tenant (su_tenant u) es)\<rparr>"
  have "?u \<in> set (hx_subs s1)" using step_frames [of u s a we rnd] Cons.prems a by auto
  from Cons.IH [OF this] Cons.prems(2) a show ?case by (simp add: Let_def case_prod_beta of_tenant_def)
qed (simp add: of_tenant_def)

lemma last_of_short: "length ys < RETAINED \<Longrightarrow> \<exists>zs. last_of (xs @ y # ys) = zs @ y # ys \<and> set zs \<subseteq> set xs"
proof -
  assume "length ys < RETAINED"
  then have "length (xs @ y # ys) - RETAINED \<le> length xs" by simp
  then have "last_of (xs @ y # ys) = drop (length (xs @ y # ys) - RETAINED) xs @ y # ys" by (simp add: last_of_def)
  then show ?thesis using set_drop_subset by metis
qed

lemma resumed_after:
  assumes "\<forall>r \<in> set zs. \<not> (hv_id (snd r) = hv_id e \<and> fst r = ten)"
  shows "resumed ten (Some (hv_id e)) (zs @ (ten, e) # ys) = of_tenant ten ys"
  using assms by (simp add: resumed_def of_tenant_def dropWhile_append)

text \<open>
  C40: A reconnecting client misses nothing: a client that comes back naming the last durable event it saw, while
  fewer than five hundred durable events were retained after it, is sent first exactly the durable events of
  its tenant published since, in order, whoever came and went meanwhile; from then on, until it leaves, it
  is sent every event of its tenant, once and in order, and of no other tenant.
\<close>

theorem reconnect_misses_nothing:
  assumes "hx_retained s = last_of (before @ [(ten, e)])" "\<forall>r \<in> set before. \<not> (hv_id (snd r) = hv_id e \<and> fst r = ten)"
    and "stream_run we rnd away s = (missed, s1)" "length (durables missed) < RETAINED"
    and "attachHostEventSubscriber ten (Some (hv_id e)) s1 = (k, s2)"
    and "stream_run we rnd ops s2 = (live, s3)" "Leaves k \<notin> set ops"
  shows "\<lparr>su_id = k, su_tenant = ten, su_frames = map event_frame (of_tenant ten (durables missed) @ of_tenant ten live)\<rparr> \<in> set (hx_subs s3)"
proof -
  have "hx_retained s1 = last_of (before @ (ten, e) # durables missed)"
    using run_retained [OF assms(1), of we rnd away] assms(3) by simp
  with last_of_short [OF assms(4), of before "(ten, e)"] obtain zs where zs: "hx_retained s1 = zs @ (ten, e) # durables missed" "set zs \<subseteq> set before"
    by auto
  then have "resumed ten (Some (hv_id e)) (hx_retained s1) = of_tenant ten (durables missed)"
    unfolding zs(1) using assms(2) by (intro resumed_after) auto
  with assms(5) have u: "\<lparr>su_id = k, su_tenant = ten, su_frames = map event_frame (of_tenant ten (durables missed))\<rparr> \<in> set (hx_subs s2)"
    by (auto simp: attachHostEventSubscriber_def)
  from run_frames [OF u, of ops we rnd] assms(6,7) show ?thesis by simp
qed

definition demo_events :: webhook_env where
  "demo_events = demo_we\<lparr>we_family := True, we_trigger := True\<rparr>"

definition demo_seen :: host_event where
  "demo_seen = \<lparr>hv_id = ''hev-seen'', hv_type = ''host-test.durable-triggered'', hv_time = [], hv_delivery = ''durable'', hv_workspace = None, hv_payload = JObj []\<rparr>"

definition demo_stream :: host_stream where
  "demo_stream = \<lparr>hx_subs = [], hx_retained = [(''t'', demo_seen)], hx_hooks = \<lparr>wd_hooks = [], wd_deliveries = [], wd_rng = 0\<rparr>, hx_next = 0,
     hx_draws = 0, hx_clock = 0\<rparr>"

definition demo_away :: "stream_op list" where
  "demo_away = [Publishes ''t'' ''host-test.durable-triggered'' None None, Publishes ''o'' ''host-test.durable-triggered'' None None,
     Publishes ''t'' ''host-test.ephemeral-triggered'' None None]"

definition demo_live :: "stream_op list" where
  "demo_live = [Publishes ''o'' ''host-test.ephemeral-triggered'' None None, Publishes ''t'' ''host-test.ephemeral-triggered'' None None]"

definition demo_back :: host_stream where
  "demo_back = snd (attachHostEventSubscriber ''t'' (Some (hv_id demo_seen)) (snd (stream_run demo_events nat_string demo_away demo_stream)))"

text \<open>Of three events missed, one durable event of the tenant is replayed; of two live ones, the tenant's is sent.\<close>

lemma reconnect_misses_nothing_witness:
  "\<exists>u. u \<in> set (hx_subs (snd (stream_run demo_events nat_string demo_live demo_back))) \<and> su_tenant u = ''t'' \<and> length (su_frames u) = 2"
proof -
  have kept: "hx_retained demo_stream = last_of ([] @ [(''t'', demo_seen)])" by (simp add: demo_stream_def last_of_def RETAINED_def)
  obtain missed s1 where away: "stream_run demo_events nat_string demo_away demo_stream = (missed, s1)" by force
  obtain live s3 where live: "stream_run demo_events nat_string demo_live demo_back = (live, s3)" by force
  have "map (\<lambda>r. (fst r, hv_delivery (snd r))) (fst (stream_run demo_events nat_string demo_away demo_stream))
      = [(''t'', ''durable''), (''o'', ''durable''), (''t'', ''ephemeral'')]"
    by (simp add: demo_away_def publishHostEvent_def hostEventTypes_def demo_events_def Let_def new_host_event_def)
  then have m: "length (durables missed) = 2" "length (of_tenant ''t'' (durables missed)) = 1"
    using away by (auto simp: durables_def of_tenant_def)
  have "map (\<lambda>r. (fst r, hv_delivery (snd r))) (fst (stream_run demo_events nat_string demo_live demo_back)) = [(''o'', ''ephemeral''), (''t'', ''ephemeral'')]"
    by (simp add: demo_live_def publishHostEvent_def hostEventTypes_def demo_events_def Let_def new_host_event_def)
  then have l: "length (of_tenant ''t'' live) = 1" using live by (auto simp: of_tenant_def)
  obtain k where att: "attachHostEventSubscriber ''t'' (Some (hv_id demo_seen)) s1 = (k, demo_back)"
    using away by (auto simp: demo_back_def attachHostEventSubscriber_def)
  have "Leaves k \<notin> set demo_live" by (simp add: demo_live_def)
  from reconnect_misses_nothing [OF kept _ away _ att live this] m l live show ?thesis
    by (intro exI [of _ "\<lparr>su_id = k, su_tenant = ''t'', su_frames = map event_frame (of_tenant ''t'' (durables missed) @ of_tenant ''t'' live)\<rparr>"])
       (simp add: RETAINED_def)
qed

end
