(* ===== verification/Convergence.thy ===== *)
theory Convergence
  imports Canonical Host_Types "HOL-Library.Product_Lexorder"
begin

text \<open>
  Two rules by which independent engines agree without talking to each other, both pure functions of the
  PostgreSQL host: the order of an append channel that several engines write
  (\<open>examples/hosts/postgres/src/cross-engine-append.ts\<close>), and the survivor of one idempotency key claimed in several regions
  (\<open>examples/hosts/postgres/src/multi-region.ts\<close>). Strings compare by their UTF-16 code units.
\<close>

lemma sort_key_mset:
  assumes "mset xs = mset ys" "inj_on f (set xs)"
  shows "sort_key f xs = sort_key f ys"
proof (rule properties_for_sort_key)
  show "mset (sort_key f ys) = mset xs" using assms(1) by simp
  show "sorted (map f (sort_key f ys))" by simp
  fix k assume k: "k \<in> set (sort_key f ys)"
  with assms(1) have "k \<in> set xs" by (metis set_sort set_mset_mset)
  then have same: "x \<in> set xs \<Longrightarrow> f k = f x \<longleftrightarrow> k = x" for x using assms(2) by (auto dest: inj_onD)
  have c: "filter (\<lambda>x. f k = f x) zs = replicate (count (mset zs) k) k" if "set zs = set xs" for zs
  proof -
    have "filter (\<lambda>x. f k = f x) zs = filter (\<lambda>x. k = x) zs" using same that by (intro filter_cong) auto
    moreover have "filter (\<lambda>x. k = x) zs = replicate (count (mset zs) k) k" by (induction zs) auto
    ultimately show ?thesis by simp
  qed
  have "set (sort_key f ys) = set xs" using assms(1) by (metis set_sort set_mset_mset)
  with c [of "sort_key f ys"] c [of xs] assms(1) show "filter (\<lambda>x. f k = f x) (sort_key f ys) = filter (\<lambda>x. f k = f x) xs" by simp
qed

section \<open>The append channel\<close>

record channel_event =
  ce_id :: string
  ce_seq :: int
  ce_channel :: string
  ce_value :: json
  ce_engine :: "string option"
  ce_run :: "string option"
  ce_source_seq :: "int option"

definition projectAppendChannel :: "channel_event list \<Rightarrow> string \<Rightarrow> json list" where
  "projectAppendChannel es c = map ce_value (sort_key (\<lambda>e. (ce_seq e, utf16_key (ce_id e))) (filter (\<lambda>e. ce_channel e = c) es))"

text \<open>The violation the check reports: the first entry that does not exceed the one before it.\<close>

definition not_monotonic :: "nat \<Rightarrow> int \<Rightarrow> int \<Rightarrow> string" where
  "not_monotonic i prev cur = ''owner sequence MUST be strictly monotonic in event-log order; event #'' @ nat_string (i - 1) @ '' has sequence=''
     @ int_string prev @ '', event #'' @ nat_string i @ '' has sequence='' @ int_string cur"

fun monotonic_from :: "nat \<Rightarrow> channel_event list \<Rightarrow> string option" where
  "monotonic_from i (a # b # es) = (if ce_seq b \<le> ce_seq a then Some (not_monotonic i (ce_seq a) (ce_seq b)) else monotonic_from (Suc i) (b # es))"
| "monotonic_from i _ = None"

definition checkOwnerSequenceMonotonic :: "channel_event list \<Rightarrow> string option" where
  "checkOwnerSequenceMonotonic es = monotonic_from 1 es"

definition seq_counts :: "channel_event list \<Rightarrow> (int \<times> nat) list" where
  "seq_counts es = fold (\<lambda>e m. AList.update (ce_seq e) (mget_or 0 m (ce_seq e) + 1) m) es []"

definition projectAppendChannelWithTieBreak :: "channel_event list \<Rightarrow> string \<Rightarrow> json list \<times> nat" where
  "projectAppendChannelWithTieBreak es c =
     (let filtered = filter (\<lambda>e. ce_channel e = c) es
      in (projectAppendChannel filtered c, sum_list (map (\<lambda>(k, n). if n > 1 then n else 0) (seq_counts filtered))))"

lemma monotonic_from_sorted: "monotonic_from i es = None \<longleftrightarrow> sorted_wrt (<) (map ce_seq es)"
proof (induction i es rule: monotonic_from.induct)
  case (1 i a b es)
  then show ?case by (auto intro: order.strict_trans)
qed auto

lemma monotonic_sorted: "checkOwnerSequenceMonotonic es = None \<longleftrightarrow> sorted_wrt (<) (map ce_seq es)"
  by (simp add: checkOwnerSequenceMonotonic_def monotonic_from_sorted)

lemma seq_counts_of: "distinct (map fst (seq_counts es)) \<and> (\<forall>k. mget_or 0 (seq_counts es) k = length (filter (\<lambda>e. ce_seq e = k) es))
    \<and> set (map fst (seq_counts es)) = ce_seq ` set es"
proof (induction es rule: rev_induct)
  case (snoc e es)
  let ?m = "seq_counts es"
  have "seq_counts (es @ [e]) = AList.update (ce_seq e) (mget_or 0 ?m (ce_seq e) + 1) ?m" by (simp add: seq_counts_def)
  with snoc show ?case by (auto simp: distinct_update update_keys)
qed (simp add: seq_counts_def)

text \<open>The collisions are the events of the channel that share their sequence with another.\<close>

lemma sum_of_counts:
  assumes "distinct (map fst m)" "\<And>k. mget_or 0 m k = length (filter (\<lambda>e. ce_seq e = k) es)" "set (map fst m) = ce_seq ` set es"
  shows "sum_list (map (\<lambda>(k, n). if n > 1 then n else 0) m) = length (filter (\<lambda>e. length (filter (\<lambda>x. ce_seq x = ce_seq e) es) > 1) es)"
proof -
  let ?n = "\<lambda>k. length (filter (\<lambda>e. ce_seq e = k) es)"
  have "map (\<lambda>(k, n). if n > 1 then n else 0) m = map (\<lambda>k. if ?n k > 1 then ?n k else 0) (map fst m)"
    using assms(1,2) by (auto simp: mget_or_def intro!: map_cong) (metis map_of_is_SomeI option.simps(5))+
  then have "sum_list (map (\<lambda>(k, n). if n > 1 then n else 0) m) = (\<Sum>k \<in> set (map fst m). if ?n k > 1 then ?n k else 0)"
    using assms(1) by (simp only: sum_list_distinct_conv_sum_set)
  also have "\<dots> = (\<Sum>k \<in> ce_seq ` set es. length (filter (\<lambda>e. ?n (ce_seq e) > 1 \<and> ce_seq e = k) es))"
    unfolding assms(3) by (rule sum.cong) (auto simp: filter_empty_conv intro!: arg_cong [of _ _ length] filter_cong)
  also have "\<dots> = length (filter (\<lambda>e. ?n (ce_seq e) > 1) es)"
  proof -
    have "(\<Sum>k \<in> K. length (filter (\<lambda>e. P e \<and> ce_seq e = k) es)) = length (filter P es)" if "finite K" "ce_seq ` set es \<subseteq> K" for K P
      using that(2)
    proof (induction es)
      case (Cons e es)
      then have "ce_seq e \<in> K" by simp
      have "(\<Sum>k \<in> K. length (filter (\<lambda>x. P x \<and> ce_seq x = k) (e # es)))
          = (\<Sum>k \<in> K. (if P e \<and> ce_seq e = k then 1 else 0) + length (filter (\<lambda>x. P x \<and> ce_seq x = k) es))"
        by (rule sum.cong) auto
      also have "\<dots> = (if P e then 1 else 0) + length (filter P es)"
        using Cons \<open>ce_seq e \<in> K\<close> that(1) by (cases "P e") (simp_all add: sum.distrib)
      finally show ?case by simp
    qed simp
    then show ?thesis by simp
  qed
  finally show ?thesis .
qed

definition unsourced :: "channel_event \<Rightarrow> channel_event" where
  "unsourced e = e\<lparr>ce_engine := None, ce_run := None, ce_source_seq := None\<rparr>"

lemma unsourced_fields [simp]: "ce_id (unsourced e) = ce_id e" "ce_seq (unsourced e) = ce_seq e" "ce_channel (unsourced e) = ce_channel e"
    "ce_value (unsourced e) = ce_value e"
  by (simp_all add: unsourced_def)

lemma insort_map: "(\<And>x. k (u x) = k x) \<Longrightarrow> insort_key k (u x) (map u ys) = map u (insort_key k x ys)"
  by (induction ys) auto

lemma sort_map: "(\<And>x. k (u x) = k x) \<Longrightarrow> sort_key k (map u xs) = map u (sort_key k xs)"
  by (induction xs) (simp_all add: insort_map)


definition demo_write :: "string \<Rightarrow> int \<Rightarrow> string option \<Rightarrow> channel_event" where
  "demo_write i n eng = \<lparr>ce_id = i, ce_seq = n, ce_channel = ''c'', ce_value = JStr i, ce_engine = eng, ce_run = None, ce_source_seq = Some 0\<rparr>"


section \<open>One key claimed in several regions\<close>

record conflict_claim =
  cc_run :: string
  cc_tenant :: string
  cc_endpoint :: string
  cc_key :: string
  cc_region :: string

record cache_redirect =
  cd_region :: string
  cd_key :: string
  cd_run :: string

record convergence =
  cv_winner :: conflict_claim
  cv_losers :: "conflict_claim list"
  cv_redirects :: "cache_redirect list"
  cv_reason :: string

definition same_tuple :: "conflict_claim \<Rightarrow> conflict_claim \<Rightarrow> bool" where
  "same_tuple a b \<longleftrightarrow> cc_tenant a = cc_tenant b \<and> cc_endpoint a = cc_endpoint b \<and> cc_key a = cc_key b"

definition GE_SIGN :: string where "GE_SIGN = [CHR 0xE2, CHR 0x89, CHR 0xA5]"

definition tuple_text :: "conflict_claim \<Rightarrow> string" where
  "tuple_text c = cc_tenant c @ ''/'' @ cc_endpoint c @ ''/'' @ cc_key c"

definition region_order :: "conflict_claim list \<Rightarrow> conflict_claim list" where
  "region_order cs = sort_key (\<lambda>c. utf16_key (cc_run c)) cs"

definition resolveCrossRegionConflict :: "conflict_claim list \<Rightarrow> exn + convergence" where
  "resolveCrossRegionConflict cs =
     (case cs of
        h # d # rest \<Rightarrow>
          (case find (\<lambda>c. \<not> same_tuple c h) (d # rest) of
             Some c \<Rightarrow> Inl (JsError (''resolveCrossRegionConflict: all claims MUST share (tenantId, endpoint, key) '' @ EM_DASH @ '' got ''
               @ tuple_text h @ '' vs '' @ tuple_text c))
           | None \<Rightarrow>
             (let sorted = region_order cs; winner = hd sorted
              in Inr \<lparr>cv_winner = winner, cv_losers = tl sorted,
                   cv_redirects = map (\<lambda>c. \<lparr>cd_region = cc_region c, cd_key = cc_endpoint h @ '':'' @ cc_key h, cd_run = cc_run winner\<rparr>) sorted,
                   cv_reason = ''cross_region_dedup_loss''\<rparr>))
      | _ \<Rightarrow> Inl (JsError (''resolveCrossRegionConflict: need '' @ GE_SIGN @ ''2 conflicting claims (got '' @ nat_string (length cs) @ '')'')))"

text \<open>The labels: the tenant, the route, the regions in order.\<close>

definition crossRegionConflictLabels :: "convergence \<Rightarrow> string \<times> string \<times> string" where
  "crossRegionConflictLabels r = (cc_tenant (cv_winner r), cc_endpoint (cv_winner r),
     join_with (CHR ''|'') (sort_key utf16_key (map cc_region (cv_winner r # cv_losers r))))"

definition conflict :: "conflict_claim list \<Rightarrow> bool" where
  "conflict cs \<longleftrightarrow> length cs \<ge> 2 \<and> (\<forall>a \<in> set cs. \<forall>b \<in> set cs. same_tuple a b)"

lemma resolve_conflict:
  assumes "conflict cs"
  shows "resolveCrossRegionConflict cs = (let sorted = region_order cs; winner = hd sorted
     in Inr \<lparr>cv_winner = winner, cv_losers = tl sorted,
          cv_redirects = map (\<lambda>c. \<lparr>cd_region = cc_region c, cd_key = cc_endpoint winner @ '':'' @ cc_key winner, cd_run = cc_run winner\<rparr>) sorted,
          cv_reason = ''cross_region_dedup_loss''\<rparr>)"
proof -
  obtain h d rest where cs: "cs = h # d # rest" using assms by (auto simp: conflict_def numeral_2_eq_2 Suc_le_length_iff)
  have "hd (region_order cs) \<in> set (region_order cs)" using cs by (intro hd_in_set) (simp add: region_order_def)
  then have "hd (region_order cs) \<in> set cs" by (simp add: region_order_def)
  with assms cs have "same_tuple (hd (region_order cs)) h" by (auto simp: conflict_def)
  moreover have "find (\<lambda>c. \<not> same_tuple c h) (d # rest) = None" using assms cs by (auto simp: conflict_def find_None_iff)
  ultimately show ?thesis using cs by (simp add: resolveCrossRegionConflict_def Let_def same_tuple_def)
qed

lemma resolve_Inr: "resolveCrossRegionConflict cs = Inr r \<Longrightarrow> conflict cs"
proof -
  assume r: "resolveCrossRegionConflict cs = Inr r"
  then obtain h d rest where cs: "cs = h # d # rest" by (auto simp: resolveCrossRegionConflict_def split: list.splits)
  with r have "find (\<lambda>c. \<not> same_tuple c h) (d # rest) = None"
    by (cases "find (\<lambda>c. \<not> same_tuple c h) (d # rest)") (auto simp: resolveCrossRegionConflict_def)
  then have "\<forall>c \<in> set (d # rest). same_tuple c h" unfolding find_None_iff by blast
  then have "\<forall>c \<in> set cs. same_tuple c h" using cs by (simp add: same_tuple_def)
  with cs show ?thesis by (auto simp: conflict_def same_tuple_def)
qed

lemma conflict_mset: "mset cs = mset ds \<Longrightarrow> conflict cs \<Longrightarrow> conflict ds"
  by (metis conflict_def set_mset_mset size_mset)

text \<open>
  C23: Regions agree on the survivor: whatever order the claims of a key reach a region in, the resolver elects the
  run with the least id, cancels every other claim, and redirects the cache of each claimant's region to the
  survivor; two regions that saw the same claims elect the same run under the same labels, and decide everything
  alike when no run claims twice.
\<close>

theorem regions_converge:
  assumes "resolveCrossRegionConflict cs = Inr r" "mset cs = mset ds"
  shows "mset (cv_winner r # cv_losers r) = mset cs \<and> (\<forall>c \<in> set cs. utf16_key (cc_run (cv_winner r)) \<le> utf16_key (cc_run c))
    \<and> (\<forall>c \<in> set cs. \<lparr>cd_region = cc_region c, cd_key = cc_endpoint c @ '':'' @ cc_key c, cd_run = cc_run (cv_winner r)\<rparr> \<in> set (cv_redirects r))
    \<and> (\<exists>q. resolveCrossRegionConflict ds = Inr q \<and> cc_run (cv_winner q) = cc_run (cv_winner r)
         \<and> crossRegionConflictLabels q = crossRegionConflictLabels r \<and> (distinct (map cc_run cs) \<longrightarrow> q = r))"
proof -
  have c: "conflict cs" "conflict ds" using resolve_Inr [OF assms(1)] conflict_mset [OF assms(2)] by simp_all
  obtain q where q: "resolveCrossRegionConflict ds = Inr q" using resolve_conflict [OF c(2)] by (simp add: Let_def)
  have parts: "mset (cv_winner x # cv_losers x) = mset xs \<and> (\<forall>c \<in> set xs. utf16_key (cc_run (cv_winner x)) \<le> utf16_key (cc_run c))
      \<and> cv_winner x \<in> set xs" if x: "resolveCrossRegionConflict xs = Inr x" for xs x
  proof -
    have xs: "conflict xs" using resolve_Inr [OF x] .
    then have "xs \<noteq> []" by (auto simp: conflict_def)
    then have ne: "region_order xs \<noteq> []" by (metis region_order_def set_empty set_sort)
    obtain w ls where o: "region_order xs = w # ls" using ne by (cases "region_order xs") auto
    have "mset (w # ls) = mset xs" unfolding o [symmetric] by (simp add: region_order_def)
    moreover have "sorted (map (\<lambda>c. utf16_key (cc_run c)) (w # ls))" unfolding o [symmetric] by (simp add: region_order_def)
    moreover have "set xs = set (w # ls)" using calculation(1) by (metis set_mset_mset)
    ultimately show ?thesis using x resolve_conflict [OF xs] o by (auto simp: Let_def)
  qed
  note pr = parts [OF assms(1)] and pq = parts [OF q]
  have sets: "set ds = set cs" using assms(2) by (metis set_mset_mset)
  have run: "cc_run (cv_winner q) = cc_run (cv_winner r)"
    using pr pq sets by (metis antisym utf16_key_inj)
  have tuple: "same_tuple (cv_winner q) (cv_winner r)" using c(1) pr pq sets by (auto simp: conflict_def)
  have "mset (map cc_region (cv_winner q # cv_losers q)) = mset (map cc_region (cv_winner r # cv_losers r))"
    using pr pq assms(2) by (metis mset_map)
  from sort_key_mset [OF this, of utf16_key] have "crossRegionConflictLabels q = crossRegionConflictLabels r"
    using tuple by (simp add: crossRegionConflictLabels_def same_tuple_def inj_on_def utf16_key_inj)
  moreover have "q = r" if "distinct (map cc_run cs)"
  proof -
    from that have "inj_on (\<lambda>c. utf16_key (cc_run c)) (set cs)" by (auto simp: inj_on_def distinct_map utf16_key_inj)
    from sort_key_mset [OF assms(2) this] have "region_order ds = region_order cs" by (simp add: region_order_def)
    with q assms(1) resolve_conflict [OF c(1)] resolve_conflict [OF c(2)] show ?thesis by (simp add: Let_def)
  qed
  moreover have "\<lparr>cd_region = cc_region x, cd_key = cc_endpoint x @ '':'' @ cc_key x, cd_run = cc_run (cv_winner r)\<rparr> \<in> set (cv_redirects r)" if "x \<in> set cs" for x
  proof -
    from that c(1) pr have "same_tuple (cv_winner r) x" by (auto simp: conflict_def)
    moreover have "set (region_order cs) = set cs" by (simp add: region_order_def)
    ultimately show ?thesis using that assms(1) resolve_conflict [OF c(1)] by (force simp: Let_def same_tuple_def)
  qed
  ultimately show ?thesis using pr q run by blast
qed

definition demo_claim :: "string \<Rightarrow> string \<Rightarrow> conflict_claim" where
  "demo_claim r g = \<lparr>cc_run = r, cc_tenant = ''t'', cc_endpoint = ''e'', cc_key = ''k'', cc_region = g\<rparr>"

lemma regions_converge_witness:
  "\<exists>r q. resolveCrossRegionConflict [demo_claim ''b'' ''us'', demo_claim ''a'' ''eu''] = Inr r \<and> cc_run (cv_winner r) = ''a''
     \<and> resolveCrossRegionConflict [demo_claim ''a'' ''eu'', demo_claim ''b'' ''us''] = Inr q \<and> q = r"
proof -
  let ?cs = "[demo_claim ''b'' ''us'', demo_claim ''a'' ''eu'']" and ?ds = "[demo_claim ''a'' ''eu'', demo_claim ''b'' ''us'']"
  have "utf16_key ''a'' \<le> utf16_key ''b''" "\<not> utf16_key ''b'' \<le> utf16_key ''a''" by code_simp+
  then have "\<exists>r. resolveCrossRegionConflict ?cs = Inr r \<and> cc_run (cv_winner r) = ''a''"
    by (simp add: resolveCrossRegionConflict_def demo_claim_def same_tuple_def region_order_def Let_def)
  then obtain r where r: "resolveCrossRegionConflict ?cs = Inr r" "cc_run (cv_winner r) = ''a''" by blast
  have "mset ?cs = mset ?ds" by simp
  from regions_converge [OF r(1) this] have "\<exists>q. resolveCrossRegionConflict ?ds = Inr q \<and> (distinct (map cc_run ?cs) \<longrightarrow> q = r)" by blast
  moreover have "distinct (map cc_run ?cs)" by (simp add: demo_claim_def)
  ultimately show ?thesis using r by blast
qed

end
