(* ===== verification/Jwt_Validator.thy ===== *)
theory Jwt_Validator
  imports Host_Types Encoding
begin

text \<open>
  The bearer-token validator of the PostgreSQL host (\<open>examples/hosts/postgres/src/jwt-validator.ts\<close>): the key set of the issuer with
  its cache, the re-encoding of an ECDSA signature, and the checks of a token in their order. The network, the
  key import and the verification of a signature are fields of the environment; bytes are characters.
\<close>

record jwt_config =
  jc_issuer :: string
  jc_audience :: string
  jc_algs :: "string list option"
  jc_skew :: "nat option"

record jwks_key =
  jk_kid :: string
  jk_key :: string
  jk_alg :: string

text \<open>The n-th request for the key set answers an error, or a status and a body.\<close>

record jwt_env =
  je_fetch :: "nat \<Rightarrow> string \<Rightarrow> string + nat \<times> string"
  je_import :: "(string \<times> string) list \<Rightarrow> string option"
  je_verify :: "string \<Rightarrow> string \<Rightarrow> string \<Rightarrow> bool"

record jwt_state =
  jv_cache :: "(jwks_key list \<times> nat) option"
  jv_fetches :: nat

definition JWKS_CACHE_TTL_MS :: nat where "JWKS_CACHE_TTL_MS = 600000"

definition supportedAlgorithms :: "jwt_config \<Rightarrow> string list" where
  "supportedAlgorithms c = (case jc_algs c of Some as \<Rightarrow> as | None \<Rightarrow> [''RS256'', ''ES256''])"

definition clockSkewSeconds :: "jwt_config \<Rightarrow> nat" where
  "clockSkewSeconds c = (case jc_skew c of Some n \<Rightarrow> n | None \<Rightarrow> 60)"

definition new_validator :: "jwt_config \<Rightarrow> exn + jwt_state" where
  "new_validator c = (if jc_issuer c = [] then Inl (JsError ''JwtValidator: config.issuer is required'')
     else if jc_audience c = [] then Inl (JsError ''JwtValidator: config.audience is required'')
     else Inr \<lparr>jv_cache = None, jv_fetches = 0\<rparr>)"

definition invalidateJwksCache :: "jwt_state \<Rightarrow> jwt_state" where
  "invalidateJwksCache s = s\<lparr>jv_cache := None\<rparr>"

definition jwt_error :: "string \<Rightarrow> string \<Rightarrow> exn" where
  "jwt_error code m = HostError code m None"

text \<open>A value between double quotes, in a message.\<close>

definition dq :: "string \<Rightarrow> string" where "dq s = [CHR 0x22] @ s @ [CHR 0x22]"

definition null_read :: exn where "null_read = JsError ''Cannot read properties of null''"

definition isSupportedAlgorithm :: "json option \<Rightarrow> bool" where
  "isSupportedAlgorithm x \<longleftrightarrow> x = Some (JStr ''RS256'') \<or> x = Some (JStr ''ES256'')"

section \<open>The signature\<close>

fun strip_zeros :: "string \<Rightarrow> string" where
  "strip_zeros (a # b # cs) = (if a = CHR 0x00 then strip_zeros (b # cs) else a # b # cs)"
| "strip_zeros s = s"

definition der_integer :: "string \<Rightarrow> string" where
  "der_integer b = (let out = strip_zeros b in
     case out of c # _ \<Rightarrow> if of_char c \<ge> (128 :: nat) then CHR 0x00 # out else out | [] \<Rightarrow> [])"

definition der_element :: "char \<Rightarrow> string \<Rightarrow> string" where
  "der_element mark body = mark # char_of (length body) # body"

definition derEncodeEcdsa :: "string \<Rightarrow> string \<Rightarrow> string" where
  "derEncodeEcdsa r s = der_element (CHR 0x30) (der_element (CHR 0x02) (der_integer r) @ der_element (CHR 0x02) (der_integer s))"

definition normalizeSignature :: "string \<Rightarrow> string \<Rightarrow> exn + string" where
  "normalizeSignature alg raw =
     (if alg \<noteq> ''ES256'' then Inr raw
      else if length raw \<noteq> 64 then Inl (jwt_error ''invalid_signature'' ''ES256 signature must be 64 bytes'')
      else Inr (derEncodeEcdsa (take 32 raw) (drop 32 raw)))"

section \<open>The key set\<close>

definition issuer_base :: "string \<Rightarrow> string" where
  "issuer_base s = rev (dropWhile (\<lambda>c. c = CHR ''/'') (rev s))"

definition jwks_url :: "jwt_config \<Rightarrow> string" where
  "jwks_url c = issuer_base (jc_issuer c) @ ''/.well-known/jwks.json''"

definition jwk_fields :: "json \<Rightarrow> (string \<times> string) list" where
  "jwk_fields k = (''kty'', case str_of (jfield k ''kty'') of Some t \<Rightarrow> t | None \<Rightarrow> [])
     # List.map_filter (\<lambda>n. map_option (Pair n) (str_of (jfield k n))) [''n'', ''e'', ''crv'', ''x'', ''y'']"

text \<open>An entry without its ids, of another algorithm, or that does not import is skipped; a null entry throws.\<close>

fun read_keys :: "jwt_env \<Rightarrow> json list \<Rightarrow> exn + jwks_key list" where
  "read_keys env [] = Inr []"
| "read_keys env (JNull # ks) = Inl null_read"
| "read_keys env (k # ks) = map_sum id (\<lambda>rest.
     (case (str_of (jfield k ''kid''), str_of (jfield k ''alg'')) of
        (Some kid, Some alg) \<Rightarrow> if \<not> isSupportedAlgorithm (Some (JStr alg)) then []
          else (case je_import env (jwk_fields k) of None \<Rightarrow> [] | Some key \<Rightarrow> [\<lparr>jk_kid = kid, jk_key = key, jk_alg = alg\<rparr>])
      | _ \<Rightarrow> []) @ rest) (read_keys env ks)"

definition served_keys :: "jwt_env \<Rightarrow> jwt_config \<Rightarrow> nat \<Rightarrow> exn + jwks_key list" where
  "served_keys env c n =
     (case je_fetch env n (jwks_url c) of
        Inl m \<Rightarrow> Inl (jwt_error ''jwks_unavailable'' (''JWKS fetch from '' @ dq (jwks_url c) @ '' failed: '' @ m))
      | Inr (status, body) \<Rightarrow>
          if status < 200 \<or> status \<ge> 300
          then Inl (jwt_error ''jwks_unavailable'' (''JWKS fetch from '' @ dq (jwks_url c) @ '' returned HTTP '' @ nat_string status))
          else (case json_parse body of None \<Rightarrow> Inl (JsError ''Unexpected token'')
            | Some JNull \<Rightarrow> Inl null_read
            | Some j \<Rightarrow> read_keys env (case jfield j ''keys'' of Some (JArr ks) \<Rightarrow> ks | _ \<Rightarrow> [])))"

definition fetchJwks :: "jwt_env \<Rightarrow> jwt_config \<Rightarrow> jwt_state \<Rightarrow> (exn + jwks_key list) \<times> jwt_state" where
  "fetchJwks env c s = (served_keys env c (jv_fetches s), s\<lparr>jv_fetches := Suc (jv_fetches s)\<rparr>)"

definition key_of :: "string \<Rightarrow> jwks_key list \<Rightarrow> jwks_key option" where
  "key_of kid ks = find (\<lambda>k. jk_kid k = kid) ks"

definition cached_key :: "nat \<Rightarrow> string \<Rightarrow> jwt_state \<Rightarrow> jwks_key option" where
  "cached_key now kid s = (case jv_cache s of None \<Rightarrow> None
     | Some (ks, at) \<Rightarrow> if now - at < JWKS_CACHE_TTL_MS then key_of kid ks else None)"

definition resolveKey :: "jwt_env \<Rightarrow> jwt_config \<Rightarrow> nat \<Rightarrow> string \<Rightarrow> jwt_state \<Rightarrow> (exn + jwks_key) \<times> jwt_state" where
  "resolveKey env c now kid s =
     (case cached_key now kid s of Some k \<Rightarrow> (Inr k, s)
      | None \<Rightarrow>
        (case fetchJwks env c s of (Inl e, s1) \<Rightarrow> (Inl e, s1)
         | (Inr ks, s1) \<Rightarrow>
           (let s2 = s1\<lparr>jv_cache := Some (ks, now)\<rparr> in
            case key_of kid ks of Some k \<Rightarrow> (Inr k, s2)
            | None \<Rightarrow> (Inl (jwt_error ''unknown_kid'' (''JWT header references kid='' @ dq kid @ '' but no matching key in issuer JWKS'')), s2))))"

section \<open>The token\<close>

text \<open>The algorithm and the key id a header names, once it names an acceptable algorithm.\<close>

definition read_header :: "jwt_config \<Rightarrow> string \<Rightarrow> exn + string \<times> string" where
  "read_header c seg =
     (case json_parse (from_base64url seg) of
        None \<Rightarrow> Inl (jwt_error ''malformed_jwt'' ''JWT header is not valid base64url JSON'')
      | Some JNull \<Rightarrow> Inl null_read
      | Some h \<Rightarrow>
        (let alg = jfield h ''alg''; kid = jfield h ''kid'' in
         if \<not> isSupportedAlgorithm alg
         then Inl (jwt_error ''unsupported_algorithm'' (''JWT header alg='' @ dq (js_String alg) @ '' is not in the host's supportedAlgorithms''))
         else if text_of alg \<notin> set (supportedAlgorithms c)
         then Inl (jwt_error ''unsupported_algorithm'' (''JWT header alg='' @ dq (text_of alg) @ '' is not advertised by this host''))
         else if text_of kid = [] then Inl (jwt_error ''malformed_jwt'' ''JWT header MUST include a non-empty `kid`'')
         else Inr (text_of alg, text_of kid)))"

definition num_claim :: "json \<Rightarrow> string \<Rightarrow> int option" where
  "num_claim j n = (case jfield j n of Some (JNum k) \<Rightarrow> Some k | _ \<Rightarrow> None)"

definition aud_matches :: "jwt_config \<Rightarrow> json \<Rightarrow> bool" where
  "aud_matches c j = (case jfield j ''aud'' of Some (JArr xs) \<Rightarrow> JStr (jc_audience c) \<in> set xs | v \<Rightarrow> v = Some (JStr (jc_audience c)))"

definition check_claims :: "jwt_config \<Rightarrow> nat \<Rightarrow> json \<Rightarrow> exn + json" where
  "check_claims c now j =
     (let t = int (now div 1000); skew = int (clockSkewSeconds c) in
      if j = JNull then Inl null_read
      else if jfield j ''iss'' \<noteq> Some (JStr (jc_issuer c))
      then Inl (jwt_error ''wrong_issuer'' (''JWT iss='' @ dq (js_String (jfield j ''iss'')) @ '' does not match host issuer ''
             @ dq (jc_issuer c)))
      else if \<not> aud_matches c j
      then Inl (jwt_error ''wrong_audience'' (''JWT aud does not include host audience '' @ dq (jc_audience c)))
      else if num_claim j ''iat'' = None then Inl (jwt_error ''missing_iat'' ''JWT MUST include numeric iat claim'')
      else if (case num_claim j ''exp'' of None \<Rightarrow> True | Some e \<Rightarrow> e \<le> t - skew) then Inl (jwt_error ''expired'' ''JWT exp claim is in the past (or missing)'')
      else if (case num_claim j ''nbf'' of None \<Rightarrow> False | Some n \<Rightarrow> n > t + skew) then Inl (jwt_error ''not_yet_valid'' ''JWT nbf claim is in the future'')
      else Inr j)"

definition verified_claims :: "jwt_env \<Rightarrow> jwt_config \<Rightarrow> nat \<Rightarrow> jwks_key \<Rightarrow> string \<Rightarrow> string \<Rightarrow> string \<Rightarrow> string \<Rightarrow> exn + json" where
  "verified_claims env c now k alg h p sig =
     (if jk_alg k \<noteq> alg
      then Inl (jwt_error ''unsupported_algorithm'' (''JWT header alg='' @ dq alg @ '' does not match key alg='' @ dq (jk_alg k)))
      else case normalizeSignature alg (from_base64url sig) of Inl e \<Rightarrow> Inl e
        | Inr der \<Rightarrow> if \<not> je_verify env (jk_key k) (h @ ''.'' @ p) der then Inl (jwt_error ''invalid_signature'' ''JWT signature does not verify'')
            else (case json_parse (from_base64url p) of None \<Rightarrow> Inl (jwt_error ''malformed_jwt'' ''JWT payload is not valid base64url JSON'')
              | Some j \<Rightarrow> check_claims c now j))"

definition validate :: "jwt_env \<Rightarrow> jwt_config \<Rightarrow> nat \<Rightarrow> string \<Rightarrow> jwt_state \<Rightarrow> (exn + json) \<times> jwt_state" where
  "validate env c now tok s =
     (case split_on (CHR ''.'') tok of
        [h, p, sig] \<Rightarrow>
          (case read_header c h of Inl e \<Rightarrow> (Inl e, s)
           | Inr (alg, kid) \<Rightarrow>
             (case resolveKey env c now kid s of (Inl e, s1) \<Rightarrow> (Inl e, s1)
              | (Inr k, s1) \<Rightarrow> (verified_claims env c now k alg h p sig, s1)))
      | _ \<Rightarrow> (Inl (jwt_error ''malformed_jwt'' ''JWT bearer MUST be three dot-separated segments (header.payload.signature)''), s))"

text \<open>Both configurations, from the process environment: complete or off.\<close>

definition read_config :: "string \<Rightarrow> (string \<Rightarrow> string option) \<Rightarrow> jwt_config option" where
  "read_config lane var = (case (var (''OPENWOP_'' @ lane @ ''_ISSUER_URL''), var (''OPENWOP_'' @ lane @ ''_AUDIENCE'')) of
     (Some i, Some a) \<Rightarrow> if i = [] \<or> a = [] then None else Some \<lparr>jc_issuer = i, jc_audience = a, jc_algs = None, jc_skew = None\<rparr>
   | _ \<Rightarrow> None)"

definition readOAuth2ConfigFromEnv :: "(string \<Rightarrow> string option) \<Rightarrow> jwt_config option" where
  "readOAuth2ConfigFromEnv var = read_config ''OAUTH2'' var"

definition readOIDCConfigFromEnv :: "(string \<Rightarrow> string option) \<Rightarrow> jwt_config option" where
  "readOIDCConfigFromEnv var = read_config ''OIDC'' var"

end
