(* ===== verification/Jwt_Bearer.thy ===== *)
theory Jwt_Bearer
  imports Jwt_Validator
begin

text \<open>
  What the bearer validator guarantees: an accepted token is signed by a current key of the issuer under the key's own
  algorithm and carries the issuer, the audience and the times it must; and the re-encoded signature
  is the strict DER of the two integers that were signed.
\<close>

section \<open>The signature, read back\<close>

text \<open>The value of big-endian bytes, and a strict reader of the two-integer sequence: short lengths, minimal positive integers, no rest.\<close>

definition be_value :: "string \<Rightarrow> nat" where
  "be_value s = fold (\<lambda>c n. n * 256 + of_char c) s 0"

definition positive_minimal :: "string \<Rightarrow> bool" where
  "positive_minimal b \<longleftrightarrow> (case b of
       [] \<Rightarrow> False
     | [c] \<Rightarrow> of_char c < (128 :: nat)
     | c # d # _ \<Rightarrow> of_char c < (128 :: nat) \<and> (c = CHR 0x00 \<longrightarrow> of_char d \<ge> (128 :: nat)))"

definition read_integer :: "string \<Rightarrow> (nat \<times> string) option" where
  "read_integer s = (case s of
       t # n # rest \<Rightarrow> (let k = of_char n in
         if t = CHR 0x02 \<and> k < 128 \<and> k \<le> length rest \<and> positive_minimal (take k rest) then Some (be_value (take k rest), drop k rest) else None)
     | _ \<Rightarrow> None)"

definition read_der :: "string \<Rightarrow> (nat \<times> nat) option" where
  "read_der s = (case s of
       t # n # rest \<Rightarrow> if t = CHR 0x30 \<and> length rest < 128 \<and> of_char n = length rest
         then (case read_integer rest of Some (r, rest') \<Rightarrow> (case read_integer rest' of Some (v, []) \<Rightarrow> Some (r, v) | _ \<Rightarrow> None) | None \<Rightarrow> None)
         else None
     | _ \<Rightarrow> None)"

lemma be_value_zero: "be_value (CHR 0x00 # s) = be_value s"
  by (simp add: be_value_def)

lemma strip_zeros_value: "be_value (strip_zeros s) = be_value s"
  by (induction s rule: strip_zeros.induct) (simp_all add: be_value_zero)

lemma strip_zeros_length: "length (strip_zeros s) \<le> length s"
  by (induction s rule: strip_zeros.induct) (simp_all add: le_SucI)

lemma strip_zeros_nonempty: "s \<noteq> [] \<Longrightarrow> strip_zeros s \<noteq> []"
  by (induction s rule: strip_zeros.induct) simp_all

lemma strip_zeros_head: "strip_zeros s = a # b # cs \<Longrightarrow> a \<noteq> CHR 0x00"
  by (induction s rule: strip_zeros.induct) (auto split: if_splits)

lemma der_integer_ok:
  assumes "b \<noteq> []"
  shows "positive_minimal (der_integer b)" "be_value (der_integer b) = be_value b" "length (der_integer b) \<le> Suc (length b)"
proof -
  obtain c cs where s: "strip_zeros b = c # cs" using strip_zeros_nonempty [OF assms] by (cases "strip_zeros b") auto
  show "positive_minimal (der_integer b)"
    using s strip_zeros_head [of b c] by (cases cs) (auto simp: der_integer_def positive_minimal_def Let_def)
  show "be_value (der_integer b) = be_value b"
    using s strip_zeros_value [of b] by (auto simp: der_integer_def Let_def be_value_zero)
  show "length (der_integer b) \<le> Suc (length b)"
    using s strip_zeros_length [of b] by (auto simp: der_integer_def Let_def)
qed

lemma of_char_of: "n < 128 \<Longrightarrow> (of_char (char_of n) :: nat) = n"
  by simp

lemma read_written_integer:
  assumes "b \<noteq> []" "length b < 127"
  shows "read_integer (der_element (CHR 0x02) (der_integer b) @ rest) = Some (be_value b, rest)"
  using der_integer_ok [OF assms(1)] assms(2) by (simp add: read_integer_def der_element_def Let_def)

text \<open>
  C24: The re-encoded signature is the one that was made: a raw ES256 signature is accepted exactly when it has its
  sixty-four bytes, and the DER it becomes reads back, by a strict reader, as the two integers of its halves.
\<close>

theorem signature_reencodes_exactly:
  "case normalizeSignature ''ES256'' raw of
     Inr d \<Rightarrow> length raw = 64 \<and> read_der d = Some (be_value (take 32 raw), be_value (drop 32 raw))
   | Inl e \<Rightarrow> length raw \<noteq> 64"
proof (cases "length raw = 64")
  case True
  let ?r = "take 32 raw" and ?v = "drop 32 raw"
  have l: "length ?r = 32" "length ?v = 32" using True by simp_all
  then have ne: "?r \<noteq> []" "?v \<noteq> []" by auto
  let ?body = "der_element (CHR 0x02) (der_integer ?r) @ der_element (CHR 0x02) (der_integer ?v)"
  have len: "length ?body < 128" using der_integer_ok(3) [OF ne(1)] der_integer_ok(3) [OF ne(2)] l by (simp add: der_element_def)
  have "read_integer ?body = Some (be_value ?r, der_element (CHR 0x02) (der_integer ?v))"
    using read_written_integer [OF ne(1)] l(1) by simp
  moreover have "read_integer (der_element (CHR 0x02) (der_integer ?v)) = Some (be_value ?v, [])"
    using read_written_integer [OF ne(2), of "[]"] l(2) by simp
  ultimately have "read_der (derEncodeEcdsa ?r ?v) = Some (be_value ?r, be_value ?v)"
    using len by (simp add: read_der_def derEncodeEcdsa_def der_element_def [of "CHR 0x30"])
  with True show ?thesis by (simp add: normalizeSignature_def)
next
  case False
  then show ?thesis by (simp add: normalizeSignature_def)
qed

section \<open>An accepted token\<close>

text \<open>The cache holds what the issuer served at some fetch.\<close>

definition jwks_ok :: "jwt_env \<Rightarrow> jwt_config \<Rightarrow> jwt_state \<Rightarrow> bool" where
  "jwks_ok env c s \<longleftrightarrow> (case jv_cache s of None \<Rightarrow> True | Some (ks, at) \<Rightarrow> \<exists>n < jv_fetches s. served_keys env c n = Inr ks)"

lemma resolveKey_ok:
  assumes "jwks_ok env c s" "resolveKey env c now kid s = (a, s')"
  shows "jwks_ok env c s' \<and> (\<forall>k. a = Inr k \<longrightarrow> (\<exists>ks at. jv_cache s' = Some (ks, at) \<and> now - at < JWKS_CACHE_TTL_MS \<and> k \<in> set ks \<and> jk_kid k = kid))"
proof (cases "cached_key now kid s")
  case (Some k)
  with assms show ?thesis
    by (auto simp: resolveKey_def cached_key_def key_of_def find_Some_iff split: option.splits prod.splits if_splits)
next
  case None
  show ?thesis
  proof (cases "served_keys env c (jv_fetches s)")
    case (Inl e)
    with None assms(2) have "a = Inl e" "s' = s\<lparr>jv_fetches := Suc (jv_fetches s)\<rparr>" by (simp_all add: resolveKey_def fetchJwks_def)
    with assms(1) show ?thesis by (auto simp: jwks_ok_def split: option.splits prod.splits) (blast intro: less_SucI)
  next
    case (Inr ks)
    with None assms show ?thesis
      by (auto intro: less_SucI simp: resolveKey_def fetchJwks_def jwks_ok_def key_of_def find_Some_iff JWKS_CACHE_TTL_MS_def Let_def split: option.splits)
  qed
qed

lemma resolveKey_keeps: "jwks_ok env c s \<Longrightarrow> jwks_ok env c (snd (validate env c now tok s))"
  using resolveKey_ok [of env c s now] by (auto simp: validate_def split: list.split sum.split prod.split)

text \<open>
  C25: An accepted bearer is vouched for: when a token is accepted, after any number of validations and
  invalidations, it has three segments; the algorithm its header names is one the host advertises and is the algorithm
  of a key that the issuer served, under the header's key id, within the last ten minutes; that key verifies
  the signature over the first two segments; and the claims, which are those of the second segment, name this
  issuer and audience, carry a time of issue, and are within their times up to the skew.
\<close>

theorem accepted_bearer_is_vouched:
  assumes "jwks_ok env c s" "validate env c now tok s = (Inr claims, s')"
  shows "jwks_ok env c s' \<and> (\<exists>h p sig alg kid k ks at der. split_on (CHR ''.'') tok = [h, p, sig] \<and> read_header c h = Inr (alg, kid)
      \<and> alg \<in> set (supportedAlgorithms c) \<inter> {''RS256'', ''ES256''}
      \<and> jv_cache s' = Some (ks, at) \<and> now - at < JWKS_CACHE_TTL_MS \<and> k \<in> set ks \<and> jk_kid k = kid \<and> jk_alg k = alg
      \<and> normalizeSignature alg (from_base64url sig) = Inr der \<and> je_verify env (jk_key k) (h @ ''.'' @ p) der
      \<and> json_parse (from_base64url p) = Some claims)
    \<and> jfield claims ''iss'' = Some (JStr (jc_issuer c)) \<and> aud_matches c claims \<and> num_claim claims ''iat'' \<noteq> None
    \<and> (\<exists>e. num_claim claims ''exp'' = Some e \<and> int (now div 1000) - int (clockSkewSeconds c) < e)
    \<and> (num_claim claims ''nbf'' = None \<or> the (num_claim claims ''nbf'') \<le> int (now div 1000) + int (clockSkewSeconds c))"
proof -
  obtain h p sig alg kid k where t: "split_on (CHR ''.'') tok = [h, p, sig]" "read_header c h = Inr (alg, kid)"
    "resolveKey env c now kid s = (Inr k, s')" "verified_claims env c now k alg h p sig = Inr claims"
    using assms(2) by (auto simp: validate_def split: list.splits sum.splits prod.splits)
  have alg: "alg \<in> set (supportedAlgorithms c) \<inter> {''RS256'', ''ES256''}"
    using t(2) by (auto simp: read_header_def isSupportedAlgorithm_def text_of_def Let_def split: option.splits json.splits if_splits)
  from resolveKey_ok [OF assms(1) t(3)] obtain ks at where k: "jwks_ok env c s'" "jv_cache s' = Some (ks, at)" "now - at < JWKS_CACHE_TTL_MS"
    "k \<in> set ks" "jk_kid k = kid" by auto
  from t(4) obtain der j where v: "jk_alg k = alg" "normalizeSignature alg (from_base64url sig) = Inr der" "je_verify env (jk_key k) (h @ ''.'' @ p) der"
    "json_parse (from_base64url p) = Some j" "check_claims c now j = Inr claims"
    by (auto simp: verified_claims_def split: if_splits sum.splits option.splits)
  from v(5) have "j = claims" and claims: "jfield claims ''iss'' = Some (JStr (jc_issuer c))" "aud_matches c claims" "num_claim claims ''iat'' \<noteq> None"
    "\<exists>e. num_claim claims ''exp'' = Some e \<and> int (now div 1000) - int (clockSkewSeconds c) < e"
    "num_claim claims ''nbf'' = None \<or> the (num_claim claims ''nbf'') \<le> int (now div 1000) + int (clockSkewSeconds c)"
    by (auto simp: check_claims_def Let_def split: if_splits option.splits)
  with t(1,2) alg k v(1-4) show ?thesis by blast
qed

text \<open>An issuer with one key, and a token of its: the signature the key accepts is \<open>s\<close>.\<close>

definition demo_jwt_config :: jwt_config where
  "demo_jwt_config = \<lparr>jc_issuer = ''https://i'', jc_audience = ''us'', jc_algs = None, jc_skew = None\<rparr>"

definition demo_jwks :: json where
  "demo_jwks = JObj [(''keys'', JArr [JObj [(''kid'', JStr ''k''), (''alg'', JStr ''RS256'')]])]"

definition demo_jwt_env :: jwt_env where
  "demo_jwt_env = \<lparr>je_fetch = (\<lambda>n url. Inr (200, json_stringify demo_jwks)), je_import = (\<lambda>f. Some ''key''),
     je_verify = (\<lambda>k d s. k = ''key'' \<and> s = ''s'')\<rparr>"

definition demo_jwt_header :: json where
  "demo_jwt_header = JObj [(''alg'', JStr ''RS256''), (''kid'', JStr ''k'')]"

definition demo_jwt_claims :: json where
  "demo_jwt_claims = JObj [(''iss'', JStr ''https://i''), (''aud'', JStr ''us''), (''iat'', JNum 0), (''exp'', JNum 100)]"

definition demo_bearer :: string where
  "demo_bearer = base64url (json_stringify demo_jwt_header) @ ''.'' @ base64url (json_stringify demo_jwt_claims) @ ''.'' @ base64url ''s''"

lemma split_bearer: "split_on (CHR ''.'') (base64url a @ ''.'' @ base64url b @ ''.'' @ base64url c) = [base64url a, base64url b, base64url c]"
  by (simp add: split_on_append split_on_no_sep base64url_no_dot)

lemma demo_texts:
  "json_parse (json_stringify demo_jwt_header) = Some demo_jwt_header" "json_parse (json_stringify demo_jwt_claims) = Some demo_jwt_claims"
  "json_parse (json_stringify demo_jwks) = Some demo_jwks"
  by (rule json_parse_stringify, simp add: demo_jwt_header_def demo_jwt_claims_def demo_jwks_def)+

lemma demo_served: "served_keys demo_jwt_env demo_jwt_config n = Inr [\<lparr>jk_kid = ''k'', jk_key = ''key'', jk_alg = ''RS256''\<rparr>]"
  using demo_texts(3) by (simp add: served_keys_def demo_jwt_env_def) (simp add: demo_jwks_def isSupportedAlgorithm_def)

lemma demo_jwt_header_read: "read_header demo_jwt_config (base64url (json_stringify demo_jwt_header)) = Inr (''RS256'', ''k'')"
  using demo_texts(1) by (simp add: read_header_def)
    (simp add: demo_jwt_header_def isSupportedAlgorithm_def text_of_def supportedAlgorithms_def demo_jwt_config_def)

lemma demo_jwt_claims_hold: "check_claims demo_jwt_config 5000 demo_jwt_claims = Inr demo_jwt_claims"
  by (simp add: check_claims_def demo_jwt_claims_def demo_jwt_config_def aud_matches_def num_claim_def clockSkewSeconds_def)

lemma demo_validates: "validate demo_jwt_env demo_jwt_config 5000 demo_bearer \<lparr>jv_cache = None, jv_fetches = 0\<rparr>
  = (Inr demo_jwt_claims, \<lparr>jv_cache = Some ([\<lparr>jk_kid = ''k'', jk_key = ''key'', jk_alg = ''RS256''\<rparr>], 5000), jv_fetches = 1\<rparr>)"
  unfolding demo_bearer_def validate_def split_bearer
  by (simp add: demo_jwt_header_read resolveKey_def cached_key_def fetchJwks_def demo_served key_of_def verified_claims_def normalizeSignature_def
      demo_texts(2) demo_jwt_claims_hold) (simp add: demo_jwt_env_def)

lemma accepted_bearer_is_vouched_witness:
  "jfield demo_jwt_claims ''iss'' = Some (JStr ''https://i'') \<and> aud_matches demo_jwt_config demo_jwt_claims
   \<and> (\<exists>h p sig. split_on (CHR ''.'') demo_bearer = [h, p, sig] \<and> json_parse (from_base64url p) = Some demo_jwt_claims)"
proof -
  have "jwks_ok demo_jwt_env demo_jwt_config \<lparr>jv_cache = None, jv_fetches = 0\<rparr>" by (simp add: jwks_ok_def)
  from accepted_bearer_is_vouched [OF this demo_validates] show ?thesis unfolding demo_jwt_config_def by auto
qed

end
