(* ===== verification/Memory_Adapter.thy ===== *)
theory Memory_Adapter
  imports Host_Types Ids
begin

text \<open>
  The memory of the agents in the PostgreSQL host (\<open>examples/hosts/postgres/src/memory-adapter.ts\<close>): the table of entries with its
  statements, the bounded reads, the size-checked write, the redaction that derived text passes and the compaction of the oldest
  entries. Contents are UTF-8 bytes. The order of the database on the text of its time columns, its collation, is a field of the environment;
  rows of one time come in table order.
\<close>

record memory_entry =
  mn_id :: string
  mn_content :: string
  mn_tags :: "string list"
  mn_created :: string
  mn_expires :: "string option"

record memory_row =
  mr_tenant :: string
  mr_ref :: string
  mr_id :: string
  mr_content :: string
  mr_tags :: "string list"
  mr_created :: string
  mr_expires :: "string option"

record memory_options =
  mo_limit :: "int option"
  mo_tag :: "string option"

record memory_input =
  mi_tenant :: string
  mi_ref :: string
  mi_id :: string
  mi_content :: string
  mi_tags :: "string list option"
  mi_expires :: "string option"

record memory_env =
  mv_iso :: "nat \<Rightarrow> string"
  mv_order :: "string \<Rightarrow> nat list"

type_synonym memory_db = "memory_row list"

definition DEFAULT_LIMIT :: nat where "DEFAULT_LIMIT = 100"
definition HARD_MAX_LIMIT :: nat where "HARD_MAX_LIMIT = 500"
definition MAX_ENTRY_SIZE_BYTES :: nat where "MAX_ENTRY_SIZE_BYTES = 65536"
definition MAX_INPUT_ENTRIES :: nat where "MAX_INPUT_ENTRIES = 1000"

definition rowToEntry :: "memory_row \<Rightarrow> memory_entry" where
  "rowToEntry r = \<lparr>mn_id = mr_id r, mn_content = mr_content r, mn_tags = mr_tags r, mn_created = mr_created r, mn_expires = mr_expires r\<rparr>"

definition at_ref :: "string \<Rightarrow> string \<Rightarrow> memory_row \<Rightarrow> bool" where
  "at_ref t ref r \<longleftrightarrow> mr_tenant r = t \<and> mr_ref r = ref"

definition same_key :: "string \<Rightarrow> string \<Rightarrow> string \<Rightarrow> memory_row \<Rightarrow> bool" where
  "same_key t ref i r \<longleftrightarrow> at_ref t ref r \<and> mr_id r = i"

definition unexpired :: "memory_env \<Rightarrow> nat \<Rightarrow> memory_row \<Rightarrow> bool" where
  "unexpired env now r \<longleftrightarrow> (case mr_expires r of None \<Rightarrow> True | Some e \<Rightarrow> mv_order env (mv_iso env now) < mv_order env e)"

section \<open>The adapter\<close>

definition requested_limit :: "memory_options \<Rightarrow> nat" where
  "requested_limit opts = (case mo_limit opts of Some n \<Rightarrow> if n > 0 then min (nat n) HARD_MAX_LIMIT else DEFAULT_LIMIT | None \<Rightarrow> DEFAULT_LIMIT)"

definition tag_filter :: "memory_options \<Rightarrow> memory_row \<Rightarrow> bool" where
  "tag_filter opts r \<longleftrightarrow> (case mo_tag opts of Some t \<Rightarrow> t = [] \<or> t \<in> set (mr_tags r) | None \<Rightarrow> True)"

definition listMemoryEntries :: "memory_env \<Rightarrow> nat \<Rightarrow> string \<Rightarrow> string \<Rightarrow> memory_options \<Rightarrow> memory_db \<Rightarrow> memory_entry list" where
  "listMemoryEntries env now t ref opts db =
     map rowToEntry (take (requested_limit opts)
       (rev (sort_key (\<lambda>r. mv_order env (mr_created r)) (filter (\<lambda>r. at_ref t ref r \<and> unexpired env now r \<and> tag_filter opts r) db))))"

definition getMemoryEntry :: "memory_env \<Rightarrow> nat \<Rightarrow> string \<Rightarrow> string \<Rightarrow> string \<Rightarrow> memory_db \<Rightarrow> memory_entry option" where
  "getMemoryEntry env now t ref i db = map_option rowToEntry (find (\<lambda>r. same_key t ref i r \<and> unexpired env now r) db)"

text \<open>The upsert keeps the time of creation.\<close>

definition upsert :: "memory_row \<Rightarrow> memory_db \<Rightarrow> memory_db" where
  "upsert row db = (let same = same_key (mr_tenant row) (mr_ref row) (mr_id row) in
     if list_ex same db
     then map (\<lambda>r. if same r then r\<lparr>mr_content := mr_content row, mr_tags := mr_tags row, mr_expires := mr_expires row\<rparr> else r) db
     else db @ [row])"

definition writeMemoryEntry :: "memory_env \<Rightarrow> nat \<Rightarrow> memory_input \<Rightarrow> memory_db \<Rightarrow> exn + memory_db" where
  "writeMemoryEntry env now inp db =
     (if length (mi_content inp) > MAX_ENTRY_SIZE_BYTES
      then Inl (JsError (''memory entry content exceeds host cap of '' @ nat_string MAX_ENTRY_SIZE_BYTES @ '' bytes''))
      else Inr (upsert \<lparr>mr_tenant = mi_tenant inp, mr_ref = mi_ref inp, mr_id = mi_id inp, mr_content = mi_content inp,
             mr_tags = (case mi_tags inp of Some ts \<Rightarrow> ts | None \<Rightarrow> []), mr_created = mv_iso env now, mr_expires = mi_expires inp\<rparr> db))"

definition deleteMemoryEntry :: "string \<Rightarrow> string \<Rightarrow> string \<Rightarrow> memory_db \<Rightarrow> bool \<times> memory_db" where
  "deleteMemoryEntry t ref i db = (list_ex (same_key t ref i) db, filter (\<lambda>r. \<not> same_key t ref i r) db)"

section \<open>The redaction of derived text\<close>

text \<open>
  A mark at the head of a text is the opening, at least one other character than the closing, and the closing; the result is the
  text after it.
\<close>

definition mark_at :: "string \<Rightarrow> char \<Rightarrow> string \<Rightarrow> string option" where
  "mark_at opening closing s = (if take (length opening) s \<noteq> opening then None
     else (let rest = drop (length opening) s; body = takeWhile (\<lambda>c. c \<noteq> closing) rest; after = drop (length body) rest in
       if body = [] \<or> after = [] then None else Some (tl after)))"

definition placeholder :: "nat \<Rightarrow> string" where
  "placeholder n = ''[REDACTED:carry-forward-'' @ nat_string n @ '']''"

lemma mark_at_shorter: "mark_at opening closing s = Some rest \<Longrightarrow> length rest < length s"
  by (auto simp: mark_at_def Let_def split: if_splits)

text \<open>Each mark becomes the next placeholder; the count goes on from one pass to the next.\<close>

function replace_marks :: "string \<Rightarrow> char \<Rightarrow> nat \<Rightarrow> string \<Rightarrow> string \<times> nat" where
  "replace_marks opening closing n [] = ([], n)"
| "replace_marks opening closing n (c # s) =
     (case mark_at opening closing (c # s) of
        Some rest \<Rightarrow> (let (t, m) = replace_marks opening closing (Suc n) rest in (placeholder n @ t, m))
      | None \<Rightarrow> (let (t, m) = replace_marks opening closing n s in (c # t, m)))"
  by pat_completeness auto
termination by (relation "measure (\<lambda>(_, _, _, s). length s)") (auto dest: mark_at_shorter)

definition BYOK_OPEN :: string where "BYOK_OPEN = ''[BYOK:''"
definition REDACTED_OPEN :: string where "REDACTED_OPEN = ''<REDACTED:''"

definition applyCompactionRedaction :: "string \<Rightarrow> string" where
  "applyCompactionRedaction s =
     (let (t, n) = replace_marks BYOK_OPEN (CHR '']'') 0 s in fst (replace_marks REDACTED_OPEN (CHR ''>'') n t))"

section \<open>Bytes as text\<close>

text \<open>
  \<open>Buffer.toString('utf8')\<close>: bytes that are no character become U+FFFD, one for each longest beginning of a character. The number of
  bytes that follow a lead byte, and the range of the first of them.
\<close>

definition followers :: "char \<Rightarrow> nat" where
  "followers c = (let n = (of_char c :: nat) in if 194 \<le> n \<and> n < 224 then 1 else if 224 \<le> n \<and> n < 240 then 2 else if 240 \<le> n \<and> n < 245 then 3 else 0)"

definition follows :: "char \<Rightarrow> char \<Rightarrow> bool" where
  "follows c x = (let n = (of_char c :: nat) in continues x \<and> (n = 224 \<longrightarrow> 160 \<le> (of_char x :: nat)) \<and> (n = 237 \<longrightarrow> (of_char x :: nat) < 160)
     \<and> (n = 240 \<longrightarrow> 144 \<le> (of_char x :: nat)) \<and> (n = 244 \<longrightarrow> (of_char x :: nat) < 144))"

definition char_tail :: "char \<Rightarrow> string \<Rightarrow> string" where
  "char_tail c s = (case s of [] \<Rightarrow> [] | x # r \<Rightarrow> if followers c = 0 \<or> \<not> follows c x then [] else x # takeWhile continues (take (followers c - 1) r))"

function lossy_text :: "string \<Rightarrow> string" where
  "lossy_text [] = []"
| "lossy_text (c # s) =
     (if (of_char c :: nat) < 128 then c # lossy_text s
      else let got = char_tail c s; rest = lossy_text (drop (length got) s) in
        if followers c > 0 \<and> length got = followers c then c # got @ rest else REPLACEMENT @ rest)"
  by pat_completeness auto
termination by (relation "measure length") auto

section \<open>The compaction\<close>

fun join_text :: "string \<Rightarrow> string list \<Rightarrow> string" where
  "join_text d [] = []"
| "join_text d [s] = s"
| "join_text d (s # t # ts) = s @ d @ join_text d (t # ts)"

definition digit36 :: "nat \<Rightarrow> char" where
  "digit36 n = (if n < 10 then char_of (48 + n) else char_of (87 + n))"

fun base36 :: "nat \<Rightarrow> string" where
  "base36 n = (if n < 36 then [digit36 n] else base36 (n div 36) @ [digit36 (n mod 36)])"

declare base36.simps [simp del]

record compaction =
  cp_output :: string
  cp_sources :: "string list"
  cp_count :: nat
  cp_size :: nat
  cp_content :: string

definition SEPARATOR :: string where
  "SEPARATOR = [CHR 0x0A, CHR 0x0A] @ ''---'' @ [CHR 0x0A, CHR 0x0A]"

text \<open>The text that is stored: the contents joined, redacted and cut to the number of bytes.\<close>

definition compacted_text :: "nat \<Rightarrow> string list \<Rightarrow> string" where
  "compacted_text limit cs = (let redacted = applyCompactionRedaction (join_text SEPARATOR cs) in
     if length redacted > limit then lossy_text (take limit redacted) else redacted)"

definition compaction_sources :: "memory_env \<Rightarrow> nat \<Rightarrow> string \<Rightarrow> string \<Rightarrow> nat \<Rightarrow> memory_db \<Rightarrow> memory_row list" where
  "compaction_sources env now t ref limit db =
     take limit (sort_key (\<lambda>r. mv_order env (mr_created r)) (filter (\<lambda>r. at_ref t ref r \<and> unexpired env now r) db))"

definition runCompaction :: "memory_env \<Rightarrow> nat \<Rightarrow> string \<Rightarrow> string \<Rightarrow> nat option \<Rightarrow> nat option \<Rightarrow> memory_db \<Rightarrow> (exn + compaction option) \<times> memory_db" where
  "runCompaction env now t ref in_cap out_cap db =
     (let maxInput = (case in_cap of Some n \<Rightarrow> n | None \<Rightarrow> MAX_INPUT_ENTRIES);
          maxOutput = (case out_cap of Some n \<Rightarrow> n | None \<Rightarrow> MAX_ENTRY_SIZE_BYTES);
          sources = compaction_sources env now t ref maxInput db in
      if length sources < 2 then (Inr None, db)
      else
        (let content = compacted_text maxOutput (map mr_content sources); run = ''compaction-'' @ base36 now; out = ''mem-'' @ run in
         case writeMemoryEntry env now \<lparr>mi_tenant = t, mi_ref = ref, mi_id = out, mi_content = content,
             mi_tags = Some [''compacted-from:'' @ run, ''compacted''], mi_expires = None\<rparr> db of
           Inl e \<Rightarrow> (Inl e, db)
         | Inr db' \<Rightarrow> (Inr (Some \<lparr>cp_output = out, cp_sources = map mr_id sources, cp_count = length sources, cp_size = length content, cp_content = content\<rparr>), db')))"

end
