(* ===== verification/Memory.thy ===== *)
theory Memory
  imports Memory_Adapter
begin

text \<open>
  What the memory of the agents guarantees: a tenant's entries are its own, whatever the others do; derived text carries no
  non-canonical marker; a compaction keeps its sources.
\<close>

section \<open>The tenants\<close>

text \<open>The operations that change the table, and what each is about.\<close>

datatype memory_op =
    MWrite nat memory_input
  | MDelete string string string
  | MCompact nat string string "nat option" "nat option"

fun memory_step :: "memory_env \<Rightarrow> memory_op \<Rightarrow> memory_db \<Rightarrow> memory_db" where
  "memory_step env (MWrite now inp) db = (case writeMemoryEntry env now inp db of Inl e \<Rightarrow> db | Inr db' \<Rightarrow> db')"
| "memory_step env (MDelete t ref i) db = snd (deleteMemoryEntry t ref i db)"
| "memory_step env (MCompact now t ref a b) db = snd (runCompaction env now t ref a b db)"

fun op_place :: "memory_op \<Rightarrow> string \<times> string" where
  "op_place (MWrite now inp) = (mi_tenant inp, mi_ref inp)"
| "op_place (MDelete t ref i) = (t, ref)"
| "op_place (MCompact now t ref a b) = (t, ref)"

definition memory_run :: "memory_env \<Rightarrow> memory_op list \<Rightarrow> memory_db \<Rightarrow> memory_db" where
  "memory_run env ops db = fold (memory_step env) ops db"

text \<open>A row is only made by a write, of its tenant, reference and id.\<close>

definition place_rows :: "string \<times> string \<Rightarrow> memory_db \<Rightarrow> memory_db" where
  "place_rows p db = filter (at_ref (fst p) (snd p)) db"

lemma place_upsert:
  "place_rows p (upsert row db) = (if p = (mr_tenant row, mr_ref row) then upsert row (place_rows p db) else place_rows p db)"
proof (cases "p = (mr_tenant row, mr_ref row)")
  case True
  have "list_ex (same_key (mr_tenant row) (mr_ref row) (mr_id row)) (place_rows p db) = list_ex (same_key (mr_tenant row) (mr_ref row) (mr_id row)) db"
    using True by (auto simp: place_rows_def list_ex_iff same_key_def)
  with True show ?thesis by (auto simp: upsert_def Let_def place_rows_def filter_map comp_def at_ref_def intro!: arg_cong [where f = "map _"] filter_cong)
next
  case False
  then have "place_rows p (map (\<lambda>r. if same_key (mr_tenant row) (mr_ref row) (mr_id row) r
      then r\<lparr>mr_content := mr_content row, mr_tags := mr_tags row, mr_expires := mr_expires row\<rparr> else r) db) = place_rows p db"
    by (induction db) (auto simp: place_rows_def same_key_def at_ref_def prod_eq_iff)
  with False show ?thesis by (auto simp: upsert_def Let_def place_rows_def at_ref_def prod_eq_iff)
qed

lemma place_write:
  "(mi_tenant inp, mi_ref inp) \<noteq> p \<Longrightarrow> writeMemoryEntry env now inp db = Inr db' \<Longrightarrow> place_rows p db' = place_rows p db"
  by (auto simp: writeMemoryEntry_def place_upsert split: if_splits)

lemma place_step: "op_place c \<noteq> p \<Longrightarrow> place_rows p (memory_step env c db) = place_rows p db"
proof (cases c)
  case (MWrite now inp)
  then show "op_place c \<noteq> p \<Longrightarrow> ?thesis" by (auto split: sum.split dest: place_write)
next
  case (MDelete t ref i)
  then show "op_place c \<noteq> p \<Longrightarrow> ?thesis"
    by (auto simp: deleteMemoryEntry_def place_rows_def same_key_def at_ref_def intro!: filter_cong)
next
  case (MCompact now t ref a b)
  show "?thesis" if "op_place c \<noteq> p"
  proof (cases "snd (runCompaction env now t ref a b db) = db")
    case False
    then obtain content i tags where "writeMemoryEntry env now \<lparr>mi_tenant = t, mi_ref = ref, mi_id = i, mi_content = content, mi_tags = tags, mi_expires = None\<rparr> db
        = Inr (snd (runCompaction env now t ref a b db))"
      unfolding runCompaction_def Let_def by (simp split: if_splits sum.splits)
    from place_write [OF _ this, of p] that MCompact show ?thesis by simp
  qed (simp add: MCompact)
qed

lemma reads_of_place:
  "listMemoryEntries env now t ref opts db = listMemoryEntries env now t ref opts (place_rows (t, ref) db)"
  "getMemoryEntry env now t ref i db = getMemoryEntry env now t ref i (place_rows (t, ref) db)"
proof -
  show "listMemoryEntries env now t ref opts db = listMemoryEntries env now t ref opts (place_rows (t, ref) db)"
    by (simp add: listMemoryEntries_def place_rows_def conj_ac)
  have "find (\<lambda>r. same_key t ref i r \<and> unexpired env now r) (filter (at_ref t ref) db) = find (\<lambda>r. same_key t ref i r \<and> unexpired env now r) db"
    by (induction db) (auto simp: same_key_def)
  then show "getMemoryEntry env now t ref i db = getMemoryEntry env now t ref i (place_rows (t, ref) db)"
    by (simp add: getMemoryEntry_def place_rows_def)
qed

text \<open>
  Memory stays with its tenant: the writes, deletions and compactions of other tenants, and those of other
  references, in any number, leave what a tenant reads under a reference as it was; and every entry a read answers is
  a row of that tenant and reference that has not expired, at most five hundred of them.
\<close>

theorem memory_stays_in_tenant:
  assumes "(t, ref) \<notin> op_place ` set ops"
  shows "listMemoryEntries env now t ref opts (memory_run env ops db) = listMemoryEntries env now t ref opts db
    \<and> getMemoryEntry env now t ref i (memory_run env ops db) = getMemoryEntry env now t ref i db
    \<and> set (listMemoryEntries env now t ref opts db) \<subseteq> rowToEntry ` {r \<in> set db. mr_tenant r = t \<and> mr_ref r = ref \<and> unexpired env now r}
    \<and> set_option (getMemoryEntry env now t ref i db) \<subseteq> rowToEntry ` {r \<in> set db. mr_tenant r = t \<and> mr_ref r = ref \<and> mr_id r = i \<and> unexpired env now r}
    \<and> length (listMemoryEntries env now t ref opts db) \<le> 500"
proof -
  have "place_rows (t, ref) (memory_run env ops db) = place_rows (t, ref) db"
    using assms unfolding memory_run_def by (induction ops arbitrary: db) (auto simp: place_step)
  with reads_of_place(1) [of env now t ref opts] reads_of_place(2) [of env now t ref i]
  have same: "listMemoryEntries env now t ref opts (memory_run env ops db) = listMemoryEntries env now t ref opts db"
    "getMemoryEntry env now t ref i (memory_run env ops db) = getMemoryEntry env now t ref i db" by metis+
  moreover have "set (listMemoryEntries env now t ref opts db) \<subseteq> rowToEntry ` {r \<in> set db. mr_tenant r = t \<and> mr_ref r = ref \<and> unexpired env now r}"
    by (auto simp: listMemoryEntries_def at_ref_def dest!: in_set_takeD)
  moreover have "set_option (getMemoryEntry env now t ref i db) \<subseteq> rowToEntry ` {r \<in> set db. mr_tenant r = t \<and> mr_ref r = ref \<and> mr_id r = i \<and> unexpired env now r}"
    by (auto simp: getMemoryEntry_def same_key_def at_ref_def find_Some_iff)
  moreover have "length (listMemoryEntries env now t ref opts db) \<le> 500"
    by (auto simp: listMemoryEntries_def requested_limit_def HARD_MAX_LIMIT_def DEFAULT_LIMIT_def split: option.split)
  ultimately show ?thesis by blast
qed

text \<open>A write touches its key alone, and is read back.\<close>

lemma upsert_others: "filter (\<lambda>r. \<not> same_key (mr_tenant row) (mr_ref row) (mr_id row) r) (upsert row db)
    = filter (\<lambda>r. \<not> same_key (mr_tenant row) (mr_ref row) (mr_id row) r) db"
proof -
  have "filter (\<lambda>r. \<not> same_key t ref i r) (map (\<lambda>r. if same_key t ref i r then r\<lparr>mr_content := a, mr_tags := b, mr_expires := c\<rparr> else r) xs)
      = filter (\<lambda>r. \<not> same_key t ref i r) xs" for t ref i a b c and xs :: memory_db
    by (induction xs) (auto simp: same_key_def at_ref_def)
  then show ?thesis by (simp add: upsert_def Let_def same_key_def at_ref_def)
qed

lemma upsert_found: "\<exists>r. find (same_key (mr_tenant row) (mr_ref row) (mr_id row)) (upsert row db) = Some r
    \<and> mr_content r = mr_content row \<and> mr_tags r = mr_tags row \<and> mr_expires r = mr_expires row"
proof -
  have "list_ex (same_key t ref i) xs \<Longrightarrow> \<exists>r. find (same_key t ref i) (map (\<lambda>r. if same_key t ref i r then r\<lparr>mr_content := a, mr_tags := b, mr_expires := c\<rparr> else r) xs) = Some r
      \<and> mr_content r = a \<and> mr_tags r = b \<and> mr_expires r = c" for t ref i a b c and xs :: memory_db
    by (induction xs) (auto simp: same_key_def at_ref_def)
  moreover have "\<not> list_ex (same_key t ref i) xs \<Longrightarrow> find (same_key t ref i) (xs @ ys) = find (same_key t ref i) ys" for t ref i and xs ys :: memory_db
    by (induction xs) auto
  ultimately show ?thesis by (auto simp: upsert_def Let_def same_key_def at_ref_def)
qed

lemma find_conj: "find P xs = Some x \<Longrightarrow> Q x \<Longrightarrow> find (\<lambda>y. P y \<and> Q y) xs = Some x"
  by (induction xs) (auto split: if_splits)

lemma write_then_get:
  assumes "writeMemoryEntry env now inp db = Inr db'"
  shows "filter (\<lambda>r. \<not> same_key (mi_tenant inp) (mi_ref inp) (mi_id inp) r) db' = filter (\<lambda>r. \<not> same_key (mi_tenant inp) (mi_ref inp) (mi_id inp) r) db"
    and "mi_expires inp = None \<Longrightarrow> map_option mn_content (getMemoryEntry env later (mi_tenant inp) (mi_ref inp) (mi_id inp) db') = Some (mi_content inp)"
proof -
  let ?row = "\<lparr>mr_tenant = mi_tenant inp, mr_ref = mi_ref inp, mr_id = mi_id inp, mr_content = mi_content inp,
     mr_tags = (case mi_tags inp of Some ts \<Rightarrow> ts | None \<Rightarrow> []), mr_created = mv_iso env now, mr_expires = mi_expires inp\<rparr>"
  have db': "db' = upsert ?row db" using assms by (simp add: writeMemoryEntry_def split: if_splits)
  then show "filter (\<lambda>r. \<not> same_key (mi_tenant inp) (mi_ref inp) (mi_id inp) r) db' = filter (\<lambda>r. \<not> same_key (mi_tenant inp) (mi_ref inp) (mi_id inp) r) db"
    using upsert_others [of ?row db] by simp
  assume none: "mi_expires inp = None"
  obtain r where r: "find (same_key (mi_tenant inp) (mi_ref inp) (mi_id inp)) db' = Some r" "mr_content r = mi_content inp" "mr_expires r = mi_expires inp"
    using upsert_found [of ?row db] db' by auto
  with none have "unexpired env later r" by (simp add: unexpired_def)
  from find_conj [OF r(1), of "unexpired env later", OF this] r(2)
  show "map_option mn_content (getMemoryEntry env later (mi_tenant inp) (mi_ref inp) (mi_id inp) db') = Some (mi_content inp)"
    by (simp add: getMemoryEntry_def rowToEntry_def)
qed

definition demo_memory_env :: memory_env where
  "demo_memory_env = \<lparr>mv_iso = nat_string, mv_order = map of_char\<rparr>"

definition demo_memory_row :: "string \<Rightarrow> string \<Rightarrow> memory_row" where
  "demo_memory_row i c = \<lparr>mr_tenant = ''t'', mr_ref = ''m'', mr_id = i, mr_content = c, mr_tags = [], mr_created = ''1'', mr_expires = None\<rparr>"

lemma memory_stays_in_tenant_witness:
  "listMemoryEntries demo_memory_env 5 ''t'' ''m'' \<lparr>mo_limit = None, mo_tag = None\<rparr> (memory_run demo_memory_env [MDelete ''u'' ''m'' ''a'', MCompact 7 ''u'' ''m'' None None] [demo_memory_row ''a'' ''x''])
     = listMemoryEntries demo_memory_env 5 ''t'' ''m'' \<lparr>mo_limit = None, mo_tag = None\<rparr> [demo_memory_row ''a'' ''x'']"
  using memory_stays_in_tenant [of "''t''" "''m''" "[MDelete ''u'' ''m'' ''a'', MCompact 7 ''u'' ''m'' None None]" demo_memory_env 5 "\<lparr>mo_limit = None, mo_tag = None\<rparr>" "[demo_memory_row ''a'' ''x'']" "[]"]
  by simp

section \<open>The redaction\<close>

text \<open>A text that holds a mark.\<close>

fun marked :: "string \<Rightarrow> char \<Rightarrow> string \<Rightarrow> bool" where
  "marked opening closing [] = False"
| "marked opening closing (c # s) = (mark_at opening closing (c # s) \<noteq> None \<or> marked opening closing s)"

lemma replace_unmarked: "\<not> marked opening closing s \<Longrightarrow> replace_marks opening closing n s = (s, n)"
  by (induction s) auto

lemma fst_replace_Cons: "fst (replace_marks op closing n (c # s)) = (case mark_at op closing (c # s) of
    Some rest \<Rightarrow> placeholder n @ fst (replace_marks op closing (Suc n) rest) | None \<Rightarrow> c # fst (replace_marks op closing n s))"
  by (simp split: option.split prod.split)

lemma mark_at_head: "c \<noteq> a \<Longrightarrow> mark_at (a # op) closing (c # s) = None"
  by (simp add: mark_at_def)

lemma marked_plain: "a \<notin> set u \<Longrightarrow> marked (a # op) closing (u @ s) = marked (a # op) closing s"
  by (induction u) (auto simp: mark_at_head)

lemma takeWhile_stops: "c \<in> set r \<Longrightarrow> length (takeWhile (\<lambda>x. x \<noteq> c) r) < length r"
  by (induction r) auto

lemma mark_at_closing: "closing \<notin> set s \<Longrightarrow> mark_at op closing s = None"
proof -
  assume "closing \<notin> set s"
  then have "takeWhile (\<lambda>c. c \<noteq> closing) (drop (length op) s) = drop (length op) s" by (auto simp: takeWhile_eq_all_conv dest: in_set_dropD)
  then show ?thesis by (simp add: mark_at_def Let_def del: takeWhile_eq_all_conv)
qed

lemma unclosed_after: "closing \<notin> set s \<Longrightarrow> mark_at op closing (op @ s) = None"
proof -
  assume "closing \<notin> set s"
  then have "takeWhile (\<lambda>c. c \<noteq> closing) s = s" by (simp add: takeWhile_eq_all_conv) blast
  then show ?thesis by (simp add: mark_at_def Let_def del: takeWhile_eq_all_conv)
qed

lemma unclosed_unmarked: "closing \<notin> set s \<Longrightarrow> \<not> marked op closing s"
  by (induction s) (auto simp: mark_at_closing)

lemma mark_at_after: "mark_at op closing (op @ r) = (let body = takeWhile (\<lambda>c. c \<noteq> closing) r; after = drop (length body) r in
    if body = [] \<or> after = [] then None else Some (tl after))"
  by (simp add: mark_at_def)

text \<open>After an opening that makes no mark there is no closing, or it comes at once.\<close>

lemma no_mark_after: "mark_at op closing (op @ r) = None \<Longrightarrow> closing \<notin> set r \<or> (\<exists>r'. r = closing # r')"
  using takeWhile_stops [of closing r] by (cases r) (auto simp: mark_at_after Let_def split: if_splits)

lemma replace_plain: "a \<notin> set u \<Longrightarrow> fst (replace_marks (a # op) closing n (u @ s)) = u @ fst (replace_marks (a # op) closing n s)"
  by (induction u) (auto simp: mark_at_head split: prod.splits)

lemma replaced_prefix:
  "CHR ''['' \<notin> set p \<Longrightarrow> take (length p) (fst (replace_marks op closing n s)) = p \<Longrightarrow> take (length p) s = p"
proof (induction op closing n s arbitrary: p rule: replace_marks.induct)
  case (2 op closing n c s)
  show ?case
  proof (cases "mark_at op closing (c # s)")
    case None
    with 2 show ?thesis by (cases p) (auto split: prod.splits)
  next
    case (Some rest)
    with 2 show ?thesis by (cases p) (auto simp: placeholder_def split: prod.splits)
  qed
qed simp

lemma one_pass_is_enough:
  assumes "a \<notin> set op" "CHR ''['' \<notin> set op" "a \<noteq> closing" "closing \<notin> set op"
    and placeholders: "\<And>n t. \<not> marked (a # op) closing t \<Longrightarrow> \<not> marked (a # op) closing (placeholder n @ t)"
  shows "\<not> marked (a # op) closing (fst (replace_marks (a # op) closing n s))"
proof (induction "length s" arbitrary: n s rule: less_induct)
  case less
  show ?case
  proof (cases s)
    case (Cons c s')
    show ?thesis
    proof (cases "mark_at (a # op) closing (c # s')")
      case (Some rest)
      then have "length rest < length s" using Cons mark_at_shorter by blast
      from placeholders [OF less [OF this]] Some Cons show ?thesis by (simp add: fst_replace_Cons del: replace_marks.simps)
    next
      case None
      let ?out = "fst (replace_marks (a # op) closing n s')"
      have "mark_at (a # op) closing (c # ?out) = None"
      proof (cases "c = a \<and> take (length op) ?out = op")
        case True
        with replaced_prefix [OF assms(2)] obtain r where r: "s' = op @ r" by (metis append_take_drop_id)
        then have out: "?out = op @ fst (replace_marks (a # op) closing n r)" using assms(1) replace_plain by simp
        from None True r have none: "mark_at (a # op) closing ((a # op) @ r) = None" by simp
        from no_mark_after [OF none] show ?thesis
        proof
          assume "closing \<notin> set r"
          then have "fst (replace_marks (a # op) closing n r) = r" using replace_unmarked [OF unclosed_unmarked] by simp
          with out r None show ?thesis by simp
        next
          assume "\<exists>r'. r = closing # r'"
          then obtain v where "fst (replace_marks (a # op) closing n r) = closing # v"
            using mark_at_head [OF assms(3) [symmetric]] by (auto simp: fst_replace_Cons simp del: replace_marks.simps)
          with out True show ?thesis using mark_at_after [of "a # op" closing "closing # v"] by simp
        qed
      qed (auto simp: mark_at_def)
      moreover have "\<not> marked (a # op) closing ?out" using less [of s'] Cons by simp
      ultimately show ?thesis using None Cons by (auto split: prod.splits)
    qed
  qed simp
qed

lemma nat_string_plain: "CHR ''['' \<notin> set (nat_string n)" "CHR ''<'' \<notin> set (nat_string n)"
  by (auto dest!: nat_string_digits simp: is_digit_def)

lemma placeholder_unmarked:
  "\<not> marked BYOK_OPEN (CHR '']'') t \<Longrightarrow> \<not> marked BYOK_OPEN (CHR '']'') (placeholder n @ t)"
  "\<not> marked REDACTED_OPEN (CHR ''>'') t \<Longrightarrow> \<not> marked REDACTED_OPEN (CHR ''>'') (placeholder n @ t)"
proof -
  obtain u where u: "placeholder n = CHR ''['' # CHR ''R'' # u" "CHR ''['' \<notin> set u"
    using nat_string_plain(1) [of n] by (simp add: placeholder_def)
  show "\<not> marked BYOK_OPEN (CHR '']'') t \<Longrightarrow> \<not> marked BYOK_OPEN (CHR '']'') (placeholder n @ t)"
    using marked_plain [of "CHR ''[''" u "''BYOK:''" "CHR '']''" t] u by (simp add: BYOK_OPEN_def mark_at_def)
  have "CHR ''<'' \<notin> set (placeholder n)" using nat_string_plain(2) [of n] by (simp add: placeholder_def)
  from marked_plain [OF this] show "\<not> marked REDACTED_OPEN (CHR ''>'') t \<Longrightarrow> \<not> marked REDACTED_OPEN (CHR ''>'') (placeholder n @ t)"
    by (simp add: REDACTED_OPEN_def)
qed

lemma pass_unmarked:
  "\<not> marked BYOK_OPEN (CHR '']'') (fst (replace_marks BYOK_OPEN (CHR '']'') n s))"
  "\<not> marked REDACTED_OPEN (CHR ''>'') (fst (replace_marks REDACTED_OPEN (CHR ''>'') n s))"
  using one_pass_is_enough [of "CHR ''[''" "''BYOK:''" "CHR '']''" n s] placeholder_unmarked(1)
    one_pass_is_enough [of "CHR ''<''" "''REDACTED:''" "CHR ''>''" n s] placeholder_unmarked(2)
  by (simp_all add: BYOK_OPEN_def REDACTED_OPEN_def)

lemma replace_chars: "set (fst (replace_marks op closing n s)) \<subseteq> set s \<union> (\<Union>k. set (placeholder k))"
proof (induction op closing n s rule: replace_marks.induct)
  case (2 op closing n c s)
  show ?case
  proof (cases "mark_at op closing (c # s)")
    case (Some rest)
    then have "set rest \<subseteq> set (c # s)"
      by (auto simp: mark_at_def Let_def split: if_splits dest!: list.set_sel(2) [rotated] in_set_dropD) 
    with 2(2) [OF Some] Some show ?thesis by (auto split: prod.splits)
  qed (use 2(1) in \<open>auto split: prod.splits\<close>)
qed simp

lemma mark_at_suffix: "mark_at op closing s = Some rest \<Longrightarrow> \<exists>u. s = u @ rest"
  unfolding mark_at_def Let_def by (auto split: if_splits) (metis append_take_drop_id append_Cons append_assoc append_Nil hd_Cons_tl drop_drop drop_eq_Nil)

lemma marked_append: "marked op closing s \<Longrightarrow> marked op closing (u @ s)"
  by (induction u) auto

text \<open>A pass over another kind of mark makes none of this kind.\<close>

lemma pass_makes_no_mark:
  assumes "\<not> marked (a # op) closing s" "CHR ''['' \<notin> set op" "closing \<noteq> CHR ''[''" "\<And>k. closing \<notin> set (placeholder k)"
    and placeholders: "\<And>n t. \<not> marked (a # op) closing t \<Longrightarrow> \<not> marked (a # op) closing (placeholder n @ t)"
  shows "\<not> marked (a # op) closing (fst (replace_marks (CHR ''['' # bs) c1 n s))"
  using assms(1)
proof (induction "length s" arbitrary: n s rule: less_induct)
  case less
  let ?pass = "\<lambda>n s. fst (replace_marks (CHR ''['' # bs) c1 n s)"
  show ?case
  proof (cases s)
    case (Cons c s')
    show ?thesis
    proof (cases "mark_at (CHR ''['' # bs) c1 (c # s')")
      case (Some rest)
      then have "length rest < length s" "\<not> marked (a # op) closing rest"
        using Cons mark_at_shorter [OF Some] mark_at_suffix [OF Some] less(2) marked_append by (auto, metis)
      from placeholders [OF less(1) [OF this]] Some Cons show ?thesis by (simp add: fst_replace_Cons del: replace_marks.simps)
    next
      case None
      from less(2) Cons have none: "mark_at (a # op) closing (c # s') = None" by simp
      have "mark_at (a # op) closing (c # ?pass n s') = None"
      proof (cases "c = a \<and> take (length op) (?pass n s') = op")
        case True
        with replaced_prefix [OF assms(2)] obtain r where r: "s' = op @ r" by (metis append_take_drop_id)
        then have out: "?pass n s' = op @ ?pass n r" using assms(2) replace_plain by simp
        from none True r have here: "mark_at (a # op) closing ((a # op) @ r) = None" by simp
        from no_mark_after [OF here] show ?thesis
        proof
          assume "closing \<notin> set r"
          then have "closing \<notin> set (?pass n r)" using replace_chars assms(4) by blast
          from unclosed_after [OF this, of "a # op"] out True show ?thesis by simp
        next
          assume "\<exists>r'. r = closing # r'"
          then obtain v where "?pass n r = closing # v" using mark_at_head [OF assms(3)] by (auto simp: fst_replace_Cons simp del: replace_marks.simps)
          with out True show ?thesis using mark_at_after [of "a # op" closing "closing # v"] by simp
        qed
      qed (auto simp: mark_at_def)
      moreover have "\<not> marked (a # op) closing (?pass n s')" using less(1) [of s'] less(2) Cons by simp
      ultimately show ?thesis using None Cons by (simp add: fst_replace_Cons del: replace_marks.simps)
    qed
  qed simp
qed


text \<open>The second pass may complete a form leak that the first could not see: its placeholder brings the closing bracket.\<close>

lemma form_leak_survives:
  "applyCompactionRedaction ''[BYOK:secret<REDACTED:x>'' = ''[BYOK:secret[REDACTED:carry-forward-0]''"
  "marked BYOK_OPEN (CHR '']'') (applyCompactionRedaction ''[BYOK:secret<REDACTED:x>'')"
  by code_simp+


section \<open>The compaction\<close>

lemma lossy_ascii: "\<forall>c \<in> set u. (of_char c :: nat) < 128 \<Longrightarrow> lossy_text (u @ s) = u @ lossy_text s"
  by (induction u) auto

lemma lossy_valid: "utf8_ok s \<Longrightarrow> lossy_text s = s"
proof (induction s rule: length_induct)
  case (1 s)
  show ?case
  proof (cases s)
    case (Cons c r)
    let ?n = "of_char c :: nat"
    note ok = 1(2) [unfolded Cons]
    consider "?n < 128" | "194 \<le> ?n" "?n < 224" | "224 \<le> ?n" "?n < 240" | "240 \<le> ?n" "?n < 245"
      using ok by (auto simp: Let_def split: if_splits)
    then show ?thesis
    proof cases
      case 1
      with ok "1.IH" Cons show ?thesis by (simp add: Let_def)
    next
      case 2
      with ok obtain x q where "r = x # q" "continues x" "utf8_ok q" by (cases r) (auto simp: Let_def)
      with 2 "1.IH" Cons show ?thesis by (simp add: Let_def char_tail_def followers_def follows_def)
    next
      case 3
      with ok obtain x y q where r: "r = x # y # q" "continues x" "continues y" "utf8_ok q"
        "?n = 224 \<longrightarrow> 160 \<le> (of_char x :: nat)" "?n = 237 \<longrightarrow> (of_char x :: nat) < 160"
        by (auto simp: Let_def split: list.splits)
      with 3 have "char_tail c r = [x, y]" "followers c = 2" by (auto simp: char_tail_def followers_def follows_def Let_def)
      with r 3 "1.IH" Cons show ?thesis by simp
    next
      case 4
      with ok obtain x y z q where r: "r = x # y # z # q" "continues x" "continues y" "continues z" "utf8_ok q"
        "?n = 240 \<longrightarrow> 144 \<le> (of_char x :: nat)" "?n = 244 \<longrightarrow> (of_char x :: nat) < 144"
        by (auto simp: Let_def split: list.splits)
      with 4 have "char_tail c r = [x, y, z]" "followers c = 3" by (auto simp: char_tail_def followers_def follows_def Let_def)
      with r 4 "1.IH" Cons show ?thesis by simp
    qed
  qed simp
qed

text \<open>The redacted joined text of the oldest live entries.\<close>

definition derived_text :: "memory_env \<Rightarrow> nat \<Rightarrow> string \<Rightarrow> string \<Rightarrow> memory_db \<Rightarrow> string" where
  "derived_text env now t ref db = applyCompactionRedaction (join_text SEPARATOR (map mr_content (compaction_sources env now t ref MAX_INPUT_ENTRIES db)))"

text \<open>
  A compaction adds one entry: with two or more live entries under a reference and a cut that falls between two
  characters, it stores the redacted joined text of the oldest ones within the byte limit under a new id, names
  them as its sources, leaves every entry of another id as it was, and the stored entry is what a read by its id answers.
\<close>

theorem compaction_adds_one_entry:
  assumes "length (compaction_sources env now t ref MAX_INPUT_ENTRIES db) \<ge> 2" "limit \<le> MAX_ENTRY_SIZE_BYTES"
    "utf8_ok (take limit (derived_text env now t ref db))"
  shows "\<exists>cp db'. runCompaction env now t ref None (Some limit) db = (Inr (Some cp), db')
    \<and> cp_content cp = take limit (derived_text env now t ref db)
    \<and> cp_size cp = length (cp_content cp) \<and> cp_size cp \<le> limit
    \<and> cp_sources cp = map mr_id (compaction_sources env now t ref MAX_INPUT_ENTRIES db)
    \<and> filter (\<lambda>r. \<not> same_key t ref (cp_output cp) r) db' = filter (\<lambda>r. \<not> same_key t ref (cp_output cp) r) db
    \<and> map_option mn_content (getMemoryEntry env later t ref (cp_output cp) db') = Some (cp_content cp)"
proof -
  let ?sources = "compaction_sources env now t ref MAX_INPUT_ENTRIES db"
  let ?red = "derived_text env now t ref db"
  let ?run = "''compaction-'' @ base36 now"
  let ?inp = "\<lparr>mi_tenant = t, mi_ref = ref, mi_id = ''mem-'' @ ?run, mi_content = take limit ?red,
    mi_tags = Some [''compacted-from:'' @ ?run, ''compacted''], mi_expires = None\<rparr>"
  have content: "compacted_text limit (map mr_content ?sources) = take limit ?red"
    using lossy_valid [OF assms(3)] by (simp add: compacted_text_def derived_text_def Let_def)
  from assms(2) obtain db' where w: "writeMemoryEntry env now ?inp db = Inr db'"
    by (simp add: writeMemoryEntry_def)
  with content assms(1) have "runCompaction env now t ref None (Some limit) db = (Inr (Some \<lparr>cp_output = ''mem-'' @ ?run, cp_sources = map mr_id ?sources,
      cp_count = length ?sources, cp_size = length (take limit ?red), cp_content = take limit ?red\<rparr>), db')"
    by (simp add: runCompaction_def Let_def)
  moreover have "filter (\<lambda>r. \<not> same_key t ref (mi_id ?inp) r) db' = filter (\<lambda>r. \<not> same_key t ref (mi_id ?inp) r) db"
    and "map_option mn_content (getMemoryEntry env later t ref (mi_id ?inp) db') = Some (mi_content ?inp)"
    using write_then_get [OF w] by simp_all
  ultimately show ?thesis by simp
qed

lemma demo_sources: "compaction_sources demo_memory_env n ''t'' ''m'' MAX_INPUT_ENTRIES [demo_memory_row i c, demo_memory_row j d] = [demo_memory_row i c, demo_memory_row j d]"
  by (simp add: compaction_sources_def demo_memory_row_def at_ref_def unexpired_def MAX_INPUT_ENTRIES_def)

lemma compaction_adds_one_entry_witness:
  "\<exists>cp db'. runCompaction demo_memory_env 35 ''t'' ''m'' None (Some 65536) [demo_memory_row ''a'' ''x'', demo_memory_row ''b'' ''[BYOK:k]''] = (Inr (Some cp), db')
     \<and> cp_sources cp = [''a'', ''b''] \<and> map_option mn_content (getMemoryEntry demo_memory_env 40 ''t'' ''m'' (cp_output cp) db') = Some (cp_content cp)
     \<and> cp_content cp = ''x'' @ SEPARATOR @ ''[REDACTED:carry-forward-0]''"
proof -
  let ?db = "[demo_memory_row ''a'' ''x'', demo_memory_row ''b'' ''[BYOK:k]'']"
  have derived: "derived_text demo_memory_env 35 ''t'' ''m'' ?db = ''x'' @ SEPARATOR @ ''[REDACTED:carry-forward-0]''"
    unfolding derived_text_def demo_sources by (simp add: demo_memory_row_def) code_simp
  have "utf8_ok (''x'' @ SEPARATOR @ ''[REDACTED:carry-forward-0]'')" by code_simp
  moreover have "take 65536 (''x'' @ SEPARATOR @ ''[REDACTED:carry-forward-0]'') = ''x'' @ SEPARATOR @ ''[REDACTED:carry-forward-0]''"
    by (rule take_all) (simp add: SEPARATOR_def)
  moreover have "map mr_id ?db = [''a'', ''b'']" by (simp add: demo_memory_row_def)
  moreover have "(2::nat) \<le> length ?db" "(65536::nat) \<le> MAX_ENTRY_SIZE_BYTES" by (simp_all add: MAX_ENTRY_SIZE_BYTES_def)
  ultimately show ?thesis
    using compaction_adds_one_entry [of demo_memory_env 35 "''t''" "''m''" ?db 65536 40] unfolding derived demo_sources by metis
qed

text \<open>A cut inside a character makes the text longer than the limit: two entries, each within the cap, whose compaction throws.\<close>

lemma plain_redacts_to_itself: "CHR ''['' \<notin> set s \<Longrightarrow> CHR ''<'' \<notin> set s \<Longrightarrow> applyCompactionRedaction s = s"
  using marked_plain [of "CHR ''[''" s "''BYOK:''" "CHR '']''" "[]"] marked_plain [of "CHR ''<''" s "''REDACTED:''" "CHR ''>''" "[]"]
  by (simp add: applyCompactionRedaction_def BYOK_OPEN_def REDACTED_OPEN_def replace_unmarked)

lemma compaction_throws_on:
  assumes n: "n + m = 65528"
  defines "a \<equiv> replicate n (CHR ''a'')" and "b \<equiv> replicate m (CHR ''a'') @ [CHR 0xC3, CHR 0xA9]"
  shows "length a \<le> MAX_ENTRY_SIZE_BYTES \<and> length b \<le> MAX_ENTRY_SIZE_BYTES \<and> utf8_ok a \<and> utf8_ok b
    \<and> fst (runCompaction demo_memory_env 35 ''t'' ''m'' None None [demo_memory_row ''a'' a, demo_memory_row ''b'' b])
        = Inl (JsError (''memory entry content exceeds host cap of '' @ nat_string 65536 @ '' bytes''))"
proof -
  have ascii: "utf8_ok (replicate n (CHR ''a'') @ s) = utf8_ok s" for n s by (induction n) simp_all
  let ?u = "a @ SEPARATOR @ replicate m (CHR ''a'')"
  have u: "length ?u = 65535" "\<forall>c \<in> set ?u. (of_char c :: nat) < 128" using n by (auto simp: a_def SEPARATOR_def)
  have joined: "join_text SEPARATOR [a, b] = ?u @ [CHR 0xC3, CHR 0xA9]" by (simp add: b_def)
  have "applyCompactionRedaction (?u @ [CHR 0xC3, CHR 0xA9]) = ?u @ [CHR 0xC3, CHR 0xA9]"
    by (rule plain_redacts_to_itself) (auto simp: a_def SEPARATOR_def)
  moreover have "take 65536 (?u @ [CHR 0xC3, CHR 0xA9]) = ?u @ [CHR 0xC3]" using u(1) by (simp only: take_append) (simp add: take_all)
  moreover have "lossy_text (?u @ [CHR 0xC3]) = ?u @ REPLACEMENT"
    using lossy_ascii [OF u(2)] by (simp only:) (simp add: char_tail_def followers_def)
  ultimately have "compacted_text MAX_ENTRY_SIZE_BYTES [a, b] = ?u @ REPLACEMENT"
    using u(1) unfolding compacted_text_def joined by (simp add: MAX_ENTRY_SIZE_BYTES_def Let_def del: append_assoc)
  moreover have "length (?u @ REPLACEMENT) = 65538" using u(1) by (simp add: REPLACEMENT_def)
  moreover have "mr_content (demo_memory_row i c) = c" for i c by (simp add: demo_memory_row_def)
  ultimately have "fst (runCompaction demo_memory_env 35 ''t'' ''m'' None None [demo_memory_row ''a'' a, demo_memory_row ''b'' b])
      = Inl (JsError (''memory entry content exceeds host cap of '' @ nat_string 65536 @ '' bytes''))"
    unfolding runCompaction_def by (simp add: demo_sources writeMemoryEntry_def Let_def MAX_ENTRY_SIZE_BYTES_def del: append_assoc length_append)
  moreover have "utf8_ok a" "utf8_ok b" using ascii [of n "[]"] ascii [of m "[CHR 0xC3, CHR 0xA9]"] by (simp_all add: a_def b_def continues_def)
  ultimately show ?thesis using n by (simp add: a_def b_def MAX_ENTRY_SIZE_BYTES_def)
qed

lemma compaction_may_throw:
  "\<exists>a b. length a \<le> MAX_ENTRY_SIZE_BYTES \<and> length b \<le> MAX_ENTRY_SIZE_BYTES \<and> utf8_ok a \<and> utf8_ok b
    \<and> fst (runCompaction demo_memory_env 35 ''t'' ''m'' None None [demo_memory_row ''a'' a, demo_memory_row ''b'' b])
        = Inl (JsError (''memory entry content exceeds host cap of '' @ nat_string 65536 @ '' bytes''))"
  by (intro exI, rule compaction_throws_on [of 60000 5528]) simp

end
