(* ===== verification/Spec2Isabelle.thy ===== *)
theory Spec2Isabelle
  imports Schedules Ids Replay Chain_Expansion Chains Audit_Log Admission Idempotency Deliveries Run_Surface OAuth_Grants Pack_Catalog A2A_Server Negotiation Host_Events Convergence Jwt_Bearer Memory
begin

text \<open>
  The OpenWOP v2 reference host, \<open>examples/hosts/v2-reference/src\<close>: a workflow host over HTTP that keeps every
  run as an append-only event log, folds that log before each scheduling step, and serves the runs to REST,
  event-stream, webhook, MCP and A2A clients. Beside it, the workflow-chain expansion of
  \<open>examples/hosts/in-memory/src\<close> and four modules of \<open>examples/hosts/postgres/src\<close>. File names below are of the first
  directory where no other is named.

  \<^bold>\<open>How the program is put together.\<close> \<open>store.ts\<close> holds the tables; \<open>events.ts\<close> appends to a log through the codemap
  (\<open>codemap.ts\<close>, \<open>artifacts.ts\<close>) that fixes its vocabulary; \<open>executor.ts\<close> reads a log back, picks the next owed node,
  executes it (\<open>effects.ts\<close>, \<open>budget.ts\<close>, \<open>nondeterminism.ts\<close>) and appends what happened, suspending on interrupts
  (\<open>interrupts.ts\<close>, \<open>council.ts\<close>). \<open>router.ts\<close> admits a request (\<open>identity.ts\<close>, \<open>scopes.ts\<close>, \<open>oidc-lane.ts\<close>), makes it
  idempotent and hands it to the run surface (\<open>runs.ts\<close>), the MCP mount (\<open>mcp-server.ts\<close>), the A2A interface
  (\<open>a2a-server.ts\<close>, \<open>a2a-push.ts\<close>, \<open>agents.ts\<close>, \<open>purpose.ts\<close>), the OAuth client (\<open>oauth.ts\<close>) or the pack catalog (\<open>packs.ts\<close>,
  \<open>chains.ts\<close>). What leaves the host goes through \<open>egress.ts\<close>: webhook deliveries (\<open>webhooks.ts\<close>), host events
  (\<open>host-events.ts\<close>), and the MCP and A2A clients (\<open>interop.ts\<close>, \<open>mcp-client.ts\<close>). \<open>audit.ts\<close> keeps a hash-chained record
  of the decisions.

  \<^bold>\<open>Conventions.\<close> A table is a list of rows; a JavaScript \<open>Map\<close> an association list; a string the list of its UTF-8
  bytes; a timestamp its milliseconds; a JSON value the datatype of \<open>Prelude\<close>, with integers for numbers. A function
  that throws answers a sum, \<open>Inl\<close> the error; a step that threw leaves the world as the code left it. State
  is passed explicitly: \<open>world\<close> (\<open>Host_Types\<close>) is the tables with the clock, the supply of random identifiers and
  the in-memory maps of the process. What is outside the repository is a field of an environment record:
  digests and signatures, the URL parser, name resolution and the connections, the regular expressions of
  workflow authors, the contract's documents and its schema checker. A function that awaits is cut at the
  await into what runs before it and what runs after, and the property theories let anything the host does
  happen between the two.

  \<^bold>\<open>The theories.\<close>
  \<^item> \<open>Prelude\<close>, \<open>Json\<close>, \<open>Encoding\<close>, \<open>Canonical\<close>, \<open>Ids\<close>, \<open>Trace\<close>: values, printing and parsing, \<open>base64url\<close>, canonical JSON,
    identifiers (\<open>ids.ts\<close>) and trace contexts (\<open>trace-context.ts\<close>), with the round trips of each.
  \<^item> \<open>Store\<close>, \<open>Host_Types\<close>, \<open>Codemap\<close>, \<open>Events\<close>, \<open>Fold\<close>, \<open>Graph\<close>: the tables and the locale of a claim table, the host's
    records, the vocabulary of a log, the append-only log and its locale, the folded state of a run, the
    order of its nodes and the next owed one.
  \<^item> \<open>Interrupts\<close>, \<open>Effects\<close>, \<open>Nodes\<close>, \<open>Executor\<close>, \<open>Executor_Inv\<close>, \<open>System\<close>, \<open>Schedules\<close>, \<open>Replay\<close>: the executor. \<open>System\<close> interleaves
    the operations of the host as an event loop does; \<open>Executor_Inv\<close> is the locale in which one lemma per
    operation carries an invariant of the world, and \<open>Schedules\<close> draws the invariants of all schedules from it:
    logs only grow, keep one vocabulary, and start no more nodes than the recursion limit.
  \<^item> \<open>Identity\<close>, \<open>Routing\<close>, \<open>Router\<close>, \<open>Admission\<close>, \<open>Idempotency\<close>: the front door. The token bucket counts in exact units;
    the idempotency protocol is refined to a three-state contract per key.
  \<^item> \<open>Paging\<close>, \<open>Stream_Frames\<close>, \<open>Runs\<close>, \<open>Run_Surface\<close>: the handlers over the runs, the event stream, and keyset pages as a
    locale with two interpretations.
  \<^item> \<open>Egress\<close>, \<open>Webhooks\<close>, \<open>Deliveries\<close>, \<open>Host_Events\<close>: the outbound guard on the bytes of an address, subscriptions,
    attempts and dead letters, and the host's own event stream with its resumption.
  \<^item> \<open>One_Shot\<close>, \<open>OAuth\<close>, \<open>OAuth_Grants\<close>: the authorization-code client. \<open>One_Shot\<close> is the locale of things that happen at
    most once; the grants, the MCP request states and the A2A messages are its interpretations.
  \<^item> \<open>Audit_Log\<close>; \<open>Chains\<close>, \<open>Chain_Expansion\<close>, \<open>Packs\<close>, \<open>Pack_Catalog\<close>: the audit log and its verification; the registry of
    chains, their expansion, the archive reader and the catalog.
  \<^item> \<open>Mcp\<close>, \<open>Mcp_Server\<close>, \<open>Agents\<close>, \<open>A2A_Push\<close>, \<open>A2A\<close>, \<open>A2A_Server\<close>: the two protocol servers over the run operations.
  \<^item> \<open>Interop\<close>, \<open>Mcp_Client\<close>, \<open>Negotiation\<close>: the two protocol clients: the decision of a version, its record on the log,
    and the bounded rounds of a tool call.
  \<^item> \<open>Convergence\<close>, \<open>Jwt_Validator\<close>, \<open>Jwt_Bearer\<close>, \<open>Memory_Adapter\<close>, \<open>Memory\<close>: modules of the PostgreSQL host: the rules by which engines
    and regions agree (\<open>cross-engine-append.ts\<close>, \<open>multi-region.ts\<close>), the bearer validator (\<open>jwt-validator.ts\<close>), and the
    agents' memory with its redaction and compaction (\<open>memory-adapter.ts\<close>).
  \<^item> \<open>Demo\<close>: a small host the witnesses evaluate on.

  \<^bold>\<open>What the theorems show.\<close> Each property stands under its number in the theory that proves it. In groups: the log
  and the executor (order, vocabulary, bounds, scheduling, quorum, fork); isolation of tenants on every
  surface (runs, webhooks, MCP tasks, A2A tasks, host events); authorisation (revocation, delegation,
  OIDC, scopes, egress); things that happen once (keyed requests, grants, request states, messages);
  what is kept from a reader (push credentials, secrets in forms); evidence (the audit log, signed chains,
  exact pages, streams and resumptions); agreement without coordination (append channels, regions);
  and the contracts of the registries. Theorems without a number are
  library theorems of the same kind.

  \<^bold>\<open>Bounds.\<close> No definition runs on fuel that could run out unseen. The depth of chain composition is the code's own
  bound, the rounds of a tool call its \<open>maxRounds\<close>, the attempts of a delivery its configured maximum, the
  loop of a run its recursion limit; loops over lists recurse on the list. A stream of random draws or of
  network states is an argument, consumed in order.

  \<^bold>\<open>Not modelled.\<close> SQL execution, transactions and the schema migration (a statement is atomic); sockets, timers as real
  time (they are operations of a schedule) and the lines written to standard output; the JSON schemas a value
  is validated against (\<open>validate.ts\<close>, \<open>forms.ts\<close>: a third-party compiler); numbers with a fraction;
  properties a plain object inherits from \<open>Object.prototype\<close>, except where \<open>runs.ts\<close> lets a caller reach them; the
  order of integer-like keys; replacement characters of invalid UTF-8, except in \<open>Memory_Adapter\<close>, and white space beyond ASCII; the
  body of the workflow read; the delay of the idempotency hold; keep-alive comments, the heartbeat of the host
  stream and the framing of an SSE answer of MCP; the moment at which the MCP and A2A servers record an
  inbound negotiation (the record itself is \<open>auditInbound\<close>); what a skill of an Agent Card says of its
  workflow. Whole files left out: \<open>discovery.ts\<close>, \<open>openapi.ts\<close> and \<open>config.ts\<close> (documents and values rendered from the
  configuration), \<open>run-artifacts.ts\<close>, \<open>tool-catalog.ts\<close> and \<open>safe-fetch.ts\<close> (read-only projections and a wrapper of a
  third-party client), \<open>saml-scim.ts\<close> (a conformance seam over XML matched by regular expressions), \<open>sandbox.ts\<close>
  (child processes), most of \<open>seams.ts\<close> and \<open>server.ts\<close> (fixtures and wiring), and the hosts of protocol version 1
  (in-memory, SQLite, PostgreSQL, WebAssembly, Python), which serve the same operations over other stores, but for the
  modules named above.
\<close>

end
